(* ===== verification/Prelude.thy ===== *)
theory Prelude
  imports Main "HOL-Library.Word" "HOL-Library.List_Lexorder" "HOL-Library.Char_ord" "HOL-Library.Sublist"
begin

text \<open>
  What every component of the model shares.  A Go \<open>error\<close> result is an \<open>error option\<close>
  (\<open>None\<close> is \<open>nil\<close>), and a Go result \<open>(T, error)\<close> is a value of \<open>error + 'a\<close>
  (\<open>Inl\<close> the error).  A formatted error keeps its format string and its string operands; the
  exported sentinel errors of the code are kept apart, since the code tests for them with
  \<open>errors.Is\<close>.  Below them: sequencing of checks and of loop bodies with early return, the
  pointer map that the reducer and the executor share, and the lemmas about all of these.
\<close>

section \<open>Errors\<close>

datatype sentinel =
    ErrCorruptRecord | ErrSequence | ErrUnsupportedVersion | ErrUnknownEventType
  | ErrWriterLocked | ErrWriterPoisoned | ErrWriterClosed | ErrUnboundJournal | ErrPlanMismatch
  | ErrDriverContract | ErrLeaseHeld | ErrLeaseExpired
  | ErrNotFound | ErrUnavailable | ErrReleased | ErrSourceConflict | ErrAmbiguousSource | ErrOutputLimit
  | ErrNotExist | ErrExist | ErrConflict | ErrAmbiguous
  | ErrShortWrite | ErrIO | ErrCanceled | ErrDeadlineExceeded | NilDereference

datatype error = Errorf string "string list" | ErrorIs sentinel string "string list"

definition errors_is :: "error \<Rightarrow> sentinel \<Rightarrow> bool" where
  "errors_is e s \<longleftrightarrow> (case e of Errorf _ _ \<Rightarrow> False | ErrorIs s' _ _ \<Rightarrow> s' = s)"

lemma errors_is_simps [simp]:
  "errors_is (Errorf f xs) s = False"
  "errors_is (ErrorIs s' f xs) s = (s' = s)"
  by (simp_all add: errors_is_def)

type_synonym 'a result = "error + 'a"

named_theorems checks \<open>when a sequence of checks reports no error\<close>

definition fail_if :: "bool \<Rightarrow> error \<Rightarrow> error option" where
  "fail_if b e = (if b then Some e else None)"

fun first_error :: "error option list \<Rightarrow> error option" where
  "first_error [] = None"
| "first_error (None # cs) = first_error cs"
| "first_error (Some e # cs) = Some e"

definition checked :: "error option \<Rightarrow> 'a \<Rightarrow> 'a result" where
  "checked c x = (case c of None \<Rightarrow> Inr x | Some e \<Rightarrow> Inl e)"

definition bind_result :: "'a result \<Rightarrow> ('a \<Rightarrow> 'b result) \<Rightarrow> 'b result" where
  "bind_result r f = (case r of Inl e \<Rightarrow> Inl e | Inr x \<Rightarrow> f x)"

definition is_ok :: "'a result \<Rightarrow> bool" where
  "is_ok r \<longleftrightarrow> (case r of Inl _ \<Rightarrow> False | Inr _ \<Rightarrow> True)"

lemma fail_if_None [checks, simp]: "fail_if b e = None \<longleftrightarrow> \<not> b"
  by (simp add: fail_if_def)

lemma fail_if_simps [simp]: "fail_if True e = Some e" "fail_if False e = None"
  by (simp_all add: fail_if_def)

lemma first_error_Cons [checks]:
  "first_error (c # cs) = None \<longleftrightarrow> c = None \<and> first_error cs = None"
  by (cases c) simp_all

lemma first_error_None: "first_error cs = None \<longleftrightarrow> (\<forall>c \<in> set cs. c = None)"
  by (induction cs) (auto simp: first_error_Cons)

lemma first_error_map_None: "first_error (map f xs) = None \<longleftrightarrow> (\<forall>x \<in> set xs. f x = None)"
  by (auto simp: first_error_None)

lemma checked_Inr [checks, simp]: "checked c x = Inr y \<longleftrightarrow> c = None \<and> x = y"
  by (cases c) (auto simp: checked_def)

lemma checked_Inl [simp]: "checked c x = Inl e \<longleftrightarrow> c = Some e"
  by (cases c) (auto simp: checked_def)

lemma checked_simps [simp]: "checked None x = Inr x" "checked (Some e) x = Inl e"
  by (simp_all add: checked_def)

lemma bind_result_simps [simp]:
  "bind_result (Inl e) f = Inl e"
  "bind_result (Inr x) f = f x"
  by (simp_all add: bind_result_def)

lemma bind_result_Inr [checks]: "bind_result r f = Inr y \<longleftrightarrow> (\<exists>x. r = Inr x \<and> f x = Inr y)"
  by (cases r) simp_all

lemma bind_result_assoc:
  "bind_result (bind_result r f) g = bind_result r (\<lambda>x. bind_result (f x) g)"
  by (cases r) simp_all

lemma bind_checked: "bind_result (checked c x) f = (case c of None \<Rightarrow> f x | Some e \<Rightarrow> Inl e)"
  by (cases c) (simp_all add: checked_def)

lemma is_ok_simps [simp]: "is_ok (Inr x)" "\<not> is_ok (Inl e)"
  by (simp_all add: is_ok_def)

lemma is_ok_iff: "is_ok r \<longleftrightarrow> (\<exists>x. r = Inr x)"
  by (cases r) simp_all

section \<open>Loops with early return\<close>

fun for_each :: "('s \<Rightarrow> 'a \<Rightarrow> 's result) \<Rightarrow> 's \<Rightarrow> 'a list \<Rightarrow> 's result" where
  "for_each f s [] = Inr s"
| "for_each f s (x # xs) = bind_result (f s x) (\<lambda>s'. for_each f s' xs)"

lemma for_each_append:
  "for_each f s (xs @ ys) = bind_result (for_each f s xs) (\<lambda>s'. for_each f s' ys)"
  by (induction xs arbitrary: s) (simp_all add: bind_result_assoc)

lemma for_each_append_Inr [checks]:
  "for_each f s (xs @ ys) = Inr u \<longleftrightarrow> (\<exists>t. for_each f s xs = Inr t \<and> for_each f t ys = Inr u)"
  by (simp add: for_each_append bind_result_Inr)

lemma for_each_snoc_Inr:
  "for_each f s (xs @ [x]) = Inr u \<longleftrightarrow> (\<exists>t. for_each f s xs = Inr t \<and> f t x = Inr u)"
  by (auto simp: for_each_append_Inr bind_result_Inr)

text \<open>An invariant of the body is an invariant of the loop.\<close>

lemma for_each_invariant:
  assumes "for_each f s xs = Inr t" and "P s"
    and "\<And>s x s'. x \<in> set xs \<Longrightarrow> P s \<Longrightarrow> f s x = Inr s' \<Longrightarrow> P s'"
  shows "P t"
  using assms
proof (induction xs arbitrary: s)
  case Nil
  then show ?case by simp
next
  case (Cons x xs)
  from Cons.prems(1) obtain s1 where s1: "f s x = Inr s1" "for_each f s1 xs = Inr t"
    by (auto simp: bind_result_Inr)
  have "P s1" by (rule Cons.prems(3) [OF _ Cons.prems(2) s1(1)]) simp
  with s1(2) show ?case
    by (rule Cons.IH) (use Cons.prems(3) in auto)
qed

section \<open>Pointer maps\<close>

text \<open>
  A Go \<open>map[K]*T\<close> whose keys are fixed once it is built: an association list, read with
  \<open>map_of\<close>; writing through the pointer stored at a key is \<open>adjust\<close>.
\<close>

definition adjust :: "'k \<Rightarrow> ('v \<Rightarrow> 'v) \<Rightarrow> ('k \<times> 'v) list \<Rightarrow> ('k \<times> 'v) list" where
  "adjust k f m = map (\<lambda>(k', v). (k', if k' = k then f v else v)) m"

fun map_insert :: "'k \<Rightarrow> 'v \<Rightarrow> ('k \<times> 'v) list \<Rightarrow> ('k \<times> 'v) list" where
  "map_insert k v [] = [(k, v)]"
| "map_insert k v ((k', v') # m) = (if k' = k then (k, v) # m else (k', v') # map_insert k v m)"

lemma map_of_adjust [simp]:
  "map_of (adjust k f m) k' = (if k' = k then map_option f (map_of m k) else map_of m k')"
  by (induction m) (auto simp: adjust_def)

lemma keys_adjust [simp]: "map fst (adjust k f m) = map fst m"
  by (induction m) (auto simp: adjust_def)

lemma fst_set_adjust [simp]: "fst ` set (adjust k f m) = fst ` set m"
  by (metis keys_adjust set_map)

lemma map_of_map_insert [simp]: "map_of (map_insert k v m) = (map_of m)(k \<mapsto> v)"
  by (induction m) (auto simp: fun_eq_iff)

lemma keys_map_insert: "set (map fst (map_insert k v m)) = insert k (set (map fst m))"
proof (induction m)
  case Nil
  then show ?case by simp
next
  case (Cons p m)
  then show ?case by (cases p) (auto simp: insert_commute)
qed

lemma distinct_map_insert [simp]:
  "distinct (map fst (map_insert k v m)) = distinct (map fst m)"
proof (induction m)
  case Nil
  then show ?case by simp
next
  case (Cons p m)
  then show ?case using keys_map_insert [of k v m] by (cases p) auto
qed

lemma map_insert_fresh: "k \<notin> fst ` set m \<Longrightarrow> map_insert k v m = m @ [(k, v)]"
  by (induction m) auto

lemma set_adjust:
  assumes "distinct (map fst m)"
  shows "(k', v') \<in> set (adjust k f m) \<longleftrightarrow>
    (\<exists>v. (k', v) \<in> set m \<and> v' = (if k' = k then f v else v))"
  using assms by (force simp: adjust_def)

text \<open>A property of every value, keyed: what an update through one pointer must keep.\<close>

definition all_entries :: "('k \<Rightarrow> 'v \<Rightarrow> bool) \<Rightarrow> ('k \<times> 'v) list \<Rightarrow> bool" where
  "all_entries P m \<longleftrightarrow> (\<forall>(k, v) \<in> set m. P k v)"

lemma all_entries_adjust:
  assumes "all_entries P m" and "\<And>v. (k, v) \<in> set m \<Longrightarrow> P k v \<Longrightarrow> P k (f v)"
  shows "all_entries P (adjust k f m)"
  using assms by (fastforce simp: all_entries_def adjust_def)

lemma all_entriesD: "all_entries P m \<Longrightarrow> map_of m k = Some v \<Longrightarrow> P k v"
  by (auto simp: all_entries_def dest: map_of_SomeD)

section \<open>Sets of seen keys\<close>

text \<open>The first element of a list that occurs earlier in it: what a loop with a \<open>seen\<close> map reports.\<close>

fun first_repeat :: "'a list \<Rightarrow> 'a list \<Rightarrow> 'a option" where
  "first_repeat seen [] = None"
| "first_repeat seen (x # xs) = (if x \<in> set seen then Some x else first_repeat (x # seen) xs)"

lemma first_repeat_None_iff:
  "first_repeat seen xs = None \<longleftrightarrow> distinct xs \<and> set xs \<inter> set seen = {}"
  by (induction xs arbitrary: seen) auto

section \<open>Sorting by a string key\<close>

lemma sort_key_permutes [simp]: "set (sort_key f xs) = set xs" "length (sort_key f xs) = length xs"
  by simp_all

lemma map_of_map_pair:
  "map_of (map (\<lambda>(k, v). (k, g k v)) m) k = map_option (g k) (map_of m k)"
  by (induction m) auto

end
