(* ===== verification/Go_Text.thy ===== *)
theory Go_Text
  imports Prelude Go_Unicode
begin

text \<open>
  Go strings are byte sequences: \<open>string\<close> (a \<open>char\<close> is one byte).  This theory holds what the
  code uses of \<open>unicode/utf8\<close>, \<open>unicode\<close>, \<open>strings\<close> and \<open>encoding/hex\<close>, and the two text
  validators every component calls: \<open>validateIdentifier\<close> and the \<open>validateText\<close> of the domain
  and of the journal and executor packages.
\<close>

section \<open>UTF-8\<close>

definition byte :: "char \<Rightarrow> nat" where
  "byte c = of_char c"

lemma byte_char_of [simp]: "byte (char_of n) = n mod 256"
  by (simp add: byte_def)

definition continuation :: "nat \<Rightarrow> nat \<Rightarrow> char \<Rightarrow> bool" where
  "continuation lo hi c \<longleftrightarrow> lo \<le> byte c \<and> byte c \<le> hi"

text \<open>
  The least and greatest admissible second byte for a leading byte, as in the table of
  \<open>utf8.DecodeRuneInString\<close>: surrogates, overlong forms and values above 0x10FFFF are excluded.
\<close>

definition second_range :: "nat \<Rightarrow> nat \<times> nat" where
  "second_range b =
     (if b = 0xE0 then (0xA0, 0xBF) else if b = 0xED then (0x80, 0x9F)
      else if b = 0xF0 then (0x90, 0xBF) else if b = 0xF4 then (0x80, 0x8F) else (0x80, 0xBF))"

text \<open>The rune at the start of a nonempty string and its width; \<open>None\<close> for an invalid encoding, of width 1.\<close>

fun decode_rune :: "string \<Rightarrow> nat option \<times> nat" where
  "decode_rune [] = (None, 0)"
| "decode_rune (c # cs) =
     (let b = byte c; (lo, hi) = second_range b in
      if b < 0x80 then (Some b, 1)
      else if 0xC2 \<le> b \<and> b \<le> 0xDF then
        (case cs of c1 # _ \<Rightarrow>
           if continuation lo hi c1 then (Some ((b - 0xC0) * 64 + (byte c1 - 0x80)), 2) else (None, 1)
         | _ \<Rightarrow> (None, 1))
      else if 0xE0 \<le> b \<and> b \<le> 0xEF then
        (case cs of c1 # c2 # _ \<Rightarrow>
           if continuation lo hi c1 \<and> continuation 0x80 0xBF c2
           then (Some ((b - 0xE0) * 4096 + (byte c1 - 0x80) * 64 + (byte c2 - 0x80)), 3) else (None, 1)
         | _ \<Rightarrow> (None, 1))
      else if 0xF0 \<le> b \<and> b \<le> 0xF4 then
        (case cs of c1 # c2 # c3 # _ \<Rightarrow>
           if continuation lo hi c1 \<and> continuation 0x80 0xBF c2 \<and> continuation 0x80 0xBF c3
           then (Some ((b - 0xF0) * 262144 + (byte c1 - 0x80) * 4096 + (byte c2 - 0x80) * 64
                       + (byte c3 - 0x80)), 4)
           else (None, 1)
         | _ \<Rightarrow> (None, 1))
      else (None, 1))"

text \<open>A \<open>range\<close> loop over a string: each rune (\<open>None\<close> if invalid) with the bytes it covers.\<close>

function rune_chunks :: "string \<Rightarrow> (nat option \<times> string) list" where
  "rune_chunks [] = []"
| "rune_chunks (c # cs) =
     (let (r, n) = decode_rune (c # cs) in (r, take n (c # cs)) # rune_chunks (drop (n - 1) cs))"
  by pat_completeness auto
termination
  by (relation "measure length") auto

definition valid_string :: "string \<Rightarrow> bool" where
  "valid_string s \<longleftrightarrow> list_all (\<lambda>(r, _). r \<noteq> None) (rune_chunks s)"

text \<open>\<open>unicode.IsSpace\<close> and \<open>unicode.IsControl\<close>; an invalid byte is U+FFFD, which is neither.\<close>

definition is_space :: "nat option \<Rightarrow> bool" where
  "is_space r = (case r of None \<Rightarrow> False | Some u \<Rightarrow>
     (9 \<le> u \<and> u \<le> 13) \<or> u = 32 \<or> u = 0x85 \<or> u = 0xA0 \<or> u = 0x1680 \<or> (0x2000 \<le> u \<and> u \<le> 0x200A)
     \<or> u = 0x2028 \<or> u = 0x2029 \<or> u = 0x202F \<or> u = 0x205F \<or> u = 0x3000)"

definition is_control :: "nat option \<Rightarrow> bool" where
  "is_control r = (case r of None \<Rightarrow> False | Some u \<Rightarrow> u \<le> 0x1F \<or> (0x7F \<le> u \<and> u \<le> 0x9F))"

text \<open>
  \<open>strings.TrimSpace\<close> on valid UTF-8, where reading the last rune from the right and from the left
  agree (every caller has checked the encoding before).
\<close>

definition trim_space :: "string \<Rightarrow> string" where
  "trim_space s = concat (map snd
     (dropWhile (is_space \<circ> fst) (rev (dropWhile (is_space \<circ> fst) (rev (rune_chunks s))))))"

definition has_control :: "string \<Rightarrow> bool" where
  "has_control s \<longleftrightarrow> list_ex (\<lambda>(r, _). is_control r) (rune_chunks s)"

lemma decode_rune_width: "decode_rune (c # cs) = (r, n) \<Longrightarrow> 0 < n \<and> n \<le> length (c # cs)"
  by (auto simp: Let_def split: if_splits list.splits prod.splits)

lemma decode_rune_ascii [simp]: "byte c < 0x80 \<Longrightarrow> decode_rune (c # cs) = (Some (byte c), 1)"
  by (cases "second_range (byte c)") (simp add: Let_def)

declare decode_rune.simps(2) [simp del]

lemma rune_chunks_concat: "concat (map snd (rune_chunks s)) = s"
proof (induction s rule: rune_chunks.induct)
  case (2 c cs)
  obtain r n where rn: "decode_rune (c # cs) = (r, n)" by (cases "decode_rune (c # cs)")
  then have n: "0 < n" using decode_rune_width by blast
  have "concat (map snd (rune_chunks (drop (n - 1) cs))) = drop (n - 1) cs"
    using "2.IH" [OF refl] rn by simp
  moreover have "take n (c # cs) @ drop (n - 1) cs = c # cs"
    using n by (cases n) simp_all
  ultimately show ?case using rn by simp
qed simp

text \<open>Trimming keeps a segment of the string, so a string equal to its trimming has no space at an end.\<close>

lemma trim_space_sublist: "sublist (trim_space s) s"
proof -
  let ?p = "is_space \<circ> fst" and ?c = "rune_chunks s"
  obtain xs where xs: "rev ?c = xs @ dropWhile ?p (rev ?c)" by (metis takeWhile_dropWhile_id)
  let ?m = "rev (dropWhile ?p (rev ?c))"
  obtain ys where ys: "?m = ys @ dropWhile ?p ?m" by (metis takeWhile_dropWhile_id)
  have "?c = ?m @ rev xs" using xs by (metis rev_append rev_rev_ident)
  then have "?c = ys @ dropWhile ?p ?m @ rev xs" using ys by (metis append_assoc)
  then have "s = concat (map snd ys) @ trim_space s @ concat (map snd (rev xs))"
    unfolding trim_space_def by (metis rune_chunks_concat map_append concat_append)
  then show ?thesis by (metis sublist_appendI)
qed

section \<open>Text validators\<close>

definition max_identifier_length :: nat where
  "max_identifier_length = 256"

definition check_control :: "string \<Rightarrow> string \<Rightarrow> error option" where
  "check_control name value =
     fail_if (has_control value) (Errorf ''%s must not contain control characters'' [name])"

definition validate_identifier :: "string \<Rightarrow> string \<Rightarrow> error option" where
  "validate_identifier name value =
     (if value = [] then Some (Errorf ''%s must not be empty'' [name])
      else if \<not> valid_string value then Some (Errorf ''%s must be valid UTF-8'' [name])
      else if length value > max_identifier_length then Some (Errorf ''%s exceeds %d bytes'' [name])
      else if trim_space value \<noteq> value
        then Some (Errorf ''%s must not have surrounding whitespace'' [name])
      else check_control name value)"

text \<open>The domain's \<open>validateText\<close>; that of the journal and the executor also bounds the length.\<close>

definition validate_text :: "string \<Rightarrow> string \<Rightarrow> bool \<Rightarrow> error option" where
  "validate_text name value optional =
     (if value = [] then (if optional then None else Some (Errorf ''%s must not be empty'' [name]))
      else if \<not> valid_string value then Some (Errorf ''%s must be valid UTF-8'' [name])
      else if trim_space value \<noteq> value
        then Some (Errorf ''%s must not have surrounding whitespace'' [name])
      else check_control name value)"

definition validate_text256 :: "string \<Rightarrow> string \<Rightarrow> bool \<Rightarrow> error option" where
  "validate_text256 name value optional =
     (if value = [] then (if optional then None else Some (Errorf ''%s must not be empty'' [name]))
      else if \<not> valid_string value then Some (Errorf ''%s must be valid UTF-8'' [name])
      else if length value > 256 then Some (Errorf ''%s exceeds 256 bytes'' [name])
      else if trim_space value \<noteq> value
        then Some (Errorf ''%s must not have surrounding whitespace'' [name])
      else check_control name value)"

lemma validate_identifier_nonempty [simp]: "validate_identifier n [] \<noteq> None"
  by (simp add: validate_identifier_def)

lemma validate_text_empty [simp]: "validate_text n [] opt = None \<longleftrightarrow> opt"
  by (simp add: validate_text_def)

lemma validate_text256_empty [simp]: "validate_text256 n [] opt = None \<longleftrightarrow> opt"
  by (simp add: validate_text256_def)

lemma validate_identifier_iff:
  "validate_identifier n v = None \<longleftrightarrow>
     v \<noteq> [] \<and> valid_string v \<and> length v \<le> 256 \<and> trim_space v = v \<and> \<not> has_control v"
  by (simp add: validate_identifier_def check_control_def max_identifier_length_def)

lemma validate_text_iff:
  "validate_text n v opt = None \<longleftrightarrow>
     (v = [] \<and> opt) \<or> (v \<noteq> [] \<and> valid_string v \<and> trim_space v = v \<and> \<not> has_control v)"
  by (auto simp: validate_text_def check_control_def)

lemma validate_text256_identifier:
  "validate_text256 n v False = None \<longleftrightarrow> validate_identifier m v = None"
  by (auto simp: validate_text256_def validate_identifier_def check_control_def
      max_identifier_length_def)

definition valid_identifier :: "string \<Rightarrow> bool" where
  "valid_identifier v \<longleftrightarrow> validate_identifier ''identifier'' v = None"

lemma validate_identifier_valid [simp]: "validate_identifier n v = None \<longleftrightarrow> valid_identifier v"
  unfolding valid_identifier_def by (simp only: validate_identifier_iff)

lemma validate_text256_valid [simp]: "validate_text256 n v False = None \<longleftrightarrow> valid_identifier v"
  unfolding valid_identifier_def by (rule validate_text256_identifier)

lemma valid_identifier_nonempty [simp]: "\<not> valid_identifier []"
  by (simp add: valid_identifier_def validate_identifier_def del: validate_identifier_valid)

text \<open>On ASCII the runes are the bytes; printable ASCII without blanks passes every validator.\<close>

definition printable :: "char \<Rightarrow> bool" where
  "printable c \<longleftrightarrow> 0x21 \<le> byte c \<and> byte c < 0x7F"

lemma rune_chunks_ascii:
  "list_all (\<lambda>c. byte c < 0x80) s \<Longrightarrow> rune_chunks s = map (\<lambda>c. (Some (byte c), [c])) s"
  by (induction s) simp_all

lemma printable_runes: "list_all printable s \<Longrightarrow> rune_chunks s = map (\<lambda>c. (Some (byte c), [c])) s"
  by (rule rune_chunks_ascii) (auto simp: list_all_iff printable_def)

lemma dropWhile_none: "list_all (\<lambda>x. \<not> p x) xs \<Longrightarrow> dropWhile p xs = xs"
  by (cases xs) simp_all

lemma printable_checks:
  assumes "list_all printable s"
  shows "valid_string s" and "trim_space s = s" and "\<not> has_control s"
proof -
  have r: "rune_chunks s = map (\<lambda>c. (Some (byte c), [c])) s" using assms by (rule printable_runes)
  show "valid_string s" by (simp add: valid_string_def r list_all_iff)
  have no_space: "list_all (\<lambda>x. \<not> (is_space \<circ> fst) x) (rune_chunks s)"
    using assms by (auto simp: r list_all_iff printable_def is_space_def)
  then have "list_all (\<lambda>x. \<not> (is_space \<circ> fst) x) (rev (rune_chunks s))" by (simp add: list_all_iff)
  then have "trim_space s = concat (map snd (rune_chunks s))"
    using no_space by (simp add: trim_space_def dropWhile_none)
  then show "trim_space s = s" by (simp add: rune_chunks_concat)
  show "\<not> has_control s"
    using assms by (auto simp: has_control_def r list_ex_iff list_all_iff printable_def is_control_def)
qed

lemma printable_identifier: "list_all printable v \<Longrightarrow> v \<noteq> [] \<Longrightarrow> length v \<le> 256 \<Longrightarrow> valid_identifier v"
  unfolding valid_identifier_def by (simp only: validate_identifier_iff printable_checks) simp

lemma printable_text: "list_all printable v \<Longrightarrow> v \<noteq> [] \<Longrightarrow> validate_text n v opt = None"
  by (simp add: validate_text_iff printable_checks)

text \<open>Evaluation of the validators on concrete names.\<close>

lemmas text_eval = printable_identifier printable_text printable_def byte_def

section \<open>Case and hexadecimal\<close>

text \<open>
  \<open>unicode.ToLower\<close> where it matters to a comparison with an ASCII word: the ASCII capitals, and the
  two capitals above ASCII whose lower case is ASCII (U+0130 and U+212A).
\<close>

definition lower_rune :: "nat \<Rightarrow> nat" where
  "lower_rune u =
     (if 65 \<le> u \<and> u \<le> 90 then u + 32 else if u = 0x130 then 105 else if u = 0x212A then 107 else u)"

definition encode_rune :: "nat \<Rightarrow> string" where
  "encode_rune u =
     (if u < 0x80 then [char_of u]
      else if u < 0x800 then [char_of (0xC0 + u div 64), char_of (0x80 + u mod 64)]
      else if u < 0x10000 then
        [char_of (0xE0 + u div 4096), char_of (0x80 + u div 64 mod 64), char_of (0x80 + u mod 64)]
      else [char_of (0xF0 + u div 262144), char_of (0x80 + u div 4096 mod 64),
            char_of (0x80 + u div 64 mod 64), char_of (0x80 + u mod 64)])"

definition to_lower :: "string \<Rightarrow> string" where
  "to_lower s = concat (map (\<lambda>(r, bs). case r of
       None \<Rightarrow> encode_rune 0xFFFD
     | Some u \<Rightarrow> if lower_rune u = u then bs else encode_rune (lower_rune u)) (rune_chunks s))"

definition is_lower_hex :: "char \<Rightarrow> bool" where
  "is_lower_hex c \<longleftrightarrow> (48 \<le> byte c \<and> byte c \<le> 57) \<or> (97 \<le> byte c \<and> byte c \<le> 102)"

definition hex_digit :: "char \<Rightarrow> nat" where
  "hex_digit c =
     (if byte c \<le> 57 then byte c - 48 else if byte c \<le> 70 then byte c - 55 else byte c - 87)"

definition is_hex :: "char \<Rightarrow> bool" where
  "is_hex c \<longleftrightarrow> (48 \<le> byte c \<and> byte c \<le> 57) \<or> (97 \<le> byte c \<and> byte c \<le> 102) \<or> (65 \<le> byte c \<and> byte c \<le> 70)"

fun hex_decode :: "string \<Rightarrow> string option" where
  "hex_decode [] = Some []"
| "hex_decode [c] = None"
| "hex_decode (c # d # s) =
     (if is_hex c \<and> is_hex d
      then map_option ((#) (char_of (hex_digit c * 16 + hex_digit d))) (hex_decode s) else None)"

definition hex_char :: "nat \<Rightarrow> char" where
  "hex_char n = char_of (if n < 10 then 48 + n else 87 + n)"

fun hex_encode :: "string \<Rightarrow> string" where
  "hex_encode [] = []"
| "hex_encode (c # s) = hex_char (byte c div 16) # hex_char (byte c mod 16) # hex_encode s"

lemma byte_less [simp]: "byte c < 256"
  by (simp add: byte_def)

lemma hex_char_digit [simp]: "n < 16 \<Longrightarrow> hex_digit (hex_char n) = n"
  by (auto simp: hex_digit_def hex_char_def byte_def)

lemma hex_char_lower [simp]: "n < 16 \<Longrightarrow> is_lower_hex (hex_char n)"
  by (auto simp: is_lower_hex_def hex_char_def byte_def)

lemma lower_hex_is_hex: "is_lower_hex c \<Longrightarrow> is_hex c"
  by (auto simp: is_hex_def is_lower_hex_def)

lemma byte_div_less [simp]: "byte c div 16 < 16" "byte c mod 16 < 16"
  using byte_less [of c] by (simp_all add: less_mult_imp_div_less del: byte_less)

lemma length_hex_encode [simp]: "length (hex_encode s) = 2 * length s"
  by (induction s) auto

lemma hex_decode_encode [simp]: "hex_decode (hex_encode s) = Some s"
proof (induction s)
  case (Cons c s)
  have "char_of (byte c div 16 * 16 + byte c mod 16) = c" by (simp add: byte_def)
  with Cons show ?case by (simp add: lower_hex_is_hex)
qed simp

lemma hex_encode_lower: "list_all is_lower_hex (hex_encode s)"
  by (induction s) simp_all

lemma hex_char_of_digit: "is_lower_hex c \<Longrightarrow> hex_char (hex_digit c) = c"
proof -
  assume h: "is_lower_hex c"
  have "byte (hex_char (hex_digit c)) = byte c"
    using h by (auto simp: is_lower_hex_def hex_digit_def hex_char_def byte_def)
  then show ?thesis by (simp add: byte_def)
qed

lemma hex_digit_less: "is_lower_hex c \<Longrightarrow> hex_digit c < 16"
  by (auto simp: is_lower_hex_def hex_digit_def)

lemma hex_encode_decode:
  "hex_decode s = Some t \<Longrightarrow> list_all is_lower_hex s \<Longrightarrow> hex_encode t = s"
proof (induction s arbitrary: t rule: hex_decode.induct)
  case (3 c d s)
  then obtain u where u: "hex_decode s = Some u"
    "t = char_of (hex_digit c * 16 + hex_digit d) # u"
    by (auto split: if_splits)
  have less: "hex_digit c < 16" "hex_digit d < 16" using "3.prems"(2) by (simp_all add: hex_digit_less)
  then have "byte (char_of (hex_digit c * 16 + hex_digit d)) = hex_digit c * 16 + hex_digit d"
    by (simp add: byte_def)
  with u less 3 show ?case by (auto simp: hex_char_of_digit split: if_splits)
qed (auto simp: fun_eq_iff)

lemma hex_decode_length: "hex_decode s = Some t \<Longrightarrow> length s = 2 * length t"
  by (induction s arbitrary: t rule: hex_decode.induct) (auto split: if_splits)

end
