(* ===== verification/Go_Json.thy ===== *)
theory Go_Json
  imports Go_Text
begin

text \<open>
  What the code uses of \<open>encoding/json\<close> for raw values: \<open>json.Valid\<close> and decoding into \<open>any\<close>
  (numbers kept as text, as with \<open>UseNumber\<close>; an object is a map in which a repeated key keeps its
  last value).  The parser reads one value and returns the rest of the input.  Nesting is bounded
  as in the library (10000 levels).  The recursion spends one unit of fuel per call; a string of
  length \<open>n\<close> needs at most \<open>2 * n + 2\<close> units, and more fuel never changes the result
  (\<open>parse_value_fuel\<close>).
\<close>

datatype json =
    JNull | JBool bool | JNumber string | JString string
  | JArray "json list" | JObject "(string \<times> json) list"

section \<open>Lexical elements\<close>

definition is_json_space :: "char \<Rightarrow> bool" where
  "is_json_space c \<longleftrightarrow> byte c = 32 \<or> byte c = 9 \<or> byte c = 13 \<or> byte c = 10"

definition skip_ws :: "string \<Rightarrow> string" where
  "skip_ws s = dropWhile is_json_space s"

definition is_digit :: "char \<Rightarrow> bool" where
  "is_digit c \<longleftrightarrow> 48 \<le> byte c \<and> byte c \<le> 57"

fun hex4 :: "string \<Rightarrow> (nat \<times> string) option" where
  "hex4 (a # b # c # d # s) =
     (if is_hex a \<and> is_hex b \<and> is_hex c \<and> is_hex d
      then Some (hex_digit a * 4096 + hex_digit b * 256 + hex_digit c * 16 + hex_digit d, s)
      else None)"
| "hex4 _ = None"

text \<open>The second half of a surrogate pair, when one follows.\<close>

fun low_surrogate :: "string \<Rightarrow> (nat \<times> string) option" where
  "low_surrogate (b # u # s) =
     (if byte b = 0x5C \<and> byte u = 0x75
      then (case hex4 s of
          Some (l, r) \<Rightarrow> if 0xDC00 \<le> l \<and> l \<le> 0xDFFF then Some (l, r) else None
        | None \<Rightarrow> None)
      else None)"
| "low_surrogate _ = None"

definition simple_escape :: "char \<Rightarrow> char option" where
  "simple_escape c =
     (if byte c \<in> {0x22, 0x5C, 0x2F} then Some c
      else if byte c = 0x62 then Some (char_of (8::nat)) else if byte c = 0x66 then Some (char_of (12::nat))
      else if byte c = 0x6E then Some (char_of (10::nat)) else if byte c = 0x72 then Some (char_of (13::nat))
      else if byte c = 0x74 then Some (char_of (9::nat)) else None)"

definition prepend :: "string \<Rightarrow> (string \<times> string) option \<Rightarrow> (string \<times> string) option" where
  "prepend p r = map_option (\<lambda>(t, rest). (p @ t, rest)) r"

text \<open>A string after its opening quote: the unquoted bytes and the rest after the closing quote.\<close>

lemma hex4_length: "hex4 s = Some (u, r) \<Longrightarrow> length r < length s"
  by (induction s rule: hex4.induct) (auto split: if_splits)

lemma low_surrogate_length: "low_surrogate s = Some (u, r) \<Longrightarrow> length r < length s"
  by (induction s rule: low_surrogate.induct)
    (auto split: if_splits option.splits prod.splits dest!: hex4_length)

function parse_string :: "string \<Rightarrow> (string \<times> string) option" where
  "parse_string [] = None"
| "parse_string (c # cs) =
     (if byte c = 0x22 then Some ([], cs)
      else if byte c = 0x5C then
        (case cs of [] \<Rightarrow> None
         | e # r \<Rightarrow>
           (if byte e = 0x75 then
              (case hex4 r of None \<Rightarrow> None
               | Some (u, r') \<Rightarrow>
                 (if 0xD800 \<le> u \<and> u \<le> 0xDFFF then
                    (case (if u \<le> 0xDBFF then low_surrogate r' else None) of
                       Some (l, r'') \<Rightarrow>
                         prepend (encode_rune (0x10000 + (u - 0xD800) * 1024 + (l - 0xDC00))) (parse_string r'')
                     | None \<Rightarrow> prepend (encode_rune 0xFFFD) (parse_string r'))
                  else prepend (encode_rune u) (parse_string r')))
            else (case simple_escape e of None \<Rightarrow> None
                  | Some x \<Rightarrow> prepend [x] (parse_string r))))
      else if byte c < 0x20 then None
      else if byte c < 0x80 then prepend [c] (parse_string cs)
      else (case decode_rune (c # cs) of
              (None, n) \<Rightarrow> prepend (encode_rune 0xFFFD) (parse_string cs)
            | (Some u, n) \<Rightarrow> prepend (take n (c # cs)) (parse_string (drop (n - 1) cs))))"
  by pat_completeness auto
termination
  by (relation "measure length")
    (auto dest!: hex4_length low_surrogate_length split: if_splits)

definition parse_exponent :: "string \<Rightarrow> (string \<times> string) option" where
  "parse_exponent s = (case s of
     e # t \<Rightarrow>
       if byte e = 0x65 \<or> byte e = 0x45 then
         (let (sign, u) = (case t of x # t' \<Rightarrow> if byte x = 0x2B \<or> byte x = 0x2D then ([x], t') else ([], t)
                           | [] \<Rightarrow> ([], t));
              ds = takeWhile is_digit u
          in if ds = [] then None else Some (e # sign @ ds, dropWhile is_digit u))
       else Some ([], s)
   | [] \<Rightarrow> Some ([], s))"

definition parse_fraction :: "string \<Rightarrow> (string \<times> string) option" where
  "parse_fraction s = (case s of
     p # t \<Rightarrow>
       if byte p = 0x2E then
         (let ds = takeWhile is_digit t
          in if ds = [] then None else Some (p # ds, dropWhile is_digit t))
       else Some ([], s)
   | [] \<Rightarrow> Some ([], s))"

text \<open>A number: its text and the rest.\<close>

definition parse_number :: "string \<Rightarrow> (string \<times> string) option" where
  "parse_number s =
     (let (sign, t) = (case s of x # t' \<Rightarrow> if byte x = 0x2D then ([x], t') else ([], s) | [] \<Rightarrow> ([], s))
      in case t of [] \<Rightarrow> None
         | d # r \<Rightarrow>
           (if \<not> is_digit d then None
            else (let (ip, u) = (if byte d = 48 then ([d], r)
                                 else (takeWhile is_digit t, dropWhile is_digit t))
                  in case parse_fraction u of None \<Rightarrow> None
                     | Some (fp, v) \<Rightarrow>
                       (case parse_exponent v of None \<Rightarrow> None
                        | Some (ep, w) \<Rightarrow> Some (sign @ ip @ fp @ ep, w)))))"

section \<open>Values\<close>

definition build_object :: "(string \<times> json) list \<Rightarrow> json" where
  "build_object kvs = JObject (foldl (\<lambda>m (k, v). map_insert k v m) [] kvs)"

definition literal :: "string \<Rightarrow> json \<Rightarrow> string \<Rightarrow> (json \<times> string) option" where
  "literal w v s = (if take (length w) s = w then Some (v, drop (length w) s) else None)"

text \<open>A member's key and the colon after it.\<close>

definition parse_key :: "string \<Rightarrow> (string \<times> string) option" where
  "parse_key s = (case skip_ws s of [] \<Rightarrow> None
     | q # qs \<Rightarrow>
       (if byte q \<noteq> 0x22 then None
        else (case parse_string qs of None \<Rightarrow> None
              | Some (k, r) \<Rightarrow>
                (case skip_ws r of [] \<Rightarrow> None
                 | c # t \<Rightarrow> if byte c = 0x3A then Some (k, t) else None))))"

fun parse_value :: "nat \<Rightarrow> nat \<Rightarrow> string \<Rightarrow> (json \<times> string) option"
  and parse_elements :: "nat \<Rightarrow> nat \<Rightarrow> string \<Rightarrow> (json list \<times> string) option"
  and parse_members :: "nat \<Rightarrow> nat \<Rightarrow> string \<Rightarrow> ((string \<times> json) list \<times> string) option" where
  "parse_value 0 d s = None"
| "parse_value (Suc n) d s =
     (case skip_ws s of [] \<Rightarrow> None
      | c # cs \<Rightarrow>
        (if byte c = 0x7B then
           (if d = 0 then None
            else (case skip_ws cs of [] \<Rightarrow> None
                  | e # r \<Rightarrow> (if byte e = 0x7D then Some (JObject [], r)
                              else (case parse_members n (d - 1) (e # r) of None \<Rightarrow> None
                                    | Some (kvs, u) \<Rightarrow> Some (build_object kvs, u)))))
         else if byte c = 0x5B then
           (if d = 0 then None
            else (case skip_ws cs of [] \<Rightarrow> None
                  | e # r \<Rightarrow> (if byte e = 0x5D then Some (JArray [], r)
                              else (case parse_elements n (d - 1) (e # r) of None \<Rightarrow> None
                                    | Some (vs, u) \<Rightarrow> Some (JArray vs, u)))))
         else if byte c = 0x22 then map_option (\<lambda>(t, r). (JString t, r)) (parse_string cs)
         else if byte c = 0x74 then literal ''true'' (JBool True) (c # cs)
         else if byte c = 0x66 then literal ''false'' (JBool False) (c # cs)
         else if byte c = 0x6E then literal ''null'' JNull (c # cs)
         else map_option (\<lambda>(t, r). (JNumber t, r)) (parse_number (c # cs))))"
| "parse_elements 0 d s = None"
| "parse_elements (Suc n) d s =
     (case parse_value n d s of None \<Rightarrow> None
      | Some (v, r) \<Rightarrow>
        (case skip_ws r of [] \<Rightarrow> None
         | c # cs \<Rightarrow>
           (if byte c = 0x2C then
              (case parse_elements n d cs of None \<Rightarrow> None | Some (vs, u) \<Rightarrow> Some (v # vs, u))
            else if byte c = 0x5D then Some ([v], cs) else None)))"
| "parse_members 0 d s = None"
| "parse_members (Suc n) d s =
     (case parse_key s of None \<Rightarrow> None
      | Some (k, t) \<Rightarrow>
        (case parse_value n d t of None \<Rightarrow> None
         | Some (v, u) \<Rightarrow>
           (case skip_ws u of [] \<Rightarrow> None
            | c # cs \<Rightarrow>
              (if byte c = 0x2C then
                 (case parse_members n d cs of None \<Rightarrow> None | Some (kvs, w) \<Rightarrow> Some ((k, v) # kvs, w))
               else if byte c = 0x7D then Some ([(k, v)], cs) else None))))"

definition max_nesting_depth :: nat where
  "max_nesting_depth = 10000"

text \<open>The first value of the input, as a decoder reads it, and what follows it.\<close>

definition json_decode :: "string \<Rightarrow> (json \<times> string) option" where
  "json_decode s = parse_value (2 * length s + 2) max_nesting_depth s"

definition json_parse :: "string \<Rightarrow> json option" where
  "json_parse s = (case json_decode s of
     Some (v, r) \<Rightarrow> if skip_ws r = [] then Some v else None | None \<Rightarrow> None)"

definition json_valid :: "string \<Rightarrow> bool" where
  "json_valid s \<longleftrightarrow> json_parse s \<noteq> None"

section \<open>Every parse consumes input, so the fuel is enough\<close>

lemma skip_ws_length: "length (skip_ws s) \<le> length s"
  by (simp add: skip_ws_def length_dropWhile_le)

lemma skip_ws_Cons: "skip_ws s = c # cs \<Longrightarrow> length cs < length s"
  using skip_ws_length [of s] by simp

lemma prepend_Some: "prepend p r = Some (t, u) \<longleftrightarrow> (\<exists>t'. r = Some (t', u) \<and> t = p @ t')"
  by (auto simp: prepend_def)

lemma parse_string_length: "parse_string s = Some (t, r) \<Longrightarrow> length r < length s"
proof (induction s arbitrary: t r rule: length_induct)
  case (1 s)
  have IH: "parse_string u = Some (t', r) \<Longrightarrow> length u < length s \<Longrightarrow> length r < length u" for u t'
    using 1 by blast
  show ?case
  proof (cases s)
    case Nil
    then show ?thesis using 1 by simp
  next
    case (Cons c cs)
    with "1.prems" show ?thesis
      by (auto simp: prepend_Some simp del: decode_rune.simps
          split: if_splits list.splits option.splits prod.splits
          dest!: hex4_length low_surrogate_length IH)
  qed
qed

lemma parse_key_length: "parse_key s = Some (k, t) \<Longrightarrow> length t < length s"
  by (auto simp: parse_key_def split: list.splits if_splits option.splits prod.splits
      dest!: skip_ws_Cons parse_string_length)

lemma parse_fraction_length: "parse_fraction s = Some (t, r) \<Longrightarrow> length r \<le> length s"
  by (auto simp: parse_fraction_def Let_def length_dropWhile_le le_SucI
      split: list.splits if_splits)

lemma parse_exponent_length: "parse_exponent s = Some (t, r) \<Longrightarrow> length r \<le> length s"
  by (auto simp: parse_exponent_def Let_def length_dropWhile_le le_SucI
      split: list.splits if_splits)

lemma parse_number_length: "parse_number s = Some (t, r) \<Longrightarrow> length r < length s"
proof -
  assume p: "parse_number s = Some (t, r)"
  define rest where "rest = (case s of x # t' \<Rightarrow> if byte x = 0x2D then t' else s | [] \<Rightarrow> s)"
  have "length rest \<le> length s" by (simp add: rest_def split: list.splits)
  moreover obtain d u where d: "rest = d # u" "is_digit d"
    and tail: "(let (ip, u') = (if byte d = 48 then ([d], u) else (takeWhile is_digit rest, dropWhile is_digit rest))
      in case parse_fraction u' of None \<Rightarrow> None | Some (fp, v) \<Rightarrow>
        (case parse_exponent v of None \<Rightarrow> None
         | Some (ep, w) \<Rightarrow> Some ((case s of x # _ \<Rightarrow> if byte x = 0x2D then [x] else [] | [] \<Rightarrow> []) @ ip @ fp @ ep, w)))
      = Some (t, r)"
    using p by (cases s) (auto simp: parse_number_def rest_def split: if_splits list.splits)
  moreover have "length r \<le> length u"
    using tail d length_dropWhile_le [of is_digit u]
    by (auto split: if_splits option.splits prod.splits
        dest!: parse_fraction_length parse_exponent_length)
  ultimately show ?thesis by simp
qed

lemma literal_length: "literal w v s = Some (x, r) \<Longrightarrow> w \<noteq> [] \<Longrightarrow> length r < length s"
  by (cases s) (auto simp: literal_def split: if_splits)

lemma parse_lengths_all:
  "(\<forall>d s v r. parse_value n d s = Some (v, r) \<longrightarrow> length r < length s) \<and>
   (\<forall>d s v r. parse_elements n d s = Some (v, r) \<longrightarrow> length r < length s) \<and>
   (\<forall>d s v r. parse_members n d s = Some (v, r) \<longrightarrow> length r < length s)"
proof (induction n)
  case (Suc n)
  then have v: "\<And>d s v r. parse_value n d s = Some (v, r) \<Longrightarrow> length r < length s"
    and e: "\<And>d s v r. parse_elements n d s = Some (v, r) \<Longrightarrow> length r < length s"
    and m: "\<And>d s v r. parse_members n d s = Some (v, r) \<Longrightarrow> length r < length s"
    by blast+
  have "\<And>d s v r. parse_value (Suc n) d s = Some (v, r) \<Longrightarrow> length r < length s"
    by (auto split: list.splits if_splits option.splits prod.splits
        dest!: skip_ws_Cons parse_string_length parse_number_length literal_length e m)
  moreover have "\<And>d s v r. parse_elements (Suc n) d s = Some (v, r) \<Longrightarrow> length r < length s"
    by (auto split: list.splits if_splits option.splits prod.splits dest!: skip_ws_Cons v e)
  moreover have "\<And>d s v r. parse_members (Suc n) d s = Some (v, r) \<Longrightarrow> length r < length s"
    by (auto split: list.splits if_splits option.splits prod.splits
        dest!: skip_ws_Cons parse_key_length v m)
  ultimately show ?case by blast
qed simp

lemma parse_lengths:
  "parse_value n d s = Some (v, r) \<Longrightarrow> length r < length s"
  "parse_elements n d s = Some (vs, r) \<Longrightarrow> length r < length s"
  "parse_members n d s = Some (kvs, r) \<Longrightarrow> length r < length s"
  using parse_lengths_all by blast+

text \<open>Two amounts of fuel that are both enough give the same parse.\<close>

lemma parse_fuel_all:
  "(\<forall>m d s. 2 * length s < n \<longrightarrow> 2 * length s < m \<longrightarrow> parse_value n d s = parse_value m d s) \<and>
   (\<forall>m d s. 2 * length s + 1 < n \<longrightarrow> 2 * length s + 1 < m \<longrightarrow> parse_elements n d s = parse_elements m d s) \<and>
   (\<forall>m d s. 2 * length s + 1 < n \<longrightarrow> 2 * length s + 1 < m \<longrightarrow> parse_members n d s = parse_members m d s)"
proof (induction n)
  case (Suc n)
  then have V: "\<And>m d s. 2 * length s < n \<Longrightarrow> 2 * length s < m \<Longrightarrow> parse_value n d s = parse_value m d s"
    and E: "\<And>m d s. 2 * length s + 1 < n \<Longrightarrow> 2 * length s + 1 < m \<Longrightarrow> parse_elements n d s = parse_elements m d s"
    and M: "\<And>m d s. 2 * length s + 1 < n \<Longrightarrow> 2 * length s + 1 < m \<Longrightarrow> parse_members n d s = parse_members m d s"
    by blast+
  have "parse_value (Suc n) d s = parse_value m d s" if n: "2 * length s < Suc n" and m: "2 * length s < m" for m d s
  proof -
    obtain k where k: "m = Suc k" using m by (cases m) simp_all
    have "parse_members n d' (e # r) = parse_members k d' (e # r)"
      "parse_elements n d' (e # r) = parse_elements k d' (e # r)"
      if "skip_ws s = c # cs" "skip_ws cs = e # r" for c cs e r d'
      using that[THEN skip_ws_Cons] n m k by (auto intro!: M E)
    then show ?thesis unfolding k by (simp split: list.splits)
  qed
  moreover have "parse_elements (Suc n) d s = parse_elements m d s"
    if n: "2 * length s + 1 < Suc n" and m: "2 * length s + 1 < m" for m d s
  proof -
    obtain k where k: "m = Suc k" using m by (cases m) simp_all
    have v: "parse_value n d s = parse_value k d s" using n m k by (intro V) simp_all
    have "parse_elements n d cs = parse_elements k d cs"
      if "parse_value k d s = Some (x, r)" "skip_ws r = c # cs" for x r c cs
      using parse_lengths(1) [OF that(1)] skip_ws_Cons [OF that(2)] n m k by (intro E) simp_all
    then show ?thesis unfolding k by (simp add: v split: list.splits option.splits prod.splits)
  qed
  moreover have "parse_members (Suc n) d s = parse_members m d s"
    if n: "2 * length s + 1 < Suc n" and m: "2 * length s + 1 < m" for m d s
  proof -
    obtain k where k: "m = Suc k" using m by (cases m) simp_all
    show ?thesis
    proof (cases "parse_key s")
      case None
      then show ?thesis by (simp add: k)
    next
      case (Some p)
      obtain x t where p: "p = (x, t)" by (cases p)
      have key: "parse_key s = Some (x, t)" using Some p by simp
      have v: "parse_value n d t = parse_value k d t"
        using parse_key_length [OF key] n m k by (intro V) simp_all
      have "parse_members n d cs = parse_members k d cs"
        if "parse_value k d t = Some (y, u)" "skip_ws u = c # cs" for y u c cs
        using parse_key_length [OF key] parse_lengths(1) [OF that(1)] skip_ws_Cons [OF that(2)] n m k
        by (intro M) simp_all
      then show ?thesis
        unfolding k by (simp add: key v split: list.splits option.splits prod.splits)
    qed
  qed
  ultimately show ?case by blast
qed simp

lemma parse_value_fuel:
  "2 * length s < n \<Longrightarrow> parse_value n max_nesting_depth s = json_decode s"
  unfolding json_decode_def by (rule parse_fuel_all [THEN conjunct1, rule_format]) simp_all

end
