(* ===== verification/Domain.thy ===== *)
theory Domain
  imports Go_Json
begin

text \<open>
  The package \<open>internal/domain\<close>: identifiers, digests, raw JSON values, requirements, artifacts,
  releases, providers, targets, operations and the normalized states.  A constructor \<open>NewX\<close> is a
  function into \<open>error + X\<close> with the checks of the code in their order; the record selectors are
  the accessor methods, which return values or clones of slices and so are the fields themselves.
  \<open>int64\<close> sizes and \<open>time.Duration\<close> timeouts are only compared with zero and are \<open>int\<close>.
\<close>

section \<open>Identifiers\<close>

type_synonym release_id = string
type_synonym target_id = string
type_synonym operation_id = string
type_synonym plan_id = string
type_synonym run_id = string
type_synonym provider_name = string
type_synonym provider_version = string
type_synonym credential_ref = string
type_synonym attempt_number = "32 word"

definition new_identifier :: "string \<Rightarrow> string \<Rightarrow> string result" where
  "new_identifier name value = checked (validate_identifier name value) value"

definition new_release_id :: "string \<Rightarrow> release_id result" where
  "new_release_id value = new_identifier ''release ID'' value"

definition new_target_id :: "string \<Rightarrow> target_id result" where
  "new_target_id value = new_identifier ''target ID'' value"

definition new_operation_id :: "string \<Rightarrow> operation_id result" where
  "new_operation_id value = new_identifier ''operation ID'' value"

definition new_plan_id :: "string \<Rightarrow> plan_id result" where
  "new_plan_id value = new_identifier ''plan ID'' value"

definition new_run_id :: "string \<Rightarrow> run_id result" where
  "new_run_id value = new_identifier ''run ID'' value"

definition new_provider_name :: "string \<Rightarrow> provider_name result" where
  "new_provider_name value = new_identifier ''provider name'' value"

definition new_provider_version :: "string \<Rightarrow> provider_version result" where
  "new_provider_version value = new_identifier ''provider version'' value"

definition new_credential_ref :: "string \<Rightarrow> credential_ref result" where
  "new_credential_ref value = new_identifier ''credential reference'' value"

definition new_attempt_number :: "32 word \<Rightarrow> attempt_number result" where
  "new_attempt_number value =
     checked (fail_if (value = 0) (Errorf ''attempt number must be greater than zero'' [])) value"

text \<open>
  The \<open>Valid\<close> methods of the eight identifier types call the same validator with their own name in
  the message, so as booleans they are all \<open>valid_identifier\<close>.
\<close>

definition valid_attempt :: "attempt_number \<Rightarrow> bool" where
  "valid_attempt v \<longleftrightarrow> 0 < v"

lemma new_identifier_Inr [simp]: "new_identifier n v = Inr w \<longleftrightarrow> valid_identifier v \<and> v = w"
  by (auto simp: new_identifier_def)

lemma new_attempt_number_Inr: "new_attempt_number v = Inr w \<longleftrightarrow> valid_attempt v \<and> v = w"
  by (auto simp: new_attempt_number_def valid_attempt_def word_gt_0)

section \<open>JSON strings and raw values\<close>

definition quote_plain :: "string \<Rightarrow> string" where
  "quote_plain s = char_of (0x22::nat) # s @ [char_of (0x22::nat)]"

definition json_plain :: "char \<Rightarrow> bool" where
  "json_plain c \<longleftrightarrow> 0x20 \<le> byte c \<and> byte c < 0x80 \<and> byte c \<noteq> 0x22 \<and> byte c \<noteq> 0x5C"

text \<open>\<open>json.Unmarshal\<close> into a string: a JSON \<open>null\<close> leaves the empty string.\<close>

definition unmarshal_string :: "string \<Rightarrow> string result" where
  "unmarshal_string data = (case json_parse data of
     Some (JString s) \<Rightarrow> Inr s
   | Some JNull \<Rightarrow> Inr []
   | _ \<Rightarrow> Inl (Errorf ''json: cannot unmarshal'' []))"

lemma parse_string_plain:
  "list_all json_plain s \<Longrightarrow> parse_string (s @ char_of (0x22::nat) # r) = Some (s, r)"
  by (induction s) (auto simp: json_plain_def prepend_def)

lemma json_parse_quote_plain: "list_all json_plain s \<Longrightarrow> json_parse (quote_plain s) = Some (JString s)"
proof -
  assume p: "list_all json_plain s"
  have ws: "skip_ws (quote_plain s) = quote_plain s"
    by (simp add: quote_plain_def skip_ws_def is_json_space_def)
  have "parse_value (Suc n) d (quote_plain s) = Some (JString s, [])" for n d
    using parse_string_plain [OF p, of "[]"] ws by (simp add: quote_plain_def)
  moreover obtain n where "2 * length (quote_plain s) + 2 = Suc n" by simp
  ultimately have "json_decode (quote_plain s) = Some (JString s, [])"
    by (metis json_decode_def)
  then show ?thesis by (simp add: json_parse_def skip_ws_def)
qed

type_synonym json_value = string

definition new_json_value :: "string \<Rightarrow> json_value result" where
  "new_json_value raw =
     checked (fail_if (raw = [] \<or> \<not> json_valid raw) (Errorf ''invalid JSON value'' [])) raw"

definition json_value_valid :: "json_value \<Rightarrow> bool" where
  "json_value_valid v \<longleftrightarrow> v \<noteq> [] \<and> json_valid v"

definition json_value_marshal :: "json_value \<Rightarrow> string result" where
  "json_value_marshal v = checked (fail_if (\<not> json_value_valid v) (Errorf ''invalid JSON value'' [])) v"

lemma new_json_value_Inr [simp]: "new_json_value raw = Inr v \<longleftrightarrow> json_value_valid raw \<and> raw = v"
  by (auto simp: new_json_value_def json_value_valid_def)

section \<open>Digests\<close>

record digest =
  digest_bytes :: string
  digest_set :: bool

definition zero_digest :: digest where
  "zero_digest = \<lparr>digest_bytes = replicate 32 (char_of (0::nat)), digest_set = False\<rparr>"

definition new_sha256_digest :: "string \<Rightarrow> digest result" where
  "new_sha256_digest value =
     (if length value \<noteq> 64
      then Inl (Errorf ''sha256 digest must contain 64 hexadecimal characters'' [])
      else if value \<noteq> to_lower value
      then Inl (Errorf ''sha256 digest must use lowercase hexadecimal'' [])
      else (case hex_decode value of
          None \<Rightarrow> Inl (Errorf ''invalid sha256 digest: %w'' [])
        | Some decoded \<Rightarrow> Inr \<lparr>digest_bytes = decoded, digest_set = True\<rparr>))"

text \<open>\<open>strings.Cut\<close>: the text before and after the first separator.\<close>

definition string_cut :: "string \<Rightarrow> char \<Rightarrow> (string \<times> string) option" where
  "string_cut s sep =
     (case dropWhile (\<lambda>c. c \<noteq> sep) s of [] \<Rightarrow> None
      | _ # after \<Rightarrow> Some (takeWhile (\<lambda>c. c \<noteq> sep) s, after))"

definition parse_digest :: "string \<Rightarrow> digest result" where
  "parse_digest value =
     (case string_cut value (CHR '':'') of
        Some (algorithm, encoded) \<Rightarrow>
          if algorithm = ''sha256'' then new_sha256_digest encoded
          else Inl (Errorf ''digest must use sha256:<hex> format'' [])
      | None \<Rightarrow> Inl (Errorf ''digest must use sha256:<hex> format'' []))"

definition digest_hex :: "digest \<Rightarrow> string" where
  "digest_hex d = hex_encode (digest_bytes d)"

definition digest_string :: "digest \<Rightarrow> string" where
  "digest_string d = ''sha256'' @ '':'' @ digest_hex d"

definition digest_marshal :: "digest \<Rightarrow> string result" where
  "digest_marshal d =
     (if \<not> digest_set d then Inl (Errorf ''invalid zero digest'' [])
      else Inr (quote_plain (digest_string d)))"

definition digest_unmarshal :: "string \<Rightarrow> digest result" where
  "digest_unmarshal data = bind_result (unmarshal_string data) parse_digest"

text \<open>What every digest built by the package satisfies: 32 bytes, marked as set.\<close>

definition digest_wf :: "digest \<Rightarrow> bool" where
  "digest_wf d \<longleftrightarrow> digest_set d \<and> length (digest_bytes d) = 32"

lemma lower_hex_plain: "is_lower_hex c \<Longrightarrow> json_plain c \<and> byte c < 0x80 \<and> lower_rune (byte c) = byte c"
  by (auto simp: is_lower_hex_def json_plain_def lower_rune_def)

lemma to_lower_ascii:
  "list_all (\<lambda>c. byte c < 0x80) s \<Longrightarrow> to_lower s = map (\<lambda>c. char_of (lower_rune (byte c))) s"
proof (induction s)
  case (Cons c s)
  have "(if lower_rune (byte c) = byte c then [c] else encode_rune (lower_rune (byte c)))
      = [char_of (lower_rune (byte c))]"
    using Cons.prems by (auto simp: encode_rune_def lower_rune_def byte_def)
  with Cons show ?case by (simp add: to_lower_def)
qed (simp add: to_lower_def)

lemma to_lower_hex: "list_all is_lower_hex s \<Longrightarrow> to_lower s = s"
proof -
  assume h: "list_all is_lower_hex s"
  then have "to_lower s = map (\<lambda>c. char_of (lower_rune (byte c))) s"
    by (intro to_lower_ascii) (auto simp: list_all_iff lower_hex_plain)
  also have "\<dots> = map id s"
    using h by (intro map_cong) (auto simp: list_all_iff lower_hex_plain, simp add: byte_def)
  finally show ?thesis by simp
qed

lemma new_sha256_digest_hex:
  "length bs = 32 \<Longrightarrow> new_sha256_digest (hex_encode bs) = Inr \<lparr>digest_bytes = bs, digest_set = True\<rparr>"
  by (simp add: new_sha256_digest_def to_lower_hex hex_encode_lower)

lemma string_cut_prefix:
  "sep \<notin> set a \<Longrightarrow> string_cut (a @ sep # b) sep = Some (a, b)"
  by (induction a) (auto simp: string_cut_def split: list.splits)

lemma string_cut_Some: "string_cut s sep = Some (a, b) \<Longrightarrow> s = a @ sep # b"
proof -
  assume c: "string_cut s sep = Some (a, b)"
  then obtain x where d: "dropWhile (\<lambda>c. c \<noteq> sep) s = x # b" and a: "a = takeWhile (\<lambda>c. c \<noteq> sep) s"
    by (auto simp: string_cut_def split: list.splits)
  from d have "x = sep" using hd_dropWhile [of "\<lambda>c. c \<noteq> sep" s] by force
  then show ?thesis using a d takeWhile_dropWhile_id [of "\<lambda>c. c \<noteq> sep" s] by metis
qed

lemma parse_digest_string: "digest_wf d \<Longrightarrow> parse_digest (digest_string d) = Inr d"
proof -
  assume wf: "digest_wf d"
  have "string_cut (digest_string d) (CHR '':'') = Some (''sha256'', digest_hex d)"
    using string_cut_prefix [of "CHR '':''" "''sha256''" "digest_hex d"]
    by (simp add: digest_string_def)
  with wf show ?thesis
    by (simp add: parse_digest_def digest_hex_def new_sha256_digest_hex digest_wf_def)
qed

text \<open>A decoded string that survives the lower-case check consists of lower-case hexadecimal digits.\<close>

lemma hex_decode_ascii: "hex_decode s = Some t \<Longrightarrow> list_all is_hex s"
  by (induction s arbitrary: t rule: hex_decode.induct) (auto split: if_splits)

lemma lower_of_hex:
  "is_hex c \<Longrightarrow> is_lower_hex c \<or> (65 \<le> byte c \<and> byte c \<le> 70)"
  by (auto simp: is_hex_def is_lower_hex_def)

lemma to_lower_fixed_hex:
  assumes "list_all is_hex s" and "to_lower s = s"
  shows "list_all is_lower_hex s"
proof -
  have "to_lower s = map (\<lambda>c. char_of (lower_rune (byte c))) s"
    using assms(1) by (intro to_lower_ascii) (auto simp: list_all_iff is_hex_def)
  then have "map (\<lambda>c. char_of (lower_rune (byte c))) s = s"
    using assms(2) by simp
  then have fixed: "char_of (lower_rune (byte c)) = c" if "c \<in> set s" for c
    using that by (metis (no_types, lifting) map_eq_conv map_ident)
  have "\<not> (65 \<le> byte c \<and> byte c \<le> 70)" if c: "c \<in> set s" for c
  proof
    assume "65 \<le> byte c \<and> byte c \<le> 70"
    then have "byte (char_of (lower_rune (byte c))) = byte c + 32" by (simp add: lower_rune_def)
    with fixed [OF c] show False by simp
  qed
  then show ?thesis using assms(1) lower_of_hex by (auto simp: list_all_iff)
qed

lemma parse_digest_Inr:
  assumes "parse_digest v = Inr d"
  shows "digest_wf d" and "digest_string d = v"
proof -
  obtain e where cut: "string_cut v (CHR '':'') = Some (''sha256'', e)" and new: "new_sha256_digest e = Inr d"
    using assms by (auto simp: parse_digest_def split: option.splits if_splits)
  obtain bs where bs: "hex_decode e = Some bs" and d: "d = \<lparr>digest_bytes = bs, digest_set = True\<rparr>"
    and e: "length e = 64" "e = to_lower e"
    using new by (auto simp: new_sha256_digest_def split: if_splits option.splits)
  have lower: "list_all is_lower_hex e"
    using to_lower_fixed_hex [OF hex_decode_ascii [OF bs]] e(2) by simp
  show "digest_wf d" using hex_decode_length [OF bs] e(1) d by (simp add: digest_wf_def)
  show "digest_string d = v"
    using hex_encode_decode [OF bs lower] string_cut_Some [OF cut] d
    by (simp add: digest_string_def digest_hex_def)
qed

section \<open>Normalized states\<close>

text \<open>
  \<open>NormalizedState\<close> is a Go string with nine constants; \<open>StateOther\<close> holds any string that is none
  of them, and the zero value is \<open>StateOther []\<close>.
\<close>

datatype normalized_state =
    StatePlanned | StateReady | StateRunning | StateBlocked | StateWaitingExternal
  | StatePublished | StateRejected | StateFailed | StateCancelled | StateOther string

abbreviation state_unset :: normalized_state where
  "state_unset \<equiv> StateOther []"

fun state_valid :: "normalized_state \<Rightarrow> bool" where
  "state_valid (StateOther _) = False"
| "state_valid _ = True"

fun state_text :: "normalized_state \<Rightarrow> string" where
  "state_text StatePlanned = ''PLANNED''"
| "state_text StateReady = ''READY''"
| "state_text StateRunning = ''RUNNING''"
| "state_text StateBlocked = ''BLOCKED''"
| "state_text StateWaitingExternal = ''WAITING_EXTERNAL''"
| "state_text StatePublished = ''PUBLISHED''"
| "state_text StateRejected = ''REJECTED''"
| "state_text StateFailed = ''FAILED''"
| "state_text StateCancelled = ''CANCELLED''"
| "state_text (StateOther s) = s"

text \<open>The conversion \<open>NormalizedState(value)\<close>.\<close>

definition state_of_text :: "string \<Rightarrow> normalized_state" where
  "state_of_text v =
     (if v = ''PLANNED'' then StatePlanned else if v = ''READY'' then StateReady
      else if v = ''RUNNING'' then StateRunning else if v = ''BLOCKED'' then StateBlocked
      else if v = ''WAITING_EXTERNAL'' then StateWaitingExternal
      else if v = ''PUBLISHED'' then StatePublished else if v = ''REJECTED'' then StateRejected
      else if v = ''FAILED'' then StateFailed else if v = ''CANCELLED'' then StateCancelled
      else StateOther v)"

definition state_marshal :: "normalized_state \<Rightarrow> string result" where
  "state_marshal s =
     (if \<not> state_valid s then Inl (Errorf ''invalid normalized state %q'' [state_text s])
      else Inr (quote_plain (state_text s)))"

definition state_unmarshal :: "string \<Rightarrow> normalized_state result" where
  "state_unmarshal data = bind_result (unmarshal_string data) (\<lambda>value.
     let state = state_of_text value in
     if \<not> state_valid state then Inl (Errorf ''invalid normalized state %q'' [value]) else Inr state)"

lemma state_of_text_text [simp]: "state_valid s \<Longrightarrow> state_of_text (state_text s) = s"
  by (cases s) (simp_all add: state_of_text_def)

lemma state_text_of_text [simp]: "state_text (state_of_text v) = v"
  by (simp add: state_of_text_def)

lemma state_text_plain: "state_valid s \<Longrightarrow> list_all json_plain (state_text s)"
  by (cases s) (simp_all add: json_plain_def byte_def)

section \<open>Requirements\<close>

record requirement =
  req_kind :: string
  req_name :: string
  req_metadata :: string

definition requirement_error :: "string \<Rightarrow> string \<Rightarrow> string \<Rightarrow> error option" where
  "requirement_error kind name metadata = first_error [
     validate_text ''requirement kind'' kind False,
     validate_text ''requirement name'' name False,
     fail_if (metadata \<noteq> [] \<and> \<not> json_valid metadata)
       (Errorf ''requirement metadata must be valid JSON'' [])]"

definition new_requirement :: "string \<Rightarrow> string \<Rightarrow> string \<Rightarrow> requirement result" where
  "new_requirement kind name metadata =
     checked (requirement_error kind name metadata)
       \<lparr>req_kind = kind, req_name = name, req_metadata = metadata\<rparr>"

definition requirement_valid :: "requirement \<Rightarrow> bool" where
  "requirement_valid r \<longleftrightarrow> is_ok (new_requirement (req_kind r) (req_name r) (req_metadata r))"

lemma requirement_valid_iff:
  "requirement_valid r \<longleftrightarrow> requirement_error (req_kind r) (req_name r) (req_metadata r) = None"
  by (auto simp: requirement_valid_def new_requirement_def is_ok_iff)

section \<open>Artifacts and releases\<close>

record artifact =
  artifact_name :: string
  artifact_source :: string
  artifact_digest :: digest
  artifact_size :: int
  artifact_media_type :: string

definition new_artifact :: "string \<Rightarrow> string \<Rightarrow> digest \<Rightarrow> int \<Rightarrow> string \<Rightarrow> artifact result" where
  "new_artifact name source dig sz media_type = checked (first_error [
     validate_text ''artifact name'' name False,
     validate_text ''artifact source'' source False,
     fail_if (\<not> digest_set dig) (Errorf ''artifact digest is invalid'' []),
     fail_if (sz < 0) (Errorf ''artifact size must not be negative'' []),
     validate_text ''artifact media type'' media_type True])
     \<lparr>artifact_name = name, artifact_source = source, artifact_digest = dig, artifact_size = sz,
      artifact_media_type = media_type\<rparr>"

record release =
  rel_id :: release_id
  rel_artifacts :: "artifact list"

definition check_artifact :: "string list \<Rightarrow> artifact \<Rightarrow> string list result" where
  "check_artifact names a =
     (if artifact_name a = [] \<or> \<not> digest_set (artifact_digest a)
      then Inl (Errorf ''release contains invalid artifact'' [])
      else if artifact_name a \<in> set names
      then Inl (Errorf ''duplicate artifact name %q'' [artifact_name a])
      else Inr (artifact_name a # names))"

definition new_release :: "release_id \<Rightarrow> artifact list \<Rightarrow> release result" where
  "new_release i artifacts =
     (if \<not> valid_identifier i then Inl (Errorf ''release ID is invalid'' [])
      else if artifacts = [] then Inl (Errorf ''release must contain at least one artifact'' [])
      else bind_result (for_each check_artifact [] artifacts) (\<lambda>_.
        Inr \<lparr>rel_id = i, rel_artifacts = artifacts\<rparr>))"

section \<open>Providers and targets\<close>

record provider_ref =
  provider_name :: provider_name
  provider_version :: provider_version

definition new_provider_ref :: "provider_name \<Rightarrow> provider_version \<Rightarrow> provider_ref result" where
  "new_provider_ref name version = checked (first_error [
     fail_if (\<not> valid_identifier name) (Errorf ''provider name is invalid'' []),
     fail_if (\<not> valid_identifier version) (Errorf ''provider version is invalid'' [])])
     \<lparr>provider_name = name, provider_version = version\<rparr>"

definition provider_ref_valid :: "provider_ref \<Rightarrow> bool" where
  "provider_ref_valid p \<longleftrightarrow>
     valid_identifier (provider_name p) \<and> valid_identifier (provider_version p)"

record target =
  tgt_id :: target_id
  tgt_provider :: provider_ref
  tgt_configuration :: json_value
  tgt_requirements :: "requirement list"

definition requirement_key :: "requirement \<Rightarrow> string" where
  "requirement_key r =
     req_kind r @ [char_of (0::nat)] @ req_name r @ [char_of (0::nat)] @ req_metadata r"

definition check_requirement :: "string list \<Rightarrow> requirement \<Rightarrow> string list result" where
  "check_requirement seen r =
     (if \<not> requirement_valid r then Inl (Errorf ''target requirement is invalid'' [])
      else if requirement_key r \<in> set seen
      then Inl (Errorf ''duplicate target requirement %q/%q'' [req_kind r, req_name r])
      else Inr (requirement_key r # seen))"

definition new_target_with_requirements ::
  "target_id \<Rightarrow> provider_ref \<Rightarrow> json_value \<Rightarrow> requirement list \<Rightarrow> target result" where
  "new_target_with_requirements i provider configuration requirements =
     (if \<not> valid_identifier i then Inl (Errorf ''target ID is invalid'' [])
      else if \<not> provider_ref_valid provider then Inl (Errorf ''target provider is invalid'' [])
      else if \<not> json_value_valid configuration then Inl (Errorf ''target configuration is invalid'' [])
      else bind_result (for_each check_requirement [] requirements) (\<lambda>_.
        Inr \<lparr>tgt_id = i, tgt_provider = provider, tgt_configuration = configuration,
             tgt_requirements = requirements\<rparr>))"

definition new_target :: "target_id \<Rightarrow> provider_ref \<Rightarrow> json_value \<Rightarrow> target result" where
  "new_target i provider configuration = new_target_with_requirements i provider configuration []"

section \<open>Operations\<close>

record operation =
  op_id :: operation_id
  op_target_id :: target_id
  op_provider :: provider_ref
  op_kind :: string
  op_dependencies :: "operation_id list"
  op_side_effecting :: bool
  op_idempotency_key :: string
  op_timeout :: int
  op_provider_payload :: json_value

definition check_dependency :: "operation_id \<Rightarrow> operation_id list \<Rightarrow> operation_id \<Rightarrow> operation_id list result" where
  "check_dependency i seen dep =
     (if \<not> valid_identifier dep then Inl (Errorf ''operation dependency is invalid'' [])
      else if dep = i then Inl (Errorf ''operation cannot depend on itself'' [])
      else if dep \<in> set seen then Inl (Errorf ''duplicate operation dependency %q'' [dep])
      else Inr (dep # seen))"

definition idempotency_error :: "bool \<Rightarrow> string \<Rightarrow> error option" where
  "idempotency_error side_effecting key =
     (if side_effecting then validate_text ''idempotency key'' key False
      else if key \<noteq> [] then validate_text ''idempotency key'' key False
      else None)"

definition new_operation ::
  "operation_id \<Rightarrow> target_id \<Rightarrow> provider_ref \<Rightarrow> string \<Rightarrow> operation_id list \<Rightarrow> bool \<Rightarrow> string \<Rightarrow> int
   \<Rightarrow> json_value \<Rightarrow> operation result" where
  "new_operation i target provider kind dependencies side_effecting key timeout payload =
     bind_result (checked (first_error [
        fail_if (\<not> valid_identifier i) (Errorf ''operation ID is invalid'' []),
        fail_if (\<not> valid_identifier target) (Errorf ''operation target ID is invalid'' []),
        fail_if (\<not> provider_ref_valid provider) (Errorf ''operation provider is invalid'' []),
        validate_text ''operation kind'' kind False,
        fail_if (timeout < 0) (Errorf ''operation timeout must not be negative'' []),
        fail_if (\<not> json_value_valid payload) (Errorf ''operation provider payload is invalid'' []),
        idempotency_error side_effecting key]) ()) (\<lambda>_.
     bind_result (for_each (check_dependency i) [] dependencies) (\<lambda>_.
       Inr \<lparr>op_id = i, op_target_id = target, op_provider = provider, op_kind = kind,
            op_dependencies = dependencies, op_side_effecting = side_effecting,
            op_idempotency_key = key, op_timeout = timeout, op_provider_payload = payload\<rparr>))"

lemma check_dependencies_Inr:
  "for_each (check_dependency i) seen deps = Inr seen' \<longleftrightarrow>
     (\<forall>d \<in> set deps. valid_identifier d \<and> d \<noteq> i) \<and> distinct deps \<and> set deps \<inter> set seen = {}
     \<and> seen' = rev deps @ seen"
  by (induction deps arbitrary: seen) (auto simp: check_dependency_def bind_result_Inr)

text \<open>What \<open>NewOperation\<close> promises of the dependencies of an operation.\<close>

lemma new_operation_Inr:
  assumes "new_operation i t p k deps se key tmo pl = Inr op"
  shows "op_id op = i" and "op_target_id op = t" and "op_provider op = p" and "op_dependencies op = deps"
    and "op_side_effecting op = se" and "op_idempotency_key op = key" and "valid_identifier i"
    and "distinct deps" and "i \<notin> set deps" and "se \<Longrightarrow> key \<noteq> []" and "0 \<le> tmo"
  using assms
  by (auto simp: new_operation_def checks check_dependencies_Inr idempotency_error_def
      split: if_splits)

section \<open>Distribution evidence\<close>

record distribution_evidence =
  ev_target_id :: target_id
  ev_state :: normalized_state
  ev_provider_state :: string
  ev_data :: json_value

definition new_distribution_evidence ::
  "target_id \<Rightarrow> normalized_state \<Rightarrow> string \<Rightarrow> json_value \<Rightarrow> distribution_evidence result" where
  "new_distribution_evidence target state provider_state data = checked (first_error [
     fail_if (\<not> valid_identifier target) (Errorf ''evidence target ID is invalid'' []),
     fail_if (\<not> state_valid state) (Errorf ''evidence state is invalid'' []),
     validate_text ''provider state'' provider_state True,
     fail_if (\<not> json_value_valid data) (Errorf ''evidence data is invalid'' [])])
     \<lparr>ev_target_id = target, ev_state = state, ev_provider_state = provider_state, ev_data = data\<rparr>"

end
