(* ===== verification/Domain_Plan.thy ===== *)
theory Domain_Plan
  imports Domain
begin

text \<open>
  The distribution plan of \<open>internal/domain/plan.go\<close>: \<open>NewPlan\<close> with its index maps, and the cycle
  test \<open>validateAcyclic\<close> (Kahn's algorithm with a stack).  The iteration over a Go map is the order
  of the association list.  \<open>acyclic_graph\<close> is the abstract specification: the test accepts exactly
  the graphs whose dependency relation has no cycle.
\<close>

record plan =
  pl_id :: plan_id
  pl_schema_version :: string
  pl_protocol_version :: string
  pl_release :: release
  pl_targets :: "target list"
  pl_operations :: "operation list"

section \<open>The cycle test\<close>

type_synonym op_index = "(operation_id \<times> operation) list"

definition indegrees :: "op_index \<Rightarrow> (operation_id \<times> int) list" where
  "indegrees ops = map (\<lambda>(i, op). (i, int (length (op_dependencies op)))) ops"

definition initial_queue :: "op_index \<Rightarrow> operation_id list" where
  "initial_queue ops = map fst (filter (\<lambda>(i, op). length (op_dependencies op) = 0) ops)"

text \<open>\<open>dependents[d]\<close> once the first loop has run: each operation, once per occurrence of \<open>d\<close>.\<close>

definition dependents :: "op_index \<Rightarrow> operation_id \<Rightarrow> operation_id list" where
  "dependents ops d =
     concat (map (\<lambda>(i, op). map (\<lambda>_. i) (filter (\<lambda>e. e = d) (op_dependencies op))) ops)"

fun release_dependents ::
  "operation_id list \<Rightarrow> (operation_id \<times> int) list \<Rightarrow> operation_id list
   \<Rightarrow> (operation_id \<times> int) list \<times> operation_id list" where
  "release_dependents [] indegree queue = (indegree, queue)"
| "release_dependents (x # xs) indegree queue =
     (let indegree' = adjust x (\<lambda>n. n - 1) indegree
      in release_dependents xs indegree' (if map_of indegree' x = Some 0 then queue @ [x] else queue))"

definition positives :: "(operation_id \<times> int) list \<Rightarrow> nat" where
  "positives ind = length (filter (\<lambda>(_, n). 0 < n) ind)"

lemma positives_adjust_le: "positives (adjust x (\<lambda>n. n - 1) ind) \<le> positives ind"
  by (induction ind) (auto simp: positives_def adjust_def split: if_splits)

lemma positives_adjust_less:
  "map_of (adjust x (\<lambda>n. n - 1) ind) x = Some 0 \<Longrightarrow> positives (adjust x (\<lambda>n. n - 1) ind) < positives ind"
proof (induction ind)
  case Nil
  then show ?case by simp
next
  case (Cons p ind)
  obtain k n where p: "p = (k, n)" by (cases p)
  show ?case
  proof (cases "k = x")
    case True
    with Cons.prems have "n = 1" by (simp add: p)
    then show ?thesis
      using True positives_adjust_le [of x ind] by (simp add: p positives_def adjust_def)
  next
    case False
    then have "positives (adjust x (\<lambda>n. n - 1) ind) < positives ind" using Cons by (simp add: p)
    then show ?thesis using False by (simp add: p positives_def adjust_def)
  qed
qed

lemma release_dependents_measure:
  "release_dependents xs ind q = (ind', q') \<Longrightarrow>
     2 * positives ind' + length q' \<le> 2 * positives ind + length q"
proof (induction xs arbitrary: ind q)
  case Nil
  then show ?case by simp
next
  case (Cons x xs)
  let ?ind = "adjust x (\<lambda>n. n - 1) ind"
  let ?q = "if map_of ?ind x = Some 0 then q @ [x] else q"
  have "2 * positives ind' + length q' \<le> 2 * positives ?ind + length ?q"
    using Cons.prems by (intro Cons.IH) (simp add: Let_def)
  also have "\<dots> \<le> 2 * positives ind + length q"
    using positives_adjust_le [of x ind] positives_adjust_less [of x ind]
    by (auto simp del: map_of_adjust)
  finally show ?case .
qed

text \<open>The loop over the stack; \<open>processed\<close> counts the operations taken from it.\<close>

function kahn ::
  "(operation_id \<Rightarrow> operation_id list) \<Rightarrow> (operation_id \<times> int) list \<Rightarrow> operation_id list \<Rightarrow> nat \<Rightarrow> nat" where
  "kahn deps indegree queue processed =
     (if queue = [] then processed
      else (let (indegree', queue') = release_dependents (deps (last queue)) indegree (butlast queue)
            in kahn deps indegree' queue' (processed + 1)))"
  by pat_completeness auto
termination
proof (relation "measure (\<lambda>(deps, ind, q, n). 2 * positives ind + length q)")
  fix deps :: "operation_id \<Rightarrow> operation_id list" and ind q n x ind' q'
  assume q: "q \<noteq> []" and "x = release_dependents (deps (last q)) ind (butlast q)" "(ind', q') = x"
  then have "2 * positives ind' + length q' \<le> 2 * positives ind + length (butlast q)"
    by (intro release_dependents_measure) simp
  then show "((deps, ind', q', n + 1), deps, ind, q, n) \<in> measure (\<lambda>(deps, ind, q, n). 2 * positives ind + length q)"
    using q by (auto simp: neq_Nil_conv split: if_splits)
qed simp

declare kahn.simps [simp del]

definition validate_acyclic :: "op_index \<Rightarrow> error option" where
  "validate_acyclic ops =
     fail_if (kahn (dependents ops) (indegrees ops) (initial_queue ops) 0 \<noteq> length ops)
       (Errorf ''operation dependency graph contains a cycle'' [])"

subsection \<open>Correctness of the cycle test\<close>

text \<open>
  The graph of an index: \<open>deps_of\<close> gives the dependencies of a key.  What the loops of \<open>NewPlan\<close>
  and the checks of \<open>NewOperation\<close> have established when the test runs is \<open>graph_ok\<close>.
\<close>

definition deps_of :: "op_index \<Rightarrow> operation_id \<Rightarrow> operation_id set" where
  "deps_of ops i = (case map_of ops i of None \<Rightarrow> {} | Some op \<Rightarrow> set (op_dependencies op))"

definition graph_ok :: "op_index \<Rightarrow> bool" where
  "graph_ok ops \<longleftrightarrow> distinct (map fst ops)
     \<and> (\<forall>(i, op) \<in> set ops. distinct (op_dependencies op) \<and> set (op_dependencies op) \<subseteq> fst ` set ops)"

definition graph_rel :: "op_index \<Rightarrow> (operation_id \<times> operation_id) set" where
  "graph_rel ops = {(d, i). i \<in> fst ` set ops \<and> d \<in> deps_of ops i}"

lemma deps_of_entry: "distinct (map fst ops) \<Longrightarrow> (i, op) \<in> set ops \<Longrightarrow> deps_of ops i = set (op_dependencies op)"
  by (simp add: deps_of_def)

lemma filter_eq_distinct: "distinct xs \<Longrightarrow> filter (\<lambda>e. e = d) xs = (if d \<in> set xs then [d] else [])"
  by (induction xs) auto

lemma dependents_eq:
  assumes "graph_ok ops"
  shows "dependents ops d = map fst (filter (\<lambda>(i, op). d \<in> set (op_dependencies op)) ops)"
proof -
  have "\<forall>(i, op) \<in> set ops. distinct (op_dependencies op)" using assms by (auto simp: graph_ok_def)
  then show ?thesis
  proof (induction ops)
    case (Cons p ops)
    then show ?case by (cases p) (simp add: dependents_def filter_eq_distinct)
  qed (simp add: dependents_def)
qed

lemma set_dependents:
  assumes "graph_ok ops"
  shows "i \<in> set (dependents ops d) \<longleftrightarrow> i \<in> fst ` set ops \<and> d \<in> deps_of ops i"
proof -
  have d: "distinct (map fst ops)" using assms by (simp add: graph_ok_def)
  have "i \<in> set (dependents ops d) \<longleftrightarrow> (\<exists>op. (i, op) \<in> set ops \<and> d \<in> set (op_dependencies op))"
    unfolding dependents_eq [OF assms] by (auto intro!: image_eqI)
  also have "\<dots> \<longleftrightarrow> i \<in> fst ` set ops \<and> d \<in> deps_of ops i"
    using deps_of_entry [OF d] by (auto intro!: image_eqI)
  finally show ?thesis .
qed

lemma distinct_dependents: "graph_ok ops \<Longrightarrow> distinct (dependents ops d)"
  by (simp add: dependents_eq graph_ok_def distinct_map_filter)

lemma release_dependents_result:
  assumes "release_dependents xs ind q = (ind', q')" and "distinct xs"
  shows "map_of ind' i = (if i \<in> set xs then map_option (\<lambda>n. n - 1) (map_of ind i) else map_of ind i)"
    and "q' = q @ filter (\<lambda>x. map_of ind x = Some 1) xs"
proof -
  have "map_of ind' i = (if i \<in> set xs then map_option (\<lambda>n. n - 1) (map_of ind i) else map_of ind i)
      \<and> q' = q @ filter (\<lambda>x. map_of ind x = Some 1) xs"
    using assms
  proof (induction xs arbitrary: ind q)
    case (Cons x xs)
    let ?ind = "adjust x (\<lambda>n. n - 1) ind"
    let ?q = "if map_of ?ind x = Some 0 then q @ [x] else q"
    have r: "release_dependents xs ?ind ?q = (ind', q')" and d: "distinct xs" "x \<notin> set xs"
      using Cons.prems by (simp_all add: Let_def)
    have same: "filter (\<lambda>y. map_of ?ind y = Some 1) xs = filter (\<lambda>y. map_of ind y = Some 1) xs"
      using d(2) by (intro filter_cong) auto
    have one: "map_of ?ind x = Some 0 \<longleftrightarrow> map_of ind x = Some 1"
      by (cases "map_of ind x") auto
    show ?case using Cons.IH [OF r d(1)] d(2) same one by auto
  qed simp
  then show "map_of ind' i = (if i \<in> set xs then map_option (\<lambda>n. n - 1) (map_of ind i) else map_of ind i)"
    and "q' = q @ filter (\<lambda>x. map_of ind x = Some 1) xs" by simp_all
qed

text \<open>
  The invariant of the loop: \<open>done\<close> lists the operations taken from the stack so far, each after all
  of its dependencies; every counter is the number of dependencies not yet done, and an operation is
  done or on the stack exactly when its counter is zero.
\<close>

definition topological :: "op_index \<Rightarrow> operation_id list \<Rightarrow> bool" where
  "topological ops P \<longleftrightarrow> (\<forall>A x B. P = A @ x # B \<longrightarrow> deps_of ops x \<subseteq> set A)"

definition kahn_inv :: "op_index \<Rightarrow> operation_id list \<Rightarrow> (operation_id \<times> int) list \<Rightarrow> operation_id list \<Rightarrow> bool" where
  "kahn_inv ops P ind q \<longleftrightarrow> distinct (P @ q) \<and> set (P @ q) \<subseteq> fst ` set ops
     \<and> (\<forall>i \<in> fst ` set ops. map_of ind i = Some (int (card (deps_of ops i - set P))))
     \<and> (\<forall>i \<in> fst ` set ops. i \<in> set (P @ q) \<longleftrightarrow> deps_of ops i \<subseteq> set P)
     \<and> topological ops P"

lemma key_map_of: "k \<in> fst ` set m \<Longrightarrow> \<exists>v. map_of m k = Some v"
  by (cases "map_of m k") (auto simp: map_of_eq_None_iff)

lemma finite_deps_of [simp]: "finite (deps_of ops i)"
  by (simp add: deps_of_def split: option.splits)

lemma topological_snoc: "topological ops P \<Longrightarrow> deps_of ops x \<subseteq> set P \<Longrightarrow> topological ops (P @ [x])"
  by (auto simp: topological_def append_eq_append_conv2 Cons_eq_append_conv append_eq_Cons_conv)

lemma kahn_inv_step:
  assumes ok: "graph_ok ops" and inv: "kahn_inv ops P ind (q @ [x])"
    and r: "release_dependents (dependents ops x) ind q = (ind', q')"
  shows "kahn_inv ops (P @ [x]) ind' q'"
proof -
  let ?K = "fst ` set ops" and ?D = "deps_of ops"
  note result = release_dependents_result [OF r distinct_dependents [OF ok]]
  have x: "x \<in> ?K" "x \<notin> set P" "?D x \<subseteq> set P" and dist: "distinct (P @ q)" "x \<notin> set q"
    using inv by (auto simp: kahn_inv_def)
  have count: "map_of ind i = Some (int (card (?D i - set P)))" if "i \<in> ?K" for i
    using inv that unfolding kahn_inv_def by blast
  have queued: "i \<in> set P \<or> i \<in> set q \<or> i = x \<longleftrightarrow> ?D i \<subseteq> set P" if "i \<in> ?K" for i
    using inv that by (auto simp: kahn_inv_def)
  have count': "map_of ind' i = Some (int (card (?D i - set (P @ [x]))))" if i: "i \<in> ?K" for i
  proof (cases "x \<in> ?D i")
    case True
    have "?D i - set (P @ [x]) = ?D i - set P - {x}" by auto
    moreover have "card (?D i - set P) = Suc (card (?D i - set P - {x}))"
      using True x(2) by (intro card.remove) auto
    ultimately show ?thesis using result(1) True i ok count [OF i] by (simp add: set_dependents)
  next
    case False
    then have "?D i - set (P @ [x]) = ?D i - set P" by auto
    then show ?thesis using result(1) False i ok count [OF i] by (simp add: set_dependents)
  qed
  have new: "i \<in> set (filter (\<lambda>y. map_of ind y = Some 1) (dependents ops x)) \<longleftrightarrow>
      i \<in> ?K \<and> x \<in> ?D i \<and> ?D i \<subseteq> set (P @ [x])" for i
  proof -
    have "int (card (?D i - set P)) = 1 \<longleftrightarrow> ?D i \<subseteq> set (P @ [x])" if d: "x \<in> ?D i" for i
    proof -
      have "card (?D i - set P) = Suc (card (?D i - set P - {x}))"
        using d x(2) by (intro card.remove) auto
      then have "int (card (?D i - set P)) = 1 \<longleftrightarrow> ?D i - set P - {x} = {}" by simp
      then show ?thesis by auto
    qed
    then have "map_of ind i = Some 1 \<longleftrightarrow> ?D i \<subseteq> set (P @ [x])" if "i \<in> ?K" "x \<in> ?D i"
      using that by (simp add: count [OF that(1)])
    then show ?thesis using set_dependents [OF ok] by auto
  qed
  have fresh: "i \<notin> set P" "i \<notin> set q" "i \<noteq> x" if "i \<in> ?K" "x \<in> ?D i" for i
    using queued [OF that(1)] that(2) x by auto
  have "distinct (P @ [x] @ q')"
    using dist x fresh new distinct_dependents [OF ok, of x] unfolding result(2)
    by (auto simp: distinct_filter)
  moreover have "set (P @ [x] @ q') \<subseteq> ?K"
    using inv new unfolding result(2) kahn_inv_def by auto
  moreover have "i \<in> set (P @ [x] @ q') \<longleftrightarrow> ?D i \<subseteq> set (P @ [x])" if "i \<in> ?K" for i
    using queued [OF that] new [of i] that x(3) unfolding result(2) by auto
  moreover have "topological ops (P @ [x])"
    using inv x(3) by (intro topological_snoc) (auto simp: kahn_inv_def)
  ultimately show ?thesis using count' by (simp add: kahn_inv_def)
qed

lemma kahn_correct:
  assumes "graph_ok ops" and "kahn_inv ops P ind q"
  shows "\<exists>P' ind'. kahn (dependents ops) ind q (length P) = length P' \<and> kahn_inv ops P' ind' []"
  using assms(2)
proof (induction "dependents ops" ind q "length P" arbitrary: P rule: kahn.induct)
  case (1 ind q)
  show ?case
  proof (cases "q = []")
    case True
    then show ?thesis using "1.prems" by (subst kahn.simps) auto
  next
    case False
    obtain ind' q' where r: "release_dependents (dependents ops (last q)) ind (butlast q) = (ind', q')"
      by fastforce
    have "kahn_inv ops P ind (butlast q @ [last q])" using "1.prems" False by simp
    then have inv: "kahn_inv ops (P @ [last q]) ind' q'" by (rule kahn_inv_step [OF assms(1) _ r])
    have "kahn (dependents ops) ind q (length P) = kahn (dependents ops) ind' q' (length (P @ [last q]))"
      using False r by (subst kahn.simps) simp
    then show ?thesis using "1.hyps" [OF False r [symmetric] refl _ inv] by simp
  qed
qed

lemma kahn_inv_init: "graph_ok ops \<Longrightarrow> kahn_inv ops [] (indegrees ops) (initial_queue ops)"
proof -
  assume ok: "graph_ok ops"
  then have d: "distinct (map fst ops)" by (simp add: graph_ok_def)
  have entry: "map_of ops i = Some op \<Longrightarrow> distinct (op_dependencies op)" for i op
    using ok by (auto simp: graph_ok_def dest: map_of_SomeD)
  have "map_of (indegrees ops) i = Some (int (card (deps_of ops i)))" if "i \<in> fst ` set ops" for i
  proof -
    from key_map_of [OF that] obtain op where op: "map_of ops i = Some op" ..
    then show ?thesis using entry [OF op]
      by (simp add: indegrees_def map_of_map_pair deps_of_def distinct_card)
  qed
  moreover have "i \<in> set (initial_queue ops) \<longleftrightarrow> deps_of ops i = {}" if i: "i \<in> fst ` set ops" for i
  proof -
    obtain op where op: "(i, op) \<in> set ops" using i by auto
    have "i \<in> set (initial_queue ops) \<longleftrightarrow> op_dependencies op = []"
    proof
      assume "i \<in> set (initial_queue ops)"
      then obtain op' where "(i, op') \<in> set ops" "op_dependencies op' = []"
        unfolding initial_queue_def by auto
      then show "op_dependencies op = []" using eq_key_imp_eq_value [OF d op] by metis
    next
      assume "op_dependencies op = []"
      then show "i \<in> set (initial_queue ops)"
        using op unfolding initial_queue_def by (auto intro!: image_eqI)
    qed
    then show ?thesis using deps_of_entry [OF d op] by simp
  qed
  moreover have "distinct (initial_queue ops)" "set (initial_queue ops) \<subseteq> fst ` set ops"
    using d by (auto simp: initial_queue_def distinct_map_filter)
  moreover have "topological ops []" by (simp add: topological_def)
  ultimately show ?thesis unfolding kahn_inv_def by simp
qed

lemma takeWhile_first: "x \<notin> set A \<Longrightarrow> takeWhile (\<lambda>y. y \<noteq> x) (A @ x # B) = A"
  by (induction A) auto

lemma topological_acyclic:
  assumes ok: "graph_ok ops" and top: "topological ops P" and all: "fst ` set ops \<subseteq> set P"
  shows "acyclic (graph_rel ops)"
proof -
  let ?pos = "\<lambda>x. length (takeWhile (\<lambda>y. y \<noteq> x) P)"
  have "?pos d < ?pos i" if "(d, i) \<in> graph_rel ops" for d i
  proof -
    from that have i: "i \<in> set P" and d: "d \<in> deps_of ops i" using all by (auto simp: graph_rel_def)
    obtain A B where P: "P = A @ i # B" "i \<notin> set A" using split_list_first [OF i] by blast
    have dA: "d \<in> set A" using top d P unfolding topological_def by blast
    then obtain A1 A2 where A: "A = A1 @ d # A2" "d \<notin> set A1" using split_list_first by metis
    have "?pos d = length A1" using takeWhile_first [OF A(2), of "A2 @ i # B"] by (simp add: P(1) A(1))
    moreover have "?pos i = length A" using takeWhile_first [OF P(2), of B] by (simp add: P(1))
    ultimately show ?thesis using A by simp
  qed
  then have "graph_rel ops \<subseteq> measure ?pos" by auto
  then have "wf (graph_rel ops)" using wf_measure wf_subset by blast
  then show ?thesis by (rule wf_acyclic)
qed

lemma acyclic_covers:
  assumes ok: "graph_ok ops" and ac: "acyclic (graph_rel ops)" and inv: "kahn_inv ops P ind []"
  shows "fst ` set ops \<subseteq> set P"
proof -
  have "graph_rel ops \<subseteq> (\<Union>i \<in> fst ` set ops. deps_of ops i \<times> {i})" by (auto simp: graph_rel_def)
  then have "finite (graph_rel ops)" by (rule finite_subset) auto
  then have wf: "wf (graph_rel ops)" using ac by (rule finite_acyclic_wf)
  have known: "d \<in> fst ` set ops" if "i \<in> fst ` set ops" "d \<in> deps_of ops i" for i d
    using that ok by (auto simp: graph_ok_def deps_of_def dest!: map_of_SomeD split: option.splits)
  have "i \<in> fst ` set ops \<longrightarrow> i \<in> set P" for i
    using wf
  proof (induction i rule: wf_induct_rule)
    case (less i)
    show ?case
    proof
      assume i: "i \<in> fst ` set ops"
      have "deps_of ops i \<subseteq> set P" using less i known by (auto simp: graph_rel_def)
      then show "i \<in> set P" using inv i unfolding kahn_inv_def by auto
    qed
  qed
  then show ?thesis by auto
qed

text \<open>The cycle test decides acyclicity.\<close>

lemma validate_acyclic_iff: "graph_ok ops \<Longrightarrow> validate_acyclic ops = None \<longleftrightarrow> acyclic (graph_rel ops)"
proof -
  assume ok: "graph_ok ops"
  obtain P ind where k: "kahn (dependents ops) (indegrees ops) (initial_queue ops) 0 = length P"
    and inv: "kahn_inv ops P ind []"
    using kahn_correct [OF ok kahn_inv_init [OF ok]] by auto
  have P: "distinct P" "set P \<subseteq> fst ` set ops" "topological ops P" using inv by (simp_all add: kahn_inv_def)
  have n: "card (fst ` set ops) = length ops"
    using ok by (metis distinct_card graph_ok_def length_map set_map)
  have "length P = length ops \<longleftrightarrow> fst ` set ops \<subseteq> set P"
    using n P(1,2) by (metis List.finite_set card_subset_eq distinct_card finite_imageI subset_antisym)
  also have "\<dots> \<longleftrightarrow> acyclic (graph_rel ops)"
    using topological_acyclic [OF ok P(3)] acyclic_covers [OF ok _ inv] by blast
  finally show ?thesis by (simp add: validate_acyclic_def k)
qed

section \<open>NewPlan\<close>

definition index_target :: "(target_id \<times> target) list \<Rightarrow> target \<Rightarrow> (target_id \<times> target) list result" where
  "index_target idx t =
     (if \<not> valid_identifier (tgt_id t) \<or> \<not> provider_ref_valid (tgt_provider t)
         \<or> \<not> json_value_valid (tgt_configuration t)
      then Inl (Errorf ''plan contains invalid target'' [])
      else if map_of idx (tgt_id t) \<noteq> None then Inl (Errorf ''duplicate target ID %q'' [tgt_id t])
      else Inr (map_insert (tgt_id t) t idx))"

definition index_operation :: "(target_id \<times> target) list \<Rightarrow> op_index \<Rightarrow> operation \<Rightarrow> op_index result" where
  "index_operation targets idx op =
     (if \<not> valid_identifier (op_id op) then Inl (Errorf ''plan contains invalid operation'' [])
      else if map_of idx (op_id op) \<noteq> None then Inl (Errorf ''duplicate operation ID %q'' [op_id op])
      else (case map_of targets (op_target_id op) of
          None \<Rightarrow> Inl (Errorf ''operation %q references unknown target %q'' [op_id op, op_target_id op])
        | Some t \<Rightarrow>
            if op_provider op \<noteq> tgt_provider t
            then Inl (Errorf ''operation %q provider does not match target'' [op_id op])
            else Inr (map_insert (op_id op) op idx)))"

definition check_known :: "op_index \<Rightarrow> operation \<Rightarrow> error option" where
  "check_known idx op = first_error (map (\<lambda>d.
     fail_if (map_of idx d = None) (Errorf ''operation %q references unknown dependency %q'' [op_id op, d]))
     (op_dependencies op))"

definition new_plan ::
  "plan_id \<Rightarrow> string \<Rightarrow> string \<Rightarrow> release \<Rightarrow> target list \<Rightarrow> operation list \<Rightarrow> plan result" where
  "new_plan i schema_version protocol_version rel targets operations =
     bind_result (checked (first_error [
        fail_if (\<not> valid_identifier i) (Errorf ''plan ID is invalid'' []),
        validate_text ''plan schema version'' schema_version False,
        validate_text ''protocol version'' protocol_version False,
        fail_if (\<not> valid_identifier (rel_id rel) \<or> rel_artifacts rel = []) (Errorf ''release is invalid'' []),
        fail_if (targets = []) (Errorf ''plan must contain at least one target'' [])]) ()) (\<lambda>_.
     bind_result (for_each index_target [] targets) (\<lambda>tidx.
     bind_result (for_each (index_operation tidx) [] operations) (\<lambda>oidx.
     bind_result (checked (first_error (map (check_known oidx) operations)) ()) (\<lambda>_.
     checked (validate_acyclic oidx)
       \<lparr>pl_id = i, pl_schema_version = schema_version, pl_protocol_version = protocol_version,
        pl_release = rel, pl_targets = targets, pl_operations = operations\<rparr>))))"

text \<open>What a plan accepted by \<open>NewPlan\<close> satisfies.\<close>

definition dependency_rel :: "operation list \<Rightarrow> (operation_id \<times> operation_id) set" where
  "dependency_rel ops = {(d, op_id op) | d op. op \<in> set ops \<and> d \<in> set (op_dependencies op)}"

definition plan_wf :: "plan \<Rightarrow> bool" where
  "plan_wf p \<longleftrightarrow> valid_identifier (pl_id p)
     \<and> distinct (map op_id (pl_operations p)) \<and> distinct (map tgt_id (pl_targets p))
     \<and> (\<forall>op \<in> set (pl_operations p). valid_identifier (op_id op)
          \<and> op_target_id op \<in> tgt_id ` set (pl_targets p)
          \<and> set (op_dependencies op) \<subseteq> op_id ` set (pl_operations p))
     \<and> acyclic (dependency_rel (pl_operations p))"

text \<open>The two index loops, run to their end without error.\<close>

definition target_ok :: "target \<Rightarrow> bool" where
  "target_ok t \<longleftrightarrow> valid_identifier (tgt_id t) \<and> provider_ref_valid (tgt_provider t)
     \<and> json_value_valid (tgt_configuration t)"

definition operation_ok :: "(target_id \<times> target) list \<Rightarrow> operation \<Rightarrow> bool" where
  "operation_ok tidx op \<longleftrightarrow> valid_identifier (op_id op)
     \<and> (\<exists>t. map_of tidx (op_target_id op) = Some t \<and> op_provider op = tgt_provider t)"

lemma index_targets_Inr:
  "for_each index_target idx ts = Inr idx' \<longleftrightarrow>
     (\<forall>t \<in> set ts. target_ok t \<and> tgt_id t \<notin> fst ` set idx) \<and> distinct (map tgt_id ts)
     \<and> idx' = idx @ map (\<lambda>t. (tgt_id t, t)) ts"
proof (induction ts arbitrary: idx)
  case (Cons t ts)
  have "index_target idx t = Inr i \<longleftrightarrow> target_ok t \<and> tgt_id t \<notin> fst ` set idx \<and> i = idx @ [(tgt_id t, t)]" for i
    by (auto simp: index_target_def target_ok_def map_insert_fresh map_of_eq_None_iff)
  then show ?case by (auto simp: bind_result_Inr Cons.IH image_iff)
qed auto

lemma index_operations_Inr:
  "for_each (index_operation tidx) idx ops = Inr idx' \<longleftrightarrow>
     (\<forall>op \<in> set ops. operation_ok tidx op \<and> op_id op \<notin> fst ` set idx) \<and> distinct (map op_id ops)
     \<and> idx' = idx @ map (\<lambda>op. (op_id op, op)) ops"
proof (induction ops arbitrary: idx)
  case (Cons op ops)
  have "index_operation tidx idx op = Inr i \<longleftrightarrow>
      operation_ok tidx op \<and> op_id op \<notin> fst ` set idx \<and> i = idx @ [(op_id op, op)]" for i
    by (auto simp: index_operation_def operation_ok_def map_insert_fresh map_of_eq_None_iff [of idx]
        split: option.splits)
  then show ?case by (auto simp: bind_result_Inr Cons.IH image_iff)
qed auto

lemma graph_rel_index: "distinct (map op_id ops) \<Longrightarrow> graph_rel (map (\<lambda>op. (op_id op, op)) ops) = dependency_rel ops"
proof -
  assume "distinct (map op_id ops)"
  then have d: "distinct (map fst (map (\<lambda>op. (op_id op, op)) ops))" by (simp add: comp_def)
  have "(op_id op, op) \<in> set (map (\<lambda>op. (op_id op, op)) ops)" if "op \<in> set ops" for op
    using that by simp
  then have "op \<in> set ops \<Longrightarrow> deps_of (map (\<lambda>op. (op_id op, op)) ops) (op_id op) = set (op_dependencies op)" for op
    using deps_of_entry [OF d] by blast
  then show ?thesis by (auto simp: graph_rel_def dependency_rel_def image_image)
qed

text \<open>
  \<open>NewPlan\<close> accepts exactly the well-formed plans: valid header, unique valid targets, unique
  operations that name a known target and its provider, known dependencies and no cycle.
\<close>

lemma new_plan_accepts:
  assumes "\<forall>op \<in> set ops. distinct (op_dependencies op)"
  shows "new_plan i sv pv rel ts ops = Inr p \<longleftrightarrow>
    valid_identifier i \<and> validate_text ''plan schema version'' sv False = None
    \<and> validate_text ''protocol version'' pv False = None
    \<and> valid_identifier (rel_id rel) \<and> rel_artifacts rel \<noteq> [] \<and> ts \<noteq> []
    \<and> (\<forall>t \<in> set ts. target_ok t) \<and> distinct (map tgt_id ts)
    \<and> (\<forall>op \<in> set ops. operation_ok (map (\<lambda>t. (tgt_id t, t)) ts) op
          \<and> set (op_dependencies op) \<subseteq> op_id ` set ops)
    \<and> distinct (map op_id ops) \<and> acyclic (dependency_rel ops)
    \<and> p = \<lparr>pl_id = i, pl_schema_version = sv, pl_protocol_version = pv, pl_release = rel,
           pl_targets = ts, pl_operations = ops\<rparr>"
    (is "_ \<longleftrightarrow> ?rhs")
proof -
  let ?idx = "map (\<lambda>op. (op_id op, op)) ops"
  have known: "first_error (map (check_known ?idx) ops) = None \<longleftrightarrow>
      (\<forall>op \<in> set ops. set (op_dependencies op) \<subseteq> op_id ` set ops)"
    by (auto simp: first_error_map_None check_known_def map_of_eq_None_iff image_image)
  have acyc: "validate_acyclic ?idx = None \<longleftrightarrow> acyclic (dependency_rel ops)"
    if "distinct (map op_id ops)" "\<forall>op \<in> set ops. set (op_dependencies op) \<subseteq> op_id ` set ops"
  proof -
    have "graph_ok ?idx" using assms that by (auto simp: graph_ok_def comp_def image_image)
    then show ?thesis using validate_acyclic_iff graph_rel_index [OF that(1)] by simp
  qed
  show ?thesis
    unfolding new_plan_def
    by (simp add: bind_result_Inr index_targets_Inr index_operations_Inr known first_error_Cons)
      (use acyc in blast)
qed

lemma new_plan_wf:
  assumes "\<forall>op \<in> set ops. distinct (op_dependencies op)" and "new_plan i sv pv rel ts ops = Inr p"
  shows "plan_wf p"
proof -
  have "op_target_id op \<in> tgt_id ` set ts" if "operation_ok (map (\<lambda>t. (tgt_id t, t)) ts) op" for op
    using that map_of_SomeD [of "map (\<lambda>t. (tgt_id t, t)) ts"] by (fastforce simp: operation_ok_def)
  then show ?thesis
    using assms(2) unfolding new_plan_accepts [OF assms(1)]
    by (auto simp: plan_wf_def) (simp add: operation_ok_def)
qed

end
