(* ===== verification/Journal_Event.thy ===== *)
theory Journal_Event
  imports Domain
begin

text \<open>
  The records of the run journal, \<open>internal/journal/event.go\<close>: event types, payloads, entries and
  events, and their validation, with the evidence check that refuses secret-bearing fields.  An
  \<open>EventType\<close> is a Go string; \<open>EventUnknown\<close> holds any string that is none of the constants.  A
  \<open>time.Time\<close> is a number of nanoseconds since Go's zero time, so \<open>IsZero\<close> is \<open>= 0\<close>, \<open>After\<close> is \<open><\<close>
  reversed and \<open>Add\<close> is \<open>+\<close>.  Cloning an event copies its slices and its lease, so on values it is
  the identity.
\<close>

type_synonym time = int

section \<open>Event types\<close>

datatype event_type =
    EventRunStarted | EventRunCompleted | EventRunCancelled | EventOperationReady
  | EventLeaseAcquired | EventLeaseRenewed | EventLeaseExpired | EventLeaseReleased
  | EventAttemptStarted | EventCredentialResolved | EventProviderProcessStarted
  | EventSideEffectDispatched | EventProviderResponseReceived | EventOperationWaitingExternal
  | EventOperationPublished | EventOperationRejected | EventOperationFailed | EventOperationResult
  | EventOperationCancelled | EventOutcomeAmbiguous | EventReconcileStarted | EventReconcileResult
  | EventRetryAuthorized | EventUnknown string

fun event_type_text :: "event_type \<Rightarrow> string" where
  "event_type_text EventRunStarted = ''RUN_STARTED''"
| "event_type_text EventRunCompleted = ''RUN_COMPLETED''"
| "event_type_text EventRunCancelled = ''RUN_CANCELLED''"
| "event_type_text EventOperationReady = ''OPERATION_READY''"
| "event_type_text EventLeaseAcquired = ''LEASE_ACQUIRED''"
| "event_type_text EventLeaseRenewed = ''LEASE_RENEWED''"
| "event_type_text EventLeaseExpired = ''LEASE_EXPIRED''"
| "event_type_text EventLeaseReleased = ''LEASE_RELEASED''"
| "event_type_text EventAttemptStarted = ''ATTEMPT_STARTED''"
| "event_type_text EventCredentialResolved = ''CREDENTIAL_RESOLVED''"
| "event_type_text EventProviderProcessStarted = ''PROVIDER_PROCESS_STARTED''"
| "event_type_text EventSideEffectDispatched = ''SIDE_EFFECT_DISPATCHED''"
| "event_type_text EventProviderResponseReceived = ''PROVIDER_RESPONSE_RECEIVED''"
| "event_type_text EventOperationWaitingExternal = ''OPERATION_WAITING_EXTERNAL''"
| "event_type_text EventOperationPublished = ''OPERATION_PUBLISHED''"
| "event_type_text EventOperationRejected = ''OPERATION_REJECTED''"
| "event_type_text EventOperationFailed = ''OPERATION_FAILED''"
| "event_type_text EventOperationResult = ''OPERATION_RESULT''"
| "event_type_text EventOperationCancelled = ''OPERATION_CANCELLED''"
| "event_type_text EventOutcomeAmbiguous = ''OUTCOME_AMBIGUOUS''"
| "event_type_text EventReconcileStarted = ''RECONCILE_STARTED''"
| "event_type_text EventReconcileResult = ''RECONCILE_RESULT''"
| "event_type_text EventRetryAuthorized = ''RETRY_AUTHORIZED''"
| "event_type_text (EventUnknown s) = s"

fun event_type_valid :: "event_type \<Rightarrow> bool" where
  "event_type_valid (EventUnknown _) = False"
| "event_type_valid _ = True"

fun explicit_result_state :: "event_type \<Rightarrow> normalized_state \<times> bool" where
  "explicit_result_state EventOperationWaitingExternal = (StateWaitingExternal, True)"
| "explicit_result_state EventOperationPublished = (StatePublished, True)"
| "explicit_result_state EventOperationRejected = (StateRejected, True)"
| "explicit_result_state EventOperationFailed = (StateFailed, True)"
| "explicit_result_state _ = (state_unset, False)"

fun result_state :: "normalized_state \<Rightarrow> bool" where
  "result_state StateWaitingExternal = True"
| "result_state StatePublished = True"
| "result_state StateRejected = True"
| "result_state StateFailed = True"
| "result_state StateCancelled = True"
| "result_state StateBlocked = True"
| "result_state _ = False"

section \<open>Attempt reasons and result categories\<close>

definition valid_attempt_reason :: "string \<Rightarrow> bool" where
  "valid_attempt_reason v \<longleftrightarrow> v \<in> {''INITIAL'', ''RETRY'', ''RECONCILE''}"

definition valid_result_category :: "string \<Rightarrow> bool" where
  "valid_result_category v \<longleftrightarrow> v \<in> {''PUBLISHED'', ''WAITING_EXTERNAL'', ''REJECTED'',
     ''FAILED_RETRYABLE'', ''FAILED_PERMANENT'', ''CANCELLED'', ''AMBIGUOUS'', ''BLOCKED''}"

section \<open>Payloads, entries and events\<close>

record lease_payload =
  lp_id :: string
  lp_owner :: string
  lp_acquired_at :: time
  lp_expires_at :: time

record payload =
  pay_attempt :: attempt_number
  pay_attempt_reason :: string
  pay_result_category :: string
  pay_credential_ref :: credential_ref
  pay_state :: normalized_state
  pay_provider_state :: string
  pay_evidence :: string
  pay_error_code :: string
  pay_retryable :: bool
  pay_lease :: "lease_payload option"

record entry =
  en_run_id :: run_id
  en_plan_id :: plan_id
  en_type :: event_type
  en_operation_id :: operation_id
  en_target_id :: target_id
  en_payload :: payload

record event =
  e_schema_version :: "16 word"
  e_sequence :: "64 word"
  e_run_id :: run_id
  e_plan_id :: plan_id
  e_type :: event_type
  e_operation_id :: operation_id
  e_target_id :: target_id
  e_observed_at :: time
  e_payload :: payload

text \<open>The zero value of \<open>Payload\<close>, which every composite literal of the code starts from.\<close>

definition no_payload :: payload where
  "no_payload = \<lparr>pay_attempt = 0, pay_attempt_reason = [], pay_result_category = [],
     pay_credential_ref = [], pay_state = state_unset, pay_provider_state = [], pay_evidence = [],
     pay_error_code = [], pay_retryable = False, pay_lease = None\<rparr>"

definition schema_version :: "16 word" where
  "schema_version = 2"

definition payload_empty :: "payload \<Rightarrow> bool" where
  "payload_empty p \<longleftrightarrow> pay_attempt p = 0 \<and> pay_attempt_reason p = [] \<and> pay_result_category p = []
     \<and> pay_credential_ref p = [] \<and> pay_state p = state_unset \<and> pay_provider_state p = []
     \<and> pay_evidence p = [] \<and> pay_error_code p = [] \<and> \<not> pay_retryable p \<and> pay_lease p = None"

definition payload_empty_except_attempt :: "payload \<Rightarrow> bool" where
  "payload_empty_except_attempt p = payload_empty (p\<lparr>pay_attempt := 0\<rparr>)"

lemma payload_empty_iff [simp]: "payload_empty p \<longleftrightarrow> p = no_payload"
  by (cases p) (auto simp: payload_empty_def no_payload_def)

section \<open>Evidence\<close>

definition key_letters :: "string \<Rightarrow> nat list" where
  "key_letters key = filter is_letter_or_digit
     (map (\<lambda>(r, _). case r of None \<Rightarrow> 0xFFFD | Some u \<Rightarrow> lower_rune u) (rune_chunks key))"

definition secret_words :: "string list" where
  "secret_words = [''authorization'', ''credential'', ''credentials'', ''password'', ''passwd'',
     ''secret'', ''token'', ''accesstoken'', ''refreshtoken'', ''apikey'', ''clientsecret'', ''privatekey'']"

definition secret_key :: "string \<Rightarrow> bool" where
  "secret_key key \<longleftrightarrow> key_letters key \<in> set (map (map byte) secret_words)"

fun contains_secret_field :: "json \<Rightarrow> bool" where
  "contains_secret_field (JObject kvs) =
     list_ex (\<lambda>kv. secret_key (fst kv) \<or> contains_secret_field (snd kv)) kvs"
| "contains_secret_field (JArray vs) = list_ex contains_secret_field vs"
| "contains_secret_field _ = False"

definition validate_evidence :: "string \<Rightarrow> error option" where
  "validate_evidence raw = (case json_decode raw of
     None \<Rightarrow> Some (Errorf ''invalid evidence: %w'' [])
   | Some (v, rest) \<Rightarrow> first_error [
       fail_if (skip_ws rest \<noteq> []) (Errorf ''invalid evidence: trailing JSON data'' []),
       fail_if (contains_secret_field v) (Errorf ''evidence contains a secret-bearing field'' [])])"

lemma validate_evidence_iff:
  "validate_evidence raw = None \<longleftrightarrow> (\<exists>v. json_parse raw = Some v \<and> \<not> contains_secret_field v)"
  by (auto simp: validate_evidence_def json_parse_def checks split: option.splits)

section \<open>Validation\<close>

definition lease_validate :: "lease_payload \<Rightarrow> error option" where
  "lease_validate l = first_error [
     validate_text256 ''lease ID'' (lp_id l) False,
     validate_text256 ''lease owner'' (lp_owner l) False,
     fail_if (lp_acquired_at l = 0) (Errorf ''lease acquired time is required'' []),
     fail_if (lp_expires_at l = 0) (Errorf ''lease expiry is required'' []),
     fail_if (\<not> lp_acquired_at l < lp_expires_at l) (Errorf ''lease expiry must be after acquisition'' [])]"

definition lease_event_error :: "event_type \<Rightarrow> payload \<Rightarrow> error option" where
  "lease_event_error t p =
     (if p\<lparr>pay_lease := None\<rparr> \<noteq> no_payload
      then Some (Errorf ''event %q contains unsupported non-lease payload'' [event_type_text t])
      else (case pay_lease p of
          None \<Rightarrow> Some (Errorf ''event %q requires lease metadata'' [event_type_text t])
        | Some l \<Rightarrow> lease_validate l))"

text \<open>The cases of the type switch of \<open>Payload.validate\<close> that fall through to the common checks.\<close>

definition attempt_event_error :: "event_type \<Rightarrow> payload \<Rightarrow> error option" where
  "attempt_event_error t p = first_error [
     fail_if (pay_attempt p = 0) (Errorf ''attempt must be greater than zero'' []),
     fail_if (pay_credential_ref p \<noteq> [] \<or> pay_state p \<noteq> state_unset \<or> pay_provider_state p \<noteq> []
              \<or> pay_evidence p \<noteq> [] \<or> pay_retryable p)
       (Errorf ''event %q contains unsupported result payload'' [event_type_text t]),
     (if t = EventAttemptStarted \<or> t = EventReconcileStarted
      then fail_if (pay_result_category p \<noteq> [])
             (Errorf ''event %q must not contain a result category'' [event_type_text t])
      else if t = EventOutcomeAmbiguous
      then fail_if (pay_attempt_reason p \<noteq> [])
             (Errorf ''event %q must not contain an attempt reason'' [event_type_text t])
      else fail_if (pay_attempt_reason p \<noteq> [] \<or> pay_result_category p \<noteq> [])
             (Errorf ''event %q contains unsupported attempt metadata'' [event_type_text t])),
     fail_if (t \<noteq> EventOutcomeAmbiguous \<and> pay_error_code p \<noteq> [])
       (Errorf ''event %q must not contain an error code'' [event_type_text t])]"

definition result_head_error :: "payload \<Rightarrow> error option" where
  "result_head_error p = first_error [
     fail_if (pay_attempt_reason p \<noteq> []) (Errorf ''result event must not contain an attempt reason'' []),
     fail_if (pay_credential_ref p \<noteq> []) (Errorf ''result event must not contain a credential reference'' []),
     fail_if (pay_attempt p = 0) (Errorf ''attempt must be greater than zero'' [])]"

definition explicit_result_error :: "event_type \<Rightarrow> payload \<Rightarrow> error option" where
  "explicit_result_error t p =
     (let state = fst (explicit_result_state t) in first_error [
        result_head_error p,
        fail_if (pay_state p \<noteq> state_unset)
          (Errorf ''explicit result event %q must not contain a state'' [event_type_text t]),
        fail_if (pay_retryable p \<and> state \<noteq> StateFailed \<and> state \<noteq> StateWaitingExternal)
          (Errorf ''state %q cannot be retryable'' [state_text state])])"

definition result_event_error :: "event_type \<Rightarrow> payload \<Rightarrow> error option" where
  "result_event_error t p = first_error [
     result_head_error p,
     fail_if (\<not> result_state (pay_state p) \<or> (t = EventReconcileResult \<and> pay_state p = StateBlocked))
       (Errorf ''invalid result state %q'' [state_text (pay_state p)]),
     fail_if (pay_state p = StateBlocked \<and>
              (pay_result_category p \<noteq> ''BLOCKED'' \<or> pay_error_code p = [] \<or> pay_retryable p
               \<or> pay_provider_state p \<noteq> [] \<or> pay_evidence p \<noteq> []))
       (Errorf ''blocked result must contain only its attempt, error code, and blocked category'' []),
     fail_if (pay_retryable p \<and> pay_state p \<noteq> StateFailed \<and> pay_state p \<noteq> StateWaitingExternal)
       (Errorf ''state %q cannot be retryable'' [state_text (pay_state p)])]"

definition credential_event_error :: "payload \<Rightarrow> error option" where
  "credential_event_error p = first_error [
     fail_if (pay_attempt p = 0) (Errorf ''attempt must be greater than zero'' []),
     fail_if (\<not> valid_identifier (pay_credential_ref p)) (Errorf ''credential reference is invalid'' []),
     fail_if (pay_attempt_reason p \<noteq> [] \<or> pay_result_category p \<noteq> [] \<or> pay_state p \<noteq> state_unset
              \<or> pay_provider_state p \<noteq> [] \<or> pay_evidence p \<noteq> [] \<or> pay_error_code p \<noteq> [] \<or> pay_retryable p)
       (Errorf ''credential-resolved event contains unsupported payload'' [])]"

definition cancelled_event_error :: "payload \<Rightarrow> error option" where
  "cancelled_event_error p =
     fail_if (pay_attempt p \<noteq> 0 \<or> pay_attempt_reason p \<noteq> [] \<or> pay_result_category p \<noteq> []
              \<or> pay_credential_ref p \<noteq> [] \<or> pay_state p \<noteq> state_unset \<or> pay_provider_state p \<noteq> []
              \<or> pay_evidence p \<noteq> [] \<or> pay_retryable p)
       (Errorf ''operation-cancelled event contains unsupported payload'' [])"

fun switch_error :: "event_type \<Rightarrow> payload \<Rightarrow> error option" where
  "switch_error EventOperationReady p =
     fail_if (\<not> payload_empty p) (Errorf ''event %q must not contain payload data'' [''OPERATION_READY''])"
| "switch_error EventOperationCancelled p = cancelled_event_error p"
| "switch_error EventCredentialResolved p = credential_event_error p"
| "switch_error EventAttemptStarted p = attempt_event_error EventAttemptStarted p"
| "switch_error EventProviderProcessStarted p = attempt_event_error EventProviderProcessStarted p"
| "switch_error EventSideEffectDispatched p = attempt_event_error EventSideEffectDispatched p"
| "switch_error EventProviderResponseReceived p = attempt_event_error EventProviderResponseReceived p"
| "switch_error EventOutcomeAmbiguous p = attempt_event_error EventOutcomeAmbiguous p"
| "switch_error EventReconcileStarted p = attempt_event_error EventReconcileStarted p"
| "switch_error EventOperationWaitingExternal p = explicit_result_error EventOperationWaitingExternal p"
| "switch_error EventOperationPublished p = explicit_result_error EventOperationPublished p"
| "switch_error EventOperationRejected p = explicit_result_error EventOperationRejected p"
| "switch_error EventOperationFailed p = explicit_result_error EventOperationFailed p"
| "switch_error EventOperationResult p = result_event_error EventOperationResult p"
| "switch_error EventReconcileResult p = result_event_error EventReconcileResult p"
| "switch_error t p = Some (ErrorIs ErrUnknownEventType ''%w %q'' [event_type_text t])"

text \<open>The checks after the switch.\<close>

definition common_error :: "event_type \<Rightarrow> payload \<Rightarrow> error option" where
  "common_error t p = first_error [
     fail_if (pay_result_category p = ''BLOCKED'' \<and> \<not> (t = EventOperationResult \<and> pay_state p = StateBlocked))
       (Errorf ''blocked category is only valid for a blocked operation result'' []),
     fail_if (pay_lease p \<noteq> None)
       (Errorf ''event %q must not contain lease metadata'' [event_type_text t]),
     validate_text256 ''attempt reason'' (pay_attempt_reason p) True,
     fail_if (pay_attempt_reason p \<noteq> [] \<and> \<not> valid_attempt_reason (pay_attempt_reason p))
       (Errorf ''invalid attempt reason %q'' [pay_attempt_reason p]),
     validate_text256 ''result category'' (pay_result_category p) True,
     fail_if (pay_result_category p \<noteq> [] \<and> \<not> valid_result_category (pay_result_category p))
       (Errorf ''invalid result category %q'' [pay_result_category p]),
     validate_text256 ''provider state'' (pay_provider_state p) True,
     validate_text256 ''error code'' (pay_error_code p) True,
     (if pay_evidence p \<noteq> [] then validate_evidence (pay_evidence p) else None)]"

fun is_lease_event :: "event_type \<Rightarrow> bool" where
  "is_lease_event EventLeaseAcquired = True"
| "is_lease_event EventLeaseRenewed = True"
| "is_lease_event EventLeaseExpired = True"
| "is_lease_event EventLeaseReleased = True"
| "is_lease_event _ = False"

definition payload_validate :: "event_type \<Rightarrow> payload \<Rightarrow> error option" where
  "payload_validate t p =
     (if is_lease_event t then lease_event_error t p
      else if t = EventRetryAuthorized
      then fail_if (pay_attempt p = 0 \<or> \<not> payload_empty_except_attempt p)
             (Errorf ''retry authorization requires only a nonzero attempt'' [])
      else first_error [switch_error t p, common_error t p])"

definition is_run_event :: "event_type \<Rightarrow> bool" where
  "is_run_event t \<longleftrightarrow> t = EventRunStarted \<or> t = EventRunCompleted \<or> t = EventRunCancelled"

definition entry_validate :: "entry \<Rightarrow> error option" where
  "entry_validate e = first_error [
     fail_if (\<not> valid_identifier (en_run_id e)) (Errorf ''run ID is invalid'' []),
     fail_if (\<not> event_type_valid (en_type e))
       (ErrorIs ErrUnknownEventType ''%w %q'' [event_type_text (en_type e)]),
     (if en_type e = EventRunStarted
      then fail_if (\<not> valid_identifier (en_plan_id e))
             (ErrorIs ErrUnboundJournal ''%w: %s event requires a valid plan ID'' [''RUN_STARTED''])
      else fail_if (en_plan_id e \<noteq> []) (Errorf ''plan ID is only allowed on %q'' [''RUN_STARTED''])),
     (if is_run_event (en_type e)
      then fail_if (en_operation_id e \<noteq> [] \<or> en_target_id e \<noteq> [] \<or> \<not> payload_empty (en_payload e))
             (Errorf ''run lifecycle event %q must not contain operation, target, or payload data''
                [event_type_text (en_type e)])
      else first_error [
        fail_if (\<not> valid_identifier (en_operation_id e)) (Errorf ''operation ID is invalid'' []),
        fail_if (\<not> valid_identifier (en_target_id e)) (Errorf ''target ID is invalid'' []),
        payload_validate (en_type e) (en_payload e)])]"

definition event_entry :: "event \<Rightarrow> entry" where
  "event_entry e = \<lparr>en_run_id = e_run_id e, en_plan_id = e_plan_id e, en_type = e_type e,
     en_operation_id = e_operation_id e, en_target_id = e_target_id e, en_payload = e_payload e\<rparr>"

definition event_validate :: "event \<Rightarrow> error option" where
  "event_validate e = first_error [
     fail_if (e_schema_version e \<noteq> schema_version) (ErrorIs ErrUnsupportedVersion ''%w %d'' []),
     fail_if (e_sequence e = 0) (ErrorIs ErrSequence ''%w: sequence must be greater than zero'' []),
     fail_if (e_observed_at e = 0) (Errorf ''observation timestamp is required'' []),
     entry_validate (event_entry e)]"

end
