(* ===== verification/Domain_Claims.thy ===== *)
theory Domain_Claims
  imports Domain_Plan Journal_Event
begin

text \<open>
  The properties of the domain package, and of the evidence check that the journal applies to what a
  provider reports.
\<close>

section \<open>Text forms\<close>

text \<open>\<open>ParseDigest\<close> accepts exactly what \<open>Digest.String\<close> prints for a 32-byte digest, and returns
  that digest: no other spelling (upper case, other length, other algorithm) is accepted.\<close>

theorem digest_text_exact: "parse_digest v = Inr d \<longleftrightarrow> digest_wf d \<and> v = digest_string d"
  using parse_digest_Inr parse_digest_string by metis

text \<open>A normalized state survives \<open>MarshalJSON\<close> followed by \<open>UnmarshalJSON\<close>, and only one of the
  nine states can be marshalled at all.\<close>

theorem state_json_roundtrip:
  "bind_result (state_marshal s) state_unmarshal = Inr t \<longleftrightarrow> state_valid s \<and> t = s"
  by (auto simp: state_marshal_def state_unmarshal_def unmarshal_string_def json_parse_quote_plain
      state_text_plain Let_def)

section \<open>Plans\<close>

text \<open>C21  \<open>validateAcyclic\<close>, Kahn's algorithm with a stack over Go maps, reports an error exactly when the
  dependency graph has a cycle.\<close>

theorem cycle_check_exact:
  assumes "graph_ok ops"
  shows "validate_acyclic ops = None \<longleftrightarrow> acyclic (graph_rel ops)"
  using assms by (rule validate_acyclic_iff)

definition chain_op :: "string \<Rightarrow> string list \<Rightarrow> operation" where
  "chain_op i deps = \<lparr>op_id = i, op_target_id = ''t'', op_provider = \<lparr>provider_name = ''npm'', provider_version = ''1''\<rparr>,
     op_kind = ''publish'', op_dependencies = deps, op_side_effecting = True, op_idempotency_key = ''k'',
     op_timeout = 0, op_provider_payload = ''{}''\<rparr>"

definition loop_index :: op_index where
  "loop_index = [(''a'', chain_op ''a'' [''b'']), (''b'', chain_op ''b'' [''a''])]"

theorem cycle_check_exact_witness: "\<not> acyclic (graph_rel loop_index)"
proof -
  have "graph_ok loop_index" by (simp add: graph_ok_def loop_index_def chain_op_def)
  moreover have "validate_acyclic loop_index \<noteq> None" by code_simp
  ultimately show ?thesis using cycle_check_exact [of loop_index] by simp
qed

text \<open>C22  A plan that \<open>NewPlan\<close> accepts, of operations that \<open>NewOperation\<close> built, is well formed:
  identifiers are valid and unique, every operation names a target of the plan, dependencies are operations
  of the plan and form no cycle, and no operation depends on itself.\<close>

theorem accepted_plan_is_well_formed:
  assumes "new_plan i sv pv rel ts ops = Inr p"
    and "\<forall>op \<in> set ops. \<exists>j t pr k ds se ik tm pay. new_operation j t pr k ds se ik tm pay = Inr op"
  shows "plan_wf p \<and> pl_operations p = ops \<and> (\<forall>op \<in> set ops. op_id op \<notin> set (op_dependencies op))"
proof -
  have built: "distinct (op_dependencies op) \<and> op_id op \<notin> set (op_dependencies op)" if "op \<in> set ops" for op
    using assms(2) that new_operation_Inr(1,4,8,9) by metis
  then have d: "\<forall>op \<in> set ops. distinct (op_dependencies op)" by blast
  have "pl_operations p = ops" using assms(1) unfolding new_plan_accepts [OF d] by simp
  with new_plan_wf [OF d assms(1)] built show ?thesis by blast
qed

definition two_plan :: "plan result" where
  "two_plan = new_plan ''p'' ''2'' ''1''
     \<lparr>rel_id = ''r'', rel_artifacts = [\<lparr>artifact_name = ''x'', artifact_source = ''x.tgz'', artifact_digest = zero_digest,
        artifact_size = 0, artifact_media_type = []\<rparr>]\<rparr>
     [\<lparr>tgt_id = ''t'', tgt_provider = \<lparr>provider_name = ''npm'', provider_version = ''1''\<rparr>,
        tgt_configuration = ''{}'', tgt_requirements = []\<rparr>]
     [chain_op ''a'' [], chain_op ''b'' [''a'']]"

lemma empty_object_valid [simp]: "json_valid ''{}''"
  by (simp add: json_valid_def json_parse_def json_decode_def max_nesting_depth_def skip_ws_def is_json_space_def
      byte_def numeral_2_eq_2)

lemma chain_op_built: "op \<in> {chain_op ''a'' [], chain_op ''b'' [''a'']} \<Longrightarrow>
    new_operation (op_id op) (op_target_id op) (op_provider op) (op_kind op) (op_dependencies op)
      (op_side_effecting op) (op_idempotency_key op) (op_timeout op) (op_provider_payload op) = Inr op"
  by (auto simp: chain_op_def new_operation_def check_dependency_def provider_ref_valid_def idempotency_error_def
      json_value_valid_def text_eval checked_def)

theorem accepted_plan_is_well_formed_witness: "\<exists>p. two_plan = Inr p \<and> plan_wf p"
proof -
  have "validate_acyclic [(''a'', chain_op ''a'' []), (''b'', chain_op ''b'' [''a''])] = None" by code_simp
  then have "is_ok two_plan"
    by (simp add: two_plan_def new_plan_def index_target_def index_operation_def check_known_def chain_op_def
        provider_ref_valid_def json_value_valid_def text_eval checked_def)
  then obtain p where p: "two_plan = Inr p" by (auto simp: is_ok_iff)
  have "plan_wf p \<and> pl_operations p = [chain_op ''a'' [], chain_op ''b'' [''a'']] \<and>
      (\<forall>op \<in> set [chain_op ''a'' [], chain_op ''b'' [''a'']]. op_id op \<notin> set (op_dependencies op))"
    by (rule accepted_plan_is_well_formed [OF p [unfolded two_plan_def]])
      (metis chain_op_built insertCI list.set(1) list.simps(15))
  with p show ?thesis by blast
qed

section \<open>Evidence\<close>

text \<open>A key of an object anywhere inside a JSON value.\<close>

inductive has_key :: "json \<Rightarrow> string \<Rightarrow> bool" where
  member: "(k, v) \<in> set kvs \<Longrightarrow> has_key (JObject kvs) k"
| field: "(k', v) \<in> set kvs \<Longrightarrow> has_key v k \<Longrightarrow> has_key (JObject kvs) k"
| element: "v \<in> set vs \<Longrightarrow> has_key v k \<Longrightarrow> has_key (JArray vs) k"

inductive_simps has_key_simps [simp]:
  "has_key (JObject kvs) k" "has_key (JArray vs) k" "has_key (JString s) k"

lemma contains_secret_field_iff: "contains_secret_field v \<longleftrightarrow> (\<exists>k. has_key v k \<and> secret_key k)"
proof
  show "contains_secret_field v \<Longrightarrow> \<exists>k. has_key v k \<and> secret_key k"
    by (induction v rule: contains_secret_field.induct) (fastforce simp: list_ex_iff)+
  have "has_key v k \<Longrightarrow> secret_key k \<Longrightarrow> contains_secret_field v" for k
    by (induction rule: has_key.induct) (force simp: list_ex_iff)+
  then show "\<exists>k. has_key v k \<and> secret_key k \<Longrightarrow> contains_secret_field v" by blast
qed

text \<open>Evidence is accepted exactly when it is one JSON value in which no object, at any depth, has a
  key that spells a secret word once letter case and punctuation are dropped.\<close>

theorem evidence_accepted_iff:
  "validate_evidence raw = None \<longleftrightarrow> (\<exists>v. json_parse raw = Some v \<and> (\<nexists>k. has_key v k \<and> secret_key k))"
  by (simp add: validate_evidence_iff contains_secret_field_iff)

end
