(* ===== verification/Journal_Reduce.thy ===== *)
theory Journal_Reduce
  imports Journal_Event Domain_Plan
begin

text \<open>
  The reducer \<open>internal/journal/reducer.go\<close>: the state of a run derived from the plan and the
  journal.  \<open>reduce_event\<close> is the body of the loop of \<open>Reduce\<close>; the Go map of operation pointers
  is an association list whose entries are rewritten with \<open>adjust\<close>.  Each case of the type switch
  is a function \<open>step_...\<close> from the operation the event names to its new value or an error.
\<close>

section \<open>Derived state\<close>

record operation_state =
  os_id :: operation_id
  os_target_id :: target_id
  os_state :: normalized_state
  os_attempt :: attempt_number
  os_blocked_attempts :: attempt_number
  os_ready_journaled :: bool
  os_lease_active :: bool
  os_lease_id :: string
  os_lease_owner :: string
  os_lease_acquired_at :: time
  os_lease_expires_at :: time
  os_provider_started :: bool
  os_provider_responded :: bool
  os_reconcile_required :: bool
  os_ambiguous :: bool
  os_retryable :: bool
  os_provider_state :: string
  os_evidence :: string
  os_error_code :: string

record mutable_operation = operation_state +
  mo_dependencies :: "operation_id list"
  mo_side_effecting :: bool
  mo_provider :: provider_ref
  mo_kind :: string
  mo_observed_absent :: bool
  mo_dispatched :: bool
  mo_reconciling :: bool

record target_state =
  ts_id :: target_id
  ts_state :: normalized_state
  ts_reconcile_required :: bool
  ts_ambiguous :: bool

record derived_state =
  ds_run_id :: run_id
  ds_started :: bool
  ds_completed :: bool
  ds_cancelled :: bool
  ds_operations :: "operation_state list"
  ds_targets :: "target_state list"

type_synonym operation_map = "(operation_id \<times> mutable_operation) list"

record reducer =
  rd_operations :: operation_map
  rd_run_id :: run_id
  rd_started :: bool
  rd_completed :: bool
  rd_cancelled :: bool
  rd_expected :: "64 word"

section \<open>Initial maps\<close>

definition initial_operation :: "operation \<Rightarrow> mutable_operation" where
  "initial_operation op =
     \<lparr>os_id = op_id op, os_target_id = op_target_id op, os_state = StatePlanned, os_attempt = 0,
      os_blocked_attempts = 0, os_ready_journaled = False, os_lease_active = False, os_lease_id = [],
      os_lease_owner = [], os_lease_acquired_at = 0, os_lease_expires_at = 0,
      os_provider_started = False, os_provider_responded = False, os_reconcile_required = False,
      os_ambiguous = False, os_retryable = False, os_provider_state = [], os_evidence = [],
      os_error_code = [], mo_dependencies = op_dependencies op, mo_side_effecting = op_side_effecting op,
      mo_provider = op_provider op, mo_kind = op_kind op, mo_observed_absent = False,
      mo_dispatched = False, mo_reconciling = False\<rparr>"

definition initial_operations :: "plan \<Rightarrow> operation_map" where
  "initial_operations p =
     foldl (\<lambda>m op. map_insert (op_id op) (initial_operation op) m) [] (pl_operations p)"

definition target_operations :: "plan \<Rightarrow> (target_id \<times> operation_id list) list" where
  "target_operations p =
     foldl (\<lambda>m op. map_insert (op_target_id op)
              ((case map_of m (op_target_id op) of None \<Rightarrow> [] | Some ids \<Rightarrow> ids) @ [op_id op]) m)
       (foldl (\<lambda>m t. map_insert (tgt_id t) [] m) [] (pl_targets p)) (pl_operations p)"

definition initial_reducer :: "plan \<Rightarrow> reducer" where
  "initial_reducer p =
     \<lparr>rd_operations = initial_operations p, rd_run_id = [], rd_started = False, rd_completed = False,
      rd_cancelled = False, rd_expected = 1\<rparr>"

section \<open>Passes over all operations\<close>

definition dependencies_published :: "mutable_operation \<Rightarrow> operation_map \<Rightarrow> bool" where
  "dependencies_published m ops \<longleftrightarrow> list_all (\<lambda>d. case map_of ops d of
     None \<Rightarrow> False | Some c \<Rightarrow> os_state c = StatePublished) (mo_dependencies m)"

text \<open>The loop of \<open>refreshReady\<close> over the keys in some order; Go leaves the order open.\<close>

fun refresh_keys :: "operation_id list \<Rightarrow> operation_map \<Rightarrow> operation_map" where
  "refresh_keys [] ops = ops"
| "refresh_keys (k # ks) ops = refresh_keys ks
     (case map_of ops k of None \<Rightarrow> ops
      | Some m \<Rightarrow> if os_state m = StatePlanned \<and> dependencies_published m ops
                  then adjust k (\<lambda>m. m\<lparr>os_state := StateReady\<rparr>) ops else ops)"

definition refresh_ready :: "operation_map \<Rightarrow> operation_map" where
  "refresh_ready ops = refresh_keys (map fst ops) ops"

definition terminal_state :: "normalized_state \<Rightarrow> bool" where
  "terminal_state s \<longleftrightarrow> s = StatePublished \<or> s = StateRejected \<or> s = StateFailed \<or> s = StateCancelled"

definition all_quiescent :: "operation_map \<Rightarrow> bool" where
  "all_quiescent ops \<longleftrightarrow> list_all (\<lambda>(_, m). \<not> os_reconcile_required m \<and> \<not> os_lease_active m
     \<and> terminal_state (os_state m)) ops"

definition cancel_operation :: "mutable_operation \<Rightarrow> mutable_operation" where
  "cancel_operation m =
     (if os_reconcile_required m then m
      else if os_state m \<in> {StatePlanned, StateReady, StateRunning, StateFailed, StateBlocked}
      then m\<lparr>os_state := StateCancelled, os_retryable := False, os_error_code := ''RUN_CANCELLED''\<rparr>
      else m)"

definition cancel_remaining :: "operation_map \<Rightarrow> operation_map" where
  "cancel_remaining ops = map (\<lambda>(k, m). (k, cancel_operation m)) ops"

section \<open>Events on one operation\<close>

definition event_operation :: "event \<Rightarrow> operation_map \<Rightarrow> mutable_operation result" where
  "event_operation e ops = (case map_of ops (e_operation_id e) of
     None \<Rightarrow> Inl (Errorf ''event references unknown operation %q'' [e_operation_id e])
   | Some m \<Rightarrow>
       if e_target_id e \<noteq> os_target_id m
       then Inl (Errorf ''event target %q does not match operation %q target %q''
                   [e_target_id e, e_operation_id e, os_target_id m])
       else Inr m)"

definition apply_result :: "payload \<Rightarrow> bool \<Rightarrow> mutable_operation \<Rightarrow> mutable_operation" where
  "apply_result p preserve_ambiguous m =
     m\<lparr>os_state := pay_state p, os_provider_state := pay_provider_state p, os_evidence := pay_evidence p,
       os_error_code := pay_error_code p, os_retryable := pay_retryable p, mo_dispatched := False,
       mo_reconciling := False, os_provider_started := False, os_provider_responded := False,
       os_reconcile_required := (pay_state p = StateWaitingExternal),
       os_ambiguous := (preserve_ambiguous \<and> os_ambiguous m \<and> pay_state p = StateWaitingExternal)\<rparr>"

definition set_lease :: "lease_payload \<Rightarrow> mutable_operation \<Rightarrow> mutable_operation" where
  "set_lease l m = m\<lparr>os_lease_active := True, os_lease_id := lp_id l, os_lease_owner := lp_owner l,
     os_lease_acquired_at := lp_acquired_at l, os_lease_expires_at := lp_expires_at l\<rparr>"

definition lease_matches :: "mutable_operation \<Rightarrow> lease_payload \<Rightarrow> bool" where
  "lease_matches m l \<longleftrightarrow> os_lease_active m \<and> os_lease_id m = lp_id l \<and> os_lease_owner m = lp_owner l
     \<and> os_lease_acquired_at m = lp_acquired_at l"

text \<open>Reading through the payload's lease pointer.\<close>

definition with_lease :: "event \<Rightarrow> (lease_payload \<Rightarrow> 'a result) \<Rightarrow> 'a result" where
  "with_lease e f = (case pay_lease (e_payload e) of
     None \<Rightarrow> Inl (ErrorIs NilDereference ''invalid memory address or nil pointer dereference'' [])
   | Some l \<Rightarrow> f l)"

definition startable :: "mutable_operation \<Rightarrow> bool" where
  "startable m \<longleftrightarrow> os_state m = StateReady \<or> os_state m = StateBlocked
     \<or> (os_state m = StateFailed \<and> os_retryable m)"

definition step_ready :: "mutable_operation \<Rightarrow> mutable_operation result" where
  "step_ready m =
     (if os_state m \<noteq> StateReady then Inl (Errorf ''operation %q is not ready'' [os_id m])
      else if os_ready_journaled m
      then Inl (Errorf ''operation %q readiness already recorded'' [os_id m])
      else Inr (m\<lparr>os_ready_journaled := True\<rparr>))"

definition step_lease_acquired :: "event \<Rightarrow> mutable_operation \<Rightarrow> mutable_operation result" where
  "step_lease_acquired e m =
     (if os_lease_active m then Inl (Errorf ''operation %q lease already acquired'' [os_id m])
      else if \<not> startable m \<and> \<not> os_reconcile_required m
      then Inl (Errorf ''operation %q cannot acquire lease from state %q'' [os_id m, state_text (os_state m)])
      else with_lease e (\<lambda>l. Inr (set_lease l m)))"

definition step_lease_renewed :: "event \<Rightarrow> mutable_operation \<Rightarrow> mutable_operation result" where
  "step_lease_renewed e m = with_lease e (\<lambda>l.
     if \<not> lease_matches m l
     then Inl (Errorf ''operation %q lease renewal does not match active lease'' [os_id m])
     else if \<not> os_lease_expires_at m < lp_expires_at l
     then Inl (Errorf ''operation %q lease renewal does not extend expiry'' [os_id m])
     else Inr (m\<lparr>os_lease_expires_at := lp_expires_at l\<rparr>))"

definition step_lease_expired :: "event \<Rightarrow> mutable_operation \<Rightarrow> mutable_operation result" where
  "step_lease_expired e m = with_lease e (\<lambda>l.
     if \<not> lease_matches m l
     then Inl (Errorf ''operation %q lease expiry does not match active lease'' [os_id m])
     else if e_observed_at e < os_lease_expires_at m
     then Inl (Errorf ''operation %q lease expired before its deadline'' [os_id m])
     else Inr (m\<lparr>os_lease_active := False\<rparr>))"

definition step_lease_released :: "event \<Rightarrow> mutable_operation \<Rightarrow> mutable_operation result" where
  "step_lease_released e m = with_lease e (\<lambda>l.
     if \<not> lease_matches m l
     then Inl (Errorf ''operation %q lease release does not match active lease'' [os_id m])
     else Inr (m\<lparr>os_lease_active := False\<rparr>))"

definition step_operation_cancelled :: "event \<Rightarrow> mutable_operation \<Rightarrow> mutable_operation result" where
  "step_operation_cancelled e m =
     (if os_state m \<noteq> StatePlanned \<and> os_state m \<noteq> StateReady
      then Inl (Errorf ''operation %q cannot be cancelled from state %q'' [os_id m, state_text (os_state m)])
      else Inr (m\<lparr>os_state := StateCancelled, os_retryable := False,
                  os_error_code := pay_error_code (e_payload e)\<rparr>))"

definition step_attempt_started ::
  "operation_map \<Rightarrow> event \<Rightarrow> mutable_operation \<Rightarrow> mutable_operation result" where
  "step_attempt_started ops e m =
     (if \<not> startable m
      then Inl (Errorf ''operation %q cannot start attempt from state %q'' [os_id m, state_text (os_state m)])
      else if os_reconcile_required m
      then Inl (Errorf ''operation %q requires reconciliation before another attempt'' [os_id m])
      else if pay_attempt (e_payload e) \<noteq> os_attempt m + 1
      then Inl (Errorf ''operation %q attempt is %d, want %d'' [os_id m])
      else if \<not> dependencies_published m ops
      then Inl (Errorf ''operation %q dependencies are not published'' [os_id m])
      else Inr (m\<lparr>os_state := StateRunning, os_attempt := pay_attempt (e_payload e),
                  mo_dispatched := False, mo_reconciling := False, os_provider_started := False,
                  os_provider_responded := False, os_reconcile_required := False,
                  os_ambiguous := False, os_retryable := False, os_provider_state := [],
                  os_evidence := [], os_error_code := [], mo_observed_absent := False\<rparr>))"

definition step_credential_resolved :: "event \<Rightarrow> mutable_operation \<Rightarrow> mutable_operation result" where
  "step_credential_resolved e m =
     (if pay_attempt (e_payload e) \<noteq> os_attempt m
      then Inl (Errorf ''operation %q has no matching credential resolution attempt'' [os_id m])
      else if mo_reconciling m then Inr m
      else if os_state m \<noteq> StateRunning \<or> mo_dispatched m
      then Inl (Errorf ''operation %q cannot resolve credentials in state %q'' [os_id m, state_text (os_state m)])
      else Inr m)"

definition step_provider_started :: "event \<Rightarrow> mutable_operation \<Rightarrow> mutable_operation result" where
  "step_provider_started e m =
     (if pay_attempt (e_payload e) \<noteq> os_attempt m \<or> (os_state m \<noteq> StateRunning \<and> \<not> mo_reconciling m)
      then Inl (Errorf ''operation %q has no matching provider attempt'' [os_id m])
      else if os_provider_started m
      then Inl (Errorf ''operation %q provider process already started'' [os_id m])
      else Inr (m\<lparr>os_provider_started := True, os_provider_responded := False\<rparr>))"

definition step_dispatched :: "event \<Rightarrow> mutable_operation \<Rightarrow> mutable_operation result" where
  "step_dispatched e m =
     (if \<not> mo_side_effecting m then Inl (Errorf ''operation %q is not side-effecting'' [os_id m])
      else if os_state m \<noteq> StateRunning \<or> pay_attempt (e_payload e) \<noteq> os_attempt m
      then Inl (Errorf ''operation %q has no matching running attempt'' [os_id m])
      else if mo_dispatched m
      then Inl (Errorf ''operation %q side effect already dispatched'' [os_id m])
      else Inr (m\<lparr>mo_dispatched := True, os_reconcile_required := True, os_ambiguous := True\<rparr>))"

definition step_provider_response :: "event \<Rightarrow> mutable_operation \<Rightarrow> mutable_operation result" where
  "step_provider_response e m =
     (if pay_attempt (e_payload e) \<noteq> os_attempt m \<or> \<not> os_provider_started m
      then Inl (Errorf ''operation %q has no matching provider process'' [os_id m])
      else if os_provider_responded m
      then Inl (Errorf ''operation %q provider response already recorded'' [os_id m])
      else Inr (m\<lparr>os_provider_responded := True\<rparr>))"

definition step_outcome_ambiguous :: "event \<Rightarrow> mutable_operation \<Rightarrow> mutable_operation result" where
  "step_outcome_ambiguous e m =
     (if \<not> mo_side_effecting m \<or> \<not> mo_dispatched m \<or> os_state m \<noteq> StateRunning
         \<or> pay_attempt (e_payload e) \<noteq> os_attempt m
      then Inl (Errorf ''operation %q cannot record an ambiguous outcome'' [os_id m])
      else Inr (m\<lparr>os_reconcile_required := True, os_ambiguous := True, os_retryable := False,
                  os_error_code := pay_error_code (e_payload e)\<rparr>))"

definition step_explicit_result :: "event \<Rightarrow> mutable_operation \<Rightarrow> mutable_operation result" where
  "step_explicit_result e m =
     (let p = (e_payload e)\<lparr>pay_state := fst (explicit_result_state (e_type e))\<rparr> in
      if mo_reconciling m then
        (if \<not> os_reconcile_required m \<or> pay_attempt p \<noteq> os_attempt m
         then Inl (Errorf ''operation %q has no matching reconciliation'' [os_id m])
         else Inr (apply_result p True m))
      else if os_state m \<noteq> StateRunning \<or> pay_attempt p \<noteq> os_attempt m
      then Inl (Errorf ''operation %q has no matching running attempt'' [os_id m])
      else if mo_side_effecting m \<and> \<not> mo_dispatched m \<and> pay_state p \<noteq> StateFailed
      then Inl (Errorf ''operation %q result recorded before side-effect dispatch'' [os_id m])
      else Inr (apply_result p False m))"

definition step_operation_result :: "event \<Rightarrow> mutable_operation \<Rightarrow> mutable_operation result" where
  "step_operation_result e m =
     (let p = e_payload e in
      if os_state m \<noteq> StateRunning \<or> pay_attempt p \<noteq> os_attempt m
      then Inl (Errorf ''operation %q has no matching running attempt'' [os_id m])
      else if pay_state p = StateBlocked \<and> (os_provider_started m \<or> mo_dispatched m \<or> os_reconcile_required m)
      then Inl (Errorf ''operation %q cannot block after provider start or dispatch'' [os_id m])
      else if mo_side_effecting m \<and> \<not> mo_dispatched m \<and> pay_state p \<noteq> StateBlocked
              \<and> pay_state p \<noteq> StateFailed \<and> pay_state p \<noteq> StateCancelled
      then Inl (Errorf ''operation %q result recorded before side-effect dispatch'' [os_id m])
      else Inr (apply_result p False
        (if pay_state p = StateBlocked
         then m\<lparr>os_blocked_attempts := os_blocked_attempts m + 1\<rparr> else m)))"

definition step_reconcile_started :: "event \<Rightarrow> mutable_operation \<Rightarrow> mutable_operation result" where
  "step_reconcile_started e m =
     (if \<not> os_reconcile_required m \<or> pay_attempt (e_payload e) \<noteq> os_attempt m
      then Inl (Errorf ''operation %q does not require reconciliation for attempt %d'' [os_id m])
      else if mo_reconciling m
      then Inl (Errorf ''operation %q reconciliation already started'' [os_id m])
      else Inr (m\<lparr>mo_reconciling := True, os_provider_started := False, os_provider_responded := False\<rparr>))"

definition step_retry_authorized :: "event \<Rightarrow> mutable_operation \<Rightarrow> mutable_operation result" where
  "step_retry_authorized e m =
     (if \<not> mo_side_effecting m \<or> provider_name (mo_provider m) \<noteq> ''npm'' \<or> mo_kind m \<noteq> ''publish''
         \<or> os_state m \<noteq> StateWaitingExternal \<or> \<not> os_reconcile_required m \<or> \<not> os_ambiguous m
         \<or> \<not> mo_observed_absent m \<or> mo_reconciling m \<or> os_lease_active m
         \<or> pay_attempt (e_payload e) \<noteq> os_attempt m
      then Inl (Errorf ''operation %q has no eligible reconciled absent npm publication to authorize'' [os_id m])
      else Inr (m\<lparr>mo_observed_absent := False, os_state := StateReady, os_retryable := False,
                  os_reconcile_required := False, os_ambiguous := False, os_provider_state := [],
                  os_evidence := [], os_error_code := []\<rparr>))"

definition step_reconcile_result :: "event \<Rightarrow> mutable_operation \<Rightarrow> mutable_operation result" where
  "step_reconcile_result e m =
     (let p = e_payload e in
      if \<not> os_reconcile_required m \<or> \<not> mo_reconciling m \<or> pay_attempt p \<noteq> os_attempt m
      then Inl (Errorf ''operation %q has no matching reconciliation'' [os_id m])
      else Inr ((apply_result p True m)\<lparr>mo_observed_absent :=
             (pay_state p = StateWaitingExternal \<and> pay_provider_state p = ''absent'' \<and> pay_error_code p = [])\<rparr>))"

text \<open>The cases of the switch that act on one operation, and those that then refresh readiness.\<close>

definition operation_step :: "operation_map \<Rightarrow> event \<Rightarrow> mutable_operation \<Rightarrow> mutable_operation result" where
  "operation_step ops e m = (case e_type e of
     EventOperationReady \<Rightarrow> step_ready m
   | EventLeaseAcquired \<Rightarrow> step_lease_acquired e m
   | EventLeaseRenewed \<Rightarrow> step_lease_renewed e m
   | EventLeaseExpired \<Rightarrow> step_lease_expired e m
   | EventLeaseReleased \<Rightarrow> step_lease_released e m
   | EventOperationCancelled \<Rightarrow> step_operation_cancelled e m
   | EventAttemptStarted \<Rightarrow> step_attempt_started ops e m
   | EventCredentialResolved \<Rightarrow> step_credential_resolved e m
   | EventProviderProcessStarted \<Rightarrow> step_provider_started e m
   | EventSideEffectDispatched \<Rightarrow> step_dispatched e m
   | EventProviderResponseReceived \<Rightarrow> step_provider_response e m
   | EventOutcomeAmbiguous \<Rightarrow> step_outcome_ambiguous e m
   | EventOperationWaitingExternal \<Rightarrow> step_explicit_result e m
   | EventOperationPublished \<Rightarrow> step_explicit_result e m
   | EventOperationRejected \<Rightarrow> step_explicit_result e m
   | EventOperationFailed \<Rightarrow> step_explicit_result e m
   | EventOperationResult \<Rightarrow> step_operation_result e m
   | EventReconcileStarted \<Rightarrow> step_reconcile_started e m
   | EventRetryAuthorized \<Rightarrow> step_retry_authorized e m
   | EventReconcileResult \<Rightarrow> step_reconcile_result e m
   | t \<Rightarrow> Inl (ErrorIs ErrUnknownEventType ''%w %q'' [event_type_text t]))"

fun refreshes :: "event_type \<Rightarrow> bool" where
  "refreshes EventOperationCancelled = True"
| "refreshes EventOperationWaitingExternal = True"
| "refreshes EventOperationPublished = True"
| "refreshes EventOperationRejected = True"
| "refreshes EventOperationFailed = True"
| "refreshes EventOperationResult = True"
| "refreshes EventReconcileResult = True"
| "refreshes _ = False"

section \<open>The loop of Reduce\<close>

fun allowed_after_run_cancellation :: "event_type \<Rightarrow> bool" where
  "allowed_after_run_cancellation EventLeaseAcquired = True"
| "allowed_after_run_cancellation EventLeaseRenewed = True"
| "allowed_after_run_cancellation EventLeaseExpired = True"
| "allowed_after_run_cancellation EventLeaseReleased = True"
| "allowed_after_run_cancellation EventCredentialResolved = True"
| "allowed_after_run_cancellation EventProviderProcessStarted = True"
| "allowed_after_run_cancellation EventProviderResponseReceived = True"
| "allowed_after_run_cancellation EventOperationWaitingExternal = True"
| "allowed_after_run_cancellation EventOperationPublished = True"
| "allowed_after_run_cancellation EventOperationRejected = True"
| "allowed_after_run_cancellation EventOperationFailed = True"
| "allowed_after_run_cancellation EventReconcileStarted = True"
| "allowed_after_run_cancellation EventReconcileResult = True"
| "allowed_after_run_cancellation _ = False"

definition event_admission_error :: "reducer \<Rightarrow> event \<Rightarrow> error option" where
  "event_admission_error s e = first_error [
     event_validate e,
     fail_if (e_sequence e \<noteq> rd_expected s) (ErrorIs ErrSequence ''%w: got %d, want %d'' []),
     fail_if (rd_run_id s \<noteq> [] \<and> e_run_id e \<noteq> rd_run_id s)
       (Errorf ''event sequence contains multiple run IDs'' []),
     fail_if (\<not> rd_started s \<and> e_type e \<noteq> EventRunStarted)
       (Errorf ''first reducer event must be %q'' [''RUN_STARTED'']),
     fail_if (rd_completed s)
       (Errorf ''event %q follows terminal run event'' [event_type_text (e_type e)]),
     fail_if (rd_cancelled s \<and> \<not> allowed_after_run_cancellation (e_type e))
       (Errorf ''event %q is not allowed after run cancellation'' [event_type_text (e_type e)])]"

definition update_operation :: "event \<Rightarrow> operation_map \<Rightarrow> operation_map result" where
  "update_operation e ops =
     bind_result (event_operation e ops) (\<lambda>m.
     bind_result (operation_step ops e m) (\<lambda>m'.
       let ops' = adjust (e_operation_id e) (\<lambda>_. m') ops
       in Inr (if refreshes (e_type e) then refresh_ready ops' else ops')))"

definition apply_event :: "plan \<Rightarrow> reducer \<Rightarrow> event \<Rightarrow> reducer result" where
  "apply_event p s e = (case e_type e of
     EventRunStarted \<Rightarrow>
       (if rd_started s then Inl (Errorf ''run already started'' [])
        else if e_plan_id e \<noteq> pl_id p
        then Inl (ErrorIs ErrPlanMismatch ''%w: journal %q, requested %q'' [e_plan_id e, pl_id p])
        else Inr (s\<lparr>rd_started := True, rd_operations := refresh_ready (rd_operations s)\<rparr>))
   | EventRunCompleted \<Rightarrow>
       (if \<not> all_quiescent (rd_operations s)
        then Inl (Errorf ''run cannot complete with non-terminal operations'' [])
        else Inr (s\<lparr>rd_completed := True\<rparr>))
   | EventRunCancelled \<Rightarrow>
       Inr (s\<lparr>rd_cancelled := True, rd_operations := cancel_remaining (rd_operations s)\<rparr>)
   | _ \<Rightarrow> bind_result (update_operation e (rd_operations s)) (\<lambda>ops. Inr (s\<lparr>rd_operations := ops\<rparr>)))"

definition reduce_event :: "plan \<Rightarrow> reducer \<Rightarrow> event \<Rightarrow> reducer result" where
  "reduce_event p s e =
     bind_result (checked (event_admission_error s e) ()) (\<lambda>_.
       apply_event p (s\<lparr>rd_expected := rd_expected s + 1,
                         rd_run_id := (if rd_run_id s = [] then e_run_id e else rd_run_id s)\<rparr>) e)"

section \<open>Targets and the result\<close>

definition operation_state_at :: "operation_map \<Rightarrow> operation_id \<Rightarrow> normalized_state" where
  "operation_state_at ops i = (case map_of ops i of None \<Rightarrow> state_unset | Some m \<Rightarrow> os_state m)"

definition target_precedence :: "normalized_state list" where
  "target_precedence = [StateRejected, StateFailed, StateCancelled, StateBlocked, StateWaitingExternal,
     StateRunning, StateReady, StatePlanned]"

definition aggregate_target :: "operation_id list \<Rightarrow> operation_map \<Rightarrow> normalized_state" where
  "aggregate_target ids ops =
     (let states = map (operation_state_at ops) ids in
      if list_all (\<lambda>s. s = StatePublished) states then StatePublished
      else (case filter (\<lambda>s. s \<in> set states) target_precedence of
          s # _ \<Rightarrow> s | [] \<Rightarrow> StatePlanned))"

definition derive_target :: "bool \<Rightarrow> operation_map \<Rightarrow> target_id \<times> operation_id list \<Rightarrow> target_state" where
  "derive_target started ops t =
     (let (i, ids) = t; members = List.map_filter (map_of ops) ids in
      \<lparr>ts_id = i,
       ts_state = (if \<not> started then StatePlanned
                   else if ids = [] then StatePublished else aggregate_target ids ops),
       ts_reconcile_required = list_ex os_reconcile_required members,
       ts_ambiguous = list_ex os_ambiguous members\<rparr>)"

definition derive_targets ::
  "bool \<Rightarrow> (target_id \<times> operation_id list) list \<Rightarrow> operation_map \<Rightarrow> target_state list" where
  "derive_targets started targets ops = sort_key ts_id (map (derive_target started ops) targets)"

definition derived_of :: "plan \<Rightarrow> reducer \<Rightarrow> derived_state" where
  "derived_of p s =
     \<lparr>ds_run_id = rd_run_id s, ds_started = rd_started s, ds_completed = rd_completed s,
      ds_cancelled = rd_cancelled s,
      ds_operations = sort_key os_id (map (operation_state.truncate \<circ> snd) (rd_operations s)),
      ds_targets = derive_targets (rd_started s) (target_operations p) (rd_operations s)\<rparr>"

definition reduce :: "plan \<Rightarrow> event list \<Rightarrow> derived_state result" where
  "reduce p events =
     (if \<not> valid_identifier (pl_id p) then Inl (Errorf ''plan is invalid'' [])
      else bind_result (for_each (reduce_event p) (initial_reducer p) events) (\<lambda>s. Inr (derived_of p s)))"

text \<open>\<open>sort.Search\<close> and the two lookups by identifier.\<close>

function search_from :: "(nat \<Rightarrow> bool) \<Rightarrow> nat \<Rightarrow> nat \<Rightarrow> nat" where
  "search_from f i j =
     (if i < j then (let h = (i + j) div 2 in
        if \<not> f h then search_from f (h + 1) j else search_from f i h)
      else i)"
  by pat_completeness auto
termination
  by (relation "measure (\<lambda>(f, i, j). j - i)") auto

declare search_from.simps [simp del]

definition derived_operation :: "derived_state \<Rightarrow> operation_id \<Rightarrow> operation_state option" where
  "derived_operation d i =
     (let ops = ds_operations d; k = search_from (\<lambda>k. i \<le> os_id (ops ! k)) 0 (length ops)
      in if k = length ops \<or> os_id (ops ! k) \<noteq> i then None else Some (ops ! k))"

definition derived_target :: "derived_state \<Rightarrow> target_id \<Rightarrow> target_state option" where
  "derived_target d i =
     (let ts = ds_targets d; k = search_from (\<lambda>k. i \<le> ts_id (ts ! k)) 0 (length ts)
      in if k = length ts \<or> ts_id (ts ! k) \<noteq> i then None else Some (ts ! k))"

end
