(* ===== verification/Journal_Safety.thy ===== *)
theory Journal_Safety
  imports Journal_Reduce
begin

text \<open>
  What every journal that \<open>Reduce\<close> accepts satisfies.  The invariant of one operation (\<open>op_inv\<close>) and
  of the whole map (\<open>reducer_inv\<close>) are kept by every event; the trace properties of the journal
  (no second attempt while an outcome is unknown, consecutive attempts, one dispatch per attempt,
  published is final, dependencies first, nothing after completion) follow from them.
\<close>

section \<open>Readiness\<close>

definition published :: "operation_map \<Rightarrow> operation_id set" where
  "published ops = {k. \<exists>m. map_of ops k = Some m \<and> os_state m = StatePublished}"

lemma dependencies_published_iff:
  "dependencies_published m ops \<longleftrightarrow> set (mo_dependencies m) \<subseteq> published ops"
  by (auto simp: dependencies_published_def published_def list_all_iff split: option.splits)

definition make_ready :: "operation_map \<Rightarrow> mutable_operation \<Rightarrow> mutable_operation" where
  "make_ready ops m =
     (if os_state m = StatePlanned \<and> dependencies_published m ops then m\<lparr>os_state := StateReady\<rparr> else m)"

lemma make_ready_fields [simp]:
  "os_id (make_ready ops m) = os_id m" "os_target_id (make_ready ops m) = os_target_id m"
  "os_attempt (make_ready ops m) = os_attempt m"
  "os_blocked_attempts (make_ready ops m) = os_blocked_attempts m"
  "os_reconcile_required (make_ready ops m) = os_reconcile_required m"
  "os_ambiguous (make_ready ops m) = os_ambiguous m"
  "os_provider_started (make_ready ops m) = os_provider_started m"
  "os_provider_responded (make_ready ops m) = os_provider_responded m"
  "mo_dependencies (make_ready ops m) = mo_dependencies m"
  "mo_side_effecting (make_ready ops m) = mo_side_effecting m"
  "mo_provider (make_ready ops m) = mo_provider m" "mo_kind (make_ready ops m) = mo_kind m"
  "mo_dispatched (make_ready ops m) = mo_dispatched m"
  "mo_reconciling (make_ready ops m) = mo_reconciling m"
  "mo_observed_absent (make_ready ops m) = mo_observed_absent m"
  "os_lease_active (make_ready ops m) = os_lease_active m"
  by (simp_all add: make_ready_def)

lemma make_ready_state:
  "os_state (make_ready ops m) =
     (if os_state m = StatePlanned \<and> set (mo_dependencies m) \<subseteq> published ops then StateReady else os_state m)"
  by (simp add: make_ready_def dependencies_published_iff)

lemma make_ready_published [simp]: "os_state (make_ready ops m) = StatePublished \<longleftrightarrow> os_state m = StatePublished"
  by (simp add: make_ready_def)

lemma in_published: "k \<in> published ops \<longleftrightarrow> map_option os_state (map_of ops k) = Some StatePublished"
  by (auto simp: published_def)

lemma published_make_ready:
  "published (map (\<lambda>(k, m). (k, if k \<in> K then make_ready ops' m else m)) ops) = published ops"
proof (rule set_eqI)
  fix k
  show "k \<in> published (map (\<lambda>(k, m). (k, if k \<in> K then make_ready ops' m else m)) ops) \<longleftrightarrow> k \<in> published ops"
    by (cases "map_of ops k") (simp_all add: in_published map_of_map_pair)
qed

lemma map_entries_cong:
  "(\<And>k v. (k, v) \<in> set m \<Longrightarrow> f k v = g k v) \<Longrightarrow> map (\<lambda>(k, v). (k, f k v)) m = map (\<lambda>(k, v). (k, g k v)) m"
  by (auto intro!: map_cong)

text \<open>
  Whatever the order in which the loop visits the keys, each visited planned operation whose
  dependencies are published becomes ready and nothing else changes.
\<close>

lemma refresh_keys_eq:
  assumes "distinct (map fst ops)"
  shows "refresh_keys ks ops = map (\<lambda>(k, m). (k, if k \<in> set ks then make_ready ops m else m)) ops"
  using assms
proof (induction ks arbitrary: ops)
  case Nil
  then show ?case by (simp add: case_prod_beta')
next
  case (Cons x ks)
  let ?ops = "map (\<lambda>(k, m). (k, if k \<in> {x} then make_ready ops m else m)) ops"
  have first: "(case map_of ops x of None \<Rightarrow> ops
      | Some m \<Rightarrow> if os_state m = StatePlanned \<and> dependencies_published m ops
                  then adjust x (\<lambda>m. m\<lparr>os_state := StateReady\<rparr>) ops else ops) = ?ops"
  proof (cases "map_of ops x")
    case None
    then have "x \<notin> fst ` set ops" by (simp add: map_of_eq_None_iff)
    then have "?ops = map (\<lambda>(k, m). (k, m)) ops" by (intro map_entries_cong) force
    then show ?thesis using None by (simp add: case_prod_beta')
  next
    case (Some m)
    have same: "v = m" if "(x, v) \<in> set ops" for v
      using Cons.prems Some that by (simp add: map_of_is_SomeI)
    have ops: "?ops = map (\<lambda>(k, v). (k, if k = x then make_ready ops m else v)) ops"
      by (intro map_entries_cong) (auto dest: same)
    have self: "map (\<lambda>(k, v). (k, if k = x then m else v)) ops = ops"
      by (intro map_idI) (auto dest: same)
    have ready: "adjust x (\<lambda>m. m\<lparr>os_state := StateReady\<rparr>) ops
        = map (\<lambda>(k, v). (k, if k = x then m\<lparr>os_state := StateReady\<rparr> else v)) ops"
      unfolding adjust_def by (intro map_entries_cong) (auto dest: same)
    show ?thesis
    proof (cases "os_state m = StatePlanned \<and> dependencies_published m ops")
      case True
      then have "make_ready ops m = m\<lparr>os_state := StateReady\<rparr>" by (simp add: make_ready_def)
      with True show ?thesis unfolding ops by (simp only: Some option.case ready simp_thms if_True)
    next
      case False
      then have "make_ready ops m = m" by (auto simp: make_ready_def)
      with False show ?thesis unfolding ops by (simp only: Some option.case self if_False)
    qed
  qed
  have keys: "distinct (map fst ?ops)" using Cons.prems by (simp add: comp_def case_prod_beta')
  have ready: "make_ready ?ops v = make_ready ops v" for v
    using published_make_ready [of "{x}" ops ops] by (simp add: make_ready_def dependencies_published_iff)
  have idem: "make_ready ops (make_ready ops v) = make_ready ops v" for v
    by (simp add: make_ready_def)
  have "refresh_keys (x # ks) ops = refresh_keys ks ?ops" by (simp only: refresh_keys.simps first)
  also have "\<dots> = map (\<lambda>(k, m). (k, if k \<in> set ks then make_ready ops m else m)) ?ops"
    by (simp only: Cons.IH [OF keys] ready)
  also have "\<dots> = map (\<lambda>(k, m). (k, if k \<in> set (x # ks) then make_ready ops m else m)) ops"
    by (auto simp: idem)
  finally show ?case .
qed

lemma refresh_ready_eq:
  assumes "distinct (map fst ops)"
  shows "refresh_ready ops = map (\<lambda>(k, m). (k, make_ready ops m)) ops"
  unfolding refresh_ready_def refresh_keys_eq [OF assms] by (intro map_entries_cong) force

lemma keys_refresh_ready [simp]: "distinct (map fst ops) \<Longrightarrow> map fst (refresh_ready ops) = map fst ops"
  by (simp add: refresh_ready_eq comp_def case_prod_beta')

lemma map_of_refresh_ready:
  "distinct (map fst ops) \<Longrightarrow> map_of (refresh_ready ops) k = map_option (make_ready ops) (map_of ops k)"
  by (simp add: refresh_ready_eq map_of_map_pair)

lemma published_refresh_ready [simp]: "distinct (map fst ops) \<Longrightarrow> published (refresh_ready ops) = published ops"
proof (rule set_eqI)
  fix k
  assume "distinct (map fst ops)"
  then show "k \<in> published (refresh_ready ops) \<longleftrightarrow> k \<in> published ops"
    by (cases "map_of ops k") (simp_all add: in_published map_of_refresh_ready)
qed

section \<open>What validation guarantees of an event\<close>

lemma event_validate_payload:
  "event_validate e = None \<Longrightarrow> \<not> is_run_event (e_type e) \<Longrightarrow> payload_validate (e_type e) (e_payload e) = None"
  by (simp add: event_validate_def entry_validate_def event_entry_def checks)

lemma validate_lease_event:
  "payload_validate t p = None \<Longrightarrow> is_lease_event t \<Longrightarrow> \<exists>l. pay_lease p = Some l \<and> lease_validate l = None"
  by (auto simp: payload_validate_def lease_event_error_def split: if_splits option.splits)

lemma validate_attempt_started: "payload_validate EventAttemptStarted p = None \<Longrightarrow> pay_attempt p \<noteq> 0"
  by (simp add: payload_validate_def attempt_event_error_def checks)

lemma validate_operation_result:
  "payload_validate EventOperationResult p = None \<Longrightarrow> result_state (pay_state p)"
  by (simp add: payload_validate_def result_event_error_def checks)

lemma validate_reconcile_result:
  "payload_validate EventReconcileResult p = None \<Longrightarrow> result_state (pay_state p) \<and> pay_state p \<noteq> StateBlocked"
  by (simp add: payload_validate_def result_event_error_def checks)

section \<open>The invariant of an operation\<close>

definition op_inv :: "mutable_operation \<Rightarrow> bool" where
  "op_inv m \<longleftrightarrow>
     (mo_dispatched m \<longrightarrow> os_state m = StateRunning \<and> mo_side_effecting m)
     \<and> (os_reconcile_required m \<longleftrightarrow> os_state m = StateWaitingExternal \<or> mo_dispatched m)
     \<and> (mo_reconciling m \<longrightarrow> os_reconcile_required m)
     \<and> (os_ambiguous m \<longrightarrow> os_reconcile_required m)
     \<and> (os_provider_responded m \<longrightarrow> os_provider_started m)
     \<and> state_valid (os_state m)
     \<and> unat (os_blocked_attempts m) \<le> unat (os_attempt m)
     \<and> (os_state m = StateRunning \<longrightarrow> unat (os_blocked_attempts m) < unat (os_attempt m))"

text \<open>The fields an event never changes.\<close>

definition same_static :: "mutable_operation \<Rightarrow> mutable_operation \<Rightarrow> bool" where
  "same_static m m' \<longleftrightarrow> os_id m' = os_id m \<and> os_target_id m' = os_target_id m
     \<and> mo_dependencies m' = mo_dependencies m \<and> mo_side_effecting m' = mo_side_effecting m
     \<and> mo_provider m' = mo_provider m \<and> mo_kind m' = mo_kind m"

lemmas step_defs = step_ready_def step_lease_acquired_def step_lease_renewed_def step_lease_expired_def
  step_lease_released_def step_operation_cancelled_def step_attempt_started_def
  step_credential_resolved_def step_provider_started_def step_dispatched_def
  step_provider_response_def step_outcome_ambiguous_def step_explicit_result_def
  step_operation_result_def step_reconcile_started_def step_retry_authorized_def
  step_reconcile_result_def with_lease_def set_lease_def apply_result_def Let_def

text \<open>The type switch as an elimination rule: one case per event type, with the step it takes.\<close>

lemma operation_step_elim:
  assumes "operation_step ops e m = Inr m'"
  obtains "e_type e = EventOperationReady" "step_ready m = Inr m'"
  | "e_type e = EventLeaseAcquired" "step_lease_acquired e m = Inr m'"
  | "e_type e = EventLeaseRenewed" "step_lease_renewed e m = Inr m'"
  | "e_type e = EventLeaseExpired" "step_lease_expired e m = Inr m'"
  | "e_type e = EventLeaseReleased" "step_lease_released e m = Inr m'"
  | "e_type e = EventOperationCancelled" "step_operation_cancelled e m = Inr m'"
  | "e_type e = EventAttemptStarted" "step_attempt_started ops e m = Inr m'"
  | "e_type e = EventCredentialResolved" "step_credential_resolved e m = Inr m'"
  | "e_type e = EventProviderProcessStarted" "step_provider_started e m = Inr m'"
  | "e_type e = EventSideEffectDispatched" "step_dispatched e m = Inr m'"
  | "e_type e = EventProviderResponseReceived" "step_provider_response e m = Inr m'"
  | "e_type e = EventOutcomeAmbiguous" "step_outcome_ambiguous e m = Inr m'"
  | "e_type e \<in> {EventOperationWaitingExternal, EventOperationPublished, EventOperationRejected, EventOperationFailed}"
    "step_explicit_result e m = Inr m'"
  | "e_type e = EventOperationResult" "step_operation_result e m = Inr m'"
  | "e_type e = EventReconcileStarted" "step_reconcile_started e m = Inr m'"
  | "e_type e = EventRetryAuthorized" "step_retry_authorized e m = Inr m'"
  | "e_type e = EventReconcileResult" "step_reconcile_result e m = Inr m'"
  using assms unfolding operation_step_def by (cases "e_type e") simp_all

lemma operation_step_static: "operation_step ops e m = Inr m' \<Longrightarrow> same_static m m'"
  by (erule operation_step_elim)
    (auto simp: same_static_def step_defs split: if_splits option.splits)

lemma result_state_not_running: "result_state s \<Longrightarrow> state_valid s \<and> s \<noteq> StateRunning"
  by (cases s) simp_all

lemma explicit_result_state_result:
  "t \<in> {EventOperationWaitingExternal, EventOperationPublished, EventOperationRejected, EventOperationFailed} \<Longrightarrow>
     result_state (fst (explicit_result_state t)) \<and> fst (explicit_result_state t) \<noteq> StateBlocked"
  by auto

lemma apply_result_inv:
  assumes "op_inv m" and "result_state (pay_state p)"
  shows "op_inv (apply_result p b m)"
  using assms result_state_not_running [OF assms(2)] by (auto simp: op_inv_def apply_result_def)

lemma op_inv_other_fields [simp]:
  "op_inv (m\<lparr>mo_observed_absent := b\<rparr>) = op_inv m" "op_inv (m\<lparr>os_ready_journaled := b\<rparr>) = op_inv m"
  "op_inv (m\<lparr>os_lease_active := b\<rparr>) = op_inv m" "op_inv (m\<lparr>os_lease_expires_at := t\<rparr>) = op_inv m"
  "op_inv (set_lease l m) = op_inv m"
  by (simp_all add: op_inv_def set_lease_def)

lemma unat_32: "unat (a :: 32 word) < 2 ^ 32"
  by (rule order.strict_trans2 [OF unsigned_less]) simp

lemma unat_plus_one_less: "unat a < n \<Longrightarrow> n < 2 ^ 32 \<Longrightarrow> unat (a + 1 :: 32 word) = Suc (unat a)"
  by (simp add: unat_word_ariths)

lemma unat_plus_one: "a + 1 \<noteq> (0 :: 32 word) \<Longrightarrow> unat (a + 1) = Suc (unat a)"
proof (cases "unat a + 1 < 2 ^ 32")
  case False
  then have "unat a + 1 = 2 ^ 32" using unat_32 [of a] by simp
  then have "unat (a + 1) = 0" by (simp add: unat_word_ariths)
  then show "a + 1 \<noteq> 0 \<Longrightarrow> ?thesis" by (simp add: unat_eq_zero)
qed (simp add: unat_word_ariths)

lemma operation_step_inv:
  assumes step: "operation_step ops e m = Inr m'" and inv: "op_inv m"
    and valid: "payload_validate (e_type e) (e_payload e) = None"
  shows "op_inv m'"
  using step
proof (cases rule: operation_step_elim)
  case 7
  have "pay_attempt (e_payload e) \<noteq> 0" using valid 7(1) validate_attempt_started by simp
  with 7 inv show ?thesis
    by (auto simp: step_attempt_started_def op_inv_def unat_plus_one split: if_splits)
next
  case 13
  then show ?thesis
    using inv explicit_result_state_result [OF 13(1)]
    by (auto simp: step_explicit_result_def Let_def intro!: apply_result_inv split: if_splits)
next
  case 14
  have r: "result_state (pay_state (e_payload e))" using valid 14(1) validate_operation_result by simp
  have "op_inv (apply_result (e_payload e) False (m\<lparr>os_blocked_attempts := os_blocked_attempts m + 1\<rparr>))"
    if "os_state m = StateRunning"
    using inv that r result_state_not_running [OF r]
      unat_plus_one_less [of "os_blocked_attempts m" "unat (os_attempt m)"] unat_32 [of "os_attempt m"]
    by (auto simp: op_inv_def apply_result_def)
  then show ?thesis using inv 14 apply_result_inv [OF inv r, of False]
    by (auto simp: step_operation_result_def Let_def split: if_splits)
next
  case 17
  have "result_state (pay_state (e_payload e))" using valid 17(1) validate_reconcile_result by simp
  then have "op_inv (apply_result (e_payload e) True m)" using inv by (intro apply_result_inv)
  then show ?thesis
    using 17 by (auto simp: step_reconcile_result_def Let_def split: if_splits)
next
  case 1
  with inv show ?thesis by (auto simp: step_ready_def split: if_splits option.splits)
next
  case 2
  with inv show ?thesis by (auto simp: step_lease_acquired_def with_lease_def split: if_splits option.splits)
next
  case 3
  with inv show ?thesis by (auto simp: step_lease_renewed_def with_lease_def split: if_splits option.splits)
next
  case 4
  with inv show ?thesis by (auto simp: step_lease_expired_def with_lease_def split: if_splits option.splits)
next
  case 5
  with inv show ?thesis by (auto simp: step_lease_released_def with_lease_def split: if_splits option.splits)
next
  case 8
  with inv show ?thesis by (auto simp: step_credential_resolved_def split: if_splits option.splits)
next
  case 6
  have "m' = m\<lparr>os_state := StateCancelled, os_retryable := False, os_error_code := pay_error_code (e_payload e)\<rparr>
      \<and> os_state m \<noteq> StateRunning \<and> os_state m \<noteq> StateWaitingExternal"
    using 6(2) unfolding step_operation_cancelled_def by (auto split: if_splits)
  with inv show ?thesis by (auto simp: op_inv_def)
next
  case 9
  have "m' = m\<lparr>os_provider_started := True, os_provider_responded := False\<rparr>"
    using 9(2) unfolding step_provider_started_def by (simp split: if_splits)
  with inv show ?thesis by (auto simp: op_inv_def)
next
  case 10
  have "m' = m\<lparr>mo_dispatched := True, os_reconcile_required := True, os_ambiguous := True\<rparr>
      \<and> os_state m = StateRunning \<and> mo_side_effecting m"
    using 10(2) unfolding step_dispatched_def by (simp split: if_splits)
  with inv show ?thesis by (auto simp: op_inv_def)
next
  case 11
  have "m' = m\<lparr>os_provider_responded := True\<rparr> \<and> os_provider_started m"
    using 11(2) unfolding step_provider_response_def by (simp split: if_splits)
  with inv show ?thesis by (auto simp: op_inv_def)
next
  case 12
  have "m' = m\<lparr>os_reconcile_required := True, os_ambiguous := True, os_retryable := False,
      os_error_code := pay_error_code (e_payload e)\<rparr> \<and> mo_dispatched m"
    using 12(2) unfolding step_outcome_ambiguous_def by (simp split: if_splits)
  with inv show ?thesis by (auto simp: op_inv_def)
next
  case 15
  have "m' = m\<lparr>mo_reconciling := True, os_provider_started := False, os_provider_responded := False\<rparr>
      \<and> os_reconcile_required m"
    using 15(2) unfolding step_reconcile_started_def by (simp split: if_splits)
  with inv show ?thesis by (auto simp: op_inv_def)
next
  case 16
  have "m' = m\<lparr>mo_observed_absent := False, os_state := StateReady, os_retryable := False,
      os_reconcile_required := False, os_ambiguous := False, os_provider_state := [],
      os_evidence := [], os_error_code := []\<rparr> \<and> os_state m = StateWaitingExternal \<and> \<not> mo_reconciling m"
    using 16(2) unfolding step_retry_authorized_def by (simp split: if_splits)
  with inv show ?thesis by (auto simp: op_inv_def)
qed

lemma initial_operation_inv: "op_inv (initial_operation op)"
  by (simp add: op_inv_def initial_operation_def)

lemma make_ready_inv: "op_inv m \<Longrightarrow> op_inv (make_ready ops m)"
  by (auto simp: op_inv_def make_ready_def)

lemma cancel_operation_inv: "op_inv m \<Longrightarrow> op_inv (cancel_operation m)"
  by (auto simp: op_inv_def cancel_operation_def)

text \<open>A published, rejected or cancelled operation keeps its result.\<close>

definition final_state :: "normalized_state \<Rightarrow> bool" where
  "final_state s \<longleftrightarrow> s = StatePublished \<or> s = StateRejected \<or> s = StateCancelled"

definition same_outcome :: "mutable_operation \<Rightarrow> mutable_operation \<Rightarrow> bool" where
  "same_outcome m m' \<longleftrightarrow> os_state m' = os_state m \<and> os_attempt m' = os_attempt m
     \<and> os_provider_state m' = os_provider_state m \<and> os_evidence m' = os_evidence m
     \<and> os_error_code m' = os_error_code m \<and> os_retryable m' = os_retryable m"

lemma same_outcome_refl [simp]: "same_outcome m m"
  by (simp add: same_outcome_def)

lemma final_not:
  "final_state s \<Longrightarrow> s \<noteq> StateRunning \<and> s \<noteq> StateWaitingExternal \<and> s \<noteq> StateReady \<and> s \<noteq> StatePlanned
     \<and> s \<noteq> StateFailed \<and> s \<noteq> StateBlocked"
  by (auto simp: final_state_def)

lemma operation_step_final:
  assumes step: "operation_step ops e m = Inr m'" and inv: "op_inv m" and final: "final_state (os_state m)"
  shows "same_outcome m m'"
proof -
  note not = final_not [OF final]
  have quiet: "\<not> os_reconcile_required m" "\<not> mo_reconciling m" "\<not> mo_dispatched m" "\<not> startable m"
    using inv not by (auto simp: op_inv_def startable_def)
  from step show ?thesis
    by (cases rule: operation_step_elim)
      (use not quiet in \<open>auto simp: step_defs same_outcome_def split: if_splits option.splits\<close>)
qed

section \<open>The invariant of the reducer\<close>

text \<open>The cases of \<open>reduce_event\<close>, as an elimination rule.\<close>

definition recorded :: "event \<Rightarrow> reducer \<Rightarrow> reducer" where
  "recorded e s = s\<lparr>rd_expected := rd_expected s + 1,
     rd_run_id := (if rd_run_id s = [] then e_run_id e else rd_run_id s)\<rparr>"

definition admitted :: "reducer \<Rightarrow> event \<Rightarrow> bool" where
  "admitted s e \<longleftrightarrow> event_validate e = None \<and> e_sequence e = rd_expected s
     \<and> (rd_run_id s = [] \<or> e_run_id e = rd_run_id s) \<and> (rd_started s \<or> e_type e = EventRunStarted)
     \<and> \<not> rd_completed s \<and> (rd_cancelled s \<longrightarrow> allowed_after_run_cancellation (e_type e))"

lemma event_admission_iff: "event_admission_error s e = None \<longleftrightarrow> admitted s e"
  by (auto simp: event_admission_error_def admitted_def checks)

lemma reduce_event_elim:
  assumes "reduce_event p s e = Inr s'"
  obtains
    (started) "admitted s e" "e_type e = EventRunStarted" "\<not> rd_started s" "e_plan_id e = pl_id p"
      "s' = (recorded e s)\<lparr>rd_started := True, rd_operations := refresh_ready (rd_operations s)\<rparr>"
  | (completed) "admitted s e" "e_type e = EventRunCompleted" "all_quiescent (rd_operations s)"
      "s' = (recorded e s)\<lparr>rd_completed := True\<rparr>"
  | (cancelled) "admitted s e" "e_type e = EventRunCancelled"
      "s' = (recorded e s)\<lparr>rd_cancelled := True, rd_operations := cancel_remaining (rd_operations s)\<rparr>"
  | (operation) ops where "admitted s e" "\<not> is_run_event (e_type e)" "update_operation e (rd_operations s) = Inr ops"
      "s' = (recorded e s)\<lparr>rd_operations := ops\<rparr>"
proof -
  have ok: "admitted s e" and step: "apply_event p (recorded e s) e = Inr s'"
    using assms by (auto simp: reduce_event_def checks event_admission_iff recorded_def)
  show ?thesis
  proof (cases "is_run_event (e_type e)")
    case True
    then consider "e_type e = EventRunStarted" | "e_type e = EventRunCompleted" | "e_type e = EventRunCancelled"
      by (auto simp: is_run_event_def)
    then show ?thesis
      using ok step started completed cancelled
      by cases (auto simp: apply_event_def recorded_def split: if_splits)
  next
    case False
    then have "bind_result (update_operation e (rd_operations (recorded e s)))
        (\<lambda>ops. Inr ((recorded e s)\<lparr>rd_operations := ops\<rparr>)) = Inr s'"
      using step unfolding apply_event_def is_run_event_def by (cases "e_type e") simp_all
    then show ?thesis
      using operation [OF ok False] by (auto simp: checks recorded_def)
  qed
qed

lemma recorded_fields [simp]:
  "rd_operations (recorded e s) = rd_operations s" "rd_started (recorded e s) = rd_started s"
  "rd_completed (recorded e s) = rd_completed s" "rd_cancelled (recorded e s) = rd_cancelled s"
  "rd_expected (recorded e s) = rd_expected s + 1"
  "rd_run_id (recorded e s) = (if rd_run_id s = [] then e_run_id e else rd_run_id s)"
  by (simp_all add: recorded_def)

lemma update_operation_Inr:
  "update_operation e ops = Inr ops' \<longleftrightarrow>
     (\<exists>m m'. map_of ops (e_operation_id e) = Some m \<and> e_target_id e = os_target_id m
        \<and> operation_step ops e m = Inr m'
        \<and> ops' = (if refreshes (e_type e) then refresh_ready (adjust (e_operation_id e) (\<lambda>_. m') ops)
                 else adjust (e_operation_id e) (\<lambda>_. m') ops))"
  by (auto simp: update_operation_def event_operation_def checks Let_def split: option.splits if_splits)

section \<open>What one event does to one operation\<close>

text \<open>
  Seen from one operation \<open>i\<close>, an accepted event is one of three steps: its own event, possibly followed
  by the readiness pass; another operation's or a run event that may make it ready; or the cancellation
  of the run.
\<close>

definition concerns :: "operation_id \<Rightarrow> event \<Rightarrow> bool" where
  "concerns i e \<longleftrightarrow> \<not> is_run_event (e_type e) \<and> e_operation_id e = i"

definition readied :: "operation_id set \<Rightarrow> mutable_operation \<Rightarrow> mutable_operation \<Rightarrow> bool" where
  "readied pub m m' \<longleftrightarrow> m' = m \<or>
     (os_state m = StatePlanned \<and> set (mo_dependencies m) \<subseteq> pub \<and> m' = m\<lparr>os_state := StateReady\<rparr>)"

inductive op_move ::
  "operation_map \<Rightarrow> operation_id set \<Rightarrow> operation_id \<Rightarrow> event \<Rightarrow> mutable_operation \<Rightarrow> mutable_operation \<Rightarrow> bool"
  for ops pub i e where
  own: "concerns i e \<Longrightarrow> map_of ops i = Some m \<Longrightarrow> e_target_id e = os_target_id m \<Longrightarrow>
     payload_validate (e_type e) (e_payload e) = None \<Longrightarrow>
     operation_step ops e m = Inr m1 \<Longrightarrow> readied pub m1 m' \<Longrightarrow> op_move ops pub i e m m'"
| other: "\<not> concerns i e \<Longrightarrow> e_type e \<noteq> EventRunCancelled \<Longrightarrow> readied pub m m' \<Longrightarrow> op_move ops pub i e m m'"
| run_cancelled: "e_type e = EventRunCancelled \<Longrightarrow> op_move ops pub i e m (cancel_operation m)"

inductive_cases op_moveE: "op_move ops pub i e m m'"

lemma readied_make_ready: "readied (published ops) m (make_ready ops m)"
  by (auto simp: readied_def make_ready_def dependencies_published_iff)

lemma readied_refl [simp]: "readied pub m m"
  by (simp add: readied_def)

lemma reduce_event_op_move:
  assumes "reduce_event p s e = Inr s'" and keys: "distinct (map fst (rd_operations s))"
    and m: "map_of (rd_operations s) i = Some m"
  shows "\<exists>m'. map_of (rd_operations s') i = Some m' \<and> op_move (rd_operations s) (published (rd_operations s')) i e m m'"
  using assms(1)
proof (cases rule: reduce_event_elim)
  case started
  then have "map_of (rd_operations s') i = Some (make_ready (rd_operations s) m)"
    by (simp add: map_of_refresh_ready keys m)
  moreover have "op_move (rd_operations s) (published (rd_operations s')) i e m (make_ready (rd_operations s) m)"
    using started(2,5) readied_make_ready [of "rd_operations s" m] keys
    by (intro op_move.other) (simp_all add: concerns_def is_run_event_def)
  ultimately show ?thesis by blast
next
  case completed
  moreover have "op_move (rd_operations s) (published (rd_operations s')) i e m m"
    using completed(2) by (intro op_move.other) (simp_all add: concerns_def is_run_event_def)
  ultimately show ?thesis using m by simp
next
  case cancelled
  then have "map_of (rd_operations s') i = Some (cancel_operation m)"
    using map_of_map_pair [of "\<lambda>_. cancel_operation" "rd_operations s" i] m by (simp add: cancel_remaining_def)
  then show ?thesis using op_move.run_cancelled [OF cancelled(2)] by blast
next
  case (operation ops)
  then obtain n n' where n: "map_of (rd_operations s) (e_operation_id e) = Some n" "e_target_id e = os_target_id n"
      "operation_step (rd_operations s) e n = Inr n'"
    and ops: "ops = (if refreshes (e_type e)
      then refresh_ready (adjust (e_operation_id e) (\<lambda>_. n') (rd_operations s))
      else adjust (e_operation_id e) (\<lambda>_. n') (rd_operations s))"
    by (auto simp: update_operation_Inr)
  define base where "base = (if i = e_operation_id e then n' else m)"
  define m' where "m' = (if refreshes (e_type e)
    then make_ready (adjust (e_operation_id e) (\<lambda>_. n') (rd_operations s)) base else base)"
  have at: "map_of ops i = Some m'"
    using m n(1)
    by (cases "i = e_operation_id e") (simp_all add: ops m'_def base_def map_of_refresh_ready keys del: map_of_eq_Some_iff)
  have "readied (published ops) base m'"
    using readied_make_ready [of "adjust (e_operation_id e) (\<lambda>_. n') (rd_operations s)" base] keys
    by (auto simp: m'_def ops)
  then have ready: "readied (published (rd_operations s')) base m'" by (simp add: operation(4))
  have "op_move (rd_operations s) (published (rd_operations s')) i e m m'"
  proof (cases "i = e_operation_id e")
    case True
    then show ?thesis
      using n m ready operation(1,2) event_validate_payload [of e]
      by (intro op_move.own [of i e _ m n' "published (rd_operations s')" m']) (auto simp: concerns_def base_def admitted_def)
  next
    case False
    then show ?thesis
      using ready operation(2) by (intro op_move.other) (auto simp: concerns_def base_def is_run_event_def)
  qed
  with at operation(4) show ?thesis by auto
qed

lemma reduce_event_keys:
  "reduce_event p s e = Inr s' \<Longrightarrow> distinct (map fst (rd_operations s)) \<Longrightarrow>
     map fst (rd_operations s') = map fst (rd_operations s)"
  by (erule reduce_event_elim)
    (auto simp: update_operation_Inr cancel_remaining_def comp_def case_prod_beta' split: if_splits)

lemma op_move_static: "op_move ops pub i e m m' \<Longrightarrow> same_static m m'"
  by (erule op_moveE)
    (auto dest!: operation_step_static simp: same_static_def readied_def cancel_operation_def)

lemma readied_inv: "readied pub m m' \<Longrightarrow> op_inv m \<Longrightarrow> op_inv m'"
proof (unfold readied_def, elim disjE conjE)
  assume "op_inv m" "os_state m = StatePlanned" "m' = m\<lparr>os_state := StateReady\<rparr>"
  then show "op_inv m'" by (simp add: op_inv_def) blast
qed simp

lemma op_move_inv: "op_move ops pub i e m m' \<Longrightarrow> op_inv m \<Longrightarrow> op_inv m'"
  by (erule op_moveE) (auto intro: readied_inv operation_step_inv cancel_operation_inv)

lemma op_move_final:
  assumes "op_move ops pub i e m m'" and "op_inv m" and "final_state (os_state m)"
  shows "same_outcome m m'"
  using assms(1)
proof cases
  case (own m1)
  then have "same_outcome m m1" using operation_step_final assms(2,3) by blast
  with own(6) final_not [OF assms(3)] show ?thesis by (auto simp: readied_def same_outcome_def)
qed (use final_not [OF assms(3)] in \<open>auto simp: readied_def cancel_operation_def\<close>)

section \<open>Accepted journals\<close>

abbreviation reduces :: "plan \<Rightarrow> event list \<Rightarrow> reducer \<Rightarrow> bool" where
  "reduces p evs s \<equiv> for_each (reduce_event p) (initial_reducer p) evs = Inr s"

lemma reduce_Inr: "reduce p evs = Inr d \<longleftrightarrow> valid_identifier (pl_id p) \<and> (\<exists>s. reduces p evs s \<and> d = derived_of p s)"
  by (auto simp: reduce_def checks)

lemma reduces_prefix: "reduces p (xs @ ys) s \<Longrightarrow> \<exists>t. reduces p xs t \<and> for_each (reduce_event p) t ys = Inr s"
  by (simp add: for_each_append_Inr)

lemma initial_operations_fold:
  "foldl (\<lambda>m op. map_insert (op_id op) (initial_operation op) m) m0 ops = m \<Longrightarrow> distinct (map fst m0) \<Longrightarrow>
     distinct (map fst m) \<and> (\<forall>i x. map_of m i = Some x \<longrightarrow>
       map_of m0 i = Some x \<or> (\<exists>op \<in> set ops. op_id op = i \<and> x = initial_operation op))"
proof (induction ops arbitrary: m0)
  case (Cons op ops)
  from Cons.IH [of "map_insert (op_id op) (initial_operation op) m0"] Cons.prems show ?case
    by (auto simp del: map_of_eq_Some_iff split: if_splits)
qed simp

lemma initial_operations_keys [simp]: "distinct (map fst (initial_operations p))"
  using initial_operations_fold [OF initial_operations_def [of p, symmetric]] by simp

lemma initial_operations_at:
  "map_of (initial_operations p) i = Some m \<Longrightarrow> \<exists>op \<in> set (pl_operations p). op_id op = i \<and> m = initial_operation op"
  using initial_operations_fold [OF initial_operations_def [of p, symmetric]] by (simp del: map_of_eq_Some_iff)

lemma reduces_keys: "reduces p evs s \<Longrightarrow> map fst (rd_operations s) = map fst (initial_operations p)"
proof (induction evs arbitrary: s rule: rev_induct)
  case Nil
  then show ?case by (auto simp: initial_reducer_def)
next
  case (snoc e evs)
  then obtain t where "reduces p evs t" "reduce_event p t e = Inr s" by (auto simp: for_each_snoc_Inr)
  with snoc.IH reduce_event_keys [of p t e s] show ?case by simp
qed

lemma reduces_distinct: "reduces p evs s \<Longrightarrow> distinct (map fst (rd_operations s))"
  by (simp add: reduces_keys)

lemma reduces_snoc_op:
  assumes "reduces p (evs @ [e]) s" and "map_of (rd_operations s) i = Some m"
  obtains t n where "reduces p evs t" "reduce_event p t e = Inr s" "map_of (rd_operations t) i = Some n"
    "op_move (rd_operations t) (published (rd_operations s)) i e n m"
proof -
  from assms(1) obtain t where t: "reduces p evs t" "reduce_event p t e = Inr s" by (auto simp: for_each_snoc_Inr)
  have "map fst (rd_operations s) = map fst (rd_operations t)"
    using t reduces_distinct [OF t(1)] by (intro reduce_event_keys)
  then have "i \<in> fst ` set (rd_operations t)"
    using assms(2) by (metis domI dom_map_of_conv_image_fst list.set_map)
  then obtain n where n: "map_of (rd_operations t) i = Some n" by (metis map_of_eq_None_iff not_Some_eq)
  obtain m' where "map_of (rd_operations s) i = Some m'" "op_move (rd_operations t) (published (rd_operations s)) i e n m'"
    using reduce_event_op_move [OF t(2) reduces_distinct [OF t(1)] n] by blast
  with assms(2) that [OF t n] show thesis by simp
qed

text \<open>Induction over the journal as one operation sees it.\<close>

lemma reduces_op_induct [consumes 2, case_names initial event]:
  assumes "reduces p evs s" and "map_of (rd_operations s) i = Some m"
    and initial: "\<And>op. op \<in> set (pl_operations p) \<Longrightarrow> op_id op = i \<Longrightarrow> P [] (initial_operation op)"
    and event: "\<And>evs s pub e m m'. reduces p evs s \<Longrightarrow> map_of (rd_operations s) i = Some m \<Longrightarrow> op_inv m \<Longrightarrow>
      op_move (rd_operations s) pub i e m m' \<Longrightarrow> P evs m \<Longrightarrow> P (evs @ [e]) m'"
  shows "P evs m \<and> op_inv m"
  using assms(1,2)
proof (induction evs arbitrary: s m rule: rev_induct)
  case Nil
  then show ?case
    using initial initial_operations_at [of p i m]
    by (auto simp: initial_reducer_def initial_operation_inv simp del: map_of_eq_Some_iff)
next
  case (snoc e evs)
  from reduces_snoc_op [OF snoc.prems] obtain t n where t: "reduces p evs t" "reduce_event p t e = Inr s"
    and n: "map_of (rd_operations t) i = Some n"
    and move: "op_move (rd_operations t) (published (rd_operations s)) i e n m" by blast
  from snoc.IH [OF t(1) n] have "P evs n" "op_inv n" by blast+
  with event [OF t(1) n _ move] op_move_inv [OF move] show ?case by blast
qed

lemma reduces_op_inv: "reduces p evs s \<Longrightarrow> map_of (rd_operations s) i = Some m \<Longrightarrow> op_inv m"
  using reduces_op_induct [of p evs s i m "\<lambda>_ _. True"] by blast

lemma reduces_op_static:
  assumes "reduces p evs s" and "map_of (rd_operations s) i = Some m"
  shows "\<exists>op \<in> set (pl_operations p). op_id op = i \<and> same_static (initial_operation op) m"
proof -
  let ?P = "\<lambda>m. \<exists>op \<in> set (pl_operations p). op_id op = i \<and> same_static (initial_operation op) m"
  have "(\<lambda>_. ?P) evs m \<and> op_inv m"
  proof (rule reduces_op_induct [OF assms])
    fix op assume "op \<in> set (pl_operations p)" "op_id op = i"
    then show "?P (initial_operation op)" by (auto simp: same_static_def)
  next
    fix ops pub e m m' assume "?P m" "op_move ops pub i e m m'"
    moreover have "same_static a b \<Longrightarrow> same_static b c \<Longrightarrow> same_static a c" for a b c
      by (simp add: same_static_def)
    ultimately show "?P m'" using op_move_static by blast
  qed
  then show ?thesis by blast
qed

text \<open>Induction over the events after some point of the journal.\<close>

lemma suffix_op_induct [consumes 3, case_names here event]:
  assumes "for_each (reduce_event p) s evs = Inr s'" and "distinct (map fst (rd_operations s))"
    and "map_of (rd_operations s) i = Some m"
    and here: "P [] m" and event: "\<And>evs ops pub e m m'. op_inv m \<Longrightarrow> op_move ops pub i e m m' \<Longrightarrow> P evs m \<Longrightarrow> P (evs @ [e]) m'"
    and inv: "op_inv m"
  shows "\<exists>m'. map_of (rd_operations s') i = Some m' \<and> P evs m' \<and> op_inv m' \<and> distinct (map fst (rd_operations s'))"
  using assms(1)
proof (induction evs arbitrary: s' rule: rev_induct)
  case Nil
  then show ?case using assms by simp
next
  case (snoc e evs)
  then obtain t where t: "for_each (reduce_event p) s evs = Inr t" "reduce_event p t e = Inr s'"
    by (auto simp: for_each_snoc_Inr)
  from snoc.IH [OF t(1)] obtain n where n: "map_of (rd_operations t) i = Some n" "P evs n" "op_inv n"
    and keys: "distinct (map fst (rd_operations t))" by blast
  obtain m' where m': "map_of (rd_operations s') i = Some m'" "op_move (rd_operations t) (published (rd_operations s')) i e n m'"
    using reduce_event_op_move [OF t(2) keys n(1)] by blast
  have "distinct (map fst (rd_operations s'))" using reduce_event_keys [OF t(2) keys] keys by simp
  with m' event [OF n(3) m'(2) n(2)] op_move_inv [OF m'(2) n(3)] show ?case by blast
qed

end
