(* ===== verification/Journal_Trace.thy ===== *)
theory Journal_Trace
  imports Journal_Safety
begin

text \<open>
  The properties of every journal that \<open>Reduce\<close> accepts, stated over the events of the journal and the
  derived state that \<open>DerivedState.Operation\<close> returns.
\<close>

section \<open>Looking up a derived state\<close>

text \<open>\<open>sort.Search\<close> finds the first index at which a monotone predicate holds.\<close>

lemma search_from_least:
  assumes "i \<le> j" and "\<And>a b. i \<le> a \<Longrightarrow> a \<le> b \<Longrightarrow> b < j \<Longrightarrow> f a \<Longrightarrow> f b"
  shows "i \<le> search_from f i j \<and> search_from f i j \<le> j
    \<and> (\<forall>a. i \<le> a \<and> a < search_from f i j \<longrightarrow> \<not> f a)
    \<and> (\<forall>a. search_from f i j \<le> a \<and> a < j \<longrightarrow> f a)"
  using assms
proof (induction f i j rule: search_from.induct)
  case (1 f i j)
  let ?h = "(i + j) div 2"
  show ?case
  proof (cases "i < j")
    case False
    then have "search_from f i j = i" by (subst search_from.simps) simp
    with False "1.prems"(1) show ?thesis by auto
  next
    case True
    then have h: "i \<le> ?h" "?h < j" by auto
    show ?thesis
    proof (cases "f ?h")
      case False
      have low: "\<not> f a" if "i \<le> a" "a \<le> ?h" for a
        using "1.prems"(2) [of a ?h] that h False by auto
      have "?h + 1 \<le> search_from f (?h + 1) j \<and> search_from f (?h + 1) j \<le> j
          \<and> (\<forall>a. ?h + 1 \<le> a \<and> a < search_from f (?h + 1) j \<longrightarrow> \<not> f a)
          \<and> (\<forall>a. search_from f (?h + 1) j \<le> a \<and> a < j \<longrightarrow> f a)"
      proof (rule "1.IH"(1) [OF True refl False])
        show "f b" if "?h + 1 \<le> a" "a \<le> b" "b < j" "f a" for a b
          using "1.prems"(2) [of a b] that h by linarith
      qed (use h in simp)
      moreover have "search_from f i j = search_from f (?h + 1) j"
        using True False by (subst search_from.simps) (simp add: Let_def)
      ultimately have k: "?h + 1 \<le> search_from f i j" "search_from f i j \<le> j"
          "\<forall>a. ?h + 1 \<le> a \<and> a < search_from f i j \<longrightarrow> \<not> f a" "\<forall>a. search_from f i j \<le> a \<and> a < j \<longrightarrow> f a"
        by simp_all
      have "\<not> f a" if "i \<le> a" "a < search_from f i j" for a
        using low [of a] k(3) that by (cases "a \<le> ?h") auto
      moreover have "i \<le> search_from f i j" using h(1) k(1) by linarith
      ultimately show ?thesis using k(2,4) by blast
    next
      case at: True
      have high: "f a" if "?h \<le> a" "a < j" for a
        using "1.prems"(2) [of ?h a] that h at by auto
      have "i \<le> search_from f i ?h \<and> search_from f i ?h \<le> ?h
          \<and> (\<forall>a. i \<le> a \<and> a < search_from f i ?h \<longrightarrow> \<not> f a)
          \<and> (\<forall>a. search_from f i ?h \<le> a \<and> a < ?h \<longrightarrow> f a)"
      proof (rule "1.IH"(2) [OF True refl])
        show "f b" if "i \<le> a" "a \<le> b" "b < ?h" "f a" for a b
          using "1.prems"(2) [of a b] that h by linarith
      qed (use h at in simp_all)
      moreover have "search_from f i j = search_from f i ?h"
        using True at by (subst search_from.simps) (simp add: Let_def)
      ultimately have k: "i \<le> search_from f i j" "search_from f i j \<le> ?h"
          "\<forall>a. i \<le> a \<and> a < search_from f i j \<longrightarrow> \<not> f a" "\<forall>a. search_from f i j \<le> a \<and> a < ?h \<longrightarrow> f a"
        by simp_all
      have "f a" if "search_from f i j \<le> a" "a < j" for a
        using high [of a] k(4) that by (cases "?h \<le> a") auto
      moreover have "search_from f i j \<le> j" using h(2) k(2) by linarith
      ultimately show ?thesis using k(1,3) by blast
    qed
  qed
qed

text \<open>Searching a list sorted by distinct keys is looking a key up.\<close>

lemma search_sorted:
  fixes key :: "'a \<Rightarrow> 'k :: linorder" and i :: 'k
  assumes "sorted (map key xs)" and "distinct (map key xs)"
  defines "k \<equiv> search_from (\<lambda>k. i \<le> key (xs ! k)) 0 (length xs)"
  shows "(if k = length xs \<or> key (xs ! k) \<noteq> i then None else Some (xs ! k)) = map_of (map (\<lambda>x. (key x, x)) xs) i"
proof -
  have mono: "key (xs ! a) \<le> key (xs ! b)" if "a \<le> b" "b < length xs" for a b
    using sorted_nth_mono [OF assms(1), of a b] that by simp
  have up: "i \<le> key (xs ! b)" if "i \<le> key (xs ! a)" "a \<le> b" "b < length xs" for a b
    using that(1) mono [OF that(2,3)] by (rule order_trans)
  have "0 \<le> k \<and> k \<le> length xs \<and> (\<forall>a. 0 \<le> a \<and> a < k \<longrightarrow> \<not> i \<le> key (xs ! a))
      \<and> (\<forall>a. k \<le> a \<and> a < length xs \<longrightarrow> i \<le> key (xs ! a))"
    unfolding k_def by (rule search_from_least) (auto intro: up)
  then have k: "k \<le> length xs" "\<forall>a. a < k \<longrightarrow> \<not> i \<le> key (xs ! a)" "\<forall>a. k \<le> a \<and> a < length xs \<longrightarrow> i \<le> key (xs ! a)"
    by simp_all
  have keys: "distinct (map fst (map (\<lambda>x. (key x, x)) xs))" using assms(2) by (simp add: comp_def)
  show ?thesis
  proof (cases "k = length xs \<or> key (xs ! k) \<noteq> i")
    case True
    have "key x \<noteq> i" if "x \<in> set xs" for x
    proof -
      from that obtain a where a: "a < length xs" "xs ! a = x" by (auto simp: in_set_conv_nth)
      show ?thesis
      proof (cases "a < k")
        case True
        with k(2) a show ?thesis by auto
      next
        case False
        then have "k < length xs" "key (xs ! k) \<noteq> i" using True a k(1) by auto
        moreover have "i \<le> key (xs ! k)" using k(3) \<open>k < length xs\<close> by simp
        moreover have "key (xs ! k) \<le> key x" using mono [of k a] False a by simp
        ultimately show ?thesis by auto
      qed
    qed
    then have "i \<notin> key ` set xs" by blast
    then have "map_of (map (\<lambda>x. (key x, x)) xs) i = None" by (simp add: map_of_eq_None_iff image_image)
    with True show ?thesis by simp
  next
    case False
    then have "(i, xs ! k) \<in> set (map (\<lambda>x. (key x, x)) xs)" using k(1) by force
    with keys False show ?thesis by simp
  qed
qed

lemma map_of_key_set:
  "distinct (map key xs) \<Longrightarrow> set ys = set xs \<Longrightarrow> distinct (map key ys) \<Longrightarrow>
     map_of (map (\<lambda>x. (key x, x)) ys) i = map_of (map (\<lambda>x. (key x, x)) xs) i"
  by (intro map_of_inject_set [THEN iffD2, THEN fun_cong]) (simp_all add: comp_def)

lemma reduces_ids: "reduces p evs s \<Longrightarrow> (k, m) \<in> set (rd_operations s) \<Longrightarrow> os_id m = k"
  using reduces_op_static [of p evs s k m] map_of_is_SomeI [OF reduces_distinct, of p evs s k m]
  by (auto simp: same_static_def initial_operation_def)

lemma truncate_id [simp]: "os_id (operation_state.truncate m) = os_id m"
  by (simp add: operation_state.truncate_def)

lemma derived_operation_at:
  assumes "reduces p evs s"
  shows "derived_operation (derived_of p s) i = map_option operation_state.truncate (map_of (rd_operations s) i)"
proof -
  let ?f = "operation_state.truncate :: mutable_operation \<Rightarrow> operation_state"
  let ?xs = "map (?f \<circ> snd) (rd_operations s)"
  have keys: "map os_id ?xs = map fst (rd_operations s)"
    using reduces_ids [OF assms] by (auto intro!: map_cong)
  have dist: "distinct (map os_id ?xs)" using reduces_distinct [OF assms] by (simp only: keys)
  have dist': "distinct (map os_id (sort_key os_id ?xs))"
    using dist by (metis distinct_map distinct_sort set_sort)
  have "derived_operation (derived_of p s) i = map_of (map (\<lambda>x. (os_id x, x)) (sort_key os_id ?xs)) i"
    unfolding derived_operation_def derived_of_def Let_def derived_state.select_convs
    by (rule search_sorted [OF _ dist']) simp
  also have "\<dots> = map_of (map (\<lambda>x. (os_id x, x)) ?xs) i"
    by (intro map_of_key_set dist dist') simp
  also have "map (\<lambda>x. (os_id x, x)) ?xs = map (\<lambda>(k, m). (k, ?f m)) (rd_operations s)"
    using reduces_ids [OF assms] by (auto simp: comp_def intro!: map_cong)
  also have "map_of \<dots> i = map_option ?f (map_of (rd_operations s) i)"
    by (rule map_of_map_pair)
  finally show ?thesis .
qed

lemma reduce_operation:
  assumes "reduce p evs = Inr d" and "derived_operation d i = Some o1"
  obtains s m where "reduces p evs s" "d = derived_of p s" "map_of (rd_operations s) i = Some m"
    "o1 = operation_state.truncate m" "op_inv m"
proof -
  from assms(1) obtain s where s: "reduces p evs s" "d = derived_of p s" by (auto simp: reduce_Inr)
  with derived_operation_at [OF s(1), of i] assms(2) obtain m
    where "map_of (rd_operations s) i = Some m" "o1 = operation_state.truncate m" by auto
  with s reduces_op_inv that show thesis by blast
qed

lemma truncate_fields [simp]:
  "os_state (operation_state.truncate m) = os_state m" "os_attempt (operation_state.truncate m) = os_attempt m"
  "os_blocked_attempts (operation_state.truncate m) = os_blocked_attempts m"
  "os_reconcile_required (operation_state.truncate m) = os_reconcile_required m"
  "os_ambiguous (operation_state.truncate m) = os_ambiguous m"
  "os_lease_active (operation_state.truncate m) = os_lease_active m"
  "os_provider_state (operation_state.truncate m) = os_provider_state m"
  "os_evidence (operation_state.truncate m) = os_evidence m"
  "os_error_code (operation_state.truncate m) = os_error_code m"
  "os_retryable (operation_state.truncate m) = os_retryable m"
  "os_target_id (operation_state.truncate m) = os_target_id m"
  by (simp_all add: operation_state.truncate_def)

section \<open>Reading the journal\<close>

definition attempts_of :: "operation_id \<Rightarrow> event list \<Rightarrow> attempt_number list" where
  "attempts_of i evs = map (pay_attempt \<circ> e_payload) (filter (\<lambda>e. concerns i e \<and> e_type e = EventAttemptStarted) evs)"

definition dispatches_of :: "operation_id \<Rightarrow> event list \<Rightarrow> attempt_number list" where
  "dispatches_of i evs =
     map (pay_attempt \<circ> e_payload) (filter (\<lambda>e. concerns i e \<and> e_type e = EventSideEffectDispatched) evs)"

text \<open>The state a result event reports, and the events after which the outcome of an attempt is known.\<close>

definition reported_state :: "event \<Rightarrow> normalized_state option" where
  "reported_state e = (case e_type e of
     EventOperationWaitingExternal \<Rightarrow> Some StateWaitingExternal
   | EventOperationPublished \<Rightarrow> Some StatePublished
   | EventOperationRejected \<Rightarrow> Some StateRejected
   | EventOperationFailed \<Rightarrow> Some StateFailed
   | EventOperationResult \<Rightarrow> Some (pay_state (e_payload e))
   | EventReconcileResult \<Rightarrow> Some (pay_state (e_payload e))
   | _ \<Rightarrow> None)"

definition settles :: "event \<Rightarrow> bool" where
  "settles e \<longleftrightarrow> e_type e = EventRetryAuthorized
     \<or> (\<exists>s. reported_state e = Some s \<and> s \<noteq> StateWaitingExternal)"

definition absence_observed :: "event \<Rightarrow> bool" where
  "absence_observed e \<longleftrightarrow> e_type e = EventReconcileResult \<and> pay_state (e_payload e) = StateWaitingExternal
     \<and> pay_provider_state (e_payload e) = ''absent'' \<and> pay_error_code (e_payload e) = []"

lemma settles_code [code]: "settles e \<longleftrightarrow> e_type e = EventRetryAuthorized
    \<or> (case reported_state e of None \<Rightarrow> False | Some s \<Rightarrow> s \<noteq> StateWaitingExternal)"
  by (auto simp: settles_def split: option.splits)

lemma explicit_reported:
  "t \<in> {EventOperationWaitingExternal, EventOperationPublished, EventOperationRejected, EventOperationFailed} \<Longrightarrow>
     e_type e = t \<Longrightarrow> reported_state e = Some (fst (explicit_result_state t))"
  by (auto simp: reported_state_def)

lemma attempts_of_simps [simp]:
  "attempts_of i [] = []"
  "attempts_of i (evs @ [e]) = attempts_of i evs @
     (if concerns i e \<and> e_type e = EventAttemptStarted then [pay_attempt (e_payload e)] else [])"
  by (simp_all add: attempts_of_def)

lemma dispatches_of_simps [simp]:
  "dispatches_of i [] = []"
  "dispatches_of i (evs @ [e]) = dispatches_of i evs @
     (if concerns i e \<and> e_type e = EventSideEffectDispatched then [pay_attempt (e_payload e)] else [])"
  by (simp_all add: dispatches_of_def)

section \<open>Steps that keep what the trace properties need\<close>

lemma apply_result_fields [simp]:
  "os_state (apply_result p b m) = pay_state p" "os_attempt (apply_result p b m) = os_attempt m"
  "os_reconcile_required (apply_result p b m) \<longleftrightarrow> pay_state p = StateWaitingExternal"
  "\<not> mo_dispatched (apply_result p b m)" "mo_observed_absent (apply_result p b m) = mo_observed_absent m"
  by (simp_all add: apply_result_def)

text \<open>An outcome that must be reconciled stays so until an event settles it.\<close>

lemma operation_step_unsettled:
  assumes step: "operation_step ops e m = Inr m'" and inv: "op_inv m"
    and pending: "os_reconcile_required m" and open_outcome: "\<not> settles e"
  shows "os_reconcile_required m'"
  using step
proof (cases rule: operation_step_elim)
  case 13
  with open_outcome explicit_reported [OF 13(1) refl]
  have "fst (explicit_result_state (e_type e)) = StateWaitingExternal" by (auto simp: settles_def)
  with 13(2) show ?thesis
    by (auto simp: step_explicit_result_def Let_def split: if_splits)
next
  case 14
  with open_outcome have "pay_state (e_payload e) = StateWaitingExternal"
    by (auto simp: settles_def reported_state_def)
  with 14(2) show ?thesis
    by (auto simp: step_operation_result_def Let_def split: if_splits)
next
  case 16
  with open_outcome show ?thesis by (simp add: settles_def)
next
  case 17
  with open_outcome have "pay_state (e_payload e) = StateWaitingExternal"
    by (auto simp: settles_def reported_state_def)
  with 17(2) show ?thesis
    by (auto simp: step_reconcile_result_def Let_def apply_result_def split: if_splits)
qed (use pending in \<open>auto simp: step_ready_def step_lease_acquired_def step_lease_renewed_def step_lease_expired_def
  step_lease_released_def step_operation_cancelled_def step_attempt_started_def
  step_credential_resolved_def step_provider_started_def step_dispatched_def
  step_provider_response_def step_outcome_ambiguous_def step_reconcile_started_def
  with_lease_def set_lease_def split: if_splits option.splits\<close>)

lemma op_move_unsettled:
  assumes "op_move ops pub i e m m'" and "op_inv m" and "os_reconcile_required m"
    and "\<not> (concerns i e \<and> settles e)"
  shows "os_reconcile_required m'"
  using assms(1)
proof cases
  case (own m1)
  then have "os_reconcile_required m1" using operation_step_unsettled assms(2-4) by blast
  with own(6) show ?thesis by (auto simp: readied_def)
qed (use assms(3) in \<open>auto simp: readied_def cancel_operation_def\<close>)

text \<open>Only \<open>ATTEMPT_STARTED\<close> changes the attempt number, and it makes the next one.\<close>

lemma operation_step_attempt:
  "operation_step ops e m = Inr m' \<Longrightarrow>
     (if e_type e = EventAttemptStarted
      then os_attempt m' = os_attempt m + 1 \<and> pay_attempt (e_payload e) = os_attempt m'
        \<and> dependencies_published m ops \<and> \<not> os_reconcile_required m
      else os_attempt m' = os_attempt m)"
  by (erule operation_step_elim) (auto simp: step_defs split: if_splits option.splits)

lemma op_move_attempt:
  assumes "op_move ops pub i e m m'"
  shows "if concerns i e \<and> e_type e = EventAttemptStarted
     then os_attempt m' = os_attempt m + 1 \<and> pay_attempt (e_payload e) = os_attempt m' \<and> os_attempt m' \<noteq> 0
     else os_attempt m' = os_attempt m"
  using assms
proof cases
  case (own m1)
  with operation_step_attempt [OF own(5)] validate_attempt_started [of "e_payload e"]
  show ?thesis by (auto simp: readied_def split: if_splits)
qed (auto simp: readied_def cancel_operation_def concerns_def is_run_event_def)

text \<open>What a dispatch needs and does, and when an operation is running without a dispatch.\<close>

lemma operation_step_dispatch:
  "operation_step ops e m = Inr m' \<Longrightarrow> e_type e = EventSideEffectDispatched \<Longrightarrow>
     os_state m = StateRunning \<and> \<not> mo_dispatched m \<and> pay_attempt (e_payload e) = os_attempt m
       \<and> mo_dispatched m' \<and> os_reconcile_required m' \<and> os_state m' = StateRunning \<and> os_attempt m' = os_attempt m"
  by (erule operation_step_elim) (auto simp: step_dispatched_def split: if_splits)

lemma operation_step_running:
  "operation_step ops e m = Inr m' \<Longrightarrow> e_type e \<noteq> EventAttemptStarted \<Longrightarrow>
     payload_validate (e_type e) (e_payload e) = None \<Longrightarrow> os_state m' = StateRunning \<Longrightarrow>
     os_state m = StateRunning \<and> (mo_dispatched m \<longrightarrow> mo_dispatched m')"
proof (erule operation_step_elim)
  assume "e_type e = EventOperationResult" "step_operation_result e m = Inr m'"
    "payload_validate (e_type e) (e_payload e) = None" "os_state m' = StateRunning"
  then show ?thesis
    using validate_operation_result [of "e_payload e"]
    by (auto simp: step_operation_result_def Let_def split: if_splits)
next
  assume "e_type e = EventReconcileResult" "step_reconcile_result e m = Inr m'"
    "payload_validate (e_type e) (e_payload e) = None" "os_state m' = StateRunning"
  then show ?thesis
    using validate_reconcile_result [of "e_payload e"]
    by (auto simp: step_reconcile_result_def Let_def split: if_splits)
next
  assume t: "e_type e \<in> {EventOperationWaitingExternal, EventOperationPublished, EventOperationRejected, EventOperationFailed}"
    and "step_explicit_result e m = Inr m'" "os_state m' = StateRunning"
  moreover have "fst (explicit_result_state (e_type e)) \<noteq> StateRunning" using t by auto
  ultimately show ?thesis
    by (auto simp: step_explicit_result_def Let_def split: if_splits)
qed (auto simp: step_ready_def step_lease_acquired_def step_lease_renewed_def step_lease_expired_def
  step_lease_released_def step_operation_cancelled_def
  step_credential_resolved_def step_provider_started_def step_dispatched_def
  step_provider_response_def step_outcome_ambiguous_def step_reconcile_started_def step_retry_authorized_def
  with_lease_def set_lease_def split: if_splits option.splits)

lemma op_move_running:
  assumes "op_move ops pub i e m m'" and "\<not> (concerns i e \<and> e_type e = EventAttemptStarted)"
    and "os_state m' = StateRunning"
  shows "os_state m = StateRunning \<and> (mo_dispatched m \<longrightarrow> mo_dispatched m')"
  using assms(1)
proof cases
  case (own m1)
  then have "os_state m1 = StateRunning" "m' = m1" using assms(3) by (auto simp: readied_def)
  with own assms(2) show ?thesis using operation_step_running [of ops e m m1] by simp
qed (use assms(3) in \<open>auto simp: readied_def cancel_operation_def split: if_splits\<close>)

text \<open>The absence of the release is only recorded by a reconciliation of the same attempt.\<close>

lemma operation_step_absent:
  "operation_step ops e m = Inr m' \<Longrightarrow> mo_observed_absent m' \<Longrightarrow>
     absence_observed e \<or> (mo_observed_absent m \<and> e_type e \<noteq> EventAttemptStarted)"
  by (erule operation_step_elim)
    (auto simp: step_defs absence_observed_def split: if_splits option.splits)

lemma op_move_absent:
  assumes "op_move ops pub i e m m'" and "mo_observed_absent m'"
  shows "(concerns i e \<and> absence_observed e)
    \<or> (mo_observed_absent m \<and> \<not> (concerns i e \<and> e_type e = EventAttemptStarted))"
  using assms(1)
proof cases
  case (own m1)
  then have "mo_observed_absent m1" using assms(2) by (auto simp: readied_def)
  with own(1) operation_step_absent [OF own(5)] show ?thesis by blast
qed (use assms(2) in \<open>auto simp: readied_def cancel_operation_def concerns_def is_run_event_def split: if_splits\<close>)

lemma operation_step_retry:
  "operation_step ops e m = Inr m' \<Longrightarrow> e_type e = EventRetryAuthorized \<Longrightarrow>
     mo_observed_absent m \<and> mo_side_effecting m \<and> provider_name (mo_provider m) = ''npm'' \<and> mo_kind m = ''publish''
       \<and> \<not> os_lease_active m \<and> os_state m = StateWaitingExternal"
  by (erule operation_step_elim) (auto simp: step_retry_authorized_def split: if_splits)

text \<open>Only a reported \<open>PUBLISHED\<close> makes an operation published.\<close>

lemma operation_step_published:
  "operation_step ops e m = Inr m' \<Longrightarrow> os_state m' = StatePublished \<Longrightarrow>
     os_state m = StatePublished \<or> reported_state e = Some StatePublished"
proof (erule operation_step_elim)
  assume t: "e_type e \<in> {EventOperationWaitingExternal, EventOperationPublished, EventOperationRejected, EventOperationFailed}"
    and "step_explicit_result e m = Inr m'" "os_state m' = StatePublished"
  then show ?thesis
    using explicit_reported [OF t refl] by (auto simp: step_explicit_result_def Let_def split: if_splits)
qed (auto simp: step_defs reported_state_def split: if_splits option.splits)

lemma op_move_published:
  assumes "op_move ops pub i e m m'" and "os_state m' = StatePublished"
  shows "os_state m = StatePublished \<or> (concerns i e \<and> reported_state e = Some StatePublished)"
  using assms(1)
proof cases
  case (own m1)
  then have "os_state m1 = StatePublished" using assms(2) by (auto simp: readied_def)
  with own(1) operation_step_published [OF own(5)] show ?thesis by blast
qed (use assms(2) in \<open>auto simp: readied_def cancel_operation_def split: if_splits\<close>)

section \<open>Trace invariants of one operation\<close>

lemma attempts_invariant:
  assumes "reduces p evs s" and "map_of (rd_operations s) i = Some m"
  shows "attempts_of i evs = map word_of_nat [1..<Suc (unat (os_attempt m))]"
proof -
  have "attempts_of i evs = map word_of_nat [1..<Suc (unat (os_attempt m))] \<and> op_inv m"
    using assms
  proof (induction rule: reduces_op_induct)
    case (initial op)
    show ?case by (simp add: initial_operation_def)
  next
    case (event evs s pub e m m')
    show ?case
    proof (cases "concerns i e \<and> e_type e = EventAttemptStarted")
      case True
      then have m': "os_attempt m' = os_attempt m + 1" "pay_attempt (e_payload e) = os_attempt m'" "os_attempt m' \<noteq> 0"
        using op_move_attempt [OF event(4)] by auto
      then have "unat (os_attempt m') = Suc (unat (os_attempt m))" using unat_plus_one by simp
      moreover from this have "pay_attempt (e_payload e) = word_of_nat (Suc (unat (os_attempt m)))"
        using m'(2) by (metis of_nat_unat ucast_id)
      ultimately show ?thesis using True event(5) by simp
    next
      case False
      then have "os_attempt m' = os_attempt m" using op_move_attempt [OF event(4)] by auto
      with False event(5) show ?thesis by auto
    qed
  qed
  then show ?thesis by blast
qed

lemma attempts_nth_unat:
  "n < 2 ^ 32 \<Longrightarrow> map unat (map word_of_nat [1..<Suc n] :: 32 word list) = [1..<Suc n]"
  by (auto intro!: map_idI simp: unsigned_of_nat take_bit_nat_eq_self)

definition dispatched_below :: "mutable_operation \<Rightarrow> attempt_number list \<Rightarrow> bool" where
  "dispatched_below m ds \<longleftrightarrow> distinct ds \<and> (\<forall>a \<in> set ds. 0 < unat a \<and> unat a \<le> unat (os_attempt m))
     \<and> (os_state m = StateRunning \<and> \<not> mo_dispatched m \<longrightarrow> os_attempt m \<notin> set ds)"

lemma dispatches_invariant:
  assumes "reduces p evs s" and "map_of (rd_operations s) i = Some m"
  shows "dispatched_below m (dispatches_of i evs)"
proof -
  have "dispatched_below m (dispatches_of i evs) \<and> op_inv m"
    using assms
  proof (induction rule: reduces_op_induct)
    case (initial op)
    show ?case by (simp add: initial_operation_def dispatched_below_def)
  next
    case (event evs s pub e m m')
    note below = event(5) [unfolded dispatched_below_def]
    consider (attempt) "concerns i e \<and> e_type e = EventAttemptStarted"
      | (dispatch) "concerns i e \<and> e_type e = EventSideEffectDispatched"
      | (neither) "\<not> (concerns i e \<and> e_type e = EventAttemptStarted)"
          "\<not> (concerns i e \<and> e_type e = EventSideEffectDispatched)" by blast
    then show ?case
    proof cases
      case attempt
      then have m': "os_attempt m' = os_attempt m + 1" "os_attempt m' \<noteq> 0" using op_move_attempt [OF event(4)] by auto
      then have "unat (os_attempt m') = Suc (unat (os_attempt m))" using unat_plus_one by simp
      with attempt below show ?thesis by (fastforce simp: dispatched_below_def)
    next
      case dispatch
      from event(4) dispatch obtain m1 where step: "operation_step (rd_operations s) e m = Inr m1" "readied pub m1 m'"
        by (cases rule: op_moveE) (auto simp: concerns_def is_run_event_def)
      note d = operation_step_dispatch [OF step(1)]
      have m': "m' = m1" using d dispatch step(2) by (auto simp: readied_def)
      have "0 < unat (os_attempt m)" using event(3) d dispatch by (auto simp: op_inv_def)
      with dispatch d m' below show ?thesis by (auto simp: dispatched_below_def)
    next
      case neither
      then have "os_attempt m' = os_attempt m" using op_move_attempt [OF event(4)] by auto
      moreover have "os_state m = StateRunning \<and> \<not> mo_dispatched m" if "os_state m' = StateRunning \<and> \<not> mo_dispatched m'"
        using op_move_running [OF event(4) neither(1)] that by blast
      ultimately show ?thesis using neither below by (auto simp: dispatched_below_def)
    qed
  qed
  then show ?thesis by blast
qed

lemma absent_invariant:
  assumes "reduces p evs s" and "map_of (rd_operations s) i = Some m"
  shows "mo_observed_absent m \<longrightarrow> (\<exists>xs o1 ys. evs = xs @ o1 # ys \<and> concerns i o1 \<and> absence_observed o1
    \<and> attempts_of i ys = [])"
proof -
  have "(mo_observed_absent m \<longrightarrow> (\<exists>xs o1 ys. evs = xs @ o1 # ys \<and> concerns i o1 \<and> absence_observed o1
    \<and> attempts_of i ys = [])) \<and> op_inv m"
    using assms
  proof (induction rule: reduces_op_induct)
    case (initial op)
    show ?case by (simp add: initial_operation_def)
  next
    case (event evs s pub e m m')
    show ?case
    proof
      assume "mo_observed_absent m'"
      from op_move_absent [OF event(4) this]
      show "\<exists>xs o1 ys. evs @ [e] = xs @ o1 # ys \<and> concerns i o1 \<and> absence_observed o1 \<and> attempts_of i ys = []"
      proof
        assume "concerns i e \<and> absence_observed e"
        then have "evs @ [e] = evs @ e # [] \<and> concerns i e \<and> absence_observed e \<and> attempts_of i [] = []" by simp
        then show ?thesis by blast
      next
        assume old: "mo_observed_absent m \<and> \<not> (concerns i e \<and> e_type e = EventAttemptStarted)"
        with event(5) obtain xs o1 ys where "evs = xs @ o1 # ys" "concerns i o1" "absence_observed o1" "attempts_of i ys = []"
          by blast
        with old have "evs @ [e] = xs @ o1 # (ys @ [e]) \<and> concerns i o1 \<and> absence_observed o1 \<and> attempts_of i (ys @ [e]) = []"
          by auto
        then show ?thesis by blast
      qed
    qed
  qed
  then show ?thesis by blast
qed

lemma published_invariant:
  assumes "reduces p evs s" and "map_of (rd_operations s) i = Some m"
  shows "os_state m = StatePublished \<longrightarrow> (\<exists>r \<in> set evs. concerns i r \<and> reported_state r = Some StatePublished)"
proof -
  have "(os_state m = StatePublished \<longrightarrow> (\<exists>r \<in> set evs. concerns i r \<and> reported_state r = Some StatePublished)) \<and> op_inv m"
    using assms
  proof (induction rule: reduces_op_induct)
    case (initial op)
    show ?case by (simp add: initial_operation_def)
  next
    case (event evs s pub e m m')
    then show ?case using op_move_published [OF event(4)] by auto
  qed
  then show ?thesis by blast
qed

text \<open>An own event of the journal, with the state of its operation before and after.\<close>

lemma reduces_split_own:
  assumes "reduces p (xs @ e # ys) s" and "concerns i e"
  obtains t u m m1 m' where "reduces p xs t" "reduce_event p t e = Inr u" "for_each (reduce_event p) u ys = Inr s"
    "map_of (rd_operations t) i = Some m" "op_inv m" "operation_step (rd_operations t) e m = Inr m1"
    "map_of (rd_operations u) i = Some m'" "op_inv m'" "readied (published (rd_operations u)) m1 m'"
    "distinct (map fst (rd_operations u))"
proof -
  from assms(1) obtain t u where t: "reduces p xs t" "reduce_event p t e = Inr u" "for_each (reduce_event p) u ys = Inr s"
    by (auto simp: for_each_append_Inr bind_result_Inr)
  note dist = reduces_distinct [OF t(1)]
  have "\<exists>m. map_of (rd_operations t) i = Some m"
    using t(2)
  proof (cases rule: reduce_event_elim)
    case (operation ops)
    then show ?thesis using assms(2) by (auto simp: update_operation_Inr concerns_def simp del: map_of_eq_Some_iff)
  qed (use assms(2) in \<open>auto simp: concerns_def is_run_event_def\<close>)
  then obtain m where m: "map_of (rd_operations t) i = Some m" by blast
  obtain m' where m': "map_of (rd_operations u) i = Some m'"
    "op_move (rd_operations t) (published (rd_operations u)) i e m m'"
    using reduce_event_op_move [OF t(2) dist m] by blast
  have inv: "op_inv m" by (rule reduces_op_inv [OF t(1) m])
  from m'(2) obtain m1 where m1: "operation_step (rd_operations t) e m = Inr m1" "readied (published (rd_operations u)) m1 m'"
    using assms(2) by (cases rule: op_moveE) (auto simp: concerns_def is_run_event_def)
  have "distinct (map fst (rd_operations u))" using reduce_event_keys [OF t(2) dist] dist by simp
  then show thesis
    using that [OF t m inv m1(1) m'(1) op_move_inv [OF m'(2) inv] m1(2)] by blast
qed

lemma suffix_unsettled:
  assumes "for_each (reduce_event p) u ys = Inr s" and "distinct (map fst (rd_operations u))"
    and "map_of (rd_operations u) i = Some m" and "op_inv m" and "os_reconcile_required m"
    and "\<forall>r \<in> set ys. \<not> (concerns i r \<and> settles r)"
  shows "\<exists>m'. map_of (rd_operations s) i = Some m' \<and> os_reconcile_required m'"
proof -
  have "\<exists>m'. map_of (rd_operations s) i = Some m'
      \<and> ((\<forall>r \<in> set ys. \<not> (concerns i r \<and> settles r)) \<longrightarrow> os_reconcile_required m')
      \<and> op_inv m' \<and> distinct (map fst (rd_operations s))"
    by (rule suffix_op_induct [OF assms(1-3) _ _ assms(4)]) (use assms(5) op_move_unsettled in auto)
  with assms(6) show ?thesis by blast
qed

lemma suffix_final:
  assumes "for_each (reduce_event p) u ys = Inr s" and "distinct (map fst (rd_operations u))"
    and "map_of (rd_operations u) i = Some m" and "op_inv m" and "final_state (os_state m)"
  shows "\<exists>m'. map_of (rd_operations s) i = Some m' \<and> same_outcome m m'"
proof -
  have trans: "same_outcome m c" if "same_outcome m b" "same_outcome b c" for b c
    using that by (simp add: same_outcome_def)
  have "\<exists>m'. map_of (rd_operations s) i = Some m' \<and> same_outcome m m'
      \<and> op_inv m' \<and> distinct (map fst (rd_operations s))"
  proof (rule suffix_op_induct [OF assms(1-3) _ _ assms(4)])
    fix ops pub e a b
    assume "op_inv a" "op_move ops pub i e a b" and a: "same_outcome m a"
    moreover have "final_state (os_state a)" using assms(5) a by (simp add: same_outcome_def)
    ultimately show "same_outcome m b" using op_move_final trans by blast
  qed simp
  then show ?thesis by blast
qed

end
