(* ===== verification/Journal_Run.thy ===== *)
theory Journal_Run
  imports Journal_Trace
begin

text \<open>
  Invariants of the reducer's whole state: the binding of the journal to one run, one plan and one
  sequence; dependencies before dependents; no operation left waiting once its dependencies are
  published; what completion and cancellation allow; and the states of targets.
\<close>

section \<open>The header of the journal\<close>

lemma admitted_facts:
  assumes "reduce_event p s e = Inr s'"
  shows "admitted s e" "rd_expected s' = rd_expected s + 1"
    "rd_run_id s' = (if rd_run_id s = [] then e_run_id e else rd_run_id s)"
    "rd_started s' = True" "rd_completed s' = (e_type e = EventRunCompleted)"
    "rd_cancelled s' = (rd_cancelled s \<or> e_type e = EventRunCancelled)"
  using assms by (auto elim!: reduce_event_elim simp: admitted_def is_run_event_def)

lemma admitted_valid:
  "admitted s e \<Longrightarrow> valid_identifier (e_run_id e) \<and> e_sequence e \<noteq> 0
     \<and> (e_type e = EventRunStarted \<longrightarrow> valid_identifier (e_plan_id e)) \<and> (e_type e \<noteq> EventRunStarted \<longrightarrow> e_plan_id e = [])"
  by (auto simp: admitted_def event_validate_def entry_validate_def event_entry_def checks split: if_splits)

lemma reduce_event_start:
  "reduce_event p s e = Inr s' \<Longrightarrow> e_type e = EventRunStarted \<Longrightarrow> \<not> rd_started s \<and> e_plan_id e = pl_id p"
  by (auto elim!: reduce_event_elim simp: is_run_event_def)

definition header_ok :: "plan \<Rightarrow> event list \<Rightarrow> reducer \<Rightarrow> bool" where
  "header_ok p evs s \<longleftrightarrow> length evs < 2 ^ 64 \<and> rd_expected s = word_of_nat (Suc (length evs))
     \<and> map (unat \<circ> e_sequence) evs = [1..<Suc (length evs)]
     \<and> (\<forall>e \<in> set evs. e_run_id e = rd_run_id s \<and> e_run_id e \<noteq> [])
     \<and> (rd_run_id s = [] \<longleftrightarrow> evs = []) \<and> (rd_started s \<longleftrightarrow> evs \<noteq> [])
     \<and> (evs \<noteq> [] \<longrightarrow> e_type (hd evs) = EventRunStarted \<and> e_plan_id (hd evs) = pl_id p)
     \<and> (\<forall>e \<in> set (tl evs). e_type e \<noteq> EventRunStarted)
     \<and> (rd_completed s \<longleftrightarrow> evs \<noteq> [] \<and> e_type (last evs) = EventRunCompleted)
     \<and> (rd_cancelled s \<longleftrightarrow> (\<exists>e \<in> set evs. e_type e = EventRunCancelled))"

lemma unat_of_suc: "n < 2 ^ 64 \<Longrightarrow> word_of_nat (Suc n) \<noteq> (0 :: 64 word) \<Longrightarrow>
    Suc n < 2 ^ 64 \<and> unat (word_of_nat (Suc n) :: 64 word) = Suc n"
proof (cases "Suc n < 2 ^ 64")
  case True
  then show ?thesis by (simp add: unsigned_of_nat take_bit_nat_eq_self del: of_nat_Suc)
next
  case False
  assume "n < 2 ^ 64" "word_of_nat (Suc n) \<noteq> (0 :: 64 word)"
  with False have "Suc n = 2 ^ 64" by simp
  then have "(word_of_nat (Suc n) :: 64 word) = 0" by (simp del: of_nat_Suc)
  with \<open>word_of_nat (Suc n) \<noteq> (0 :: 64 word)\<close> show ?thesis by simp
qed

lemma header_step:
  assumes ok: "header_ok p evs s" and step: "reduce_event p s e = Inr s'"
  shows "header_ok p (evs @ [e]) s'"
proof -
  note f = admitted_facts [OF step]
  note v = admitted_valid [OF f(1)]
  from ok have len: "length evs < 2 ^ 64" "rd_expected s = word_of_nat (Suc (length evs))"
      "map (unat \<circ> e_sequence) evs = [1..<Suc (length evs)]"
    and runs: "\<forall>x \<in> set evs. e_run_id x = rd_run_id s \<and> e_run_id x \<noteq> []" "rd_run_id s = [] \<longleftrightarrow> evs = []"
    and begun: "rd_started s \<longleftrightarrow> evs \<noteq> []" "evs \<noteq> [] \<longrightarrow> e_type (hd evs) = EventRunStarted \<and> e_plan_id (hd evs) = pl_id p"
      "\<forall>x \<in> set (tl evs). e_type x \<noteq> EventRunStarted"
    and over: "rd_cancelled s \<longleftrightarrow> (\<exists>x \<in> set evs. e_type x = EventRunCancelled)"
    unfolding header_ok_def by blast+
  have seq: "e_sequence e = word_of_nat (Suc (length evs))" "e_sequence e \<noteq> 0"
    using len(2) f(1) v unfolding admitted_def by metis+
  note n = unat_of_suc [OF len(1) seq(2) [unfolded seq(1)]]
  have order: "map (unat \<circ> e_sequence) (evs @ [e]) = [1..<Suc (length (evs @ [e]))]"
    using len(3) n seq(1) by (simp del: of_nat_Suc)
  have following: "rd_expected s' = word_of_nat (Suc (length (evs @ [e])))" using f(2) len(2) by simp
  have same: "rd_run_id s = [] \<or> e_run_id e = rd_run_id s" using f(1) unfolding admitted_def by blast
  have some: "e_run_id e \<noteq> []" using v valid_identifier_nonempty by metis
  have id: "e_run_id e \<noteq> []" "rd_run_id s' \<noteq> []" "e_run_id e = rd_run_id s'"
    using same some f(3) by (cases "rd_run_id s = []"; simp)+
  have run: "\<forall>x \<in> set (evs @ [e]). e_run_id x = rd_run_id s' \<and> e_run_id x \<noteq> []"
  proof -
    have "e_run_id x = rd_run_id s' \<and> e_run_id x \<noteq> []" if "x \<in> set (evs @ [e])" for x
    proof (cases "x = e")
      case False
      with that have x: "x \<in> set evs" by simp
      then have "rd_run_id s \<noteq> []" using runs(2) by auto
      moreover from this have "rd_run_id s' = rd_run_id s" using f(3) by simp
      ultimately show ?thesis using bspec [OF runs(1) x] by simp
    qed (use id in simp)
    then show ?thesis by blast
  qed
  have first: "evs = [] \<longleftrightarrow> e_type e = EventRunStarted"
    using begun(1) f(1) reduce_event_start [OF step] unfolding admitted_def by blast
  have plan: "e_type (hd (evs @ [e])) = EventRunStarted \<and> e_plan_id (hd (evs @ [e])) = pl_id p"
    using begun(2) first reduce_event_start [OF step] by (cases evs) auto
  have rest: "\<forall>x \<in> set (tl (evs @ [e])). e_type x \<noteq> EventRunStarted"
    using begun(3) first by (cases evs) auto
  have cancel: "rd_cancelled s' \<longleftrightarrow> (\<exists>x \<in> set (evs @ [e]). e_type x = EventRunCancelled)"
    using over f(6) by auto
  have "length (evs @ [e]) < 2 ^ 64" using n by simp
  with order following run plan rest cancel id f(4,5) show ?thesis unfolding header_ok_def by simp
qed

lemma header_invariant: "reduces p evs s \<Longrightarrow> header_ok p evs s"
proof (induction evs arbitrary: s rule: rev_induct)
  case Nil
  then show ?case by (auto simp: header_ok_def initial_reducer_def)
next
  case (snoc e evs)
  then show ?case by (auto simp: for_each_snoc_Inr intro: header_step)
qed

section \<open>Dependencies first\<close>

definition waiting_state :: "normalized_state \<Rightarrow> bool" where
  "waiting_state s \<longleftrightarrow> s = StatePlanned \<or> s = StateCancelled"

lemma operation_step_waiting:
  assumes step: "operation_step ops e m = Inr m'" and inv: "op_inv m" and state: "waiting_state (os_state m)"
  shows "waiting_state (os_state m') \<and> (os_state m' = StatePlanned \<longrightarrow> os_state m = StatePlanned)"
proof -
  have quiet: "\<not> os_reconcile_required m" "\<not> mo_reconciling m" "\<not> mo_dispatched m" "\<not> startable m"
      "os_state m \<noteq> StateRunning" "os_state m \<noteq> StateReady" "os_state m \<noteq> StateWaitingExternal"
    using inv state by (auto simp: op_inv_def startable_def waiting_state_def)
  from step show ?thesis
    by (cases rule: operation_step_elim)
      (use state quiet in \<open>auto simp: step_defs waiting_state_def split: if_splits option.splits\<close>)
qed

lemma operation_step_planned:
  "operation_step ops e m = Inr m' \<Longrightarrow> payload_validate (e_type e) (e_payload e) = None \<Longrightarrow>
     os_state m' = StatePlanned \<Longrightarrow> os_state m = StatePlanned"
proof (erule operation_step_elim)
  assume "e_type e = EventOperationResult" "step_operation_result e m = Inr m'"
    "payload_validate (e_type e) (e_payload e) = None" "os_state m' = StatePlanned"
  then show ?thesis
    using validate_operation_result [of "e_payload e"]
    by (auto simp: step_operation_result_def Let_def split: if_splits)
next
  assume "e_type e = EventReconcileResult" "step_reconcile_result e m = Inr m'"
    "payload_validate (e_type e) (e_payload e) = None" "os_state m' = StatePlanned"
  then show ?thesis
    using validate_reconcile_result [of "e_payload e"]
    by (auto simp: step_reconcile_result_def Let_def split: if_splits)
next
  assume t: "e_type e \<in> {EventOperationWaitingExternal, EventOperationPublished, EventOperationRejected, EventOperationFailed}"
    and "step_explicit_result e m = Inr m'" "os_state m' = StatePlanned"
  moreover have "fst (explicit_result_state (e_type e)) \<noteq> StatePlanned" using t by auto
  ultimately show ?thesis
    by (auto simp: step_explicit_result_def Let_def split: if_splits)
qed (auto simp: step_ready_def step_lease_acquired_def step_lease_renewed_def step_lease_expired_def
  step_lease_released_def step_operation_cancelled_def step_attempt_started_def
  step_credential_resolved_def step_provider_started_def step_dispatched_def
  step_provider_response_def step_outcome_ambiguous_def step_reconcile_started_def step_retry_authorized_def
  with_lease_def set_lease_def split: if_splits option.splits)

lemma published_grows:
  assumes "reduces p evs s" and "reduce_event p s e = Inr s'"
  shows "published (rd_operations s) \<subseteq> published (rd_operations s')"
proof
  fix k assume "k \<in> published (rd_operations s)"
  then obtain m where m: "map_of (rd_operations s) k = Some m" "os_state m = StatePublished"
    by (auto simp: published_def)
  obtain m' where m': "map_of (rd_operations s') k = Some m'"
    "op_move (rd_operations s) (published (rd_operations s')) k e m m'"
    using reduce_event_op_move [OF assms(2) reduces_distinct [OF assms(1)] m(1)] by blast
  have "same_outcome m m'"
    using op_move_final [OF m'(2) reduces_op_inv [OF assms(1) m(1)]] m(2) by (simp add: final_state_def)
  with m m'(1) show "k \<in> published (rd_operations s')" by (auto simp: published_def same_outcome_def)
qed

text \<open>Whatever left the planned state without being cancelled has all its dependencies published.\<close>

lemma dependencies_invariant:
  assumes "reduces p evs s" and "map_of (rd_operations s) i = Some m" and "\<not> waiting_state (os_state m)"
  shows "set (mo_dependencies m) \<subseteq> published (rd_operations s)"
  using assms
proof (induction evs arbitrary: s m rule: rev_induct)
  case Nil
  then show ?case using initial_operations_at [of p i m]
    by (auto simp: initial_reducer_def initial_operation_def waiting_state_def simp del: map_of_eq_Some_iff)
next
  case (snoc e evs)
  from reduces_snoc_op [OF snoc.prems(1,2)] obtain t n where t: "reduces p evs t" "reduce_event p t e = Inr s"
    and n: "map_of (rd_operations t) i = Some n"
    and move: "op_move (rd_operations t) (published (rd_operations s)) i e n m" by blast
  have deps: "mo_dependencies m = mo_dependencies n" using op_move_static [OF move] by (simp add: same_static_def)
  note inv = reduces_op_inv [OF t(1) n]
  have "\<not> waiting_state (os_state n) \<or> set (mo_dependencies n) \<subseteq> published (rd_operations s)"
    using move
  proof cases
    case (own m1)
    from own(6) consider "m = m1" | "set (mo_dependencies m1) \<subseteq> published (rd_operations s)"
      by (auto simp: readied_def)
    then show ?thesis
    proof cases
      case 1
      then show ?thesis using operation_step_waiting [OF own(5) inv] snoc.prems(3) by blast
    next
      case 2
      then show ?thesis using operation_step_static [OF own(5)] by (simp add: same_static_def)
    qed
  qed (use snoc.prems(3) in \<open>auto simp: readied_def cancel_operation_def waiting_state_def split: if_splits\<close>)
  with snoc.IH [OF t(1) n] published_grows [OF t] deps show ?case by (metis subset_trans)
qed

lemma operation_step_unrefreshed:
  assumes step: "operation_step ops e m = Inr m'" and inv: "op_inv m" and "\<not> refreshes (e_type e)"
  shows "os_state m' = StatePublished \<longleftrightarrow> os_state m = StatePublished"
proof
  assume "os_state m = StatePublished"
  then show "os_state m' = StatePublished"
    using operation_step_final [OF step inv] by (simp add: final_state_def same_outcome_def)
next
  assume "os_state m' = StatePublished"
  moreover have "reported_state e = None"
    using assms(3) by (cases "e_type e") (simp_all add: reported_state_def)
  ultimately show "os_state m = StatePublished" using operation_step_published [OF step] by auto
qed

text \<open>No operation stays planned once its dependencies are published.\<close>

lemma planned_waits:
  assumes "reduces p evs s" and "map_of (rd_operations s) i = Some m"
    and "evs \<noteq> []" and "os_state m = StatePlanned"
  shows "\<not> set (mo_dependencies m) \<subseteq> published (rd_operations s)"
  using assms
proof (induction evs arbitrary: s m rule: rev_induct)
  case (snoc e evs)
  from reduces_snoc_op [OF snoc.prems(1,2)] obtain t n where t: "reduces p evs t" "reduce_event p t e = Inr s"
    and n: "map_of (rd_operations t) i = Some n"
    and move: "op_move (rd_operations t) (published (rd_operations s)) i e n m" by blast
  note dist = reduces_distinct [OF t(1)]
  have refreshed: "\<not> set (mo_dependencies m) \<subseteq> published (rd_operations s)"
    if ops: "rd_operations s = refresh_ready ops" and keys: "distinct (map fst ops)" for ops
  proof -
    from snoc.prems(2) obtain x where x: "map_of ops i = Some x" "m = make_ready ops x"
      unfolding ops by (auto simp: map_of_refresh_ready keys simp del: map_of_eq_Some_iff)
    with snoc.prems(4) show ?thesis by (auto simp: ops keys make_ready_state split: if_splits)
  qed
  from t(2) show ?case
  proof (cases rule: reduce_event_elim)
    case started
    then show ?thesis using refreshed dist by simp
  next
    case completed
    then have "map_of (rd_operations s) i = Some n" using n by simp
    then have "n = m" using snoc.prems(2) by simp
    moreover have "evs \<noteq> []" using completed(1,2) header_invariant [OF t(1)]
      by (auto simp: header_ok_def admitted_def)
    ultimately show ?thesis using snoc.IH [OF t(1) n] snoc.prems(4) completed(4) by simp
  next
    case cancelled
    then have "op_inv n" "m = cancel_operation n" using reduces_op_inv [OF t(1) n] move
      by (auto elim!: op_moveE simp: concerns_def is_run_event_def)
    with snoc.prems(4) show ?thesis by (auto simp: cancel_operation_def op_inv_def split: if_splits)
  next
    case (operation ops)
    from operation(3) obtain x x' where x: "map_of (rd_operations t) (e_operation_id e) = Some x"
        "operation_step (rd_operations t) e x = Inr x'"
      and ops: "ops = (if refreshes (e_type e)
        then refresh_ready (adjust (e_operation_id e) (\<lambda>_. x') (rd_operations t))
        else adjust (e_operation_id e) (\<lambda>_. x') (rd_operations t))"
      by (auto simp: update_operation_Inr simp del: map_of_eq_Some_iff)
    show ?thesis
    proof (cases "refreshes (e_type e)")
      case True
      then show ?thesis using refreshed operation(4) ops dist by simp
    next
      case False
      then have s: "rd_operations s = adjust (e_operation_id e) (\<lambda>_. x') (rd_operations t)"
        using operation(4) ops by simp
      have same: "published (rd_operations s) = published (rd_operations t)"
        using operation_step_unrefreshed [OF x(2) reduces_op_inv [OF t(1) x(1)] False] x(1)
        by (auto simp: s in_published simp del: map_of_eq_Some_iff split: if_splits)
      have "evs \<noteq> []" using operation(1,2) header_invariant [OF t(1)]
        by (auto simp: header_ok_def admitted_def is_run_event_def)
      moreover have "os_state n = StatePlanned"
      proof (cases "i = e_operation_id e")
        case True
        then have "n = x" "m = x'" using n x(1) snoc.prems(2) s by auto
        then show ?thesis
          using operation_step_planned [OF x(2)] snoc.prems(4) operation(1,2) event_validate_payload [of e]
          by (simp add: admitted_def)
      next
        case False
        then show ?thesis using n snoc.prems(2,4) s by simp
      qed
      ultimately show ?thesis
        using snoc.IH [OF t(1) n] same op_move_static [OF move] by (simp add: same_static_def)
    qed
  qed
qed simp

end
