(* ===== verification/Journal_Targets.thy ===== *)
theory Journal_Targets
  imports Journal_Run
begin

text \<open>
  The states of targets, the completion and the cancellation of a run, and the errors of the reducer.
\<close>

section \<open>Targets\<close>

lemma target_operations_fold:
  "map_of (foldl (\<lambda>m op. map_insert (op_target_id op)
        ((case map_of m (op_target_id op) of None \<Rightarrow> [] | Some ids \<Rightarrow> ids) @ [op_id op]) m) m0 ops) t =
     (if (\<exists>op \<in> set ops. op_target_id op = t)
      then Some ((case map_of m0 t of None \<Rightarrow> [] | Some ids \<Rightarrow> ids)
             @ map op_id (filter (\<lambda>op. op_target_id op = t) ops))
      else map_of m0 t)"
proof (induction ops arbitrary: m0)
  case (Cons op ops)
  show ?case
    using Cons.IH [of "map_insert (op_target_id op)
      ((case map_of m0 (op_target_id op) of None \<Rightarrow> [] | Some ids \<Rightarrow> ids) @ [op_id op]) m0"]
    by (auto split: option.splits)
qed simp

lemma target_fold:
  "map_of (foldl (\<lambda>m t. map_insert (tgt_id t) [] m) m0 ts) i =
     (if i \<in> tgt_id ` set ts then Some [] else map_of m0 i)"
  by (induction ts arbitrary: m0) auto

lemma target_operations_at:
  assumes "i \<in> tgt_id ` set (pl_targets p)"
  shows "map_of (target_operations p) i = Some (map op_id (filter (\<lambda>op. op_target_id op = i) (pl_operations p)))"
proof -
  have none: "\<not> (\<exists>op \<in> set (pl_operations p). op_target_id op = i) \<Longrightarrow>
      filter (\<lambda>op. op_target_id op = i) (pl_operations p) = []" by auto
  show ?thesis
    using assms none unfolding target_operations_def target_operations_fold target_fold by auto
qed

lemma foldl_map_insert_distinct:
  "distinct (map fst m0) \<Longrightarrow> distinct (map fst (foldl (\<lambda>m x. map_insert (k x) (v m x) m) m0 xs))"
  by (induction xs arbitrary: m0) simp_all

lemma target_operations_distinct [simp]: "distinct (map fst (target_operations p))"
  unfolding target_operations_def by (intro foldl_map_insert_distinct) simp

lemma derive_target_id [simp]: "ts_id (derive_target b ops t) = fst t"
  by (simp add: derive_target_def split_beta Let_def)

lemma derived_target_at:
  "derived_target (derived_of p s) i =
     map_option (\<lambda>ids. derive_target (rd_started s) (rd_operations s) (i, ids)) (map_of (target_operations p) i)"
proof -
  let ?f = "derive_target (rd_started s) (rd_operations s)"
  let ?xs = "map ?f (target_operations p)"
  have dist: "distinct (map ts_id ?xs)" by (simp add: comp_def)
  have dist': "distinct (map ts_id (sort_key ts_id ?xs))"
    using dist by (metis distinct_map distinct_sort set_sort)
  have "derived_target (derived_of p s) i = map_of (map (\<lambda>x. (ts_id x, x)) (sort_key ts_id ?xs)) i"
    unfolding derived_target_def derived_of_def Let_def derived_state.select_convs derive_targets_def
    by (rule search_sorted [OF _ dist']) simp
  also have "\<dots> = map_of (map (\<lambda>x. (ts_id x, x)) ?xs) i"
    by (intro map_of_key_set dist dist') simp
  also have "map (\<lambda>x. (ts_id x, x)) ?xs = map (\<lambda>(k, ids). (k, ?f (k, ids))) (target_operations p)"
    by (auto simp: comp_def)
  also have "map_of \<dots> i = map_option (\<lambda>ids. ?f (i, ids)) (map_of (target_operations p) i)"
    by (rule map_of_map_pair)
  finally show ?thesis .
qed

text \<open>
  \<open>aggregateTarget\<close> is the worst state of the target's operations in the order of \<open>target_precedence\<close>,
  and published only when all of them are.
\<close>

lemma aggregate_target_published:
  assumes "ids \<noteq> []"
  shows "aggregate_target ids ops = StatePublished \<longleftrightarrow> (\<forall>i \<in> set ids. operation_state_at ops i = StatePublished)"
proof -
  have "(case filter f target_precedence of [] \<Rightarrow> StatePlanned | s # _ \<Rightarrow> s) \<noteq> StatePublished" for f
    by (simp add: target_precedence_def)
  then show ?thesis by (auto simp: aggregate_target_def Let_def list_all_iff)
qed

lemma aggregate_target_worst:
  assumes "k < length target_precedence" and "i \<in> set ids" and "operation_state_at ops i = target_precedence ! k"
    and "\<And>j s. j \<in> set ids \<Longrightarrow> s \<in> set (take k target_precedence) \<Longrightarrow> operation_state_at ops j \<noteq> s"
  shows "aggregate_target ids ops = target_precedence ! k"
proof -
  let ?states = "operation_state_at ops ` set ids"
  have "filter (\<lambda>s. s \<in> ?states) (take k target_precedence) = []"
    using assms(4) by (fastforce simp: filter_empty_conv)
  moreover have "target_precedence = take k target_precedence @ target_precedence ! k # drop (Suc k) target_precedence"
    using assms(1) by (rule id_take_nth_drop)
  ultimately have "filter (\<lambda>s. s \<in> ?states) target_precedence =
      target_precedence ! k # filter (\<lambda>s. s \<in> ?states) (drop (Suc k) target_precedence)"
    using assms(2,3) by (metis (no_types, lifting) append_Nil filter.simps(2) filter_append image_eqI)
  moreover have "StatePublished \<notin> set target_precedence" by (simp add: target_precedence_def)
  then have "operation_state_at ops i \<noteq> StatePublished" using assms(1,3) nth_mem by fastforce
  ultimately show ?thesis using assms(2) by (auto simp: aggregate_target_def Let_def list_all_iff)
qed

section \<open>Completion and cancellation\<close>

lemma completed_ends:
  "for_each (reduce_event p) s evs = Inr s' \<Longrightarrow> rd_completed s \<Longrightarrow> evs = []"
  by (cases evs) (auto simp: bind_result_Inr dest!: admitted_facts(1) simp: admitted_def)

lemma quiescent_at:
  "all_quiescent ops \<Longrightarrow> map_of ops i = Some m \<Longrightarrow>
     terminal_state (os_state m) \<and> \<not> os_reconcile_required m \<and> \<not> os_lease_active m"
  by (auto simp: all_quiescent_def list_all_iff dest!: map_of_SomeD)

lemma cancelled_allows:
  "for_each (reduce_event p) s evs = Inr s' \<Longrightarrow> rd_cancelled s \<Longrightarrow> e \<in> set evs \<Longrightarrow>
     allowed_after_run_cancellation (e_type e)"
proof (induction evs arbitrary: s)
  case (Cons x evs)
  from Cons.prems(1) obtain t where t: "reduce_event p s x = Inr t" "for_each (reduce_event p) t evs = Inr s'"
    by (auto simp: bind_result_Inr)
  have "rd_cancelled t" "allowed_after_run_cancellation (e_type x)"
    using admitted_facts [OF t(1)] Cons.prems(2) by (auto simp: admitted_def)
  with Cons.IH [OF t(2)] Cons.prems(3) show ?case by auto
qed simp

section \<open>Errors of the reducer\<close>

text \<open>A check that reports only errors other than a nil dereference.\<close>

definition no_panic :: "error option \<Rightarrow> bool" where
  "no_panic c \<longleftrightarrow> (case c of None \<Rightarrow> True | Some e \<Rightarrow> \<not> errors_is e NilDereference)"

lemma no_panic_simps [simp]:
  "no_panic None" "no_panic (Some e) \<longleftrightarrow> \<not> errors_is e NilDereference"
  "no_panic (fail_if b e) \<longleftrightarrow> \<not> b \<or> \<not> errors_is e NilDereference"
  by (simp_all add: no_panic_def fail_if_def)

lemma no_panic_first_error: "list_all no_panic cs \<Longrightarrow> no_panic (first_error cs)"
  by (induction cs rule: first_error.induct) simp_all

lemma no_panic_text [simp]: "no_panic (validate_text256 n v b)"
  unfolding validate_text256_def by (auto intro!: no_panic_first_error simp: check_control_def split: option.splits)

lemma no_panic_evidence [simp]: "no_panic (validate_evidence raw)"
  unfolding validate_evidence_def by (auto intro!: no_panic_first_error split: option.splits)

lemma no_panic_payload [simp]: "no_panic (payload_validate t p)"
proof -
  have "no_panic (lease_event_error t p)"
    unfolding lease_event_error_def lease_validate_def
    by (auto intro!: no_panic_first_error split: option.splits)
  moreover have "no_panic (switch_error t p)"
    by (cases t)
      (simp_all add: cancelled_event_error_def credential_event_error_def attempt_event_error_def
        explicit_result_error_def result_event_error_def result_head_error_def Let_def no_panic_first_error)
  moreover have "no_panic (common_error t p)"
    unfolding common_error_def by (intro no_panic_first_error) simp
  ultimately show ?thesis
    unfolding payload_validate_def by (auto intro!: no_panic_first_error)
qed

lemma no_panic_admission: "no_panic (event_admission_error s e)"
  unfolding event_admission_error_def event_validate_def entry_validate_def
  by (auto intro!: no_panic_first_error)

lemma operation_step_no_panic:
  assumes "operation_step ops e m = Inl err" and "payload_validate (e_type e) (e_payload e) = None"
  shows "\<not> errors_is err NilDereference"
proof (cases "is_lease_event (e_type e)")
  case True
  then obtain l where "pay_lease (e_payload e) = Some l" using validate_lease_event [OF assms(2)] by blast
  with True assms(1) show ?thesis
    unfolding operation_step_def
    by (cases "e_type e")
      (auto simp: step_lease_acquired_def step_lease_renewed_def step_lease_expired_def
        step_lease_released_def with_lease_def split: if_splits)
next
  case False
  with assms(1) show ?thesis
    unfolding operation_step_def
    by (cases "e_type e") (auto simp: step_ready_def step_operation_cancelled_def step_attempt_started_def
      step_credential_resolved_def step_provider_started_def step_dispatched_def step_provider_response_def
      step_outcome_ambiguous_def step_explicit_result_def step_operation_result_def step_reconcile_started_def
      step_retry_authorized_def step_reconcile_result_def Let_def split: if_splits)
qed

lemma reduce_event_no_panic:
  assumes "reduce_event p s e = Inl err"
  shows "\<not> errors_is err NilDereference"
proof (cases "event_admission_error s e")
  case (Some x)
  with assms no_panic_admission [of s e] show ?thesis by (simp add: reduce_event_def bind_checked)
next
  case None
  then have valid: "\<not> is_run_event (e_type e) \<Longrightarrow> payload_validate (e_type e) (e_payload e) = None"
    using event_validate_payload by (simp add: event_admission_iff admitted_def)
  have update: "\<not> errors_is err NilDereference"
    if "update_operation e (rd_operations s) = Inl err" "\<not> is_run_event (e_type e)"
    using that operation_step_no_panic [OF _ valid]
    by (auto simp: update_operation_def event_operation_def bind_result_def Let_def split: option.splits if_splits sum.splits)
  show ?thesis
  proof (cases "is_run_event (e_type e)")
    case True
    with assms None show ?thesis
      by (auto simp: reduce_event_def bind_checked apply_event_def is_run_event_def split: if_splits)
  next
    case False
    with assms None have "update_operation e (rd_operations s) = Inl err"
      unfolding reduce_event_def bind_checked apply_event_def is_run_event_def
      by (cases "e_type e") (auto simp: bind_result_def split: sum.splits)
    with update False show ?thesis by blast
  qed
qed

lemma for_each_no_panic:
  "for_each (reduce_event p) s evs = Inl err \<Longrightarrow> \<not> errors_is err NilDereference"
  by (induction evs arbitrary: s) (auto simp: bind_result_def dest: reduce_event_no_panic split: sum.splits)

end
