(* ===== verification/Journal_Demo.thy ===== *)
theory Journal_Demo
  imports Journal_Targets
begin

text \<open>
  A concrete plan of two operations and two journals over it, evaluated once, on which the witnesses of
  the reducer's properties rest: a release whose first dispatch was lost, observed absent and retried,
  and a cancelled run.
\<close>

definition demo_operation :: "string \<Rightarrow> bool \<Rightarrow> string list \<Rightarrow> operation" where
  "demo_operation i effects deps =
     \<lparr>op_id = i, op_target_id = ''t'', op_provider = \<lparr>provider_name = ''npm'', provider_version = ''1''\<rparr>,
      op_kind = ''publish'', op_dependencies = deps, op_side_effecting = effects,
      op_idempotency_key = ''k'', op_timeout = 1, op_provider_payload = ''{}''\<rparr>"

definition demo_target :: target where
  "demo_target = \<lparr>tgt_id = ''t'', tgt_provider = \<lparr>provider_name = ''npm'', provider_version = ''1''\<rparr>,
     tgt_configuration = ''{}'', tgt_requirements = []\<rparr>"

definition demo_plan :: plan where
  "demo_plan = \<lparr>pl_id = ''p'', pl_schema_version = ''1'', pl_protocol_version = ''1'',
     pl_release = \<lparr>rel_id = ''r'', rel_artifacts = []\<rparr>, pl_targets = [demo_target],
     pl_operations = [demo_operation ''a'' True [], demo_operation ''b'' False [''a'']]\<rparr>"

definition run_event :: "64 word \<Rightarrow> event_type \<Rightarrow> plan_id \<Rightarrow> event" where
  "run_event n t i = \<lparr>e_schema_version = 2, e_sequence = n, e_run_id = ''x'', e_plan_id = i, e_type = t,
     e_operation_id = [], e_target_id = [], e_observed_at = 1, e_payload = no_payload\<rparr>"

definition op_event :: "64 word \<Rightarrow> event_type \<Rightarrow> operation_id \<Rightarrow> payload \<Rightarrow> event" where
  "op_event n t i pay = \<lparr>e_schema_version = 2, e_sequence = n, e_run_id = ''x'', e_plan_id = [], e_type = t,
     e_operation_id = i, e_target_id = ''t'', e_observed_at = 1, e_payload = pay\<rparr>"

definition attempt_payload :: "32 word \<Rightarrow> payload" where
  "attempt_payload n = no_payload\<lparr>pay_attempt := n\<rparr>"

definition absent_payload :: "32 word \<Rightarrow> payload" where
  "absent_payload n = no_payload\<lparr>pay_attempt := n, pay_state := StateWaitingExternal, pay_provider_state := ''absent''\<rparr>"

definition demo_start :: "event list" where
  "demo_start = [run_event 1 EventRunStarted ''p'',
     op_event 2 EventAttemptStarted ''a'' (attempt_payload 1)]"

definition demo_lost :: event where
  "demo_lost = op_event 3 EventSideEffectDispatched ''a'' (attempt_payload 1)"

definition demo_reconciled :: "event list" where
  "demo_reconciled = [op_event 4 EventReconcileStarted ''a'' (attempt_payload 1),
     op_event 5 EventReconcileResult ''a'' (absent_payload 1)]"

definition demo_retry :: event where
  "demo_retry = op_event 6 EventRetryAuthorized ''a'' (attempt_payload 1)"

definition demo_again :: event where
  "demo_again = op_event 7 EventAttemptStarted ''a'' (attempt_payload 2)"

definition demo_published :: "event list" where
  "demo_published = [op_event 8 EventSideEffectDispatched ''a'' (attempt_payload 2),
     op_event 9 EventOperationPublished ''a'' (attempt_payload 2)]"

definition demo_dependent :: event where
  "demo_dependent = op_event 10 EventAttemptStarted ''b'' (attempt_payload 1)"

definition demo_end :: "event list" where
  "demo_end = [op_event 11 EventOperationPublished ''b'' (attempt_payload 1), run_event 12 EventRunCompleted []]"

definition demo_journal :: "event list" where
  "demo_journal = demo_start @ demo_lost # demo_reconciled @ demo_retry # demo_again # demo_published
     @ demo_dependent # demo_end"

lemmas demo_defs = demo_plan_def demo_operation_def demo_target_def run_event_def op_event_def
  attempt_payload_def absent_payload_def no_payload_def

lemmas admission_eval = event_admission_error_def event_validate_def entry_validate_def event_entry_def
  payload_validate_def attempt_event_error_def result_event_error_def result_head_error_def
  explicit_result_error_def common_error_def schema_version_def is_run_event_def
  payload_empty_except_attempt_def valid_result_category_def fail_if_def

lemma text256_eval:
  "validate_text256 n [] True = None"
  "list_all printable v \<Longrightarrow> v \<noteq> [] \<Longrightarrow> length v \<le> 256 \<Longrightarrow> validate_text256 n v b = None"
  using printable_identifier [of v] validate_text256_valid [of n v]
  by (simp_all add: validate_text256_def)

lemmas reduce_eval = reduce_event_def admission_eval demo_defs text_eval text256_eval
  initial_reducer_def initial_operations_def initial_operation_def apply_event_def update_operation_def
  event_operation_def operation_step_def step_defs refresh_ready_def dependencies_published_def adjust_def
  startable_def all_quiescent_def terminal_state_def cancel_remaining_def cancel_operation_def
  bind_checked Let_def

lemmas demo_journal_defs = demo_journal_def demo_start_def demo_lost_def demo_reconciled_def demo_retry_def
  demo_again_def demo_published_def demo_dependent_def demo_end_def

lemma demo_reduces:
  "\<exists>s m n. reduces demo_plan demo_journal s \<and> rd_started s \<and> map_of (rd_operations s) ''a'' = Some m
     \<and> os_state m = StatePublished \<and> map_of (rd_operations s) ''b'' = Some n \<and> os_state n = StatePublished"
  by (simp add: demo_journal_defs reduce_eval)

definition demo_state :: derived_state where
  "demo_state = projr (reduce demo_plan demo_journal)"

lemma demo_plan_valid: "valid_identifier (pl_id demo_plan)"
  by (simp add: demo_plan_def text_eval)

lemma demo_reduce: "reduce demo_plan demo_journal = Inr demo_state"
proof -
  obtain s where "reduces demo_plan demo_journal s" using demo_reduces by blast
  then show ?thesis by (simp add: demo_state_def reduce_def demo_plan_valid)
qed

lemma demo_operation_published:
  assumes "i = ''a'' \<or> i = ''b''"
  obtains o1 where "derived_operation demo_state i = Some o1" "os_state o1 = StatePublished"
proof -
  obtain s m n where s: "reduces demo_plan demo_journal s" "map_of (rd_operations s) ''a'' = Some m"
    "os_state m = StatePublished" "map_of (rd_operations s) ''b'' = Some n" "os_state n = StatePublished"
    using demo_reduces by blast
  then have d: "demo_state = derived_of demo_plan s" by (simp add: demo_state_def reduce_def demo_plan_valid)
  have at: "derived_operation demo_state j = map_option operation_state.truncate (map_of (rd_operations s) j)" for j
    unfolding d by (rule derived_operation_at [OF s(1)])
  have "derived_operation demo_state ''a'' = Some (operation_state.truncate m)"
    "derived_operation demo_state ''b'' = Some (operation_state.truncate n)"
    unfolding at s(2,4) by simp_all
  with s(3,5) assms that show thesis by fastforce
qed

text \<open>A run cancelled while the outcome of its first dispatch is unknown.\<close>

definition cancelled_start :: "event list" where
  "cancelled_start = demo_start @ [demo_lost]"

definition cancelled_rest :: "event list" where
  "cancelled_rest = [op_event 5 EventReconcileStarted ''a'' (attempt_payload 1),
     op_event 6 EventReconcileResult ''a'' (absent_payload 1)]"

lemma cancelled_reduces:
  "\<exists>s. reduces demo_plan (cancelled_start @ run_event 4 EventRunCancelled [] # cancelled_rest) s"
  by (simp add: cancelled_start_def cancelled_rest_def demo_journal_defs reduce_eval)

lemma cancelled_reduce:
  "\<exists>d. reduce demo_plan (cancelled_start @ run_event 4 EventRunCancelled [] # cancelled_rest) = Inr d"
  using cancelled_reduces by (auto simp: reduce_def demo_plan_valid)

text \<open>
  A reconciliation that records an absence, then one that ends with \<open>OPERATION_WAITING_EXTERNAL\<close> and
  another provider state, then a retry authorization.
\<close>

definition stale_journal :: "event list" where
  "stale_journal = demo_start @ demo_lost # demo_reconciled @
     [op_event 6 EventReconcileStarted ''a'' (attempt_payload 1),
      op_event 7 EventOperationWaitingExternal ''a'' (no_payload\<lparr>pay_attempt := 1, pay_provider_state := ''queued''\<rparr>),
      op_event 8 EventRetryAuthorized ''a'' (attempt_payload 1)]"

lemma stale_reduces:
  "\<exists>s m. reduces demo_plan stale_journal s \<and> map_of (rd_operations s) ''a'' = Some m \<and> os_state m = StateReady"
  by (simp add: stale_journal_def demo_journal_defs reduce_eval)

end
