(* ===== verification/Journal_Lifecycle.thy ===== *)
theory Journal_Lifecycle
  imports Journal_Run
begin

text \<open>
  What a run promises to the outside, without leases, readiness, evidence and error codes: an operation is idle,
  runs an attempt, has dispatched its side effect, waits for an outcome, or is closed.  The reducer implements
  this specification: read through \<open>phase_of\<close>, each accepted event is at most one step of it.
\<close>

section \<open>The specification\<close>

datatype phase =
    Idle attempt_number
  | Stopped attempt_number
  | Running attempt_number
  | Dispatched attempt_number
  | Pending attempt_number
  | Closed normalized_state

text \<open>What an answer about an attempt can leave the operation in.\<close>

definition conclusions :: "attempt_number \<Rightarrow> phase set" where
  "conclusions n = {Idle n, Stopped n, Pending n, Closed StatePublished, Closed StateRejected, Closed StateCancelled}"

text \<open>The steps of one operation, with side effects or without, whose dependencies are published or not.\<close>

inductive phase_step :: "bool \<Rightarrow> bool \<Rightarrow> phase \<Rightarrow> phase \<Rightarrow> bool" for effects available where
  start: "available \<Longrightarrow> phase_step effects available (Idle n) (Running (n + 1))"
| dispatch: "effects \<Longrightarrow> phase_step effects available (Running n) (Dispatched n)"
| answered: "\<not> effects \<Longrightarrow> c \<in> conclusions n \<Longrightarrow> phase_step effects available (Running n) c"
| given_up: "c \<in> {Idle n, Stopped n, Closed StateCancelled} \<Longrightarrow> phase_step effects available (Running n) c"
| learnt: "ph = Dispatched n \<or> ph = Pending n \<Longrightarrow> c \<in> conclusions n \<Longrightarrow> phase_step effects available ph c"
| withdrawn: "phase_step effects available (Idle n) (Closed StateCancelled)"

inductive_cases phase_stepE: "phase_step effects available ph ph'"

text \<open>The cancellation of a run closes what is not out of its hands.\<close>

fun cancelled_phase :: "phase \<Rightarrow> phase" where
  "cancelled_phase (Idle n) = Closed StateCancelled"
| "cancelled_phase (Stopped n) = Closed StateCancelled"
| "cancelled_phase (Running n) = Closed StateCancelled"
| "cancelled_phase ph = ph"

type_synonym phases = "operation_id \<Rightarrow> phase option"

definition available :: "phases \<Rightarrow> operation \<Rightarrow> bool" where
  "available \<Phi> op \<longleftrightarrow> (\<forall>d \<in> set (op_dependencies op). \<Phi> d = Some (Closed StatePublished))"

inductive lifecycle :: "plan \<Rightarrow> phases \<Rightarrow> phases \<Rightarrow> bool" for p where
  operation: "op \<in> set (pl_operations p) \<Longrightarrow> \<Phi> (op_id op) = Some ph \<Longrightarrow>
    phase_step (op_side_effecting op) (available \<Phi> op) ph ph' \<Longrightarrow> lifecycle p \<Phi> (\<Phi>(op_id op \<mapsto> ph'))"
| run_cancelled: "lifecycle p \<Phi> (map_option cancelled_phase \<circ> \<Phi>)"

definition initial_phases :: "plan \<Rightarrow> phases" where
  "initial_phases p i = (if i \<in> op_id ` set (pl_operations p) then Some (Idle 0) else None)"

section \<open>What the specification guarantees\<close>

text \<open>Closed is closed, and a side effect is published only after it was dispatched.\<close>

lemma lifecycle_closed: "lifecycle p \<Phi> \<Psi> \<Longrightarrow> \<Phi> i = Some (Closed st) \<Longrightarrow> \<Psi> i = Some (Closed st)"
  by (induction rule: lifecycle.induct) (auto elim: phase_stepE)

lemma lifecycle_published:
  assumes "lifecycle p \<Phi> \<Psi>" and "\<Phi> i \<noteq> Some (Closed StatePublished)" and "\<Psi> i = Some (Closed StatePublished)"
  shows "\<exists>op \<in> set (pl_operations p). op_id op = i \<and>
    (\<exists>n. \<Phi> i = Some (Dispatched n) \<or> \<Phi> i = Some (Pending n) \<or> (\<Phi> i = Some (Running n) \<and> \<not> op_side_effecting op))"
  using assms
proof (induction rule: lifecycle.induct)
  case (operation op \<Phi> ph ph')
  then show ?case by (auto elim!: phase_stepE simp: conclusions_def split: if_splits)
next
  case (run_cancelled \<Phi>)
  then obtain ph where "\<Phi> i = Some ph" "cancelled_phase ph = Closed StatePublished" by auto
  then show ?case using run_cancelled by (cases ph) auto
qed

section \<open>The abstraction\<close>

definition phase_of :: "'a operation_state_scheme \<Rightarrow> phase" where
  "phase_of o1 = (if final_state (os_state o1) then Closed (os_state o1)
     else if os_state o1 = StateWaitingExternal then Pending (os_attempt o1)
     else if os_state o1 = StateRunning then (if os_reconcile_required o1 then Dispatched (os_attempt o1) else Running (os_attempt o1))
     else if os_state o1 = StateFailed \<and> \<not> os_retryable o1 then Stopped (os_attempt o1)
     else Idle (os_attempt o1))"

definition phases_of :: "derived_state \<Rightarrow> phases" where
  "phases_of d i = map_option phase_of (derived_operation d i)"

lemma phase_of_cong:
  "os_state m' = os_state m \<and> os_attempt m' = os_attempt m \<and> os_reconcile_required m' = os_reconcile_required m
     \<and> os_retryable m' = os_retryable m \<Longrightarrow> phase_of m' = phase_of m"
  by (simp add: phase_of_def)

lemma phase_of_truncate [simp]: "phase_of (operation_state.truncate m) = phase_of m"
  by (simp add: phase_of_def)

lemma phases_of_at:
  "reduces p evs s \<Longrightarrow> phases_of (derived_of p s) i = map_option phase_of (map_of (rd_operations s) i)"
  by (simp add: phases_of_def derived_operation_at option.map_comp comp_def)

section \<open>One event\<close>

lemma phase_readied: "readied pub m m' \<Longrightarrow> phase_of m' = phase_of m"
  by (auto simp: readied_def phase_of_def final_state_def)

lemma phase_cancelled: "op_inv m \<Longrightarrow> phase_of (cancel_operation m) = cancelled_phase (phase_of m)"
  by (cases "os_state m") (auto simp: phase_of_def cancel_operation_def final_state_def op_inv_def)

lemma apply_result_phase:
  assumes "result_state (pay_state q)"
  shows "phase_of (apply_result q b m) \<in> conclusions (os_attempt m)"
    and "pay_state q \<in> {StateFailed, StateBlocked, StateCancelled} \<Longrightarrow>
      phase_of (apply_result q b m) \<in> {Idle (os_attempt m), Stopped (os_attempt m), Closed StateCancelled}"
  using assms by (cases "pay_state q"; auto simp: phase_of_def apply_result_def conclusions_def final_state_def)+

lemma apply_result_step:
  assumes "op_inv m" and "result_state (pay_state q)" and "os_reconcile_required m \<or> os_state m = StateRunning"
    and "mo_side_effecting m \<Longrightarrow> \<not> os_reconcile_required m \<Longrightarrow> pay_state q \<in> {StateFailed, StateBlocked, StateCancelled}"
  shows "phase_step (mo_side_effecting m) published_before (phase_of m) (phase_of (apply_result q b m))"
proof (cases "os_reconcile_required m")
  case True
  then have "phase_of m = Dispatched (os_attempt m) \<or> phase_of m = Pending (os_attempt m)"
    using assms(1) by (auto simp: phase_of_def op_inv_def final_state_def)
  then show ?thesis using apply_result_phase(1) [OF assms(2)] by (rule phase_step.learnt)
next
  case False
  then have "phase_of m = Running (os_attempt m)" using assms(3) by (simp add: phase_of_def final_state_def)
  then show ?thesis
    using apply_result_phase [OF assms(2), of b m] assms(4) False
    by (cases "mo_side_effecting m") (auto intro: phase_step.answered phase_step.given_up)
qed

lemma operation_step_phase:
  assumes step: "operation_step ops e m = Inr m'" and inv: "op_inv m"
    and valid: "payload_validate (e_type e) (e_payload e) = None"
  shows "phase_of m' = phase_of m \<or> phase_step (mo_side_effecting m) (dependencies_published m ops) (phase_of m) (phase_of m')"
  using step
proof (cases rule: operation_step_elim)
  case 7
  then have "phase_of m = Idle (os_attempt m)" "phase_of m' = Running (os_attempt m + 1)" "dependencies_published m ops"
    using inv by (auto simp: step_attempt_started_def phase_of_def startable_def final_state_def split: if_splits)
  then show ?thesis by (simp add: phase_step.start)
next
  case 10
  then have "phase_of m = Running (os_attempt m)" "phase_of m' = Dispatched (os_attempt m)" "mo_side_effecting m"
    using inv by (auto simp: step_dispatched_def phase_of_def final_state_def op_inv_def split: if_splits)
  then show ?thesis by (simp add: phase_step.dispatch)
next
  case 13
  let ?p = "(e_payload e)\<lparr>pay_state := fst (explicit_result_state (e_type e))\<rparr>"
  have "result_state (pay_state ?p)" using explicit_result_state_result [OF 13(1)] by simp
  moreover have "m' = apply_result ?p (mo_reconciling m) m" "os_reconcile_required m \<or> os_state m = StateRunning"
    "mo_side_effecting m \<Longrightarrow> \<not> os_reconcile_required m \<Longrightarrow> pay_state ?p = StateFailed"
    using 13(2) inv by (auto simp: step_explicit_result_def Let_def op_inv_def split: if_splits)
  ultimately show ?thesis
    using apply_result_step [OF inv, of ?p "dependencies_published m ops" "mo_reconciling m"] by (simp only: insert_iff simp_thms)
next
  case 14
  let ?m = "if pay_state (e_payload e) = StateBlocked then m\<lparr>os_blocked_attempts := os_blocked_attempts m + 1\<rparr> else m"
  have "result_state (pay_state (e_payload e))" using validate_operation_result valid 14(1) by simp
  moreover have "m' = apply_result (e_payload e) False ?m" "os_state m = StateRunning"
    "mo_side_effecting m \<Longrightarrow> \<not> os_reconcile_required m \<Longrightarrow> pay_state (e_payload e) \<in> {StateFailed, StateBlocked, StateCancelled}"
    using 14(2) inv by (auto simp: step_operation_result_def Let_def op_inv_def split: if_splits)
  moreover have "phase_of (apply_result q b (m\<lparr>os_blocked_attempts := k\<rparr>)) = phase_of (apply_result q b m)" for q b k
    by (simp add: phase_of_def apply_result_def)
  ultimately show ?thesis using apply_result_step [OF inv, of "e_payload e" "dependencies_published m ops" False] by (auto split: if_splits)
next
  case 17
  have "result_state (pay_state (e_payload e))" using validate_reconcile_result valid 17(1) by simp
  moreover have "phase_of m' = phase_of (apply_result (e_payload e) True m)" "os_reconcile_required m"
    using 17(2) by (auto simp: step_reconcile_result_def phase_of_def Let_def split: if_splits)
  ultimately show ?thesis using apply_result_step [OF inv, of "e_payload e" "dependencies_published m ops" True] by auto
next
  case 6
  then have "phase_of m = Idle (os_attempt m)" "phase_of m' = Closed StateCancelled"
    by (auto simp: step_operation_cancelled_def phase_of_def final_state_def split: if_splits)
  then show ?thesis by (simp add: phase_step.withdrawn)
next
  case 16
  then have "phase_of m = Pending (os_attempt m)" "phase_of m' = Idle (os_attempt m)"
    by (auto simp: step_retry_authorized_def phase_of_def final_state_def split: if_splits)
  then show ?thesis by (auto intro: phase_step.learnt simp: conclusions_def)
next
  case 12
  then have "os_state m = StateRunning" "os_state m' = StateRunning" "os_attempt m' = os_attempt m"
    "os_reconcile_required m" "os_reconcile_required m'"
    using inv by (auto simp: step_outcome_ambiguous_def op_inv_def split: if_splits)
  then show ?thesis by (simp add: phase_of_def final_state_def)
qed (auto simp: step_ready_def step_lease_acquired_def step_lease_renewed_def step_lease_expired_def
  step_lease_released_def step_credential_resolved_def step_provider_started_def step_provider_response_def
  step_reconcile_started_def with_lease_def set_lease_def intro!: phase_of_cong split: if_splits option.splits)

section \<open>The refinement\<close>

lemma plan_operation:
  assumes "reduces p evs s" and "map_of (rd_operations s) i = Some m"
  obtains op where "op \<in> set (pl_operations p)" "op_id op = i" "mo_dependencies m = op_dependencies op"
    "mo_side_effecting m = op_side_effecting op"
  using reduces_op_static [OF assms] that by (auto simp: same_static_def initial_operation_def)

lemma available_phases:
  assumes "reduces p evs s"
  shows "dependencies_published m (rd_operations s)
    \<longleftrightarrow> (\<forall>d \<in> set (mo_dependencies m). phases_of (derived_of p s) d = Some (Closed StatePublished))"
proof -
  have "phase_of n = Closed StatePublished \<longleftrightarrow> os_state n = StatePublished" for n :: mutable_operation
    by (auto simp: phase_of_def final_state_def)
  then show ?thesis
    by (auto simp: dependencies_published_def list_all_iff phases_of_at [OF assms] simp del: map_of_eq_Some_iff split: option.splits)
qed

lemma reduce_event_lifecycle:
  assumes s: "reduces p evs s" and e: "reduce_event p s e = Inr s'"
  shows "(lifecycle p)\<^sup>=\<^sup>= (phases_of (derived_of p s)) (phases_of (derived_of p s'))"
proof -
  have s': "reduces p (evs @ [e]) s'" using s e by (auto simp: for_each_snoc_Inr)
  let ?\<Phi> = "phases_of (derived_of p s)" and ?\<Psi> = "phases_of (derived_of p s')"
  have keys: "?\<Phi> i = None \<longleftrightarrow> ?\<Psi> i = None" for i
    using reduces_keys [OF s] reduces_keys [OF s']
    by (simp add: phases_of_at [OF s] phases_of_at [OF s'] map_of_eq_None_iff) (metis list.set_map)
  have moves: "\<exists>m m'. ?\<Phi> i = Some (phase_of m) \<and> ?\<Psi> i = Some (phase_of m') \<and> map_of (rd_operations s) i = Some m \<and> op_inv m
      \<and> op_move (rd_operations s) (published (rd_operations s')) i e m m'" if "?\<Phi> i \<noteq> None" for i
  proof -
    from that obtain m where m: "map_of (rd_operations s) i = Some m" by (auto simp: phases_of_at [OF s])
    with reduce_event_op_move [OF e reduces_distinct [OF s] m] reduces_op_inv [OF s m] show ?thesis
      by (auto simp: phases_of_at [OF s] phases_of_at [OF s'] simp del: map_of_eq_Some_iff)
  qed
  have other: "?\<Psi> i = ?\<Phi> i" if "\<not> concerns i e" "e_type e \<noteq> EventRunCancelled" for i
  proof (cases "?\<Phi> i")
    case None
    then show ?thesis using keys [of i] by simp
  next
    case (Some ph)
    with moves [of i] obtain m m' where m: "?\<Phi> i = Some (phase_of m)" "?\<Psi> i = Some (phase_of m')"
      "op_move (rd_operations s) (published (rd_operations s')) i e m m'" by auto
    from m(3) that show ?thesis by (cases rule: op_move.cases) (auto simp: m(1,2) phase_readied)
  qed
  consider "e_type e = EventRunCancelled" | "e_type e \<noteq> EventRunCancelled" "\<forall>i. \<not> concerns i e"
    | i where "e_type e \<noteq> EventRunCancelled" "concerns i e" by blast
  then show ?thesis
  proof cases
    case 1
    have "?\<Psi> i = map_option cancelled_phase (?\<Phi> i)" for i
    proof (cases "?\<Phi> i")
      case (Some ph)
      with moves [of i] obtain m m' where m: "?\<Phi> i = Some (phase_of m)" "?\<Psi> i = Some (phase_of m')" "op_inv m"
        "op_move (rd_operations s) (published (rd_operations s')) i e m m'" by auto
      from m(4) 1 show ?thesis by (cases rule: op_move.cases) (auto simp: m phase_cancelled concerns_def is_run_event_def)
    qed (use keys [of i] in simp)
    then have "?\<Psi> = map_option cancelled_phase \<circ> ?\<Phi>" by (simp add: fun_eq_iff)
    then show ?thesis by (simp add: lifecycle.run_cancelled)
  next
    case 2
    then have "?\<Psi> = ?\<Phi>" using other by (simp add: fun_eq_iff)
    then show ?thesis by simp
  next
    case 3
    show ?thesis
    proof (cases "?\<Phi> i")
      case None
      have "?\<Psi> k = ?\<Phi> k" for k
        using other [of k] keys [of i] None 3 by (cases "k = i") (auto simp: concerns_def)
      then have "?\<Psi> = ?\<Phi>" by (rule ext)
      then show ?thesis by simp
    next
      case (Some ph)
      with moves [of i] obtain m m' where m: "?\<Phi> i = Some (phase_of m)" "?\<Psi> i = Some (phase_of m')"
        "map_of (rd_operations s) i = Some m" "op_inv m"
        "op_move (rd_operations s) (published (rd_operations s')) i e m m'" by auto
      from m(5) 3 m(3) obtain m1 where own: "payload_validate (e_type e) (e_payload e) = None"
        "operation_step (rd_operations s) e m = Inr m1" "phase_of m' = phase_of m1"
        by (cases rule: op_move.cases) (auto simp: phase_readied)
      from plan_operation [OF s m(3)] obtain op where op: "op \<in> set (pl_operations p)" "op_id op = i"
        "mo_dependencies m = op_dependencies op" "mo_side_effecting m = op_side_effecting op" .
      have av: "dependencies_published m (rd_operations s) = available ?\<Phi> op"
        by (simp add: available_phases [OF s] op(3) available_def)
      have \<Psi>: "?\<Psi> = ?\<Phi>(op_id op \<mapsto> phase_of m1)"
        using other m(2) own(3) op(2) 3 by (auto simp: fun_eq_iff concerns_def)
      from operation_step_phase [OF own(2) m(4) own(1)] show ?thesis
      proof
        assume "phase_of m1 = phase_of m"
        then have "?\<Psi> = ?\<Phi>" using m(1) op(2) by (simp add: \<Psi> fun_upd_idem_iff)
        then show ?thesis by simp
      next
        assume "phase_step (mo_side_effecting m) (dependencies_published m (rd_operations s)) (phase_of m) (phase_of m1)"
        then show ?thesis unfolding \<Psi> using lifecycle.operation [OF op(1), of ?\<Phi> "phase_of m" "phase_of m1"] m(1) op(2,4) av by auto
      qed
    qed
  qed
qed

lemma initial_operations_domain: "op \<in> set (pl_operations p) \<Longrightarrow> map_of (initial_operations p) (op_id op) \<noteq> None"
proof -
  have "op \<in> set ops \<or> map_of m0 (op_id op) \<noteq> None \<Longrightarrow>
      map_of (foldl (\<lambda>m op. map_insert (op_id op) (initial_operation op) m) m0 ops) (op_id op) \<noteq> None" for ops m0
    by (induction ops arbitrary: m0) auto
  then show "op \<in> set (pl_operations p) \<Longrightarrow> ?thesis" unfolding initial_operations_def by blast
qed

lemma initial_phases: "phases_of (derived_of p (initial_reducer p)) = initial_phases p"
proof
  fix i
  have s: "reduces p [] (initial_reducer p)" by simp
  show "phases_of (derived_of p (initial_reducer p)) i = initial_phases p i"
  proof (cases "map_of (initial_operations p) i")
    case None
    moreover have "i \<notin> op_id ` set (pl_operations p)"
      using None initial_operations_domain [of _ p] by fastforce
    moreover have "map_of (rd_operations (initial_reducer p)) i = None" using None by (simp add: initial_reducer_def)
    ultimately show ?thesis by (simp add: phases_of_at [OF s] initial_phases_def)
  next
    case (Some m)
    moreover from this have "map_of (rd_operations (initial_reducer p)) i = Some m" by (simp add: initial_reducer_def)
    ultimately show ?thesis using initial_operations_at [OF Some]
      by (auto simp: phases_of_at [OF s] initial_phases_def phase_of_def initial_operation_def final_state_def)
  qed
qed

lemma reduces_lifecycle:
  "reduces p evs s \<Longrightarrow> (lifecycle p)\<^sup>*\<^sup>* (initial_phases p) (phases_of (derived_of p s))"
proof (induction evs arbitrary: s rule: rev_induct)
  case Nil
  then show ?case using initial_phases [of p] by auto
next
  case (snoc e evs)
  then obtain t where t: "reduces p evs t" "reduce_event p t e = Inr s" by (auto simp: for_each_snoc_Inr)
  from snoc.IH [OF t(1)] reduce_event_lifecycle [OF t] show ?case by auto
qed

end
