(* ===== verification/Journal_Claims.thy ===== *)
theory Journal_Claims
  imports Journal_Demo Journal_Lifecycle
begin

text \<open>
  The properties of the reducer: each is stated of the events of an accepted journal and of what
  \<open>DerivedState.Operation\<close> and \<open>DerivedState.Target\<close> return for it.
\<close>

section \<open>Attempts and dispatches\<close>

text \<open>C1  After the side effect of an operation has been dispatched, an accepted journal starts no
  further attempt of the operation until an event settles the outcome: a result other than
  \<open>WAITING_EXTERNAL\<close>, or an authorized retry.  This is the rule that a release is never published twice
  because an answer was lost.\<close>

theorem no_attempt_while_outcome_unknown:
  assumes "reduce p (xs @ d # ys @ a # zs) = Inr state"
    and "concerns i d" and "e_type d = EventSideEffectDispatched"
    and "concerns i a" and "e_type a = EventAttemptStarted"
  shows "\<exists>r \<in> set ys. concerns i r \<and> settles r"
proof (rule ccontr)
  assume "\<not> ?thesis"
  then have none: "\<forall>r \<in> set ys. \<not> (concerns i r \<and> settles r)" by blast
  from assms(1) obtain s where "reduces p (xs @ d # ys @ a # zs) s" by (auto simp: reduce_Inr)
  then obtain t where t: "reduces p (xs @ d # ys) t" "for_each (reduce_event p) t (a # zs) = Inr s"
    using for_each_append_Inr [of "reduce_event p" _ "xs @ d # ys" "a # zs"] by auto
  then obtain v where "reduce_event p t a = Inr v" by (auto simp: bind_result_Inr)
  with t(1) have "reduces p ((xs @ d # ys) @ [a]) v" by (auto simp only: for_each_snoc_Inr)
  from reduces_split_own [OF this assms(4)] obtain t' m m1 where "reduces p (xs @ d # ys) t'"
    "map_of (rd_operations t') i = Some m" "operation_step (rd_operations t') a m = Inr m1" by metis
  with t(1) have m: "map_of (rd_operations t) i = Some m" "operation_step (rd_operations t) a m = Inr m1"
    by (simp_all del: map_of_eq_Some_iff)
  from reduces_split_own [OF t(1) assms(2)] obtain b u n n1 n' where u: "for_each (reduce_event p) u ys = Inr t"
      "map_of (rd_operations u) i = Some n'" "op_inv n'" "distinct (map fst (rd_operations u))"
    and n: "operation_step b d n = Inr n1" "readied (published (rd_operations u)) n1 n'" by metis
  have "os_reconcile_required n'" using operation_step_dispatch [OF n(1) assms(3)] n(2) by (auto simp: readied_def)
  from suffix_unsettled [OF u(1,4,2,3) this none] m(1) have "os_reconcile_required m" by auto
  with operation_step_attempt [OF m(2)] assms(5) show False by simp
qed

theorem no_attempt_while_outcome_unknown_witness:
  "\<exists>r \<in> set (demo_reconciled @ [demo_retry]). concerns ''a'' r \<and> settles r"
proof (rule no_attempt_while_outcome_unknown)
  show "reduce demo_plan (demo_start @ demo_lost # (demo_reconciled @ [demo_retry]) @ demo_again
      # (demo_published @ demo_dependent # demo_end)) = Inr demo_state"
    using demo_reduce by (simp add: demo_journal_def)
qed (simp_all add: concerns_def is_run_event_def demo_lost_def demo_again_def op_event_def)

text \<open>C23  The attempts of an operation that an accepted journal starts are numbered 1, 2, 3 and so on
  without a gap, up to the attempt number of the derived state; the 32-bit number never wraps.\<close>

theorem attempts_are_consecutive:
  assumes "reduce p evs = Inr state" and "derived_operation state i = Some o1"
  shows "map unat (attempts_of i evs) = [1..<Suc (unat (os_attempt o1))]"
proof -
  from reduce_operation [OF assms] obtain s m where "reduces p evs s" "map_of (rd_operations s) i = Some m"
    and o1: "o1 = operation_state.truncate m" by metis
  then have "attempts_of i evs = map word_of_nat [1..<Suc (unat (os_attempt m))]"
    by (intro attempts_invariant)
  then show ?thesis using attempts_nth_unat [OF unat_32, of "os_attempt m"] by (simp only: o1 truncate_fields)
qed

theorem attempts_are_consecutive_witness:
  "\<exists>o1. derived_operation demo_state ''a'' = Some o1
     \<and> map unat (attempts_of ''a'' demo_journal) = [1..<Suc (unat (os_attempt o1))]"
proof -
  obtain o1 where o1: "derived_operation demo_state ''a'' = Some o1" using demo_operation_published by blast
  show ?thesis using attempts_are_consecutive [OF demo_reduce o1] o1 by blast
qed

text \<open>C2  The side effect of an operation is dispatched at most once per attempt, and only for an
  attempt that the journal has started.\<close>

theorem dispatched_once_per_attempt:
  assumes "reduce p evs = Inr state" and "derived_operation state i = Some o1"
  shows "distinct (dispatches_of i evs) \<and> set (dispatches_of i evs) \<subseteq> set (attempts_of i evs)"
proof -
  from reduce_operation [OF assms] obtain s m where s: "reduces p evs s" "map_of (rd_operations s) i = Some m" by metis
  note below = dispatches_invariant [OF s, unfolded dispatched_below_def]
  have "a \<in> set (attempts_of i evs)" if "a \<in> set (dispatches_of i evs)" for a
  proof -
    have "unat a \<in> set [1..<Suc (unat (os_attempt m))]" using below that by auto
    then have "word_of_nat (unat a) \<in> set (attempts_of i evs)"
      unfolding attempts_invariant [OF s] set_map by (rule imageI)
    then show ?thesis by (metis of_nat_unat ucast_id)
  qed
  with below show ?thesis by blast
qed

theorem dispatched_once_per_attempt_witness:
  "distinct (dispatches_of ''a'' demo_journal) \<and> set (dispatches_of ''a'' demo_journal) \<subseteq> set (attempts_of ''a'' demo_journal)"
proof -
  obtain o1 where o1: "derived_operation demo_state ''a'' = Some o1" using demo_operation_published by blast
  show ?thesis by (rule dispatched_once_per_attempt [OF demo_reduce o1])
qed

text \<open>C9  A retry is authorized only for a side-effecting publish of the npm provider, only while no
  lease is held, and only after a reconciliation of that very attempt observed the release absent.\<close>

theorem retry_needs_observed_absence:
  assumes "reduce p (xs @ r # ys) = Inr state" and "concerns i r" and "e_type r = EventRetryAuthorized"
  shows "(\<exists>as o1 bs. xs = as @ o1 # bs \<and> concerns i o1 \<and> absence_observed o1 \<and> attempts_of i bs = [])
    \<and> (\<exists>op \<in> set (pl_operations p). op_id op = i \<and> op_side_effecting op
         \<and> provider_name (op_provider op) = ''npm'' \<and> op_kind op = ''publish'')"
proof -
  from assms(1) obtain s where "reduces p (xs @ r # ys) s" by (auto simp: reduce_Inr)
  from reduces_split_own [OF this assms(2)] obtain t m m1 where t: "reduces p xs t"
      "map_of (rd_operations t) i = Some m" and step: "operation_step (rd_operations t) r m = Inr m1" by metis
  note retry = operation_step_retry [OF step assms(3)]
  from reduces_op_static [OF t] obtain op where "op \<in> set (pl_operations p)" "op_id op = i"
    "same_static (initial_operation op) m" by blast
  with retry absent_invariant [OF t] show ?thesis
    by (auto simp: same_static_def initial_operation_def intro!: bexI [of _ op])
qed

theorem retry_needs_observed_absence_witness:
  "(\<exists>as o1 bs. demo_start @ demo_lost # demo_reconciled = as @ o1 # bs \<and> concerns ''a'' o1 \<and> absence_observed o1
      \<and> attempts_of ''a'' bs = [])
   \<and> (\<exists>op \<in> set (pl_operations demo_plan). op_id op = ''a'' \<and> op_side_effecting op
        \<and> provider_name (op_provider op) = ''npm'' \<and> op_kind op = ''publish'')"
proof (rule retry_needs_observed_absence)
  show "reduce demo_plan ((demo_start @ demo_lost # demo_reconciled) @ demo_retry
      # (demo_again # demo_published @ demo_dependent # demo_end)) = Inr demo_state"
    using demo_reduce by (simp add: demo_journal_def)
qed (simp_all add: concerns_def is_run_event_def demo_retry_def op_event_def)

text \<open>The observed absence is not withdrawn by a later reconciliation of the same attempt that ends
  with \<open>OPERATION_WAITING_EXTERNAL\<close>: a journal whose last reconciliation found the release queued, not
  absent, still authorizes the retry.\<close>

theorem absence_outlives_later_reconciliation:
  "\<exists>state. reduce demo_plan stale_journal = Inr state
     \<and> (\<exists>o1. derived_operation state ''a'' = Some o1 \<and> os_state o1 = StateReady)"
proof -
  obtain s m where s: "reduces demo_plan stale_journal s" "map_of (rd_operations s) ''a'' = Some m" "os_state m = StateReady"
    using stale_reduces by blast
  have "reduce demo_plan stale_journal = Inr (derived_of demo_plan s)"
    using s(1) demo_plan_valid by (auto simp: reduce_Inr)
  moreover have "derived_operation (derived_of demo_plan s) ''a'' = Some (operation_state.truncate m)"
    unfolding derived_operation_at [OF s(1)] s(2) by simp
  ultimately show ?thesis using s(3) by auto
qed

section \<open>Order and outcome\<close>

text \<open>C10  An operation's attempt starts only after every operation it depends on has been reported
  published earlier in the journal.\<close>

theorem dependencies_before_attempt:
  assumes "reduce p (xs @ a # ys) = Inr state" and "concerns i a" and "e_type a = EventAttemptStarted"
  shows "\<exists>op \<in> set (pl_operations p). op_id op = i
    \<and> (\<forall>j \<in> set (op_dependencies op). \<exists>r \<in> set xs. concerns j r \<and> reported_state r = Some StatePublished)"
proof -
  from assms(1) obtain s where "reduces p (xs @ a # ys) s" by (auto simp: reduce_Inr)
  from reduces_split_own [OF this assms(2)] obtain t m m1 where t: "reduces p xs t"
      "map_of (rd_operations t) i = Some m" and step: "operation_step (rd_operations t) a m = Inr m1" by metis
  from operation_step_attempt [OF step] assms(3)
  have deps: "set (mo_dependencies m) \<subseteq> published (rd_operations t)" by (simp add: dependencies_published_iff)
  have "\<exists>r \<in> set xs. concerns j r \<and> reported_state r = Some StatePublished" if "j \<in> set (mo_dependencies m)" for j
    using deps that published_invariant [OF t(1), of j] by (auto simp: published_def)
  moreover from reduces_op_static [OF t] obtain op where "op \<in> set (pl_operations p)" "op_id op = i"
    "op_dependencies op = mo_dependencies m" by (auto simp: same_static_def initial_operation_def)
  ultimately show ?thesis by (auto intro!: bexI [of _ op])
qed

theorem dependencies_before_attempt_witness:
  "\<exists>op \<in> set (pl_operations demo_plan). op_id op = ''b''
    \<and> (\<forall>j \<in> set (op_dependencies op). \<exists>r \<in> set (demo_start @ demo_lost # demo_reconciled @ demo_retry # demo_again # demo_published).
          concerns j r \<and> reported_state r = Some StatePublished)"
proof (rule dependencies_before_attempt)
  show "reduce demo_plan ((demo_start @ demo_lost # demo_reconciled @ demo_retry # demo_again # demo_published)
      @ demo_dependent # demo_end) = Inr demo_state"
    using demo_reduce by (simp add: demo_journal_def)
qed (simp_all add: concerns_def is_run_event_def demo_dependent_def op_event_def)

text \<open>In the derived state of a started run, every operation still \<open>PLANNED\<close> waits for a dependency
  that is not published, and every operation that is neither planned nor cancelled has all its
  dependencies published: nothing runs early and nothing is left behind.\<close>

theorem readiness_follows_dependencies:
  assumes "reduce p evs = Inr state" and "evs \<noteq> []" and "derived_operation state i = Some o1"
  shows "\<exists>op \<in> set (pl_operations p). op_id op = i \<and> os_target_id o1 = op_target_id op
    \<and> (let pub = \<lambda>j. \<exists>x. derived_operation state j = Some x \<and> os_state x = StatePublished in
       (os_state o1 = StatePlanned \<longrightarrow> (\<exists>j \<in> set (op_dependencies op). \<not> pub j))
       \<and> (os_state o1 \<noteq> StatePlanned \<and> os_state o1 \<noteq> StateCancelled \<longrightarrow> (\<forall>j \<in> set (op_dependencies op). pub j)))"
proof -
  from reduce_operation [OF assms(1,3)] obtain s m where s: "reduces p evs s" "map_of (rd_operations s) i = Some m"
    and state: "state = derived_of p s" and o1: "o1 = operation_state.truncate m" by metis
  from reduces_op_static [OF s] obtain op where op: "op \<in> set (pl_operations p)" "op_id op = i"
    "op_dependencies op = mo_dependencies m" "op_target_id op = os_target_id m"
    by (auto simp: same_static_def initial_operation_def)
  have pub: "(\<exists>x. derived_operation state j = Some x \<and> os_state x = StatePublished) \<longleftrightarrow> j \<in> published (rd_operations s)" for j
    unfolding state derived_operation_at [OF s(1)] published_def by auto
  have "os_state m = StatePlanned \<longrightarrow> (\<exists>j \<in> set (op_dependencies op). j \<notin> published (rd_operations s))"
    using planned_waits [OF s assms(2)] op(3) by auto
  moreover have "os_state m \<noteq> StatePlanned \<and> os_state m \<noteq> StateCancelled \<longrightarrow>
      (\<forall>j \<in> set (op_dependencies op). j \<in> published (rd_operations s))"
    using dependencies_invariant [OF s] op(3) by (auto simp: waiting_state_def)
  ultimately show ?thesis using op by (auto simp: o1 pub Let_def intro!: bexI [of _ op])
qed

theorem readiness_follows_dependencies_witness:
  "\<exists>o1. derived_operation demo_state ''b'' = Some o1 \<and> os_state o1 = StatePublished
    \<and> (\<exists>op \<in> set (pl_operations demo_plan). op_id op = ''b'' \<and> (\<forall>j \<in> set (op_dependencies op).
         \<exists>x. derived_operation demo_state j = Some x \<and> os_state x = StatePublished))"
proof -
  obtain o1 where o1: "derived_operation demo_state ''b'' = Some o1" "os_state o1 = StatePublished"
    using demo_operation_published by blast
  have "demo_journal \<noteq> []" by (simp add: demo_journal_def)
  from readiness_follows_dependencies [OF demo_reduce this o1(1)] o1 show ?thesis
    by (auto simp: Let_def)
qed

text \<open>C11  A published, rejected or cancelled operation keeps its state, its attempt number, its evidence
  and its error for the rest of the journal, whatever events follow.\<close>

theorem outcome_is_final:
  assumes "reduce p xs = Inr state" and "reduce p (xs @ ys) = Inr later"
    and "derived_operation state i = Some o1" and "os_state o1 \<in> {StatePublished, StateRejected, StateCancelled}"
  shows "\<exists>o2. derived_operation later i = Some o2 \<and> os_state o2 = os_state o1 \<and> os_attempt o2 = os_attempt o1
    \<and> os_provider_state o2 = os_provider_state o1 \<and> os_evidence o2 = os_evidence o1
    \<and> os_error_code o2 = os_error_code o1 \<and> os_retryable o2 = os_retryable o1"
proof -
  from reduce_operation [OF assms(1,3)] obtain s m where s: "reduces p xs s" "map_of (rd_operations s) i = Some m"
    and o1: "o1 = operation_state.truncate m" and inv: "op_inv m" by metis
  from assms(2) obtain u where u: "reduces p (xs @ ys) u" "later = derived_of p u" by (auto simp: reduce_Inr)
  with reduces_prefix [OF u(1)] s(1) have "for_each (reduce_event p) s ys = Inr u" by auto
  from suffix_final [OF this reduces_distinct [OF s(1)] s(2) inv] assms(4)
  obtain m' where m': "map_of (rd_operations u) i = Some m'" "same_outcome m m'"
    by (auto simp: o1 final_state_def)
  then have "derived_operation later i = Some (operation_state.truncate m')"
    unfolding u(2) derived_operation_at [OF u(1)] by simp
  with m'(2) show ?thesis by (simp add: o1 same_outcome_def)
qed

definition demo_half :: "event list" where
  "demo_half = demo_start @ demo_lost # demo_reconciled @ demo_retry # demo_again # demo_published"

lemma demo_half_reduces:
  "\<exists>s m. reduces demo_plan demo_half s \<and> map_of (rd_operations s) ''a'' = Some m \<and> os_state m = StatePublished"
  by (simp add: demo_half_def demo_journal_defs reduce_eval)

theorem outcome_is_final_witness:
  "\<exists>o2. derived_operation demo_state ''a'' = Some o2 \<and> os_state o2 = StatePublished"
proof -
  obtain s m where s: "reduces demo_plan demo_half s" "map_of (rd_operations s) ''a'' = Some m" "os_state m = StatePublished"
    using demo_half_reduces by blast
  have half: "reduce demo_plan demo_half = Inr (derived_of demo_plan s)"
    using s(1) demo_plan_valid by (auto simp: reduce_Inr)
  have all: "reduce demo_plan (demo_half @ demo_dependent # demo_end) = Inr demo_state"
    using demo_reduce by (simp add: demo_journal_def demo_half_def)
  have at: "derived_operation (derived_of demo_plan s) ''a'' = Some (operation_state.truncate m)"
    unfolding derived_operation_at [OF s(1)] s(2) by simp
  show ?thesis using outcome_is_final [OF half all at] s(3) by auto
qed

section \<open>The run\<close>

text \<open>C12  Nothing follows the completion of a run, and a run completes only when every operation is in a
  terminal state, none awaits reconciliation and no lease is held.\<close>

theorem completion_is_terminal:
  assumes "reduce p (xs @ c # ys) = Inr state" and "e_type c = EventRunCompleted"
  shows "ys = [] \<and> ds_completed state \<and> (\<forall>i o1. derived_operation state i = Some o1 \<longrightarrow>
    os_state o1 \<in> {StatePublished, StateRejected, StateFailed, StateCancelled}
    \<and> \<not> os_reconcile_required o1 \<and> \<not> os_lease_active o1)"
proof -
  from assms(1) obtain s where s: "reduces p (xs @ c # ys) s" "state = derived_of p s" by (auto simp: reduce_Inr)
  then obtain t u where t: "reduces p xs t" "reduce_event p t c = Inr u" "for_each (reduce_event p) u ys = Inr s"
    by (auto simp: for_each_append_Inr bind_result_Inr)
  have done_u: "rd_completed u" using admitted_facts(5) [OF t(2)] assms(2) by simp
  have ys: "ys = []" by (rule completed_ends [OF t(3) done_u])
  from t(2) have quiet: "all_quiescent (rd_operations u)"
    by (cases rule: reduce_event_elim) (simp_all add: assms(2) is_run_event_def)
  have "\<forall>i o1. derived_operation state i = Some o1 \<longrightarrow>
    os_state o1 \<in> {StatePublished, StateRejected, StateFailed, StateCancelled}
    \<and> \<not> os_reconcile_required o1 \<and> \<not> os_lease_active o1"
  proof (intro allI impI)
    fix i o1
    assume "derived_operation state i = Some o1"
    then obtain m where "map_of (rd_operations u) i = Some m" "o1 = operation_state.truncate m"
      using t(3) ys unfolding s(2) derived_operation_at [OF s(1)] by (auto simp del: map_of_eq_Some_iff)
    with quiescent_at [OF quiet this(1)] show "os_state o1 \<in> {StatePublished, StateRejected, StateFailed, StateCancelled}
        \<and> \<not> os_reconcile_required o1 \<and> \<not> os_lease_active o1"
      by (simp add: terminal_state_def)
  qed
  then show ?thesis using ys done_u t(3) s(2) by (simp add: derived_of_def)
qed

theorem completion_is_terminal_witness:
  "ds_completed demo_state \<and> (\<exists>o1. derived_operation demo_state ''a'' = Some o1
     \<and> os_state o1 \<in> {StatePublished, StateRejected, StateFailed, StateCancelled} \<and> \<not> os_lease_active o1)"
proof -
  have "reduce demo_plan ((demo_half @ [demo_dependent, hd demo_end]) @ last demo_end # []) = Inr demo_state"
    using demo_reduce by (simp add: demo_journal_def demo_half_def demo_end_def)
  moreover have "e_type (last demo_end) = EventRunCompleted" by (simp add: demo_end_def run_event_def)
  ultimately have "ds_completed demo_state \<and> (\<forall>i o1. derived_operation demo_state i = Some o1 \<longrightarrow>
      os_state o1 \<in> {StatePublished, StateRejected, StateFailed, StateCancelled}
      \<and> \<not> os_reconcile_required o1 \<and> \<not> os_lease_active o1)"
    using completion_is_terminal [of demo_plan] by blast
  moreover obtain o1 where "derived_operation demo_state ''a'' = Some o1" using demo_operation_published by blast
  ultimately show ?thesis by blast
qed

text \<open>After a run is cancelled its journal accepts no new attempt, no dispatch, no retry authorization
  and no blocked result; only leases and the reconciliation of what was already dispatched.\<close>

theorem cancellation_stops_dispatch:
  assumes "reduce p (xs @ c # ys) = Inr state" and "e_type c = EventRunCancelled" and "e \<in> set ys"
  shows "allowed_after_run_cancellation (e_type e)
    \<and> e_type e \<notin> {EventAttemptStarted, EventSideEffectDispatched, EventRetryAuthorized, EventOperationResult,
         EventOperationReady, EventRunStarted, EventRunCompleted}"
proof -
  from assms(1) obtain s where "reduces p (xs @ c # ys) s" by (auto simp: reduce_Inr)
  then obtain t u where "reduce_event p t c = Inr u" "for_each (reduce_event p) u ys = Inr s"
    by (auto simp: for_each_append_Inr bind_result_Inr)
  with admitted_facts(6) [of p t c u] cancelled_allows [of p u ys s e] assms(2,3)
  have "allowed_after_run_cancellation (e_type e)" by simp
  then show ?thesis by auto
qed

theorem cancellation_stops_dispatch_witness:
  "allowed_after_run_cancellation (e_type (hd cancelled_rest)) \<and> e_type (hd cancelled_rest) \<noteq> EventAttemptStarted"
proof -
  have "hd cancelled_rest \<in> set cancelled_rest" by (simp add: cancelled_rest_def)
  then show ?thesis
    using cancelled_reduce
      cancellation_stops_dispatch [of demo_plan cancelled_start "run_event 4 EventRunCancelled []" cancelled_rest _ "hd cancelled_rest"]
    by (auto simp: run_event_def)
qed

text \<open>An accepted journal belongs to one run and one plan: it opens with \<open>RUN_STARTED\<close> for the plan it
  is reduced against, every event names the same run, and the sequence numbers are 1, 2, 3 and so on
  without a gap or a wrap of the 64-bit counter.\<close>

theorem journal_is_bound:
  assumes "reduce p evs = Inr state" and "evs \<noteq> []"
  shows "e_type (hd evs) = EventRunStarted \<and> e_plan_id (hd evs) = pl_id p
    \<and> (\<forall>e \<in> set evs. e_run_id e = ds_run_id state) \<and> ds_run_id state \<noteq> [] \<and> ds_started state
    \<and> map (unat \<circ> e_sequence) evs = [1..<Suc (length evs)]"
proof -
  from assms(1) obtain s where s: "reduces p evs s" "state = derived_of p s" by (auto simp: reduce_Inr)
  note ok = header_invariant [OF s(1), unfolded header_ok_def]
  have header: "ds_run_id state = rd_run_id s" "ds_started state = rd_started s" by (simp_all add: s(2) derived_of_def)
  show ?thesis unfolding header using ok assms(2) by blast
qed

theorem journal_is_bound_witness:
  "map (unat \<circ> e_sequence) demo_journal = [1..<Suc (length demo_journal)] \<and> e_plan_id (hd demo_journal) = pl_id demo_plan"
proof -
  have "demo_journal \<noteq> []" by (simp add: demo_journal_def)
  with journal_is_bound [OF demo_reduce this] show ?thesis by blast
qed

lemma reduces_started: "reduce p evs = Inr state \<Longrightarrow> ds_started state \<longleftrightarrow> evs \<noteq> []"
  by (auto simp: reduce_Inr derived_of_def dest!: header_invariant simp: header_ok_def)

text \<open>The lease of an event is never read through a nil pointer: whatever the journal, no error that
  the reduction returns is a nil dereference.\<close>

theorem reduce_never_dereferences_nil:
  "case reduce p evs of Inl err \<Rightarrow> \<not> errors_is err NilDereference | Inr state \<Rightarrow> ds_started state \<or> evs = []"
proof (cases "reduce p evs")
  case (Inl err)
  then show ?thesis
    by (auto simp: reduce_def bind_result_def dest: for_each_no_panic split: if_splits sum.splits)
next
  case (Inr state)
  then show ?thesis using reduces_started by auto
qed

section \<open>The derived state\<close>

text \<open>C13  What the derived state of any accepted journal keeps of each operation: a pending reconciliation
  means running or waiting, waiting means a pending reconciliation, an ambiguous outcome is always to be
  reconciled, and blocked attempts never outnumber attempts, so the executor's retry budget, attempts
  minus blocked attempts, never wraps below zero.\<close>

theorem operation_state_invariant:
  assumes "reduce p evs = Inr state" and "derived_operation state i = Some o1"
  shows "(os_reconcile_required o1 \<longrightarrow> os_state o1 = StateRunning \<or> os_state o1 = StateWaitingExternal)
    \<and> (os_state o1 = StateWaitingExternal \<longrightarrow> os_reconcile_required o1)
    \<and> (os_ambiguous o1 \<longrightarrow> os_reconcile_required o1)
    \<and> unat (os_blocked_attempts o1) \<le> unat (os_attempt o1)
    \<and> unat (os_attempt o1 - os_blocked_attempts o1) = unat (os_attempt o1) - unat (os_blocked_attempts o1)
    \<and> state_valid (os_state o1)"
proof -
  from reduce_operation [OF assms] obtain m where o1: "o1 = operation_state.truncate m" and "op_inv m" by metis
  moreover from this have "os_blocked_attempts m \<le> os_attempt m" by (simp add: op_inv_def word_le_nat_alt)
  then have "unat (os_attempt m - os_blocked_attempts m) = unat (os_attempt m) - unat (os_blocked_attempts m)"
    by (rule unat_sub)
  ultimately show ?thesis by (auto simp: op_inv_def)
qed

theorem operation_state_invariant_witness:
  "\<exists>o1. derived_operation demo_state ''a'' = Some o1
     \<and> unat (os_attempt o1 - os_blocked_attempts o1) = unat (os_attempt o1) - unat (os_blocked_attempts o1)"
proof -
  obtain o1 where o1: "derived_operation demo_state ''a'' = Some o1" using demo_operation_published by blast
  show ?thesis using operation_state_invariant [OF demo_reduce o1] o1 by blast
qed

text \<open>The binary searches of \<open>DerivedState.Operation\<close> and \<open>DerivedState.Target\<close> find exactly the entry
  with the identifier, and \<open>nil\<close> exactly when there is none.\<close>

theorem derived_lookup_is_membership:
  assumes "reduce p evs = Inr state"
  shows "(derived_operation state i = Some o1 \<longleftrightarrow> o1 \<in> set (ds_operations state) \<and> os_id o1 = i)
    \<and> (derived_target state t = Some ts \<longleftrightarrow> ts \<in> set (ds_targets state) \<and> ts_id ts = t)"
proof -
  from assms obtain s where s: "reduces p evs s" "state = derived_of p s" by (auto simp: reduce_Inr)
  have ids: "os_id m = k" if "(k, m) \<in> set (rd_operations s)" for k m using reduces_ids [OF s(1) that] .
  have ops: "map_of (rd_operations s) i = Some m \<longleftrightarrow> (i, m) \<in> set (rd_operations s)" for m
    using reduces_distinct [OF s(1)] by simp
  have "derived_operation state i = Some o1 \<longleftrightarrow> (\<exists>m. (i, m) \<in> set (rd_operations s) \<and> o1 = operation_state.truncate m)"
    unfolding s(2) derived_operation_at [OF s(1)] using ops by auto
  also have "\<dots> \<longleftrightarrow> o1 \<in> set (ds_operations state) \<and> os_id o1 = i"
    using ids by (force simp: s(2) derived_of_def)
  finally have operation: "derived_operation state i = Some o1 \<longleftrightarrow> o1 \<in> set (ds_operations state) \<and> os_id o1 = i" .
  have "map_of (target_operations p) t = Some ids \<longleftrightarrow> (t, ids) \<in> set (target_operations p)" for ids by simp
  then have "derived_target state t = Some ts \<longleftrightarrow>
      (\<exists>ids. (t, ids) \<in> set (target_operations p) \<and> ts = derive_target (rd_started s) (rd_operations s) (t, ids))"
    unfolding s(2) derived_target_at by auto
  also have "\<dots> \<longleftrightarrow> ts \<in> set (ds_targets state) \<and> ts_id ts = t"
    by (force simp: s(2) derived_of_def derive_targets_def)
  finally show ?thesis using operation by blast
qed

theorem derived_lookup_is_membership_witness:
  "\<forall>o1 ts. (derived_operation demo_state ''a'' = Some o1 \<longleftrightarrow> o1 \<in> set (ds_operations demo_state) \<and> os_id o1 = ''a'')
   \<and> (derived_target demo_state ''t'' = Some ts \<longleftrightarrow> ts \<in> set (ds_targets demo_state) \<and> ts_id ts = ''t'')"
  by (intro allI, rule derived_lookup_is_membership [OF demo_reduce])

lemma initial_operations_all: "op \<in> set (pl_operations p) \<Longrightarrow> op_id op \<in> fst ` set (initial_operations p)"
proof -
  have "op_id ` set ops \<union> fst ` set m0 \<subseteq> fst ` set (foldl (\<lambda>m op. map_insert (op_id op) (initial_operation op) m) m0 ops)" for ops m0
  proof (induction ops arbitrary: m0)
    case (Cons x ops)
    from Cons.IH [of "map_insert (op_id x) (initial_operation x) m0"] show ?case
      using keys_map_insert [of "op_id x" "initial_operation x" m0] by simp
  qed simp
  from this [of "pl_operations p" "[]"] show "op \<in> set (pl_operations p) \<Longrightarrow> ?thesis"
    by (auto simp: initial_operations_def)
qed

lemma reduces_all_operations:
  assumes "reduces p evs s" and "op \<in> set (pl_operations p)"
  shows "\<exists>m. map_of (rd_operations s) (op_id op) = Some m"
proof -
  have "op_id op \<in> fst ` set (rd_operations s)"
    using initial_operations_all [OF assms(2)] reduces_keys [OF assms(1)] by (metis list.set_map)
  then show ?thesis by (metis map_of_eq_None_iff not_Some_eq)
qed

text \<open>In a started run a target is \<open>PUBLISHED\<close> exactly when every operation of the plan for that target
  is, and it requires reconciliation exactly when one of them does.\<close>

theorem target_published_iff:
  assumes "reduce p evs = Inr state" and "evs \<noteq> []" and "t \<in> set (pl_targets p)"
  shows "\<exists>ts. derived_target state (tgt_id t) = Some ts
    \<and> (ts_state ts = StatePublished \<longleftrightarrow> (\<forall>op \<in> set (pl_operations p). op_target_id op = tgt_id t \<longrightarrow>
          (\<exists>x. derived_operation state (op_id op) = Some x \<and> os_state x = StatePublished)))
    \<and> (ts_reconcile_required ts \<longleftrightarrow> (\<exists>op \<in> set (pl_operations p). op_target_id op = tgt_id t
          \<and> (\<exists>x. derived_operation state (op_id op) = Some x \<and> os_reconcile_required x)))"
proof -
  from assms(1) obtain s where s: "reduces p evs s" "state = derived_of p s" by (auto simp: reduce_Inr)
  let ?mine = "filter (\<lambda>op. op_target_id op = tgt_id t) (pl_operations p)"
  let ?ts = "derive_target (rd_started s) (rd_operations s) (tgt_id t, map op_id ?mine)"
  have at: "derived_target state (tgt_id t) = Some ?ts"
    unfolding s(2) derived_target_at using target_operations_at [of "tgt_id t" p] assms(3) by simp
  have started: "rd_started s" using header_invariant [OF s(1)] assms(2) by (simp add: header_ok_def)
  have op_at: "derived_operation state i = map_option operation_state.truncate (map_of (rd_operations s) i)" for i
    unfolding s(2) by (rule derived_operation_at [OF s(1)])
  have state: "operation_state_at (rd_operations s) (op_id op) = StatePublished \<longleftrightarrow>
      (\<exists>x. derived_operation state (op_id op) = Some x \<and> os_state x = StatePublished)" if "op \<in> set (pl_operations p)" for op
    using reduces_all_operations [OF s(1) that] unfolding op_at operation_state_at_def
    by (auto simp del: map_of_eq_Some_iff)
  have "ts_state ?ts = StatePublished \<longleftrightarrow> (\<forall>op \<in> set ?mine. operation_state_at (rd_operations s) (op_id op) = StatePublished)"
    using aggregate_target_published [of "map op_id ?mine"] started
    by (cases "?mine = []") (auto simp: derive_target_def Let_def)
  moreover have "ts_reconcile_required ?ts \<longleftrightarrow> (\<exists>op \<in> set ?mine. \<exists>m. map_of (rd_operations s) (op_id op) = Some m \<and> os_reconcile_required m)"
    by (force simp: derive_target_def Let_def list_ex_iff List.map_filter_def simp del: map_of_eq_Some_iff)
  ultimately show ?thesis using at state by (auto simp: op_at)
qed

theorem target_published_iff_witness:
  "\<exists>ts. derived_target demo_state ''t'' = Some ts \<and> ts_state ts = StatePublished"
proof -
  have "demo_journal \<noteq> []" "demo_target \<in> set (pl_targets demo_plan)" by (simp_all add: demo_journal_def demo_plan_def)
  moreover have "\<exists>x. derived_operation demo_state (op_id op) = Some x \<and> os_state x = StatePublished"
    if "op \<in> set (pl_operations demo_plan)" for op
  proof -
    from that have "op_id op = ''a'' \<or> op_id op = ''b''" by (auto simp: demo_plan_def demo_operation_def)
    from demo_operation_published [OF this] show ?thesis by blast
  qed
  ultimately show ?thesis
    using target_published_iff [OF demo_reduce, of demo_target] by (auto simp: demo_target_def)
qed

text \<open>\<open>refreshReady\<close> ranges over a Go map, whose order is open: whatever the order, the pass ends with
  the same operations, each planned operation whose dependencies are published made ready.\<close>

theorem refresh_order_is_irrelevant:
  assumes "distinct (map fst ops)" and "set ks = set ks'"
  shows "refresh_keys ks ops = refresh_keys ks' ops"
  using assms by (simp add: refresh_keys_eq)

theorem refresh_order_is_irrelevant_witness:
  "refresh_keys [''a'', ''b''] (initial_operations demo_plan) = refresh_keys [''b'', ''a''] (initial_operations demo_plan)"
  by (rule refresh_order_is_irrelevant) auto

section \<open>The specification of a run\<close>

text \<open>C24  The reducer implements the specification of a run.  Read as phases (idle, stopped, running, dispatched, pending,
  closed), the state derived from a journal changes with each event by at most one step of \<open>lifecycle\<close>: an
  attempt is started only when the dependencies are closed as published, a side effect is dispatched only by
  an operation that has one, an operation with side effects that has not dispatched them can only be given up, and
  the cancellation of the run closes what is neither dispatched nor pending.  So every derived state is reached from
  the initial phases of the plan by steps of the specification.\<close>

theorem reducer_refines_lifecycle:
  assumes "reduce p (evs @ [e]) = Inr state'"
  shows "\<exists>state. reduce p evs = Inr state \<and> (lifecycle p)\<^sup>=\<^sup>= (phases_of state) (phases_of state')
    \<and> (lifecycle p)\<^sup>*\<^sup>* (initial_phases p) (phases_of state')"
proof -
  from assms obtain s' where s': "reduces p (evs @ [e]) s'" "state' = derived_of p s'" "valid_identifier (pl_id p)"
    by (auto simp: reduce_Inr)
  then obtain s where s: "reduces p evs s" "reduce_event p s e = Inr s'" by (auto simp: for_each_snoc_Inr)
  then have "reduce p evs = Inr (derived_of p s)" using s'(3) by (auto simp: reduce_Inr)
  with reduce_event_lifecycle [OF s] reduces_lifecycle [OF s'(1)] s'(2) show ?thesis by blast
qed

theorem reducer_refines_lifecycle_witness:
  "(lifecycle demo_plan)\<^sup>*\<^sup>* (initial_phases demo_plan) (phases_of demo_state)
    \<and> initial_phases demo_plan ''a'' = Some (Idle 0) \<and> phases_of demo_state ''a'' = Some (Closed StatePublished)"
proof -
  have "demo_journal \<noteq> []" by (simp add: demo_journal_def demo_start_def)
  then have "demo_journal = butlast demo_journal @ [last demo_journal]" by simp
  with demo_reduce have "reduce demo_plan (butlast demo_journal @ [last demo_journal]) = Inr demo_state" by simp
  from reducer_refines_lifecycle [OF this] have "(lifecycle demo_plan)\<^sup>*\<^sup>* (initial_phases demo_plan) (phases_of demo_state)" by blast
  moreover obtain o1 where "derived_operation demo_state ''a'' = Some o1" "os_state o1 = StatePublished"
    using demo_operation_published [of "''a''"] by blast
  ultimately show ?thesis
    by (simp add: phases_of_def phase_of_def final_state_def initial_phases_def demo_plan_def demo_operation_def)
qed

end
