(* ===== verification/Journal_Frame.thy ===== *)
theory Journal_Frame
  imports Journal_Event
begin

text \<open>
  The record framing of the journal, \<open>internal/journal/frame.go\<close>: a frame is the magic \<open>DPJ1\<close>, the
  length and the IEEE checksum of the payload in big-endian order, and the payload, the JSON of one
  event.  Bytes are characters.  The reflective JSON codec of the event structs is a pair of functions,
  \<open>marshal\<close> and \<open>unmarshal\<close>, that the definitions take as arguments: \<open>unmarshal\<close> is \<open>Decode\<close> with unknown
  fields disallowed and returns the event and the bytes after the value.
\<close>

unbundle bit_operations_syntax

section \<open>Big-endian numbers and the checksum\<close>

definition be32_bytes :: "nat \<Rightarrow> string" where
  "be32_bytes n = map char_of [n div 16777216 mod 256, n div 65536 mod 256, n div 256 mod 256, n mod 256]"

definition be32_value :: "string \<Rightarrow> nat" where
  "be32_value s = foldl (\<lambda>n c. n * 256 + byte c) 0 s"

definition crc32_polynomial :: "32 word" where
  "crc32_polynomial = 0xEDB88320"

definition crc32_bit :: "32 word \<Rightarrow> 32 word" where
  "crc32_bit c = (if bit c 0 then drop_bit 1 c XOR crc32_polynomial else drop_bit 1 c)"

definition crc32_byte :: "32 word \<Rightarrow> char \<Rightarrow> 32 word" where
  "crc32_byte c b = (crc32_bit ^^ 8) (c XOR word_of_nat (byte b))"

definition crc32 :: "string \<Rightarrow> 32 word" where
  "crc32 s = NOT (foldl crc32_byte (NOT 0) s)"

definition frame_magic :: string where
  "frame_magic = ''DPJ1''"

definition frame_header_bytes :: nat where
  "frame_header_bytes = 12"

definition max_record_bytes :: nat where
  "max_record_bytes = 1048576"

lemma be32_length [simp]: "length (be32_bytes n) = 4"
  by (simp add: be32_bytes_def)

lemma be32_value_bytes [simp]: "n < 2 ^ 32 \<Longrightarrow> be32_value (be32_bytes n) = n"
proof -
  assume n: "n < 2 ^ 32"
  have "n div 16777216 mod 256 = n div 16777216" using n by (simp add: less_mult_imp_div_less)
  moreover have "n div 16777216 * 256 + n div 65536 mod 256 = n div 65536"
    using div_mult_mod_eq [of "n div 65536" 256] by (simp add: div_mult2_eq [symmetric])
  moreover have "n div 65536 * 256 + n div 256 mod 256 = n div 256"
    using div_mult_mod_eq [of "n div 256" 256] by (simp add: div_mult2_eq [symmetric])
  moreover have "n div 256 * 256 + n mod 256 = n" by (rule div_mult_mod_eq)
  ultimately show ?thesis by (simp add: be32_value_def be32_bytes_def)
qed

section \<open>What json.Marshal makes of the evidence\<close>

text \<open>
  \<open>Payload.Evidence\<close> is a \<open>json.RawMessage\<close>: \<open>json.Marshal\<close> writes it without the blanks between its tokens
  and with \<open><\<close>, \<open>>\<close>, \<open>&\<close>, U+2028 and U+2029 escaped, so an event is read back with its evidence in that form.
  The flags say whether the scan is inside a string and just after a backslash.
\<close>

fun compact_from :: "bool \<Rightarrow> bool \<Rightarrow> string \<Rightarrow> string" where
  "compact_from str esc [] = []"
| "compact_from str esc (c # cs) =
     (if c = CHR ''<'' then [CHR 0x5C] @ ''u003c'' @ compact_from str False cs
      else if c = CHR ''>'' then [CHR 0x5C] @ ''u003e'' @ compact_from str False cs
      else if c = CHR ''&'' then [CHR 0x5C] @ ''u0026'' @ compact_from str False cs
      else if byte c = 0xE2 \<and> take 2 cs = [CHR 0x80, CHR 0xA8] then [CHR 0x5C] @ ''u2028'' @ compact_from str False (drop 2 cs)
      else if byte c = 0xE2 \<and> take 2 cs = [CHR 0x80, CHR 0xA9] then [CHR 0x5C] @ ''u2029'' @ compact_from str False (drop 2 cs)
      else if \<not> str \<and> is_json_space c then compact_from False False cs
      else if \<not> str then c # compact_from (c = CHR 0x22) False cs
      else if esc then c # compact_from True False cs
      else if c = CHR 0x5C then c # compact_from True True cs
      else c # compact_from (c \<noteq> CHR 0x22) False cs)"

definition json_compact :: "string \<Rightarrow> string" where
  "json_compact raw = compact_from False False raw"

definition stored_event :: "event \<Rightarrow> event" where
  "stored_event e = e\<lparr>e_payload := (e_payload e)\<lparr>pay_evidence := json_compact (pay_evidence (e_payload e))\<rparr>\<rparr>"

lemma stored_event_fields [simp]:
  "e_sequence (stored_event e) = e_sequence e" "e_run_id (stored_event e) = e_run_id e"
  "e_type (stored_event e) = e_type e" "e_operation_id (stored_event e) = e_operation_id e"
  "pay_attempt (e_payload (stored_event e)) = pay_attempt (e_payload e)"
  by (simp_all add: stored_event_def)

section \<open>Frames\<close>

type_synonym marshaller = "event \<Rightarrow> string result"
type_synonym unmarshaller = "string \<Rightarrow> (event \<times> string) option"

definition frame_of :: "string \<Rightarrow> string" where
  "frame_of raw = frame_magic @ be32_bytes (length raw) @ be32_bytes (unat (crc32 raw)) @ raw"

definition encode_frame :: "marshaller \<Rightarrow> event \<Rightarrow> string result" where
  "encode_frame marshal e =
     bind_result (checked (event_validate e) ()) (\<lambda>_.
     bind_result (marshal e) (\<lambda>raw.
       if length raw > max_record_bytes then Inl (Errorf ''journal record exceeds %d bytes'' [])
       else Inr (frame_of raw)))"

definition decode_event :: "unmarshaller \<Rightarrow> string \<Rightarrow> event result" where
  "decode_event unmarshal raw = (case unmarshal raw of
     None \<Rightarrow> Inl (ErrorIs ErrCorruptRecord ''%w: %v'' [])
   | Some (e, rest) \<Rightarrow>
       if skip_ws rest \<noteq> [] then Inl (ErrorIs ErrCorruptRecord ''%w: trailing JSON data'' [])
       else checked (event_validate e) e)"

section \<open>Reading\<close>

text \<open>
  An \<open>io.Reader\<close>: the bytes it delivers and how it ends, \<open>None\<close> for \<open>io.EOF\<close> and \<open>Some e\<close> for another
  error.  \<open>read_full n\<close> is \<open>io.ReadFull\<close> into a buffer of \<open>n\<close> bytes.
\<close>

record reader =
  rdr_data :: string
  rdr_fault :: "error option"

datatype read_outcome = Full string string | AtEOF | ShortRead | Faulted error

definition read_full :: "nat \<Rightarrow> string \<Rightarrow> error option \<Rightarrow> read_outcome" where
  "read_full n data fault =
     (if n \<le> length data then Full (take n data) (drop n data)
      else (case fault of
          Some e \<Rightarrow> Faulted e
        | None \<Rightarrow> if data = [] then AtEOF else ShortRead))"

record read_result =
  rr_events :: "event list"
  rr_truncated_tail :: bool
  rr_valid_bytes :: int

definition empty_result :: read_result where
  "empty_result = \<lparr>rr_events = [], rr_truncated_tail = False, rr_valid_bytes = 0\<rparr>"

text \<open>The checks on one complete record, in the order of the code.\<close>

definition check_record ::
  "unmarshaller \<Rightarrow> string \<Rightarrow> string \<Rightarrow> 64 word \<Rightarrow> run_id \<Rightarrow> event result" where
  "check_record unmarshal checksum raw expected run =
     (if unat (crc32 raw) \<noteq> be32_value checksum
      then Inl (ErrorIs ErrCorruptRecord ''%w at byte %d: checksum mismatch'' [])
      else (case decode_event unmarshal raw of
          Inl e \<Rightarrow> Inl e
        | Inr e \<Rightarrow>
            if e_sequence e \<noteq> expected then Inl (ErrorIs ErrSequence ''%w: got %d, want %d'' [])
            else if run \<noteq> [] \<and> e_run_id e \<noteq> run
            then Inl (Errorf ''journal contains multiple run IDs'' [])
            else Inr e))"

function read_frames ::
  "unmarshaller \<Rightarrow> error option \<Rightarrow> string \<Rightarrow> read_result \<Rightarrow> 64 word \<Rightarrow> run_id \<Rightarrow> read_result result" where
  "read_frames unmarshal fault data res expected run = (case read_full frame_header_bytes data fault of
     AtEOF \<Rightarrow> Inr res
   | ShortRead \<Rightarrow> Inr (res\<lparr>rr_truncated_tail := True\<rparr>)
   | Faulted e \<Rightarrow> Inl e
   | Full header rest \<Rightarrow>
       if take 4 header \<noteq> frame_magic
       then Inl (ErrorIs ErrCorruptRecord ''%w at byte %d: invalid magic'' [])
       else (let n = be32_value (take 4 (drop 4 header)) in
         if n = 0 \<or> n > max_record_bytes
         then Inl (ErrorIs ErrCorruptRecord ''%w at byte %d: invalid length %d'' [])
         else (case read_full n rest fault of
             AtEOF \<Rightarrow> Inr (res\<lparr>rr_truncated_tail := True\<rparr>)
           | ShortRead \<Rightarrow> Inr (res\<lparr>rr_truncated_tail := True\<rparr>)
           | Faulted e \<Rightarrow> Inl e
           | Full raw rest' \<Rightarrow>
               (case check_record unmarshal (drop 8 header) raw expected run of
                  Inl e \<Rightarrow> Inl e
                | Inr e \<Rightarrow> read_frames unmarshal fault rest'
                    (res\<lparr>rr_events := rr_events res @ [e],
                         rr_valid_bytes := rr_valid_bytes res + int frame_header_bytes + int n\<rparr>)
                    (expected + 1) (if run = [] then e_run_id e else run)))))"
  by pat_completeness auto
termination
  by (relation "measure (\<lambda>(_, _, data, _, _, _). length data)")
    (auto simp: read_full_def frame_header_bytes_def split: if_splits option.splits)

declare read_frames.simps [simp del]

definition read_journal :: "unmarshaller \<Rightarrow> reader option \<Rightarrow> read_result result" where
  "read_journal unmarshal source = (case source of
     None \<Rightarrow> Inl (Errorf ''journal reader must not be nil'' [])
   | Some r \<Rightarrow> read_frames unmarshal (rdr_fault r) (rdr_data r) empty_result 1 [])"

section \<open>Reading whole frames\<close>

text \<open>
  The codec is faithful on an event: its JSON decodes to the event as stored, which is still valid, and
  nothing is left over.
\<close>

definition codec_faithful :: "marshaller \<Rightarrow> unmarshaller \<Rightarrow> event \<Rightarrow> bool" where
  "codec_faithful marshal unmarshal e \<longleftrightarrow>
     (case marshal e of Inl _ \<Rightarrow> True | Inr raw \<Rightarrow> raw \<noteq> [] \<and> unmarshal raw = Some (stored_event e, [])
        \<and> event_validate (stored_event e) = None)"

lemma frame_of_length: "length (frame_of raw) = frame_header_bytes + length raw"
  by (simp add: frame_of_def frame_magic_def frame_header_bytes_def)

lemma encode_frame_Inr:
  "encode_frame marshal e = Inr frame \<longleftrightarrow>
     event_validate e = None \<and> (\<exists>raw. marshal e = Inr raw \<and> length raw \<le> max_record_bytes \<and> frame = frame_of raw)"
  by (cases "marshal e") (auto simp: encode_frame_def checks not_less)

lemma skip_ws_Nil [simp]: "skip_ws [] = []"
  by (simp add: skip_ws_def)

definition accepts_event :: "64 word \<Rightarrow> run_id \<Rightarrow> event \<Rightarrow> bool" where
  "accepts_event expected run e \<longleftrightarrow> e_sequence e = expected \<and> (run = [] \<or> e_run_id e = run)"

definition extend_result :: "event \<Rightarrow> nat \<Rightarrow> read_result \<Rightarrow> read_result" where
  "extend_result e n res = res\<lparr>rr_events := rr_events res @ [e],
     rr_valid_bytes := rr_valid_bytes res + int frame_header_bytes + int n\<rparr>"

lemma frame_magic_length [simp]: "length frame_magic = 4"
  by (simp add: frame_magic_def)

text \<open>A complete frame in front is read as its event.\<close>

lemma read_frames_frame:
  assumes "raw \<noteq> []" and "length raw \<le> max_record_bytes" and "unmarshal raw = Some (e, [])"
    and "event_validate e = None" and "accepts_event expected run e"
  shows "read_frames unmarshal fault (frame_of raw @ rest) res expected run =
    read_frames unmarshal fault rest (extend_result e (length raw) res) (expected + 1)
      (if run = [] then e_run_id e else run)"
proof -
  let ?n = "be32_bytes (length raw)" and ?c = "be32_bytes (unat (crc32 raw))"
  have len: "length raw < 2 ^ 32" using assms(2) by (simp add: max_record_bytes_def)
  have crc: "unat (crc32 raw) < 2 ^ 32" by (rule order.strict_trans2 [OF unsigned_less]) simp
  have data: "frame_of raw @ rest = frame_magic @ ?n @ ?c @ raw @ rest" by (simp add: frame_of_def)
  have front: "read_full frame_header_bytes (frame_of raw @ rest) fault =
      Full (frame_magic @ ?n @ ?c) (raw @ rest)"
    unfolding data read_full_def frame_header_bytes_def by simp
  have body: "read_full (length raw) (raw @ rest) fault = Full raw rest" by (simp add: read_full_def)
  have accepted: "check_record unmarshal ?c raw expected run = Inr e"
    using assms(3-5) be32_value_bytes [OF crc]
    by (auto simp: check_record_def decode_event_def accepts_event_def checked_def)
  show ?thesis
    using assms(1,2) be32_value_bytes [OF len]
    by (subst read_frames.simps)
      (simp add: front body accepted extend_result_def Let_def)
qed

text \<open>The frames of a list of events, each readable after the ones before it.\<close>

fun readable :: "marshaller \<Rightarrow> unmarshaller \<Rightarrow> 64 word \<Rightarrow> run_id \<Rightarrow> event list \<Rightarrow> bool" where
  "readable marshal unmarshal expected run [] = True"
| "readable marshal unmarshal expected run (e # es) =
     (is_ok (encode_frame marshal e) \<and> codec_faithful marshal unmarshal e \<and> accepts_event expected run e
      \<and> readable marshal unmarshal (expected + 1) (if run = [] then e_run_id e else run) es)"

definition frame_bytes :: "marshaller \<Rightarrow> event \<Rightarrow> string" where
  "frame_bytes marshal e = (case encode_frame marshal e of Inl _ \<Rightarrow> [] | Inr f \<Rightarrow> f)"

definition frames :: "marshaller \<Rightarrow> event list \<Rightarrow> string" where
  "frames marshal evs = concat (map (frame_bytes marshal) evs)"

definition add_events :: "marshaller \<Rightarrow> event list \<Rightarrow> read_result \<Rightarrow> read_result" where
  "add_events marshal evs res = res\<lparr>rr_events := rr_events res @ map stored_event evs,
     rr_valid_bytes := rr_valid_bytes res + int (length (frames marshal evs))\<rparr>"

lemma frames_simps [simp]:
  "frames marshal [] = []"
  "frames marshal (e # es) = frame_bytes marshal e @ frames marshal es"
  "frames marshal (es @ fs) = frames marshal es @ frames marshal fs"
  by (simp_all add: frames_def)

lemma encode_frame_ok:
  assumes "is_ok (encode_frame marshal e)"
  obtains raw where "event_validate e = None" "marshal e = Inr raw" "length raw \<le> max_record_bytes"
    "frame_bytes marshal e = frame_of raw"
proof -
  from assms obtain f where f: "encode_frame marshal e = Inr f" by (auto simp: is_ok_iff)
  then have "frame_bytes marshal e = f" by (simp add: frame_bytes_def)
  with f that show thesis by (auto simp: encode_frame_Inr)
qed

lemma read_frames_event:
  assumes "is_ok (encode_frame marshal e)" and "codec_faithful marshal unmarshal e" and "accepts_event expected run e"
  shows "read_frames unmarshal fault (frame_bytes marshal e @ rest) res expected run =
    read_frames unmarshal fault rest (add_events marshal [e] res) (expected + 1) (if run = [] then e_run_id e else run)"
proof -
  from encode_frame_ok [OF assms(1)] obtain raw where raw: "event_validate e = None" "marshal e = Inr raw"
    "length raw \<le> max_record_bytes" "frame_bytes marshal e = frame_of raw" .
  then have "add_events marshal [e] res = extend_result (stored_event e) (length raw) res"
    by (simp add: add_events_def extend_result_def frame_of_length)
  moreover have "accepts_event expected run (stored_event e)" using assms(3) by (simp add: accepts_event_def)
  ultimately show ?thesis
    using read_frames_frame [of raw unmarshal "stored_event e" expected run fault rest res] raw assms(2)
    by (simp add: codec_faithful_def)
qed

fun run_after :: "run_id \<Rightarrow> event list \<Rightarrow> run_id" where
  "run_after run [] = run"
| "run_after run (e # es) = run_after (if run = [] then e_run_id e else run) es"

lemma read_frames_events:
  "readable marshal unmarshal expected run evs \<Longrightarrow>
     read_frames unmarshal fault (frames marshal evs @ rest) res expected run =
     read_frames unmarshal fault rest (add_events marshal evs res) (expected + word_of_nat (length evs)) (run_after run evs)"
proof (induction evs arbitrary: expected run res)
  case Nil
  then show ?case by (simp add: add_events_def)
next
  case (Cons e evs)
  have "add_events marshal evs (add_events marshal [e] res) = add_events marshal (e # evs) res"
    by (simp add: add_events_def)
  with Cons read_frames_event [of marshal e unmarshal expected run fault "frames marshal evs @ rest" res]
  show ?case by (simp add: add.assoc)
qed

section \<open>A truncated tail\<close>

text \<open>What is left of a frame that was cut off is reported as a truncated tail, never as an error.\<close>

lemma read_frames_partial:
  assumes "is_ok (encode_frame marshal e)" and "codec_faithful marshal unmarshal e"
    and "k < length (frame_bytes marshal e)" and "0 < k"
  shows "read_frames unmarshal None (take k (frame_bytes marshal e)) res expected run = Inr (res\<lparr>rr_truncated_tail := True\<rparr>)"
proof -
  from encode_frame_ok [OF assms(1)] obtain raw where raw: "marshal e = Inr raw" "length raw \<le> max_record_bytes"
    "frame_bytes marshal e = frame_of raw" by metis
  have len: "length raw < 2 ^ 32" using raw(2) by (simp add: max_record_bytes_def)
  have nonempty: "raw \<noteq> []" using assms(2) raw(1) by (simp add: codec_faithful_def)
  let ?head = "frame_magic @ be32_bytes (length raw) @ be32_bytes (unat (crc32 raw))"
  have f: "frame_of raw = ?head @ raw" by (simp add: frame_of_def)
  have k: "k < 12 + length raw" using assms(3) raw(3) by (simp add: frame_of_length frame_header_bytes_def)
  show ?thesis
  proof (cases "k < 12")
    case True
    then have "read_full frame_header_bytes (take k (frame_of raw)) None = ShortRead"
      using assms(4) k f by (auto simp: read_full_def frame_header_bytes_def frame_of_length frame_magic_def)
    then show ?thesis unfolding raw(3) by (subst read_frames.simps) simp
  next
    case False
    then have cut: "take k (frame_of raw) = ?head @ take (k - 12) raw" by (simp add: f)
    have front: "read_full frame_header_bytes (?head @ take (k - 12) raw) None = Full ?head (take (k - 12) raw)"
      by (simp add: read_full_def frame_header_bytes_def)
    have "read_full (length raw) (take (k - 12) raw) None \<in> {AtEOF, ShortRead}"
      using k False by (auto simp: read_full_def)
    then show ?thesis unfolding raw(3) cut
      using raw(2) nonempty be32_value_bytes [OF len]
      by (subst read_frames.simps) (auto simp: front [simplified] Let_def)
  qed
qed

lemma read_frames_Nil: "read_frames unmarshal None [] res expected run = Inr res"
  by (subst read_frames.simps) (simp add: read_full_def frame_header_bytes_def)

lemma readable_append:
  "readable marshal unmarshal expected run (xs @ ys) \<longleftrightarrow> readable marshal unmarshal expected run xs
     \<and> readable marshal unmarshal (expected + word_of_nat (length xs)) (run_after run xs) ys"
  by (induction xs arbitrary: expected run) (auto simp: add.assoc)

text \<open>Any prefix of the bytes of some frames is the frames of a prefix and a cut frame.\<close>

lemma frames_prefix:
  "\<exists>k c. k \<le> length evs \<and> take n (frames marshal evs) = frames marshal (take k evs) @ c
     \<and> (c = [] \<or> (k < length evs \<and> (\<exists>j. 0 < j \<and> j < length (frame_bytes marshal (evs ! k))
          \<and> c = take j (frame_bytes marshal (evs ! k)))))"
proof (induction evs arbitrary: n)
  case Nil
  then show ?case by simp
next
  case (Cons e evs)
  let ?f = "frame_bytes marshal e"
  show ?case
  proof (cases "n < length ?f")
    case True
    show ?thesis
    proof (cases "n = 0")
      case True
      then show ?thesis by (intro exI [of _ 0] exI [of _ "[]"]) simp
    next
      case False
      with True show ?thesis
        by (intro exI [of _ 0] exI [of _ "take n ?f"]) (auto intro!: exI [of _ n])
    qed
  next
    case False
    then have cut: "take n (frames marshal (e # evs)) = ?f @ take (n - length ?f) (frames marshal evs)" by simp
    from Cons.IH [of "n - length ?f"] obtain k c where k: "k \<le> length evs"
      "take (n - length ?f) (frames marshal evs) = frames marshal (take k evs) @ c"
      "c = [] \<or> (k < length evs \<and> (\<exists>j. 0 < j \<and> j < length (frame_bytes marshal (evs ! k))
          \<and> c = take j (frame_bytes marshal (evs ! k))))" by blast
    then show ?thesis unfolding cut by (intro exI [of _ "Suc k"] exI [of _ c]) auto
  qed
qed

section \<open>Reading arbitrary bytes\<close>

text \<open>Whatever the bytes, the events returned are valid, consecutive and of one run.\<close>

fun chained :: "64 word \<Rightarrow> run_id \<Rightarrow> event list \<Rightarrow> bool" where
  "chained expected run [] = True"
| "chained expected run (e # es) =
     (event_validate e = None \<and> accepts_event expected run e
      \<and> chained (expected + 1) (if run = [] then e_run_id e else run) es)"

definition grow_result :: "event list \<Rightarrow> nat \<Rightarrow> read_result \<Rightarrow> read_result" where
  "grow_result evs k res = res\<lparr>rr_events := rr_events res @ evs, rr_valid_bytes := rr_valid_bytes res + int k\<rparr>"

text \<open>
  What \<open>Read\<close> found up to \<open>ValidBytes\<close> it finds again when anything follows: the rest is read from the
  state it had reached.
\<close>

definition reads_prefix :: "unmarshaller \<Rightarrow> string \<Rightarrow> 64 word \<Rightarrow> run_id \<Rightarrow> event list \<Rightarrow> bool" where
  "reads_prefix unmarshal data expected run evs \<longleftrightarrow> (\<forall>fault rest res.
     read_frames unmarshal fault (data @ rest) res expected run =
     read_frames unmarshal fault rest (grow_result evs (length data) res)
       (expected + word_of_nat (length evs)) (run_after run evs))"

lemma reads_prefix_Nil [simp]: "reads_prefix unmarshal [] expected run []"
  by (simp add: reads_prefix_def grow_result_def)

lemma check_record_Inr:
  "check_record unmarshal digest raw expected run = Inr e \<Longrightarrow> event_validate e = None \<and> accepts_event expected run e"
  by (auto simp: check_record_def decode_event_def accepts_event_def split: if_splits option.splits sum.splits)

lemma read_full_Full:
  "read_full n data fault = Full a b \<longleftrightarrow> n \<le> length data \<and> a = take n data \<and> b = drop n data"
  by (auto simp: read_full_def split: option.splits)

lemma reads_prefix_record:
  assumes head: "read_full frame_header_bytes data fault = Full front rest" and magic: "take 4 front = frame_magic"
    and n: "n = be32_value (take 4 (drop 4 front))" "n \<noteq> 0" "n \<le> max_record_bytes"
    and body: "read_full n rest fault = Full raw rest'"
    and accepted: "check_record unmarshal (drop 8 front) raw expected run = Inr e"
    and tail: "reads_prefix unmarshal (take k rest') (expected + 1) (if run = [] then e_run_id e else run) evs"
  shows "reads_prefix unmarshal (take (frame_header_bytes + n + k) data) expected run (e # evs)"
  unfolding reads_prefix_def
proof (intro allI)
  fix fault' more and res :: read_result
  have data: "frame_header_bytes \<le> length data" "front = take frame_header_bytes data" "rest = drop frame_header_bytes data"
    and raw: "n \<le> length rest" "raw = take n rest" "rest' = drop n rest"
    using head body by (auto simp: read_full_Full)
  let ?k = "frame_header_bytes + n + k"
  have cut: "take ?k data = front @ raw @ take k rest'"
    by (simp add: data(2,3) raw(2,3) take_add add.assoc)
  have lens: "length front = frame_header_bytes" "length raw = n" using data raw by simp_all
  have at_head: "read_full frame_header_bytes (take ?k data @ more) fault' = Full front (raw @ take k rest' @ more)"
    unfolding cut by (simp add: read_full_Full lens)
  have inner: "read_full n (raw @ take k rest' @ more) fault' = Full raw (take k rest' @ more)"
    by (simp add: read_full_Full lens)
  have len: "length (take ?k data) = frame_header_bytes + n + length (take k rest')"
    unfolding cut by (simp add: lens)
  have "read_frames unmarshal fault' (take ?k data @ more) res expected run =
      read_frames unmarshal fault' (take k rest' @ more)
        (res\<lparr>rr_events := rr_events res @ [e], rr_valid_bytes := rr_valid_bytes res + int frame_header_bytes + int n\<rparr>)
        (expected + 1) (if run = [] then e_run_id e else run)"
    using n(2,3) by (subst read_frames.simps) (simp add: at_head magic n(1) [symmetric] inner accepted Let_def)
  also have "\<dots> = read_frames unmarshal fault' more
      (grow_result evs (length (take k rest')) (res\<lparr>rr_events := rr_events res @ [e],
         rr_valid_bytes := rr_valid_bytes res + int frame_header_bytes + int n\<rparr>))
      (expected + 1 + word_of_nat (length evs)) (run_after (if run = [] then e_run_id e else run) evs)"
    using tail unfolding reads_prefix_def by blast
  also have "grow_result evs (length (take k rest')) (res\<lparr>rr_events := rr_events res @ [e],
         rr_valid_bytes := rr_valid_bytes res + int frame_header_bytes + int n\<rparr>)
      = grow_result (e # evs) (length (take ?k data)) res"
    unfolding len by (simp add: grow_result_def)
  finally show "read_frames unmarshal fault' (take ?k data @ more) res expected run =
      read_frames unmarshal fault' more (grow_result (e # evs) (length (take ?k data)) res)
        (expected + word_of_nat (length (e # evs))) (run_after run (e # evs))"
    by (simp add: add.assoc)
qed

lemma read_frames_sound:
  "read_frames unmarshal fault data res expected run = Inr out \<Longrightarrow>
     \<exists>evs k. rr_events out = rr_events res @ evs \<and> rr_valid_bytes out = rr_valid_bytes res + int k \<and> k \<le> length data
       \<and> chained expected run evs \<and> (rr_truncated_tail out \<longleftrightarrow> rr_truncated_tail res \<or> k < length data)
       \<and> reads_prefix unmarshal (take k data) expected run evs"
proof (induction unmarshal fault data res expected run rule: read_frames.induct)
  case (1 unmarshal fault data res expected run)
  note step = "1.prems" [unfolded read_frames.simps [of unmarshal fault data]]
  have stop: ?case if "out = res\<lparr>rr_truncated_tail := True\<rparr>" "data \<noteq> []"
    using that by (intro exI [of _ "[]"] exI [of _ 0]) simp
  show ?case
  proof (cases "read_full frame_header_bytes data fault")
    case (Full front rest)
    let ?n = "be32_value (take 4 (drop 4 front))"
    have long: "frame_header_bytes \<le> length data" "rest = drop frame_header_bytes data"
      using Full by (auto simp: read_full_Full)
    then have nonempty: "data \<noteq> []" by (auto simp: frame_header_bytes_def)
    from step have magic: "take 4 front = frame_magic" and n: "?n \<noteq> 0" "?n \<le> max_record_bytes"
      by (auto simp: Full Let_def split: if_splits)
    show ?thesis
    proof (cases "read_full ?n rest fault")
      case body: (Full raw rest')
      then have rest': "?n \<le> length rest" "rest' = drop ?n rest" by (auto simp: read_full_Full)
      from step obtain e where e: "check_record unmarshal (drop 8 front) raw expected run = Inr e"
        using Full body magic n by (auto simp: Let_def split: sum.splits if_splits)
      let ?res = "res\<lparr>rr_events := rr_events res @ [e], rr_valid_bytes := rr_valid_bytes res + int frame_header_bytes + int ?n\<rparr>"
      let ?run = "if run = [] then e_run_id e else run"
      have onward: "read_frames unmarshal fault rest' ?res (expected + 1) ?run = Inr out"
        using step Full body magic n e by (simp add: Let_def)
      obtain evs k where ih: "rr_events out = rr_events ?res @ evs" "rr_valid_bytes out = rr_valid_bytes ?res + int k"
          "k \<le> length rest'" "chained (expected + 1) ?run evs"
          "rr_truncated_tail out \<longleftrightarrow> rr_truncated_tail ?res \<or> k < length rest'"
          "reads_prefix unmarshal (take k rest') (expected + 1) ?run evs"
        using "1.IH" [OF Full _ refl _ body e onward] magic n by auto
      have "reads_prefix unmarshal (take (frame_header_bytes + ?n + k) data) expected run (e # evs)"
        by (rule reads_prefix_record [OF Full magic refl n body e ih(6)])
      with ih check_record_Inr [OF e] long rest' show ?thesis
        by (intro exI [of _ "e # evs"] exI [of _ "frame_header_bytes + ?n + k"]) auto
    qed (use step Full magic n nonempty stop in \<open>auto simp: Let_def\<close>)
  next
    case AtEOF
    then have "data = []" "out = res" using step by (auto simp: read_full_def split: if_splits option.splits)
    then show ?thesis by (intro exI [of _ "[]"] exI [of _ 0]) simp
  next
    case ShortRead
    then have "data \<noteq> []" by (auto simp: read_full_def split: if_splits option.splits)
    with ShortRead step stop show ?thesis by simp
  next
    case (Faulted e)
    with step show ?thesis by simp
  qed
qed

end
