(* ===== verification/Frame_Claims.thy ===== *)
theory Frame_Claims
  imports Journal_Frame Journal_Demo
begin

text \<open>
  The properties of \<open>Read\<close>: it returns the acknowledged events of a journal cut off at any byte, it never
  returns an event that is invalid or out of sequence, and what it reports as valid can be truncated to
  and appended to.
\<close>

definition whole :: "string \<Rightarrow> reader option" where
  "whole data = Some \<lparr>rdr_data = data, rdr_fault = None\<rparr>"

text \<open>A codec for the two events of \<open>demo_start\<close>, for the witnesses.\<close>

definition demo_marshal :: marshaller where
  "demo_marshal e = Inr [char_of (unat (e_sequence e))]"

definition demo_unmarshal :: unmarshaller where
  "demo_unmarshal raw = (if raw = [char_of (1::nat)] then Some (demo_start ! 0, [])
     else if raw = [char_of (2::nat)] then Some (demo_start ! 1, []) else None)"

lemma demo_readable: "readable demo_marshal demo_unmarshal 1 [] demo_start"
  by (simp add: demo_start_def demo_marshal_def demo_unmarshal_def codec_faithful_def encode_frame_def
    accepts_event_def stored_event_def json_compact_def max_record_bytes_def reduce_eval)

lemma demo_start_length: "length demo_start = 2"
  by (simp add: demo_start_def)

section \<open>Truncation\<close>

text \<open>C16  Reading a journal whose file was cut off at any byte, as a crash leaves it, is never an error: it
  returns exactly the events whose frames are complete, and reports a truncated tail exactly when bytes
  are left over.\<close>

theorem truncated_journal_recovers:
  assumes "readable marshal unmarshal 1 [] evs" and "n \<le> length (frames marshal evs)"
  shows "\<exists>k \<le> length evs. length (frames marshal (take k evs)) \<le> n
    \<and> (k < length evs \<longrightarrow> n < length (frames marshal (take (Suc k) evs)))
    \<and> read_journal unmarshal (whole (take n (frames marshal evs))) =
        Inr \<lparr>rr_events = map stored_event (take k evs), rr_truncated_tail = (length (frames marshal (take k evs)) < n),
             rr_valid_bytes = int (length (frames marshal (take k evs)))\<rparr>"
proof -
  let ?full = "frames marshal evs"
  obtain k c where k: "k \<le> length evs" "take n ?full = frames marshal (take k evs) @ c"
    and c: "c = [] \<or> (k < length evs \<and> (\<exists>j. 0 < j \<and> j < length (frame_bytes marshal (evs ! k))
        \<and> c = take j (frame_bytes marshal (evs ! k))))"
    using frames_prefix [of evs n marshal] by blast
  have n: "n = length (frames marshal (take k evs)) + length c"
    using arg_cong [OF k(2), of length] assms(2) by simp
  have split: "readable marshal unmarshal 1 [] (take k evs @ drop k evs)" using assms(1) by simp
  then have front: "readable marshal unmarshal 1 [] (take k evs)"
    and behind: "readable marshal unmarshal (1 + word_of_nat (length (take k evs))) (run_after [] (take k evs)) (drop k evs)"
    by (simp_all only: readable_append)
  let ?res = "add_events marshal (take k evs) empty_result"
  have read: "read_journal unmarshal (whole (take n ?full)) =
      read_frames unmarshal None c ?res (1 + word_of_nat (length (take k evs))) (run_after [] (take k evs))"
    using read_frames_events [OF front, of None c empty_result]
    by (simp add: read_journal_def whole_def k(2))
  have following: "k < length evs \<Longrightarrow> drop k evs = evs ! k # drop (Suc k) evs"
    by (simp add: Cons_nth_drop_Suc)
  have event: "is_ok (encode_frame marshal (evs ! k))" "codec_faithful marshal unmarshal (evs ! k)" if "k < length evs"
    using behind following [OF that] by simp_all
  have nonempty: "0 < length (frame_bytes marshal (evs ! k))" if less: "k < length evs"
  proof -
    from encode_frame_ok [OF event(1) [OF less]] obtain raw where "frame_bytes marshal (evs ! k) = frame_of raw" by metis
    then show ?thesis by (simp add: frame_of_length frame_header_bytes_def)
  qed
  have step: "k < length evs \<Longrightarrow> frames marshal (take (Suc k) evs) = frames marshal (take k evs) @ frame_bytes marshal (evs ! k)"
    by (simp add: take_Suc_conv_app_nth)
  have bound: "k < length evs \<longrightarrow> n < length (frames marshal (take (Suc k) evs))"
    using c n step nonempty by auto
  have result: "read_frames unmarshal None c ?res e r = Inr (?res\<lparr>rr_truncated_tail := (c \<noteq> [])\<rparr>)" for e r
  proof (cases "c = []")
    case True
    then show ?thesis by (simp add: read_frames_Nil add_events_def empty_result_def)
  next
    case False
    then obtain j where j: "k < length evs" "0 < j" "j < length (frame_bytes marshal (evs ! k))"
      "c = take j (frame_bytes marshal (evs ! k))" using c by blast
    with read_frames_partial [OF event [OF j(1)] j(3,2), of ?res e r] False show ?thesis by simp
  qed
  show ?thesis
  proof (intro exI [of _ k] conjI)
    show "read_journal unmarshal (whole (take n ?full)) =
        Inr \<lparr>rr_events = map stored_event (take k evs), rr_truncated_tail = (length (frames marshal (take k evs)) < n),
             rr_valid_bytes = int (length (frames marshal (take k evs)))\<rparr>"
      unfolding read result using n by (simp add: add_events_def empty_result_def)
  qed (use k n bound in simp_all)
qed

theorem truncated_journal_recovers_witness:
  "\<exists>k \<le> 2. \<exists>t. read_journal demo_unmarshal (whole (take 15 (frames demo_marshal demo_start))) =
     Inr \<lparr>rr_events = map stored_event (take k demo_start), rr_truncated_tail = t,
          rr_valid_bytes = int (length (frames demo_marshal (take k demo_start)))\<rparr>"
proof -
  have "15 \<le> length (frames demo_marshal demo_start)"
    by (simp add: demo_start_def frame_bytes_def demo_marshal_def encode_frame_def frame_of_def max_record_bytes_def reduce_eval)
  from truncated_journal_recovers [OF demo_readable this] show ?thesis unfolding demo_start_length by blast
qed

section \<open>Soundness\<close>

text \<open>C17  Whatever bytes are read, the events returned are valid, numbered 1, 2, 3 and so on, and of one run;
  \<open>ValidBytes\<close> lies within the data, and \<open>TruncatedTail\<close> tells exactly whether bytes are left over.\<close>

theorem read_journal_sound:
  assumes "read_journal unmarshal (Some r) = Inr out"
  shows "chained 1 [] (rr_events out) \<and> 0 \<le> rr_valid_bytes out \<and> rr_valid_bytes out \<le> int (length (rdr_data r))
    \<and> (rr_truncated_tail out \<longleftrightarrow> rr_valid_bytes out < int (length (rdr_data r)))"
  using read_frames_sound [of unmarshal "rdr_fault r" "rdr_data r" empty_result 1 "[]" out] assms
  by (auto simp: read_journal_def empty_result_def)

theorem read_journal_sound_witness:
  "\<exists>out. read_journal demo_unmarshal (whole (frames demo_marshal demo_start)) = Inr out \<and> chained 1 [] (rr_events out)"
proof -
  obtain out where out: "read_journal demo_unmarshal (whole (frames demo_marshal demo_start)) = Inr out"
    using read_frames_events [OF demo_readable, of None "[]" empty_result]
    by (auto simp: read_journal_def whole_def read_frames_Nil)
  with read_journal_sound [of demo_unmarshal "\<lparr>rdr_data = frames demo_marshal demo_start, rdr_fault = None\<rparr>" out]
  show ?thesis by (auto simp: whole_def)
qed

text \<open>C18  Recovery is exact: after truncating any readable file to \<open>ValidBytes\<close> the same events are read with no
  truncated tail, and appending the frame of the next event makes exactly that event follow them.\<close>

theorem recovery_is_exact:
  assumes "read_journal unmarshal (Some r) = Inr out"
    and "is_ok (encode_frame marshal e)" and "codec_faithful marshal unmarshal e"
    and "accepts_event (1 + word_of_nat (length (rr_events out))) (run_after [] (rr_events out)) e"
  shows "read_journal unmarshal (whole (take (nat (rr_valid_bytes out)) (rdr_data r)))
      = Inr (out\<lparr>rr_truncated_tail := False\<rparr>)
    \<and> read_journal unmarshal (whole (take (nat (rr_valid_bytes out)) (rdr_data r) @ frame_bytes marshal e))
      = Inr \<lparr>rr_events = rr_events out @ [stored_event e], rr_truncated_tail = False,
             rr_valid_bytes = rr_valid_bytes out + int (length (frame_bytes marshal e))\<rparr>"
proof -
  obtain k where k: "rr_valid_bytes out = int k" "k \<le> length (rdr_data r)"
    and prefix: "reads_prefix unmarshal (take k (rdr_data r)) 1 [] (rr_events out)"
    using read_frames_sound [of unmarshal "rdr_fault r" "rdr_data r" empty_result 1 "[]" out] assms(1)
    by (auto simp: read_journal_def empty_result_def)
  let ?data = "take k (rdr_data r)"
  have read: "read_journal unmarshal (whole (?data @ more)) =
      read_frames unmarshal None more (grow_result (rr_events out) k empty_result)
        (1 + word_of_nat (length (rr_events out))) (run_after [] (rr_events out))" for more
    using prefix k(2) by (simp add: read_journal_def whole_def reads_prefix_def min_absorb2)
  have same: "grow_result (rr_events out) k empty_result = out\<lparr>rr_truncated_tail := False\<rparr>"
    by (rule read_result.equality) (simp_all add: grow_result_def empty_result_def k(1))
  have "read_journal unmarshal (whole ?data) = Inr (out\<lparr>rr_truncated_tail := False\<rparr>)"
    using read [of "[]"] by (simp add: read_frames_Nil same)
  moreover have "read_journal unmarshal (whole (?data @ frame_bytes marshal e)) =
      Inr (add_events marshal [e] (out\<lparr>rr_truncated_tail := False\<rparr>))"
    using read [of "frame_bytes marshal e"] read_frames_event [OF assms(2-4), of None "[]"]
    by (simp add: read_frames_Nil same)
  ultimately show ?thesis by (simp add: k(1) add_events_def)
qed

theorem recovery_is_exact_witness:
  "\<exists>out. read_journal demo_unmarshal (whole (frames demo_marshal (take 1 demo_start))) = Inr out
     \<and> read_journal demo_unmarshal (whole (take (nat (rr_valid_bytes out)) (frames demo_marshal (take 1 demo_start))
          @ frame_bytes demo_marshal (demo_start ! 1)))
       = Inr \<lparr>rr_events = rr_events out @ [stored_event (demo_start ! 1)], rr_truncated_tail = False,
              rr_valid_bytes = rr_valid_bytes out + int (length (frame_bytes demo_marshal (demo_start ! 1)))\<rparr>"
proof -
  let ?first = "take 1 demo_start" and ?e = "demo_start ! 1"
  have parts: "demo_start = ?first @ [?e]" by (simp add: demo_start_def)
  have "readable demo_marshal demo_unmarshal 1 [] (?first @ [?e])" using demo_readable parts by simp
  then have first: "readable demo_marshal demo_unmarshal 1 [] ?first"
    and last: "readable demo_marshal demo_unmarshal (1 + word_of_nat (length ?first)) (run_after [] ?first) [?e]"
    by (simp_all only: readable_append)
  let ?out = "add_events demo_marshal ?first empty_result"
  have out: "read_journal demo_unmarshal (Some \<lparr>rdr_data = frames demo_marshal ?first, rdr_fault = None\<rparr>) = Inr ?out"
    using read_frames_events [OF first, of None "[]" empty_result] by (simp add: read_journal_def read_frames_Nil)
  have evs: "length (rr_events ?out) = length ?first" "run_after [] (rr_events ?out) = run_after [] ?first"
    by (simp_all add: add_events_def empty_result_def demo_start_def)
  have "is_ok (encode_frame demo_marshal ?e)" "codec_faithful demo_marshal demo_unmarshal ?e"
    "accepts_event (1 + word_of_nat (length (rr_events ?out))) (run_after [] (rr_events ?out)) ?e"
    using last unfolding evs by simp_all
  from recovery_is_exact [OF out this] out show ?thesis by (auto simp: whole_def)
qed

end
