(* ===== verification/Journal_Writer.thy ===== *)
theory Journal_Writer
  imports Journal_Frame Journal_Reduce
begin

text \<open>
  The journal writer, \<open>internal/journal/writer.go\<close>, with the retry authorization of \<open>retry.go\<close> and the
  lock of \<open>lock_unix.go\<close>.  The operating system is explicit: a file carries its content and a script of
  what its next calls return (an empty script means success), the directory an oracle for the calls that
  \<open>OpenWriter\<close> makes, and the clock is a function of how often it was read.  The methods hold the writer's
  mutex from start to end, so each is one step on its state; a nil \<open>*Writer\<close> is \<open>None\<close>.
\<close>

section \<open>Durable files\<close>

record durable_file =
  fl_content :: string
  fl_writes :: "(nat \<times> error option) list"
  fl_syncs :: "error option list"
  fl_close :: "error option"
  fl_unlock :: "error option"

text \<open>One \<open>Write\<close>: how many bytes it takes, at most all of them, and its error.\<close>

definition file_write :: "durable_file \<Rightarrow> string \<Rightarrow> durable_file \<times> nat \<times> error option" where
  "file_write f data = (case fl_writes f of
     [] \<Rightarrow> (f\<lparr>fl_content := fl_content f @ data\<rparr>, length data, None)
   | (n, err) # ws \<Rightarrow>
       (f\<lparr>fl_content := fl_content f @ take n data, fl_writes := ws\<rparr>, min n (length data), err))"

definition file_sync :: "durable_file \<Rightarrow> durable_file \<times> error option" where
  "file_sync f = (case fl_syncs f of [] \<Rightarrow> (f, None) | err # ss \<Rightarrow> (f\<lparr>fl_syncs := ss\<rparr>, err))"

function write_full :: "durable_file \<Rightarrow> string \<Rightarrow> durable_file \<times> error option" where
  "write_full f data =
     (if data = [] then (f, None)
      else (case file_write f data of (f', n, err) \<Rightarrow>
        (case err of
           Some e \<Rightarrow> (f', Some e)
         | None \<Rightarrow> if n = 0 then (f', Some (ErrorIs ErrShortWrite ''short write'' []))
                   else write_full f' (drop n data))))"
  by pat_completeness auto
termination
  by (relation "measure (\<lambda>(_, data). length data)") auto

declare write_full.simps [simp del]

section \<open>The writer\<close>

record writer =
  w_file :: "durable_file option"
  w_path :: string
  w_lock :: "durable_file option"
  w_run_id :: run_id
  w_next :: "64 word"
  w_clock :: "nat \<Rightarrow> time"
  w_ticks :: nat
  w_events :: "event list"
  w_poisoned :: bool
  w_closed :: bool

definition err_writer_closed :: error where
  "err_writer_closed = ErrorIs ErrWriterClosed ''journal writer is closed'' []"

definition err_writer_poisoned :: error where
  "err_writer_poisoned = ErrorIs ErrWriterPoisoned ''journal writer is poisoned'' []"

text \<open>The checks of \<open>appendLocked\<close> before the event is built.\<close>

definition append_error :: "writer \<Rightarrow> entry \<Rightarrow> error option" where
  "append_error w en = first_error [
     fail_if (w_file w = None \<or> w_closed w) err_writer_closed,
     fail_if (w_poisoned w) err_writer_poisoned,
     fail_if (en_run_id en \<noteq> w_run_id w)
       (Errorf ''entry run ID %q does not match writer run %q'' [en_run_id en, w_run_id w]),
     fail_if (w_next w = 1 \<and> en_type en \<noteq> EventRunStarted)
       (Errorf ''first journal event must be %q'' [''RUN_STARTED'']),
     fail_if (w_next w > 1 \<and> en_type en = EventRunStarted)
       (Errorf ''run-started event already exists'' []),
     entry_validate en]"

definition new_event :: "64 word \<Rightarrow> time \<Rightarrow> entry \<Rightarrow> event" where
  "new_event n t en = \<lparr>e_schema_version = schema_version, e_sequence = n, e_run_id = en_run_id en,
     e_plan_id = en_plan_id en, e_type = en_type en, e_operation_id = en_operation_id en,
     e_target_id = en_target_id en, e_observed_at = t, e_payload = en_payload en\<rparr>"

text \<open>Writing the frame: a failed write or sync poisons the writer.\<close>

definition commit_event :: "writer \<Rightarrow> durable_file \<Rightarrow> event \<Rightarrow> string \<Rightarrow> writer \<times> event result" where
  "commit_event w f e frame = (case write_full f frame of
     (f1, Some err) \<Rightarrow> (w\<lparr>w_file := Some f1, w_poisoned := True\<rparr>, Inl err)
   | (f1, None) \<Rightarrow> (case file_sync f1 of
         (f2, Some err) \<Rightarrow> (w\<lparr>w_file := Some f2, w_poisoned := True\<rparr>, Inl err)
       | (f2, None) \<Rightarrow> (w\<lparr>w_file := Some f2, w_events := w_events w @ [e], w_next := w_next w + 1\<rparr>, Inr e)))"

definition append_locked :: "marshaller \<Rightarrow> writer \<Rightarrow> entry \<Rightarrow> writer \<times> event result" where
  "append_locked marshal w en = (case append_error w en of
     Some err \<Rightarrow> (w, Inl err)
   | None \<Rightarrow>
       (let e = new_event (w_next w) (w_clock w (w_ticks w)) en; w1 = w\<lparr>w_ticks := Suc (w_ticks w)\<rparr> in
        case encode_frame marshal e of
          Inl err \<Rightarrow> (w1, Inl err)
        | Inr frame \<Rightarrow> (case w_file w of
              None \<Rightarrow> (w1, Inl err_writer_closed)
            | Some f \<Rightarrow> commit_event w1 f e frame)))"

definition append_entry :: "marshaller \<Rightarrow> writer option \<Rightarrow> entry \<Rightarrow> writer option \<times> event result" where
  "append_entry marshal w en = (case w of
     None \<Rightarrow> (None, Inl err_writer_closed)
   | Some w \<Rightarrow> map_prod Some id (append_locked marshal w en))"

definition writer_events :: "writer option \<Rightarrow> event list" where
  "writer_events w = (case w of None \<Rightarrow> [] | Some w \<Rightarrow> w_events w)"

definition release_lock :: "durable_file option \<Rightarrow> error option" where
  "release_lock lock = (case lock of
     None \<Rightarrow> None
   | Some f \<Rightarrow> first_error [fl_unlock f, fl_close f])"

definition close_writer :: "writer option \<Rightarrow> writer option \<times> error option" where
  "close_writer w = (case w of
     None \<Rightarrow> (None, None)
   | Some w \<Rightarrow>
       if w_closed w then (Some w, None)
       else (Some (w\<lparr>w_closed := True, w_lock := None\<rparr>),
             first_error [(case w_file w of None \<Rightarrow> None | Some f \<Rightarrow> fl_close f), release_lock (w_lock w)]))"

section \<open>Authorizing a retry\<close>

definition retry_entry :: "run_id \<Rightarrow> operation_state \<Rightarrow> entry" where
  "retry_entry run op = \<lparr>en_run_id = run, en_plan_id = [], en_type = EventRetryAuthorized,
     en_operation_id = os_id op, en_target_id = os_target_id op,
     en_payload = no_payload\<lparr>pay_attempt := os_attempt op\<rparr>\<rparr>"

definition authorize_error :: "writer \<Rightarrow> run_id \<Rightarrow> error option" where
  "authorize_error w run = first_error [
     fail_if (w_file w = None \<or> w_closed w) err_writer_closed,
     fail_if (w_poisoned w) err_writer_poisoned,
     fail_if (w_run_id w \<noteq> run) (Errorf ''journal belongs to run %q'' [w_run_id w]),
     fail_if (w_events w = []) (Errorf ''retry authorization requires a started journal'' [])]"

text \<open>\<open>now\<close> is \<open>time.Now()\<close>, read for the proposed event; the appended one takes the writer's clock.\<close>

definition authorize_ambiguous_retry ::
  "marshaller \<Rightarrow> time \<Rightarrow> plan \<Rightarrow> run_id \<Rightarrow> operation_id \<Rightarrow> writer option \<Rightarrow> writer option \<times> event result" where
  "authorize_ambiguous_retry marshal now p run i w = (case w of
     None \<Rightarrow> (None, Inl err_writer_closed)
   | Some w \<Rightarrow>
       if \<not> valid_identifier i then (Some w, Inl (Errorf ''operation ID is invalid'' []))
       else (case authorize_error w run of
         Some err \<Rightarrow> (Some w, Inl err)
       | None \<Rightarrow> (case reduce p (w_events w) of
           Inl err \<Rightarrow> (Some w, Inl err)
         | Inr state \<Rightarrow> (case derived_operation state i of
             None \<Rightarrow> (Some w, Inl (Errorf ''operation %q does not belong to the plan'' [i]))
           | Some op \<Rightarrow>
               (let en = retry_entry run op in
                case reduce p (w_events w @ [new_event (w_next w) now en]) of
                  Inl err \<Rightarrow> (Some w, Inl err)
                | Inr _ \<Rightarrow> map_prod Some id (append_locked marshal w en))))))"

section \<open>Opening\<close>

text \<open>The system calls of \<open>OpenWriter\<close> and \<open>acquireLock\<close> that may fail, each made at most once.\<close>

datatype call =
    CallAbs | CallMkdir | CallLockOpen | CallLock | CallLockTruncate | CallLockSeek | CallLockWrite | CallLockSync
  | CallOpenRead | CallRead | CallStat | CallOpen | CallSyncDirectory | CallTruncate | CallSync | CallSeek

record directory =
  dir_content :: "string option"
  dir_locked :: bool
  dir_handle :: durable_file
  dir_fault :: "call \<Rightarrow> error option"

definition err_writer_locked :: error where
  "err_writer_locked = ErrorIs ErrWriterLocked ''journal writer is locked'' []"

text \<open>
  \<open>lockJournalFile\<close> takes the lock of the file description, or reports that another holds it; a failure
  after that gives it back.
\<close>

definition acquire_lock :: "directory \<Rightarrow> directory \<times> error option" where
  "acquire_lock d = (case dir_fault d CallLockOpen of
     Some err \<Rightarrow> (d, Some err)
   | None \<Rightarrow>
       if dir_locked d then (d, Some err_writer_locked)
       else (case dir_fault d CallLock of
           Some err \<Rightarrow> (d, Some err)
         | None \<Rightarrow> (case first_error (map (dir_fault d) [CallLockTruncate, CallLockSeek, CallLockWrite, CallLockSync]) of
             Some err \<Rightarrow> (d\<lparr>dir_locked := False\<rparr>, Some err)
           | None \<Rightarrow> (d\<lparr>dir_locked := True\<rparr>, None))))"

definition read_path :: "unmarshaller \<Rightarrow> directory \<Rightarrow> read_result result" where
  "read_path unmarshal d = (case dir_fault d CallOpenRead of
     Some err \<Rightarrow> Inl err
   | None \<Rightarrow> (case dir_content d of
         None \<Rightarrow> Inr empty_result
       | Some data \<Rightarrow> read_journal unmarshal (Some \<lparr>rdr_data = data, rdr_fault = dir_fault d CallRead\<rparr>)))"

text \<open>
  From the read of the file to the writer; \<open>created\<close> is that \<open>Stat\<close> found no file.  \<open>dir_handle\<close> is how the
  opened file and the lock file will answer the calls on them.
\<close>

definition open_locked ::
  "unmarshaller \<Rightarrow> (nat \<Rightarrow> time) \<Rightarrow> string \<Rightarrow> run_id \<Rightarrow> directory \<Rightarrow> directory \<times> writer result" where
  "open_locked unmarshal clock path run d = (case read_path unmarshal d of
     Inl err \<Rightarrow> (d, Inl err)
   | Inr r \<Rightarrow>
       if rr_events r \<noteq> [] \<and> e_run_id (hd (rr_events r)) \<noteq> run
       then (d, Inl (Errorf ''journal belongs to run %q'' [e_run_id (hd (rr_events r))]))
       else (case first_error [dir_fault d CallStat, dir_fault d CallOpen] of
         Some err \<Rightarrow> (d, Inl err)
       | None \<Rightarrow>
           (let created = (dir_content d = None);
                content = (case dir_content d of None \<Rightarrow> [] | Some s \<Rightarrow> s);
                d1 = d\<lparr>dir_content := Some content\<rparr> in
            case (if created then dir_fault d CallSyncDirectory else None) of
              Some err \<Rightarrow> (d1, Inl err)
            | None \<Rightarrow>
                (case (if rr_truncated_tail r then dir_fault d CallTruncate else None) of
                   Some err \<Rightarrow> (d1, Inl err)
                 | None \<Rightarrow>
                     (let kept = (if rr_truncated_tail r then take (nat (rr_valid_bytes r)) content else content);
                          d2 = d1\<lparr>dir_content := Some kept\<rparr> in
                      case first_error [if rr_truncated_tail r then dir_fault d CallSync else None, dir_fault d CallSeek] of
                        Some err \<Rightarrow> (d2, Inl err)
                      | None \<Rightarrow> (d2, Inr
                          \<lparr>w_file = Some ((dir_handle d)\<lparr>fl_content := kept\<rparr>), w_path = path, w_lock = Some (dir_handle d),
                           w_run_id = run, w_next = word_of_nat (length (rr_events r)) + 1, w_clock = clock,
                           w_ticks = 0, w_events = rr_events r, w_poisoned = False, w_closed = False\<rparr>))))))"

definition open_writer ::
  "unmarshaller \<Rightarrow> (nat \<Rightarrow> time) \<Rightarrow> string \<Rightarrow> run_id \<Rightarrow> directory \<Rightarrow> directory \<times> writer result" where
  "open_writer unmarshal clock path run d =
     (if path = [] then (d, Inl (Errorf ''journal path must not be empty'' []))
      else if \<not> valid_identifier run then (d, Inl (Errorf ''run ID is invalid'' []))
      else (case first_error [dir_fault d CallAbs, dir_fault d CallMkdir] of
        Some err \<Rightarrow> (d, Inl err)
      | None \<Rightarrow> (case acquire_lock d of
          (d1, Some err) \<Rightarrow> (d1, Inl err)
        | (d1, None) \<Rightarrow> (case open_locked unmarshal clock path run d1 of
            (d2, Inl err) \<Rightarrow> (d2\<lparr>dir_locked := False\<rparr>, Inl err)
          | (d2, Inr w) \<Rightarrow> (d2, Inr w)))))"

section \<open>What one append does\<close>

lemma file_write_content:
  "file_write f data = (f', n, err) \<Longrightarrow>
     fl_content f' = fl_content f @ take n data \<and> n \<le> length data"
  by (auto simp: file_write_def min_def split: list.splits)

text \<open>A complete write leaves all bytes in the file, a failed one a prefix of them.\<close>

lemma write_full_content:
  "write_full f data = (f', r) \<Longrightarrow>
     (\<exists>k. fl_content f' = fl_content f @ take k data \<and> (r = None \<longrightarrow> length data \<le> k))"
proof (induction f data arbitrary: f' r rule: write_full.induct)
  case (1 f data)
  show ?case
  proof (cases "data = []")
    case True
    with "1.prems" show ?thesis by (auto simp: write_full.simps [of f "[]"])
  next
    case False
    obtain g n err where w: "file_write f data = (g, n, err)" by (cases "file_write f data")
    note c = file_write_content [OF w]
    show ?thesis
    proof (cases "err = None \<and> n \<noteq> 0")
      case True
      then have "write_full g (drop n data) = (f', r)"
        using "1.prems" False w by (simp add: write_full.simps [of f data])
      from "1.IH" [OF False w [symmetric] refl _ _ this] True obtain k where k:
        "fl_content f' = fl_content g @ take k (drop n data)" "r = None \<longrightarrow> length (drop n data) \<le> k" by auto
      have "fl_content f' = fl_content f @ take (n + k) data" using k(1) c by (simp add: take_add)
      with k(2) show ?thesis by (intro exI [of _ "n + k"]) auto
    next
      case stop: False
      then have "r \<noteq> None" "f' = g"
        using "1.prems" False w by (auto simp: write_full.simps [of f data] split: option.splits)
      with c show ?thesis by (intro exI [of _ n]) auto
    qed
  qed
qed

lemma file_sync_content: "file_sync f = (f', r) \<Longrightarrow> fl_content f' = fl_content f"
  by (auto simp: file_sync_def split: list.splits)

lemma new_event_entry [simp]: "event_entry (new_event n t en) = en"
  by (simp add: event_entry_def new_event_def)

lemma new_event_fields [simp]:
  "e_sequence (new_event n t en) = n" "e_observed_at (new_event n t en) = t" "e_run_id (new_event n t en) = en_run_id en"
  "e_type (new_event n t en) = en_type en" "e_operation_id (new_event n t en) = en_operation_id en"
  "e_target_id (new_event n t en) = en_target_id en" "e_payload (new_event n t en) = en_payload en"
  "e_plan_id (new_event n t en) = en_plan_id en"
  by (simp_all add: new_event_def)

text \<open>The outcomes of one append.\<close>

lemma append_locked_cases:
  assumes "append_locked marshal w en = (w', r)"
  obtains
    (refused) err where "r = Inl err" "w_events w' = w_events w" "w_next w' = w_next w" "w_file w' = w_file w"
      "w_poisoned w' = w_poisoned w" "w_closed w' = w_closed w" "w_run_id w' = w_run_id w" "w_clock w' = w_clock w"
  | (failed) err f f' e frame k where "r = Inl err" "append_error w en = None" "w_file w = Some f"
      "e = new_event (w_next w) (w_clock w (w_ticks w)) en" "encode_frame marshal e = Inr frame"
      "w_file w' = Some f'" "fl_content f' = fl_content f @ take k frame" "w_poisoned w'"
      "w_events w' = w_events w" "w_next w' = w_next w" "w_run_id w' = w_run_id w" "w_clock w' = w_clock w"
      "w_closed w' = w_closed w"
  | (appended) e f f' frame where "r = Inr e" "append_error w en = None" "w_file w = Some f"
      "e = new_event (w_next w) (w_clock w (w_ticks w)) en" "encode_frame marshal e = Inr frame"
      "w_file w' = Some f'" "fl_content f' = fl_content f @ frame" "w_poisoned w' = w_poisoned w"
      "w_events w' = w_events w @ [e]" "w_next w' = w_next w + 1" "w_run_id w' = w_run_id w" "w_clock w' = w_clock w"
      "w_closed w' = w_closed w"
proof (cases "append_error w en")
  case (Some err)
  with assms show thesis by (intro refused) (auto simp: append_locked_def)
next
  case None
  let ?e = "new_event (w_next w) (w_clock w (w_ticks w)) en" and ?w1 = "w\<lparr>w_ticks := Suc (w_ticks w)\<rparr>"
  from None obtain f where f: "w_file w = Some f" by (auto simp: append_error_def checks)
  show thesis
  proof (cases "encode_frame marshal ?e")
    case (Inl err)
    with assms None show thesis by (intro refused) (auto simp: append_locked_def Let_def)
  next
    case (Inr frame)
    then have commit: "commit_event ?w1 f ?e frame = (w', r)"
      using assms None f by (simp add: append_locked_def Let_def)
    obtain f1 r1 where f1: "write_full f frame = (f1, r1)" by fastforce
    from write_full_content [OF f1] obtain k where k: "fl_content f1 = fl_content f @ take k frame"
      "r1 = None \<longrightarrow> length frame \<le> k" by blast
    show thesis
    proof (cases r1)
      case (Some err)
      with commit f1 have "r = Inl err" "w' = ?w1\<lparr>w_file := Some f1, w_poisoned := True\<rparr>"
        by (simp_all add: commit_event_def)
      with None f Inr k(1) show thesis by (intro failed) simp_all
    next
      case None
      then have all: "fl_content f1 = fl_content f @ frame" using k by simp
      obtain f2 r2 where f2: "file_sync f1 = (f2, r2)" by fastforce
      note c2 = file_sync_content [OF f2]
      show thesis
      proof (cases r2)
        case (Some err)
        with commit f1 f2 None have "r = Inl err" "w' = ?w1\<lparr>w_file := Some f2, w_poisoned := True\<rparr>"
          by (simp_all add: commit_event_def)
        with \<open>append_error w en = None\<close> f Inr all c2 show thesis
          by (intro failed [of err f ?e frame f2 "length frame"]) simp_all
      next
        case none2: None
        with commit f1 f2 None have "r = Inr ?e"
          "w' = ?w1\<lparr>w_file := Some f2, w_events := w_events w @ [?e], w_next := w_next w + 1\<rparr>"
          by (simp_all add: commit_event_def)
        with \<open>append_error w en = None\<close> f Inr all c2 show thesis by (intro appended [of ?e f frame f2]) simp_all
      qed
    qed
  qed
qed

section \<open>The log a client sees\<close>

text \<open>
  What the executor relies on: an accepted entry becomes the next event, a refused one leaves the events
  as they are.
\<close>

locale event_log =
  fixes put :: "'s \<Rightarrow> entry \<Rightarrow> 's \<times> event result"
    and events :: "'s \<Rightarrow> event list"
    and sound :: "'s \<Rightarrow> bool"
  assumes append_Inr: "sound s \<Longrightarrow> put s en = (s', Inr e) \<Longrightarrow>
      events s' = events s @ [e] \<and> event_entry e = en \<and> event_validate e = None
        \<and> e_sequence e = word_of_nat (Suc (length (events s)))"
    and append_Inl: "sound s \<Longrightarrow> put s en = (s', Inl err) \<Longrightarrow> events s' = events s"
    and append_sound: "sound s \<Longrightarrow> put s en = (s', r) \<Longrightarrow> sound s'"
begin

lemma append_grows:
  assumes "sound s" and "put s en = (s', r)"
  shows "\<exists>new. events s' = events s @ new \<and> length new \<le> 1 \<and> (\<forall>e \<in> set new. event_entry e = en)"
proof (cases r)
  case (Inl err)
  with append_Inl assms show ?thesis by auto
next
  case (Inr e)
  with append_Inr assms show ?thesis by (intro exI [of _ "[e]"]) auto
qed

end

text \<open>Appending entries until one fails, as every pass of the executor does.\<close>

fun append_each :: "('s \<Rightarrow> entry \<Rightarrow> 's \<times> event result) \<Rightarrow> 's \<Rightarrow> entry list \<Rightarrow> 's \<times> error option" where
  "append_each put s [] = (s, None)"
| "append_each put s (en # ens) = (case put s en of
     (s', Inl err) \<Rightarrow> (s', Some err)
   | (s', Inr e) \<Rightarrow> append_each put s' ens)"

context event_log
begin

lemma append_each_sound: "sound s \<Longrightarrow> append_each put s ens = (s', r) \<Longrightarrow> sound s'"
proof (induction ens arbitrary: s)
  case (Cons en ens)
  obtain t x where t: "put s en = (t, x)" by fastforce
  from append_sound [OF Cons.prems(1) t] Cons t show ?case by (cases x) auto
qed simp

lemma append_each_events:
  "sound s \<Longrightarrow> append_each put s ens = (s', r) \<Longrightarrow>
     \<exists>new. events s' = events s @ new \<and> map event_entry new = take (length new) ens
       \<and> (r = None \<longrightarrow> length new = length ens)
       \<and> (\<forall>k < length new. event_validate (new ! k) = None
            \<and> e_sequence (new ! k) = word_of_nat (Suc (length (events s) + k)))"
proof (induction ens arbitrary: s)
  case (Cons en ens)
  obtain t x where t: "put s en = (t, x)" by fastforce
  show ?case
  proof (cases x)
    case (Inl err)
    with Cons.prems t append_Inl [OF Cons.prems(1)] show ?thesis by (intro exI [of _ "[]"]) auto
  next
    case (Inr e)
    note e = append_Inr [OF Cons.prems(1) t [unfolded Inr]]
    from Inr t Cons.prems(2) have "append_each put t ens = (s', r)" by simp
    from Cons.IH [OF append_sound [OF Cons.prems(1) t] this] obtain new where new: "events s' = events t @ new"
      "map event_entry new = take (length new) ens" "r = None \<longrightarrow> length new = length ens"
      "\<forall>k < length new. event_validate (new ! k) = None \<and> e_sequence (new ! k) = word_of_nat (Suc (length (events t) + k))"
      by blast
    have "event_validate ((e # new) ! k) = None \<and> e_sequence ((e # new) ! k) = word_of_nat (Suc (length (events s) + k))"
      if "k < length (e # new)" for k
      using that e new(4) by (cases k) (auto simp: add.commute)
    with e new show ?thesis by (intro exI [of _ "e # new"]) simp
  qed
qed simp

end

section \<open>The writer provides the log\<close>

definition writer_sound :: "writer \<Rightarrow> bool" where
  "writer_sound w \<longleftrightarrow> w_next w = word_of_nat (Suc (length (w_events w)))"

lemma append_locked_sound:
  "writer_sound w \<Longrightarrow> append_locked marshal w en = (w', r) \<Longrightarrow> writer_sound w'"
  by (erule append_locked_cases) (simp_all add: writer_sound_def)

interpretation journal: event_log "append_locked marshal" w_events writer_sound for marshal
proof
  fix w w' en e
  assume sound: "writer_sound w" and step: "append_locked marshal w en = (w', Inr e)"
  from step show "w_events w' = w_events w @ [e] \<and> event_entry e = en \<and> event_validate e = None
      \<and> e_sequence e = word_of_nat (Suc (length (w_events w)))"
    by (cases rule: append_locked_cases) (use sound in \<open>auto simp: writer_sound_def encode_frame_Inr\<close>)
next
  fix w w' en err
  assume "append_locked marshal w en = (w', Inl err)"
  then show "w_events w' = w_events w" by (cases rule: append_locked_cases) auto
qed (rule append_locked_sound)

section \<open>What the file holds\<close>

definition stored_as :: "event list \<Rightarrow> event list \<Rightarrow> bool" where
  "stored_as st evs \<longleftrightarrow> list_all2 (\<lambda>s e. s = e \<or> s = stored_event e) st evs"

definition of_run :: "run_id \<Rightarrow> event list \<Rightarrow> bool" where
  "of_run run evs \<longleftrightarrow> run \<noteq> [] \<and> (\<forall>e \<in> set evs. e_run_id e = run)"

lemma run_after_of_run: "of_run run evs \<Longrightarrow> r = [] \<or> r = run \<Longrightarrow> run_after r evs = (if evs = [] then r else run)"
  by (induction evs arbitrary: r) (auto simp: of_run_def)

lemma stored_as_of_run: "stored_as st evs \<Longrightarrow> of_run run evs \<Longrightarrow> of_run run st"
  unfolding stored_as_def of_run_def by (fastforce simp: list_all2_conv_all_nth in_set_conv_nth)

text \<open>The frame of an event that may follow the events of a run.\<close>

lemma reads_prefix_snoc:
  assumes "reads_prefix unmarshal base 1 [] st" and "of_run run st"
    and "is_ok (encode_frame marshal e)" and "codec_faithful marshal unmarshal e"
    and "e_sequence e = word_of_nat (Suc (length st))" and "e_run_id e = run"
  shows "reads_prefix unmarshal (base @ frame_bytes marshal e) 1 [] (st @ [stored_event e])"
proof -
  let ?run = "run_after [] st"
  have run: "?run = (if st = [] then [] else run)" using run_after_of_run [OF assms(2)] by simp
  have accepts: "accepts_event (1 + word_of_nat (length st)) ?run e"
    using assms(5,6) run by (simp add: accepts_event_def)
  have after: "run_after [] (st @ [stored_event e]) = (if ?run = [] then e_run_id e else ?run)"
  proof -
    have "run_after r (es @ [x]) = (if run_after r es = [] then e_run_id x else run_after r es)" for r es x
      by (induction es arbitrary: r) simp_all
    then show ?thesis by simp
  qed
  have grow: "add_events marshal [e] (grow_result st (length base) res) =
      grow_result (st @ [stored_event e]) (length (base @ frame_bytes marshal e)) res" for res
    by (simp add: add_events_def grow_result_def)
  show ?thesis
    unfolding reads_prefix_def
  proof (intro allI)
    fix fault rest and res :: read_result
    have "read_frames unmarshal fault ((base @ frame_bytes marshal e) @ rest) res 1 [] =
        read_frames unmarshal fault (frame_bytes marshal e @ rest) (grow_result st (length base) res)
          (1 + word_of_nat (length st)) ?run"
      using assms(1) unfolding reads_prefix_def append_assoc by blast
    also have "\<dots> = read_frames unmarshal fault rest (add_events marshal [e] (grow_result st (length base) res))
        (1 + word_of_nat (length st) + 1) (if ?run = [] then e_run_id e else ?run)"
      by (rule read_frames_event [OF assms(3,4) accepts])
    finally show "read_frames unmarshal fault ((base @ frame_bytes marshal e) @ rest) res 1 [] =
        read_frames unmarshal fault rest (grow_result (st @ [stored_event e]) (length (base @ frame_bytes marshal e)) res)
          (1 + word_of_nat (length (st @ [stored_event e]))) (run_after [] (st @ [stored_event e]))"
      unfolding grow after by (simp add: add.commute add.left_commute)
  qed
qed

text \<open>The bytes that may follow the acknowledged records once a write has failed: part of one frame.\<close>

definition loose_tail :: "marshaller \<Rightarrow> run_id \<Rightarrow> nat \<Rightarrow> string \<Rightarrow> bool" where
  "loose_tail marshal run n tail \<longleftrightarrow> tail = [] \<or> (\<exists>e k. is_ok (encode_frame marshal e)
     \<and> e_sequence e = word_of_nat (Suc n) \<and> e_run_id e = run \<and> tail = take k (frame_bytes marshal e))"

definition durable :: "marshaller \<Rightarrow> unmarshaller \<Rightarrow> writer \<Rightarrow> bool" where
  "durable marshal unmarshal w \<longleftrightarrow> (\<exists>f st base tail. w_file w = Some f \<and> fl_content f = base @ tail
     \<and> reads_prefix unmarshal base 1 [] st \<and> stored_as st (w_events w) \<and> of_run (w_run_id w) (w_events w)
     \<and> writer_sound w \<and> loose_tail marshal (w_run_id w) (length (w_events w)) tail
     \<and> (\<not> w_poisoned w \<longrightarrow> tail = []))"

lemma durable_append:
  assumes "durable marshal unmarshal w" and "append_locked marshal w en = (w', r)"
    and codec: "\<And>e. event_validate e = None \<Longrightarrow> codec_faithful marshal unmarshal e"
  shows "durable marshal unmarshal w'"
proof -
  from assms(1) obtain f st base tail where f: "w_file w = Some f" "fl_content f = base @ tail"
    and st: "reads_prefix unmarshal base 1 [] st" "stored_as st (w_events w)" "of_run (w_run_id w) (w_events w)"
    and sound: "writer_sound w" and tail: "loose_tail marshal (w_run_id w) (length (w_events w)) tail"
      "\<not> w_poisoned w \<longrightarrow> tail = []"
    unfolding durable_def by blast
  have len: "length st = length (w_events w)" using st(2) by (simp add: stored_as_def list_all2_lengthD)
  note sound' = append_locked_sound [OF sound assms(2)]
  from assms(2) show ?thesis
  proof (cases rule: append_locked_cases)
    case refused
    with f st sound' tail show ?thesis unfolding durable_def by (intro exI [of _ f] exI [of _ st]) auto
  next
    case (failed err f0 f' e frame k)
    have "tail = []" using failed(2) tail(2) by (auto simp: append_error_def checks)
    moreover have "frame_bytes marshal e = frame" using failed(5) by (simp add: frame_bytes_def)
    moreover have "en_run_id en = w_run_id w" using failed(2) by (auto simp: append_error_def checks)
    ultimately have "loose_tail marshal (w_run_id w) (length (w_events w)) (take k frame)" "fl_content f' = base @ take k frame"
      using failed(3,4,5,7) f sound unfolding loose_tail_def writer_sound_def by (auto simp: is_ok_iff)
    with failed(6,8,9,11) st sound' show ?thesis unfolding durable_def by (intro exI [of _ f'] exI [of _ st]) auto
  next
    case (appended e f0 f' frame)
    have none: "tail = []" using appended(2) tail(2) by (auto simp: append_error_def checks)
    have frame: "frame_bytes marshal e = frame" "is_ok (encode_frame marshal e)"
      using appended(5) by (simp_all add: frame_bytes_def)
    have run: "e_run_id e = w_run_id w" using appended(2,4) by (auto simp: append_error_def checks)
    have valid: "event_validate e = None" using appended(5) by (simp add: encode_frame_Inr)
    have "e_sequence e = word_of_nat (Suc (length st))" using appended(4) sound len by (simp add: writer_sound_def)
    from reads_prefix_snoc [OF st(1) stored_as_of_run [OF st(2,3)] frame(2) codec [OF valid] this run]
    have "reads_prefix unmarshal (base @ frame) 1 [] (st @ [stored_event e])" by (simp add: frame)
    moreover have "stored_as (st @ [stored_event e]) (w_events w')"
      using st(2) appended(9) by (simp add: stored_as_def list_all2_appendI)
    moreover have "of_run (w_run_id w') (w_events w')" using st(3) appended(9,11) run by (auto simp: of_run_def)
    moreover have "fl_content f' = base @ frame" using appended(3,7) f none by simp
    ultimately show ?thesis using appended(6) sound' unfolding durable_def
      by (intro exI [of _ f'] exI [of _ "st @ [stored_event e]"] exI [of _ "base @ frame"] exI [of _ "[]"])
        (simp add: loose_tail_def)
  qed
qed

text \<open>Reading the file back, cut off anywhere after the acknowledged records.\<close>

lemma read_loose_tail:
  assumes "loose_tail marshal run n tail"
    and codec: "\<And>e. event_validate e = None \<Longrightarrow> codec_faithful marshal unmarshal e"
    and r: "r = [] \<or> r = run"
  shows "\<exists>out more. read_frames unmarshal None (take k tail) res (1 + word_of_nat n) r = Inr out
    \<and> rr_events out = rr_events res @ more \<and> length more \<le> 1"
proof -
  consider "take k tail = []" | e j where "is_ok (encode_frame marshal e)" "e_sequence e = word_of_nat (Suc n)"
    "e_run_id e = run" "take k tail = take j (frame_bytes marshal e)" "0 < j"
    using assms(1) by (cases "take k tail = []") (auto simp: loose_tail_def)
  then show ?thesis
  proof cases
    case 1
    then show ?thesis by (simp only: read_frames_Nil) auto
  next
    case (2 e j)
    from encode_frame_ok [OF 2(1)] have "event_validate e = None" by metis
    note faithful = codec [OF this]
    show ?thesis
    proof (cases "j < length (frame_bytes marshal e)")
      case True
      from read_frames_partial [OF 2(1) faithful True 2(5)] show ?thesis by (simp add: 2(4))
    next
      case False
      then have whole: "take k tail = frame_bytes marshal e" using 2(4) by simp
      have "accepts_event (1 + word_of_nat n) r e" using 2(2,3) r by (auto simp: accepts_event_def)
      from read_frames_event [OF 2(1) faithful this, of None "[]" res] show ?thesis
        by (simp add: whole read_frames_Nil add_events_def)
    qed
  qed
qed

lemma durable_reads_back:
  assumes "durable marshal unmarshal w"
    and codec: "\<And>e. event_validate e = None \<Longrightarrow> codec_faithful marshal unmarshal e"
  shows "\<exists>f synced. w_file w = Some f \<and> synced \<le> length (fl_content f)
    \<and> (\<not> w_poisoned w \<longrightarrow> synced = length (fl_content f))
    \<and> (\<forall>n \<ge> synced. \<exists>out st more. read_journal unmarshal (Some \<lparr>rdr_data = take n (fl_content f), rdr_fault = None\<rparr>) = Inr out
         \<and> rr_events out = st @ more \<and> stored_as st (w_events w) \<and> length more \<le> 1)"
proof -
  from assms(1) obtain f st base tail where f: "w_file w = Some f" "fl_content f = base @ tail"
    and st: "reads_prefix unmarshal base 1 [] st" "stored_as st (w_events w)" "of_run (w_run_id w) (w_events w)"
    and tail: "loose_tail marshal (w_run_id w) (length (w_events w)) tail" "\<not> w_poisoned w \<longrightarrow> tail = []"
    unfolding durable_def by blast
  have len: "length st = length (w_events w)" using st(2) by (simp add: stored_as_def list_all2_lengthD)
  have run: "run_after [] st = [] \<or> run_after [] st = w_run_id w"
    using run_after_of_run [OF stored_as_of_run [OF st(2,3)], of "[]"] by simp
  have "\<exists>out st more. read_journal unmarshal (Some \<lparr>rdr_data = take n (fl_content f), rdr_fault = None\<rparr>) = Inr out
      \<and> rr_events out = st @ more \<and> stored_as st (w_events w) \<and> length more \<le> 1" if n: "length base \<le> n" for n
  proof -
    have "take n (fl_content f) = base @ take (n - length base) tail" using n by (simp add: f(2))
    then have "read_journal unmarshal (Some \<lparr>rdr_data = take n (fl_content f), rdr_fault = None\<rparr>) =
        read_frames unmarshal None (take (n - length base) tail) (grow_result st (length base) empty_result)
          (1 + word_of_nat (length (w_events w))) (run_after [] st)"
      using st(1) len by (simp add: read_journal_def reads_prefix_def)
    with read_loose_tail [OF tail(1) codec run, of "n - length base" "grow_result st (length base) empty_result"] st(2)
    show ?thesis by (auto simp: grow_result_def empty_result_def)
  qed
  with f tail(2) show ?thesis by (intro exI [of _ f] exI [of _ "length base"]) auto
qed

section \<open>What opening establishes\<close>

lemma chained_of_run: "chained n run evs \<Longrightarrow> run \<noteq> [] \<Longrightarrow> \<forall>e \<in> set evs. e_run_id e = run"
  by (induction evs arbitrary: n) (auto simp: accepts_event_def)

lemma event_validate_run: "event_validate e = None \<Longrightarrow> e_run_id e \<noteq> []"
  by (auto simp: event_validate_def entry_validate_def event_entry_def checks)

lemma chained_hd_run:
  assumes "chained n [] evs" and "evs \<noteq> [] \<longrightarrow> e_run_id (hd evs) = run" and "run \<noteq> []"
  shows "of_run run evs"
proof (cases evs)
  case (Cons e es)
  with assms chained_of_run [of "n + 1" run es] show ?thesis by (auto simp: of_run_def split: if_splits)
qed (use assms(3) in \<open>simp add: of_run_def\<close>)

lemma stored_as_refl: "stored_as evs evs"
  by (simp add: stored_as_def list_all2_refl)

lemma open_locked_Inr:
  assumes "open_locked unmarshal clock path run d = (d', Inr w)" and "run \<noteq> []"
  shows "durable marshal unmarshal w \<and> \<not> w_poisoned w \<and> \<not> w_closed w \<and> w_run_id w = run \<and> w_path w = path
    \<and> (\<exists>r. read_path unmarshal d = Inr r \<and> w_events w = rr_events r)
    \<and> (\<exists>f. w_file w = Some f \<and> dir_content d' = Some (fl_content f)) \<and> dir_locked d' = dir_locked d"
proof -
  from assms(1) obtain r where r: "read_path unmarshal d = Inr r"
      "rr_events r \<noteq> [] \<longrightarrow> e_run_id (hd (rr_events r)) = run"
    by (auto simp: open_locked_def split: sum.splits if_splits)
  define content where "content = (case dir_content d of None \<Rightarrow> [] | Some s \<Rightarrow> s)"
  define kept where "kept = (if rr_truncated_tail r then take (nat (rr_valid_bytes r)) content else content)"
  have w: "w = \<lparr>w_file = Some ((dir_handle d)\<lparr>fl_content := kept\<rparr>), w_path = path, w_lock = Some (dir_handle d),
        w_run_id = run, w_next = word_of_nat (length (rr_events r)) + 1, w_clock = clock,
        w_ticks = 0, w_events = rr_events r, w_poisoned = False, w_closed = False\<rparr>"
    and d': "d' = d\<lparr>dir_content := Some kept\<rparr>"
    using assms(1) r
    by (auto simp: open_locked_def Let_def content_def kept_def split: option.splits if_splits)
  have prefix: "reads_prefix unmarshal kept 1 [] (rr_events r) \<and> chained 1 [] (rr_events r)"
  proof (cases "dir_content d")
    case None
    then have "r = empty_result" using r(1) by (auto simp: read_path_def split: option.splits)
    with None show ?thesis by (simp add: kept_def content_def empty_result_def)
  next
    case (Some data)
    then have "read_frames unmarshal (dir_fault d CallRead) data empty_result 1 [] = Inr r"
      using r(1) by (auto simp: read_path_def read_journal_def split: option.splits)
    from read_frames_sound [OF this] obtain k where k: "rr_valid_bytes r = int k" "k \<le> length data"
      "chained 1 [] (rr_events r)" "rr_truncated_tail r \<longleftrightarrow> k < length data"
      "reads_prefix unmarshal (take k data) 1 [] (rr_events r)" by (auto simp: empty_result_def)
    then have "kept = take k data" using Some by (auto simp: kept_def content_def)
    with k show ?thesis by simp
  qed
  have "of_run run (rr_events r)" by (rule chained_hd_run [OF conjunct2 [OF prefix] r(2) assms(2)])
  moreover have "writer_sound w" by (simp add: w writer_sound_def)
  ultimately have "durable marshal unmarshal w"
    using prefix stored_as_refl unfolding durable_def
    by (intro exI [of _ "(dir_handle d)\<lparr>fl_content := kept\<rparr>"] exI [of _ "rr_events r"] exI [of _ kept] exI [of _ "[]"])
      (simp add: w loose_tail_def)
  with r(1) show ?thesis by (simp add: w d')
qed

lemma read_path_locked [simp]: "read_path unmarshal (d\<lparr>dir_locked := b\<rparr>) = read_path unmarshal d"
  by (simp add: read_path_def cong: option.case_cong)

lemma open_writer_Inr:
  assumes "open_writer unmarshal clock path run d = (d', Inr w)"
  shows "durable marshal unmarshal w \<and> \<not> w_poisoned w \<and> \<not> w_closed w \<and> w_run_id w = run
    \<and> (\<exists>r. read_path unmarshal d = Inr r \<and> w_events w = rr_events r)
    \<and> (\<exists>f. w_file w = Some f \<and> dir_content d' = Some (fl_content f)) \<and> \<not> dir_locked d \<and> dir_locked d'"
proof -
  from assms have run: "run \<noteq> []" by (auto simp: open_writer_def split: if_splits)
  from assms obtain d1 where d1: "acquire_lock d = (d1, None)" and w: "open_locked unmarshal clock path run d1 = (d', Inr w)"
    by (auto simp: open_writer_def split: if_splits option.splits prod.splits sum.splits)
  from d1 have "d1 = d\<lparr>dir_locked := True\<rparr>" "\<not> dir_locked d"
    by (auto simp: acquire_lock_def split: option.splits if_splits)
  with open_locked_Inr [OF w run, of marshal] show ?thesis by simp
qed

text \<open>A failed opening gives the lock back, and another holder's lock is left alone.\<close>

lemma open_writer_Inl:
  "open_writer unmarshal clock path run d = (d', Inl err) \<Longrightarrow> dir_locked d' = dir_locked d"
  by (auto simp: open_writer_def acquire_lock_def split: if_splits option.splits prod.splits sum.splits)

end
