(* ===== verification/Writer_Claims.thy ===== *)
theory Writer_Claims
  imports Journal_Writer Frame_Claims
begin

text \<open>
  The properties of the writer: what is acknowledged survives a crash, a failed write stops the writer,
  a file has one writer, and an authorized retry leaves a journal that still reduces.
\<close>

definition append_all :: "marshaller \<Rightarrow> writer \<Rightarrow> entry list \<Rightarrow> writer" where
  "append_all marshal w ens = foldl (\<lambda>w en. fst (append_locked marshal w en)) w ens"

lemma durable_append_all:
  assumes "durable marshal unmarshal w"
    and codec: "\<And>e. event_validate e = None \<Longrightarrow> codec_faithful marshal unmarshal e"
  shows "durable marshal unmarshal (append_all marshal w ens)"
  using assms(1)
proof (induction ens arbitrary: w)
  case (Cons en ens)
  obtain w' r where "append_locked marshal w en = (w', r)" by fastforce
  with Cons.IH [of w'] durable_append [OF Cons.prems this codec] show ?case by (simp add: append_all_def)
qed (simp add: append_all_def)

text \<open>A codec that handles the two events of \<open>demo_start\<close> and refuses any other, and an empty directory.\<close>

definition small_marshal :: marshaller where
  "small_marshal e = (if e = demo_start ! 0 \<or> e = demo_start ! 1 then Inr [char_of (unat (e_sequence e))]
     else Inl (Errorf ''unsupported'' []))"

lemma demo_start_nth:
  "demo_start ! 0 = run_event 1 EventRunStarted ''p''"
  "demo_start ! Suc 0 = op_event 2 EventAttemptStarted ''a'' (attempt_payload 1)"
  by (simp_all add: demo_start_def)

lemma demo_start_stored: "i < 2 \<Longrightarrow> stored_event (demo_start ! i) = demo_start ! i"
  by (auto simp: less_2_cases_iff demo_start_nth stored_event_def json_compact_def demo_defs)

lemma small_codec: "event_validate e = None \<Longrightarrow> codec_faithful small_marshal demo_unmarshal e"
  using demo_start_stored [of 0] demo_start_stored [of 1]
  by (auto simp: codec_faithful_def small_marshal_def demo_unmarshal_def demo_start_nth run_event_def op_event_def)

definition good_file :: durable_file where
  "good_file = \<lparr>fl_content = [], fl_writes = [], fl_syncs = [], fl_close = None, fl_unlock = None\<rparr>"

definition empty_directory :: directory where
  "empty_directory = \<lparr>dir_content = None, dir_locked = False, dir_handle = good_file, dir_fault = \<lambda>_. None\<rparr>"

definition demo_writer :: writer where
  "demo_writer = \<lparr>w_file = Some good_file, w_path = ''j'', w_lock = Some good_file, w_run_id = ''x'', w_next = 1,
     w_clock = \<lambda>_. 1, w_ticks = 0, w_events = [], w_poisoned = False, w_closed = False\<rparr>"

lemma demo_open:
  "open_writer demo_unmarshal (\<lambda>_. 1) ''j'' ''x'' empty_directory =
     (empty_directory\<lparr>dir_locked := True, dir_content := Some []\<rparr>, Inr demo_writer)"
  by (simp add: open_writer_def acquire_lock_def open_locked_def read_path_def empty_directory_def
      empty_result_def demo_writer_def good_file_def text_eval)

section \<open>Durability\<close>

text \<open>C3  Open a journal and append any entries, with any write, short write or sync failing on the way.
  Whatever a crash then leaves of the file beyond its last acknowledged record, reading it back is no
  error and returns every acknowledged event, in order, and at most the one event whose write failed.\<close>

theorem acknowledged_events_survive:
  assumes "open_writer unmarshal clock path run d = (d', Inr w)"
    and "\<And>e. event_validate e = None \<Longrightarrow> codec_faithful marshal unmarshal e"
    and "final = append_all marshal w ens"
  shows "\<exists>f synced. w_file final = Some f \<and> synced \<le> length (fl_content f)
    \<and> (\<not> w_poisoned final \<longrightarrow> synced = length (fl_content f))
    \<and> (\<forall>n \<ge> synced. \<exists>out st more.
         read_journal unmarshal (Some \<lparr>rdr_data = take n (fl_content f), rdr_fault = None\<rparr>) = Inr out
         \<and> rr_events out = st @ more \<and> stored_as st (w_events final) \<and> length more \<le> 1)"
  unfolding assms(3)
  using durable_reads_back [OF durable_append_all [OF conjunct1 [OF open_writer_Inr [OF assms(1)]] assms(2)] assms(2)]
  by blast

theorem acknowledged_events_survive_witness:
  "\<exists>f synced. w_file (append_all small_marshal demo_writer (map event_entry demo_start)) = Some f
    \<and> synced \<le> length (fl_content f)
    \<and> (\<forall>n \<ge> synced. \<exists>out. read_journal demo_unmarshal (Some \<lparr>rdr_data = take n (fl_content f), rdr_fault = None\<rparr>) = Inr out)"
  using acknowledged_events_survive [OF demo_open small_codec refl, of "map event_entry demo_start"] by blast

text \<open>An append that succeeds has put exactly the frame of its event at the end of the file and the event
  at the end of the journal, under the next sequence number and the writer's clock.\<close>

theorem append_commits_frame:
  assumes "append_locked marshal w en = (w', Inr e)"
  shows "\<exists>f f' frame. w_file w = Some f \<and> w_file w' = Some f' \<and> encode_frame marshal e = Inr frame
    \<and> fl_content f' = fl_content f @ frame \<and> w_events w' = w_events w @ [e] \<and> w_next w' = w_next w + 1
    \<and> event_entry e = en \<and> e_sequence e = w_next w \<and> e_observed_at e = w_clock w (w_ticks w)
    \<and> entry_validate en = None \<and> \<not> w_poisoned w' \<and> \<not> w_closed w'"
  using assms
  by (cases rule: append_locked_cases) (auto simp: append_error_def checks)

lemma demo_first_append:
  "\<exists>w'. append_locked small_marshal demo_writer (event_entry (demo_start ! 0)) = (w', Inr (demo_start ! 0))"
  by (simp add: append_locked_def append_error_def demo_writer_def good_file_def demo_start_nth small_marshal_def
      new_event_def encode_frame_def frame_of_def max_record_bytes_def commit_event_def write_full.simps file_write_def
      file_sync_def reduce_eval be32_bytes_def frame_magic_def)

theorem append_commits_frame_witness:
  "\<exists>w'. append_locked small_marshal demo_writer (event_entry (demo_start ! 0)) = (w', Inr (demo_start ! 0))
    \<and> w_events w' = [demo_start ! 0]"
proof -
  obtain w' where w': "append_locked small_marshal demo_writer (event_entry (demo_start ! 0)) = (w', Inr (demo_start ! 0))"
    using demo_first_append by blast
  with append_commits_frame [OF w'] show ?thesis by (auto simp: demo_writer_def)
qed

text \<open>C20  An append that fails acknowledges nothing.  If it touched the file the writer is poisoned, and a
  poisoned writer refuses every further entry without writing a byte.\<close>

theorem failed_append_stops_writer:
  assumes "append_locked marshal w en = (w1, Inl err)"
  shows "w_events w1 = w_events w \<and> w_next w1 = w_next w \<and> (w_file w1 \<noteq> w_file w \<longrightarrow> w_poisoned w1)
    \<and> (w_poisoned w1 \<and> w_file w1 \<noteq> None \<and> \<not> w_closed w1 \<longrightarrow>
        (\<forall>en2. append_locked marshal w1 en2 = (w1, Inl err_writer_poisoned)))"
proof -
  have stuck: "append_locked marshal w1 en2 = (w1, Inl err_writer_poisoned)"
    if "w_poisoned w1" "w_file w1 \<noteq> None" "\<not> w_closed w1" for en2
    using that by (auto simp: append_locked_def append_error_def)
  from assms have "w_events w1 = w_events w \<and> w_next w1 = w_next w \<and> (w_file w1 \<noteq> w_file w \<longrightarrow> w_poisoned w1)"
    by (cases rule: append_locked_cases) auto
  with stuck show ?thesis by blast
qed

definition failing_writer :: writer where
  "failing_writer = demo_writer\<lparr>w_file := Some (good_file\<lparr>fl_writes := [(5, None), (0, None)]\<rparr>)\<rparr>"

lemma failing_append:
  "\<exists>w1 f. append_locked small_marshal failing_writer (event_entry (demo_start ! 0))
      = (w1, Inl (ErrorIs ErrShortWrite ''short write'' []))
    \<and> w_poisoned w1 \<and> \<not> w_closed w1 \<and> w_file w1 = Some f \<and> length (fl_content f) = 5"
  by (simp add: append_locked_def append_error_def failing_writer_def demo_writer_def good_file_def demo_start_nth
      small_marshal_def new_event_def encode_frame_def frame_of_def max_record_bytes_def commit_event_def
      write_full.simps file_write_def file_sync_def reduce_eval be32_bytes_def frame_magic_def)

theorem failed_append_stops_writer_witness:
  "\<exists>w1. append_locked small_marshal failing_writer (event_entry (demo_start ! 0))
      = (w1, Inl (ErrorIs ErrShortWrite ''short write'' []))
    \<and> (\<forall>en2. append_locked small_marshal w1 en2 = (w1, Inl err_writer_poisoned))"
proof -
  obtain w1 f where w1: "append_locked small_marshal failing_writer (event_entry (demo_start ! 0))
      = (w1, Inl (ErrorIs ErrShortWrite ''short write'' []))" "w_poisoned w1" "\<not> w_closed w1" "w_file w1 = Some f"
    using failing_append by blast
  with failed_append_stops_writer [OF w1(1)] show ?thesis by auto
qed

section \<open>One writer\<close>

text \<open>A journal has at most one writer: opening it while the lock is held fails and leaves the file and
  the lock alone; a successful opening holds the lock, and resumes exactly the events that \<open>Read\<close> finds,
  with the file cut back to them.\<close>

theorem journal_has_one_writer:
  "case open_writer unmarshal clock path run d of
     (d', Inl err) \<Rightarrow> dir_locked d' = dir_locked d \<and> (dir_locked d \<longrightarrow> d' = d)
   | (d', Inr w) \<Rightarrow> \<not> dir_locked d \<and> dir_locked d' \<and> w_run_id w = run
       \<and> (\<exists>r. read_path unmarshal d = Inr r \<and> w_events w = rr_events r)
       \<and> (\<exists>f. w_file w = Some f \<and> dir_content d' = Some (fl_content f))
       \<and> w_next w = word_of_nat (Suc (length (w_events w)))"
proof (cases "open_writer unmarshal clock path run d")
  case (Pair d' r)
  show ?thesis
  proof (cases r)
    case (Inl err)
    have "dir_locked d \<longrightarrow> d' = d"
      using Pair Inl by (auto simp: open_writer_def acquire_lock_def split: if_splits option.splits prod.splits sum.splits)
    with open_writer_Inl [of unmarshal clock path run d d' err] Pair Inl show ?thesis by simp
  next
    case (Inr w)
    with open_writer_Inr [of unmarshal clock path run d d' w] Pair
    have "durable marshal unmarshal w" for marshal by simp
    then have "writer_sound w" unfolding durable_def by blast
    with open_writer_Inr [of unmarshal clock path run d d' w] Pair Inr show ?thesis by (simp add: writer_sound_def)
  qed
qed

theorem journal_has_one_writer_witness:
  "\<exists>err. open_writer demo_unmarshal (\<lambda>_. 1) ''j'' ''x'' (empty_directory\<lparr>dir_locked := True\<rparr>)
     = (empty_directory\<lparr>dir_locked := True\<rparr>, Inl err)"
proof -
  let ?d = "empty_directory\<lparr>dir_locked := True\<rparr>"
  obtain d' r where open_d: "open_writer demo_unmarshal (\<lambda>_. 1) ''j'' ''x'' ?d = (d', r)" by fastforce
  with journal_has_one_writer [where unmarshal = demo_unmarshal and clock = "\<lambda>_. 1" and path = "''j''"
      and run = "''x''" and d = ?d]
  show ?thesis by (cases r) auto
qed

section \<open>Authorized retries\<close>

text \<open>The reduction of a retry authorization does not depend on when it was recorded.\<close>

lemma retry_time_irrelevant:
  assumes "en_type en = EventRetryAuthorized" and "t \<noteq> 0" and "t' \<noteq> 0"
  shows "reduce_event p s (new_event n t en) = reduce_event p s (new_event n t' en)"
proof -
  have "event_validate (new_event n t en) = event_validate (new_event n t' en)"
    using assms(2,3) by (simp add: event_validate_def) (simp add: new_event_def)
  then have admission: "event_admission_error s (new_event n t en) = event_admission_error s (new_event n t' en)"
    by (simp add: event_admission_error_def)
  have operation: "event_operation (new_event n t en) ops = event_operation (new_event n t' en) ops" for ops
    by (simp add: event_operation_def cong: option.case_cong if_cong)
  have step: "operation_step ops (new_event n t en) m = operation_step ops (new_event n t' en) m" for ops m
    using assms(1) by (simp add: operation_step_def step_retry_authorized_def)
  have "update_operation (new_event n t en) ops = update_operation (new_event n t' en) ops" for ops
    by (simp add: update_operation_def operation step)
  then show ?thesis using assms(1) by (simp add: reduce_event_def admission apply_event_def)
qed

lemma reduce_snoc_time:
  assumes "reduce p (evs @ [new_event n t en]) = Inr state" and "en_type en = EventRetryAuthorized"
    and "t \<noteq> 0" and "t' \<noteq> 0"
  shows "\<exists>state'. reduce p (evs @ [new_event n t' en]) = Inr state'"
  using assms retry_time_irrelevant [OF assms(2-4)]
  by (auto simp: reduce_Inr for_each_snoc_Inr)

lemma reduce_last_valid: "reduce p (evs @ [e]) = Inr state \<Longrightarrow> event_validate e = None"
  by (auto simp: reduce_Inr for_each_snoc_Inr dest!: admitted_facts(1) simp: admitted_def)

lemma event_validate_observed: "event_validate e = None \<Longrightarrow> e_observed_at e \<noteq> 0"
  by (simp add: event_validate_def checks)

lemma append_locked_Inl: "append_locked marshal w en = (w', Inl err) \<Longrightarrow> w_events w' = w_events w"
  by (erule append_locked_cases) auto

text \<open>Authorizing a retry appends only a transition that the reducer accepts: when it succeeds the journal
  still reduces, and it has grown by exactly that authorization; when it fails no event is added.\<close>

theorem authorized_retry_reduces:
  "case authorize_ambiguous_retry marshal now p run i (Some w) of
     (w', Inl err) \<Rightarrow> writer_events w' = w_events w
   | (w', Inr e) \<Rightarrow> writer_events w' = w_events w @ [e] \<and> e_type e = EventRetryAuthorized \<and> e_operation_id e = i
       \<and> (\<exists>state. reduce p (writer_events w') = Inr state)"
proof (cases "authorize_ambiguous_retry marshal now p run i (Some w)")
  case (Pair w' r)
  show ?thesis
  proof (cases r)
    case (Inr e)
    from Pair Inr obtain state op w1 st where op: "reduce p (w_events w) = Inr state" "derived_operation state i = Some op"
      and proposed: "reduce p (w_events w @ [new_event (w_next w) now (retry_entry run op)]) = Inr st"
      and step: "append_locked marshal w (retry_entry run op) = (w1, Inr e)" and w': "w' = Some w1"
      by (auto simp: authorize_ambiguous_retry_def Let_def map_prod_def
          split: if_splits option.splits sum.splits prod.splits)
    let ?en = "retry_entry run op" and ?t = "w_clock w (w_ticks w)"
    have type: "en_type ?en = EventRetryAuthorized" by (simp add: retry_entry_def)
    from step have e: "e = new_event (w_next w) ?t ?en" "event_validate e = None" "w_events w1 = w_events w @ [e]"
      by (cases rule: append_locked_cases; simp add: encode_frame_Inr)+
    have id: "os_id op = i" using op(2) by (auto simp: derived_operation_def Let_def split: if_splits)
    have "now \<noteq> 0" using event_validate_observed [OF reduce_last_valid [OF proposed]] by simp
    moreover have "?t \<noteq> 0" using event_validate_observed [OF e(2)] e(1) by simp
    ultimately have "\<exists>state'. reduce p (w_events w @ [e]) = Inr state'"
      unfolding e(1) by (rule reduce_snoc_time [OF proposed type])
    with e(1,3) w' type id Pair Inr show ?thesis by (simp add: writer_events_def retry_entry_def)
  next
    case (Inl err)
    with Pair show ?thesis
      by (auto simp: authorize_ambiguous_retry_def Let_def writer_events_def map_prod_def
          dest: append_locked_Inl split: if_splits option.splits sum.splits prod.splits)
  qed
qed

end
