(* ===== verification/Executor_Lease.thy ===== *)
theory Executor_Lease
  imports Journal_Reduce
begin

text \<open>
  The in-memory execution leases, \<open>internal/executor/lease.go\<close>.  The manager's map goes from lease keys
  to lease states; its clock and its source of lease identifiers are functions of how often they were
  called, \<open>None\<close> where the code's function value is nil.  A \<open>memoryLease\<close> is a value of its own: the
  methods take it and its manager and return both.  The mutexes make each method one step.
\<close>

section \<open>Data\<close>

record lease_request =
  lr_key :: string
  lr_operation_id :: operation_id

record lease_state =
  ls_id :: string
  ls_owner :: string
  ls_operation_id :: operation_id
  ls_acquired_at :: time
  ls_expires_at :: time

definition zero_lease_state :: lease_state where
  "zero_lease_state = \<lparr>ls_id = [], ls_owner = [], ls_operation_id = [], ls_acquired_at = 0, ls_expires_at = 0\<rparr>"

record memory_leases =
  ml_held :: "string \<Rightarrow> lease_state option"
  ml_owner :: string
  ml_ttl :: int
  ml_clock :: "(nat \<Rightarrow> time) option"
  ml_new_id :: "(nat \<Rightarrow> string result) option"
  ml_ticks :: nat
  ml_ids :: nat

record memory_lease =
  mm_key :: string
  mm_state :: lease_state
  mm_previous_expired :: "lease_state option"
  mm_released :: bool

text \<open>A \<open>context.Context\<close>: \<open>None\<close> is nil, and otherwise what \<open>Err()\<close> returns.\<close>

type_synonym go_context = "error option option"

definition default_lease_ttl :: int where
  "default_lease_ttl = 30000000000"

definition new_memory_leases ::
  "string \<Rightarrow> int \<Rightarrow> (nat \<Rightarrow> time) option \<Rightarrow> (nat \<Rightarrow> string result) option \<Rightarrow> memory_leases" where
  "new_memory_leases owner ttl clock new_id =
     \<lparr>ml_held = Map.empty, ml_owner = owner, ml_ttl = ttl, ml_clock = clock, ml_new_id = new_id,
      ml_ticks = 0, ml_ids = 0\<rparr>"

section \<open>Operations\<close>

definition leases_validate :: "memory_leases option \<Rightarrow> error option" where
  "leases_validate m = (case m of
     None \<Rightarrow> Some (Errorf ''lease manager is not initialized'' [])
   | Some m \<Rightarrow> first_error [
       validate_text256 ''lease owner'' (ml_owner m) False,
       fail_if (ml_ttl m \<le> 0) (Errorf ''lease TTL must be greater than zero'' []),
       fail_if (ml_clock m = None) (Errorf ''lease clock must not be nil'' []),
       fail_if (ml_new_id m = None) (Errorf ''lease ID source must not be nil'' [])])"

definition context_error :: "go_context \<Rightarrow> error option" where
  "context_error ctx = (case ctx of
     None \<Rightarrow> Some (Errorf ''lease context must not be nil'' []) | Some err \<Rightarrow> err)"

definition read_clock :: "memory_leases \<Rightarrow> memory_leases \<times> time" where
  "read_clock m = (m\<lparr>ml_ticks := Suc (ml_ticks m)\<rparr>,
     case ml_clock m of None \<Rightarrow> 0 | Some clock \<Rightarrow> clock (ml_ticks m))"

definition fresh_id :: "memory_leases \<Rightarrow> memory_leases \<times> string result" where
  "fresh_id m = (m\<lparr>ml_ids := Suc (ml_ids m)\<rparr>,
     case ml_new_id m of None \<Rightarrow> Inr [] | Some new_id \<Rightarrow> new_id (ml_ids m))"

definition err_lease_held :: error where
  "err_lease_held = ErrorIs ErrLeaseHeld ''execution lease is held'' []"

definition err_lease_expired :: error where
  "err_lease_expired = ErrorIs ErrLeaseExpired ''execution lease expired'' []"

text \<open>The part of \<open>Acquire\<close> under the manager's mutex, at time \<open>now\<close>.\<close>

definition acquire_at ::
  "time \<Rightarrow> lease_request \<Rightarrow> memory_leases \<Rightarrow> memory_leases \<times> memory_lease result" where
  "acquire_at now req m =
     (let current = ml_held m (lr_key req) in
      if (case current of None \<Rightarrow> False | Some c \<Rightarrow> now < ls_expires_at c)
      then (m, Inl err_lease_held)
      else (case fresh_id (m\<lparr>ml_held := (ml_held m)(lr_key req := None)\<rparr>) of
          (m1, Inl err) \<Rightarrow> (m1, Inl err)
        | (m1, Inr i) \<Rightarrow> (case validate_text256 ''lease ID'' i False of
              Some err \<Rightarrow> (m1, Inl err)
            | None \<Rightarrow>
                (let st = \<lparr>ls_id = i, ls_owner = ml_owner m, ls_operation_id = lr_operation_id req,
                           ls_acquired_at = now, ls_expires_at = now + ml_ttl m\<rparr> in
                 (m1\<lparr>ml_held := (ml_held m1)(lr_key req \<mapsto> st)\<rparr>,
                  Inr \<lparr>mm_key = lr_key req, mm_state = st, mm_previous_expired = current, mm_released = False\<rparr>)))))"

definition acquire ::
  "go_context \<Rightarrow> lease_request \<Rightarrow> memory_leases option \<Rightarrow> memory_leases option \<times> memory_lease result" where
  "acquire ctx req m = (case first_error [
       context_error ctx,
       fail_if (lr_key req = []) (Errorf ''lease key must not be empty'' []),
       fail_if (\<not> valid_identifier (lr_operation_id req)) (Errorf ''lease operation ID is invalid'' []),
       leases_validate m] of
     Some err \<Rightarrow> (m, Inl err)
   | None \<Rightarrow> (case m of
         None \<Rightarrow> (None, Inl (Errorf ''lease manager is not initialized'' []))
       | Some m \<Rightarrow> (case read_clock m of (m1, now) \<Rightarrow>
           if now = 0 then (Some m1, Inl (Errorf ''lease clock returned zero time'' []))
           else map_prod Some id (acquire_at now req m1))))"

definition lease_view :: "memory_lease option \<Rightarrow> lease_state" where
  "lease_view l = (case l of None \<Rightarrow> zero_lease_state | Some l \<Rightarrow> mm_state l)"

definition previous_expired :: "memory_lease option \<Rightarrow> lease_state option" where
  "previous_expired l = (case l of None \<Rightarrow> None | Some l \<Rightarrow> mm_previous_expired l)"

definition renew_at ::
  "time \<Rightarrow> memory_lease \<Rightarrow> memory_leases \<Rightarrow> memory_leases \<times> memory_lease \<times> error option" where
  "renew_at now l m = (case ml_held m (mm_key l) of
     None \<Rightarrow> (m, l, Some err_lease_expired)
   | Some c \<Rightarrow>
       if ls_id c \<noteq> ls_id (mm_state l) then (m, l, Some err_lease_expired)
       else if \<not> now < ls_expires_at c
       then (m\<lparr>ml_held := (ml_held m)(mm_key l := None)\<rparr>, l, Some err_lease_expired)
       else (let extended = now + ml_ttl m;
                 expires = (if ls_expires_at c < extended then extended else ls_expires_at c + ml_ttl m);
                 st = c\<lparr>ls_expires_at := expires\<rparr>
             in (m\<lparr>ml_held := (ml_held m)(mm_key l \<mapsto> st)\<rparr>, l\<lparr>mm_state := st\<rparr>, None)))"

definition renew ::
  "go_context \<Rightarrow> memory_leases option \<Rightarrow> memory_lease option \<Rightarrow>
     memory_leases option \<times> memory_lease option \<times> lease_state result" where
  "renew ctx m l = (case context_error ctx of
     Some err \<Rightarrow> (m, l, Inl err)
   | None \<Rightarrow> (case l of
       None \<Rightarrow> (m, l, Inl (Errorf ''lease is not initialized'' []))
     | Some x \<Rightarrow>
         if mm_released x \<or> m = None \<or> mm_key x = [] then (m, l, Inl err_lease_expired)
         else (case leases_validate m of
             Some err \<Rightarrow> (m, l, Inl err)
           | None \<Rightarrow> (case m of
               None \<Rightarrow> (m, l, Inl err_lease_expired)
             | Some m0 \<Rightarrow> (case read_clock m0 of (m1, now) \<Rightarrow>
                 (case renew_at now x m1 of (m2, x2, err) \<Rightarrow>
                   (Some m2, Some x2, (case err of None \<Rightarrow> Inr (mm_state x2) | Some e \<Rightarrow> Inl e))))))))"

definition release_at ::
  "time \<Rightarrow> memory_lease \<Rightarrow> memory_leases \<Rightarrow> memory_leases \<times> error option" where
  "release_at now l m = (case ml_held m (mm_key l) of
     None \<Rightarrow> (m, Some err_lease_expired)
   | Some c \<Rightarrow>
       if ls_id c \<noteq> ls_id (mm_state l) then (m, Some err_lease_expired)
       else if \<not> now < ls_expires_at c
       then (m\<lparr>ml_held := (ml_held m)(mm_key l := None)\<rparr>, Some err_lease_expired)
       else (m\<lparr>ml_held := (ml_held m)(mm_key l := None)\<rparr>, None))"

definition lease_release ::
  "memory_leases option \<Rightarrow> memory_lease option \<Rightarrow> memory_leases option \<times> memory_lease option \<times> error option" where
  "lease_release m l = (case l of
     None \<Rightarrow> (m, l, None)
   | Some x \<Rightarrow>
       if mm_released x then (m, l, None)
       else if m = None \<or> mm_key x = [] then (m, l, Some (Errorf ''lease is invalid'' []))
       else (case leases_validate m of
           Some err \<Rightarrow> (m, l, Some err)
         | None \<Rightarrow> (case m of
             None \<Rightarrow> (m, l, Some (Errorf ''lease is invalid'' []))
           | Some m0 \<Rightarrow> (case read_clock m0 of (m1, now) \<Rightarrow>
               (case release_at now x m1 of (m2, err) \<Rightarrow>
                 (Some m2, Some (x\<lparr>mm_released := True\<rparr>), err))))))"

section \<open>What the operations do to the map\<close>

definition live :: "memory_leases \<Rightarrow> string \<Rightarrow> time \<Rightarrow> bool" where
  "live m key now \<longleftrightarrow> (case ml_held m key of None \<Rightarrow> False | Some c \<Rightarrow> now < ls_expires_at c)"

lemma fresh_id_fields:
  "fresh_id m = (m', r) \<Longrightarrow> ml_held m' = ml_held m \<and> ml_ttl m' = ml_ttl m \<and> ml_owner m' = ml_owner m
     \<and> ml_clock m' = ml_clock m \<and> ml_new_id m' = ml_new_id m \<and> ml_ticks m' = ml_ticks m \<and> ml_ids m' = Suc (ml_ids m)"
  by (auto simp: fresh_id_def)

lemma read_clock_fields:
  "read_clock m = (m', now) \<Longrightarrow> ml_held m' = ml_held m \<and> ml_ttl m' = ml_ttl m \<and> ml_owner m' = ml_owner m
     \<and> ml_clock m' = ml_clock m \<and> ml_new_id m' = ml_new_id m \<and> ml_ids m' = ml_ids m"
  by (auto simp: read_clock_def)

lemma acquire_at_held:
  "live m (lr_key req) now \<Longrightarrow> acquire_at now req m = (m, Inl err_lease_held)"
  by (simp add: acquire_at_def live_def Let_def split: option.splits)

lemma acquire_at_Inr:
  assumes "acquire_at now req m = (m', Inr l)"
  shows "\<not> live m (lr_key req) now \<and> mm_key l = lr_key req \<and> \<not> mm_released l
    \<and> mm_previous_expired l = ml_held m (lr_key req)
    \<and> mm_state l = \<lparr>ls_id = ls_id (mm_state l), ls_owner = ml_owner m, ls_operation_id = lr_operation_id req,
         ls_acquired_at = now, ls_expires_at = now + ml_ttl m\<rparr>
    \<and> valid_identifier (ls_id (mm_state l)) \<and> (\<exists>m1. fresh_id (m\<lparr>ml_held := (ml_held m)(lr_key req := None)\<rparr>) = (m1, Inr (ls_id (mm_state l))))
    \<and> ml_held m' = (ml_held m)(lr_key req \<mapsto> mm_state l) \<and> ml_ids m' = Suc (ml_ids m)
    \<and> ml_ttl m' = ml_ttl m \<and> ml_owner m' = ml_owner m \<and> ml_clock m' = ml_clock m \<and> ml_new_id m' = ml_new_id m"
  using assms
  by (auto simp: acquire_at_def live_def Let_def fresh_id_def split: if_splits prod.splits sum.splits option.splits)

lemma acquire_at_Inl:
  "acquire_at now req m = (m', Inl err) \<Longrightarrow>
     (\<forall>k. k \<noteq> lr_key req \<longrightarrow> ml_held m' k = ml_held m k)
     \<and> (ml_held m' (lr_key req) = ml_held m (lr_key req) \<or> ml_held m' (lr_key req) = None)
     \<and> ml_new_id m' = ml_new_id m \<and> ml_ids m \<le> ml_ids m'"
  by (auto simp: acquire_at_def Let_def fresh_id_def split: if_splits prod.splits sum.splits option.splits)

text \<open>A lease is current when the map still holds its state under its key.\<close>

definition current :: "memory_leases \<Rightarrow> memory_lease \<Rightarrow> bool" where
  "current m l \<longleftrightarrow> (\<exists>c. ml_held m (mm_key l) = Some c \<and> ls_id c = ls_id (mm_state l))"

definition in_step :: "memory_leases \<Rightarrow> memory_lease \<Rightarrow> bool" where
  "in_step m l \<longleftrightarrow> (\<forall>c. ml_held m (mm_key l) = Some c \<and> ls_id c = ls_id (mm_state l) \<longrightarrow> c = mm_state l)"

lemma renew_at_None:
  assumes "renew_at now l m = (m', l', None)" and "in_step m l"
  shows "ml_held m (mm_key l) = Some (mm_state l) \<and> now < ls_expires_at (mm_state l)
    \<and> mm_key l' = mm_key l \<and> mm_released l' = mm_released l
    \<and> ls_id (mm_state l') = ls_id (mm_state l) \<and> ls_owner (mm_state l') = ls_owner (mm_state l)
    \<and> ls_operation_id (mm_state l') = ls_operation_id (mm_state l) \<and> ls_acquired_at (mm_state l') = ls_acquired_at (mm_state l)
    \<and> (0 < ml_ttl m \<longrightarrow> ls_expires_at (mm_state l) < ls_expires_at (mm_state l'))
    \<and> ml_held m' = (ml_held m)(mm_key l \<mapsto> mm_state l')"
  using assms
  by (auto simp: renew_at_def in_step_def Let_def split: if_splits option.splits)

text \<open>A lease that is not current changes nothing, whether it renews or releases.\<close>

lemma stale_renew: "\<not> current m l \<Longrightarrow> renew_at now l m = (m, l, Some err_lease_expired)"
  by (auto simp: renew_at_def current_def split: option.splits)

lemma stale_release: "\<not> current m l \<Longrightarrow> release_at now l m = (m, Some err_lease_expired)"
  by (auto simp: release_at_def current_def split: option.splits)

lemma release_at_frees:
  "current m l \<Longrightarrow> release_at now l m = (m', r) \<Longrightarrow>
     m' = m\<lparr>ml_held := (ml_held m)(mm_key l := None)\<rparr> \<and> (r = None \<longleftrightarrow> live m (mm_key l) now)"
  by (auto simp: release_at_def current_def live_def split: if_splits)

section \<open>Many holders\<close>

text \<open>One manager and the leases it has handed out so far, used in any order and by any holders.\<close>

type_synonym lease_system = "memory_leases \<times> memory_lease list"

inductive lease_step :: "lease_system \<Rightarrow> lease_system \<Rightarrow> bool" where
  step_acquired: "acquire ctx req (Some m) = (Some m', Inr l) \<Longrightarrow> lease_step (m, ls) (m', ls @ [l])"
| step_refused: "acquire ctx req (Some m) = (Some m', Inl err) \<Longrightarrow> lease_step (m, ls) (m', ls)"
| step_renew: "i < length ls \<Longrightarrow> renew ctx (Some m) (Some (ls ! i)) = (Some m', Some l, r) \<Longrightarrow>
     lease_step (m, ls) (m', ls[i := l])"
| step_release: "i < length ls \<Longrightarrow> lease_release (Some m) (Some (ls ! i)) = (Some m', Some l, r) \<Longrightarrow>
     lease_step (m, ls) (m', ls[i := l])"

inductive_cases lease_stepE: "lease_step (m, ls) y"

inductive lease_reachable :: "lease_system \<Rightarrow> lease_system \<Rightarrow> bool" for start where
  reach_start: "lease_reachable start start"
| reach_step: "lease_reachable start x \<Longrightarrow> lease_step x y \<Longrightarrow> lease_reachable start y"

definition unique_source :: "(nat \<Rightarrow> string result) \<Rightarrow> bool" where
  "unique_source src \<longleftrightarrow> (\<forall>n n' x. src n = Inr x \<and> src n' = Inr x \<longrightarrow> n = n')"

definition lease_id :: "memory_lease \<Rightarrow> string" where
  "lease_id l = ls_id (mm_state l)"

definition system_inv :: "(nat \<Rightarrow> string result) \<Rightarrow> lease_system \<Rightarrow> bool" where
  "system_inv src x \<longleftrightarrow> (case x of (m, ls) \<Rightarrow>
     ml_new_id m = Some src
     \<and> (\<forall>l \<in> set ls. \<exists>n < ml_ids m. src n = Inr (lease_id l))
     \<and> distinct (map lease_id ls)
     \<and> (\<forall>k c. ml_held m k = Some c \<longrightarrow> (\<exists>l \<in> set ls. mm_key l = k \<and> mm_state l = c \<and> \<not> mm_released l)))"

lemma system_inv_held:
  "system_inv src (m, ls) \<Longrightarrow> ml_held m k = Some c \<Longrightarrow> \<exists>l \<in> set ls. mm_key l = k \<and> mm_state l = c \<and> \<not> mm_released l"
  by (simp add: system_inv_def)

lemma system_inv_ids: "system_inv src (m, ls) \<Longrightarrow> l \<in> set ls \<Longrightarrow> \<exists>n < ml_ids m. src n = Inr (lease_id l)"
  by (simp add: system_inv_def)

lemma system_inv_distinct: "system_inv src (m, ls) \<Longrightarrow> distinct (map lease_id ls)"
  by (simp add: system_inv_def)

lemma system_invI:
  assumes "ml_new_id m = Some src" and "\<And>l. l \<in> set ls \<Longrightarrow> \<exists>n < ml_ids m. src n = Inr (lease_id l)"
    and "distinct (map lease_id ls)"
    and "\<And>k c. ml_held m k = Some c \<Longrightarrow> \<exists>l \<in> set ls. mm_key l = k \<and> mm_state l = c \<and> \<not> mm_released l"
  shows "system_inv src (m, ls)"
  using assms by (simp add: system_inv_def)

lemma system_inv_source: "system_inv src (m, ls) \<Longrightarrow> ml_new_id m = Some src"
  by (simp add: system_inv_def)

lemma acquire_step:
  assumes "acquire ctx req (Some m) = (Some m', r)"
  obtains err where "r = Inl err" "ml_held m' = ml_held m" "ml_new_id m' = ml_new_id m" "ml_ids m' = ml_ids m"
  | m1 now where "read_clock m = (m1, now)" "acquire_at now req m1 = (m', r)" "now \<noteq> 0" "leases_validate (Some m) = None"
      "context_error ctx = None"
  using assms
  by (auto simp: acquire_def checks map_prod_def split: option.splits prod.splits if_splits dest: read_clock_fields)

lemma renew_step:
  assumes "renew ctx (Some m) (Some l) = (Some m', Some l', r)"
  obtains e where "l' = l" "m' = m" "r = Inl e"
  | m1 now err where "read_clock m = (m1, now)" "renew_at now l m1 = (m', l', err)" "\<not> mm_released l"
      "r = (case err of None \<Rightarrow> Inr (mm_state l') | Some e \<Rightarrow> Inl e)" "leases_validate (Some m) = None"
proof (cases "context_error ctx = None \<and> \<not> mm_released l \<and> mm_key l \<noteq> [] \<and> leases_validate (Some m) = None")
  case True
  obtain m1 now where c: "read_clock m = (m1, now)" by fastforce
  obtain m2 l2 err where n: "renew_at now l m1 = (m2, l2, err)" by (cases "renew_at now l m1")
  show thesis by (rule that(2) [of m1 now err]) (use assms True c n in \<open>auto simp: renew_def\<close>)
next
  case False
  then show thesis using assms that(1) by (auto simp: renew_def split: option.splits if_splits)
qed

lemma release_step:
  assumes "lease_release (Some m) (Some l) = (Some m', Some l', r)"
  obtains "l' = l" "m' = m"
  | m1 now where "read_clock m = (m1, now)" "release_at now l m1 = (m', r)" "\<not> mm_released l" "l' = l\<lparr>mm_released := True\<rparr>"
proof (cases "\<not> mm_released l \<and> mm_key l \<noteq> [] \<and> leases_validate (Some m) = None")
  case True
  obtain m1 now where c: "read_clock m = (m1, now)" by fastforce
  obtain m2 err where n: "release_at now l m1 = (m2, err)" by fastforce
  show thesis by (rule that(2) [of m1 now]) (use assms True c n in \<open>simp_all add: lease_release_def\<close>)
next
  case False
  then show thesis using assms that(1) by (auto simp: lease_release_def split: option.splits if_splits)
qed

lemma set_list_update_distinct:
  "distinct (map f xs) \<Longrightarrow> i < length xs \<Longrightarrow> f y = f (xs ! i) \<Longrightarrow> distinct (map f (xs[i := y]))"
  by (metis list_update_id map_update)

lemma system_inv_acquire:
  assumes inv: "system_inv src (m, ls)" and unique: "unique_source src"
    and step: "acquire ctx req (Some m) = (Some m', r)"
  shows "system_inv src (m', case r of Inl _ \<Rightarrow> ls | Inr l \<Rightarrow> ls @ [l])"
  using step
proof (cases rule: acquire_step)
  case (1 err)
  then show ?thesis using inv by (simp add: system_inv_def)
next
  case (2 m1 now)
  have m1: "ml_held m1 = ml_held m" "ml_new_id m1 = ml_new_id m" "ml_ids m1 = ml_ids m"
    using read_clock_fields [OF 2(1)] by simp_all
  note src = system_inv_source [OF inv]
  show ?thesis
  proof (cases r)
    case (Inl err)
    note a = acquire_at_Inl [OF 2(2) [unfolded Inl]]
    have held: "ml_held m k = Some c" if "ml_held m' k = Some c" for k c
      using that a m1 by (cases "k = lr_key req") auto
    have "\<exists>n < ml_ids m'. src n = Inr (lease_id l)" if "l \<in> set ls" for l
      using system_inv_ids [OF inv that] a m1 by (metis less_le_trans)
    then have "system_inv src (m', ls)"
      using a m1 src system_inv_distinct [OF inv] system_inv_held [OF inv held] by (intro system_invI) simp_all
    with Inl show ?thesis by simp
  next
    case (Inr l)
    note a = acquire_at_Inr [OF 2(2) [unfolded Inr]]
    have l: "src (ml_ids m) = Inr (lease_id l)" using a m1 src by (auto simp: fresh_id_def lease_id_def)
    have fresh: "lease_id l \<notin> lease_id ` set ls"
    proof
      assume "lease_id l \<in> lease_id ` set ls"
      then obtain x where "x \<in> set ls" "lease_id l = lease_id x" by blast
      with system_inv_ids [OF inv, of x] obtain n where "n < ml_ids m" "src n = Inr (lease_id l)" by auto
      with l unique have "n = ml_ids m" unfolding unique_source_def by blast
      with \<open>n < ml_ids m\<close> show False by simp
    qed
    have held: "\<exists>x \<in> set (ls @ [l]). mm_key x = k \<and> mm_state x = c \<and> \<not> mm_released x" if "ml_held m' k = Some c" for k c
      using that a m1 system_inv_held [OF inv, of k c] by (cases "k = lr_key req") auto
    have ids: "\<exists>n < ml_ids m'. src n = Inr (lease_id x)" if "x \<in> set (ls @ [l])" for x
    proof (cases "x = l")
      case True
      with l a m1 show ?thesis by (intro exI [of _ "ml_ids m"]) simp
    next
      case False
      with that system_inv_ids [OF inv, of x] obtain n where "n < ml_ids m" "src n = Inr (lease_id x)" by auto
      with a m1 show ?thesis by (intro exI [of _ n]) simp
    qed
    have "system_inv src (m', ls @ [l])"
      using a m1 src fresh system_inv_distinct [OF inv] held ids by (intro system_invI) simp_all
    with Inr show ?thesis by simp
  qed
qed

text \<open>One lease rewritten in place, keeping its identity.\<close>

lemma system_inv_update:
  assumes inv: "system_inv src (m, ls)" and i: "i < length ls"
    and same: "mm_key l = mm_key (ls ! i)" "lease_id l = lease_id (ls ! i)"
    and m': "ml_new_id m' = ml_new_id m" "ml_ids m' = ml_ids m"
    and held: "\<And>k c. ml_held m' k = Some c \<Longrightarrow>
      (ml_held m k = Some c \<and> (ls ! i = l \<or> ls_id c \<noteq> lease_id (ls ! i) \<or> k \<noteq> mm_key (ls ! i))) \<or> (k = mm_key l \<and> c = mm_state l \<and> \<not> mm_released l)"
  shows "system_inv src (m', ls[i := l])"
proof -
  have "\<exists>x \<in> set (ls[i := l]). mm_key x = k \<and> mm_state x = c \<and> \<not> mm_released x" if "ml_held m' k = Some c" for k c
    using held [OF that]
  proof
    assume old: "ml_held m k = Some c \<and> (ls ! i = l \<or> ls_id c \<noteq> lease_id (ls ! i) \<or> k \<noteq> mm_key (ls ! i))"
    then obtain x where x: "x \<in> set ls" "mm_key x = k" "mm_state x = c" "\<not> mm_released x"
      using system_inv_held [OF inv, of k c] by blast
    then obtain j where j: "j < length ls" "ls ! j = x" by (auto simp: in_set_conv_nth)
    show ?thesis
    proof (cases "j = i")
      case True
      with j x old have "ls ! i = l" by (auto simp: lease_id_def)
      then have "ls[i := l] = ls" by (metis list_update_id)
      with x show ?thesis by auto
    next
      case False
      then have "ls[i := l] ! j = x" using j by simp
      with x j show ?thesis by (metis length_list_update nth_mem)
    qed
  next
    assume "k = mm_key l \<and> c = mm_state l \<and> \<not> mm_released l"
    moreover have "l \<in> set (ls[i := l])" using i by (rule set_update_memI)
    ultimately show ?thesis by blast
  qed
  moreover have "\<exists>n < ml_ids m'. src n = Inr (lease_id x)" if "x \<in> set (ls[i := l])" for x
  proof -
    from that set_update_subset_insert [of ls i l] have "x = l \<or> x \<in> set ls" by auto
    then have "lease_id x \<in> lease_id ` set ls" using same(2) i by auto
    then show ?thesis using system_inv_ids [OF inv] m'(2) by auto
  qed
  moreover have "distinct (map lease_id (ls[i := l]))"
    using system_inv_distinct [OF inv] i same(2) by (rule set_list_update_distinct)
  ultimately show ?thesis using system_inv_source [OF inv] m'(1) by (intro system_invI) simp_all
qed

lemma system_inv_in_step:
  assumes "system_inv src (m, ls)" and "l \<in> set ls"
  shows "in_step m l"
proof -
  have "c = mm_state l" if c: "ml_held m (mm_key l) = Some c" "ls_id c = ls_id (mm_state l)" for c
  proof -
    from system_inv_held [OF assms(1) c(1)] obtain x where x: "x \<in> set ls" "mm_state x = c" by blast
    then have "lease_id x = lease_id l" using c(2) by (simp add: lease_id_def)
    moreover have "distinct (map lease_id ls)" using assms(1) by (simp add: system_inv_def)
    ultimately have "x = l" using x(1) assms(2) by (auto simp: distinct_map dest: inj_onD)
    with x show ?thesis by simp
  qed
  then show ?thesis by (simp add: in_step_def)
qed

lemma renew_at_Some:
  "renew_at now l m = (m', l', Some err) \<Longrightarrow>
     l' = l \<and> (m' = m \<or> m' = m\<lparr>ml_held := (ml_held m)(mm_key l := None)\<rparr>)"
  by (auto simp: renew_at_def Let_def split: option.splits if_splits)

lemma renew_at_fields:
  "renew_at now l m = (m', r) \<Longrightarrow> ml_new_id m' = ml_new_id m \<and> ml_ids m' = ml_ids m"
  by (auto simp: renew_at_def Let_def split: option.splits if_splits)

lemma system_inv_renew:
  assumes inv: "system_inv src (m, ls)" and i: "i < length ls"
    and step: "renew ctx (Some m) (Some (ls ! i)) = (Some m', Some l, r)"
  shows "system_inv src (m', ls[i := l])"
  using step
proof (cases rule: renew_step)
  case (1 e)
  with inv show ?thesis by simp
next
  case (2 m1 now err)
  have m1: "ml_held m1 = ml_held m" "ml_new_id m1 = ml_new_id m" "ml_ids m1 = ml_ids m"
    using read_clock_fields [OF 2(1)] by simp_all
  note f = renew_at_fields [OF 2(2)]
  show ?thesis
  proof (cases err)
    case None
    have "in_step m1 (ls ! i)" using system_inv_in_step [OF inv nth_mem [OF i]] m1(1) by (simp add: in_step_def)
    note n = renew_at_None [OF 2(2) [unfolded None] this]
    show ?thesis
    proof (rule system_inv_update [OF inv i])
      fix k c
      assume "ml_held m' k = Some c"
      then show "(ml_held m k = Some c \<and> (ls ! i = l \<or> ls_id c \<noteq> lease_id (ls ! i) \<or> k \<noteq> mm_key (ls ! i)))
          \<or> (k = mm_key l \<and> c = mm_state l \<and> \<not> mm_released l)"
        using n m1(1) 2(3) by (cases "k = mm_key (ls ! i)") auto
    qed (use n f m1 in \<open>simp_all add: lease_id_def\<close>)
  next
    case (Some e)
    note n = renew_at_Some [OF 2(2) [unfolded Some]]
    show ?thesis
    proof (rule system_inv_update [OF inv i])
      fix k c
      assume "ml_held m' k = Some c"
      then show "(ml_held m k = Some c \<and> (ls ! i = l \<or> ls_id c \<noteq> lease_id (ls ! i) \<or> k \<noteq> mm_key (ls ! i)))
          \<or> (k = mm_key l \<and> c = mm_state l \<and> \<not> mm_released l)"
        using n m1(1) by (auto split: if_splits)
    qed (use n f m1 in \<open>simp_all add: lease_id_def\<close>)
  qed
qed

lemma system_inv_release:
  assumes inv: "system_inv src (m, ls)" and i: "i < length ls"
    and step: "lease_release (Some m) (Some (ls ! i)) = (Some m', Some l, r)"
  shows "system_inv src (m', ls[i := l])"
  using step
proof (cases rule: release_step)
  case 1
  with inv show ?thesis by simp
next
  case (2 m1 now)
  have m1: "ml_held m1 = ml_held m" "ml_new_id m1 = ml_new_id m" "ml_ids m1 = ml_ids m"
    using read_clock_fields [OF 2(1)] by simp_all
  have m': "ml_new_id m' = ml_new_id m" "ml_ids m' = ml_ids m"
    using 2(2) m1 by (auto simp: release_at_def split: option.splits if_splits)
  have held: "ml_held m k = Some c \<and> (ls_id c \<noteq> lease_id (ls ! i) \<or> k \<noteq> mm_key (ls ! i))" if "ml_held m' k = Some c" for k c
    using 2(2) m1(1) that by (auto simp: release_at_def lease_id_def split: option.splits if_splits)
  show ?thesis
    by (rule system_inv_update [OF inv i _ _ m']) (use 2(4) held in \<open>auto simp: lease_id_def\<close>)
qed

lemma system_inv_step:
  assumes "lease_step x y" and "system_inv src x" and "unique_source src"
  shows "system_inv src y"
  using assms(1)
proof cases
  case (step_acquired ctx req m m' l ls)
  with system_inv_acquire [of src m ls ctx req m' "Inr l"] assms show ?thesis by simp
next
  case (step_refused ctx req m m' err ls)
  with system_inv_acquire [of src m ls ctx req m' "Inl err"] assms show ?thesis by simp
next
  case (step_renew i ls ctx m m' l r)
  with system_inv_renew assms show ?thesis by blast
next
  case (step_release i ls m m' l r)
  with system_inv_release assms show ?thesis by blast
qed

lemma system_inv_start: "system_inv src (new_memory_leases owner ttl clock (Some src), [])"
  by (simp add: system_inv_def new_memory_leases_def)

lemma system_inv_reachable:
  assumes "lease_reachable (new_memory_leases owner ttl clock (Some src), []) x" and "unique_source src"
  shows "system_inv src x"
  using assms(1) by induction (use assms(2) system_inv_start system_inv_step in blast)+

section \<open>The leases a client sees\<close>

text \<open>The lease as it is written to the journal.\<close>

definition payload_of :: "lease_state \<Rightarrow> lease_payload" where
  "payload_of st = \<lparr>lp_id = ls_id st, lp_owner = ls_owner st, lp_acquired_at = ls_acquired_at st,
     lp_expires_at = ls_expires_at st\<rparr>"

definition recordable :: "lease_state \<Rightarrow> bool" where
  "recordable st \<longleftrightarrow> valid_identifier (ls_id st) \<and> valid_identifier (ls_owner st) \<and> ls_acquired_at st \<noteq> 0
     \<and> ls_acquired_at st < ls_expires_at st"

definition same_lease :: "lease_state \<Rightarrow> lease_state \<Rightarrow> bool" where
  "same_lease a b \<longleftrightarrow> ls_id b = ls_id a \<and> ls_owner b = ls_owner a \<and> ls_operation_id b = ls_operation_id a
     \<and> ls_acquired_at b = ls_acquired_at a"

text \<open>
  What the executor relies on: a lease is for the operation asked for and can be recorded, and a renewal
  is the same lease with a later expiry.
\<close>

locale lease_service =
  fixes take_lease :: "'m \<Rightarrow> go_context \<Rightarrow> lease_request \<Rightarrow> 'm \<times> 'l result"
    and extend :: "'m \<Rightarrow> 'l \<Rightarrow> go_context \<Rightarrow> 'm \<times> 'l \<times> lease_state result"
    and view :: "'l \<Rightarrow> lease_state"
    and sound :: "'m \<Rightarrow> 'l \<Rightarrow> bool"
  assumes take_view: "take_lease m ctx req = (m', Inr l) \<Longrightarrow>
      ls_operation_id (view l) = lr_operation_id req \<and> recordable (view l) \<and> sound m' l"
    and extend_view: "sound m l \<Longrightarrow> recordable (view l) \<Longrightarrow> extend m l ctx = (m', l', Inr st) \<Longrightarrow>
      st = view l' \<and> same_lease (view l) st \<and> ls_expires_at (view l) < ls_expires_at st \<and> sound m' l'"
begin

text \<open>Renewals of one lease, the first error ending them.\<close>

lemma extend_recordable:
  assumes "sound m l" and "recordable (view l)" and "extend m l ctx = (m', l', Inr st)"
  shows "recordable st"
proof -
  from extend_view [OF assms] have "ls_expires_at (view l) < ls_expires_at st" "same_lease (view l) st" by auto
  with assms(2) show ?thesis by (auto simp: recordable_def same_lease_def)
qed

text \<open>The journal's record of a renewal is accepted for the operation that holds the lease.\<close>

lemma renewal_accepted:
  assumes "sound m l" and "recordable (view l)" and "extend m l ctx = (m', l', Inr st)"
    and "pay_lease (e_payload e) = Some (payload_of st)"
  shows "step_lease_renewed e (set_lease (payload_of (view l)) op) = Inr (set_lease (payload_of st) op)"
proof -
  from extend_view [OF assms(1-3)] have "same_lease (view l) st" "ls_expires_at (view l) < ls_expires_at st" by auto
  with assms(4) show ?thesis
    by (auto simp: step_lease_renewed_def with_lease_def lease_matches_def set_lease_def payload_of_def same_lease_def)
qed

end

text \<open>The in-memory manager provides it.\<close>

definition manager_acquire ::
  "memory_leases \<Rightarrow> go_context \<Rightarrow> lease_request \<Rightarrow> memory_leases \<times> memory_lease result" where
  "manager_acquire m ctx req = (case acquire ctx req (Some m) of
     (None, r) \<Rightarrow> (m, r) | (Some m', r) \<Rightarrow> (m', r))"

definition manager_renew ::
  "memory_leases \<Rightarrow> memory_lease \<Rightarrow> go_context \<Rightarrow> memory_leases \<times> memory_lease \<times> lease_state result" where
  "manager_renew m l ctx = (case renew ctx (Some m) (Some l) of
     (Some m', Some l', r) \<Rightarrow> (m', l', r) | (_, _, r) \<Rightarrow> (m, l, r))"

lemma leases_validate_Some:
  "leases_validate (Some m) = None \<longleftrightarrow>
     valid_identifier (ml_owner m) \<and> 0 < ml_ttl m \<and> (\<exists>c. ml_clock m = Some c) \<and> (\<exists>s. ml_new_id m = Some s)"
  by (auto simp: leases_validate_def checks)

lemma acquire_manager: "\<exists>m' r. acquire ctx req (Some m) = (Some m', r)"
  by (auto simp: acquire_def map_prod_def split: option.splits prod.splits if_splits)

lemma renew_manager: "\<exists>m' l' r. renew ctx (Some m) (Some l) = (Some m', Some l', r)"
  by (auto simp: renew_def split: option.splits prod.splits if_splits)

interpretation memory: lease_service manager_acquire manager_renew mm_state in_step
proof
  fix m m' :: memory_leases and ctx req l
  assume "manager_acquire m ctx req = (m', Inr l)"
  then have "acquire ctx req (Some m) = (Some m', Inr l)"
    using acquire_manager [of ctx req m] by (auto simp: manager_acquire_def)
  then show "ls_operation_id (mm_state l) = lr_operation_id req \<and> recordable (mm_state l) \<and> in_step m' l"
  proof (cases rule: acquire_step)
    case (2 m1 now)
    note a = acquire_at_Inr [OF 2(2)]
    have "valid_identifier (ml_owner m)" "0 < ml_ttl m" using 2(4) by (simp_all add: leases_validate_Some)
    moreover have "ml_owner m1 = ml_owner m" "ml_ttl m1 = ml_ttl m" using read_clock_fields [OF 2(1)] by simp_all
    moreover obtain st where "mm_state l = st" "st = \<lparr>ls_id = ls_id st, ls_owner = ml_owner m1,
        ls_operation_id = lr_operation_id req, ls_acquired_at = now, ls_expires_at = now + ml_ttl m1\<rparr>" using a by blast
    ultimately show ?thesis using a 2(3) by (cases st) (auto simp: recordable_def in_step_def)
  qed simp
next
  fix m m' :: memory_leases and l l' ctx st
  assume sound: "in_step m l" and "recordable (mm_state l)" and "manager_renew m l ctx = (m', l', Inr st)"
  then have "renew ctx (Some m) (Some l) = (Some m', Some l', Inr st)"
    using renew_manager [of ctx m l] by (auto simp: manager_renew_def)
  then show "st = mm_state l' \<and> same_lease (mm_state l) st \<and> ls_expires_at (mm_state l) < ls_expires_at st \<and> in_step m' l'"
  proof (cases rule: renew_step)
    case (1 e)
    then show ?thesis by simp
  next
    case (2 m1 now err)
    then have err: "err = None" and st: "st = mm_state l'" by (auto split: option.splits)
    have m1: "ml_held m1 = ml_held m" "ml_ttl m1 = ml_ttl m" using read_clock_fields [OF 2(1)] by simp_all
    have "in_step m1 l" using sound m1(1) by (simp add: in_step_def)
    note n = renew_at_None [OF 2(2) [unfolded err] this]
    have "0 < ml_ttl m" using 2(5) by (simp add: leases_validate_Some)
    with n m1(2) st show ?thesis by (auto simp: same_lease_def in_step_def)
  qed
qed

end
