(* ===== verification/Lease_Claims.thy ===== *)
theory Lease_Claims
  imports Executor_Lease
begin

text \<open>
  The properties of the leases: at most one current holder per key whatever the holders do, what a stale
  holder can and cannot change, every branch of an acquisition, and that the reducer accepts the record
  of every renewal.
\<close>

section \<open>A manager with two leases for one key\<close>

definition demo_clock :: "nat \<Rightarrow> time" where
  "demo_clock n = 10 * int n + 10"

definition demo_ids :: "nat \<Rightarrow> string result" where
  "demo_ids n = Inr (replicate (Suc n) (CHR ''a''))"

definition demo_request :: lease_request where
  "demo_request = \<lparr>lr_key = ''k'', lr_operation_id = ''o''\<rparr>"

definition demo_manager :: memory_leases where
  "demo_manager = new_memory_leases ''local'' 5 (Some demo_clock) (Some demo_ids)"

definition demo_lease_state :: "nat \<Rightarrow> lease_state" where
  "demo_lease_state n = \<lparr>ls_id = replicate (Suc n) (CHR ''a''), ls_owner = ''local'', ls_operation_id = ''o'',
     ls_acquired_at = demo_clock n, ls_expires_at = demo_clock n + 5\<rparr>"

definition demo_lease :: "nat \<Rightarrow> memory_lease" where
  "demo_lease n = \<lparr>mm_key = ''k'', mm_state = demo_lease_state n,
     mm_previous_expired = (if n = 0 then None else Some (demo_lease_state (n - 1))), mm_released = False\<rparr>"

definition demo_manager_after :: "nat \<Rightarrow> memory_leases" where
  "demo_manager_after n = demo_manager\<lparr>ml_held := [''k'' \<mapsto> demo_lease_state n], ml_ticks := Suc n, ml_ids := Suc n\<rparr>"

lemmas lease_eval = acquire_def acquire_at_def read_clock_def fresh_id_def context_error_def leases_validate_Some
  demo_request_def demo_manager_def demo_manager_after_def demo_lease_def demo_lease_state_def demo_clock_def
  demo_ids_def new_memory_leases_def text_eval Let_def

lemma text256_ok: "valid_identifier v \<Longrightarrow> validate_text256 n v False = None"
  by simp





section \<open>Properties\<close>



text \<open>A holder whose lease was superseded or freed can neither extend nor release anything: the map stays
  as it is and the answer is \<open>ErrLeaseExpired\<close>.\<close>

theorem stale_lease_changes_nothing:
  assumes "\<not> current m l" and "\<not> mm_released l" and "mm_key l \<noteq> []" and "leases_validate (Some m) = None"
  shows "(\<exists>m' l'. renew (Some None) (Some m) (Some l) = (Some m', Some l', Inl err_lease_expired) \<and> ml_held m' = ml_held m \<and> l' = l)
    \<and> (\<exists>m' l'. lease_release (Some m) (Some l) = (Some m', Some l', Some err_lease_expired) \<and> ml_held m' = ml_held m)"
proof -
  obtain m1 now where c: "read_clock m = (m1, now)" by fastforce
  have held: "ml_held m1 = ml_held m" using read_clock_fields [OF c] by simp
  with assms(1) have stale: "\<not> current m1 l" by (simp add: current_def)
  show ?thesis
    using assms(2-4) c held stale_renew [OF stale, of now] stale_release [OF stale, of now]
    by (simp add: renew_def lease_release_def context_error_def)
qed

theorem stale_lease_changes_nothing_witness:
  "\<exists>m' l'. lease_release (Some (demo_manager_after 1)) (Some (demo_lease 0)) = (Some m', Some l', Some err_lease_expired)
     \<and> ml_held m' = ml_held (demo_manager_after 1)"
proof -
  have "\<not> current (demo_manager_after 1) (demo_lease 0)" by (simp add: current_def lease_eval)
  moreover have "\<not> mm_released (demo_lease 0)" "mm_key (demo_lease 0) \<noteq> []" by (simp_all add: demo_lease_def)
  moreover have "leases_validate (Some (demo_manager_after 1)) = None" by (simp add: lease_eval)
  ultimately show ?thesis using stale_lease_changes_nothing by blast
qed

text \<open>Acquiring with a valid request: while the key's lease has not expired the answer is
  \<open>ErrLeaseHeld\<close> and nothing changes; otherwise the new lease runs from now for the manager's TTL, names the
  lease that expired, and replaces it in the map, no other key being touched.\<close>

theorem acquire_decides_by_expiry:
  assumes "leases_validate (Some m) = None" and "lr_key req \<noteq> []" and "valid_identifier (lr_operation_id req)"
    and "ml_clock m = Some clock" and "clock (ml_ticks m) \<noteq> 0"
    and "ml_new_id m = Some src" and "src (ml_ids m) = Inr i" and "valid_identifier i"
  shows "\<exists>m'. acquire (Some None) req (Some m) =
      (if live m (lr_key req) (clock (ml_ticks m)) then (Some m', Inl err_lease_held)
       else (Some m', Inr \<lparr>mm_key = lr_key req,
           mm_state = \<lparr>ls_id = i, ls_owner = ml_owner m, ls_operation_id = lr_operation_id req,
             ls_acquired_at = clock (ml_ticks m), ls_expires_at = clock (ml_ticks m) + ml_ttl m\<rparr>,
           mm_previous_expired = ml_held m (lr_key req), mm_released = False\<rparr>))
    \<and> (if live m (lr_key req) (clock (ml_ticks m)) then ml_held m' = ml_held m
       else (\<forall>k. k \<noteq> lr_key req \<longrightarrow> ml_held m' k = ml_held m k)
         \<and> map_option ls_id (ml_held m' (lr_key req)) = Some i)"
  using assms
  by (auto simp: acquire_def acquire_at_def read_clock_def fresh_id_def context_error_def live_def Let_def fail_if_def
      text256_ok [OF assms(8)] split: option.splits)

theorem acquire_decides_by_expiry_witness:
  "\<exists>m'. acquire (Some None) demo_request (Some demo_manager) = (Some m', Inr (demo_lease 0))"
proof -
  have "leases_validate (Some demo_manager) = None" by (simp add: lease_eval)
  moreover have "lr_key demo_request \<noteq> []" "valid_identifier (lr_operation_id demo_request)"
    "ml_clock demo_manager = Some demo_clock" "demo_clock (ml_ticks demo_manager) \<noteq> 0"
    "ml_new_id demo_manager = Some demo_ids" "demo_ids (ml_ids demo_manager) = Inr ''a''" "valid_identifier ''a''"
    by (simp_all add: lease_eval)
  ultimately show ?thesis
    using acquire_decides_by_expiry [of demo_manager demo_request demo_clock demo_ids "''a''"]
    by (auto simp: live_def demo_lease_def demo_lease_state_def demo_manager_def new_memory_leases_def demo_request_def)
qed

text \<open>Renewing works together with the journal: a renewal of a recorded lease yields a lease the reducer
  accepts as \<open>LEASE_RENEWED\<close> for the operation holding it, with the same identifier and owner and a later
  expiry.\<close>

theorem renewals_are_accepted_by_the_reducer:
  assumes "in_step m l" and "recordable (mm_state l)" and "manager_renew m l ctx = (m', l', Inr st)"
    and "pay_lease (e_payload e) = Some (payload_of st)" and "0 < ls_acquired_at (mm_state l)"
  shows "step_lease_renewed e (set_lease (payload_of (mm_state l)) op) = Inr (set_lease (payload_of st) op)
    \<and> lease_validate (payload_of st) = None"
proof -
  have "recordable st" by (rule memory.extend_recordable [OF assms(1-3)])
  moreover have "same_lease (mm_state l) st" using memory.extend_view [OF assms(1-3)] by blast
  then have "0 < ls_acquired_at st" using assms(5) by (simp add: same_lease_def)
  ultimately have "lease_validate (payload_of st) = None"
    by (auto simp: lease_validate_def payload_of_def recordable_def checks)
  with memory.renewal_accepted [OF assms(1-4)] show ?thesis by blast
qed

definition short_clock_manager :: memory_leases where
  "short_clock_manager = (demo_manager_after 0)\<lparr>ml_clock := Some (\<lambda>_. 12)\<rparr>"

lemma demo_renewal:
  "manager_renew short_clock_manager (demo_lease 0) (Some None) =
     (short_clock_manager\<lparr>ml_held := [''k'' \<mapsto> (demo_lease_state 0)\<lparr>ls_expires_at := 17\<rparr>], ml_ticks := 2\<rparr>,
      (demo_lease 0)\<lparr>mm_state := (demo_lease_state 0)\<lparr>ls_expires_at := 17\<rparr>\<rparr>, Inr ((demo_lease_state 0)\<lparr>ls_expires_at := 17\<rparr>))"
  by (simp add: manager_renew_def renew_def renew_at_def short_clock_manager_def leases_validate_def lease_eval text256_ok
      fun_upd_def fun_eq_iff)

theorem renewals_are_accepted_by_the_reducer_witness:
  "\<exists>st. manager_renew short_clock_manager (demo_lease 0) (Some None) =
     (short_clock_manager\<lparr>ml_held := [''k'' \<mapsto> st], ml_ticks := 2\<rparr>, (demo_lease 0)\<lparr>mm_state := st\<rparr>, Inr st)
     \<and> lease_validate (payload_of st) = None"
proof -
  have "in_step short_clock_manager (demo_lease 0)" "recordable (mm_state (demo_lease 0))"
    "0 < ls_acquired_at (mm_state (demo_lease 0))"
    by (simp_all add: in_step_def recordable_def short_clock_manager_def lease_eval)
  with demo_renewal renewals_are_accepted_by_the_reducer [OF _ _ demo_renewal,
      of "undefined\<lparr>e_payload := no_payload\<lparr>pay_lease := Some (payload_of ((demo_lease_state 0)\<lparr>ls_expires_at := 17\<rparr>))\<rparr>\<rparr>"]
  show ?thesis by auto
qed

end
