(* ===== verification/Executor_Outcome.thy ===== *)
theory Executor_Outcome
  imports Executor_Lease Journal_Writer
begin

text \<open>
  What the executor makes of a driver's answer: \<open>internal/executor/types.go\<close> and the functions
  \<open>decideFailure\<close> to \<open>resultCategory\<close> and \<open>persist...\<close> of \<open>executor.go\<close>.  The driver is code of
  its own; of an error it returns the executor only asks whether it is a deadline, a cancellation or a
  \<open>*DriverError\<close>, so a \<open>call_error\<close> is the answers to these three questions.  The journal is the
  parameter \<open>put\<close>, which the writer's \<open>Append\<close> instantiates.
\<close>

section \<open>Driver results and errors\<close>

record driver_result =
  res_state :: normalized_state
  res_provider_state :: string
  res_evidence :: string

definition driver_result_error :: "driver_result \<Rightarrow> error option" where
  "driver_result_error r =
     (if res_state r \<noteq> StateWaitingExternal \<and> res_state r \<noteq> StatePublished \<and> res_state r \<noteq> StateRejected
      then Some (ErrorIs ErrDriverContract ''%w: invalid result state %q'' [state_text (res_state r)])
      else if validate_text256 ''provider state'' (res_provider_state r) True \<noteq> None
      then Some (ErrorIs ErrDriverContract ''%w: %v'' [])
      else if res_evidence r = [] \<or> \<not> json_valid (res_evidence r)
      then Some (ErrorIs ErrDriverContract ''%w: evidence must be valid JSON'' [])
      else None)"

record driver_error =
  de_code :: string
  de_message :: string
  de_retryable :: bool
  de_ambiguous :: bool
  de_blocked :: bool

definition driver_error_text :: "driver_error option \<Rightarrow> string" where
  "driver_error_text e = (case e of
     None \<Rightarrow> []
   | Some d \<Rightarrow> if de_message d \<noteq> [] then de_message d
              else if de_code d \<noteq> [] then de_code d else ''driver error'')"

definition driver_error_valid :: "driver_error option \<Rightarrow> bool" where
  "driver_error_valid e \<longleftrightarrow> (case e of
     None \<Rightarrow> False | Some d \<Rightarrow> validate_text256 ''driver error code'' (de_code d) False = None)"

text \<open>
  \<open>errors.Is\<close> a deadline, \<open>errors.Is\<close> a cancellation, and \<open>errors.As\<close> a \<open>*DriverError\<close>: \<open>None\<close> when the
  error has none, \<open>Some None\<close> when the pointer found is nil.
\<close>

record call_error =
  ce_deadline :: bool
  ce_canceled :: bool
  ce_driver :: "driver_error option option"

definition valid_driver_error :: "call_error \<Rightarrow> driver_error option" where
  "valid_driver_error ce = (case ce_driver ce of
     None \<Rightarrow> None | Some d \<Rightarrow> if driver_error_valid d then d else None)"

definition provider_response_received :: "call_error option \<Rightarrow> bool" where
  "provider_response_received ce = (case ce of
     None \<Rightarrow> True | Some e \<Rightarrow> valid_driver_error e \<noteq> None)"

section \<open>Deciding what a failure means\<close>

datatype failure_stage = FailureBeforeProvider | FailureAfterProviderStart | FailureAfterDispatch

datatype failure_action = FailureStop | FailureRetryApply | FailureReconcile

record failure_decision =
  fd_code :: string
  fd_action :: failure_action
  fd_cancelled :: bool

record call_class =
  cc_code :: string
  cc_retryable :: bool
  cc_ambiguous :: bool
  cc_cancelled :: bool

definition context_is :: "error option \<Rightarrow> sentinel \<Rightarrow> bool" where
  "context_is err s \<longleftrightarrow> (case err of None \<Rightarrow> False | Some e \<Rightarrow> errors_is e s)"

text \<open>\<open>parent\<close> and \<open>ctx\<close> are what \<open>Err()\<close> of the two contexts returns when the classification reads them.\<close>

definition classify_call_error :: "error option \<Rightarrow> error option \<Rightarrow> call_error \<Rightarrow> call_class" where
  "classify_call_error parent ctx ce =
     (if ce_deadline ce \<or> context_is ctx ErrDeadlineExceeded
      then \<lparr>cc_code = ''TIMEOUT'', cc_retryable = True, cc_ambiguous = True, cc_cancelled = False\<rparr>
      else if ce_canceled ce \<or> context_is ctx ErrCanceled
      then (if parent \<noteq> None
            then \<lparr>cc_code = ''CANCELLED'', cc_retryable = False, cc_ambiguous = True, cc_cancelled = True\<rparr>
            else \<lparr>cc_code = ''CANCELLED'', cc_retryable = False, cc_ambiguous = True, cc_cancelled = True\<rparr>)
      else (case valid_driver_error ce of
          Some d \<Rightarrow> \<lparr>cc_code = de_code d, cc_retryable = de_retryable d, cc_ambiguous = de_ambiguous d,
                     cc_cancelled = False\<rparr>
        | None \<Rightarrow> \<lparr>cc_code = ''DRIVER_ERROR'', cc_retryable = False, cc_ambiguous = True, cc_cancelled = False\<rparr>))"

definition decision :: "string \<Rightarrow> failure_action \<Rightarrow> failure_decision" where
  "decision code action = \<lparr>fd_code = code, fd_action = action, fd_cancelled = False\<rparr>"

definition decide_failure ::
  "failure_stage \<Rightarrow> bool \<Rightarrow> error option \<Rightarrow> error option \<Rightarrow> call_error \<Rightarrow> failure_decision" where
  "decide_failure stage side_effecting parent ctx ce =
     (let c = classify_call_error parent ctx ce in
      if cc_cancelled c then
        (if stage = FailureAfterDispatch \<and> side_effecting
         then \<lparr>fd_code = cc_code c, fd_action = FailureReconcile, fd_cancelled = True\<rparr>
         else \<lparr>fd_code = cc_code c, fd_action = FailureStop, fd_cancelled = True\<rparr>)
      else if stage \<noteq> FailureAfterDispatch then
        (if cc_retryable c then decision (cc_code c) FailureRetryApply
         else if valid_driver_error ce \<noteq> None then decision (cc_code c) FailureStop
         else decision (cc_code c) FailureRetryApply)
      else if side_effecting \<and> cc_ambiguous c then decision (cc_code c) FailureReconcile
      else if cc_retryable c then decision (cc_code c) FailureRetryApply
      else if \<not> side_effecting \<and> valid_driver_error ce = None then decision (cc_code c) FailureRetryApply
      else decision (cc_code c) FailureStop)"

section \<open>The entries it writes\<close>

definition result_category :: "normalized_state \<Rightarrow> bool \<Rightarrow> string" where
  "result_category state retryable =
     (if state = StatePublished then ''PUBLISHED''
      else if state = StateWaitingExternal then ''WAITING_EXTERNAL''
      else if state = StateRejected then ''REJECTED''
      else if state = StateFailed then (if retryable then ''FAILED_RETRYABLE'' else ''FAILED_PERMANENT'')
      else if state = StateCancelled then ''CANCELLED''
      else if state = StateBlocked then ''BLOCKED'' else [])"

definition operation_entry :: "run_id \<Rightarrow> operation \<Rightarrow> event_type \<Rightarrow> payload \<Rightarrow> entry" where
  "operation_entry run op t p = \<lparr>en_run_id = run, en_plan_id = [], en_type = t, en_operation_id = op_id op,
     en_target_id = op_target_id op, en_payload = p\<rparr>"

definition explicit_event :: "normalized_state \<Rightarrow> event_type \<times> normalized_state" where
  "explicit_event state =
     (if state = StateWaitingExternal then (EventOperationWaitingExternal, state_unset)
      else if state = StatePublished then (EventOperationPublished, state_unset)
      else if state = StateRejected then (EventOperationRejected, state_unset)
      else if state = StateFailed then (EventOperationFailed, state_unset)
      else (EventOperationResult, state))"

definition result_entry ::
  "run_id \<Rightarrow> operation \<Rightarrow> attempt_number \<Rightarrow> normalized_state \<Rightarrow> string \<Rightarrow> string \<Rightarrow> string \<Rightarrow> bool \<Rightarrow> entry" where
  "result_entry run op attempt state provider_state evidence code retryable =
     (case explicit_event state of (t, payload_state) \<Rightarrow>
        operation_entry run op t (no_payload\<lparr>pay_attempt := attempt, pay_state := payload_state,
          pay_provider_state := provider_state, pay_evidence := evidence, pay_error_code := code,
          pay_retryable := retryable, pay_result_category := result_category state retryable\<rparr>))"

definition reconcile_result_entry ::
  "run_id \<Rightarrow> operation \<Rightarrow> attempt_number \<Rightarrow> normalized_state \<Rightarrow> string \<Rightarrow> string \<Rightarrow> string \<Rightarrow> bool \<Rightarrow> entry" where
  "reconcile_result_entry run op attempt state provider_state evidence code retryable =
     operation_entry run op EventReconcileResult (no_payload\<lparr>pay_attempt := attempt, pay_state := state,
       pay_provider_state := provider_state, pay_evidence := evidence, pay_error_code := code,
       pay_retryable := retryable, pay_result_category := result_category state retryable\<rparr>)"

definition ambiguous_entry :: "run_id \<Rightarrow> operation \<Rightarrow> attempt_number \<Rightarrow> string \<Rightarrow> entry" where
  "ambiguous_entry run op attempt code = operation_entry run op EventOutcomeAmbiguous
     (no_payload\<lparr>pay_attempt := attempt, pay_error_code := code, pay_result_category := ''AMBIGUOUS''\<rparr>)"

section \<open>Recording the outcome\<close>

text \<open>An append whose event is not used.\<close>

definition put_entry :: "('s \<Rightarrow> entry \<Rightarrow> 's \<times> event result) \<Rightarrow> 's \<Rightarrow> entry \<Rightarrow> 's \<times> error option" where
  "put_entry put s en = (case put s en of (s', Inl err) \<Rightarrow> (s', Some err) | (s', Inr _) \<Rightarrow> (s', None))"

text \<open>An append that is followed by the error \<open>err\<close> even when it succeeds.\<close>

definition put_failing ::
  "('s \<Rightarrow> entry \<Rightarrow> 's \<times> event result) \<Rightarrow> 's \<Rightarrow> entry \<Rightarrow> error \<Rightarrow> 's \<times> error option" where
  "put_failing put s en err = (case put_entry put s en of
     (s', Some e) \<Rightarrow> (s', Some e) | (s', None) \<Rightarrow> (s', Some err))"

text \<open>
  The contexts are read twice: by the classification, and again by the test for a blocked preparation.
\<close>

definition preparation_failure_entry ::
  "error option \<Rightarrow> error option \<Rightarrow> error option \<Rightarrow> error option \<Rightarrow> run_id \<Rightarrow> operation \<Rightarrow> attempt_number
     \<Rightarrow> call_error \<Rightarrow> bool \<times> entry" where
  "preparation_failure_entry parent ctx parent' ctx' run op attempt ce =
     (let d = decide_failure FailureBeforeProvider (op_side_effecting op) parent ctx ce;
          blocked = (parent' = None \<and> ctx' = None \<and> (case valid_driver_error ce of None \<Rightarrow> False | Some e \<Rightarrow> de_blocked e));
          state = (if fd_cancelled d then StateCancelled else if blocked then StateBlocked else StateFailed)
      in (state = StateBlocked, result_entry run op attempt state [] [] (fd_code d)
            (state = StateFailed \<and> fd_action d = FailureRetryApply)))"

definition persist_preparation_failure ::
  "('s \<Rightarrow> entry \<Rightarrow> 's \<times> event result) \<Rightarrow> 's \<Rightarrow> error option \<Rightarrow> error option \<Rightarrow> error option \<Rightarrow> error option
     \<Rightarrow> run_id \<Rightarrow> operation \<Rightarrow> attempt_number \<Rightarrow> call_error \<Rightarrow> 's \<times> bool \<times> error option" where
  "persist_preparation_failure put s parent ctx parent' ctx' run op attempt ce =
     (case preparation_failure_entry parent ctx parent' ctx' run op attempt ce of (blocked, en) \<Rightarrow>
        (case put_entry put s en of (s', err) \<Rightarrow> (s', blocked, err)))"

definition failure_stage_of :: "bool \<Rightarrow> bool \<Rightarrow> failure_stage" where
  "failure_stage_of started dispatched =
     (if dispatched then FailureAfterDispatch
      else if started then FailureAfterProviderStart else FailureBeforeProvider)"

definition err_before_dispatch :: error where
  "err_before_dispatch = Errorf ''side-effecting operation returned a result before dispatch was recorded'' []"

definition persist_apply_outcome ::
  "('s \<Rightarrow> entry \<Rightarrow> 's \<times> event result) \<Rightarrow> 's \<Rightarrow> error option \<Rightarrow> error option \<Rightarrow> run_id \<Rightarrow> operation \<Rightarrow> attempt_number
     \<Rightarrow> bool \<Rightarrow> bool \<Rightarrow> driver_result \<Rightarrow> call_error option \<Rightarrow> 's \<times> bool \<times> error option" where
  "persist_apply_outcome put s parent ctx run op attempt started dispatched res call = (case call of
     None \<Rightarrow> (case driver_result_error res of
         Some err \<Rightarrow>
           (case put_failing put s
              (if op_side_effecting op \<and> dispatched then ambiguous_entry run op attempt ''DRIVER_CONTRACT_ERROR''
               else result_entry run op attempt StateFailed [] [] ''DRIVER_CONTRACT_ERROR'' False) err of
            (s', e) \<Rightarrow> (s', False, e))
       | None \<Rightarrow>
           if op_side_effecting op \<and> \<not> dispatched
           then (case put_failing put s (result_entry run op attempt StateFailed [] [] ''DRIVER_BOUNDARY_ERROR'' True)
                    err_before_dispatch of (s', e) \<Rightarrow> (s', False, e))
           else (case put_entry put s
                    (result_entry run op attempt (res_state res) (res_provider_state res) (res_evidence res) [] False) of
               (s', Some e) \<Rightarrow> (s', False, Some e)
             | (s', None) \<Rightarrow> (s', res_state res = StateWaitingExternal, None)))
   | Some ce \<Rightarrow>
       (let d = decide_failure (failure_stage_of started dispatched) (op_side_effecting op) parent ctx ce in
        if fd_action d = FailureReconcile
        then (case put_entry put s (ambiguous_entry run op attempt (fd_code d)) of (s', e) \<Rightarrow> (s', False, e))
        else (case put_entry put s (result_entry run op attempt
                (if fd_cancelled d then StateCancelled else StateFailed) [] [] (fd_code d)
                (fd_action d = FailureRetryApply)) of (s', e) \<Rightarrow> (s', False, e))))"

definition persist_reconcile_outcome ::
  "('s \<Rightarrow> entry \<Rightarrow> 's \<times> event result) \<Rightarrow> 's \<Rightarrow> error option \<Rightarrow> error option \<Rightarrow> run_id \<Rightarrow> operation \<Rightarrow> attempt_number
     \<Rightarrow> bool \<Rightarrow> driver_result \<Rightarrow> call_error option \<Rightarrow> 's \<times> error option" where
  "persist_reconcile_outcome put s parent ctx run op attempt was_ambiguous res call = (case call of
     None \<Rightarrow> (case driver_result_error res of
         Some err \<Rightarrow> put_failing put s
           (reconcile_result_entry run op attempt StateWaitingExternal [] [] ''DRIVER_CONTRACT_ERROR'' False) err
       | None \<Rightarrow> put_entry put s
           (reconcile_result_entry run op attempt (res_state res) (res_provider_state res) (res_evidence res) [] False))
   | Some ce \<Rightarrow>
       (let c = classify_call_error parent ctx ce in
        put_entry put s (reconcile_result_entry run op attempt StateWaitingExternal [] [] (cc_code c)
          (cc_retryable c \<or> was_ambiguous))))"

end
