(* ===== verification/Journal_Accept.thy ===== *)
theory Journal_Accept
  imports Journal_Writer Journal_Run
begin

text \<open>
  When the next event of a journal is accepted: the reducer's conditions, read as rules for the code that
  appends.  \<open>live_run\<close> is a run that has started and has not completed; an event of an operation extends it
  when the step of that operation succeeds, and a batch of such events, one per operation, extends it in
  any prefix, which is what an append that fails half way leaves behind.
\<close>

definition live_run :: "plan \<Rightarrow> run_id \<Rightarrow> event list \<Rightarrow> reducer \<Rightarrow> bool" where
  "live_run p run evs rd \<longleftrightarrow> reduces p evs rd \<and> rd_started rd \<and> \<not> rd_completed rd \<and> rd_run_id rd = run"

lemma live_run_expected: "live_run p run evs rd \<Longrightarrow> rd_expected rd = word_of_nat (Suc (length evs))"
  using header_invariant [of p evs rd] by (simp add: live_run_def header_ok_def)

lemma live_run_keys: "live_run p run evs rd \<Longrightarrow> distinct (map fst (rd_operations rd))"
  using reduces_distinct by (auto simp: live_run_def)

lemma live_run_inv: "live_run p run evs rd \<Longrightarrow> map_of (rd_operations rd) i = Some m \<Longrightarrow> op_inv m"
  using reduces_op_inv by (auto simp: live_run_def)

text \<open>What another operation may see of an event: it becomes ready, or nothing.\<close>

definition bystander :: "mutable_operation \<Rightarrow> mutable_operation \<Rightarrow> bool" where
  "bystander m m' \<longleftrightarrow> m' = m \<or> (os_state m = StatePlanned \<and> m' = m\<lparr>os_state := StateReady\<rparr>)"

lemma bystander_refl [simp]: "bystander m m"
  by (simp add: bystander_def)

lemma bystander_readied: "readied pub m m' \<Longrightarrow> bystander m m'"
  by (auto simp: readied_def bystander_def)

lemma bystander_trans: "bystander a b \<Longrightarrow> bystander b c \<Longrightarrow> bystander a c"
  by (auto simp: bystander_def)

lemma bystander_busy: "bystander m m' \<Longrightarrow> os_state m \<noteq> StatePlanned \<Longrightarrow> m' = m"
  by (simp add: bystander_def)

text \<open>What the event log promises of an appended event, and what the run must allow.\<close>

definition follows :: "run_id \<Rightarrow> event list \<Rightarrow> reducer \<Rightarrow> event \<Rightarrow> bool" where
  "follows run evs rd e \<longleftrightarrow> event_validate e = None \<and> e_sequence e = word_of_nat (Suc (length evs))
     \<and> e_run_id e = run \<and> (rd_cancelled rd \<longrightarrow> allowed_after_run_cancellation (e_type e))"

lemma accept_event:
  assumes live: "live_run p run evs rd" and e: "follows run evs rd e" and type: "\<not> is_run_event (e_type e)"
    and m: "map_of (rd_operations rd) (e_operation_id e) = Some m" "e_target_id e = os_target_id m"
    and step: "operation_step (rd_operations rd) e m = Inr m1"
  obtains rd' m' where "live_run p run (evs @ [e]) rd'" "rd_cancelled rd' = rd_cancelled rd"
    "map_of (rd_operations rd') (e_operation_id e) = Some m'" "bystander m1 m'"
    "\<forall>j n. j \<noteq> e_operation_id e \<longrightarrow> map_of (rd_operations rd) j = Some n \<longrightarrow>
       (\<exists>n'. map_of (rd_operations rd') j = Some n' \<and> bystander n n')"
proof -
  have keys: "distinct (map fst (rd_operations rd))" by (rule live_run_keys [OF live])
  define ops where "ops = (let o1 = adjust (e_operation_id e) (\<lambda>_. m1) (rd_operations rd)
    in if refreshes (e_type e) then refresh_ready o1 else o1)"
  define rd' where "rd' = (recorded e rd)\<lparr>rd_operations := ops\<rparr>"
  have update: "update_operation e (rd_operations rd) = Inr ops"
    using m step by (auto simp: update_operation_Inr ops_def Let_def)
  have adm: "admitted rd e"
    using e live live_run_expected [OF live] by (auto simp: admitted_def follows_def live_run_def)
  have "apply_event p (recorded e rd) e = Inr ((recorded e rd)\<lparr>rd_operations := ops\<rparr>)"
    using type update unfolding apply_event_def is_run_event_def by (cases "e_type e") simp_all
  then have red: "reduce_event p rd e = Inr rd'"
    using adm by (simp add: reduce_event_def checks event_admission_iff [symmetric] recorded_def rd'_def)
  have next_live: "live_run p run (evs @ [e]) rd'"
    using live red e by (auto simp: live_run_def for_each_snoc_Inr rd'_def follows_def)
  have move: "\<exists>n'. map_of (rd_operations rd') j = Some n' \<and> op_move (rd_operations rd) (published (rd_operations rd')) j e n n'"
    if "map_of (rd_operations rd) j = Some n" for j n
    by (rule reduce_event_op_move [OF red keys that])
  have not_cancel: "e_type e \<noteq> EventRunCancelled" using type by (auto simp: is_run_event_def)
  obtain m' where m': "map_of (rd_operations rd') (e_operation_id e) = Some m'"
    "op_move (rd_operations rd) (published (rd_operations rd')) (e_operation_id e) e m m'"
    using move [OF m(1)] by blast
  have own: "bystander m1 m'"
    using m'(2)
  proof cases
    case (own k)
    then have "k = m1" using step by simp
    with own bystander_readied show ?thesis by blast
  next
    case other
    then show ?thesis using type by (simp add: concerns_def)
  next
    case run_cancelled
    with not_cancel show ?thesis by simp
  qed
  have others: "\<exists>n'. map_of (rd_operations rd') j = Some n' \<and> bystander n n'"
    if j: "j \<noteq> e_operation_id e" and n: "map_of (rd_operations rd) j = Some n" for j n
  proof -
    obtain n' where n': "map_of (rd_operations rd') j = Some n'"
      "op_move (rd_operations rd) (published (rd_operations rd')) j e n n'"
      using move [OF n] by blast
    from n'(2) have "bystander n n'"
      by cases (use j not_cancel bystander_readied in \<open>auto simp: concerns_def\<close>)
    with n'(1) show ?thesis by blast
  qed
  show thesis
  proof (rule that [OF next_live _ m'(1) own])
    show "rd_cancelled rd' = rd_cancelled rd" by (simp add: rd'_def)
  qed (use others in blast)
qed

section \<open>The work left\<close>

text \<open>How far an operation is from rest: its lease, its journaled readiness and its state.\<close>

definition operation_rank :: "'a operation_state_scheme \<Rightarrow> nat" where
  "operation_rank m = (if os_lease_active m then 1 else 0) + (if os_ready_journaled m then 0 else 1)
     + (if os_state m = StatePlanned then 3 else if os_state m = StateReady then 2
        else if os_state m = StateRunning then 1 else 0)"

definition backlog :: "'a operation_state_scheme list \<Rightarrow> nat" where
  "backlog ms = sum_list (map operation_rank ms)"

lemma bystander_rank: "bystander m n \<Longrightarrow> operation_rank n \<le> operation_rank m"
  by (auto simp: bystander_def operation_rank_def)

lemma backlog_keys:
  "distinct (map fst ops) \<Longrightarrow> backlog (map snd ops) = (\<Sum>i \<in> fst ` set ops. operation_rank (the (map_of ops i)))"
proof (induction ops)
  case (Cons x ops)
  obtain k m where x: "x = (k, m)" by fastforce
  have "(\<Sum>i \<in> fst ` set ops. operation_rank (the (map_of ((k, m) # ops) i))) = (\<Sum>i \<in> fst ` set ops. operation_rank (the (map_of ops i)))"
    using Cons.prems by (intro sum.cong) (auto simp: x)
  with Cons show ?case by (simp add: x backlog_def)
qed (simp add: backlog_def)

lemma backlog_less:
  assumes "distinct (map fst ops)" and "map fst ops' = map fst ops"
    and "\<And>i n. map_of ops i = Some n \<Longrightarrow> \<exists>n'. map_of ops' i = Some n' \<and> operation_rank n' \<le> operation_rank n"
    and "map_of ops i = Some m" and "map_of ops' i = Some m'" and "operation_rank m' < operation_rank m"
  shows "backlog (map snd ops') < backlog (map snd ops)"
proof -
  have keys: "fst ` set ops' = fst ` set ops" using assms(2) by (metis list.set_map)
  have "(\<Sum>i \<in> fst ` set ops. operation_rank (the (map_of ops' i))) < (\<Sum>i \<in> fst ` set ops. operation_rank (the (map_of ops i)))"
  proof (rule sum_strict_mono_ex1)
    show "\<forall>j \<in> fst ` set ops. operation_rank (the (map_of ops' j)) \<le> operation_rank (the (map_of ops j))"
    proof
      fix j assume "j \<in> fst ` set ops"
      then obtain n where n: "map_of ops j = Some n" by (metis map_of_eq_None_iff not_Some_eq)
      obtain n' where "map_of ops' j = Some n'" "operation_rank n' \<le> operation_rank n" using assms(3) [OF n] by blast
      with n show "operation_rank (the (map_of ops' j)) \<le> operation_rank (the (map_of ops j))" by (simp del: map_of_eq_Some_iff)
    qed
    have "i \<in> fst ` set ops" using map_of_SomeD [OF assms(4)] by force
    moreover have "operation_rank (the (map_of ops' i)) < operation_rank (the (map_of ops i))"
      using assms(4-6) by (simp del: map_of_eq_Some_iff)
    ultimately show "\<exists>j \<in> fst ` set ops. operation_rank (the (map_of ops' j)) < operation_rank (the (map_of ops j))" by blast
  qed simp
  then show ?thesis using backlog_keys assms(1,2) keys by metis
qed

section \<open>Batches\<close>

text \<open>
  An entry of an operation that is in state \<open>m\<close>, or becomes ready meanwhile, is accepted whenever it is
  valid and \<open>Q\<close> allows the event, and brings the operation closer to rest.
\<close>

definition enabled :: "(event \<Rightarrow> bool) \<Rightarrow> entry \<Rightarrow> mutable_operation \<Rightarrow> bool" where
  "enabled Q en m \<longleftrightarrow> (\<forall>n. bystander m n \<longrightarrow> en_target_id en = os_target_id n
     \<and> (\<forall>ops e. event_entry e = en \<longrightarrow> event_validate e = None \<longrightarrow> Q e \<longrightarrow>
          (\<exists>n'. operation_step ops e n = Inr n' \<and> operation_rank n' < operation_rank n)))"

definition batch_ok :: "(event \<Rightarrow> bool) \<Rightarrow> run_id \<Rightarrow> reducer \<Rightarrow> entry list \<Rightarrow> bool" where
  "batch_ok Q run rd ens \<longleftrightarrow> distinct (map en_operation_id ens) \<and> (\<forall>en \<in> set ens. en_run_id en = run
     \<and> \<not> is_run_event (en_type en) \<and> (rd_cancelled rd \<longrightarrow> allowed_after_run_cancellation (en_type en))
     \<and> (\<exists>m. map_of (rd_operations rd) (en_operation_id en) = Some m \<and> enabled Q en m))"

lemma event_entry_fields:
  "event_entry e = en \<Longrightarrow> e_run_id e = en_run_id en \<and> e_type e = en_type en \<and> e_operation_id e = en_operation_id en
     \<and> e_target_id e = en_target_id en \<and> e_payload e = en_payload en"
  by (auto simp: event_entry_def)

lemma enabled_bystander: "enabled Q en m \<Longrightarrow> bystander m n \<Longrightarrow> enabled Q en n"
  using bystander_trans unfolding enabled_def by blast

lemma batch_ok_step:
  assumes "batch_ok Q run rd (en # ens)" and "rd_cancelled rd' = rd_cancelled rd"
    and "\<forall>j n. j \<noteq> en_operation_id en \<longrightarrow> map_of (rd_operations rd) j = Some n \<longrightarrow>
       (\<exists>n'. map_of (rd_operations rd') j = Some n' \<and> bystander n n')"
  shows "batch_ok Q run rd' ens"
proof -
  have "\<exists>n'. map_of (rd_operations rd') (en_operation_id x) = Some n' \<and> enabled Q x n'" if x: "x \<in> set ens" for x
  proof -
    have "en_operation_id x \<noteq> en_operation_id en" using assms(1) x unfolding batch_ok_def
      by (metis distinct.simps(2) image_eqI list.simps(9) list.set_map)
    moreover obtain m where "map_of (rd_operations rd) (en_operation_id x) = Some m" "enabled Q x m"
      using assms(1) x unfolding batch_ok_def by force
    ultimately show ?thesis using assms(3) enabled_bystander by blast
  qed
  then show ?thesis using assms(1,2) unfolding batch_ok_def by auto
qed

lemma accept_batch:
  assumes "live_run p run evs rd" and "batch_ok Q run rd ens" and "map event_entry new = take (length new) ens"
    and "\<forall>k < length new. event_validate (new ! k) = None \<and> e_sequence (new ! k) = word_of_nat (Suc (length evs + k))"
    and "\<forall>e \<in> set new. Q e"
  shows "\<exists>rd'. live_run p run (evs @ new) rd' \<and> rd_cancelled rd' = rd_cancelled rd
    \<and> backlog (map snd (rd_operations rd')) + length new \<le> backlog (map snd (rd_operations rd))"
  using assms
proof (induction new arbitrary: evs rd ens)
  case Nil
  then show ?case by auto
next
  case (Cons e new)
  from Cons.prems(3) obtain en ens' where ens: "ens = en # ens'" and entry: "event_entry e = en"
    and rest: "map event_entry new = take (length new) ens'" by (cases ens) auto
  note f = event_entry_fields [OF entry]
  from Cons.prems(2) ens obtain m where m: "map_of (rd_operations rd) (en_operation_id en) = Some m" "enabled Q en m"
    and facts: "en_run_id en = run" "\<not> is_run_event (en_type en)"
      "rd_cancelled rd \<longrightarrow> allowed_after_run_cancellation (en_type en)"
    by (auto simp: batch_ok_def)
  have e0: "event_validate e = None" "e_sequence e = word_of_nat (Suc (length evs))"
    using Cons.prems(4) by force+
  have Q: "Q e" using Cons.prems(5) by simp
  from m(2) obtain m1 where m1: "en_target_id en = os_target_id m" "operation_step (rd_operations rd) e m = Inr m1"
    "operation_rank m1 < operation_rank m"
    using e0(1) Q entry unfolding enabled_def by (metis bystander_refl)
  have follow: "follows run evs rd e" using e0 f facts by (simp add: follows_def)
  obtain rd1 m' where rd1: "live_run p run (evs @ [e]) rd1" "rd_cancelled rd1 = rd_cancelled rd"
    and own: "map_of (rd_operations rd1) (en_operation_id en) = Some m'" "bystander m1 m'"
    and others: "\<forall>j n. j \<noteq> en_operation_id en \<longrightarrow> map_of (rd_operations rd) j = Some n \<longrightarrow>
       (\<exists>n'. map_of (rd_operations rd1) j = Some n' \<and> bystander n n')"
    by (rule accept_event [OF Cons.prems(1) follow _ _ _ m1(2)]) (use f facts m m1 in auto)
  have batch: "batch_ok Q run rd1 ens'"
    by (rule batch_ok_step [OF Cons.prems(2) [unfolded ens] rd1(2) others])
  have seqs: "\<forall>k < length new. event_validate (new ! k) = None
      \<and> e_sequence (new ! k) = word_of_nat (Suc (length (evs @ [e]) + k))"
  proof (intro allI impI)
    fix k assume "k < length new"
    then show "event_validate (new ! k) = None \<and> e_sequence (new ! k) = word_of_nat (Suc (length (evs @ [e]) + k))"
      using Cons.prems(4) [rule_format, of "Suc k"] by simp
  qed
  have less: "backlog (map snd (rd_operations rd1)) < backlog (map snd (rd_operations rd))"
  proof (rule backlog_less [OF live_run_keys [OF Cons.prems(1)] _ _ m(1) own(1)])
    show "map fst (rd_operations rd1) = map fst (rd_operations rd)"
      using reduces_keys Cons.prems(1) rd1(1) unfolding live_run_def by metis
    show "\<exists>n'. map_of (rd_operations rd1) i = Some n' \<and> operation_rank n' \<le> operation_rank n"
      if n: "map_of (rd_operations rd) i = Some n" for i n
    proof (cases "i = en_operation_id en")
      case True
      with n m(1) have "n = m" by simp
      with True own m1(3) bystander_rank [OF own(2)] show ?thesis by auto
    next
      case False
      with others n obtain n' where "map_of (rd_operations rd1) i = Some n'" "bystander n n'" by blast
      with bystander_rank show ?thesis by blast
    qed
    show "operation_rank m' < operation_rank m" using bystander_rank [OF own(2)] m1(3) by simp
  qed
  obtain rd2 where "live_run p run ((evs @ [e]) @ new) rd2" "rd_cancelled rd2 = rd_cancelled rd1"
    "backlog (map snd (rd_operations rd2)) + length new \<le> backlog (map snd (rd_operations rd1))"
    using Cons.IH [OF rd1(1) batch rest seqs] Cons.prems(5) by auto
  with less rd1(2) show ?case by (intro exI [of _ rd2]) simp
qed

section \<open>Through an event log\<close>

context event_log
begin

text \<open>A pass that appends one enabled entry per operation keeps the journal accepted, wherever it stops.\<close>

lemma batch_accepted_if:
  assumes "sound s" and "live_run p run (events s) rd" and "batch_ok Q run rd ens"
    and "append_each put s ens = (s', r)" and "\<And>new. events s' = events s @ new \<Longrightarrow> \<forall>e \<in> set new. Q e"
  shows "\<exists>rd'. live_run p run (events s') rd' \<and> rd_cancelled rd' = rd_cancelled rd
    \<and> (ens \<noteq> [] \<and> r = None \<longrightarrow> backlog (map snd (rd_operations rd')) < backlog (map snd (rd_operations rd)))"
proof -
  obtain new where new: "events s' = events s @ new" "map event_entry new = take (length new) ens"
    "\<forall>k < length new. event_validate (new ! k) = None \<and> e_sequence (new ! k) = word_of_nat (Suc (length (events s) + k))"
    and all: "r = None \<longrightarrow> length new = length ens"
    using append_each_events [OF assms(1,4)] by blast
  obtain rd' where rd': "live_run p run (events s') rd'" "rd_cancelled rd' = rd_cancelled rd"
    "backlog (map snd (rd_operations rd')) + length new \<le> backlog (map snd (rd_operations rd))"
    using accept_batch [OF assms(2,3) new(2,3) assms(5) [OF new(1)]] new(1) by auto
  have "backlog (map snd (rd_operations rd')) < backlog (map snd (rd_operations rd))" if "ens \<noteq> [] \<and> r = None"
    using rd'(3) all that by (cases "length new") auto
  with rd'(1,2) show ?thesis by blast
qed

end

text \<open>A log all of whose next events \<open>Q\<close> allows.\<close>

locale timed_log = event_log put events sound
  for put :: "'s \<Rightarrow> entry \<Rightarrow> 's \<times> event result" and events sound +
  fixes Q :: "event \<Rightarrow> bool"
    and on_time :: "'s \<Rightarrow> bool"
  assumes put_on_time: "on_time s \<Longrightarrow> put s en = (s', r) \<Longrightarrow> on_time s' \<and> (\<forall>e. r = Inr e \<longrightarrow> Q e)"
begin

lemma append_each_on_time:
  "sound s \<Longrightarrow> on_time s \<Longrightarrow> append_each put s ens = (s', r) \<Longrightarrow> events s' = events s @ new \<Longrightarrow>
     \<forall>e \<in> set new. Q e"
proof (induction ens arbitrary: s new)
  case (Cons en ens)
  obtain t x where t: "put s en = (t, x)" by fastforce
  note on = put_on_time [OF Cons.prems(2) t] and so = append_sound [OF Cons.prems(1) t]
  show ?case
  proof (cases x)
    case (Inl err)
    with Cons.prems t append_Inl [OF Cons.prems(1)] show ?thesis by auto
  next
    case (Inr e)
    note e = append_Inr [OF Cons.prems(1) t [unfolded Inr]]
    have tail: "append_each put t ens = (s', r)" using Cons.prems(3) t Inr by simp
    obtain new' where new': "events s' = events t @ new'" using append_each_events [OF so tail] by blast
    with e Cons.prems(4) have "new = e # new'" by simp
    with Cons.IH [OF so _ tail new'] on Inr show ?thesis by simp
  qed
qed simp

lemma batch_accepted:
  "sound s \<Longrightarrow> on_time s \<Longrightarrow> live_run p run (events s) rd \<Longrightarrow> batch_ok Q run rd ens \<Longrightarrow> append_each put s ens = (s', r) \<Longrightarrow>
     \<exists>rd'. live_run p run (events s') rd' \<and> rd_cancelled rd' = rd_cancelled rd"
  using batch_accepted_if append_each_on_time by blast

end

text \<open>The writer: with no condition on time, and with a clock that has reached some time and never goes back.\<close>

definition clock_reached :: "time \<Rightarrow> writer \<Rightarrow> bool" where
  "clock_reached t w \<longleftrightarrow> (\<forall>k \<ge> w_ticks w. t \<le> w_clock w k)"

lemma append_locked_time:
  assumes "append_locked marshal w en = (w', r)"
  shows "w_clock w' = w_clock w" and "w_ticks w \<le> w_ticks w'"
    and "r = Inr e \<Longrightarrow> e_observed_at e = w_clock w (w_ticks w)"
  using assms
  by (auto simp: append_locked_def commit_event_def Let_def split: option.splits sum.splits prod.splits)

interpretation untimed: timed_log "append_locked marshal" w_events writer_sound "\<lambda>_. True" "\<lambda>_. True" for marshal
  by unfold_locales simp_all

interpretation clocked: timed_log "append_locked marshal" w_events writer_sound "\<lambda>e. t \<le> e_observed_at e" "clock_reached t" for marshal t
proof
  fix w en w' and r :: "event result"
  assume reached: "clock_reached t w" and step: "append_locked marshal w en = (w', r)"
  note time = append_locked_time [OF step]
  have "clock_reached t w'" using reached time(1,2) by (auto simp: clock_reached_def)
  moreover have "\<forall>e. r = Inr e \<longrightarrow> t \<le> e_observed_at e" using reached time(3) by (auto simp: clock_reached_def)
  ultimately show "clock_reached t w' \<and> (\<forall>e. r = Inr e \<longrightarrow> t \<le> e_observed_at e)" ..
qed

section \<open>Reconciliations that were started and have not ended\<close>

definition reconciling_after :: "operation_id \<Rightarrow> event list \<Rightarrow> bool" where
  "reconciling_after i evs = foldl (\<lambda>b e. if concerns i e
     then (e_type e = EventReconcileStarted \<or> b \<and> \<not> refreshes (e_type e)) else b) False evs"

lemma reconciling_after_snoc [simp]:
  "reconciling_after i (evs @ [e]) = (if concerns i e
     then (e_type e = EventReconcileStarted \<or> reconciling_after i evs \<and> \<not> refreshes (e_type e)) else reconciling_after i evs)"
  by (simp add: reconciling_after_def)

lemma reconciling_after_Nil [simp]: "\<not> reconciling_after i []"
  by (simp add: reconciling_after_def)

lemma operation_step_reconciling:
  assumes "operation_step ops e m = Inr n" and "op_inv m"
  shows "mo_reconciling n \<longleftrightarrow> e_type e = EventReconcileStarted \<or> mo_reconciling m \<and> \<not> refreshes (e_type e)"
  using assms(1)
proof (cases rule: operation_step_elim)
  case 13
  then have "refreshes (e_type e)" "e_type e \<noteq> EventReconcileStarted" by auto
  moreover have "\<not> mo_reconciling n"
    using 13(2) by (auto simp: step_explicit_result_def Let_def apply_result_def split: if_splits)
  ultimately show ?thesis by simp
next
  case 6
  then show ?thesis using assms(2) by (auto simp: step_operation_cancelled_def op_inv_def split: if_splits)
next
  case 7
  then show ?thesis using assms(2) by (auto simp: step_attempt_started_def op_inv_def split: if_splits)
qed (auto simp: step_ready_def step_lease_acquired_def step_lease_renewed_def step_lease_expired_def
  step_lease_released_def step_credential_resolved_def step_provider_started_def step_dispatched_def
  step_provider_response_def step_outcome_ambiguous_def step_operation_result_def step_reconcile_started_def
  step_retry_authorized_def step_reconcile_result_def apply_result_def Let_def
  with_lease_def set_lease_def split: if_splits option.splits)

lemma op_move_reconciling:
  assumes "op_move ops pub i e m m'" and "op_inv m"
  shows "mo_reconciling m' \<longleftrightarrow> (if concerns i e
    then e_type e = EventReconcileStarted \<or> mo_reconciling m \<and> \<not> refreshes (e_type e) else mo_reconciling m)"
  using assms(1)
proof cases
  case (own m1)
  with operation_step_reconciling [OF own(5) assms(2)] show ?thesis by (auto simp: readied_def concerns_def)
qed (auto simp: readied_def cancel_operation_def concerns_def is_run_event_def)

lemma reconciling_iff:
  assumes "reduces p evs rd" and "map_of (rd_operations rd) i = Some m"
  shows "mo_reconciling m \<longleftrightarrow> reconciling_after i evs"
proof -
  have "(mo_reconciling m \<longleftrightarrow> reconciling_after i evs) \<and> op_inv m"
    by (rule reduces_op_induct [OF assms]) (simp_all add: initial_operation_def op_move_reconciling)
  then show ?thesis ..
qed

end
