(* ===== verification/Executor_Schedule.thy ===== *)
theory Executor_Schedule
  imports Executor_Outcome Journal_Accept
begin

text \<open>
  What \<open>Execute\<close> decides from the derived state of a run, \<open>internal/executor/executor.go\<close>: the passes that
  append to the journal before any operation is run, the candidates of the next batch and their order, and
  when the run is over.  A pass computes its entries from the derived state it was given and appends them
  one by one; it reports whether it appended any.  The executor's map of operations is an association list.
\<close>

section \<open>Construction\<close>

type_synonym backoff = "attempt_number \<Rightarrow> int"

record options =
  opt_max_concurrency :: int
  opt_max_attempts :: attempt_number
  opt_backoff :: "backoff option"
  opt_leases :: "memory_leases option"
  opt_reconcile_only :: bool

record executor =
  ex_leases :: memory_leases
  ex_max_concurrency :: int
  ex_max_attempts :: attempt_number
  ex_backoff :: backoff
  ex_reconcile_only :: bool

text \<open>Nanoseconds: 250 ms, doubled per completed attempt up to the fifth.\<close>

definition default_backoff :: backoff where
  "default_backoff completed =
     (if completed = 0 then 0
      else (let shift = completed - 1 in 250000000 * 2 ^ unat (if shift > 4 then 4 else shift)))"

definition new_executor :: "memory_leases \<Rightarrow> bool \<Rightarrow> options \<Rightarrow> executor result" where
  "new_executor fresh_leases driver_set o1 =
     (if \<not> driver_set then Inl (Errorf ''driver must not be nil'' [])
      else if opt_max_concurrency o1 < 0 then Inl (Errorf ''max concurrency must not be negative'' [])
      else Inr
        \<lparr>ex_leases = (case opt_leases o1 of None \<Rightarrow> fresh_leases | Some l \<Rightarrow> l),
         ex_max_concurrency = (if opt_max_concurrency o1 = 0 then 4 else opt_max_concurrency o1),
         ex_max_attempts = (if opt_max_attempts o1 = 0 then 3 else opt_max_attempts o1),
         ex_backoff = (case opt_backoff o1 of None \<Rightarrow> default_backoff | Some b \<Rightarrow> b),
         ex_reconcile_only = opt_reconcile_only o1\<rparr>)"

section \<open>Tasks and their order\<close>

datatype task_kind = TaskApply | TaskReconcile

record task =
  tk_kind :: task_kind
  tk_operation :: operation
  tk_state :: operation_state
  tk_requirements :: "requirement list"
  tk_lease :: "memory_lease option"

fun kind_code :: "task_kind \<Rightarrow> nat" where
  "kind_code TaskApply = 0"
| "kind_code TaskReconcile = 1"

text \<open>The order in which \<open>candidates\<close> sorts: reconciliations first, then by identifier.\<close>

datatype task_rank = TaskRank task_kind operation_id

instantiation task_rank :: linorder
begin

fun less_eq_task_rank :: "task_rank \<Rightarrow> task_rank \<Rightarrow> bool" where
  "less_eq_task_rank (TaskRank k i) (TaskRank k' i') =
     (if k \<noteq> k' then kind_code k > kind_code k' else i \<le> i')"

fun less_task_rank :: "task_rank \<Rightarrow> task_rank \<Rightarrow> bool" where
  "less_task_rank (TaskRank k i) (TaskRank k' i') =
     (if k \<noteq> k' then kind_code k > kind_code k' else i < i')"

lemma kind_code_less: "k \<noteq> k' \<Longrightarrow> kind_code k < kind_code k' \<or> kind_code k' < kind_code k"
  by (cases k; cases k') simp_all

instance
proof
  fix x y z :: task_rank
  show "(x < y) = (x \<le> y \<and> \<not> y \<le> x)" by (cases x; cases y) (auto dest: kind_code_less)
  show "x \<le> x" by (cases x) simp
  show "x \<le> y \<Longrightarrow> y \<le> z \<Longrightarrow> x \<le> z" by (cases x; cases y; cases z) (auto split: if_splits)
  show "x \<le> y \<Longrightarrow> y \<le> x \<Longrightarrow> x = y" by (cases x; cases y) (auto split: if_splits)
  show "x \<le> y \<or> y \<le> x" by (cases x; cases y) (auto dest: kind_code_less)
qed

end

definition task_rank :: "task \<Rightarrow> task_rank" where
  "task_rank t = TaskRank (tk_kind t) (op_id (tk_operation t))"

section \<open>Candidates\<close>

type_synonym operation_attempt = "operation_id \<times> attempt_number"

definition new_task :: "task_kind \<Rightarrow> operation \<Rightarrow> operation_state \<Rightarrow> task" where
  "new_task k op o1 = \<lparr>tk_kind = k, tk_operation = op, tk_state = o1, tk_requirements = [], tk_lease = None\<rparr>"

type_synonym operation_index = "(operation_id \<times> operation) list"

definition operation_index :: "plan \<Rightarrow> operation_index" where
  "operation_index p = foldl (\<lambda>m op. map_insert (op_id op) op m) [] (pl_operations p)"

text \<open>\<open>os.Attempt - os.BlockedAttempts < maxAttempts\<close>, on 32-bit numbers.\<close>

definition budget_left :: "attempt_number \<Rightarrow> operation_state \<Rightarrow> bool" where
  "budget_left max_attempts o1 \<longleftrightarrow> os_attempt o1 - os_blocked_attempts o1 < max_attempts"

definition candidate ::
  "attempt_number \<Rightarrow> bool \<Rightarrow> operation_index \<Rightarrow> operation_attempt set \<Rightarrow> operation_attempt set \<Rightarrow> bool
     \<Rightarrow> operation_state \<Rightarrow> task option" where
  "candidate max_attempts reconcile_only operations reconciled deferred cancelled o1 =
     (case map_of operations (os_id o1) of
       None \<Rightarrow> None
     | Some op \<Rightarrow>
         (let key = (os_id o1, os_attempt o1) in
          if os_lease_active o1 then None
          else if os_reconcile_required o1
          then (if key \<in> reconciled then None
                else if key \<in> deferred then None
                else Some (new_task TaskReconcile op o1))
          else if cancelled \<or> reconcile_only then None
          else if os_state o1 = StateBlocked \<and> key \<in> deferred then None
          else if os_state o1 = StateReady \<or> os_state o1 = StateBlocked
                  \<or> (os_state o1 = StateFailed \<and> os_retryable o1 \<and> budget_left max_attempts o1)
          then Some (new_task TaskApply op o1)
          else None))"

definition candidates ::
  "attempt_number \<Rightarrow> bool \<Rightarrow> derived_state \<Rightarrow> operation_index \<Rightarrow> operation_attempt set
     \<Rightarrow> operation_attempt set \<Rightarrow> task list" where
  "candidates max_attempts reconcile_only state operations reconciled deferred =
     sort_key task_rank
       (List.map_filter (candidate max_attempts reconcile_only operations reconciled deferred (ds_cancelled state))
          (ds_operations state))"

section \<open>The passes\<close>

text \<open>A pass appends its entries and reports whether it changed anything, or its first error.\<close>

definition run_pass :: "('s \<Rightarrow> entry \<Rightarrow> 's \<times> event result) \<Rightarrow> 's \<Rightarrow> entry list \<Rightarrow> 's \<times> bool result" where
  "run_pass put s ens = (case append_each put s ens of
     (s', Some err) \<Rightarrow> (s', Inl err) | (s', None) \<Rightarrow> (s', Inr (ens \<noteq> [])))"

definition state_entry :: "run_id \<Rightarrow> operation_state \<Rightarrow> event_type \<Rightarrow> payload \<Rightarrow> entry" where
  "state_entry run o1 t p = \<lparr>en_run_id = run, en_plan_id = [], en_type = t, en_operation_id = os_id o1,
     en_target_id = os_target_id o1, en_payload = p\<rparr>"

definition ready_entries :: "run_id \<Rightarrow> derived_state \<Rightarrow> entry list" where
  "ready_entries run state = map (\<lambda>o1. state_entry run o1 EventOperationReady no_payload)
     (filter (\<lambda>o1. os_state o1 = StateReady \<and> \<not> os_ready_journaled o1) (ds_operations state))"

definition journal_ready_operations ::
  "('s \<Rightarrow> entry \<Rightarrow> 's \<times> event result) \<Rightarrow> run_id \<Rightarrow> derived_state \<Rightarrow> 's \<Rightarrow> 's \<times> bool result" where
  "journal_ready_operations put run state s = run_pass put s (ready_entries run state)"

definition lease_due :: "time \<Rightarrow> operation_state \<Rightarrow> bool" where
  "lease_due now o1 \<longleftrightarrow> os_lease_active o1 \<and> os_lease_expires_at o1 \<noteq> 0 \<and> \<not> now < os_lease_expires_at o1"

definition recorded_lease :: "operation_state \<Rightarrow> lease_state" where
  "recorded_lease o1 = \<lparr>ls_id = os_lease_id o1, ls_owner = os_lease_owner o1, ls_operation_id = os_id o1,
     ls_acquired_at = os_lease_acquired_at o1, ls_expires_at = os_lease_expires_at o1\<rparr>"

definition lease_entry ::
  "run_id \<Rightarrow> operation_id \<Rightarrow> target_id \<Rightarrow> event_type \<Rightarrow> lease_state \<Rightarrow> entry" where
  "lease_entry run i target t l = \<lparr>en_run_id = run, en_plan_id = [], en_type = t, en_operation_id = i,
     en_target_id = target, en_payload = no_payload\<lparr>pay_lease := Some (payload_of l)\<rparr>\<rparr>"

definition expire_entries :: "run_id \<Rightarrow> derived_state \<Rightarrow> time \<Rightarrow> entry list" where
  "expire_entries run state now = map (\<lambda>o1. lease_entry run (os_id o1) (os_target_id o1) EventLeaseExpired (recorded_lease o1))
     (filter (lease_due now) (ds_operations state))"

definition expire_journal_leases ::
  "('s \<Rightarrow> entry \<Rightarrow> 's \<times> event result) \<Rightarrow> run_id \<Rightarrow> derived_state \<Rightarrow> time \<Rightarrow> 's \<Rightarrow> 's \<times> bool result" where
  "expire_journal_leases put run state now s = run_pass put s (expire_entries run state now)"

definition next_lease_expiry :: "derived_state \<Rightarrow> time option" where
  "next_lease_expiry state =
     (let next = foldl (\<lambda>next o1.
         if \<not> os_lease_active o1 \<or> os_lease_expires_at o1 = 0 then next
         else if next = 0 \<or> os_lease_expires_at o1 < next then os_lease_expires_at o1 else next) 0 (ds_operations state)
      in if next = 0 then None else Some next)"

definition interrupted_code :: "operation \<Rightarrow> operation_state \<Rightarrow> string" where
  "interrupted_code op o1 =
     (if os_provider_started o1
      then (if op_side_effecting op then ''INTERRUPTED_BEFORE_DISPATCH'' else ''PROVIDER_INTERRUPTED'')
      else ''INTERRUPTED_BEFORE_PROVIDER'')"

definition recover_entries :: "run_id \<Rightarrow> derived_state \<Rightarrow> operation_index \<Rightarrow> entry list" where
  "recover_entries run state operations = List.map_filter (\<lambda>o1.
     if os_state o1 \<noteq> StateRunning \<or> os_reconcile_required o1 \<or> os_lease_active o1 then None
     else (case map_of operations (os_id o1) of
         None \<Rightarrow> None
       | Some op \<Rightarrow> Some (result_entry run op (os_attempt o1) StateFailed [] [] (interrupted_code op o1) True)))
     (ds_operations state)"

definition recover_undispatched ::
  "('s \<Rightarrow> entry \<Rightarrow> 's \<times> event result) \<Rightarrow> run_id \<Rightarrow> derived_state \<Rightarrow> operation_index \<Rightarrow> 's \<Rightarrow> 's \<times> bool result" where
  "recover_undispatched put run state operations s = run_pass put s (recover_entries run state operations)"

definition state_index :: "derived_state \<Rightarrow> (operation_id \<times> operation_state) list" where
  "state_index state = foldl (\<lambda>m o1. map_insert (os_id o1) o1 m) [] (ds_operations state)"

definition blocks_dependents :: "attempt_number \<Rightarrow> operation_state option \<Rightarrow> bool" where
  "blocks_dependents max_attempts o1 = (case o1 of
     None \<Rightarrow> True
   | Some o1 \<Rightarrow> os_state o1 = StateRejected \<or> os_state o1 = StateCancelled
       \<or> (os_state o1 = StateFailed \<and> (\<not> os_retryable o1 \<or> \<not> budget_left max_attempts o1)))"

definition has_terminal_unpublished_dependency ::
  "attempt_number \<Rightarrow> operation \<Rightarrow> (operation_id \<times> operation_state) list \<Rightarrow> bool" where
  "has_terminal_unpublished_dependency max_attempts op states =
     list_ex (\<lambda>d. blocks_dependents max_attempts (map_of states d)) (op_dependencies op)"

definition cancel_entry ::
  "attempt_number \<Rightarrow> run_id \<Rightarrow> (operation_id \<times> operation_state) list \<Rightarrow> operation_index \<Rightarrow> operation_id \<Rightarrow> entry option" where
  "cancel_entry max_attempts run states operations i = (case map_of states i of
     None \<Rightarrow> None
   | Some o1 \<Rightarrow>
       if os_state o1 \<noteq> StatePlanned \<and> os_state o1 \<noteq> StateReady then None
       else (case map_of operations i of
           None \<Rightarrow> None
         | Some op \<Rightarrow>
             if \<not> has_terminal_unpublished_dependency max_attempts op states then None
             else Some (operation_entry run op EventOperationCancelled
                    (no_payload\<lparr>pay_error_code := ''DEPENDENCY_TERMINAL''\<rparr>))))"

definition cancel_entries :: "attempt_number \<Rightarrow> run_id \<Rightarrow> derived_state \<Rightarrow> operation_index \<Rightarrow> entry list" where
  "cancel_entries max_attempts run state operations =
     List.map_filter (cancel_entry max_attempts run (state_index state) operations) (sort (map fst operations))"

lemma cancel_entry_Some:
  "cancel_entry max_attempts run states operations i = Some en \<longleftrightarrow> (\<exists>o1 op. map_of states i = Some o1
     \<and> map_of operations i = Some op \<and> (os_state o1 = StatePlanned \<or> os_state o1 = StateReady)
     \<and> has_terminal_unpublished_dependency max_attempts op states
     \<and> en = operation_entry run op EventOperationCancelled (no_payload\<lparr>pay_error_code := ''DEPENDENCY_TERMINAL''\<rparr>))"
  by (auto simp: cancel_entry_def split: option.splits)

definition cancel_blocked ::
  "attempt_number \<Rightarrow> ('s \<Rightarrow> entry \<Rightarrow> 's \<times> event result) \<Rightarrow> run_id \<Rightarrow> derived_state \<Rightarrow> operation_index \<Rightarrow> 's
     \<Rightarrow> 's \<times> bool result" where
  "cancel_blocked max_attempts put run state operations s =
     run_pass put s (cancel_entries max_attempts run state operations)"

section \<open>The end of a run\<close>

definition settled_state :: "attempt_number \<Rightarrow> operation_state \<Rightarrow> bool" where
  "settled_state max_attempts o1 \<longleftrightarrow> \<not> os_reconcile_required o1 \<and> \<not> os_lease_active o1
     \<and> (os_state o1 = StatePublished \<or> os_state o1 = StateRejected \<or> os_state o1 = StateCancelled
        \<or> (os_state o1 = StateFailed \<and> \<not> (os_retryable o1 \<and> budget_left max_attempts o1)))"

definition executor_quiescent :: "derived_state \<Rightarrow> attempt_number \<Rightarrow> bool" where
  "executor_quiescent state max_attempts \<longleftrightarrow> list_all (settled_state max_attempts) (ds_operations state)"

definition lease_key :: "plan_id \<Rightarrow> operation_id \<Rightarrow> string" where
  "lease_key plan_id i = plan_id @ CHR 0x00 # i"

end
