(* ===== verification/Executor_Task.thy ===== *)
theory Executor_Task
  imports Executor_Schedule
begin

text \<open>
  One task of a batch, \<open>internal/executor/executor.go\<close>: \<open>prepareTask\<close>, the journal observer a driver
  reports through, \<open>runTask\<close> and the lease calls around it.  A driver is a record of functions from the
  request to what it did: the observer methods it called, in order, and what it returned.  The contexts are
  what their \<open>Err()\<close> returns at the reads the code makes.
\<close>

section \<open>Requests and drivers\<close>

record previous =
  pv_state :: normalized_state
  pv_provider_state :: string
  pv_evidence :: string
  pv_error_code :: string
  pv_ambiguous :: bool

record request =
  rq_plan_id :: plan_id
  rq_run_id :: run_id
  rq_operation :: operation
  rq_attempt :: attempt_number
  rq_previous :: "previous option"
  rq_requirements :: "requirement list"

datatype observer_call = CallStarted | CallDispatched | CallResponded

datatype driver_operation = DriverApply | DriverReconcile

record driver_call =
  dc_calls :: "observer_call list"
  dc_result :: driver_result
  dc_error :: "call_error option"

text \<open>\<open>dv_prepare\<close> is \<open>None\<close> for a driver that is no \<open>Preparer\<close>, \<open>dv_boundaries\<close> for one that is no reporter.\<close>

record driver =
  dv_prepare :: "(request \<Rightarrow> driver_operation \<Rightarrow> call_error + credential_ref list) option"
  dv_boundaries :: "bool option"
  dv_apply :: "request \<Rightarrow> driver_call"
  dv_reconcile :: "request \<Rightarrow> driver_call"

definition reports_execution_boundaries :: "driver \<Rightarrow> bool" where
  "reports_execution_boundaries d \<longleftrightarrow> dv_boundaries d = Some True"

record contexts =
  cx_parent :: "error option"
  cx_call :: "error option"
  cx_parent_again :: "error option"
  cx_call_again :: "error option"

record outcome =
  oc_operation_id :: operation_id
  oc_attempt :: attempt_number
  oc_defer_reconcile :: bool
  oc_defer_blocked :: bool
  oc_reconciled :: bool
  oc_error :: "error option"

section \<open>The observer\<close>

record observer =
  ob_run_id :: run_id
  ob_operation :: operation
  ob_attempt :: attempt_number
  ob_started :: bool
  ob_dispatched :: bool
  ob_responded :: bool

definition observer_entry :: "observer \<Rightarrow> event_type \<Rightarrow> entry" where
  "observer_entry ob t = operation_entry (ob_run_id ob) (ob_operation ob) t (no_payload\<lparr>pay_attempt := ob_attempt ob\<rparr>)"

definition provider_process_started ::
  "('s \<Rightarrow> entry \<Rightarrow> 's \<times> event result) \<Rightarrow> 's \<Rightarrow> observer \<Rightarrow> 's \<times> observer \<times> error option" where
  "provider_process_started put s ob =
     (if ob_started ob then (s, ob, Some (Errorf ''provider process start already recorded'' []))
      else (case put_entry put s (observer_entry ob EventProviderProcessStarted) of
          (s', Some err) \<Rightarrow> (s', ob, Some err)
        | (s', None) \<Rightarrow> (s', ob\<lparr>ob_started := True\<rparr>, None)))"

definition side_effect_dispatched ::
  "('s \<Rightarrow> entry \<Rightarrow> 's \<times> event result) \<Rightarrow> 's \<Rightarrow> observer \<Rightarrow> 's \<times> observer \<times> error option" where
  "side_effect_dispatched put s ob =
     (if \<not> ob_started ob then (s, ob, Some (Errorf ''provider process start must be recorded before dispatch'' []))
      else if ob_dispatched ob then (s, ob, Some (Errorf ''side-effect dispatch already recorded'' []))
      else (case put_entry put s (observer_entry ob EventSideEffectDispatched) of
          (s', Some err) \<Rightarrow> (s', ob, Some err)
        | (s', None) \<Rightarrow> (s', ob\<lparr>ob_dispatched := True\<rparr>, None)))"

definition provider_response_recorded ::
  "('s \<Rightarrow> entry \<Rightarrow> 's \<times> event result) \<Rightarrow> 's \<Rightarrow> observer \<Rightarrow> 's \<times> observer \<times> error option" where
  "provider_response_recorded put s ob =
     (if \<not> ob_started ob then (s, ob, Some (Errorf ''provider process start must be recorded before response'' []))
      else if ob_responded ob then (s, ob, Some (Errorf ''provider response already recorded'' []))
      else (case put_entry put s (observer_entry ob EventProviderResponseReceived) of
          (s', Some err) \<Rightarrow> (s', ob, Some err)
        | (s', None) \<Rightarrow> (s', ob\<lparr>ob_responded := True\<rparr>, None)))"

fun observe ::
  "('s \<Rightarrow> entry \<Rightarrow> 's \<times> event result) \<Rightarrow> 's \<Rightarrow> observer \<Rightarrow> observer_call \<Rightarrow> 's \<times> observer \<times> error option" where
  "observe put s ob CallStarted = provider_process_started put s ob"
| "observe put s ob CallDispatched = side_effect_dispatched put s ob"
| "observe put s ob CallResponded = provider_response_recorded put s ob"

text \<open>The calls a driver makes; it may go on after an error.\<close>

fun observe_all ::
  "('s \<Rightarrow> entry \<Rightarrow> 's \<times> event result) \<Rightarrow> 's \<Rightarrow> observer \<Rightarrow> observer_call list \<Rightarrow> 's \<times> observer" where
  "observe_all put s ob [] = (s, ob)"
| "observe_all put s ob (c # cs) = (case observe put s ob c of (s', ob', _) \<Rightarrow> observe_all put s' ob' cs)"

section \<open>Preparing and running a task\<close>

definition prepare_entry :: "run_id \<Rightarrow> task \<Rightarrow> entry" where
  "prepare_entry run t =
     (let attempt = os_attempt (tk_state t) in
      if tk_kind t = TaskApply
      then operation_entry run (tk_operation t) EventAttemptStarted
        (no_payload\<lparr>pay_attempt := attempt + 1,
           pay_attempt_reason := (if attempt \<noteq> 0 then ''RETRY'' else ''INITIAL'')\<rparr>)
      else operation_entry run (tk_operation t) EventReconcileStarted
        (no_payload\<lparr>pay_attempt := attempt, pay_attempt_reason := ''RECONCILE''\<rparr>))"

definition prepare_task ::
  "('s \<Rightarrow> entry \<Rightarrow> 's \<times> event result) \<Rightarrow> 's \<Rightarrow> run_id \<Rightarrow> task \<Rightarrow> 's \<times> error option" where
  "prepare_task put s run t = put_entry put s (prepare_entry run t)"

definition task_attempt :: "task \<Rightarrow> attempt_number" where
  "task_attempt t = (if tk_kind t = TaskApply then os_attempt (tk_state t) + 1 else os_attempt (tk_state t))"

definition credential_entries :: "run_id \<Rightarrow> operation \<Rightarrow> attempt_number \<Rightarrow> credential_ref list \<Rightarrow> entry list" where
  "credential_entries run op attempt refs = map (\<lambda>ref. operation_entry run op EventCredentialResolved
     (no_payload\<lparr>pay_attempt := attempt, pay_credential_ref := ref\<rparr>)) refs"

definition record_credential_resolution ::
  "('s \<Rightarrow> entry \<Rightarrow> 's \<times> event result) \<Rightarrow> 's \<Rightarrow> run_id \<Rightarrow> operation \<Rightarrow> attempt_number \<Rightarrow> credential_ref list
     \<Rightarrow> 's \<times> error option" where
  "record_credential_resolution put s run op attempt refs = append_each put s (credential_entries run op attempt refs)"

definition new_outcome :: "task \<Rightarrow> outcome" where
  "new_outcome t = \<lparr>oc_operation_id = op_id (tk_operation t), oc_attempt = task_attempt t,
     oc_defer_reconcile = False, oc_defer_blocked = False, oc_reconciled = (tk_kind t = TaskReconcile), oc_error = None\<rparr>"

definition new_observer :: "run_id \<Rightarrow> task \<Rightarrow> observer" where
  "new_observer run t = \<lparr>ob_run_id = run, ob_operation = tk_operation t, ob_attempt = task_attempt t,
     ob_started = False, ob_dispatched = False, ob_responded = False\<rparr>"

definition task_request :: "plan_id \<Rightarrow> run_id \<Rightarrow> task \<Rightarrow> request" where
  "task_request plan_id run t = \<lparr>rq_plan_id = plan_id, rq_run_id = run, rq_operation = tk_operation t,
     rq_attempt = task_attempt t, rq_previous = None, rq_requirements = tk_requirements t\<rparr>"

definition previous_of :: "operation_state \<Rightarrow> previous" where
  "previous_of o1 = \<lparr>pv_state = os_state o1, pv_provider_state = os_provider_state o1, pv_evidence = os_evidence o1,
     pv_error_code = os_error_code o1, pv_ambiguous = os_ambiguous o1\<rparr>"

text \<open>For a driver that does not report the boundaries itself the executor records them around the call.\<close>

definition begin_call ::
  "('s \<Rightarrow> entry \<Rightarrow> 's \<times> event result) \<Rightarrow> driver \<Rightarrow> task \<Rightarrow> 's \<Rightarrow> observer \<Rightarrow> 's \<times> observer \<times> error option" where
  "begin_call put d t s ob =
     (if reports_execution_boundaries d then (s, ob, None)
      else (case provider_process_started put s ob of
          (s', ob', Some err) \<Rightarrow> (s', ob', Some err)
        | (s', ob', None) \<Rightarrow>
            if tk_kind t = TaskApply \<and> op_side_effecting (tk_operation t)
            then side_effect_dispatched put s' ob' else (s', ob', None)))"

definition end_call ::
  "('s \<Rightarrow> entry \<Rightarrow> 's \<times> event result) \<Rightarrow> driver \<Rightarrow> call_error option \<Rightarrow> 's \<Rightarrow> observer
     \<Rightarrow> 's \<times> observer \<times> error option" where
  "end_call put d err s ob =
     (if \<not> reports_execution_boundaries d \<and> provider_response_received err
      then provider_response_recorded put s ob else (s, ob, None))"

definition call_driver ::
  "('s \<Rightarrow> entry \<Rightarrow> 's \<times> event result) \<Rightarrow> driver \<Rightarrow> task \<Rightarrow> driver_call \<Rightarrow> 's \<Rightarrow> observer
     \<Rightarrow> 's \<times> observer \<times> error option" where
  "call_driver put d t call s ob = (case begin_call put d t s ob of
     (s1, ob1, Some err) \<Rightarrow> (s1, ob1, Some err)
   | (s1, ob1, None) \<Rightarrow> (case observe_all put s1 ob1 (dc_calls call) of
       (s2, ob2) \<Rightarrow> end_call put d (dc_error call) s2 ob2))"

definition run_reconcile ::
  "('s \<Rightarrow> entry \<Rightarrow> 's \<times> event result) \<Rightarrow> contexts \<Rightarrow> plan_id \<Rightarrow> run_id \<Rightarrow> driver \<Rightarrow> task \<Rightarrow> 's \<Rightarrow> 's \<times> outcome" where
  "run_reconcile put cx plan_id run d t s =
     (let call = dv_reconcile d ((task_request plan_id run t)\<lparr>rq_previous := Some (previous_of (tk_state t))\<rparr>) in
      case call_driver put d t call s (new_observer run t) of
        (s1, _, Some err) \<Rightarrow> (s1, (new_outcome t)\<lparr>oc_error := Some err\<rparr>)
      | (s1, ob1, None) \<Rightarrow>
          (case persist_reconcile_outcome put s1 (cx_parent cx) (cx_call cx) run (tk_operation t) (task_attempt t)
              (os_ambiguous (tk_state t)) (dc_result call) (dc_error call) of
            (s2, err) \<Rightarrow> (s2, (new_outcome t)\<lparr>oc_error := err\<rparr>)))"

definition run_apply ::
  "('s \<Rightarrow> entry \<Rightarrow> 's \<times> event result) \<Rightarrow> contexts \<Rightarrow> plan_id \<Rightarrow> run_id \<Rightarrow> driver \<Rightarrow> task \<Rightarrow> 's \<Rightarrow> 's \<times> outcome" where
  "run_apply put cx plan_id run d t s =
     (let call = dv_apply d (task_request plan_id run t) in
      case call_driver put d t call s (new_observer run t) of
        (s1, _, Some err) \<Rightarrow> (s1, (new_outcome t)\<lparr>oc_error := Some err\<rparr>)
      | (s1, ob1, None) \<Rightarrow>
          (case persist_apply_outcome put s1 (cx_parent cx) (cx_call cx) run (tk_operation t) (task_attempt t)
              (ob_started ob1) (ob_dispatched ob1) (dc_result call) (dc_error call) of
            (s2, deferred, err) \<Rightarrow> (s2, (new_outcome t)\<lparr>oc_defer_reconcile := deferred, oc_error := err\<rparr>)))"

definition run_call ::
  "('s \<Rightarrow> entry \<Rightarrow> 's \<times> event result) \<Rightarrow> contexts \<Rightarrow> plan_id \<Rightarrow> run_id \<Rightarrow> driver \<Rightarrow> task \<Rightarrow> 's \<Rightarrow> 's \<times> outcome" where
  "run_call put cx plan_id run d t s =
     (if tk_kind t = TaskReconcile then run_reconcile put cx plan_id run d t s else run_apply put cx plan_id run d t s)"

definition no_result :: driver_result where
  "no_result = \<lparr>res_state = state_unset, res_provider_state = [], res_evidence = []\<rparr>"

definition preparation_failed ::
  "('s \<Rightarrow> entry \<Rightarrow> 's \<times> event result) \<Rightarrow> contexts \<Rightarrow> run_id \<Rightarrow> task \<Rightarrow> call_error \<Rightarrow> 's \<Rightarrow> 's \<times> outcome" where
  "preparation_failed put cx run t ce s =
     (if tk_kind t = TaskReconcile
      then (case persist_reconcile_outcome put s (cx_parent cx) (cx_call cx) run (tk_operation t) (task_attempt t)
              (os_ambiguous (tk_state t)) no_result (Some ce) of
            (s', err) \<Rightarrow> (s', (new_outcome t)\<lparr>oc_error := err\<rparr>))
      else (case persist_preparation_failure put s (cx_parent cx) (cx_call cx) (cx_parent_again cx) (cx_call_again cx)
              run (tk_operation t) (task_attempt t) ce of
            (s', blocked, err) \<Rightarrow> (s', (new_outcome t)\<lparr>oc_defer_blocked := blocked, oc_error := err\<rparr>)))"

definition driver_operation_of :: "task \<Rightarrow> driver_operation" where
  "driver_operation_of t = (if tk_kind t = TaskReconcile then DriverReconcile else DriverApply)"

definition run_task ::
  "('s \<Rightarrow> entry \<Rightarrow> 's \<times> event result) \<Rightarrow> contexts \<Rightarrow> plan_id \<Rightarrow> run_id \<Rightarrow> driver \<Rightarrow> task \<Rightarrow> 's \<Rightarrow> 's \<times> outcome" where
  "run_task put cx plan_id run d t s = (case dv_prepare d of
     None \<Rightarrow> run_call put cx plan_id run d t s
   | Some prepare \<Rightarrow> (case prepare (task_request plan_id run t) (driver_operation_of t) of
       Inl ce \<Rightarrow> preparation_failed put cx run t ce s
     | Inr refs \<Rightarrow> (case record_credential_resolution put s run (tk_operation t) (task_attempt t) refs of
           (s', Some err) \<Rightarrow> (s', (new_outcome t)\<lparr>oc_error := Some err\<rparr>)
         | (s', None) \<Rightarrow> run_call put cx plan_id run d t s')))"

section \<open>Leases around a task\<close>

definition err_lease_mismatch :: "lease_state \<Rightarrow> operation \<Rightarrow> error" where
  "err_lease_mismatch l op = Errorf ''lease operation %q does not match operation %q'' [ls_operation_id l, op_id op]"

definition append_lease_event ::
  "('s \<Rightarrow> entry \<Rightarrow> 's \<times> event result) \<Rightarrow> 's \<Rightarrow> run_id \<Rightarrow> operation \<Rightarrow> event_type \<Rightarrow> lease_state \<Rightarrow> 's \<times> error option" where
  "append_lease_event put s run op t l =
     (if ls_operation_id l \<noteq> op_id op then (s, Some (err_lease_mismatch l op))
      else put_entry put s (lease_entry run (op_id op) (op_target_id op) t l))"

definition release_lease ::
  "('s \<Rightarrow> entry \<Rightarrow> 's \<times> event result) \<Rightarrow> 's \<Rightarrow> memory_leases option \<Rightarrow> run_id \<Rightarrow> operation \<Rightarrow> memory_lease option
     \<Rightarrow> 's \<times> memory_leases option \<times> memory_lease option \<times> error option" where
  "release_lease put s m run op l =
     (let state = lease_view l in
      case lease_release m l of
        (m', l', Some err) \<Rightarrow>
          (if errors_is err ErrLeaseExpired
           then (case append_lease_event put s run op EventLeaseExpired state of
               (s', Some e) \<Rightarrow> (s', m', l', Some e) | (s', None) \<Rightarrow> (s', m', l', Some err))
           else (s, m', l', Some err))
      | (m', l', None) \<Rightarrow>
          (case append_lease_event put s run op EventLeaseReleased state of (s', e) \<Rightarrow> (s', m', l', e)))"

text \<open>One turn of \<open>renewLease\<close> after its timer fired; the boolean tells whether the loop goes on.\<close>

definition renew_turn ::
  "('s \<Rightarrow> entry \<Rightarrow> 's \<times> event result) \<Rightarrow> 's \<Rightarrow> go_context \<Rightarrow> error option \<Rightarrow> memory_leases option \<Rightarrow> run_id \<Rightarrow> operation
     \<Rightarrow> memory_lease option \<Rightarrow> 's \<times> memory_leases option \<times> memory_lease option \<times> bool \<times> error option" where
  "renew_turn put s ctx ctx_after m run op l = (case renew ctx m l of
     (m', l', Inl err) \<Rightarrow> (if ctx_after \<noteq> None then (s, m', l', False, None) else (s, m', l', False, Some err))
   | (m', l', Inr renewed) \<Rightarrow>
       (case append_lease_event put s run op EventLeaseRenewed renewed of
         (s', Some e) \<Rightarrow> (s', m', l', False, Some e) | (s', None) \<Rightarrow> (s', m', l', True, None)))"

text \<open>How long \<open>renewLease\<close> waits, \<open>None\<close> when the lease has run out: half of what remains.\<close>

definition renew_delay :: "time \<Rightarrow> lease_state \<Rightarrow> int option" where
  "renew_delay now l =
     (let remaining = ls_expires_at l - now in
      if remaining \<le> 0 then None
      else (let delay = remaining div 2 in Some (if delay \<le> 0 then remaining else delay)))"

end
