(* ===== verification/Executor_Passes.thy ===== *)
theory Executor_Passes
  imports Executor_Schedule
begin

text \<open>
  The passes against the reducer: every entry of a pass is enabled in the state the pass was computed from,
  so the journal stays accepted wherever the pass stops.
\<close>

section \<open>The derived state as maps\<close>

lemma foldl_map_insert_fresh:
  "distinct (map f xs @ map fst m) \<Longrightarrow> foldl (\<lambda>m x. map_insert (f x) (g x) m) m xs = m @ map (\<lambda>x. (f x, g x)) xs"
proof (induction xs arbitrary: m)
  case (Cons x xs)
  then have "f x \<notin> fst ` set m" by auto
  with Cons show ?case by (auto simp: map_insert_fresh)
qed simp

lemma truncate_all [simp]:
  "os_ready_journaled (operation_state.truncate m) = os_ready_journaled m"
  "os_lease_id (operation_state.truncate m) = os_lease_id m"
  "os_lease_owner (operation_state.truncate m) = os_lease_owner m"
  "os_lease_acquired_at (operation_state.truncate m) = os_lease_acquired_at m"
  "os_lease_expires_at (operation_state.truncate m) = os_lease_expires_at m"
  "os_blocked_attempts (operation_state.truncate m) = os_blocked_attempts m"
  "os_provider_started (operation_state.truncate m) = os_provider_started m"
  "os_target_id (operation_state.truncate m) = os_target_id m"
  "os_lease_active (operation_state.truncate m) = os_lease_active m"
  by (simp_all add: operation_state.truncate_def)

lemma ds_operations_derived:
  "set (ds_operations (derived_of p rd)) = (\<lambda>(_, m). operation_state.truncate m) ` set (rd_operations rd)"
  by (force simp: derived_of_def)

lemma reduces_ids_map: "reduces p evs rd \<Longrightarrow> map os_id (map (operation_state.truncate \<circ> snd) (rd_operations rd)) = map fst (rd_operations rd)"
  using reduces_ids by (auto intro!: map_cong)

lemma ds_operations_distinct: "reduces p evs rd \<Longrightarrow> distinct (map os_id (ds_operations (derived_of p rd)))"
proof -
  assume r: "reduces p evs rd"
  let ?xs = "map (operation_state.truncate \<circ> snd) (rd_operations rd) :: operation_state list"
  have "distinct (map os_id ?xs)" using reduces_ids_map [OF r] reduces_distinct [OF r] by (simp only:)
  then have "distinct ?xs" "inj_on os_id (set ?xs)" by (simp_all only: distinct_map)
  then have "distinct (map os_id (sort_key os_id ?xs))" by (simp only: distinct_map distinct_sort set_sort simp_thms)
  then show ?thesis by (simp add: derived_of_def)
qed

lemma ds_operationsE:
  assumes "reduces p evs rd" and "o1 \<in> set (ds_operations (derived_of p rd))"
  obtains m where "map_of (rd_operations rd) (os_id o1) = Some m" "o1 = operation_state.truncate m" "os_id m = os_id o1"
proof -
  from assms(2) obtain k m where m: "(k, m) \<in> set (rd_operations rd)" "o1 = operation_state.truncate m"
    by (auto simp: ds_operations_derived)
  with reduces_ids [OF assms(1) m(1)] map_of_is_SomeI [OF reduces_distinct [OF assms(1)] m(1)] that show thesis by simp
qed

lemma state_index_at:
  assumes "reduces p evs rd"
  shows "map_of (state_index (derived_of p rd)) i = map_option operation_state.truncate (map_of (rd_operations rd) i)"
proof -
  let ?os = "ds_operations (derived_of p rd)"
  have idx: "state_index (derived_of p rd) = map (\<lambda>x. (os_id x, x)) ?os"
    using foldl_map_insert_fresh [of os_id ?os "[]" "\<lambda>x. x"] ds_operations_distinct [OF assms]
    by (simp add: state_index_def)
  have dist: "distinct (map fst (map (\<lambda>x. (os_id x, x)) ?os))"
    using ds_operations_distinct [OF assms] by (simp add: comp_def)
  show ?thesis
  proof (cases "map_of (rd_operations rd) i")
    case None
    have "i \<notin> os_id ` set ?os"
    proof
      assume "i \<in> os_id ` set ?os"
      then obtain o1 where "o1 \<in> set ?os" "os_id o1 = i" by auto
      then show False using ds_operationsE [OF assms, of o1] None by (metis option.distinct(1))
    qed
    then have "map_of (map (\<lambda>x. (os_id x, x)) ?os) i = None" by (simp only: map_of_eq_None_iff) auto
    with None show ?thesis by (simp only: idx option.map)
  next
    case (Some m)
    have "(i, m) \<in> set (rd_operations rd)" using Some by (rule map_of_SomeD)
    then have "operation_state.truncate m \<in> set ?os" "os_id m = i"
      using reduces_ids [OF assms] by (force simp: ds_operations_derived)+
    then have "(i, operation_state.truncate m) \<in> set (map (\<lambda>x. (os_id x, x)) ?os)" by force
    with Some show ?thesis using map_of_is_SomeI [OF dist] by (simp add: idx)
  qed
qed

text \<open>The executor's map of operations, for a plan with distinct operations.\<close>

lemma operation_index_eq:
  "distinct (map op_id (pl_operations p)) \<Longrightarrow> operation_index p = map (\<lambda>op. (op_id op, op)) (pl_operations p)"
  using foldl_map_insert_fresh [of op_id "pl_operations p" "[]" "\<lambda>op. op"] by (simp add: operation_index_def)

lemma operation_index_at:
  assumes "distinct (map op_id (pl_operations p))" and "map_of (operation_index p) i = Some op"
  shows "op \<in> set (pl_operations p)" and "op_id op = i"
  using map_of_SomeD [OF assms(2)] by (auto simp: operation_index_eq [OF assms(1)])

lemma operation_index_static:
  assumes "plan_wf p" and "reduces p evs rd" and "map_of (rd_operations rd) i = Some m"
    and "map_of (operation_index p) i = Some op"
  shows "os_target_id m = op_target_id op" and "mo_side_effecting m = op_side_effecting op"
    and "mo_dependencies m = op_dependencies op" and "os_id m = op_id op"
proof -
  have dist: "distinct (map op_id (pl_operations p))" using assms(1) by (simp add: plan_wf_def)
  obtain op' where op': "op' \<in> set (pl_operations p)" "op_id op' = i" "same_static (initial_operation op') m"
    using reduces_op_static [OF assms(2,3)] by blast
  note op = operation_index_at [OF dist assms(4)]
  have "op' = op" using dist op op'(1,2) by (metis distinct_map inj_onD)
  with op'(3) show "os_target_id m = op_target_id op" "mo_side_effecting m = op_side_effecting op"
    "mo_dependencies m = op_dependencies op" "os_id m = op_id op"
    by (simp_all add: same_static_def initial_operation_def)
qed

section \<open>The entries of a pass are enabled\<close>

lemma enabledI:
  assumes "os_state m \<noteq> StatePlanned" and "en_target_id en = os_target_id m"
    and "\<And>ops e. event_entry e = en \<Longrightarrow> Q e \<Longrightarrow> \<exists>n. operation_step ops e m = Inr n \<and> operation_rank n < operation_rank m"
  shows "enabled Q en m"
  using assms by (auto simp: enabled_def bystander_def)

lemma distinct_map_filter_ids:
  assumes "distinct (map f xs)" and "\<And>x y. g x = Some y \<Longrightarrow> h y = f x"
  shows "distinct (map h (List.map_filter g xs))"
proof -
  have "map h (List.map_filter g xs) = map f (filter (\<lambda>x. g x \<noteq> None) xs)"
    using assms(2) by (induction xs) (auto simp: map_filter_simps split: option.splits)
  with assms(1) show ?thesis by (simp add: distinct_map_filter)
qed

lemma set_map_filter: "y \<in> set (List.map_filter g xs) \<longleftrightarrow> (\<exists>x \<in> set xs. g x = Some y)"
  by (induction xs) (auto simp: map_filter_simps split: option.splits)

lemma ready_batch:
  assumes "live_run p run evs rd" and "\<not> rd_cancelled rd"
  shows "batch_ok Q run rd (ready_entries run (derived_of p rd))"
proof -
  have r: "reduces p evs rd" using assms(1) by (simp add: live_run_def)
  have "\<exists>m. map_of (rd_operations rd) (os_id o1) = Some m \<and> enabled Q (state_entry run o1 EventOperationReady no_payload) m"
    if o1: "o1 \<in> set (ds_operations (derived_of p rd))" and ready: "os_state o1 = StateReady" "\<not> os_ready_journaled o1" for o1
  proof -
    obtain m where m: "map_of (rd_operations rd) (os_id o1) = Some m" "o1 = operation_state.truncate m"
      by (rule ds_operationsE [OF r o1])
    have "enabled Q (state_entry run o1 EventOperationReady no_payload) m"
    proof (rule enabledI)
      show "\<exists>n. operation_step ops e m = Inr n \<and> operation_rank n < operation_rank m"
        if "event_entry e = state_entry run o1 EventOperationReady no_payload" for ops e
        using event_entry_fields [OF that] m(2) ready
        by (simp add: operation_step_def state_entry_def step_ready_def operation_rank_def)
    qed (use m ready in \<open>simp_all add: state_entry_def\<close>)
    with m(1) show ?thesis by blast
  qed
  moreover have "distinct (map en_operation_id (ready_entries run (derived_of p rd)))"
    using ds_operations_distinct [OF r] by (simp add: ready_entries_def state_entry_def comp_def distinct_map_filter)
  ultimately show ?thesis
    using assms(2) by (auto simp: batch_ok_def ready_entries_def state_entry_def is_run_event_def)
qed

lemma result_entry_fields [simp]:
  "en_operation_id (result_entry run op a st ps ev code ret) = op_id op"
  "en_target_id (result_entry run op a st ps ev code ret) = op_target_id op"
  "en_run_id (result_entry run op a st ps ev code ret) = run"
  "en_type (result_entry run op a st ps ev code ret) = fst (explicit_event st)"
  "pay_attempt (en_payload (result_entry run op a st ps ev code ret)) = a"
  "pay_state (en_payload (result_entry run op a st ps ev code ret)) = snd (explicit_event st)"
  by (simp_all add: result_entry_def operation_entry_def split: prod.splits)

lemma running_result_step:
  assumes "event_entry e = result_entry run op (os_attempt m) StateFailed [] [] code ret"
    and "os_state m = StateRunning" and "\<not> mo_reconciling m"
  shows "\<exists>n. operation_step ops e m = Inr n \<and> operation_rank n < operation_rank m"
  using event_entry_fields [OF assms(1)] assms(2,3)
  by (simp add: explicit_event_def operation_step_def step_explicit_result_def Let_def apply_result_def operation_rank_def)

lemma recover_batch:
  assumes "plan_wf p" and live: "live_run p run evs rd" and "\<not> rd_cancelled rd"
  shows "batch_ok Q run rd (recover_entries run (derived_of p rd) (operation_index p))"
proof -
  have r: "reduces p evs rd" using live by (simp add: live_run_def)
  have dist: "distinct (map op_id (pl_operations p))" using assms(1) by (simp add: plan_wf_def)
  have entry: "en_run_id en = run \<and> en_type en = EventOperationFailed
      \<and> (\<exists>m. map_of (rd_operations rd) (en_operation_id en) = Some m \<and> enabled Q en m)"
    if en: "en \<in> set (recover_entries run (derived_of p rd) (operation_index p))" for en
  proof -
    obtain o1 op where o1: "o1 \<in> set (ds_operations (derived_of p rd))" and op: "map_of (operation_index p) (os_id o1) = Some op"
      and state: "os_state o1 = StateRunning" "\<not> os_reconcile_required o1"
      and def: "en = result_entry run op (os_attempt o1) StateFailed [] [] (interrupted_code op o1) True"
      using en by (auto simp: recover_entries_def set_map_filter split: if_splits option.splits)
    obtain m where m: "map_of (rd_operations rd) (os_id o1) = Some m" "o1 = operation_state.truncate m"
      by (rule ds_operationsE [OF r o1])
    have "\<not> mo_reconciling m" using live_run_inv [OF live m(1)] state m(2) by (auto simp: op_inv_def)
    then have "enabled Q en m"
      using running_result_step [of _ run op m] state operation_index_static [OF assms(1) r m(1) op] m(2)
      by (intro enabledI) (auto simp: def)
    moreover have "en_operation_id en = os_id o1" using operation_index_at [OF dist op] by (simp add: def)
    ultimately show ?thesis using m(1) by (auto simp: def explicit_event_def)
  qed
  have "distinct (map en_operation_id (recover_entries run (derived_of p rd) (operation_index p)))"
    unfolding recover_entries_def
    by (rule distinct_map_filter_ids [OF ds_operations_distinct [OF r]])
      (auto split: if_splits option.splits dest: operation_index_at(2) [OF dist])
  with entry assms(3) show ?thesis by (auto simp: batch_ok_def is_run_event_def)
qed

lemma cancel_batch:
  assumes "plan_wf p" and live: "live_run p run evs rd" and "\<not> rd_cancelled rd"
  shows "batch_ok Q run rd (cancel_entries max_attempts run (derived_of p rd) (operation_index p))"
proof -
  have r: "reduces p evs rd" using live by (simp add: live_run_def)
  have dist: "distinct (map op_id (pl_operations p))" using assms(1) by (simp add: plan_wf_def)
  let ?ens = "cancel_entries max_attempts run (derived_of p rd) (operation_index p)"
  have entry: "en_run_id en = run \<and> en_type en = EventOperationCancelled
      \<and> (\<exists>m. map_of (rd_operations rd) (en_operation_id en) = Some m \<and> enabled Q en m)" if en: "en \<in> set ?ens" for en
  proof -
    obtain i o1 op where st: "map_of (state_index (derived_of p rd)) i = Some o1" and op: "map_of (operation_index p) i = Some op"
      and state: "os_state o1 = StatePlanned \<or> os_state o1 = StateReady"
      and def: "en = operation_entry run op EventOperationCancelled (no_payload\<lparr>pay_error_code := ''DEPENDENCY_TERMINAL''\<rparr>)"
      using en by (auto simp: cancel_entries_def set_map_filter cancel_entry_Some simp del: map_of_eq_Some_iff)
    obtain m where m: "map_of (rd_operations rd) i = Some m" "o1 = operation_state.truncate m"
      using st by (auto simp: state_index_at [OF r])
    have "\<exists>n'. operation_step ops e n = Inr n' \<and> operation_rank n' < operation_rank n"
      if "bystander m n" "event_entry e = en" for n ops e
      using that(1) event_entry_fields [OF that(2)] state m(2)
      by (auto simp: bystander_def operation_step_def step_operation_cancelled_def def operation_entry_def operation_rank_def)
    moreover have "en_target_id en = os_target_id n" if "bystander m n" for n
      using that operation_index_static(1) [OF assms(1) r m(1) op] by (auto simp: bystander_def def operation_entry_def)
    ultimately have "enabled Q en m" by (simp add: enabled_def)
    with m(1) operation_index_at(2) [OF dist op] show ?thesis by (auto simp: def operation_entry_def)
  qed
  have "distinct (map en_operation_id ?ens)"
    unfolding cancel_entries_def
  proof (rule distinct_map_filter_ids)
    show "distinct (map (\<lambda>x. x) (sort (map fst (operation_index p))))"
      using dist by (simp add: operation_index_eq [OF dist] comp_def)
  qed (auto simp: cancel_entry_Some operation_entry_def dest: operation_index_at(2) [OF dist])
  with entry assms(3) show ?thesis by (auto simp: batch_ok_def is_run_event_def)
qed

lemma expire_batch:
  assumes live: "live_run p run evs rd"
    and time: "\<And>o1 e. lease_due now o1 \<Longrightarrow> event_entry e = lease_entry run (os_id o1) (os_target_id o1) EventLeaseExpired (recorded_lease o1)
      \<Longrightarrow> Q e \<Longrightarrow> os_lease_expires_at o1 \<le> e_observed_at e"
  shows "batch_ok Q run rd (expire_entries run (derived_of p rd) now)"
proof -
  have r: "reduces p evs rd" using live by (simp add: live_run_def)
  let ?entry = "\<lambda>o1. lease_entry run (os_id o1) (os_target_id o1) EventLeaseExpired (recorded_lease o1)"
  have "\<exists>m. map_of (rd_operations rd) (os_id o1) = Some m \<and> enabled Q (?entry o1) m"
    if o1: "o1 \<in> set (ds_operations (derived_of p rd))" and due: "lease_due now o1" for o1
  proof -
    obtain m where m: "map_of (rd_operations rd) (os_id o1) = Some m" "o1 = operation_state.truncate m"
      by (rule ds_operationsE [OF r o1])
    have "\<exists>n'. operation_step ops e n = Inr n' \<and> operation_rank n' < operation_rank n"
      if "bystander m n" "event_entry e = ?entry o1" "Q e" for n ops e
    proof -
      have "os_lease_active n \<and> os_lease_id n = os_lease_id m \<and> os_lease_owner n = os_lease_owner m
          \<and> os_lease_acquired_at n = os_lease_acquired_at m \<and> os_lease_expires_at n = os_lease_expires_at m"
        using that(1) due m(2) by (auto simp: bystander_def lease_due_def)
      with event_entry_fields [OF that(2)] time [OF due that(2,3)] m(2) show ?thesis
        by (auto simp: operation_step_def step_lease_expired_def with_lease_def lease_entry_def payload_of_def
            recorded_lease_def lease_matches_def operation_rank_def)
    qed
    moreover have "en_target_id (?entry o1) = os_target_id n" if "bystander m n" for n
      using that m(2) by (auto simp: bystander_def lease_entry_def)
    ultimately have "enabled Q (?entry o1) m" by (simp add: enabled_def)
    with m(1) show ?thesis by blast
  qed
  moreover have "distinct (map en_operation_id (expire_entries run (derived_of p rd) now))"
    using ds_operations_distinct [OF r] by (simp add: expire_entries_def lease_entry_def comp_def distinct_map_filter)
  ultimately show ?thesis
    by (auto simp: batch_ok_def expire_entries_def lease_entry_def is_run_event_def)
qed

end
