(* ===== verification/Executor_Logic.thy ===== *)
theory Executor_Logic
  imports Executor_Task Executor_Passes
begin

text \<open>
  Rules for code that appends to the journal of a live run.  An assertion gives a property per operation;
  an accepted event of operation \<open>i\<close> changes the property of \<open>i\<close> only, because the other operations at most
  become ready.  So tasks of different operations can be reasoned about one at a time.
\<close>

type_synonym assertion = "operation_id \<Rightarrow> mutable_operation \<Rightarrow> bool"

text \<open>
  An expiry is observed no earlier than the deadline it records; a wall clock that is set back between the
  decision and the append breaks this.
\<close>

definition timely :: "event \<Rightarrow> bool" where
  "timely e \<longleftrightarrow> e_type e = EventLeaseExpired \<longrightarrow>
     (\<forall>l. pay_lease (e_payload e) = Some l \<longrightarrow> lp_expires_at l \<le> e_observed_at e)"

text \<open>\<open>may\<close> tells whether the run may be cancelled.\<close>

definition holds :: "plan \<Rightarrow> run_id \<Rightarrow> bool \<Rightarrow> assertion \<Rightarrow> event list \<Rightarrow> bool" where
  "holds p run may A evs \<longleftrightarrow> (\<forall>e \<in> set evs. timely e) \<longrightarrow> (\<exists>rd. live_run p run evs rd \<and> (rd_cancelled rd \<longrightarrow> may)
     \<and> (\<forall>i m. map_of (rd_operations rd) i = Some m \<longrightarrow> A i m))"

definition stable :: "assertion \<Rightarrow> bool" where
  "stable A \<longleftrightarrow> (\<forall>j m n. A j m \<longrightarrow> bystander m n \<longrightarrow> A j n)"

definition known :: "plan \<Rightarrow> operation_id \<Rightarrow> bool" where
  "known p i \<longleftrightarrow> i \<in> fst ` set (initial_operations p)"

text \<open>What accepting the entry does to an operation in state \<open>m\<close>.\<close>

definition leads_to :: "operation_map \<Rightarrow> entry \<Rightarrow> mutable_operation \<Rightarrow> (mutable_operation \<Rightarrow> bool) \<Rightarrow> bool" where
  "leads_to ops en m Q \<longleftrightarrow> en_target_id en = os_target_id m \<and> (\<forall>e. event_entry e = en \<longrightarrow> event_validate e = None \<longrightarrow>
     timely e \<longrightarrow> (\<exists>m1. operation_step ops e m = Inr m1 \<and> (\<forall>n. bystander m1 n \<longrightarrow> Q n)))"

lemma leads_toI:
  assumes "en_target_id en = os_target_id m"
    and "\<And>e. event_entry e = en \<Longrightarrow> event_validate e = None \<Longrightarrow> timely e \<Longrightarrow> \<exists>m1. operation_step ops e m = Inr m1 \<and> Q m1"
    and "\<And>m n. Q m \<Longrightarrow> bystander m n \<Longrightarrow> Q n"
  shows "leads_to ops en m Q"
  using assms unfolding leads_to_def by blast

text \<open>Only the events of leases change what an operation records of its lease.\<close>

definition same_lease :: "mutable_operation \<Rightarrow> mutable_operation \<Rightarrow> bool" where
  "same_lease m n \<longleftrightarrow> os_lease_active n = os_lease_active m \<and> os_lease_id n = os_lease_id m
     \<and> os_lease_owner n = os_lease_owner m \<and> os_lease_acquired_at n = os_lease_acquired_at m
     \<and> os_lease_expires_at n = os_lease_expires_at m"

definition lease_only :: "(mutable_operation \<Rightarrow> bool) \<Rightarrow> bool" where
  "lease_only K \<longleftrightarrow> (\<forall>m n. K m \<longrightarrow> same_lease m n \<longrightarrow> K n)"

lemma bystander_same_lease: "bystander m n \<Longrightarrow> same_lease m n"
  by (auto simp: bystander_def same_lease_def)

lemma operation_step_same_lease:
  "operation_step ops e m = Inr n \<Longrightarrow> \<not> is_lease_event (e_type e) \<Longrightarrow> same_lease m n"
  by (erule operation_step_elim) (auto simp: same_lease_def step_defs split: if_splits)

lemma leads_with:
  assumes "leads_to ops en m Q" and "\<not> is_lease_event (en_type en)" and "lease_only K" and "K m"
  shows "leads_to ops en m (\<lambda>n. Q n \<and> K n)"
proof -
  have "K n" if "event_entry e = en" "operation_step ops e m = Inr m1" "bystander m1 n" for e m1 n
  proof -
    have "same_lease m m1" using operation_step_same_lease [OF that(2)] event_entry_fields [OF that(1)] assms(2) by simp
    then show "K n" using assms(3,4) bystander_same_lease [OF that(3)] unfolding lease_only_def by blast
  qed
  with assms(1) show ?thesis unfolding leads_to_def by blast
qed

lemma holds_mono: "holds p run may A evs \<Longrightarrow> (\<And>i m. A i m \<Longrightarrow> B i m) \<Longrightarrow> holds p run may B evs"
  unfolding holds_def by blast

lemma known_at: "live_run p run evs rd \<Longrightarrow> known p i \<Longrightarrow> \<exists>m. map_of (rd_operations rd) i = Some m"
proof -
  assume "live_run p run evs rd" "known p i"
  then have "i \<in> fst ` set (rd_operations rd)"
    using reduces_keys [of p evs rd] by (metis known_def list.set_map live_run_def)
  then show ?thesis by (metis map_of_eq_None_iff not_Some_eq)
qed

context event_log
begin

lemma put_holds:
  assumes "sound s" and "holds p run may A (events s)" and "stable A"
    and en: "en_run_id en = run" "\<not> is_run_event (en_type en)" "en_operation_id en = i" "known p i"
      "may \<longrightarrow> allowed_after_run_cancellation (en_type en)"
    and step: "\<And>rd m. live_run p run (events s) rd \<Longrightarrow> map_of (rd_operations rd) i = Some m \<Longrightarrow> op_inv m \<Longrightarrow>
      A i m \<Longrightarrow> leads_to (rd_operations rd) en m Q"
    and put: "put_entry put s en = (s', r)"
  shows "sound s' \<and> holds p run may (if r = None then A(i := Q) else A) (events s')"
proof -
  obtain x where x: "put s en = (s', x)" "r = (case x of Inl err \<Rightarrow> Some err | Inr _ \<Rightarrow> None)"
    using put by (auto simp: put_entry_def split: prod.splits sum.splits)
  have so: "sound s'" by (rule append_sound [OF assms(1) x(1)])
  have "holds p run may (if r = None then A(i := Q) else A) (events s')"
  proof (cases x)
    case (Inl err)
    with x append_Inl [OF assms(1)] assms(2) show ?thesis by simp
  next
    case (Inr e)
    note e = append_Inr [OF assms(1) x(1) [unfolded Inr]]
    have r: "r = None" using x(2) Inr by simp
    show ?thesis
      unfolding holds_def r if_P [OF refl]
    proof
    assume time: "\<forall>e \<in> set (events s'). timely e"
    obtain rd where rd: "live_run p run (events s) rd" "rd_cancelled rd \<longrightarrow> may"
      and all: "\<forall>i m. map_of (rd_operations rd) i = Some m \<longrightarrow> A i m"
      using assms(2) time e by (auto simp: holds_def)
    have te: "timely e" using time e by simp
    obtain m where m: "map_of (rd_operations rd) i = Some m" using known_at [OF rd(1) en(4)] by blast
    have f: "e_run_id e = run" "e_type e = en_type en" "e_operation_id e = i" "e_target_id e = en_target_id en"
      using e event_entry_fields [of e en] en by simp_all
    from step [OF rd(1) m live_run_inv [OF rd(1) m]] all m e te obtain m1 where m1: "en_target_id en = os_target_id m"
      "operation_step (rd_operations rd) e m = Inr m1" "\<forall>n. bystander m1 n \<longrightarrow> Q n"
      unfolding leads_to_def by blast
    have follow: "follows run (events s) rd e" using e f rd(2) en(5) by (auto simp: follows_def)
    obtain rd' m' where rd': "live_run p run (events s @ [e]) rd'" "rd_cancelled rd' = rd_cancelled rd"
      "map_of (rd_operations rd') i = Some m'" "bystander m1 m'"
      and others: "\<forall>j n. j \<noteq> i \<longrightarrow> map_of (rd_operations rd) j = Some n \<longrightarrow>
        (\<exists>n'. map_of (rd_operations rd') j = Some n' \<and> bystander n n')"
      by (rule accept_event [OF rd(1) follow _ _ _ m1(2)]) (use f en(2) m m1(1) in auto)
    have all': "(A(i := Q)) j n'" if j: "map_of (rd_operations rd') j = Some n'" for j n'
    proof (cases "j = i")
      case True
      with j rd'(3,4) m1(3) show ?thesis by simp
    next
      case False
      have "known p j"
        using j reduces_keys [of p "events s @ [e]" rd'] rd'(1) unfolding known_def live_run_def
        by (metis domI dom_map_of_conv_image_fst list.set_map)
      then obtain n where n: "map_of (rd_operations rd) j = Some n" using known_at [OF rd(1)] by blast
      with others False j have "bystander n n'" by fastforce
      moreover have "A j n" using all n by blast
      ultimately have "A j n'" using assms(3) unfolding stable_def by blast
      with False show ?thesis by simp
    qed
    have "live_run p run (events s') rd'" "rd_cancelled rd' \<longrightarrow> may" using rd' rd(2) e by simp_all
    then show "\<exists>rd. live_run p run (events s') rd \<and> (rd_cancelled rd \<longrightarrow> may)
        \<and> (\<forall>j m. map_of (rd_operations rd) j = Some m \<longrightarrow> (A(i := Q)) j m)" using all' by blast
    qed
  qed
  with so show ?thesis ..
qed

end

lemma stable_update: "stable A \<Longrightarrow> (\<And>m n. Q m \<Longrightarrow> bystander m n \<Longrightarrow> Q n) \<Longrightarrow> stable (A(i := Q))"
  by (auto simp: stable_def)

section \<open>The state of the operation of a task\<close>

definition task_at :: "task_kind \<Rightarrow> observer \<Rightarrow> mutable_operation \<Rightarrow> bool" where
  "task_at k ob m \<longleftrightarrow> os_attempt m = ob_attempt ob \<and> os_target_id m = op_target_id (ob_operation ob)
     \<and> mo_side_effecting m = op_side_effecting (ob_operation ob) \<and> os_state m \<noteq> StatePlanned
     \<and> os_provider_started m = ob_started ob \<and> os_provider_responded m = ob_responded ob
     \<and> (if k = TaskApply
        then os_state m = StateRunning \<and> \<not> mo_reconciling m \<and> mo_dispatched m = ob_dispatched ob
          \<and> os_reconcile_required m = ob_dispatched ob
        else mo_reconciling m \<and> os_reconcile_required m)"

lemma task_at_stable: "task_at k ob m \<Longrightarrow> bystander m n \<Longrightarrow> task_at k ob n"
  by (auto simp: bystander_def task_at_def)

text \<open>A driver reports a dispatch only when it applies a side-effecting operation.\<close>

definition call_allowed :: "task_kind \<Rightarrow> operation \<Rightarrow> observer_call \<Rightarrow> bool" where
  "call_allowed k op c \<longleftrightarrow> (c = CallDispatched \<longrightarrow> k = TaskApply \<and> op_side_effecting op)"

definition same_task :: "observer \<Rightarrow> observer \<Rightarrow> bool" where
  "same_task ob ob' \<longleftrightarrow> ob_run_id ob' = ob_run_id ob \<and> ob_operation ob' = ob_operation ob \<and> ob_attempt ob' = ob_attempt ob"

lemma same_task_refl [simp]: "same_task ob ob"
  by (simp add: same_task_def)

lemma observer_entry_fields [simp]:
  "en_run_id (observer_entry ob t) = ob_run_id ob" "en_type (observer_entry ob t) = t"
  "en_operation_id (observer_entry ob t) = op_id (ob_operation ob)"
  "en_target_id (observer_entry ob t) = op_target_id (ob_operation ob)"
  "pay_attempt (en_payload (observer_entry ob t)) = ob_attempt ob"
  by (simp_all add: observer_entry_def operation_entry_def)

lemma observer_leads:
  assumes "task_at k ob m"
  shows "\<not> ob_started ob \<Longrightarrow> leads_to ops (observer_entry ob EventProviderProcessStarted) m (task_at k (ob\<lparr>ob_started := True, ob_responded := False\<rparr>))"
    and "ob_started ob \<Longrightarrow> \<not> ob_dispatched ob \<Longrightarrow> k = TaskApply \<Longrightarrow> op_side_effecting (ob_operation ob) \<Longrightarrow>
      leads_to ops (observer_entry ob EventSideEffectDispatched) m (task_at k (ob\<lparr>ob_dispatched := True\<rparr>))"
    and "ob_started ob \<Longrightarrow> \<not> ob_responded ob \<Longrightarrow>
      leads_to ops (observer_entry ob EventProviderResponseReceived) m (task_at k (ob\<lparr>ob_responded := True\<rparr>))"
  using assms event_entry_fields
  by (fastforce simp: leads_to_def task_at_def operation_step_def step_provider_started_def step_dispatched_def
      step_provider_response_def bystander_def split: if_splits)+


text \<open>
  The observer of a task is in step with the operation.  Of the task's own operation \<open>A\<close> says what holds of
  its lease meanwhile, of the others anything stable.
\<close>

definition in_step_with :: "plan \<Rightarrow> bool \<Rightarrow> assertion \<Rightarrow> task_kind \<Rightarrow> observer \<Rightarrow> event list \<Rightarrow> bool" where
  "in_step_with p may A k ob evs \<longleftrightarrow> (may \<longrightarrow> k = TaskReconcile) \<and> stable A \<and> lease_only (A (op_id (ob_operation ob))) \<and> known p (op_id (ob_operation ob))
     \<and> holds p (ob_run_id ob) may
         (A(op_id (ob_operation ob) := \<lambda>m. task_at k ob m \<and> A (op_id (ob_operation ob)) m)) evs"

lemma in_step_stable: "stable A \<Longrightarrow> stable (A(i := \<lambda>m. task_at k ob m \<and> A i m))"
  using task_at_stable unfolding stable_def by (simp, blast)

lemma operation_entry_run: "t \<noteq> EventRunStarted \<Longrightarrow> t \<noteq> EventRunCompleted \<Longrightarrow> t \<noteq> EventRunCancelled \<Longrightarrow> \<not> is_run_event t"
  by (simp add: is_run_event_def)

context event_log
begin

lemma put_task:
  assumes "sound s" and "in_step_with p may A k ob (events s)" and "en_run_id en = ob_run_id ob"
    and "\<not> is_run_event (en_type en) \<and> \<not> is_lease_event (en_type en)" and "en_operation_id en = op_id (ob_operation ob)"
    and "k = TaskReconcile \<longrightarrow> allowed_after_run_cancellation (en_type en)"
    and "\<And>ops m. op_inv m \<Longrightarrow> task_at k ob m \<Longrightarrow> leads_to ops en m Q"
    and "put_entry put s en = (s', r)"
  shows "sound s' \<and> (if r = None
      then holds p (ob_run_id ob) may (A(op_id (ob_operation ob) := \<lambda>m. Q m \<and> A (op_id (ob_operation ob)) m)) (events s')
      else in_step_with p may A k ob (events s'))"
proof -
  let ?i = "op_id (ob_operation ob)"
  let ?B = "A(?i := \<lambda>m. task_at k ob m \<and> A ?i m)" and ?R = "\<lambda>m. Q m \<and> A ?i m"
  have A: "stable A" "lease_only (A ?i)" "known p ?i" "holds p (ob_run_id ob) may ?B (events s)"
    "may \<longrightarrow> k = TaskReconcile" using assms(2) by (simp_all add: in_step_with_def)
  have en: "\<not> is_run_event (en_type en)" "\<not> is_lease_event (en_type en)" "may \<longrightarrow> allowed_after_run_cancellation (en_type en)"
    using assms(4,6) A(5) by auto
  have "sound s' \<and> holds p (ob_run_id ob) may (if r = None then ?B(?i := ?R) else ?B) (events s')"
    by (rule put_holds [OF assms(1) A(4) in_step_stable [OF A(1)] assms(3) en(1) assms(5) A(3) en(3) _ assms(8)])
      (use leads_with [OF assms(7) en(2) A(2)] in simp)
  with A(1-3,5) show ?thesis by (cases r) (simp_all add: in_step_with_def)
qed

lemma put_observed:
  assumes "sound s" and "in_step_with p may A k ob (events s)" and "\<not> is_run_event t \<and> \<not> is_lease_event t" and "same_task ob ob'"
    and "k = TaskReconcile \<longrightarrow> allowed_after_run_cancellation t"
    and "\<And>ops m. task_at k ob m \<Longrightarrow> leads_to ops (observer_entry ob t) m (task_at k ob')"
    and "put_entry put s (observer_entry ob t) = (s', r)"
  shows "sound s' \<and> in_step_with p may A k (if r = None then ob' else ob) (events s')"
  using put_task [OF assms(1,2) _ _ _ _ _ assms(7), of "task_at k ob'"] assms(2-6)
  by (auto simp: in_step_with_def same_task_def split: if_splits)

lemma observe_in_step:
  assumes "sound s" and "in_step_with p may A k ob (events s)" and "call_allowed k (ob_operation ob) c"
    and "\<not> ob_started ob \<longrightarrow> \<not> ob_responded ob" and "observe put s ob c = (s', ob', r)"
  shows "sound s' \<and> in_step_with p may A k ob' (events s') \<and> same_task ob ob' \<and> (\<not> ob_started ob' \<longrightarrow> \<not> ob_responded ob')"
proof -
  note put = put_observed [OF assms(1,2)] and leads = observer_leads
  show ?thesis
  proof (cases c)
    case CallStarted
    show ?thesis
    proof (cases "ob_started ob")
      case False
      obtain t x where t: "put_entry put s (observer_entry ob EventProviderProcessStarted) = (t, x)" by fastforce
      have same: "ob\<lparr>ob_started := True, ob_responded := False\<rparr> = ob\<lparr>ob_started := True\<rparr>" using False assms(4) by simp
      have "sound t \<and> in_step_with p may A k (if x = None then ob\<lparr>ob_started := True\<rparr> else ob) (events t)"
      proof (rule put [OF _ _ _ _ t])
        fix ops m assume "task_at k ob m"
        from leads(1) [OF this False, of ops, unfolded same]
        show "leads_to ops (observer_entry ob EventProviderProcessStarted) m (task_at k (ob\<lparr>ob_started := True\<rparr>))" .
      qed (simp_all add: is_run_event_def same_task_def)
      with assms(4,5) t False CallStarted show ?thesis
        by (cases x) (auto simp: provider_process_started_def same_task_def)
    qed (use assms CallStarted in \<open>auto simp: provider_process_started_def\<close>)
  next
    case CallDispatched
    show ?thesis
    proof (cases "ob_started ob \<and> \<not> ob_dispatched ob")
      case True
      obtain t x where t: "put_entry put s (observer_entry ob EventSideEffectDispatched) = (t, x)" by fastforce
      have "sound t \<and> in_step_with p may A k (if x = None then ob\<lparr>ob_dispatched := True\<rparr> else ob) (events t)"
        by (rule put [OF _ _ _ _ t])
          (use leads(2) True assms(3) CallDispatched in \<open>auto simp: is_run_event_def same_task_def call_allowed_def\<close>)
      with assms(4,5) t True CallDispatched show ?thesis
        by (cases x) (auto simp: side_effect_dispatched_def same_task_def)
    qed (use assms CallDispatched in \<open>auto simp: side_effect_dispatched_def split: if_splits\<close>)
  next
    case CallResponded
    show ?thesis
    proof (cases "ob_started ob \<and> \<not> ob_responded ob")
      case True
      obtain t x where t: "put_entry put s (observer_entry ob EventProviderResponseReceived) = (t, x)" by fastforce
      have "sound t \<and> in_step_with p may A k (if x = None then ob\<lparr>ob_responded := True\<rparr> else ob) (events t)"
        by (rule put [OF _ _ _ _ t]) (use leads(3) True in \<open>auto simp: is_run_event_def same_task_def\<close>)
      with assms(4,5) t True CallResponded show ?thesis
        by (cases x) (auto simp: provider_response_recorded_def same_task_def)
    qed (use assms CallResponded in \<open>auto simp: provider_response_recorded_def split: if_splits\<close>)
  qed
qed

lemma observe_all_in_step:
  assumes "sound s" and "in_step_with p may A k ob (events s)" and "\<forall>c \<in> set cs. call_allowed k (ob_operation ob) c"
    and "\<not> ob_started ob \<longrightarrow> \<not> ob_responded ob" and "observe_all put s ob cs = (s', ob')"
  shows "sound s' \<and> in_step_with p may A k ob' (events s') \<and> same_task ob ob' \<and> (\<not> ob_started ob' \<longrightarrow> \<not> ob_responded ob')"
  using assms
proof (induction cs arbitrary: s ob)
  case (Cons c cs)
  obtain t ob1 x where t: "observe put s ob c = (t, ob1, x)" by (metis prod_cases3)
  have "call_allowed k (ob_operation ob) c" using Cons.prems(3) by simp
  from observe_in_step [OF Cons.prems(1,2) this Cons.prems(4) t] have step: "sound t" "in_step_with p may A k ob1 (events t)"
    "same_task ob ob1" "\<not> ob_started ob1 \<longrightarrow> \<not> ob_responded ob1" by blast+
  have "\<forall>c \<in> set cs. call_allowed k (ob_operation ob1) c" "observe_all put t ob1 cs = (s', ob')"
    using Cons.prems(3,5) t step(3) by (auto simp: same_task_def)
  from Cons.IH [OF step(1,2) this(1) step(4) this(2)] step(3) show ?case by (auto simp: same_task_def)
qed simp

end

end
