(* ===== verification/Executor_Run.thy ===== *)
theory Executor_Run
  imports Executor_Logic
begin

text \<open>
  Whatever a driver does within its contract, the events of a task are accepted by the reducer: the observer
  stays in step with the reducer's view of the operation, and the outcome that is written fits it.
\<close>

section \<open>What the entries lead to\<close>

text \<open>An operation whose task has been recorded: not running, unless its outcome is to be reconciled.\<close>

definition recorded_outcome :: "mutable_operation \<Rightarrow> bool" where
  "recorded_outcome m \<longleftrightarrow> \<not> mo_reconciling m \<and> (os_state m = StateRunning \<longrightarrow> os_reconcile_required m)"

lemma recorded_bystander: "recorded_outcome m \<Longrightarrow> bystander m n \<Longrightarrow> recorded_outcome n"
  by (auto simp: recorded_outcome_def bystander_def)

lemma leads_recorded:
  assumes "en_target_id en = os_target_id m"
    and "\<And>e. event_entry e = en \<Longrightarrow> \<exists>m1. operation_step ops e m = Inr m1 \<and> recorded_outcome m1"
  shows "leads_to ops en m recorded_outcome"
  using assms recorded_bystander unfolding leads_to_def by blast

lemma ambiguous_entry_fields [simp]:
  "en_run_id (ambiguous_entry run op a code) = run" "en_type (ambiguous_entry run op a code) = EventOutcomeAmbiguous"
  "en_operation_id (ambiguous_entry run op a code) = op_id op" "en_target_id (ambiguous_entry run op a code) = op_target_id op"
  "pay_attempt (en_payload (ambiguous_entry run op a code)) = a"
  by (simp_all add: ambiguous_entry_def operation_entry_def)

lemma reconcile_entry_fields [simp]:
  "en_run_id (reconcile_result_entry run op a st ps ev code ret) = run"
  "en_type (reconcile_result_entry run op a st ps ev code ret) = EventReconcileResult"
  "en_operation_id (reconcile_result_entry run op a st ps ev code ret) = op_id op"
  "en_target_id (reconcile_result_entry run op a st ps ev code ret) = op_target_id op"
  "pay_attempt (en_payload (reconcile_result_entry run op a st ps ev code ret)) = a"
  "pay_state (en_payload (reconcile_result_entry run op a st ps ev code ret)) = st"
  by (simp_all add: reconcile_result_entry_def operation_entry_def)

lemma ambiguous_leads:
  assumes "task_at TaskApply ob m" and "op_side_effecting (ob_operation ob)" and "ob_dispatched ob"
  shows "leads_to ops (ambiguous_entry run (ob_operation ob) (ob_attempt ob) code) m recorded_outcome"
proof (rule leads_recorded)
  fix e assume "event_entry e = ambiguous_entry run (ob_operation ob) (ob_attempt ob) code"
  from event_entry_fields [OF this] assms
  show "\<exists>m1. operation_step ops e m = Inr m1 \<and> recorded_outcome m1"
    by (simp add: task_at_def operation_step_def step_outcome_ambiguous_def recorded_outcome_def)
qed (use assms in \<open>simp add: task_at_def\<close>)

definition outcome_fits :: "observer \<Rightarrow> normalized_state \<Rightarrow> bool" where
  "outcome_fits ob st \<longleftrightarrow> result_state st \<and> (st = StateBlocked \<longrightarrow> \<not> ob_started ob \<and> \<not> ob_dispatched ob)
     \<and> (op_side_effecting (ob_operation ob) \<and> \<not> ob_dispatched ob \<longrightarrow> st \<in> {StateFailed, StateCancelled, StateBlocked})"

lemma result_leads:
  assumes "task_at TaskApply ob m" and "outcome_fits ob st"
  shows "leads_to ops (result_entry run (ob_operation ob) (ob_attempt ob) st ps ev code ret) m recorded_outcome"
proof (rule leads_recorded)
  fix e assume "event_entry e = result_entry run (ob_operation ob) (ob_attempt ob) st ps ev code ret"
  note f = event_entry_fields [OF this]
  have m: "os_state m = StateRunning" "\<not> mo_reconciling m" "mo_dispatched m = ob_dispatched ob" "os_attempt m = ob_attempt ob"
    "mo_side_effecting m = op_side_effecting (ob_operation ob)" "os_reconcile_required m = ob_dispatched ob"
    "os_provider_started m = ob_started ob"
    using assms(1) by (simp_all add: task_at_def)
  have fits: "st = StateBlocked \<longrightarrow> \<not> ob_started ob \<and> \<not> ob_dispatched ob"
    "op_side_effecting (ob_operation ob) \<and> \<not> ob_dispatched ob \<longrightarrow> st \<in> {StateFailed, StateCancelled, StateBlocked}"
    using assms(2) by (simp_all add: outcome_fits_def)
  have "result_state st" using assms(2) by (simp add: outcome_fits_def)
  then show "\<exists>m1. operation_step ops e m = Inr m1 \<and> recorded_outcome m1"
    by (cases st) (use f m fits in \<open>auto simp: explicit_event_def operation_step_def step_explicit_result_def
        step_operation_result_def Let_def apply_result_def recorded_outcome_def\<close>)
qed (use assms in \<open>simp add: task_at_def\<close>)

lemma reconcile_leads:
  assumes "task_at TaskReconcile ob m" and "result_state st"
  shows "leads_to ops (reconcile_result_entry run (ob_operation ob) (ob_attempt ob) st ps ev code ret) m recorded_outcome"
proof (rule leads_recorded)
  fix e assume "event_entry e = reconcile_result_entry run (ob_operation ob) (ob_attempt ob) st ps ev code ret"
  from event_entry_fields [OF this] assms result_state_not_running [OF assms(2)]
  show "\<exists>m1. operation_step ops e m = Inr m1 \<and> recorded_outcome m1"
    by (simp add: task_at_def operation_step_def step_reconcile_result_def Let_def apply_result_def recorded_outcome_def)
qed (use assms in \<open>simp add: task_at_def\<close>)

lemma credential_leads:
  assumes "task_at k ob m" and "\<not> ob_dispatched ob"
    and "en = operation_entry run (ob_operation ob) EventCredentialResolved (no_payload\<lparr>pay_attempt := ob_attempt ob, pay_credential_ref := ref\<rparr>)"
  shows "leads_to ops en m (task_at k ob)"
proof -
  have "operation_step ops e m = Inr m" if "event_entry e = en" for e
    using event_entry_fields [OF that] assms
    by (cases k) (auto simp: operation_entry_def task_at_def operation_step_def step_credential_resolved_def)
  moreover have "en_target_id en = os_target_id m" using assms(1,3) by (simp add: task_at_def operation_entry_def)
  ultimately show ?thesis using assms(1) task_at_stable unfolding leads_to_def by blast
qed

lemma put_failing_result: "put_failing put s en err = (s', r) \<Longrightarrow> r \<noteq> None \<and> (\<exists>x. put_entry put s en = (s', x))"
  by (auto simp: put_failing_def split: prod.splits option.splits)

section \<open>What the decisions allow\<close>

lemma decide_reconcile:
  "fd_action (decide_failure stage se parent ctx ce) = FailureReconcile \<Longrightarrow> stage = FailureAfterDispatch \<and> se"
  by (auto simp: decide_failure_def decision_def Let_def split: if_splits)

lemma stage_dispatched: "failure_stage_of st di = FailureAfterDispatch \<longleftrightarrow> di"
  by (simp add: failure_stage_of_def)

lemma driver_result_states:
  "driver_result_error r = None \<Longrightarrow> res_state r \<in> {StateWaitingExternal, StatePublished, StateRejected}"
  by (auto simp: driver_result_error_def split: if_splits)

section \<open>The parts of a task\<close>

definition driver_contract :: "driver \<Rightarrow> bool" where
  "driver_contract d \<longleftrightarrow> (\<forall>rq. (\<forall>c \<in> set (dc_calls (dv_apply d rq)). call_allowed TaskApply (rq_operation rq) c)
     \<and> (\<forall>c \<in> set (dc_calls (dv_reconcile d rq)). call_allowed TaskReconcile (rq_operation rq) c))"

definition task_done :: "plan \<Rightarrow> bool \<Rightarrow> assertion \<Rightarrow> task_kind \<Rightarrow> observer \<Rightarrow> event list \<Rightarrow> error option \<Rightarrow> bool" where
  "task_done p may A k ob evs r \<longleftrightarrow>
     holds p (ob_run_id ob) may (A(op_id (ob_operation ob) := \<lambda>m. recorded_outcome m \<and> A (op_id (ob_operation ob)) m)) evs \<or> (r \<noteq> None \<and> (\<exists>ob'. same_task ob ob' \<and> in_step_with p may A k ob' evs))"

context event_log
begin

lemma put_outcome:
  assumes "sound s" and "in_step_with p may A k ob (events s)" and "en_run_id en = ob_run_id ob"
    and "\<not> is_run_event (en_type en) \<and> \<not> is_lease_event (en_type en)" and "en_operation_id en = op_id (ob_operation ob)"
    and "k = TaskReconcile \<longrightarrow> allowed_after_run_cancellation (en_type en)"
    and "\<And>ops m. task_at k ob m \<Longrightarrow> leads_to ops en m recorded_outcome"
    and "put_entry put s en = (s', r)" and "r \<noteq> None \<longrightarrow> r' \<noteq> None"
  shows "sound s' \<and> task_done p may A k ob (events s') r'"
  using put_task [OF assms(1-6) _ assms(8), of recorded_outcome] assms(7,9)
  by (auto simp: task_done_def split: if_splits intro: exI [of _ ob])

lemma apply_outcome_done:
  assumes "sound s" and "in_step_with p may A TaskApply ob (events s)"
    and "persist_apply_outcome put s parent ctx (ob_run_id ob) (ob_operation ob) (ob_attempt ob) (ob_started ob)
      (ob_dispatched ob) res call = (s', deferred, r)"
  shows "sound s' \<and> task_done p may A TaskApply ob (events s') r"
proof -
  let ?amb = "ambiguous_entry (ob_run_id ob) (ob_operation ob) (ob_attempt ob)"
  let ?res = "result_entry (ob_run_id ob) (ob_operation ob) (ob_attempt ob)"
  have fails: "outcome_fits ob StateFailed" "outcome_fits ob StateCancelled" by (simp_all add: outcome_fits_def)
  have res: "sound t \<and> task_done p may A TaskApply ob (events t) r'"
    if "put_entry put s (?res st ps ev code ret) = (t, x)" "outcome_fits ob st" "x \<noteq> None \<longrightarrow> r' \<noteq> None" for st ps ev code ret t x r'
    by (rule put_outcome [OF assms(1,2) _ _ _ _ _ that(1,3)])
      (use result_leads that(2) in \<open>auto simp: explicit_event_def is_run_event_def\<close>)
  have amb: "sound t \<and> task_done p may A TaskApply ob (events t) r'"
    if "put_entry put s (?amb code) = (t, x)" "op_side_effecting (ob_operation ob)" "ob_dispatched ob" "x \<noteq> None \<longrightarrow> r' \<noteq> None"
    for code t x r'
    by (rule put_outcome [OF assms(1,2) _ _ _ _ _ that(1,4)]) (use ambiguous_leads that(2,3) in \<open>auto simp: is_run_event_def\<close>)
  show ?thesis
  proof (cases call)
    case None
    show ?thesis
    proof (cases "driver_result_error res")
      case (Some err)
      show ?thesis
      proof (cases "op_side_effecting (ob_operation ob) \<and> ob_dispatched ob")
        case True
        then have "put_failing put s (?amb ''DRIVER_CONTRACT_ERROR'') err = (s', r)"
          using assms(3) None Some by (simp add: persist_apply_outcome_def split: prod.splits)
        from put_failing_result [OF this] obtain x where "put_entry put s (?amb ''DRIVER_CONTRACT_ERROR'') = (s', x)" "r \<noteq> None"
          by blast
        then show ?thesis using amb True by blast
      next
        case False
        then have "put_failing put s (?res StateFailed [] [] ''DRIVER_CONTRACT_ERROR'' False) err = (s', r)"
          using assms(3) None Some unfolding persist_apply_outcome_def
          by (simp only: option.case if_not_P [OF False]) (auto split: prod.splits)
        from put_failing_result [OF this] obtain x where "put_entry put s (?res StateFailed [] [] ''DRIVER_CONTRACT_ERROR'' False) = (s', x)" "r \<noteq> None"
          by blast
        then show ?thesis using res [OF _ fails(1)] by blast
      qed
    next
      case ok: None
      show ?thesis
      proof (cases "op_side_effecting (ob_operation ob) \<and> \<not> ob_dispatched ob")
        case True
        then have "put_failing put s (?res StateFailed [] [] ''DRIVER_BOUNDARY_ERROR'' True) err_before_dispatch = (s', r)"
          using assms(3) None ok by (simp add: persist_apply_outcome_def split: prod.splits)
        from put_failing_result [OF this] obtain x where "put_entry put s (?res StateFailed [] [] ''DRIVER_BOUNDARY_ERROR'' True) = (s', x)" "r \<noteq> None"
          by blast
        then show ?thesis using res [OF _ fails(1)] by blast
      next
        case False
        obtain t x where t: "put_entry put s (?res (res_state res) (res_provider_state res) (res_evidence res) [] False) = (t, x)"
          by fastforce
        with assms(3) None ok False have "s' = t \<and> r = x"
          by (auto simp: persist_apply_outcome_def split: option.splits)
        moreover have "outcome_fits ob (res_state res)"
          using driver_result_states [OF ok] False by (auto simp: outcome_fits_def)
        ultimately show ?thesis using res [OF t] by blast
      qed
    qed
  next
    case (Some ce)
    let ?d = "decide_failure (failure_stage_of (ob_started ob) (ob_dispatched ob)) (op_side_effecting (ob_operation ob)) parent ctx ce"
    show ?thesis
    proof (cases "fd_action ?d = FailureReconcile")
      case True
      obtain t x where t: "put_entry put s (?amb (fd_code ?d)) = (t, x)" by fastforce
      with assms(3) Some True have "s' = t \<and> r = x" by (simp add: persist_apply_outcome_def Let_def)
      then show ?thesis using amb [OF t] decide_reconcile [OF True] unfolding stage_dispatched by blast
    next
      case False
      obtain t x where t: "put_entry put s (?res (if fd_cancelled ?d then StateCancelled else StateFailed) [] [] (fd_code ?d)
          (fd_action ?d = FailureRetryApply)) = (t, x)" by fastforce
      with assms(3) Some False have "s' = t \<and> r = x" by (simp add: persist_apply_outcome_def Let_def)
      moreover have "outcome_fits ob (if fd_cancelled ?d then StateCancelled else StateFailed)" using fails by simp
      ultimately show ?thesis using res [OF t] by blast
    qed
  qed
qed

lemma reconcile_outcome_done:
  assumes "sound s" and "in_step_with p may A TaskReconcile ob (events s)"
    and "persist_reconcile_outcome put s parent ctx (ob_run_id ob) (ob_operation ob) (ob_attempt ob) amb res call = (s', r)"
  shows "sound s' \<and> task_done p may A TaskReconcile ob (events s') r"
proof -
  let ?rec = "reconcile_result_entry (ob_run_id ob) (ob_operation ob) (ob_attempt ob)"
  have rec: "sound t \<and> task_done p may A TaskReconcile ob (events t) r'"
    if "put_entry put s (?rec st ps ev code ret) = (t, x)" "result_state st" "x \<noteq> None \<longrightarrow> r' \<noteq> None" for st ps ev code ret t x r'
    by (rule put_outcome [OF assms(1,2) _ _ _ _ _ that(1,3)]) (use reconcile_leads that(2) in \<open>auto simp: is_run_event_def\<close>)
  have wait: "result_state StateWaitingExternal" by simp
  show ?thesis
  proof (cases call)
    case None
    show ?thesis
    proof (cases "driver_result_error res")
      case (Some err)
      then have "put_failing put s (?rec StateWaitingExternal [] [] ''DRIVER_CONTRACT_ERROR'' False) err = (s', r)"
        using assms(3) None by (simp add: persist_reconcile_outcome_def)
      from put_failing_result [OF this] obtain x where
        "put_entry put s (?rec StateWaitingExternal [] [] ''DRIVER_CONTRACT_ERROR'' False) = (s', x)" "r \<noteq> None" by blast
      then show ?thesis using rec [OF _ wait] by blast
    next
      case ok: None
      then have "put_entry put s (?rec (res_state res) (res_provider_state res) (res_evidence res) [] False) = (s', r)"
        using assms(3) None by (simp add: persist_reconcile_outcome_def)
      moreover have "result_state (res_state res)" using driver_result_states [OF ok] by auto
      ultimately show ?thesis using rec by blast
    qed
  next
    case (Some ce)
    then have "put_entry put s (?rec StateWaitingExternal [] [] (cc_code (classify_call_error parent ctx ce))
        (cc_retryable (classify_call_error parent ctx ce) \<or> amb)) = (s', r)"
      using assms(3) by (simp add: persist_reconcile_outcome_def Let_def)
    then show ?thesis using rec [OF _ wait] by blast
  qed
qed

lemma preparation_failure_done:
  assumes "sound s" and "in_step_with p may A TaskApply ob (events s)" and "\<not> ob_started ob" and "\<not> ob_dispatched ob"
    and "persist_preparation_failure put s parent ctx parent' ctx' (ob_run_id ob) (ob_operation ob) (ob_attempt ob) ce = (s', blocked, r)"
  shows "sound s' \<and> task_done p may A TaskApply ob (events s') r"
proof -
  obtain st code ret b where en: "preparation_failure_entry parent ctx parent' ctx' (ob_run_id ob) (ob_operation ob) (ob_attempt ob) ce
      = (b, result_entry (ob_run_id ob) (ob_operation ob) (ob_attempt ob) st [] [] code ret)"
    and st: "st \<in> {StateFailed, StateCancelled, StateBlocked}"
    by (auto simp: preparation_failure_entry_def Let_def)
  have "outcome_fits ob st" using st assms(3,4) by (auto simp: outcome_fits_def)
  moreover have "put_entry put s (result_entry (ob_run_id ob) (ob_operation ob) (ob_attempt ob) st [] [] code ret) = (s', r)"
    using assms(5) en by (simp add: persist_preparation_failure_def split: prod.splits)
  moreover have "\<not> is_run_event (fst (explicit_event st)) \<and> \<not> is_lease_event (fst (explicit_event st))" using st by (auto simp: explicit_event_def is_run_event_def)
  ultimately show ?thesis
    using put_outcome [OF assms(1,2)] result_leads by (metis result_entry_fields(1,3,4) task_kind.distinct(1))
qed

lemma credentials_in_step:
  assumes "sound s" and "in_step_with p may A k ob (events s)" and "\<not> ob_dispatched ob"
    and "append_each put s (credential_entries (ob_run_id ob) (ob_operation ob) (ob_attempt ob) refs) = (s', r)"
  shows "sound s' \<and> in_step_with p may A k ob (events s')"
  using assms
proof (induction refs arbitrary: s)
  case (Cons ref refs)
  let ?en = "operation_entry (ob_run_id ob) (ob_operation ob) EventCredentialResolved
    (no_payload\<lparr>pay_attempt := ob_attempt ob, pay_credential_ref := ref\<rparr>)"
  obtain t x where t: "put s ?en = (t, x)" by fastforce
  then obtain y where y: "put_entry put s ?en = (t, y)" "y = None \<longleftrightarrow> (\<exists>e. x = Inr e)"
    by (cases x) (simp_all add: put_entry_def)
  have step: "sound t \<and> (if y = None then holds p (ob_run_id ob) may (A(op_id (ob_operation ob) := \<lambda>m. task_at k ob m \<and> A (op_id (ob_operation ob)) m)) (events t)
      else in_step_with p may A k ob (events t))"
    by (rule put_task [OF Cons.prems(1,2) _ _ _ _ _ y(1)])
      (use credential_leads Cons.prems(3) in \<open>auto simp: operation_entry_def is_run_event_def\<close>)
  then have t': "sound t" "in_step_with p may A k ob (events t)"
    using Cons.prems(2) by (auto simp: in_step_with_def split: if_splits)
  show ?case
  proof (cases x)
    case (Inl err)
    with t t' Cons.prems(4) show ?thesis by (simp add: credential_entries_def)
  next
    case (Inr e)
    with t Cons.prems(4) have "append_each put t (credential_entries (ob_run_id ob) (ob_operation ob) (ob_attempt ob) refs) = (s', r)"
      by (simp add: credential_entries_def)
    from Cons.IH [OF t' Cons.prems(3) this] show ?thesis .
  qed
qed (simp add: credential_entries_def)

lemma call_driver_in_step:
  assumes "sound s" and "in_step_with p may A (tk_kind t) ob (events s)" and "ob_operation ob = tk_operation t"
    and "\<forall>c \<in> set (dc_calls call). call_allowed (tk_kind t) (tk_operation t) c"
    and "\<not> ob_started ob" and "\<not> ob_responded ob" and "call_driver put d t call s ob = (s', ob', r)"
  shows "sound s' \<and> in_step_with p may A (tk_kind t) ob' (events s') \<and> same_task ob ob'"
proof -
  let ?k = "tk_kind t" and ?good = "\<lambda>u ob1. sound u \<and> in_step_with p may A (tk_kind t) ob1 (events u) \<and> same_task ob ob1
    \<and> (\<not> ob_started ob1 \<longrightarrow> \<not> ob_responded ob1)"
  have call: "?good v ob2" if "?good u ob1" "observe put u ob1 c = (v, ob2, x)" "call_allowed ?k (tk_operation t) c" for u ob1 c v ob2 x
    using observe_in_step [of u p may A ?k ob1 c v ob2 x] that assms(3) by (auto simp: same_task_def)
  obtain u ob1 x where u: "begin_call put d t s ob = (u, ob1, x)" by (metis prod_cases3)
  have good1: "?good u ob1"
  proof (cases "reports_execution_boundaries d")
    case True
    with u assms show ?thesis by (auto simp: begin_call_def)
  next
    case False
    obtain v ob2 y where v: "provider_process_started put s ob = (v, ob2, y)" by (metis prod_cases3)
    have mid: "?good v ob2" by (rule call [of s ob CallStarted]) (use assms v in \<open>auto simp: call_allowed_def\<close>)
    consider (same) "u = v" "ob1 = ob2" | (dispatched) "?k = TaskApply" "op_side_effecting (tk_operation t)"
        "side_effect_dispatched put v ob2 = (u, ob1, x)"
      using u v False by (auto simp: begin_call_def split: option.splits if_splits)
    then show ?thesis
    proof cases
      case same
      with mid show ?thesis by simp
    next
      case dispatched
      show ?thesis by (rule call [OF mid, of CallDispatched]) (use dispatched in \<open>simp_all add: call_allowed_def\<close>)
    qed
  qed
  show ?thesis
  proof (cases x)
    case (Some err)
    with u good1 assms(7) show ?thesis by (simp add: call_driver_def)
  next
    case None
    obtain v ob2 where v: "observe_all put u ob1 (dc_calls call) = (v, ob2)" by fastforce
    have good2: "?good v ob2"
      using observe_all_in_step [of u p may A ?k ob1 "dc_calls call" v ob2] good1 v assms(3,4) by (auto simp: same_task_def)
    have "end_call put d (dc_error call) v ob2 = (s', ob', r)"
      using assms(7) u None v by (simp add: call_driver_def)
    then consider (same) "s' = v" "ob' = ob2" | (responded) "provider_response_recorded put v ob2 = (s', ob', r)"
      by (auto simp: end_call_def split: if_splits)
    then show ?thesis
    proof cases
      case same
      with good2 show ?thesis by simp
    next
      case responded
      have "?good s' ob'" by (rule call [OF good2, of CallResponded]) (use responded in \<open>simp_all add: call_allowed_def\<close>)
      then show ?thesis by blast
    qed
  qed
qed

lemma task_done_same: "same_task ob ob1 \<Longrightarrow> task_done p may A k ob1 evs r \<Longrightarrow> task_done p may A k ob evs r"
  unfolding task_done_def same_task_def by (metis (full_types))

lemma run_call_done:
  assumes "sound s" and "in_step_with p may A (tk_kind t) (new_observer run t) (events s)" and "driver_contract d"
    and "run_call put cx plan_id run d t s = (s', oc)"
  shows "sound s' \<and> task_done p may A (tk_kind t) (new_observer run t) (events s') (oc_error oc)"
proof -
  let ?ob = "new_observer run t"
  have ob: "ob_operation ?ob = tk_operation t" "\<not> ob_started ?ob" "\<not> ob_responded ?ob" "ob_run_id ?ob = run"
    "ob_attempt ?ob = task_attempt t" by (simp_all add: new_observer_def)
  have fail: "task_done p may A (tk_kind t) ?ob (events u) (Some err)"
    if "in_step_with p may A (tk_kind t) ob1 (events u)" "same_task ?ob ob1" for u ob1 err
    using that by (auto simp: task_done_def)
  show ?thesis
  proof (cases "tk_kind t")
    case TaskReconcile
    define call where "call = dv_reconcile d ((task_request plan_id run t)\<lparr>rq_previous := Some (previous_of (tk_state t))\<rparr>)"
    have allowed: "\<forall>c \<in> set (dc_calls call). call_allowed (tk_kind t) (tk_operation t) c"
      using assms(3) TaskReconcile unfolding driver_contract_def call_def task_request_def
      by (metis request.select_convs(3) request.update_convs(5))
    obtain u ob1 x where u: "call_driver put d t call s ?ob = (u, ob1, x)" by (metis prod_cases3)
    note mid = call_driver_in_step [OF assms(1,2) ob(1) allowed ob(2,3) u]
    show ?thesis
    proof (cases x)
      case (Some err)
      with assms(4) TaskReconcile u have "s' = u" "oc_error oc = Some err"
        by (auto simp: run_call_def run_reconcile_def Let_def call_def [symmetric])
      with mid show ?thesis using fail [of ob1 u err] by simp
    next
      case None
      then have "persist_reconcile_outcome put u (cx_parent cx) (cx_call cx) (ob_run_id ob1) (ob_operation ob1) (ob_attempt ob1)
          (os_ambiguous (tk_state t)) (dc_result call) (dc_error call) = (s', oc_error oc)"
        using assms(4) TaskReconcile u mid ob
        by (auto simp: run_call_def run_reconcile_def Let_def call_def [symmetric] same_task_def split: prod.splits)
      with reconcile_outcome_done mid TaskReconcile task_done_same show ?thesis by metis
    qed
  next
    case TaskApply
    define call where "call = dv_apply d (task_request plan_id run t)"
    have allowed: "\<forall>c \<in> set (dc_calls call). call_allowed (tk_kind t) (tk_operation t) c"
      using assms(3) TaskApply unfolding driver_contract_def call_def task_request_def
      by (metis request.select_convs(3))
    obtain u ob1 x where u: "call_driver put d t call s ?ob = (u, ob1, x)" by (metis prod_cases3)
    note mid = call_driver_in_step [OF assms(1,2) ob(1) allowed ob(2,3) u]
    show ?thesis
    proof (cases x)
      case (Some err)
      with assms(4) TaskApply u have "s' = u" "oc_error oc = Some err"
        by (auto simp: run_call_def run_apply_def Let_def call_def [symmetric])
      with mid show ?thesis using fail [of ob1 u err] by simp
    next
      case None
      then have "\<exists>def. persist_apply_outcome put u (cx_parent cx) (cx_call cx) (ob_run_id ob1) (ob_operation ob1) (ob_attempt ob1)
          (ob_started ob1) (ob_dispatched ob1) (dc_result call) (dc_error call) = (s', def, oc_error oc)"
        using assms(4) TaskApply u mid ob
        by (auto simp: run_call_def run_apply_def Let_def call_def [symmetric] same_task_def split: prod.splits)
      with apply_outcome_done mid TaskApply task_done_same show ?thesis by metis
    qed
  qed
qed

lemma preparation_failed_done:
  assumes "sound s" and "in_step_with p may A (tk_kind t) (new_observer run t) (events s)"
    and "preparation_failed put cx run t ce s = (s', oc)"
  shows "sound s' \<and> task_done p may A (tk_kind t) (new_observer run t) (events s') (oc_error oc)"
proof -
  let ?ob = "new_observer run t"
  have ob: "ob_operation ?ob = tk_operation t" "\<not> ob_started ?ob" "\<not> ob_dispatched ?ob" "ob_run_id ?ob = run"
    "ob_attempt ?ob = task_attempt t" by (simp_all add: new_observer_def)
  show ?thesis
  proof (cases "tk_kind t")
    case TaskReconcile
    then have "persist_reconcile_outcome put s (cx_parent cx) (cx_call cx) run (tk_operation t) (task_attempt t)
        (os_ambiguous (tk_state t)) no_result (Some ce) = (s', oc_error oc)"
      using assms(3) by (auto simp: preparation_failed_def split: prod.splits)
    with reconcile_outcome_done [OF assms(1) assms(2) [unfolded TaskReconcile]] TaskReconcile ob show ?thesis by simp
  next
    case TaskApply
    then have "\<exists>blocked. persist_preparation_failure put s (cx_parent cx) (cx_call cx) (cx_parent_again cx)
        (cx_call_again cx) run (tk_operation t) (task_attempt t) ce = (s', blocked, oc_error oc)"
      using assms(3) by (auto simp: preparation_failed_def split: prod.splits)
    with preparation_failure_done [OF assms(1) assms(2) [unfolded TaskApply] ob(2,3)] TaskApply ob show ?thesis by auto
  qed
qed

lemma run_task_done:
  assumes "sound s" and "in_step_with p may A (tk_kind t) (new_observer run t) (events s)" and "driver_contract d"
    and "run_task put cx plan_id run d t s = (s', oc)"
  shows "sound s' \<and> task_done p may A (tk_kind t) (new_observer run t) (events s') (oc_error oc)"
proof (cases "dv_prepare d")
  case None
  with assms(4) have "run_call put cx plan_id run d t s = (s', oc)" by (simp add: run_task_def)
  then show ?thesis by (rule run_call_done [OF assms(1-3)])
next
  case (Some prepare)
  let ?ob = "new_observer run t"
  show ?thesis
  proof (cases "prepare (task_request plan_id run t) (driver_operation_of t)")
    case (Inl ce)
    with assms(4) Some have "preparation_failed put cx run t ce s = (s', oc)" by (simp add: run_task_def)
    then show ?thesis by (rule preparation_failed_done [OF assms(1,2)])
  next
    case (Inr refs)
    obtain u err where u: "record_credential_resolution put s run (tk_operation t) (task_attempt t) refs = (u, err)" by fastforce
    then have "append_each put s (credential_entries (ob_run_id ?ob) (ob_operation ?ob) (ob_attempt ?ob) refs) = (u, err)"
      by (simp add: record_credential_resolution_def new_observer_def)
    from credentials_in_step [OF assms(1,2) _ this] have mid: "sound u" "in_step_with p may A (tk_kind t) ?ob (events u)"
      by (simp_all add: new_observer_def)
    show ?thesis
    proof (cases err)
      case None
      with assms(4) Some Inr u have "run_call put cx plan_id run d t u = (s', oc)" by (simp add: run_task_def)
      then show ?thesis by (rule run_call_done [OF mid assms(3)])
    next
      case err: (Some e)
      with assms(4) Some Inr u have "s' = u" "oc_error oc = Some e" by (auto simp: run_task_def)
      with mid show ?thesis by (auto simp: task_done_def)
    qed
  qed
qed

end

end
