(* ===== verification/Executor_Execute.thy ===== *)
theory Executor_Execute
  imports Executor_Run
begin

text \<open>
  The loop of \<open>Execute\<close>, \<open>internal/executor/executor.go\<close>.  One turn of the loop is \<open>execute_round\<close>; what the
  outside decides in a turn (the contexts, the clock) is its argument, and a run is a list of turns.  The
  goroutines of a batch run one after another here, in the order of the batch: each journal append is one
  critical section of the writer, and the events of a task concern its own operation only.
\<close>

section \<open>Starting a task: lease, then journal\<close>

type_synonym 's world = "'s \<times> memory_leases"

datatype start = Started task | LeaseBlocked | StartFailed error

definition leases_of :: "memory_leases \<Rightarrow> memory_leases option \<Rightarrow> memory_leases" where
  "leases_of m m' = (case m' of None \<Rightarrow> m | Some x \<Rightarrow> x)"

text \<open>\<open>lease.Release()\<close> with its error ignored, and \<open>releaseLease\<close> likewise.\<close>

definition drop_lease :: "memory_lease \<Rightarrow> memory_leases \<Rightarrow> memory_leases" where
  "drop_lease l m = (case lease_release (Some m) (Some l) of (m', _, _) \<Rightarrow> leases_of m m')"

definition drop_started ::
  "('s \<Rightarrow> entry \<Rightarrow> 's \<times> event result) \<Rightarrow> run_id \<Rightarrow> operation \<Rightarrow> memory_lease \<Rightarrow> 's world \<Rightarrow> 's world" where
  "drop_started put run op l w = (case release_lease put (fst w) (Some (snd w)) run op (Some l) of
     (s', m', _, _) \<Rightarrow> (s', leases_of (snd w) m'))"

definition journal_lease ::
  "('s \<Rightarrow> entry \<Rightarrow> 's \<times> event result) \<Rightarrow> run_id \<Rightarrow> task \<Rightarrow> memory_lease \<Rightarrow> 's \<Rightarrow> 's \<times> error option" where
  "journal_lease put run t l s =
     (case (case mm_previous_expired l of
              Some expired \<Rightarrow> if os_lease_active (tk_state t)
                then append_lease_event put s run (tk_operation t) EventLeaseExpired expired else (s, None)
            | None \<Rightarrow> (s, None)) of
       (s1, Some err) \<Rightarrow> (s1, Some err)
     | (s1, None) \<Rightarrow> append_lease_event put s1 run (tk_operation t) EventLeaseAcquired (mm_state l))"

definition start_candidate ::
  "('s \<Rightarrow> entry \<Rightarrow> 's \<times> event result) \<Rightarrow> error option \<Rightarrow> plan_id \<Rightarrow> run_id \<Rightarrow> task \<Rightarrow> 's world \<Rightarrow> 's world \<times> start" where
  "start_candidate put ctx plan_id run t w =
     (case acquire (Some ctx) \<lparr>lr_key = lease_key plan_id (op_id (tk_operation t)), lr_operation_id = op_id (tk_operation t)\<rparr>
         (Some (snd w)) of
       (m, Inl err) \<Rightarrow>
         ((fst w, leases_of (snd w) m), if errors_is err ErrLeaseHeld then LeaseBlocked else StartFailed err)
     | (m, Inr l) \<Rightarrow>
         (case journal_lease put run t l (fst w) of
           (s1, Some err) \<Rightarrow> ((s1, drop_lease l (leases_of (snd w) m)), StartFailed err)
         | (s1, None) \<Rightarrow> (case prepare_task put s1 run t of
               (s2, Some err) \<Rightarrow> (drop_started put run (tk_operation t) l (s2, leases_of (snd w) m), StartFailed err)
             | (s2, None) \<Rightarrow> ((s2, leases_of (snd w) m), Started (t\<lparr>tk_lease := Some l\<rparr>)))))"

text \<open>What \<open>wait\<close> returns before a retry of this candidate, and the context's error when it acquires.\<close>

record turn =
  tn_wait :: "error option"
  tn_acquire :: "error option"

definition waits :: "task \<Rightarrow> bool" where
  "waits t \<longleftrightarrow> tk_kind t = TaskApply \<and> os_state (tk_state t) = StateFailed"

text \<open>The loop over the batch: what was prepared, how many leases are held elsewhere, and the first error.\<close>

fun start_batch ::
  "('s \<Rightarrow> entry \<Rightarrow> 's \<times> event result) \<Rightarrow> plan_id \<Rightarrow> run_id \<Rightarrow> (task \<times> turn) list \<Rightarrow> 's world
     \<Rightarrow> 's world \<times> task list \<times> nat \<times> error option" where
  "start_batch put plan_id run [] w = (w, [], 0, None)"
| "start_batch put plan_id run ((t, tn) # ts) w =
     (if waits t \<and> tn_wait tn \<noteq> None then (w, [], 0, None)
      else (case start_candidate put (tn_acquire tn) plan_id run t w of
          (w1, StartFailed err) \<Rightarrow> (w1, [], 0, Some err)
        | (w1, LeaseBlocked) \<Rightarrow>
            (case start_batch put plan_id run ts w1 of (w2, prepared, blocked, err) \<Rightarrow> (w2, prepared, Suc blocked, err))
        | (w1, Started t') \<Rightarrow>
            (case start_batch put plan_id run ts w1 of (w2, prepared, blocked, err) \<Rightarrow> (w2, t' # prepared, blocked, err))))"

section \<open>Running the batch\<close>

text \<open>\<open>runTask\<close> with its deferred release of the lease.\<close>

definition finish_task ::
  "('s \<Rightarrow> entry \<Rightarrow> 's \<times> event result) \<Rightarrow> contexts \<Rightarrow> plan_id \<Rightarrow> run_id \<Rightarrow> driver \<Rightarrow> task \<Rightarrow> 's world \<Rightarrow> 's world \<times> outcome" where
  "finish_task put cx plan_id run d t w = (case run_task put cx plan_id run d t (fst w) of
     (s1, oc) \<Rightarrow> (case release_lease put s1 (Some (snd w)) run (tk_operation t) (tk_lease t) of
         (s2, m', _, err) \<Rightarrow>
           ((s2, leases_of (snd w) m'), oc\<lparr>oc_error := (if oc_error oc = None then err else oc_error oc)\<rparr>)))"

fun run_batch ::
  "('s \<Rightarrow> entry \<Rightarrow> 's \<times> event result) \<Rightarrow> plan_id \<Rightarrow> run_id \<Rightarrow> driver \<Rightarrow> (task \<times> contexts) list \<Rightarrow> 's world
     \<Rightarrow> 's world \<times> outcome list" where
  "run_batch put plan_id run d [] w = (w, [])"
| "run_batch put plan_id run d ((t, cx) # ts) w = (case finish_task put cx plan_id run d t w of
     (w1, oc) \<Rightarrow> (case run_batch put plan_id run d ts w1 of (w2, ocs) \<Rightarrow> (w2, oc # ocs)))"

definition outcome_key :: "outcome \<Rightarrow> operation_attempt" where
  "outcome_key oc = (oc_operation_id oc, oc_attempt oc)"

record progress =
  pr_reconciled :: "operation_attempt set"
  pr_deferred :: "operation_attempt set"

definition note_outcomes :: "outcome list \<Rightarrow> progress \<Rightarrow> progress" where
  "note_outcomes ocs pr =
     \<lparr>pr_reconciled = pr_reconciled pr \<union> set (map outcome_key (filter oc_reconciled ocs)),
      pr_deferred = pr_deferred pr \<union> set (map outcome_key (filter (\<lambda>oc. oc_defer_reconcile oc \<or> oc_defer_blocked oc) ocs))\<rparr>"

section \<open>One turn of the loop\<close>

record turn_env =
  te_context :: "error option"
  te_now :: time
  te_turns :: "nat \<Rightarrow> turn"
  te_contexts :: "nat \<Rightarrow> contexts"
  te_context_after :: "error option"

text \<open>The zero value of \<open>DerivedState\<close>, which the code returns beside an error.\<close>

definition no_state :: derived_state where
  "no_state = \<lparr>ds_run_id = [], ds_started = False, ds_completed = False, ds_cancelled = False,
     ds_operations = [], ds_targets = []\<rparr>"

datatype verdict = Continue | Return derived_state "error option"

text \<open>The passes in their order; a pass that changed something, or failed, ends the turn.\<close>

fun first_pass :: "('s \<Rightarrow> 's \<times> bool result) list \<Rightarrow> 's \<Rightarrow> 's \<times> bool result" where
  "first_pass [] s = (s, Inr False)"
| "first_pass (f # fs) s = (case f s of
     (s', Inl err) \<Rightarrow> (s', Inl err)
   | (s', Inr True) \<Rightarrow> (s', Inr True)
   | (s', Inr False) \<Rightarrow> first_pass fs s')"

definition maintenance ::
  "('s \<Rightarrow> entry \<Rightarrow> 's \<times> event result) \<Rightarrow> attempt_number \<Rightarrow> operation_index \<Rightarrow> run_id \<Rightarrow> derived_state \<Rightarrow> time
     \<Rightarrow> 's \<Rightarrow> 's \<times> bool result" where
  "maintenance put max_attempts operations run state now = first_pass
     (expire_journal_leases put run state now #
      (if ds_cancelled state then []
       else [journal_ready_operations put run state, recover_undispatched put run state operations,
             cancel_blocked max_attempts put run state operations]))"

definition cancel_run ::
  "('s \<Rightarrow> entry \<Rightarrow> 's \<times> event result) \<Rightarrow> ('s \<Rightarrow> event list) \<Rightarrow> plan \<Rightarrow> run_id \<Rightarrow> derived_state \<Rightarrow> error \<Rightarrow> 's \<Rightarrow> 's \<times> verdict" where
  "cancel_run put events p run state err s =
     (case put_entry put s \<lparr>en_run_id = run, en_plan_id = [], en_type = EventRunCancelled, en_operation_id = [],
         en_target_id = [], en_payload = no_payload\<rparr> of
       (s', Some e) \<Rightarrow> (s', Return state (Some e))
     | (s', None) \<Rightarrow> (case reduce p (events s') of
           Inl e \<Rightarrow> (s', Return no_state (Some e)) | Inr state' \<Rightarrow> (s', Return state' (Some err))))"

definition complete_entry :: "run_id \<Rightarrow> entry" where
  "complete_entry run = \<lparr>en_run_id = run, en_plan_id = [], en_type = EventRunCompleted, en_operation_id = [],
     en_target_id = [], en_payload = no_payload\<rparr>"

text \<open>What a turn does when there is nothing to run.\<close>

definition idle_turn ::
  "('s \<Rightarrow> entry \<Rightarrow> 's \<times> event result) \<Rightarrow> attempt_number \<Rightarrow> run_id \<Rightarrow> derived_state \<Rightarrow> 's \<Rightarrow> 's \<times> verdict" where
  "idle_turn put max_attempts run state s =
     (if ds_cancelled state then (s, Return state None)
      else if executor_quiescent state max_attempts
      then (case put_entry put s (complete_entry run) of
          (s', Some err) \<Rightarrow> (s', Return state (Some err)) | (s', None) \<Rightarrow> (s', Continue))
      else if next_lease_expiry state \<noteq> None then (s, Continue)
      else (s, Return state None))"

definition requirement_index :: "plan \<Rightarrow> (target_id \<times> requirement list) list" where
  "requirement_index p = foldl (\<lambda>m t. map_insert (tgt_id t) (tgt_requirements t) m) [] (pl_targets p)"

definition with_requirements :: "plan \<Rightarrow> task \<Rightarrow> task" where
  "with_requirements p t = t\<lparr>tk_requirements :=
     (case map_of (requirement_index p) (op_target_id (tk_operation t)) of None \<Rightarrow> [] | Some rs \<Rightarrow> rs)\<rparr>"

definition batch_of :: "executor \<Rightarrow> plan \<Rightarrow> derived_state \<Rightarrow> progress \<Rightarrow> task list" where
  "batch_of e p state pr = map (with_requirements p)
     (candidates (ex_max_attempts e) (ex_reconcile_only e) state (operation_index p) (pr_reconciled pr) (pr_deferred pr))"

definition busy_turn ::
  "('s \<Rightarrow> entry \<Rightarrow> 's \<times> event result) \<Rightarrow> executor \<Rightarrow> plan \<Rightarrow> run_id \<Rightarrow> driver \<Rightarrow> turn_env \<Rightarrow> derived_state \<Rightarrow> task list
     \<Rightarrow> 's world \<Rightarrow> progress \<Rightarrow> 's world \<times> progress \<times> verdict" where
  "busy_turn put e p run d env state tasks w pr =
     (let batch = take (nat (ex_max_concurrency e)) tasks in
      case start_batch put (pl_id p) run (zip batch (map (te_turns env) [0..<length batch])) w of
        (w1, prepared, blocked, Some err) \<Rightarrow> (w1, pr, Return state (Some err))
      | (w1, prepared, blocked, None) \<Rightarrow>
          (if prepared = [] then
             (w1, pr, if te_context_after env \<noteq> None then Continue
                      else if blocked \<noteq> 0 then Return state (Some err_lease_held)
                      else Return state None)
           else (case run_batch put (pl_id p) run d (zip prepared (map (te_contexts env) [0..<length prepared])) w1 of
               (w2, ocs) \<Rightarrow> (w2, note_outcomes ocs pr,
                 case first_error (map oc_error ocs) of Some err \<Rightarrow> Return state (Some err) | None \<Rightarrow> Continue))))"

definition execute_round ::
  "('s \<Rightarrow> entry \<Rightarrow> 's \<times> event result) \<Rightarrow> ('s \<Rightarrow> event list) \<Rightarrow> executor \<Rightarrow> plan \<Rightarrow> run_id \<Rightarrow> driver \<Rightarrow> turn_env
     \<Rightarrow> 's world \<Rightarrow> progress \<Rightarrow> 's world \<times> progress \<times> verdict" where
  "execute_round put events e p run d env w pr = (case reduce p (events (fst w)) of
     Inl err \<Rightarrow> (w, pr, Return no_state (Some err))
   | Inr state \<Rightarrow>
       if ds_completed state then (w, pr, Return state None)
       else if te_context env \<noteq> None \<and> \<not> ds_cancelled state
       then (case cancel_run put events p run state (the (te_context env)) (fst w) of (s', v) \<Rightarrow> ((s', snd w), pr, v))
       else (case maintenance put (ex_max_attempts e) (operation_index p) run state (te_now env) (fst w) of
           (s', Inl err) \<Rightarrow> ((s', snd w), pr, Return state (Some err))
         | (s', Inr True) \<Rightarrow> ((s', snd w), pr, Continue)
         | (s', Inr False) \<Rightarrow>
             (let tasks = batch_of e p state pr in
              if tasks = []
              then (case idle_turn put (ex_max_attempts e) run state s' of (s2, v) \<Rightarrow> ((s2, snd w), pr, v))
              else busy_turn put e p run d env state tasks (s', snd w) pr)))"

fun execute_rounds ::
  "('s \<Rightarrow> entry \<Rightarrow> 's \<times> event result) \<Rightarrow> ('s \<Rightarrow> event list) \<Rightarrow> executor \<Rightarrow> plan \<Rightarrow> run_id \<Rightarrow> driver \<Rightarrow> turn_env list
     \<Rightarrow> 's world \<Rightarrow> progress \<Rightarrow> 's world \<times> verdict" where
  "execute_rounds put events e p run d [] w pr = (w, Continue)"
| "execute_rounds put events e p run d (env # envs) w pr = (case execute_round put events e p run d env w pr of
     (w', pr', Return state err) \<Rightarrow> (w', Return state err)
   | (w', pr', Continue) \<Rightarrow> execute_rounds put events e p run d envs w' pr')"

section \<open>Execute\<close>

definition execute_error :: "error option option \<Rightarrow> executor \<Rightarrow> plan \<Rightarrow> run_id \<Rightarrow> error option" where
  "execute_error ctx e p run = first_error [
     fail_if (ctx = None) (Errorf ''context must not be nil'' []),
     fail_if (ex_max_concurrency e \<le> 0 \<or> ex_max_attempts e = 0) (Errorf ''executor is not initialized'' []),
     fail_if (\<not> valid_identifier (pl_id p)) (Errorf ''plan is invalid'' []),
     fail_if (\<not> valid_identifier run) (Errorf ''run ID is invalid'' [])]"

definition start_entry :: "run_id \<Rightarrow> plan \<Rightarrow> entry" where
  "start_entry run p = \<lparr>en_run_id = run, en_plan_id = pl_id p, en_type = EventRunStarted, en_operation_id = [],
     en_target_id = [], en_payload = no_payload\<rparr>"

text \<open>The part before the loop: an empty journal is started, any other must be of this run.\<close>

definition open_run ::
  "('s \<Rightarrow> entry \<Rightarrow> 's \<times> event result) \<Rightarrow> ('s \<Rightarrow> event list) \<Rightarrow> plan \<Rightarrow> run_id \<Rightarrow> 's \<Rightarrow> 's \<times> derived_state result" where
  "open_run put events p run s = (case reduce p (events s) of
     Inl err \<Rightarrow> (s, Inl err)
   | Inr state \<Rightarrow>
       if events s = []
       then (case put_entry put s (start_entry run p) of
           (s', Some err) \<Rightarrow> (s', Inl err) | (s', None) \<Rightarrow> (s', reduce p (events s')))
       else if ds_run_id state \<noteq> run then (s, Inl (Errorf ''journal belongs to run %q'' [ds_run_id state]))
       else (s, Inr state))"

definition execute ::
  "('s \<Rightarrow> entry \<Rightarrow> 's \<times> event result) \<Rightarrow> ('s \<Rightarrow> event list) \<Rightarrow> error option option \<Rightarrow> executor \<Rightarrow> plan \<Rightarrow> run_id \<Rightarrow> driver
     \<Rightarrow> turn_env list \<Rightarrow> 's world \<Rightarrow> 's world \<times> verdict" where
  "execute put events ctx e p run d envs w = (case execute_error ctx e p run of
     Some err \<Rightarrow> (w, Return no_state (Some err))
   | None \<Rightarrow> (case open_run put events p run (fst w) of
       (s', Inl err) \<Rightarrow> ((s', snd w), Return no_state (Some err))
     | (s', Inr state) \<Rightarrow>
         if ds_completed state then ((s', snd w), Return state None)
         else execute_rounds put events e p run d envs (s', snd w) \<lparr>pr_reconciled = {}, pr_deferred = {}\<rparr>))"

end
