(* ===== verification/Executor_Round.thy ===== *)
theory Executor_Round
  imports Executor_Execute
begin

text \<open>
  One turn of \<open>Execute\<close> against the reducer: starting a batch, running it, releasing its leases, and the
  passes before it.  Every event a turn appends is accepted, provided that no reconciliation was left open
  and that expiries are observed in time.
\<close>

section \<open>Leases in the journal\<close>

definition leased :: "lease_state \<Rightarrow> mutable_operation \<Rightarrow> bool" where
  "leased l m \<longleftrightarrow> os_lease_active m \<and> os_lease_id m = ls_id l \<and> os_lease_owner m = ls_owner l
     \<and> os_lease_acquired_at m = ls_acquired_at l \<and> os_lease_expires_at m = ls_expires_at l"

lemma leased_lease_only: "lease_only (leased l)"
  by (auto simp: lease_only_def leased_def same_lease_def)

lemma lease_entry_fields [simp]:
  "en_run_id (lease_entry run i tgt t l) = run" "en_type (lease_entry run i tgt t l) = t"
  "en_operation_id (lease_entry run i tgt t l) = i" "en_target_id (lease_entry run i tgt t l) = tgt"
  "pay_lease (en_payload (lease_entry run i tgt t l)) = Some (payload_of l)"
  by (simp_all add: lease_entry_def)

lemma prepare_entry_fields [simp]:
  "en_run_id (prepare_entry run t) = run" "en_operation_id (prepare_entry run t) = op_id (tk_operation t)"
  "en_target_id (prepare_entry run t) = op_target_id (tk_operation t)"
  "en_type (prepare_entry run t) = (if tk_kind t = TaskApply then EventAttemptStarted else EventReconcileStarted)"
  "pay_attempt (en_payload (prepare_entry run t)) = task_attempt t"
  by (simp_all add: prepare_entry_def operation_entry_def task_attempt_def Let_def)

section \<open>The phases of a task\<close>

abbreviation task_id :: "task \<Rightarrow> operation_id" where
  "task_id t \<equiv> op_id (tk_operation t)"

text \<open>A task that \<open>candidates\<close> may return for the state it carries.\<close>

definition ready_task :: "plan \<Rightarrow> bool \<Rightarrow> task \<Rightarrow> bool" where
  "ready_task p may t \<longleftrightarrow> map_of (operation_index p) (task_id t) = Some (tk_operation t) \<and> known p (task_id t)
     \<and> \<not> os_lease_active (tk_state t)
     \<and> (if tk_kind t = TaskApply
        then \<not> may \<and> \<not> os_reconcile_required (tk_state t)
          \<and> (os_state (tk_state t) = StateReady \<or> os_state (tk_state t) = StateBlocked
             \<or> os_state (tk_state t) = StateFailed \<and> os_retryable (tk_state t))
        else os_reconcile_required (tk_state t) \<and> os_state (tk_state t) \<noteq> StatePlanned)"

definition recorded_as :: "operation_state \<Rightarrow> mutable_operation \<Rightarrow> bool" where
  "recorded_as o1 m \<longleftrightarrow> operation_state.truncate m = o1 \<and> \<not> mo_reconciling m"

definition acquired_as :: "lease_state \<Rightarrow> operation_state \<Rightarrow> mutable_operation \<Rightarrow> bool" where
  "acquired_as l o1 m \<longleftrightarrow> (\<exists>n. recorded_as o1 n \<and> m = set_lease (payload_of l) n)"

definition running_task :: "run_id \<Rightarrow> task \<Rightarrow> mutable_operation \<Rightarrow> bool" where
  "running_task run t m \<longleftrightarrow> task_at (tk_kind t) (new_observer run t) m \<and> leased (lease_view (tk_lease t)) m"

lemma recorded_as_fields:
  "recorded_as o1 m \<Longrightarrow> os_state m = os_state o1 \<and> os_attempt m = os_attempt o1 \<and> os_lease_active m = os_lease_active o1
     \<and> os_reconcile_required m = os_reconcile_required o1 \<and> os_retryable m = os_retryable o1 \<and> os_id m = os_id o1
     \<and> os_target_id m = os_target_id o1 \<and> \<not> mo_reconciling m"
  by (auto simp: recorded_as_def operation_state.truncate_def)

lemma set_lease_fields [simp]:
  "os_state (set_lease l m) = os_state m" "os_attempt (set_lease l m) = os_attempt m"
  "os_reconcile_required (set_lease l m) = os_reconcile_required m" "os_retryable (set_lease l m) = os_retryable m"
  "os_target_id (set_lease l m) = os_target_id m" "mo_reconciling (set_lease l m) = mo_reconciling m"
  "mo_side_effecting (set_lease l m) = mo_side_effecting m" "mo_dependencies (set_lease l m) = mo_dependencies m"
  by (simp_all add: set_lease_def)

lemma leased_set_lease: "leased l (set_lease (payload_of l) m)"
  by (simp add: leased_def set_lease_def payload_of_def)

lemma ready_not_planned: "ready_task p may t \<Longrightarrow> os_state (tk_state t) \<noteq> StatePlanned"
  by (auto simp: ready_task_def split: if_splits)

lemma recorded_as_bystander:
  "os_state o1 \<noteq> StatePlanned \<Longrightarrow> recorded_as o1 m \<Longrightarrow> bystander m n \<Longrightarrow> recorded_as o1 n"
  using bystander_busy recorded_as_fields by metis

lemma acquired_as_bystander:
  "os_state o1 \<noteq> StatePlanned \<Longrightarrow> acquired_as l o1 m \<Longrightarrow> bystander m n \<Longrightarrow> acquired_as l o1 n"
  using bystander_busy recorded_as_fields unfolding acquired_as_def by (metis set_lease_fields(1))

lemma running_task_bystander: "running_task run t m \<Longrightarrow> bystander m n \<Longrightarrow> running_task run t n"
  using task_at_stable bystander_same_lease leased_lease_only unfolding running_task_def lease_only_def by blast

lemma new_observer_lease [simp]: "new_observer run (t\<lparr>tk_lease := x\<rparr>) = new_observer run t"
  by (simp add: new_observer_def task_attempt_def)

lemma task_attempt_lease [simp]: "task_attempt (t\<lparr>tk_lease := x\<rparr>) = task_attempt t"
  by (simp add: task_attempt_def)

lemma new_observer_fields [simp]:
  "ob_operation (new_observer run t) = tk_operation t" "ob_run_id (new_observer run t) = run"
  by (simp_all add: new_observer_def)

lemma acquire_leads:
  assumes "ready_task p may t" and "recorded_as (tk_state t) m" and "os_target_id m = op_target_id (tk_operation t)"
  shows "leads_to ops (lease_entry run (task_id t) (op_target_id (tk_operation t)) EventLeaseAcquired l) m
    (acquired_as l (tk_state t))"
proof (rule leads_toI)
  fix e assume "event_entry e = lease_entry run (task_id t) (op_target_id (tk_operation t)) EventLeaseAcquired l"
  note f = event_entry_fields [OF this, simplified]
  note m = recorded_as_fields [OF assms(2)]
  have "\<not> os_lease_active m \<and> (startable m \<or> os_reconcile_required m)"
    using assms(1) m by (auto simp: ready_task_def startable_def split: if_splits)
  then have "operation_step ops e m = Inr (set_lease (payload_of l) m)"
    using f by (auto simp: operation_step_def step_lease_acquired_def with_lease_def)
  with assms(2) show "\<exists>m1. operation_step ops e m = Inr m1 \<and> acquired_as l (tk_state t) m1"
    unfolding acquired_as_def by blast
qed (use assms(3) acquired_as_bystander ready_not_planned [OF assms(1)] in auto)

lemma prepare_leads:
  assumes "ready_task p may t" and "acquired_as (mm_state x) (tk_state t) m" and "op_inv m"
    and "os_target_id m = op_target_id (tk_operation t)" and "mo_side_effecting m = op_side_effecting (tk_operation t)"
    and "tk_kind t = TaskApply \<longrightarrow> dependencies_published m ops"
  shows "leads_to ops (prepare_entry run t) m (running_task run (t\<lparr>tk_lease := Some x\<rparr>))"
proof (rule leads_toI)
  fix e assume "event_entry e = prepare_entry run t"
  note f = event_entry_fields [OF this, simplified]
  obtain n where n: "recorded_as (tk_state t) n" "m = set_lease (payload_of (mm_state x)) n"
    using assms(2) by (auto simp: acquired_as_def)
  note r = recorded_as_fields [OF n(1)]
  have leased: "leased (mm_state x) m" unfolding n(2) by (rule leased_set_lease)
  show "\<exists>m1. operation_step ops e m = Inr m1 \<and> running_task run (t\<lparr>tk_lease := Some x\<rparr>) m1"
  proof (cases "tk_kind t")
    case TaskApply
    have "startable m" "\<not> os_reconcile_required m" "os_attempt m + 1 = task_attempt t"
      using assms(1) TaskApply r n(2) by (auto simp: ready_task_def startable_def task_attempt_def)
    with f TaskApply assms(4-6) leased show ?thesis
      by (auto simp: operation_step_def step_attempt_started_def running_task_def task_at_def new_observer_def
          lease_view_def leased_def)
  next
    case TaskReconcile
    have "os_reconcile_required m" "\<not> mo_reconciling m" "os_attempt m = task_attempt t" "os_state m \<noteq> StatePlanned"
      using assms(1) TaskReconcile r n(2) by (auto simp: ready_task_def task_attempt_def)
    with f TaskReconcile assms(4,5) leased show ?thesis
      by (auto simp: operation_step_def step_reconcile_started_def running_task_def task_at_def new_observer_def
          lease_view_def leased_def)
  qed
qed (use assms(4) running_task_bystander in auto)

section \<open>Ending a lease\<close>

lemma lease_end_leads:
  assumes "leased l m" and "os_target_id m = tgt" and "t = EventLeaseExpired \<or> t = EventLeaseReleased"
    and "Q (m\<lparr>os_lease_active := False\<rparr>)" and "\<And>m n. Q m \<Longrightarrow> bystander m n \<Longrightarrow> Q n"
  shows "leads_to ops (lease_entry run i tgt t l) m Q"
proof (rule leads_toI)
  fix e assume e: "event_entry e = lease_entry run i tgt t l" and time: "timely e"
  note f = event_entry_fields [OF e, simplified]
  have pay: "pay_lease (e_payload e) = Some (payload_of l)" using f by simp
  have "lease_matches m (payload_of l)" using assms(1) by (simp add: lease_matches_def leased_def payload_of_def)
  moreover have "os_lease_expires_at m \<le> e_observed_at e" if "t = EventLeaseExpired"
    using time f pay that assms(1) by (simp add: timely_def leased_def payload_of_def)
  ultimately have "operation_step ops e m = Inr (m\<lparr>os_lease_active := False\<rparr>)"
    using f pay assms(3) by (auto simp: operation_step_def step_lease_expired_def step_lease_released_def with_lease_def)
  with assms(4) show "\<exists>m1. operation_step ops e m = Inr m1 \<and> Q m1" by blast
qed (use assms in auto)

lemma append_lease_cases:
  assumes "append_lease_event put s run op t l = (s', x)"
  obtains "s' = s" "x \<noteq> None" | "put_entry put s (lease_entry run (op_id op) (op_target_id op) t l) = (s', x)"
  using assms by (auto simp: append_lease_event_def split: if_splits)

lemma release_cases:
  assumes "release_lease put s m run op l = (s', m', l', r)"
  obtains "s' = s" "r \<noteq> None"
  | t x where "t = EventLeaseExpired \<or> t = EventLeaseReleased" "x \<noteq> None \<longrightarrow> r \<noteq> None"
      "put_entry put s (lease_entry run (op_id op) (op_target_id op) t (lease_view l)) = (s', x)"
proof -
  obtain m1 l1 e1 where rel: "lease_release m l = (m1, l1, e1)" by (metis prod_cases3)
  consider (kept) "s' = s" "r \<noteq> None"
    | (ended) t x where "t = EventLeaseExpired \<or> t = EventLeaseReleased" "x \<noteq> None \<longrightarrow> r \<noteq> None"
      "append_lease_event put s run op t (lease_view l) = (s', x)"
  proof (cases e1)
    case None
    with assms rel ended [of EventLeaseReleased r] show thesis
      by (auto simp: release_lease_def Let_def split: prod.splits)
  next
    case (Some err)
    show thesis
    proof (cases "errors_is err ErrLeaseExpired")
      case True
      obtain u x where u: "append_lease_event put s run op EventLeaseExpired (lease_view l) = (u, x)" by fastforce
      with assms rel Some True have "s' = u \<and> r \<noteq> None"
        by (auto simp: release_lease_def Let_def split: option.splits)
      with u ended [of EventLeaseExpired x] show thesis by simp
    next
      case False
      with assms rel Some kept show thesis by (auto simp: release_lease_def Let_def)
    qed
  qed
  then show thesis
  proof cases
    case (ended t x)
    from ended(3) show thesis
      by (cases rule: append_lease_cases) (use ended that in auto)
  qed (rule that(1))
qed

context event_log
begin

lemma release_holds:
  assumes "sound s" and "plan_wf p" and op: "map_of (operation_index p) (op_id op) = Some op" "known p (op_id op)"
    and A: "holds p run may A (events s)" "stable A" "\<And>m. A (op_id op) m \<Longrightarrow> leased (lease_view l) m"
    and Q: "\<And>m. A (op_id op) m \<Longrightarrow> Q (m\<lparr>os_lease_active := False\<rparr>)" "\<And>m n. Q m \<Longrightarrow> bystander m n \<Longrightarrow> Q n"
    and release: "release_lease put s ml run op l = (s', ml', l', r)"
  shows "sound s' \<and> holds p run may (A(op_id op := if r = None then Q else (\<lambda>_. True))) (events s')"
  using release
proof (cases rule: release_cases)
  case 1
  with assms(1) A(1) show ?thesis by (auto intro: holds_mono)
next
  case (2 t x)
  have "sound s' \<and> holds p run may (if x = None then A(op_id op := Q) else A) (events s')"
  proof (rule put_holds [OF assms(1) A(1,2) _ _ _ op(2) _ _ 2(3)])
    fix rd m
    assume live: "live_run p run (events s) rd" and m: "map_of (rd_operations rd) (op_id op) = Some m" and Am: "A (op_id op) m"
    have "reduces p (events s) rd" using live by (simp add: live_run_def)
    from operation_index_static(1) [OF assms(2) this m op(1)] have "os_target_id m = op_target_id op" .
    then show "leads_to (rd_operations rd) (lease_entry run (op_id op) (op_target_id op) t (lease_view l)) m Q"
      using A(3) [OF Am] 2(1) Q(1) [OF Am] Q(2) by (intro lease_end_leads)
  qed (use 2(1) in \<open>auto simp: is_run_event_def\<close>)
  with 2(2) show ?thesis by (auto split: if_splits intro: holds_mono)
qed

end

section \<open>Starting a task\<close>

lemma acquire_grants:
  assumes "acquire (Some ctx) \<lparr>lr_key = k, lr_operation_id = i\<rparr> (Some m) = (m', Inr l)"
  shows "ls_operation_id (mm_state l) = i"
proof -
  obtain m2 where m2: "m' = Some m2" using acquire_manager [of "Some ctx" _ m] assms by (metis prod.inject)
  obtain m0 now where "acquire_at now \<lparr>lr_key = k, lr_operation_id = i\<rparr> m0 = (m2, Inr l)"
    by (rule acquire_step [OF assms [unfolded m2]]) auto
  from acquire_at_Inr [OF this] have "mm_state l = \<lparr>ls_id = ls_id (mm_state l), ls_owner = ml_owner m0, ls_operation_id = i,
      ls_acquired_at = now, ls_expires_at = now + ml_ttl m0\<rparr>" by simp
  from arg_cong [OF this, of ls_operation_id] show ?thesis by simp
qed

lemma ready_known: "ready_task p may t \<Longrightarrow> known p (task_id t)"
  by (simp add: ready_task_def)

lemma ready_index: "ready_task p may t \<Longrightarrow> map_of (operation_index p) (task_id t) = Some (tk_operation t)"
  by (simp add: ready_task_def)

context event_log
begin

lemma acquired_holds:
  assumes "sound s" and "plan_wf p" and "ready_task p may t" and A: "holds p run may A (events s)" "stable A"
    and rec: "\<And>m. A (task_id t) m \<Longrightarrow> recorded_as (tk_state t) m"
    and put: "put_entry put s (lease_entry run (task_id t) (op_target_id (tk_operation t)) EventLeaseAcquired l) = (s', r)"
  shows "sound s' \<and> holds p run may (if r = None then A(task_id t := acquired_as l (tk_state t)) else A) (events s')"
proof (rule put_holds [OF assms(1) A _ _ _ ready_known [OF assms(3)] _ _ put])
  fix rd m
  assume live: "live_run p run (events s) rd" and m: "map_of (rd_operations rd) (task_id t) = Some m" and Am: "A (task_id t) m"
  have "reduces p (events s) rd" using live by (simp add: live_run_def)
  from operation_index_static(1) [OF assms(2) this m ready_index [OF assms(3)]] acquire_leads [OF assms(3) rec [OF Am]]
  show "leads_to (rd_operations rd) (lease_entry run (task_id t) (op_target_id (tk_operation t)) EventLeaseAcquired l) m
    (acquired_as l (tk_state t))" by blast
qed (auto simp: is_run_event_def)

lemma prepared_holds:
  assumes "sound s" and "plan_wf p" and "ready_task p may t" and A: "holds p run may A (events s)" "stable A"
    and acq: "\<And>m. A (task_id t) m \<Longrightarrow> acquired_as (mm_state x) (tk_state t) m"
    and put: "prepare_task put s run t = (s', r)"
  shows "sound s' \<and> holds p run may (if r = None then A(task_id t := running_task run (t\<lparr>tk_lease := Some x\<rparr>)) else A) (events s')"
proof (rule put_holds [OF assms(1) A _ _ _ ready_known [OF assms(3)] _ _ put [unfolded prepare_task_def]])
  fix rd m
  assume live: "live_run p run (events s) rd" and m: "map_of (rd_operations rd) (task_id t) = Some m" and inv: "op_inv m"
    and Am: "A (task_id t) m"
  have red: "reduces p (events s) rd" using live by (simp add: live_run_def)
  note static = operation_index_static [OF assms(2) red m ready_index [OF assms(3)]]
  have "dependencies_published m (rd_operations rd)" if "tk_kind t = TaskApply"
  proof -
    obtain n where n: "recorded_as (tk_state t) n" "m = set_lease (payload_of (mm_state x)) n"
      using acq [OF Am] by (auto simp: acquired_as_def)
    have "\<not> waiting_state (os_state m)"
      using assms(3) that recorded_as_fields [OF n(1)] n(2) by (auto simp: ready_task_def waiting_state_def)
    from dependencies_invariant [OF red m this] show ?thesis by (simp add: dependencies_published_iff)
  qed
  then show "leads_to (rd_operations rd) (prepare_entry run t) m (running_task run (t\<lparr>tk_lease := Some x\<rparr>))"
    using prepare_leads [OF assms(3) acq [OF Am] inv static(1,2)] by blast
next
  show "may \<longrightarrow> allowed_after_run_cancellation (en_type (prepare_entry run t))"
    using assms(3) by (auto simp: ready_task_def)
qed (auto simp: is_run_event_def)

text \<open>What a start leaves behind, whatever it returned.\<close>

definition start_left :: "plan \<Rightarrow> run_id \<Rightarrow> bool \<Rightarrow> assertion \<Rightarrow> task \<Rightarrow> 's \<Rightarrow> 's \<Rightarrow> start \<Rightarrow> bool" where
  "start_left p run may A t s s' st \<longleftrightarrow> (case st of
     LeaseBlocked \<Rightarrow> s' = s
   | StartFailed _ \<Rightarrow> holds p run may (\<lambda>_ _. True) (events s')
   | Started t' \<Rightarrow> tk_kind t' = tk_kind t \<and> tk_operation t' = tk_operation t
       \<and> holds p run may (A(task_id t := running_task run t')) (events s'))"

lemma start_holds:
  assumes "sound s" and "plan_wf p" and "ready_task p may t" and A: "holds p run may A (events s)" "stable A"
    and rec: "\<And>m. A (task_id t) m \<Longrightarrow> recorded_as (tk_state t) m"
    and start: "start_candidate put ctx pid run t (s, ml) = ((s', ml'), st)"
  shows "sound s' \<and> start_left p run may A t s s' st"
proof -
  let ?req = "\<lparr>lr_key = lease_key pid (task_id t), lr_operation_id = task_id t\<rparr>"
  obtain m1 r where acq: "acquire (Some ctx) ?req (Some ml) = (m1, r)" by fastforce
  show ?thesis
  proof (cases r)
    case (Inl err)
    with start acq assms(1) A(1) show ?thesis
      by (auto simp: start_candidate_def start_left_def intro: holds_mono split: if_splits)
  next
    case (Inr l)
    let ?en = "lease_entry run (task_id t) (op_target_id (tk_operation t)) EventLeaseAcquired (mm_state l)"
    have journal: "journal_lease put run t l s = put_entry put s ?en"
      using assms(3) acquire_grants [OF acq [unfolded Inr]]
      by (simp add: journal_lease_def append_lease_event_def ready_task_def split: option.splits)
    obtain s1 x where x: "put_entry put s ?en = (s1, x)" by fastforce
    note got = acquired_holds [OF assms(1-3) A rec x]
    show ?thesis
    proof (cases x)
      case (Some err)
      with start acq Inr journal x got show ?thesis
        by (auto simp: start_candidate_def start_left_def intro: holds_mono)
    next
      case None
      let ?B = "A(task_id t := acquired_as (mm_state l) (tk_state t))"
      have B: "sound s1" "holds p run may ?B (events s1)" using got None by simp_all
      have stB: "stable ?B"
        by (rule stable_update [OF A(2)]) (use acquired_as_bystander ready_not_planned [OF assms(3)] in blast)
      obtain s2 y where y: "prepare_task put s1 run t = (s2, y)" by fastforce
      have prep: "sound s2 \<and> holds p run may
          (if y = None then ?B(task_id t := running_task run (t\<lparr>tk_lease := Some l\<rparr>)) else ?B) (events s2)"
        by (rule prepared_holds [OF B(1) assms(2,3) B(2) stB _ y]) simp
      show ?thesis
      proof (cases y)
        case None
        with start acq Inr journal x \<open>x = None\<close> y have "s' = s2" "st = Started (t\<lparr>tk_lease := Some l\<rparr>)"
          by (auto simp: start_candidate_def)
        with prep None show ?thesis by (simp add: start_left_def)
      next
        case (Some err)
        obtain s3 m3 l3 z where z: "release_lease put s2 (Some (leases_of ml m1)) run (tk_operation t) (Some l) = (s3, m3, l3, z)"
          by (metis prod_cases4)
        have leased: "leased (lease_view (Some l)) m" if "?B (task_id t) m" for m
          using that leased_set_lease by (auto simp: acquired_as_def lease_view_def)
        from prep Some have "sound s2" "holds p run may ?B (events s2)" by simp_all
        from release_holds [OF this(1) assms(2) ready_index [OF assms(3)] ready_known [OF assms(3)] this(2) stB leased _ _ z,
            of "\<lambda>_. True"]
        have "sound s3 \<and> holds p run may (\<lambda>_ _. True) (events s3)" by (auto intro: holds_mono)
        with start acq Inr journal x None y Some z show ?thesis
          by (auto simp: start_candidate_def start_left_def drop_started_def)
      qed
    qed
  qed
qed

end

text \<open>The tasks of a batch that have been started; of every other operation still what \<open>A\<close> says.\<close>

definition started :: "run_id \<Rightarrow> task list \<Rightarrow> assertion \<Rightarrow> assertion" where
  "started run ts A i m \<longleftrightarrow>
     (if i \<in> task_id ` set ts then \<forall>t \<in> set ts. task_id t = i \<longrightarrow> running_task run t m else A i m)"

lemma started_Cons:
  assumes "started run ts (A(task_id t := running_task run t)) i m" and "task_id t \<notin> task_id ` set ts"
  shows "started run (t # ts) A i m"
proof (cases "i = task_id t")
  case True
  with assms have "running_task run t m" by (simp add: started_def)
  moreover have "\<forall>u \<in> set ts. task_id u \<noteq> i" using assms(2) True by (metis imageI)
  ultimately have "running_task run t m" "\<forall>u \<in> set ts. task_id u \<noteq> i" by blast+
  with True show ?thesis by (simp add: started_def)
next
  case False
  with assms(1) show ?thesis by (auto simp: started_def split: if_splits)
qed

lemma started_stable: "stable A \<Longrightarrow> stable (started run ts A)"
  by (auto simp: stable_def started_def intro: running_task_bystander)

context event_log
begin

lemma start_batch_holds:
  assumes "sound s" and "plan_wf p" and "\<forall>t \<in> fst ` set ts. ready_task p may t"
    and "\<forall>t \<in> fst ` set ts. \<forall>m. A (task_id t) m \<longrightarrow> recorded_as (tk_state t) m"
    and "distinct (map (task_id \<circ> fst) ts)" and "holds p run may A (events s)" and "stable A"
    and "start_batch put pid run ts (s, ml) = ((s', ml'), prepared, blocked, err)"
  shows "sound s' \<and> (if err = None
    then distinct (map task_id prepared)
      \<and> (\<forall>t \<in> set prepared. \<exists>t0 \<in> fst ` set ts. tk_kind t = tk_kind t0 \<and> tk_operation t = tk_operation t0)
      \<and> holds p run may (started run prepared A) (events s')
    else holds p run may (\<lambda>_ _. True) (events s'))"
  using assms
proof (induction ts arbitrary: s ml A s' ml' prepared blocked err)
  case Nil
  then show ?case by (auto simp: started_def [abs_def])
next
  case (Cons x ts)
  obtain t tn where x: "x = (t, tn)" by fastforce
  have ready: "ready_task p may t" and rec: "\<And>m. A (task_id t) m \<Longrightarrow> recorded_as (tk_state t) m"
    and fresh: "task_id t \<notin> task_id ` fst ` set ts" "distinct (map (task_id \<circ> fst) ts)"
    using Cons.prems(3-5) by (auto simp: x comp_def image_image)
  show ?case
  proof (cases "waits t \<and> tn_wait tn \<noteq> None")
    case True
    with Cons.prems show ?thesis by (auto simp: x started_def [abs_def])
  next
    case False
    obtain s1 m1 st where st: "start_candidate put (tn_acquire tn) pid run t (s, ml) = ((s1, m1), st)" by (metis prod.exhaust)
    note left = start_holds [OF Cons.prems(1,2) ready Cons.prems(6,7) rec st]
    obtain s2 m2 ts2 b2 e2 where rest: "start_batch put pid run ts (s1, m1) = ((s2, m2), ts2, b2, e2)" by (metis prod.exhaust)
    note IH = Cons.IH [OF _ Cons.prems(2) _ _ fresh(2) _ _ rest]
    show ?thesis
    proof (cases st)
      case (StartFailed e)
      with Cons.prems(8) False left st show ?thesis by (auto simp: x start_left_def)
    next
      case LeaseBlocked
      with left have "s1 = s" by (simp add: start_left_def)
      with Cons.prems left have "sound s2 \<and> (if e2 = None
        then distinct (map task_id ts2)
          \<and> (\<forall>t \<in> set ts2. \<exists>t0 \<in> fst ` set ts. tk_kind t = tk_kind t0 \<and> tk_operation t = tk_operation t0)
          \<and> holds p run may (started run ts2 A) (events s2)
        else holds p run may (\<lambda>_ _. True) (events s2))" by (intro IH) auto
      with Cons.prems(8) False st rest LeaseBlocked show ?thesis by (auto simp: x split: if_splits)
    next
      case (Started t')
      let ?B = "A(task_id t := running_task run t')"
      have t': "tk_kind t' = tk_kind t" "tk_operation t' = tk_operation t" "holds p run may ?B (events s1)" "sound s1"
        using left Started by (simp_all add: start_left_def)
      have stB: "stable ?B" by (rule stable_update [OF Cons.prems(7)]) (rule running_task_bystander)
      have others: "\<forall>t0 \<in> fst ` set ts. \<forall>m. ?B (task_id t0) m \<longrightarrow> recorded_as (tk_state t0) m"
      proof
        fix t0 assume t0: "t0 \<in> fst ` set ts"
        then have "task_id t0 \<noteq> task_id t" using fresh(1) by (metis imageI)
        with t0 Cons.prems(4) show "\<forall>m. ?B (task_id t0) m \<longrightarrow> recorded_as (tk_state t0) m" by (auto simp: x)
      qed
      have tail: "sound s2 \<and> (if e2 = None
        then distinct (map task_id ts2)
          \<and> (\<forall>t \<in> set ts2. \<exists>t0 \<in> fst ` set ts. tk_kind t = tk_kind t0 \<and> tk_operation t = tk_operation t0)
          \<and> holds p run may (started run ts2 ?B) (events s2)
        else holds p run may (\<lambda>_ _. True) (events s2))"
        by (rule IH [OF t'(4) _ others t'(3) stB]) (use Cons.prems(3) in \<open>auto simp: x\<close>)
      have out: "s' = s2" "prepared = t' # ts2" "err = e2" if "e2 = None \<or> err \<noteq> None"
        using Cons.prems(8) False st rest Started by (auto simp: x)
      show ?thesis
      proof (cases e2)
        case (Some e)
        with Cons.prems(8) False st rest Started tail show ?thesis by (auto simp: x)
      next
        case None
        have notin: "task_id t \<notin> task_id ` set ts2"
          using tail None fresh(1) by force
        have "holds p run may (started run (t' # ts2) A) (events s2)"
        proof (rule holds_mono)
          have same: "task_id t' = task_id t" using t'(2) by simp
          show "holds p run may (started run ts2 ?B) (events s2)" using tail None by simp
          show "started run (t' # ts2) A i m" if "started run ts2 ?B i m" for i m
            by (rule started_Cons) (use that notin same in simp_all)
        qed
        with tail None out notin t'(1,2) show ?thesis by (auto simp: x)
      qed
    qed
  qed
qed

section \<open>Running the batch\<close>

lemma finish_holds:
  assumes "sound s" and "plan_wf p" and "driver_contract d"
    and op: "map_of (operation_index p) (task_id t) = Some (tk_operation t)" "known p (task_id t)"
    and kind: "may \<longrightarrow> tk_kind t = TaskReconcile"
    and B: "holds p run may B (events s)" "stable B" "\<And>m. B (task_id t) m \<Longrightarrow> running_task run t m"
    and finish: "finish_task put cx pid run d t (s, ml) = ((s', ml'), oc)"
  shows "sound s' \<and> holds p run may
    (B(task_id t := if oc_error oc = None then (\<lambda>m. \<not> mo_reconciling m) else (\<lambda>_. True))) (events s')"
proof -
  let ?l = "lease_view (tk_lease t)" and ?ob = "new_observer run t"
  let ?A = "B(task_id t := leased ?l)"
  have lease: "leased ?l m \<Longrightarrow> bystander m n \<Longrightarrow> leased ?l n" for m n
    using leased_lease_only bystander_same_lease unfolding lease_only_def by blast
  have stA: "stable ?A" by (rule stable_update [OF B(2)]) (rule lease)
  have step: "in_step_with p may ?A (tk_kind t) ?ob (events s)"
    using kind stA op(2) B(1,3) leased_lease_only
    by (auto simp: in_step_with_def running_task_def elim!: holds_mono)
  obtain s1 oc1 where run: "run_task put cx pid run d t s = (s1, oc1)" by fastforce
  from run_task_done [OF assms(1) step assms(3) run] have s1: "sound s1"
    and out: "task_done p may ?A (tk_kind t) ?ob (events s1) (oc_error oc1)" by blast+
  obtain m2 l2 r where release: "release_lease put s1 (Some ml) run (tk_operation t) (tk_lease t) = (s', m2, l2, r)"
    and oc: "oc = oc1\<lparr>oc_error := (if oc_error oc1 = None then r else oc_error oc1)\<rparr>"
    using finish run by (auto simp: finish_task_def split: prod.splits)
  have ended: "sound s' \<and> holds p run may (C(task_id t := if r = None then Q else (\<lambda>_. True))) (events s')"
    if "holds p run may C (events s1)" "stable C" "\<And>m. C (task_id t) m \<Longrightarrow> leased ?l m"
      "\<And>m. C (task_id t) m \<Longrightarrow> Q (m\<lparr>os_lease_active := False\<rparr>)" "\<And>m n. Q m \<Longrightarrow> bystander m n \<Longrightarrow> Q n" for C Q
    by (rule release_holds [OF s1 assms(2) op that(1,2) _ _ _ release]) (use that in blast)+
  from out consider (recorded) "holds p run may (?A(task_id t := \<lambda>m. recorded_outcome m \<and> leased ?l m)) (events s1)"
    | (failed) ob' where "oc_error oc1 \<noteq> None" "same_task ?ob ob'" "in_step_with p may ?A (tk_kind t) ob' (events s1)"
    by (auto simp: task_done_def)
  then show ?thesis
  proof cases
    case recorded
    let ?C = "?A(task_id t := \<lambda>m. recorded_outcome m \<and> leased ?l m)"
    have stC: "stable ?C" by (rule stable_update [OF stA]) (use recorded_bystander lease in blast)
    have end_rec: "sound s' \<and> holds p run may (?C(task_id t := if r = None then recorded_outcome else (\<lambda>_. True))) (events s')"
      by (rule ended [OF recorded stC]) (auto simp: recorded_outcome_def bystander_def)
    have "(B(task_id t := if oc_error oc = None then (\<lambda>m. \<not> mo_reconciling m) else (\<lambda>_. True))) i m"
      if "(?C(task_id t := if r = None then recorded_outcome else (\<lambda>_. True))) i m" for i m
      using that by (cases "i = task_id t") (auto simp: oc recorded_outcome_def split: if_splits)
    with end_rec holds_mono show ?thesis by blast
  next
    case (failed ob')
    let ?C = "?A(task_id t := \<lambda>m. task_at (tk_kind t) ob' m \<and> leased ?l m)"
    have "holds p run may ?C (events s1)" using failed(2,3) by (simp add: in_step_with_def same_task_def)
    moreover have "stable ?C" by (rule stable_update [OF stA]) (use task_at_stable lease in blast)
    ultimately have end_any: "sound s' \<and> holds p run may (?C(task_id t := if r = None then (\<lambda>_. True) else (\<lambda>_. True))) (events s')"
      by (rule ended) auto
    have "(B(task_id t := if oc_error oc = None then (\<lambda>m. \<not> mo_reconciling m) else (\<lambda>_. True))) i m"
      if "(?C(task_id t := if r = None then (\<lambda>_. True) else (\<lambda>_. True))) i m" for i m
      using that failed(1) by (cases "i = task_id t") (auto simp: oc split: if_splits)
    with end_any holds_mono show ?thesis by blast
  qed
qed

text \<open>What a batch leaves: a task without an error left no reconciliation open.\<close>

lemma run_batch_holds:
  assumes "sound s" and "plan_wf p" and "driver_contract d" and "distinct (map (task_id \<circ> fst) ts)"
    and "\<forall>t \<in> fst ` set ts. map_of (operation_index p) (task_id t) = Some (tk_operation t) \<and> known p (task_id t)
      \<and> (may \<longrightarrow> tk_kind t = TaskReconcile) \<and> (\<forall>m. B (task_id t) m \<longrightarrow> running_task run t m)"
    and "holds p run may B (events s)" and "stable B" and "run_batch put pid run d ts (s, ml) = ((s', ml'), ocs)"
  shows "sound s' \<and> holds p run may (\<lambda>i m. if i \<in> task_id ` fst ` set ts
      then (\<forall>oc \<in> set ocs. oc_error oc = None) \<longrightarrow> \<not> mo_reconciling m else B i m) (events s')"
  using assms
proof (induction ts arbitrary: s ml B ocs)
  case Nil
  then show ?case by (auto elim!: holds_mono)
next
  case (Cons x ts)
  obtain t cx where x: "x = (t, cx)" by fastforce
  obtain s1 m1 oc where fin: "finish_task put cx pid run d t (s, ml) = ((s1, m1), oc)" by (metis prod.exhaust)
  let ?Q = "if oc_error oc = None then (\<lambda>m. \<not> mo_reconciling m) else (\<lambda>_. True)"
  let ?C = "B(task_id t := ?Q)"
  have ok: "map_of (operation_index p) (task_id t) = Some (tk_operation t)" "known p (task_id t)"
    "may \<longrightarrow> tk_kind t = TaskReconcile" "\<And>m. B (task_id t) m \<Longrightarrow> running_task run t m"
    using Cons.prems(5) by (auto simp: x)
  from finish_holds [OF Cons.prems(1-3) ok(1-3) Cons.prems(6,7) ok(4) fin]
  have one: "sound s1" "holds p run may ?C (events s1)" by blast+
  have stC: "stable ?C" by (rule stable_update [OF Cons.prems(7)]) (auto simp: bystander_def)
  obtain rest where rest: "run_batch put pid run d ts (s1, m1) = ((s', ml'), rest)" "ocs = oc # rest"
    using Cons.prems(8) fin by (auto simp: x split: prod.splits)
  have fresh: "task_id t \<notin> task_id ` fst ` set ts" "distinct (map (task_id \<circ> fst) ts)"
    using Cons.prems(4) by (auto simp: x comp_def image_image)
  have keep: "\<forall>t0 \<in> fst ` set ts. map_of (operation_index p) (task_id t0) = Some (tk_operation t0) \<and> known p (task_id t0)
      \<and> (may \<longrightarrow> tk_kind t0 = TaskReconcile) \<and> (\<forall>m. ?C (task_id t0) m \<longrightarrow> running_task run t0 m)"
  proof
    fix t0 assume t0: "t0 \<in> fst ` set ts"
    then have "task_id t0 \<noteq> task_id t" using fresh(1) by (metis imageI)
    then have "?C (task_id t0) = B (task_id t0)" by simp
    moreover have "t0 \<in> fst ` set (x # ts)" using t0 by simp
    ultimately show "map_of (operation_index p) (task_id t0) = Some (tk_operation t0) \<and> known p (task_id t0)
      \<and> (may \<longrightarrow> tk_kind t0 = TaskReconcile) \<and> (\<forall>m. ?C (task_id t0) m \<longrightarrow> running_task run t0 m)"
      using Cons.prems(5) by metis
  qed
  from Cons.IH [OF one(1) Cons.prems(2,3) fresh(2) keep one(2) stC rest(1)]
  have two: "sound s' \<and> holds p run may (\<lambda>i m. if i \<in> task_id ` fst ` set ts
      then (\<forall>oc \<in> set rest. oc_error oc = None) \<longrightarrow> \<not> mo_reconciling m else ?C i m) (events s')" .
  have weaken: "if i \<in> task_id ` fst ` set (x # ts) then (\<forall>oc \<in> set ocs. oc_error oc = None) \<longrightarrow> \<not> mo_reconciling m else B i m"
    if "if i \<in> task_id ` fst ` set ts then (\<forall>oc \<in> set rest. oc_error oc = None) \<longrightarrow> \<not> mo_reconciling m else ?C i m" for i m
    using that rest(2) by (cases "i = task_id t") (auto simp: x split: if_splits)
  from two have "holds p run may (\<lambda>i m. if i \<in> task_id ` fst ` set ts
      then (\<forall>oc \<in> set rest. oc_error oc = None) \<longrightarrow> \<not> mo_reconciling m else ?C i m) (events s')" ..
  from holds_mono [OF this weaken] two show ?case by simp
qed

end

end
