(* ===== verification/Executor_Kept.thy ===== *)
theory Executor_Kept
  imports Executor_Round
begin

text \<open>
  The loop invariant of \<open>Execute\<close>: the journal is accepted, belongs to the run, and is either complete or
  has no reconciliation open.  Every turn that ends with \<open>Continue\<close> keeps it, and every turn leaves an
  accepted journal.
\<close>

section \<open>The invariant\<close>

definition calm :: assertion where
  "calm i m \<longleftrightarrow> \<not> mo_reconciling m"

definition all_timely :: "event list \<Rightarrow> bool" where
  "all_timely evs \<longleftrightarrow> (\<forall>e \<in> set evs. timely e)"

definition accepted :: "plan \<Rightarrow> event list \<Rightarrow> bool" where
  "accepted p evs \<longleftrightarrow> (all_timely evs \<longrightarrow> (\<exists>rd. reduces p evs rd))"

definition kept :: "plan \<Rightarrow> run_id \<Rightarrow> event list \<Rightarrow> bool" where
  "kept p run evs \<longleftrightarrow> (all_timely evs \<longrightarrow> (\<exists>rd. reduces p evs rd \<and> rd_started rd \<and> rd_run_id rd = run
     \<and> (rd_completed rd \<or> (\<forall>i m. map_of (rd_operations rd) i = Some m \<longrightarrow> calm i m))))"

definition progressed :: "plan \<Rightarrow> reducer \<Rightarrow> event list \<Rightarrow> bool" where
  "progressed p rd evs \<longleftrightarrow> (all_timely evs \<longrightarrow> (\<exists>rd'. reduces p evs rd'
     \<and> backlog (map snd (rd_operations rd')) < backlog (map snd (rd_operations rd))))"

lemma kept_accepted: "kept p run evs \<Longrightarrow> accepted p evs"
  by (auto simp: kept_def accepted_def)

lemma holds_calm_kept: "holds p run may calm evs \<Longrightarrow> kept p run evs"
  by (auto simp: holds_def kept_def all_timely_def live_run_def)

lemma holds_accepted: "holds p run may A evs \<Longrightarrow> accepted p evs"
  by (auto simp: holds_def accepted_def all_timely_def live_run_def)

lemma kept_holds:
  assumes "kept p run evs" and "reduces p evs rd" and "\<not> rd_completed rd"
    and "\<And>i m. map_of (rd_operations rd) i = Some m \<Longrightarrow> calm i m \<Longrightarrow> A i m"
  shows "holds p run (rd_cancelled rd) A evs"
  using assms by (fastforce simp: kept_def holds_def all_timely_def live_run_def)

lemma calm_stable: "stable calm"
  by (auto simp: stable_def calm_def bystander_def)

lemma known_of: "reduces p evs rd \<Longrightarrow> map_of (rd_operations rd) i = Some m \<Longrightarrow> known p i"
  using reduces_keys [of p evs rd] unfolding known_def by (metis domI dom_map_of_conv_image_fst list.set_map)

section \<open>Candidates are ready tasks\<close>

lemma candidate_Some:
  assumes "candidate ma ro ops rec def c o1 = Some t"
  shows "map_of ops (os_id o1) = Some (tk_operation t) \<and> tk_state t = o1 \<and> \<not> os_lease_active o1
    \<and> (if tk_kind t = TaskApply then \<not> c \<and> \<not> ro \<and> \<not> os_reconcile_required o1
         \<and> (os_state o1 = StateReady \<or> os_state o1 = StateBlocked
            \<or> os_state o1 = StateFailed \<and> os_retryable o1 \<and> budget_left ma o1)
       else os_reconcile_required o1 \<and> (os_id o1, os_attempt o1) \<notin> rec \<and> (os_id o1, os_attempt o1) \<notin> def)"
  using assms by (auto simp: candidate_def new_task_def Let_def split: option.splits if_splits)

lemma batch_ofE:
  assumes "t \<in> set (batch_of e p state pr)"
  obtains t0 o1 where "o1 \<in> set (ds_operations state)" "t = with_requirements p t0"
    "candidate (ex_max_attempts e) (ex_reconcile_only e) (operation_index p) (pr_reconciled pr) (pr_deferred pr)
      (ds_cancelled state) o1 = Some t0"
  using assms by (auto simp: batch_of_def candidates_def set_map_filter)

lemma with_requirements_fields [simp]:
  "tk_kind (with_requirements p t) = tk_kind t" "tk_operation (with_requirements p t) = tk_operation t"
  "tk_state (with_requirements p t) = tk_state t"
  by (simp_all add: with_requirements_def)

lemma batch_ready:
  assumes "plan_wf p" and "reduces p evs rd" and "t \<in> set (batch_of e p (derived_of p rd) pr)"
  obtains m where "map_of (rd_operations rd) (task_id t) = Some m" "tk_state t = operation_state.truncate m"
    "ready_task p (rd_cancelled rd) t"
proof -
  have dist: "distinct (map op_id (pl_operations p))" using assms(1) by (simp add: plan_wf_def)
  from assms(3) obtain t0 o1 where o1: "o1 \<in> set (ds_operations (derived_of p rd))" and t: "t = with_requirements p t0"
    and cand: "candidate (ex_max_attempts e) (ex_reconcile_only e) (operation_index p) (pr_reconciled pr) (pr_deferred pr)
      (ds_cancelled (derived_of p rd)) o1 = Some t0" by (rule batch_ofE)
  obtain m where m: "map_of (rd_operations rd) (os_id o1) = Some m" "o1 = operation_state.truncate m"
    by (rule ds_operationsE [OF assms(2) o1])
  note c = candidate_Some [OF cand]
  have id: "task_id t = os_id o1" using operation_index_at(2) [OF dist] c by (simp add: t)
  have "os_reconcile_required o1 \<Longrightarrow> os_state o1 \<noteq> StatePlanned"
    using reduces_op_inv [OF assms(2) m(1)] m(2) by (auto simp: op_inv_def)
  then have "ready_task p (rd_cancelled rd) t"
    using c id known_of [OF assms(2) m(1)] by (auto simp: ready_task_def t derived_of_def split: if_splits)
  with that m id c show thesis by (simp add: t)
qed

lemma batch_distinct:
  assumes "plan_wf p" and "reduces p evs rd"
  shows "distinct (map task_id (batch_of e p (derived_of p rd) pr))"
proof -
  have dist: "distinct (map op_id (pl_operations p))" using assms(1) by (simp add: plan_wf_def)
  let ?g = "candidate (ex_max_attempts e) (ex_reconcile_only e) (operation_index p) (pr_reconciled pr) (pr_deferred pr)
      (ds_cancelled (derived_of p rd))"
  have "distinct (map task_id (List.map_filter ?g (ds_operations (derived_of p rd))))"
    by (rule distinct_map_filter_ids [OF ds_operations_distinct [OF assms(2)]])
      (use operation_index_at(2) [OF dist] candidate_Some in blast)
  then have "distinct (map task_id (sort_key task_rank (List.map_filter ?g (ds_operations (derived_of p rd)))))"
    by (simp add: distinct_map)
  then show ?thesis by (simp add: batch_of_def candidates_def comp_def)
qed

section \<open>The passes\<close>

lemma reconciling_after_append:
  "\<forall>e \<in> set new. e_type e \<noteq> EventReconcileStarted \<Longrightarrow> reconciling_after i (evs @ new) \<Longrightarrow> reconciling_after i evs"
proof (induction new rule: rev_induct)
  case (snoc e new)
  have "reconciling_after i ((evs @ new) @ [e])" using snoc.prems(2) by simp
  then have "reconciling_after i (evs @ new)" using snoc.prems(1) unfolding reconciling_after_snoc by (simp split: if_splits)
  with snoc show ?case by simp
qed simp

lemma calm_extends:
  assumes red: "reduces p evs rd" and calm: "\<forall>i m. map_of (rd_operations rd) i = Some m \<longrightarrow> calm i m"
    and red': "reduces p (evs @ new) rd'" and types: "\<forall>e \<in> set new. e_type e \<noteq> EventReconcileStarted"
  shows "\<forall>i m. map_of (rd_operations rd') i = Some m \<longrightarrow> calm i m"
proof (intro allI impI)
  fix i m assume m: "map_of (rd_operations rd') i = Some m"
  have "i \<in> fst ` set (rd_operations rd)"
    using m reduces_keys [OF red] reduces_keys [OF red'] by (metis domI dom_map_of_conv_image_fst list.set_map)
  then obtain n where n: "map_of (rd_operations rd) i = Some n" by (metis map_of_eq_None_iff not_Some_eq)
  have "reconciling_after i (evs @ new) \<Longrightarrow> reconciling_after i evs" by (rule reconciling_after_append [OF types])
  moreover have "\<not> reconciling_after i evs"
    using calm n reconciling_iff [OF red n] unfolding calm_def by blast
  ultimately show "calm i m" using reconciling_iff [OF red' m] unfolding calm_def by blast
qed

context event_log
begin

lemma pass_kept:
  assumes "sound s" and "kept p run (events s)" and red: "reduces p (events s) rd" and "\<not> rd_completed rd"
    and batch: "live_run p run (events s) rd \<Longrightarrow> batch_ok timely run rd ens"
    and types: "\<forall>en \<in> set ens. en_type en \<noteq> EventReconcileStarted"
    and pass: "run_pass put s ens = (s', r)"
  shows "sound s' \<and> kept p run (events s')
    \<and> (r = Inr False \<longrightarrow> s' = s) \<and> (r = Inr True \<longrightarrow> progressed p rd (events s'))"
proof -
  obtain x where x: "append_each put s ens = (s', x)" "r = (case x of None \<Rightarrow> Inr (ens \<noteq> []) | Some err \<Rightarrow> Inl err)"
    using pass by (auto simp: run_pass_def split: prod.splits option.splits)
  have same: "s' = s" if "r = Inr False" using x that by (auto split: option.splits)
  obtain new where new: "events s' = events s @ new" "map event_entry new = take (length new) ens"
    using append_each_events [OF assms(1) x(1)] by blast
  have "\<exists>rd'. reduces p (events s') rd' \<and> rd_started rd' \<and> rd_run_id rd' = run
      \<and> (rd_completed rd' \<or> (\<forall>i m. map_of (rd_operations rd') i = Some m \<longrightarrow> calm i m))
      \<and> (r = Inr True \<longrightarrow> backlog (map snd (rd_operations rd')) < backlog (map snd (rd_operations rd)))"
    if time: "all_timely (events s')"
  proof -
    have "all_timely (events s)" using time by (simp add: all_timely_def new(1))
    with assms(2,4) red have live: "live_run p run (events s) rd"
      and calm: "\<forall>i m. map_of (rd_operations rd) i = Some m \<longrightarrow> calm i m"
      by (auto simp: kept_def live_run_def)
    obtain rd' where rd': "live_run p run (events s') rd'"
      "ens \<noteq> [] \<and> x = None \<longrightarrow> backlog (map snd (rd_operations rd')) < backlog (map snd (rd_operations rd))"
      using batch_accepted_if [OF assms(1) live batch [OF live] x(1)] time by (auto simp: all_timely_def)
    have "\<forall>e \<in> set new. e_type e \<noteq> EventReconcileStarted"
    proof
      fix e assume "e \<in> set new"
      then have "event_entry e \<in> set (take (length new) ens)" using new(2) by (metis imageI list.set_map)
      then have "event_entry e \<in> set ens" by (rule in_set_takeD)
      with types event_entry_fields [OF refl, of e] show "e_type e \<noteq> EventReconcileStarted" by simp
    qed
    then have "\<forall>i m. map_of (rd_operations rd') i = Some m \<longrightarrow> calm i m"
      by (rule calm_extends [OF red calm, rotated]) (use rd' new(1) in \<open>simp add: live_run_def\<close>)
    moreover have "ens \<noteq> [] \<and> x = None" if "r = Inr True" using x(2) that by (auto split: option.splits)
    ultimately show ?thesis using rd' by (auto simp: live_run_def)
  qed
  then have "kept p run (events s') \<and> (r = Inr True \<longrightarrow> progressed p rd (events s'))"
    by (auto simp: kept_def progressed_def)
  with append_each_sound [OF assms(1) x(1)] same show ?thesis by blast
qed

lemma first_pass_kept:
  assumes "\<And>f s' r. f \<in> set fs \<Longrightarrow> f s = (s', r) \<Longrightarrow> sound s' \<and> kept p run (events s')
    \<and> (r = Inr False \<longrightarrow> s' = s) \<and> (r = Inr True \<longrightarrow> progressed p rd (events s'))"
    and "sound s" and "kept p run (events s)" and "first_pass fs s = (s', r)"
  shows "sound s' \<and> kept p run (events s')
    \<and> (r = Inr False \<longrightarrow> s' = s) \<and> (r = Inr True \<longrightarrow> progressed p rd (events s'))"
  using assms
proof (induction fs)
  case (Cons f fs)
  obtain s1 x where f: "f s = (s1, x)" by fastforce
  note one = Cons.prems(1) [OF list.set_intros(1) f]
  show ?case
  proof (cases "x = Inr False")
    case True
    with one Cons.prems(4) f have "first_pass fs s = (s', r)" by simp
    from Cons.IH [OF _ Cons.prems(2,3) this] Cons.prems(1) show ?thesis by (meson list.set_intros(2))
  next
    case False
    with Cons.prems(4) f have "s' = s1 \<and> r = x" by (auto split: sum.splits bool.splits)
    with one False show ?thesis by simp
  qed
qed auto

lemma maintenance_kept:
  assumes "plan_wf p" and "sound s" and "kept p run (events s)" and red: "reduces p (events s) rd" and "\<not> rd_completed rd"
    and "maintenance put ma (operation_index p) run (derived_of p rd) now s = (s', r)"
  shows "sound s' \<and> kept p run (events s')
    \<and> (r = Inr False \<longrightarrow> s' = s) \<and> (r = Inr True \<longrightarrow> progressed p rd (events s'))"
proof (rule first_pass_kept [OF _ assms(2,3) assms(6) [unfolded maintenance_def]])
  note pass = pass_kept [OF assms(2,3) red assms(5)]
  fix f s' and r :: "bool result"
  assume f: "f \<in> set (expire_journal_leases put run (derived_of p rd) now #
      (if ds_cancelled (derived_of p rd) then []
       else [journal_ready_operations put run (derived_of p rd), recover_undispatched put run (derived_of p rd) (operation_index p),
             cancel_blocked ma put run (derived_of p rd) (operation_index p)]))" and run: "f s = (s', r)"
  have cancelled: "ds_cancelled (derived_of p rd) = rd_cancelled rd" by (simp add: derived_of_def)
  from f consider (expire) "f = expire_journal_leases put run (derived_of p rd) now"
    | (ready) "\<not> rd_cancelled rd" "f = journal_ready_operations put run (derived_of p rd)"
    | (recover) "\<not> rd_cancelled rd" "f = recover_undispatched put run (derived_of p rd) (operation_index p)"
    | (cancel) "\<not> rd_cancelled rd" "f = cancel_blocked ma put run (derived_of p rd) (operation_index p)"
    unfolding cancelled by (auto split: if_splits)
  then show "sound s' \<and> kept p run (events s')
    \<and> (r = Inr False \<longrightarrow> s' = s) \<and> (r = Inr True \<longrightarrow> progressed p rd (events s'))"
  proof cases
    case expire
    show ?thesis
    proof (rule pass)
      show "run_pass put s (expire_entries run (derived_of p rd) now) = (s', r)" using run expire by (simp add: expire_journal_leases_def)
      show "batch_ok timely run rd (expire_entries run (derived_of p rd) now)" if "live_run p run (events s) rd"
        by (rule expire_batch [OF that])
          (auto simp: timely_def lease_entry_def payload_of_def recorded_lease_def dest: event_entry_fields)
    qed (auto simp: expire_entries_def)
  next
    case ready
    show ?thesis
    proof (rule pass)
      show "run_pass put s (ready_entries run (derived_of p rd)) = (s', r)" using run ready by (simp add: journal_ready_operations_def)
    qed (use ready_batch ready(1) in \<open>auto simp: ready_entries_def state_entry_def\<close>)
  next
    case recover
    show ?thesis
    proof (rule pass)
      show "run_pass put s (recover_entries run (derived_of p rd) (operation_index p)) = (s', r)"
        using run recover by (simp add: recover_undispatched_def)
    qed (use recover_batch [OF assms(1)] recover(1) in
      \<open>auto simp: recover_entries_def set_map_filter explicit_event_def split: if_splits option.splits\<close>)
  next
    case cancel
    show ?thesis
    proof (rule pass)
      show "run_pass put s (cancel_entries ma run (derived_of p rd) (operation_index p)) = (s', r)"
        using run cancel by (simp add: cancel_blocked_def)
    qed (use cancel_batch [OF assms(1)] cancel(1) in
      \<open>auto simp: cancel_entries_def set_map_filter cancel_entry_Some operation_entry_def simp del: map_of_eq_Some_iff\<close>)
  qed
qed

end

section \<open>A turn that runs tasks\<close>

definition batch_assertion :: "task list \<Rightarrow> assertion" where
  "batch_assertion ts i m \<longleftrightarrow> (\<forall>t \<in> set ts. task_id t = i \<longrightarrow> recorded_as (tk_state t) m) \<and> calm i m"

lemma started_running: "started run ts A (task_id t) m \<Longrightarrow> t \<in> set ts \<Longrightarrow> running_task run t m"
  unfolding started_def by (metis imageI)

lemma zip_fst:
  "length ys = length xs \<Longrightarrow> fst ` set (zip xs ys) = set xs"
  "length ys = length xs \<Longrightarrow> map (f \<circ> fst) (zip xs ys) = map f xs"
  by (metis list.set_map map_fst_zip, metis map_fst_zip map_map)

context event_log
begin

lemma busy_kept:
  assumes "plan_wf p" and "driver_contract d" and "sound s" and "kept p run (events s)" and red: "reduces p (events s) rd"
    and "\<not> rd_completed rd"
    and busy: "busy_turn put e p run d env state (batch_of e p (derived_of p rd) pr) (s, ml) pr = ((s', ml'), pr', v)"
  shows "sound s' \<and> accepted p (events s') \<and> (v = Continue \<longrightarrow> kept p run (events s'))"
proof -
  define batch where "batch = take (nat (ex_max_concurrency e)) (batch_of e p (derived_of p rd) pr)"
  let ?ts = "zip batch (map (te_turns env) [0..<length batch])" and ?A = "batch_assertion batch" and ?may = "rd_cancelled rd"
  have sub: "set batch \<subseteq> set (batch_of e p (derived_of p rd) pr)" by (simp add: batch_def set_take_subset)
  have dist: "distinct (map task_id batch)"
    using batch_distinct [OF assms(1) red, of e pr] by (simp add: batch_def take_map [symmetric])
  have ready: "ready_task p ?may t" if "t \<in> set batch" for t
    using batch_ready [OF assms(1) red] that sub by blast
  have rec: "recorded_as (tk_state t) m"
    if t: "t \<in> set batch" "map_of (rd_operations rd) (task_id t) = Some m" "calm (task_id t) m" for t m
    by (rule batch_ready [OF assms(1) red, of t e pr]) (use t sub in \<open>auto simp: recorded_as_def calm_def\<close>)
  have A: "holds p run ?may ?A (events s)"
    by (rule kept_holds [OF assms(4) red assms(6)]) (use rec in \<open>auto simp: batch_assertion_def\<close>)
  have stA: "stable ?A"
    using recorded_as_bystander [OF ready_not_planned [OF ready]] calm_stable
    unfolding stable_def batch_assertion_def by blast
  have zs: "fst ` set ?ts = set batch" "map (task_id \<circ> fst) ?ts = map task_id batch"
    by (simp_all only: zip_fst length_map length_upt diff_zero)
  obtain s1 m1 prepared blocked err where start: "start_batch put (pl_id p) run ?ts (s, ml) = ((s1, m1), prepared, blocked, err)"
    by (metis prod.exhaust)
  have one: "sound s1 \<and> (if err = None
    then distinct (map task_id prepared)
      \<and> (\<forall>t \<in> set prepared. \<exists>t0 \<in> fst ` set ?ts. tk_kind t = tk_kind t0 \<and> tk_operation t = tk_operation t0)
      \<and> holds p run ?may (started run prepared ?A) (events s1)
    else holds p run ?may (\<lambda>_ _. True) (events s1))"
    by (rule start_batch_holds [OF assms(3,1) _ _ _ A stA start])
      (use ready dist in \<open>simp_all add: zs batch_assertion_def\<close>)
  show ?thesis
  proof (cases err)
    case (Some e0)
    with busy start one show ?thesis
      by (auto simp: busy_turn_def batch_def [symmetric] Let_def dest: holds_accepted)
  next
    case None
    have calm_rest: "holds p run ?may calm (events s1)" if "prepared = []"
      using one None that by (auto simp: started_def batch_assertion_def elim!: holds_mono)
    show ?thesis
    proof (cases "prepared = []")
      case True
      with busy start None calm_rest one show ?thesis
        by (auto simp: busy_turn_def batch_def [symmetric] Let_def dest: holds_accepted holds_calm_kept)
    next
      case False
      let ?us = "zip prepared (map (te_contexts env) [0..<length prepared])" and ?B = "started run prepared ?A"
      have us: "fst ` set ?us = set prepared" "map (task_id \<circ> fst) ?us = map task_id prepared"
        by (simp_all only: zip_fst length_map length_upt diff_zero)
      obtain ocs where batch_run: "run_batch put (pl_id p) run d ?us (s1, m1) = ((s', ml'), ocs)"
        and v: "v = (case first_error (map oc_error ocs) of Some err \<Rightarrow> Return state (Some err) | None \<Rightarrow> Continue)"
        using busy start None False by (auto simp: busy_turn_def batch_def [symmetric] Let_def split: prod.splits)
      have tasks: "\<forall>t \<in> fst ` set ?us. map_of (operation_index p) (task_id t) = Some (tk_operation t) \<and> known p (task_id t)
          \<and> (?may \<longrightarrow> tk_kind t = TaskReconcile) \<and> (\<forall>m. ?B (task_id t) m \<longrightarrow> running_task run t m)"
      proof
        fix t assume t: "t \<in> fst ` set ?us"
        then obtain t0 where t0: "t0 \<in> set batch" "tk_kind t = tk_kind t0" "tk_operation t = tk_operation t0"
          using one None unfolding us(1) zs(1) by auto
        have "?may \<longrightarrow> tk_kind t = TaskReconcile"
          using ready [OF t0(1)] t0(2) by (cases "tk_kind t0") (auto simp: ready_task_def)
        moreover have "map_of (operation_index p) (task_id t) = Some (tk_operation t) \<and> known p (task_id t)"
          using ready [OF t0(1)] t0(3) by (simp add: ready_task_def)
        moreover have "\<forall>m. ?B (task_id t) m \<longrightarrow> running_task run t m"
          using started_running t us(1) by blast
        ultimately show "map_of (operation_index p) (task_id t) = Some (tk_operation t) \<and> known p (task_id t)
          \<and> (?may \<longrightarrow> tk_kind t = TaskReconcile) \<and> (\<forall>m. ?B (task_id t) m \<longrightarrow> running_task run t m)" by blast
      qed
      have ran: "sound s' \<and> holds p run ?may (\<lambda>i m. if i \<in> task_id ` fst ` set ?us
          then (\<forall>oc \<in> set ocs. oc_error oc = None) \<longrightarrow> \<not> mo_reconciling m else ?B i m) (events s')"
        by (rule run_batch_holds [OF _ assms(1,2) _ tasks _ started_stable [OF stA] batch_run])
          (use one None us(2) in auto)
      then have acc: "accepted p (events s')" by (blast dest: holds_accepted)
      have "kept p run (events s')" if "v = Continue"
      proof (rule holds_calm_kept [of _ _ ?may])
        have "\<forall>oc \<in> set ocs. oc_error oc = None" using that v by (simp add: first_error_map_None split: option.splits)
        with ran show "holds p run ?may calm (events s')"
          by (auto simp: us calm_def started_def batch_assertion_def elim!: holds_mono split: if_splits)
      qed
      with ran acc show ?thesis by blast
    qed
  qed
qed

end

section \<open>Events of the run\<close>

lemma executor_quiescent_all:
  "executor_quiescent (derived_of p rd) ma \<Longrightarrow> all_quiescent (rd_operations rd)"
  by (fastforce simp: executor_quiescent_def all_quiescent_def list_all_iff ds_operations_derived settled_state_def terminal_state_def)

lemma run_event_accepted:
  assumes "live_run p run evs rd" and "\<not> rd_cancelled rd" and "event_validate e = None"
    and "e_sequence e = word_of_nat (Suc (length evs))" and "e_run_id e = run"
    and "e_type e = EventRunCancelled \<or> e_type e = EventRunCompleted \<and> all_quiescent (rd_operations rd)"
  shows "\<exists>rd'. reduces p (evs @ [e]) rd' \<and> rd_started rd' \<and> rd_run_id rd' = run
    \<and> (rd_completed rd' \<longleftrightarrow> e_type e = EventRunCompleted)"
proof -
  have "admitted rd e"
    using assms live_run_expected [OF assms(1)] by (auto simp: admitted_def live_run_def)
  then have "\<exists>rd'. reduce_event p rd e = Inr rd' \<and> rd_started rd' \<and> rd_run_id rd' = run
      \<and> (rd_completed rd' \<longleftrightarrow> e_type e = EventRunCompleted)"
    using assms(1,5,6)
    by (auto simp: reduce_event_def checks event_admission_iff apply_event_def live_run_def)
  with assms(1) show ?thesis by (auto simp: live_run_def for_each_snoc_Inr)
qed

context event_log
begin

lemma run_event_kept:
  assumes "sound s" and "kept p run (events s)" and red: "reduces p (events s) rd" and "\<not> rd_completed rd" and "\<not> rd_cancelled rd"
    and en: "en_run_id en = run"
      "en_type en = EventRunCancelled \<or> en_type en = EventRunCompleted \<and> all_quiescent (rd_operations rd)"
    and put: "put_entry put s en = (s', r)"
  shows "sound s' \<and> kept p run (events s')"
proof -
  obtain x where x: "put s en = (s', x)" using put by (auto simp: put_entry_def split: prod.splits sum.splits)
  have "kept p run (events s')"
  proof (cases x)
    case (Inl err)
    with append_Inl [OF assms(1)] x assms(2) show ?thesis by simp
  next
    case (Inr e)
    note e = append_Inr [OF assms(1) x [unfolded Inr]]
    note f = event_entry_fields [of e en]
    show ?thesis
      unfolding kept_def
    proof
      assume "all_timely (events s')"
      then have "all_timely (events s)" using e by (simp add: all_timely_def)
      with assms(2,4) red have live: "live_run p run (events s) rd"
        and calm: "\<forall>i m. map_of (rd_operations rd) i = Some m \<longrightarrow> calm i m"
        by (auto simp: kept_def live_run_def)
      obtain rd' where rd': "reduces p (events s @ [e]) rd'" "rd_started rd'" "rd_run_id rd' = run"
        using run_event_accepted [OF live assms(5), of e] e f en by auto
      have "\<forall>i m. map_of (rd_operations rd') i = Some m \<longrightarrow> calm i m"
        by (rule calm_extends [OF red calm rd'(1)]) (use e f en in auto)
      with rd' e show "\<exists>rd. reduces p (events s') rd \<and> rd_started rd \<and> rd_run_id rd = run
          \<and> (rd_completed rd \<or> (\<forall>i m. map_of (rd_operations rd) i = Some m \<longrightarrow> calm i m))" by auto
    qed
  qed
  with append_sound [OF assms(1) x] show ?thesis ..
qed

lemma idle_kept:
  assumes "sound s" and "kept p run (events s)" and "reduces p (events s) rd" and "\<not> rd_completed rd"
    and "idle_turn put ma run (derived_of p rd) s = (s', v)"
  shows "sound s' \<and> kept p run (events s')"
proof (cases "\<not> rd_cancelled rd \<and> executor_quiescent (derived_of p rd) ma")
  case True
  obtain u x where u: "put_entry put s (complete_entry run) = (u, x)" by fastforce
  have "sound u \<and> kept p run (events u)"
    by (rule run_event_kept [OF assms(1-4) _ _ _ u]) (use True executor_quiescent_all in \<open>auto simp: complete_entry_def\<close>)
  moreover have "s' = u" using assms(5) True u by (auto simp: idle_turn_def derived_of_def split: option.splits)
  ultimately show ?thesis by simp
next
  case False
  then have "s' = s" using assms(5) by (auto simp: idle_turn_def derived_of_def split: if_splits)
  with assms(1,2) show ?thesis by simp
qed

lemma cancel_run_kept:
  assumes "sound s" and "kept p run (events s)" and "reduces p (events s) rd" and "\<not> rd_completed rd" and "\<not> rd_cancelled rd"
    and "cancel_run put events p run state err s = (s', v)"
  shows "sound s' \<and> kept p run (events s') \<and> v \<noteq> Continue"
proof -
  let ?en = "\<lparr>en_run_id = run, en_plan_id = [], en_type = EventRunCancelled, en_operation_id = [],
         en_target_id = [], en_payload = no_payload\<rparr>"
  obtain u x where u: "put_entry put s ?en = (u, x)" by fastforce
  have "sound u \<and> kept p run (events u)"
    by (rule run_event_kept [OF assms(1-5) _ _ u]) simp_all
  moreover have "s' = u \<and> v \<noteq> Continue" using assms(6) u by (auto simp: cancel_run_def split: option.splits sum.splits)
  ultimately show ?thesis by simp
qed

section \<open>The loop\<close>

lemma execute_round_kept:
  assumes "plan_wf p" and "driver_contract d" and "sound s" and "kept p run (events s)"
    and round: "execute_round put events e p run d env (s, ml) pr = ((s', ml'), pr', v)"
  shows "sound s' \<and> accepted p (events s') \<and> (v = Continue \<longrightarrow> kept p run (events s'))"
proof (cases "reduce p (events s)")
  case (Inl err)
  with round assms(3,4) kept_accepted show ?thesis by (auto simp: execute_round_def)
next
  case (Inr state)
  then obtain rd where red: "reduces p (events s) rd" and state: "state = derived_of p rd" by (auto simp: reduce_Inr)
  have flags: "ds_completed state = rd_completed rd" "ds_cancelled state = rd_cancelled rd" by (simp_all add: state derived_of_def)
  consider (completed) "rd_completed rd" | (cancel) "\<not> rd_completed rd" "te_context env \<noteq> None" "\<not> rd_cancelled rd"
    | (work) "\<not> rd_completed rd" "\<not> (te_context env \<noteq> None \<and> \<not> rd_cancelled rd)" by blast
  then show ?thesis
  proof cases
    case completed
    with round Inr flags assms(3,4) kept_accepted show ?thesis by (auto simp: execute_round_def)
  next
    case cancel
    obtain u w where u: "cancel_run put events p run state (the (te_context env)) s = (u, w)" by fastforce
    with round Inr flags cancel have "s' = u \<and> v = w" by (auto simp: execute_round_def)
    with cancel_run_kept [OF assms(3,4) red cancel(1,3) u] kept_accepted show ?thesis by blast
  next
    case work
    obtain u r where u: "maintenance put (ex_max_attempts e) (operation_index p) run state (te_now env) s = (u, r)" by fastforce
    note m = maintenance_kept [OF assms(1,3,4) red work(1) u [unfolded state]]
    have rest: "(case r of Inl err \<Rightarrow> ((u, ml), pr, Return state (Some err)) | Inr True \<Rightarrow> ((u, ml), pr, Continue)
      | Inr False \<Rightarrow> (let tasks = batch_of e p state pr in if tasks = []
          then (case idle_turn put (ex_max_attempts e) run state u of (s2, v) \<Rightarrow> ((s2, ml), pr, v))
          else busy_turn put e p run d env state tasks (u, ml) pr)) = ((s', ml'), pr', v)"
      using round [unfolded execute_round_def snd_conv fst_conv] Inr flags work u by auto
    consider (failed) err where "r = Inl err" | (changed) "r = Inr True" | (idle) "r = Inr False" "batch_of e p state pr = []"
      | (busy) "r = Inr False" "batch_of e p state pr \<noteq> []" by (metis sumE)
    then show ?thesis
    proof cases
      case idle
      obtain t w where t: "idle_turn put (ex_max_attempts e) run state u = (t, w)" by fastforce
      from idle_kept [OF assms(3,4) red work(1), of "ex_max_attempts e" t w] t m idle rest kept_accepted
      show ?thesis by (auto simp: state)
    next
      case busy
      have "busy_turn put e p run d env state (batch_of e p (derived_of p rd) pr) (s, ml) pr = ((s', ml'), pr', v)"
        using rest busy m by (simp add: state)
      from busy_kept [OF assms(1-4) red work(1) this] show ?thesis .
    qed (use rest m kept_accepted in auto)
  qed
qed

lemma execute_rounds_kept:
  assumes "plan_wf p" and "driver_contract d" and "sound s" and "kept p run (events s)"
    and "execute_rounds put events e p run d envs (s, ml) pr = ((s', ml'), v)"
  shows "sound s' \<and> accepted p (events s')"
  using assms(3-5)
proof (induction envs arbitrary: s ml pr)
  case Nil
  then show ?case using kept_accepted by auto
next
  case (Cons env envs)
  obtain t m1 pr1 w where t: "execute_round put events e p run d env (s, ml) pr = ((t, m1), pr1, w)" by (metis prod.exhaust)
  note one = execute_round_kept [OF assms(1,2) Cons.prems(1,2) t]
  show ?case
  proof (cases w)
    case Continue
    with Cons.prems(3) t have "execute_rounds put events e p run d envs (t, m1) pr1 = ((s', ml'), v)" by simp
    with Cons.IH one Continue show ?thesis by blast
  next
    case (Return state err)
    with Cons.prems(3) t one show ?thesis by auto
  qed
qed

end

section \<open>Execute\<close>

lemma initial_calm: "map_of (rd_operations (initial_reducer p)) i = Some m \<Longrightarrow> calm i m"
  using initial_operations_at [of p i m]
  by (auto simp: initial_reducer_def initial_operation_def calm_def simp del: map_of_eq_Some_iff)

lemma start_accepted:
  assumes "event_validate e = None" and "e_sequence e = 1" and "event_entry e = start_entry run p"
  shows "\<exists>rd. reduces p [e] rd \<and> rd_started rd \<and> rd_run_id rd = run \<and> (\<forall>i m. map_of (rd_operations rd) i = Some m \<longrightarrow> calm i m)"
proof -
  have f: "e_type e = EventRunStarted" "e_plan_id e = pl_id p" "e_run_id e = run"
    using assms(3) by (auto simp: event_entry_def start_entry_def)
  have "admitted (initial_reducer p) e" using assms f by (simp add: admitted_def initial_reducer_def)
  then have "\<exists>rd. reduce_event p (initial_reducer p) e = Inr rd \<and> rd_started rd \<and> rd_run_id rd = run"
    using f by (auto simp: reduce_event_def checks event_admission_iff apply_event_def initial_reducer_def)
  then obtain rd where rd: "reduces p ([] @ [e]) rd" "rd_started rd" "rd_run_id rd = run" by auto
  have "\<forall>i m. map_of (rd_operations rd) i = Some m \<longrightarrow> calm i m"
    by (rule calm_extends [OF _ _ rd(1)]) (use initial_calm f in auto)
  with rd show ?thesis by auto
qed

context event_log
begin

lemma open_run_kept:
  assumes "sound s" and "accepted p (events s)" and calm: "\<forall>i. \<not> reconciling_after i (events s)"
    and "open_run put events p run s = (s', r)"
  shows "sound s' \<and> accepted p (events s') \<and> (\<forall>st. r = Inr st \<longrightarrow> kept p run (events s'))"
proof (cases "reduce p (events s)")
  case (Inl err)
  with assms show ?thesis by (auto simp: open_run_def)
next
  case (Inr state)
  then obtain rd where red: "reduces p (events s) rd" and state: "state = derived_of p rd" by (auto simp: reduce_Inr)
  show ?thesis
  proof (cases "events s = []")
    case True
    obtain t x where t: "put s (start_entry run p) = (t, x)" by fastforce
    show ?thesis
    proof (cases x)
      case (Inl err)
      with append_Inl [OF assms(1)] append_sound [OF assms(1) t] t assms(2,4) Inr True
      show ?thesis by (auto simp: open_run_def put_entry_def)
    next
      case ok: (Inr e)
      note e = append_Inr [OF assms(1) t [unfolded ok]]
      have "\<exists>rd. reduces p [e] rd \<and> rd_started rd \<and> rd_run_id rd = run \<and> (\<forall>i m. map_of (rd_operations rd) i = Some m \<longrightarrow> calm i m)"
        using start_accepted e True by simp
      then have "kept p run (events t)" using e True by (auto simp: kept_def)
      moreover have "s' = t" using assms(4) Inr True t ok by (auto simp: open_run_def put_entry_def)
      ultimately show ?thesis using append_sound [OF assms(1) t] kept_accepted by blast
    qed
  next
    case False
    have "rd_started rd" using header_invariant [OF red] False by (simp add: header_ok_def)
    moreover have "\<forall>i m. map_of (rd_operations rd) i = Some m \<longrightarrow> calm i m"
      using calm reconciling_iff [OF red] by (auto simp: calm_def)
    ultimately have "kept p run (events s)" if "rd_run_id rd = run" using red that by (auto simp: kept_def)
    with False assms Inr state show ?thesis by (auto simp: open_run_def derived_of_def split: if_splits)
  qed
qed

lemma execute_kept:
  assumes "plan_wf p" and "driver_contract d" and "sound s" and "accepted p (events s)"
    and "\<forall>i. \<not> reconciling_after i (events s)"
    and "execute put events ctx e p run d envs (s, ml) = ((s', ml'), v)"
  shows "sound s' \<and> accepted p (events s')"
proof (cases "execute_error ctx e p run")
  case (Some err)
  with assms show ?thesis by (auto simp: execute_def)
next
  case None
  obtain t r where t: "open_run put events p run s = (t, r)" by fastforce
  note o1 = open_run_kept [OF assms(3-5) t]
  show ?thesis
  proof (cases r)
    case (Inl err)
    with None t assms(6) o1 show ?thesis by (auto simp: execute_def)
  next
    case (Inr st)
    then have "kept p run (events t)" using o1 by blast
    with None t Inr assms(6) o1 execute_rounds_kept [OF assms(1,2)] show ?thesis
      by (auto simp: execute_def split: if_splits)
  qed
qed

end

end
