(* ===== verification/Executor_Demo.thy ===== *)
theory Executor_Demo
  imports Executor_Kept Journal_Demo
begin

text \<open>
  A concrete executor over the two-operation plan, and the first turn of a run from an empty journal,
  evaluated once for the witnesses of the executor's properties.
\<close>

section \<open>The parts\<close>

definition published_call :: driver_call where
  "published_call = \<lparr>dc_calls = [],
     dc_result = \<lparr>res_state = StatePublished, res_provider_state = [], res_evidence = ''{}''\<rparr>, dc_error = None\<rparr>"

definition demo_driver :: driver where
  "demo_driver = \<lparr>dv_prepare = None, dv_boundaries = None, dv_apply = (\<lambda>_. published_call), dv_reconcile = (\<lambda>_. published_call)\<rparr>"

definition demo_leases :: memory_leases where
  "demo_leases = new_memory_leases ''o'' 10 (Some (\<lambda>_. 1)) (Some (\<lambda>n. Inr [CHR ''a'']))"

definition demo_executor :: executor where
  "demo_executor = \<lparr>ex_leases = demo_leases, ex_max_concurrency = 4, ex_max_attempts = 3,
     ex_backoff = default_backoff, ex_reconcile_only = False\<rparr>"

definition fresh_writer :: writer where
  "fresh_writer = \<lparr>w_file = Some \<lparr>fl_content = [], fl_writes = [], fl_syncs = [], fl_close = None, fl_unlock = None\<rparr>,
     w_path = ''j'', w_lock = None, w_run_id = ''x'', w_next = 1, w_clock = (\<lambda>_. 1), w_ticks = 0, w_events = [], w_poisoned = False, w_closed = False\<rparr>"

definition demo_turn :: turn_env where
  "demo_turn = \<lparr>te_context = None, te_now = 1, te_turns = (\<lambda>_. \<lparr>tn_wait = None, tn_acquire = None\<rparr>),
     te_contexts = (\<lambda>_. \<lparr>cx_parent = None, cx_call = None, cx_parent_again = None, cx_call_again = None\<rparr>), te_context_after = None\<rparr>"

lemma demo_contract: "driver_contract demo_driver"
  by (simp add: driver_contract_def demo_driver_def published_call_def)

lemma demo_plan_wf: "plan_wf demo_plan"
proof -
  let ?ops = "pl_operations demo_plan" and ?index = "map (\<lambda>op. (op_id op, op)) (pl_operations demo_plan)"
  have "graph_ok ?index" by (simp add: graph_ok_def demo_plan_def demo_operation_def)
  moreover have "validate_acyclic ?index = None" by code_simp
  ultimately have "acyclic (graph_rel ?index)" using validate_acyclic_iff by blast
  moreover have "distinct (map op_id ?ops)" by (simp add: demo_plan_def demo_operation_def)
  ultimately have "acyclic (dependency_rel ?ops)" using graph_rel_index by metis
  then show ?thesis
    by (simp add: plan_wf_def demo_plan_def demo_operation_def demo_target_def text_eval)
qed

section \<open>A first turn\<close>

lemmas append_eval = append_locked_def append_error_def new_event_def encode_frame_def frame_of_def max_record_bytes_def
  commit_event_def write_full.simps file_write_def file_sync_def be32_bytes_def frame_magic_def

definition started_writer :: writer where
  "started_writer = fst (append_locked (\<lambda>_. Inr []) fresh_writer (start_entry ''x'' demo_plan))"

lemma started_writer_fields:
  "append_locked (\<lambda>_. Inr []) fresh_writer (start_entry ''x'' demo_plan) = (started_writer, Inr (demo_start ! 0))"
  "w_events started_writer = [demo_start ! 0]" "w_next started_writer = 2" "w_clock started_writer = (\<lambda>_. 1)"
  "w_run_id started_writer = ''x''" "\<not> w_poisoned started_writer" "\<not> w_closed started_writer"
  "\<exists>f. w_file started_writer = Some f \<and> fl_writes f = [] \<and> fl_syncs f = []"
  by (simp_all add: started_writer_def start_entry_def append_eval fresh_writer_def demo_start_def reduce_eval)

definition demo_ready :: event where
  "demo_ready = op_event 2 EventOperationReady ''a'' no_payload"

lemma ready_append:
  "\<exists>w. append_locked (\<lambda>_. Inr []) started_writer (event_entry demo_ready) = (w, Inr demo_ready) \<and> w_events w = [demo_start ! 0, demo_ready]"
  using started_writer_fields
  by (auto simp: append_eval demo_ready_def reduce_eval)

lemma started_state:
  "\<exists>d. reduce demo_plan [demo_start ! 0] = Inr d \<and> ds_run_id d = ''x'' \<and> \<not> ds_completed d \<and> \<not> ds_cancelled d
    \<and> ds_operations d = [operation_state.truncate ((initial_operation (demo_operation ''a'' True []))\<lparr>os_state := StateReady\<rparr>),
         operation_state.truncate (initial_operation (demo_operation ''b'' False [''a'']))]"
  by (simp add: demo_start_def reduce_eval reduce_def derived_of_def operation_state.truncate_def)

lemma started_entries:
  assumes "ds_operations d = [operation_state.truncate ((initial_operation (demo_operation ''a'' True []))\<lparr>os_state := StateReady\<rparr>),
         operation_state.truncate (initial_operation (demo_operation ''b'' False [''a'']))]"
  shows "ready_entries ''x'' d = [event_entry demo_ready]" "expire_entries ''x'' d t = []"
  by (simp_all add: assms ready_entries_def expire_entries_def lease_due_def state_entry_def operation_state.truncate_def
      initial_operation_def demo_operation_def demo_ready_def op_event_def event_entry_def)

lemma demo_execute:
  "\<exists>w v. execute (append_locked (\<lambda>_. Inr [])) w_events (Some None) demo_executor demo_plan ''x'' dr [demo_turn]
      (fresh_writer, demo_leases) = ((w, demo_leases), v) \<and> w_events w = [demo_start ! 0, demo_ready]"
proof -
  obtain d where d: "reduce demo_plan [demo_start ! 0] = Inr d" "ds_run_id d = ''x''" "\<not> ds_completed d" "\<not> ds_cancelled d"
    "ready_entries ''x'' d = [event_entry demo_ready]" "\<And>t. expire_entries ''x'' d t = []"
    using started_state started_entries by metis
  obtain w where w: "append_locked (\<lambda>_. Inr []) started_writer (event_entry demo_ready) = (w, Inr demo_ready)"
    "w_events w = [demo_start ! 0, demo_ready]" using ready_append by blast
  have err: "execute_error (Some None) demo_executor demo_plan ''x'' = None"
    by (simp add: execute_error_def demo_executor_def demo_plan_valid checks text_eval)
  have empty: "w_events fresh_writer = []" by (simp add: fresh_writer_def)
  have reduced: "reduce demo_plan [] = Inr (derived_of demo_plan (initial_reducer demo_plan))"
    by (simp add: reduce_def demo_plan_valid)
  have opened: "open_run (append_locked (\<lambda>_. Inr [])) w_events demo_plan ''x'' fresh_writer = (started_writer, Inr d)"
    by (simp add: open_run_def empty reduced put_entry_def started_writer_fields d)
  have round: "execute_round (append_locked (\<lambda>_. Inr [])) w_events demo_executor demo_plan ''x'' dr demo_turn
      (started_writer, demo_leases) pr = ((w, demo_leases), pr, Continue)" for pr
    by (simp add: execute_round_def started_writer_fields d demo_turn_def maintenance_def expire_journal_leases_def
        journal_ready_operations_def run_pass_def w)
  show ?thesis by (simp add: execute_def err opened d(3) round w(2))
qed

section \<open>The finished run\<close>

lemma demo_final:
  "\<exists>s. reduces demo_plan demo_journal s
    \<and> list_all (\<lambda>(_, m). os_state m = StatePublished \<and> \<not> os_lease_active m \<and> \<not> os_reconcile_required m) (rd_operations s)"
  by (simp add: demo_journal_defs reduce_eval)

lemma demo_quiet:
  "\<forall>o1 \<in> set (ds_operations demo_state). os_state o1 = StatePublished \<and> \<not> os_lease_active o1 \<and> \<not> os_reconcile_required o1"
  "map_of (state_index demo_state) i = Some o1 \<Longrightarrow> os_state o1 = StatePublished"
proof -
  obtain s where s: "reduces demo_plan demo_journal s"
    "list_all (\<lambda>(_, m). os_state m = StatePublished \<and> \<not> os_lease_active m \<and> \<not> os_reconcile_required m) (rd_operations s)"
    using demo_final by blast
  have d: "demo_state = derived_of demo_plan s" by (simp add: demo_state_def reduce_def demo_plan_valid s(1))
  show "\<forall>o1 \<in> set (ds_operations demo_state). os_state o1 = StatePublished \<and> \<not> os_lease_active o1 \<and> \<not> os_reconcile_required o1"
    using s(2) unfolding d ds_operations_derived list_all_iff by (auto simp: split_beta)
  show "os_state o1 = StatePublished" if "map_of (state_index demo_state) i = Some o1"
    using that s(2) unfolding d state_index_at [OF s(1)] by (auto simp: list_all_iff dest!: map_of_SomeD)
qed

lemma demo_started: "ds_started demo_state" "\<not> ds_cancelled demo_state"
proof -
  obtain s where s: "reduces demo_plan demo_journal s" using demo_reduces by blast
  then have d: "demo_state = derived_of demo_plan s" by (simp add: demo_state_def reduce_def demo_plan_valid)
  have "rd_started s \<and> \<not> rd_cancelled s"
    using header_invariant [OF s] by (auto simp: header_ok_def demo_journal_defs run_event_def op_event_def)
  then show "ds_started demo_state" "\<not> ds_cancelled demo_state" unfolding d by (simp_all add: derived_of_def)
qed

section \<open>A lease that has run out\<close>

definition demo_lease :: lease_payload where
  "demo_lease = \<lparr>lp_id = ''l'', lp_owner = ''o'', lp_acquired_at = 1, lp_expires_at = 2\<rparr>"

definition demo_leased :: event where
  "demo_leased = op_event 2 EventLeaseAcquired ''a'' (no_payload\<lparr>pay_lease := Some demo_lease\<rparr>)"

definition demo_expired :: event where
  "demo_expired = (op_event 3 EventLeaseExpired ''a'' (no_payload\<lparr>pay_lease := Some demo_lease\<rparr>))\<lparr>e_observed_at := 5\<rparr>"

definition leased_writer :: writer where
  "leased_writer = fresh_writer\<lparr>w_events := [demo_start ! 0, demo_leased], w_next := 3, w_clock := (\<lambda>_. 5)\<rparr>"

lemmas lease_eval = demo_leased_def demo_lease_def lease_event_error_def lease_validate_def with_lease_def set_lease_def
  payload_of_def recorded_lease_def

lemma expired_append:
  "\<exists>w. append_locked (\<lambda>_. Inr []) leased_writer (event_entry demo_expired) = (w, Inr demo_expired)"
  by (simp add: leased_writer_def fresh_writer_def append_eval demo_expired_def reduce_eval lease_eval)

lemma leased_state:
  "\<exists>d. reduce demo_plan (w_events leased_writer) = Inr d \<and> ds_run_id d = ''x'' \<and> \<not> ds_completed d \<and> ds_started d
    \<and> expire_entries ''x'' d 5 = [event_entry demo_expired]"
  by (simp add: leased_writer_def demo_start_def reduce_eval lease_eval reduce_def derived_of_def operation_state.truncate_def
      expire_entries_def lease_due_def lease_entry_def demo_expired_def)

end
