(* ===== verification/Executor_Live.thy ===== *)
theory Executor_Live
  imports Executor_Kept "HOL-Library.Multiset"
begin

text \<open>
  Progress of the loop: a run in which the passes have nothing to append and no task is a candidate is
  finished or waits for something outside; and the passes cannot go on for ever, because every event they
  append makes a measure of the derived state smaller.
\<close>

section \<open>Nothing to do\<close>

lemma run_pass_idle: "run_pass put s ens = (s', Inr False) \<Longrightarrow> ens = []"
  by (auto simp: run_pass_def split: prod.splits option.splits)

lemma first_pass_idle: "first_pass fs s = (s', Inr False) \<Longrightarrow> f \<in> set fs \<Longrightarrow> \<exists>t u. f t = (u, Inr False)"
proof (induction fs arbitrary: s)
  case (Cons g fs)
  obtain t x where t: "g s = (t, x)" by fastforce
  with Cons.prems(1) have "x = Inr False" "first_pass fs t = (s', Inr False)"
    by (cases x; simp split: bool.splits)+
  with Cons t show ?case by auto
qed simp

lemma maintenance_idle:
  assumes "maintenance put ma ops run state now s = (s', Inr False)" and "\<not> ds_cancelled state"
  shows "recover_entries run state ops = []" and "cancel_entries ma run state ops = []"
proof -
  have fs: "recover_undispatched put run state ops \<in> set (expire_journal_leases put run state now #
      (if ds_cancelled state then [] else [journal_ready_operations put run state, recover_undispatched put run state ops,
         cancel_blocked ma put run state ops]))"
    "cancel_blocked ma put run state ops \<in> set (expire_journal_leases put run state now #
      (if ds_cancelled state then [] else [journal_ready_operations put run state, recover_undispatched put run state ops,
         cancel_blocked ma put run state ops]))"
    using assms(2) by simp_all
  note idle = first_pass_idle [OF assms(1) [unfolded maintenance_def]]
  from idle [OF fs(1)] run_pass_idle show "recover_entries run state ops = []"
    unfolding recover_undispatched_def by metis
  from idle [OF fs(2)] run_pass_idle show "cancel_entries ma run state ops = []"
    unfolding cancel_blocked_def by metis
qed

text \<open>An operation is parked when this run of \<open>Execute\<close> has tried its attempt and must leave it alone.\<close>

definition parked :: "progress \<Rightarrow> operation_state \<Rightarrow> bool" where
  "parked pr o1 \<longleftrightarrow> (os_id o1, os_attempt o1) \<in> pr_reconciled pr \<union> pr_deferred pr
     \<and> (os_reconcile_required o1 \<or> os_state o1 = StateBlocked)"

lemma map_filter_empty: "List.map_filter f xs = [] \<longleftrightarrow> (\<forall>x \<in> set xs. f x = None)"
  by (induction xs) (auto simp: map_filter_simps split: option.splits)

lemma candidates_empty:
  "candidates ma ro state ops rec def = [] \<longleftrightarrow> (\<forall>x \<in> set (ds_operations state). candidate ma ro ops rec def (ds_cancelled state) x = None)"
proof -
  have "candidates ma ro state ops rec def = []
      \<longleftrightarrow> List.map_filter (candidate ma ro ops rec def (ds_cancelled state)) (ds_operations state) = []"
    unfolding candidates_def by (metis set_empty set_sort)
  then show ?thesis by (simp add: map_filter_empty)
qed

lemma candidate_None:
  assumes "candidate ma False ops (pr_reconciled pr) (pr_deferred pr) False o1 = None" and "map_of ops (os_id o1) \<noteq> None"
    and "\<not> os_lease_active o1" and "\<not> parked pr o1"
  shows "\<not> os_reconcile_required o1 \<and> os_state o1 \<noteq> StateReady \<and> os_state o1 \<noteq> StateBlocked
    \<and> (os_state o1 = StateFailed \<longrightarrow> \<not> (os_retryable o1 \<and> budget_left ma o1))"
  using assms by (auto simp: candidate_def Let_def parked_def split: option.splits if_splits)

lemma acyclic_least:
  assumes "acyclic (dependency_rel ops)" and "i \<in> X"
  shows "\<exists>j \<in> X. \<forall>d. (d, j) \<in> dependency_rel ops \<longrightarrow> d \<notin> X"
proof -
  have "dependency_rel ops = (\<Union>op \<in> set ops. (\<lambda>d. (d, op_id op)) ` set (op_dependencies op))"
    by (auto simp: dependency_rel_def)
  then have "finite (dependency_rel ops)" by simp
  with assms(1) have "wf (dependency_rel ops)" by (rule finite_acyclic_wf [rotated])
  with assms(2) show ?thesis by (metis wfE_min)
qed

lemma nothing_to_do:
  assumes wf: "plan_wf p" and red: "reduces p evs rd" and run: "rd_started rd" "\<not> rd_cancelled rd"
    and leases: "\<forall>i m. map_of (rd_operations rd) i = Some m \<longrightarrow> \<not> os_lease_active m"
    and recover: "recover_entries run (derived_of p rd) (operation_index p) = []"
    and cancel: "cancel_entries ma run (derived_of p rd) (operation_index p) = []"
    and cands: "candidates ma False (derived_of p rd) (operation_index p) (pr_reconciled pr) (pr_deferred pr) = []"
    and free: "\<forall>o1 \<in> set (ds_operations (derived_of p rd)). \<not> parked pr o1"
    and m: "map_of (rd_operations rd) i = Some m"
  shows "settled_state ma (operation_state.truncate m)"
proof -
  let ?ops = "rd_operations rd" and ?o1 = "\<lambda>m. operation_state.truncate m :: operation_state"
  have dist: "distinct (map op_id (pl_operations p))" using wf by (simp add: plan_wf_def)
  have in_state: "?o1 n \<in> set (ds_operations (derived_of p rd))" "os_id n = j" if "map_of ?ops j = Some n" for j n
    using map_of_SomeD [OF that] reduces_ids [OF red] by (force simp: ds_operations_derived)+
  have op: "\<exists>op. map_of (operation_index p) j = Some op" if "map_of ?ops j = Some n" for j n
    using reduces_op_static [OF red that] map_of_is_SomeI [of "operation_index p"] dist
    by (fastforce simp: operation_index_eq [OF dist] comp_def)
  have quiet: "\<not> os_reconcile_required n \<and> os_state n \<noteq> StateReady \<and> os_state n \<noteq> StateBlocked
      \<and> (os_state n = StateFailed \<longrightarrow> \<not> (os_retryable n \<and> budget_left ma (?o1 n)))" if n: "map_of ?ops j = Some n" for j n
  proof -
    have "candidate ma False (operation_index p) (pr_reconciled pr) (pr_deferred pr) False (?o1 n) = None"
    proof -
      have "ds_cancelled (derived_of p rd) = False" using run(2) by (simp add: derived_of_def)
      with bspec [OF cands [unfolded candidates_empty] in_state(1) [OF n]] show ?thesis by (simp only:)
    qed
    from candidate_None [OF this] op [OF n] in_state [OF n] leases n free show ?thesis by auto
  qed
  have not_running: "os_state n \<noteq> StateRunning" if n: "map_of ?ops j = Some n" for j n
  proof
    assume running: "os_state n = StateRunning"
    have "\<forall>x \<in> set (ds_operations (derived_of p rd)).
      (if os_state x \<noteq> StateRunning \<or> os_reconcile_required x \<or> os_lease_active x then None
       else (case map_of (operation_index p) (os_id x) of None \<Rightarrow> None
         | Some op \<Rightarrow> Some (result_entry run op (os_attempt x) StateFailed [] [] (interrupted_code op x) True))) = None"
      using recover by (simp add: recover_entries_def map_filter_empty)
    from bspec [OF this in_state(1) [OF n]] running quiet [OF n] leases n op [OF n] in_state(2) [OF n]
    show False by (auto split: option.splits)
  qed
  have settled: "settled_state ma (?o1 n)" if n: "map_of ?ops j = Some n" and planned: "os_state n \<noteq> StatePlanned" for j n
  proof -
    have inv: "os_state n = StateWaitingExternal \<longrightarrow> os_reconcile_required n" "state_valid (os_state n)"
      using reduces_op_inv [OF red n] by (auto simp: op_inv_def)
    have lease: "\<not> os_lease_active n" using leases n by blast
    show ?thesis
      using inv lease quiet [OF n] not_running [OF n] planned
      by (cases "os_state n") (simp_all add: settled_state_def)
  qed
  have "os_state m \<noteq> StatePlanned"
  proof
    let ?X = "{j. \<exists>n. map_of ?ops j = Some n \<and> os_state n = StatePlanned}"
    assume "os_state m = StatePlanned"
    with m have iX: "i \<in> ?X" by blast
    have ac: "acyclic (dependency_rel (pl_operations p))" using wf by (simp add: plan_wf_def)
    obtain j where j: "j \<in> ?X" and least: "\<forall>d. (d, j) \<in> dependency_rel (pl_operations p) \<longrightarrow> d \<notin> ?X"
      using acyclic_least [OF ac iX] by blast
    from j obtain n where n: "map_of ?ops j = Some n" "os_state n = StatePlanned" by blast
    obtain opj where opj: "map_of (operation_index p) j = Some opj" using op [OF n(1)] by blast
    note idx = operation_index_at [OF dist opj]
    have "evs \<noteq> []" using header_invariant [OF red] run(1) by (simp add: header_ok_def)
    from planned_waits [OF red n(1) this n(2)] obtain d where d: "d \<in> set (mo_dependencies n)" "d \<notin> published ?ops" by blast
    have dep: "d \<in> set (op_dependencies opj)" using d(1) operation_index_static(3) [OF wf red n(1) opj] by simp
    then have "(d, j) \<in> dependency_rel (pl_operations p)" using idx by (auto simp: dependency_rel_def)
    with least have notX: "d \<notin> ?X" by blast
    have "blocks_dependents ma (map_option ?o1 (map_of ?ops d))"
    proof (cases "map_of ?ops d")
      case None
      then show ?thesis by (simp add: blocks_dependents_def)
    next
      case (Some x)
      then have "os_state x \<noteq> StatePlanned" using notX by blast
      moreover have "os_state x \<noteq> StatePublished" using d(2) Some by (auto simp: published_def)
      ultimately show ?thesis using settled [OF Some] Some by (auto simp: settled_state_def blocks_dependents_def)
    qed
    then have "has_terminal_unpublished_dependency ma opj (state_index (derived_of p rd))"
      using dep by (auto simp: has_terminal_unpublished_dependency_def list_ex_iff state_index_at [OF red])
    then have "cancel_entry ma run (state_index (derived_of p rd)) (operation_index p) j \<noteq> None"
      using n opj by (simp add: cancel_entry_def state_index_at [OF red])
    moreover have "j \<in> set (sort (map fst (operation_index p)))" using map_of_SomeD [OF opj] by force
    ultimately show False using cancel by (auto simp: cancel_entries_def map_filter_empty)
  qed
  with settled [OF m] show ?thesis by blast
qed

section \<open>The work left\<close>

lemma operation_rank_truncate [simp]: "operation_rank (operation_state.truncate m) = operation_rank m"
  by (simp add: operation_rank_def)

lemma operation_rank_le: "operation_rank m \<le> 5"
  by (simp add: operation_rank_def)

lemma backlog_mset: "mset xs = mset ys \<Longrightarrow> backlog xs = backlog ys"
  unfolding backlog_def by (metis mset_map sum_mset_sum_list)

lemma backlog_derived: "backlog (ds_operations (derived_of p rd)) = backlog (map snd (rd_operations rd))"
proof -
  have "backlog (ds_operations (derived_of p rd)) = backlog (map (operation_state.truncate \<circ> snd) (rd_operations rd))"
    by (rule backlog_mset) (simp add: derived_of_def)
  then show ?thesis by (simp add: backlog_def comp_def)
qed

lemma backlog_bound: "backlog ms \<le> 5 * length ms"
  unfolding backlog_def
proof (induction ms)
  case (Cons m ms)
  then show ?case using operation_rank_le [of m] by simp
qed simp

end
