(* ===== verification/Executor_Claims.thy ===== *)
theory Executor_Claims
  imports Executor_Demo Executor_Live
begin

text \<open>
  The properties of the executor: what a whole \<open>Execute\<close> leaves in the journal, what its candidates are,
  what it makes of failures, and when it has nothing left to do.
\<close>

section \<open>Execute and the reducer\<close>

lemma accepted_reduce: "valid_identifier (pl_id p) \<Longrightarrow> accepted p evs \<Longrightarrow> all_timely evs \<Longrightarrow> \<exists>st. reduce p evs = Inr st"
  by (auto simp: accepted_def reduce_Inr)

lemma reduce_accepted: "reduce p evs = Inr st \<Longrightarrow> accepted p evs"
  by (auto simp: accepted_def reduce_Inr)

text \<open>C5  \<open>Execute\<close> writes only journals that can be read back.  Whatever the driver does within its contract,
  whatever writes, syncs, leases and contexts fail, and however many turns the loop takes, the journal that
  \<open>Execute\<close> leaves is accepted by the reducer, provided that the journal it was given was accepted and had no
  reconciliation left open, and that lease expiries are observed no earlier than their deadline.\<close>

theorem execute_keeps_journal_accepted:
  assumes "plan_wf p" and "driver_contract d" and "writer_sound w" and "reduce p (w_events w) = Inr st0"
    and "\<forall>i. \<not> reconciling_after i (w_events w)"
    and "execute (append_locked marshal) w_events ctx e p run d envs (w, m) = ((w', m'), v)"
    and "\<forall>x \<in> set (w_events w'). timely x"
  shows "\<exists>st. reduce p (w_events w') = Inr st"
proof (rule accepted_reduce)
  show "accepted p (w_events w')"
    using journal.execute_kept [OF assms(1-3) reduce_accepted [OF assms(4)] assms(5,6)] by blast
qed (use assms(1,7) in \<open>simp_all add: plan_wf_def all_timely_def\<close>)

theorem execute_keeps_journal_accepted_witness:
  "\<exists>w v st. execute (append_locked (\<lambda>_. Inr [])) w_events (Some None) demo_executor demo_plan ''x'' demo_driver [demo_turn]
      (fresh_writer, demo_leases) = ((w, demo_leases), v) \<and> w_events w = [demo_start ! 0, demo_ready]
    \<and> reduce demo_plan (w_events w) = Inr st"
proof -
  obtain w v where w: "execute (append_locked (\<lambda>_. Inr [])) w_events (Some None) demo_executor demo_plan ''x'' demo_driver
      [demo_turn] (fresh_writer, demo_leases) = ((w, demo_leases), v)" "w_events w = [demo_start ! 0, demo_ready]"
    using demo_execute by blast
  have fresh: "writer_sound fresh_writer" "w_events fresh_writer = []"
    by (simp_all add: writer_sound_def fresh_writer_def)
  have "\<exists>st. reduce demo_plan [] = Inr st" by (simp add: reduce_def demo_plan_valid)
  then obtain st0 where "reduce demo_plan (w_events fresh_writer) = Inr st0" using fresh(2) by auto
  from execute_keeps_journal_accepted [OF demo_plan_wf demo_contract fresh(1) this _ w(1)]
  obtain st where "reduce demo_plan (w_events w) = Inr st"
    by (auto simp: fresh w(2) timely_def demo_start_def demo_ready_def run_event_def op_event_def)
  with w show ?thesis by blast
qed

text \<open>C6  A reconciliation that was started and never ended leaves a journal that the next run destroys.
  The derived state does not show the open reconciliation, so once the lease is gone the operation is a
  candidate again, and the \<open>RECONCILE_STARTED\<close> that \<open>prepareTask\<close> appends is one that the reducer rejects:
  no continuation of that journal is ever accepted.\<close>

theorem interrupted_reconciliation_is_fatal:
  assumes "plan_wf p" and "reduce p evs = Inr state" and "reconciling_after i evs"
    and "derived_operation state i = Some o1" and "\<not> os_lease_active o1"
    and "(i, os_attempt o1) \<notin> pr_reconciled pr \<union> pr_deferred pr"
  shows "\<exists>t \<in> set (batch_of e p state pr). task_id t = i \<and>
    (\<forall>mid x rest. (\<forall>y \<in> set mid. \<not> refreshes (e_type y)) \<longrightarrow> event_entry x = prepare_entry run t \<longrightarrow>
       (\<exists>err. reduce p (evs @ mid @ x # rest) = Inl err))"
proof -
  from assms(2) obtain rd where red: "reduces p evs rd" and state: "state = derived_of p rd" by (auto simp: reduce_Inr)
  from assms(4) obtain m where m: "map_of (rd_operations rd) i = Some m" and o1: "o1 = operation_state.truncate m"
    by (auto simp: state derived_operation_at [OF red] simp del: map_of_eq_Some_iff)
  have dist: "distinct (map op_id (pl_operations p))" using assms(1) by (simp add: plan_wf_def)
  obtain op where op: "map_of (operation_index p) i = Some op"
    using reduces_op_static [OF red m] map_of_is_SomeI [of "operation_index p"] dist
    by (fastforce simp: operation_index_eq [OF dist] comp_def)
  have id: "os_id o1 = i" using reduces_ids [OF red map_of_SomeD [OF m]] by (simp add: o1)
  have rec: "os_reconcile_required o1"
    using reduces_op_inv [OF red m] reconciling_iff [OF red m] assms(3) by (auto simp: op_inv_def o1)
  let ?t0 = "new_task TaskReconcile op o1"
  have "candidate (ex_max_attempts e) (ex_reconcile_only e) (operation_index p) (pr_reconciled pr) (pr_deferred pr)
      (ds_cancelled state) o1 = Some ?t0"
    using op id rec assms(5,6) by (simp add: candidate_def)
  moreover have "o1 \<in> set (ds_operations state)"
    using map_of_SomeD [OF m] by (force simp: state ds_operations_derived o1)
  ultimately have in_batch: "with_requirements p ?t0 \<in> set (batch_of e p state pr)"
    by (force simp: batch_of_def candidates_def set_map_filter)
  have op_i: "op_id op = i" by (rule operation_index_at(2) [OF dist op])
  have fatal: "\<exists>err. reduce p (evs @ mid @ x # rest) = Inl err"
    if mid: "\<forall>y \<in> set mid. \<not> refreshes (e_type y)" and x: "event_entry x = prepare_entry run (with_requirements p ?t0)" for mid x rest
  proof (rule ccontr)
    assume "\<not> ?thesis"
    then obtain st where "reduce p (evs @ mid @ x # rest) = Inr st" by (cases "reduce p (evs @ mid @ x # rest)") auto
    then obtain s where "reduces p ((evs @ mid) @ x # rest) s" by (auto simp: reduce_Inr)
    moreover have xt: "e_type x = EventReconcileStarted" "concerns i x"
      using event_entry_fields [OF x] op_i by (auto simp: new_task_def concerns_def is_run_event_def)
    ultimately obtain t n n1 where t: "reduces p (evs @ mid) t" "map_of (rd_operations t) i = Some n"
      "operation_step (rd_operations t) x n = Inr n1"
      using reduces_split_own [of p "evs @ mid" x rest s i] by metis
    have "reconciling_after i (evs @ mid)"
      using assms(3) mid by (induction mid rule: rev_induct) (auto simp: append_assoc [symmetric] simp del: append_assoc)
    then have "mo_reconciling n" using reconciling_iff [OF t(1,2)] by simp
    with t(3) xt(1) show False by (simp add: operation_step_def step_reconcile_started_def split: if_splits)
  qed
  show ?thesis
  proof (intro bexI [OF _ in_batch] conjI allI impI)
    show "task_id (with_requirements p ?t0) = i" using op_i by (simp add: new_task_def)
  qed (rule fatal)
qed

text \<open>A run that died between the start and the end of a reconciliation.\<close>

definition open_journal :: "event list" where
  "open_journal = demo_start @ [demo_lost, op_event 4 EventReconcileStarted ''a'' (attempt_payload 1)]"

lemma open_journal_reduces:
  "\<exists>s m. reduces demo_plan open_journal s \<and> map_of (rd_operations s) ''a'' = Some m \<and> \<not> os_lease_active m"
  by (simp add: open_journal_def demo_journal_defs reduce_eval)

theorem interrupted_reconciliation_is_fatal_witness:
  "\<exists>state t. reduce demo_plan open_journal = Inr state
    \<and> t \<in> set (batch_of demo_executor demo_plan state \<lparr>pr_reconciled = {}, pr_deferred = {}\<rparr>)
    \<and> (\<exists>err. reduce demo_plan (open_journal @ [new_event 5 1 (prepare_entry ''x'' t)]) = Inl err)"
proof -
  obtain s m where s: "reduces demo_plan open_journal s" "map_of (rd_operations s) ''a'' = Some m" "\<not> os_lease_active m"
    using open_journal_reduces by blast
  let ?d = "derived_of demo_plan s"
  have red: "reduce demo_plan open_journal = Inr ?d" using s(1) demo_plan_valid by (auto simp: reduce_Inr)
  have at: "derived_operation ?d ''a'' = Some (operation_state.truncate m)" by (simp add: derived_operation_at [OF s(1)] s(2))
  have started: "reconciling_after ''a'' open_journal"
    by (simp add: open_journal_def demo_journal_defs reconciling_after_def concerns_def is_run_event_def run_event_def op_event_def)
  obtain t where t: "t \<in> set (batch_of demo_executor demo_plan ?d \<lparr>pr_reconciled = {}, pr_deferred = {}\<rparr>)"
    "\<forall>mid x rest. (\<forall>y \<in> set mid. \<not> refreshes (e_type y)) \<longrightarrow> event_entry x = prepare_entry ''x'' t \<longrightarrow>
       (\<exists>err. reduce demo_plan (open_journal @ mid @ x # rest) = Inl err)"
    using interrupted_reconciliation_is_fatal [OF demo_plan_wf red started at, of "\<lparr>pr_reconciled = {}, pr_deferred = {}\<rparr>"
        demo_executor "''x''"] s(3) by auto
  from t(2) [rule_format, of "[]" "new_event 5 1 (prepare_entry ''x'' t)" "[]"] t(1) red show ?thesis by auto
qed

section \<open>Candidates\<close>

text \<open>The order of a batch.\<close>

definition before_in_batch :: "task \<Rightarrow> task \<Rightarrow> bool" where
  "before_in_batch t u \<longleftrightarrow> (tk_kind t = TaskReconcile \<and> tk_kind u = TaskApply) \<or> (tk_kind t = tk_kind u \<and> task_id t < task_id u)"

lemma batch_sorted:
  assumes "plan_wf p" and "reduces p evs rd"
  shows "sorted_wrt before_in_batch (batch_of e p (derived_of p rd) pr)"
proof -
  let ?b = "batch_of e p (derived_of p rd) pr"
  have "task_rank \<circ> with_requirements p = task_rank" by (simp add: fun_eq_iff task_rank_def)
  then have "sorted (map task_rank ?b)" by (simp add: batch_of_def candidates_def)
  then have "sorted_wrt (\<lambda>t u. task_rank t \<le> task_rank u) ?b" by (simp add: sorted_wrt_map)
  moreover have "sorted_wrt (\<lambda>t u. task_id t \<noteq> task_id u) ?b"
    using batch_distinct [OF assms] by (simp add: distinct_conv_nth sorted_wrt_iff_nth_less)
  ultimately have "sorted_wrt (\<lambda>t u. task_rank t \<le> task_rank u \<and> task_id t \<noteq> task_id u) ?b"
    by (simp add: sorted_wrt_iff_nth_less)
  then show ?thesis
  proof (rule sorted_wrt_mono_rel [rotated])
    fix t u assume "task_rank t \<le> task_rank u \<and> task_id t \<noteq> task_id u"
    then show "before_in_batch t u"
      by (cases "tk_kind t"; cases "tk_kind u") (auto simp: task_rank_def before_in_batch_def)
  qed
qed

text \<open>C8  The batch holds each operation at most once, reconciliations before applications and each in order
  of identifiers; no operation whose lease is active; an operation whose outcome is unknown only to be
  reconciled; and an operation to be applied only in a run that is not cancelled, when all its dependencies
  are published, and in a state from which an attempt may start.\<close>

theorem batch_is_safe:
  assumes "plan_wf p" and "reduce p evs = Inr state"
  shows "sorted_wrt before_in_batch (batch_of e p state pr) \<and>
    (\<forall>t \<in> set (batch_of e p state pr). derived_operation state (task_id t) = Some (tk_state t) \<and> \<not> os_lease_active (tk_state t)
      \<and> (if tk_kind t = TaskReconcile then os_reconcile_required (tk_state t)
         else \<not> os_reconcile_required (tk_state t) \<and> \<not> ds_cancelled state \<and> \<not> ex_reconcile_only e
           \<and> os_state (tk_state t) \<in> {StateReady, StateBlocked, StateFailed}
           \<and> (\<forall>i \<in> set (op_dependencies (tk_operation t)).
                map_option os_state (derived_operation state i) = Some StatePublished)))"
proof -
  from assms(2) obtain rd where red: "reduces p evs rd" and state: "state = derived_of p rd" by (auto simp: reduce_Inr)
  have each: "derived_operation state (task_id t) = Some (tk_state t) \<and> \<not> os_lease_active (tk_state t)
      \<and> (if tk_kind t = TaskReconcile then os_reconcile_required (tk_state t)
         else \<not> os_reconcile_required (tk_state t) \<and> \<not> ds_cancelled state \<and> \<not> ex_reconcile_only e
           \<and> os_state (tk_state t) \<in> {StateReady, StateBlocked, StateFailed}
           \<and> (\<forall>i \<in> set (op_dependencies (tk_operation t)).
                map_option os_state (derived_operation state i) = Some StatePublished))"
    if t: "t \<in> set (batch_of e p state pr)" for t
  proof -
    obtain m where m: "map_of (rd_operations rd) (task_id t) = Some m" "tk_state t = operation_state.truncate m"
      and ready: "ready_task p (rd_cancelled rd) t" by (rule batch_ready [OF assms(1) red t [unfolded state]])
    have at: "derived_operation state (task_id t) = Some (tk_state t)" by (simp add: state derived_operation_at [OF red] m)
    show ?thesis
    proof (cases "tk_kind t")
      case TaskReconcile
      with at ready show ?thesis by (simp add: ready_task_def)
    next
      case TaskApply
      have ro: "\<not> ex_reconcile_only e"
        using t TaskApply by (auto elim!: batch_ofE dest: candidate_Some)
      have "\<not> waiting_state (os_state m)" using ready TaskApply m(2) by (auto simp: ready_task_def waiting_state_def)
      from dependencies_invariant [OF red m(1) this] operation_index_static(3) [OF assms(1) red m(1) ready_index [OF ready]]
      have "set (op_dependencies (tk_operation t)) \<subseteq> published (rd_operations rd)" by simp
      then have "\<forall>i \<in> set (op_dependencies (tk_operation t)). map_option os_state (derived_operation state i) = Some StatePublished"
        by (auto simp: state derived_operation_at [OF red] in_published option.map_comp comp_def)
      with at ready TaskApply ro show ?thesis by (auto simp: ready_task_def state derived_of_def)
    qed
  qed
  have "sorted_wrt before_in_batch (batch_of e p state pr)" unfolding state by (rule batch_sorted [OF assms(1) red])
  with each show ?thesis by blast
qed

theorem batch_is_safe_witness:
  "\<exists>state. reduce demo_plan [demo_start ! 0] = Inr state
    \<and> sorted_wrt before_in_batch (batch_of demo_executor demo_plan state \<lparr>pr_reconciled = {}, pr_deferred = {}\<rparr>)"
  using started_state batch_is_safe [OF demo_plan_wf] by blast

text \<open>The attempt budget is counted without wrap-around: at most as many attempts were blocked as were
  started, so the 32-bit difference is the number of attempts that ran.\<close>

theorem budget_counts_attempts:
  assumes "reduce p evs = Inr state" and "derived_operation state i = Some o1"
  shows "os_blocked_attempts o1 \<le> os_attempt o1
    \<and> (budget_left max_attempts o1 \<longleftrightarrow> unat (os_attempt o1) - unat (os_blocked_attempts o1) < unat max_attempts)"
proof -
  from reduce_operation [OF assms] obtain s m where s: "reduces p evs s" "map_of (rd_operations s) i = Some m"
    and o1: "o1 = operation_state.truncate m" by metis
  have "unat (os_blocked_attempts m) \<le> unat (os_attempt m)" using reduces_op_inv [OF s] by (simp add: op_inv_def)
  then have le: "os_blocked_attempts o1 \<le> os_attempt o1" by (simp add: o1 word_le_nat_alt)
  then have "unat (os_attempt o1 - os_blocked_attempts o1) = unat (os_attempt o1) - unat (os_blocked_attempts o1)"
    by (rule unat_sub)
  with le show ?thesis by (simp add: budget_left_def word_less_nat_alt)
qed

theorem budget_counts_attempts_witness:
  "\<exists>o1. derived_operation demo_state ''a'' = Some o1 \<and> os_blocked_attempts o1 \<le> os_attempt o1"
proof -
  obtain o1 where o1: "derived_operation demo_state ''a'' = Some o1" using demo_operation_published by blast
  with budget_counts_attempts [OF demo_reduce o1] show ?thesis by blast
qed

section \<open>Failures\<close>

text \<open>An error leaves no doubt when it is a driver's own error, marked unambiguous, and neither a deadline nor a
  cancellation was involved.\<close>

definition conclusive :: "error option \<Rightarrow> call_error \<Rightarrow> bool" where
  "conclusive ctx ce \<longleftrightarrow> \<not> ce_deadline ce \<and> \<not> ce_canceled ce \<and> \<not> context_is ctx ErrDeadlineExceeded \<and> \<not> context_is ctx ErrCanceled
     \<and> (case valid_driver_error ce of None \<Rightarrow> False | Some d \<Rightarrow> \<not> de_ambiguous d)"

lemma decide_failure_reconciles:
  "fd_action (decide_failure stage se parent ctx ce) = FailureReconcile \<longleftrightarrow>
     stage = FailureAfterDispatch \<and> se \<and> \<not> conclusive ctx ce"
  by (auto simp: decide_failure_def classify_call_error_def decision_def conclusive_def Let_def split: option.splits)

text \<open>C7  A failed application of an operation is recorded by one event.  It is \<open>OUTCOME_AMBIGUOUS\<close>, which
  forces a reconciliation, exactly when a side effect was dispatched and the error is not conclusive; anything
  else is recorded as failed or cancelled.\<close>

theorem failure_is_ambiguous_iff_inconclusive:
  "\<exists>en. persist_apply_outcome put s parent ctx run op attempt begun dispatched res (Some ce)
      = (case put_entry put s en of (s', e) \<Rightarrow> (s', False, e))
    \<and> (en_type en = EventOutcomeAmbiguous \<longleftrightarrow> dispatched \<and> op_side_effecting op \<and> \<not> conclusive ctx ce)
    \<and> (en_type en \<in> {EventOutcomeAmbiguous, EventOperationFailed}
       \<or> en_type en = EventOperationResult \<and> pay_state (en_payload en) = StateCancelled)"
proof -
  let ?d = "decide_failure (failure_stage_of begun dispatched) (op_side_effecting op) parent ctx ce"
  let ?en = "if fd_action ?d = FailureReconcile then ambiguous_entry run op attempt (fd_code ?d)
    else result_entry run op attempt (if fd_cancelled ?d then StateCancelled else StateFailed) [] [] (fd_code ?d)
      (fd_action ?d = FailureRetryApply)"
  show ?thesis
    by (rule exI [of _ ?en])
      (auto simp: persist_apply_outcome_def Let_def explicit_event_def decide_failure_reconciles stage_dispatched)
qed

text \<open>The delay before a retry: none before the first attempt, then 250 ms, doubled with every completed
  attempt up to 4 s.\<close>

theorem backoff_is_bounded:
  "default_backoff n = (if n = 0 then 0 else 250000000 * 2 ^ min (unat n - 1) 4)
   \<and> default_backoff n \<in> {0..4000000000}"
proof -
  have shift: "unat (if n - 1 > 4 then 4 else n - 1) = min (unat n - 1) 4" if "n \<noteq> 0"
  proof -
    have "unat (n - 1) = unat n - 1" using that by (simp add: unat_minus_one)
    then show ?thesis by (auto simp: word_less_nat_alt min_def)
  qed
  have "(2 :: int) ^ min (unat n - 1) 4 \<le> 2 ^ 4" by (rule power_increasing) simp_all
  then show ?thesis by (auto simp: default_backoff_def Let_def shift)
qed

section \<open>The end of a run\<close>

text \<open>Executing a completed run again changes nothing: no event is appended, no lease is taken, and its
  derived state is returned.\<close>

theorem completed_run_is_left_alone:
  assumes "reduce p (events s) = Inr state" and "ds_completed state" and "ds_run_id state = run"
    and "execute_error ctx e p run = None"
  shows "execute put events ctx e p run d envs (s, ml) = ((s, ml), Return state None)"
proof -
  from assms(1) obtain rd where red: "reduces p (events s) rd" and state: "state = derived_of p rd" by (auto simp: reduce_Inr)
  have "events s \<noteq> []" using header_invariant [OF red] assms(2) by (simp add: header_ok_def state derived_of_def)
  with assms show ?thesis by (simp add: execute_def open_run_def)
qed

theorem completed_run_is_left_alone_witness:
  "execute (append_locked (\<lambda>_. Inr [])) w_events (Some None) demo_executor demo_plan ''x'' demo_driver [demo_turn]
     (fresh_writer\<lparr>w_events := demo_journal\<rparr>, demo_leases) = ((fresh_writer\<lparr>w_events := demo_journal\<rparr>, demo_leases), Return demo_state None)"
proof (rule completed_run_is_left_alone)
  show "reduce demo_plan (w_events (fresh_writer\<lparr>w_events := demo_journal\<rparr>)) = Inr demo_state" by (simp add: demo_reduce)
  obtain s where s: "reduces demo_plan demo_journal s" using demo_reduces by blast
  then have d: "demo_state = derived_of demo_plan s" by (simp add: demo_state_def reduce_def demo_plan_valid)
  have "rd_completed s \<and> rd_run_id s = ''x''"
    using header_invariant [OF s] by (auto simp: header_ok_def demo_journal_defs run_event_def op_event_def)
  then show "ds_completed demo_state" "ds_run_id demo_state = ''x''" unfolding d by (simp_all add: derived_of_def)
  show "execute_error (Some None) demo_executor demo_plan ''x'' = None"
    by (simp add: execute_error_def demo_executor_def demo_plan_valid checks text_eval)
qed

section \<open>Progress\<close>

lemma reduce_started:
  assumes "reduce p evs = Inr state" and "ds_started state" and "\<not> ds_completed state" and "ds_run_id state = run"
  obtains rd where "live_run p run evs rd" "state = derived_of p rd"
proof -
  from assms(1) obtain rd where "reduces p evs rd" "state = derived_of p rd" by (auto simp: reduce_Inr)
  with assms(2-4) that show thesis by (simp add: live_run_def derived_of_def)
qed

text \<open>C15  A turn of the loop that only maintains the journal, by recording expired leases, readiness, interrupted
  attempts or blocked operations, makes the backlog of the derived state smaller, and the backlog is at most
  five per operation: so the loop comes to run tasks, to finish, or to wait after at most that many such turns.\<close>

theorem maintenance_terminates:
  assumes "plan_wf p" and "writer_sound w" and "reduce p (w_events w) = Inr state"
    and "ds_started state" and "\<not> ds_completed state" and "ds_run_id state = run"
    and "\<forall>i. \<not> reconciling_after i (w_events w)"
    and "maintenance (append_locked marshal) max_attempts (operation_index p) run state now w = (w', Inr True)"
    and "\<forall>x \<in> set (w_events w'). timely x"
  shows "(\<exists>state'. reduce p (w_events w') = Inr state' \<and> backlog (ds_operations state') < backlog (ds_operations state))
    \<and> backlog (ds_operations state) \<le> 5 * length (ds_operations state)"
proof -
  obtain rd where live: "live_run p run (w_events w) rd" and state: "state = derived_of p rd"
    by (rule reduce_started [OF assms(3-6)])
  have red: "reduces p (w_events w) rd" "\<not> rd_completed rd" using live by (simp_all add: live_run_def)
  have "\<forall>i m. map_of (rd_operations rd) i = Some m \<longrightarrow> calm i m"
    using assms(7) reconciling_iff [OF red(1)] by (auto simp: calm_def)
  with live have "kept p run (w_events w)" by (auto simp: kept_def live_run_def)
  from journal.maintenance_kept [OF assms(1,2) this red assms(8) [unfolded state]]
  have "progressed p rd (w_events w')" by simp
  then obtain rd' where "reduces p (w_events w') rd'"
    "backlog (map snd (rd_operations rd')) < backlog (map snd (rd_operations rd))"
    using assms(9) by (auto simp: progressed_def all_timely_def)
  moreover have "valid_identifier (pl_id p)" using assms(1) by (simp add: plan_wf_def)
  ultimately have "reduce p (w_events w') = Inr (derived_of p rd')"
    "backlog (ds_operations (derived_of p rd')) < backlog (ds_operations state)"
    by (auto simp: reduce_Inr state backlog_derived)
  with backlog_bound show ?thesis by blast
qed

theorem maintenance_terminates_witness:
  "\<exists>state state' (w' :: writer). reduce demo_plan (w_events started_writer) = Inr state \<and> w_events w' = [demo_start ! 0, demo_ready]
    \<and> reduce demo_plan (w_events w') = Inr state' \<and> backlog (ds_operations state') < backlog (ds_operations state)"
proof -
  obtain d where d: "reduce demo_plan [demo_start ! 0] = Inr d" "ds_run_id d = ''x''" "\<not> ds_completed d" "\<not> ds_cancelled d"
    "ready_entries ''x'' d = [event_entry demo_ready]" "\<And>t. expire_entries ''x'' d t = []"
    using started_state started_entries by metis
  obtain w where w: "append_locked (\<lambda>_. Inr []) started_writer (event_entry demo_ready) = (w, Inr demo_ready)"
    "w_events w = [demo_start ! 0, demo_ready]" using ready_append by blast
  have red: "reduce demo_plan (w_events started_writer) = Inr d" by (simp add: started_writer_fields d(1))
  obtain rd where "reduces demo_plan [demo_start ! 0] rd" "d = derived_of demo_plan rd" using d(1) by (auto simp: reduce_Inr)
  then have started: "ds_started d" using header_invariant [of demo_plan "[demo_start ! 0]" rd]
    by (simp add: header_ok_def derived_of_def)
  have sound: "writer_sound started_writer" by (simp add: writer_sound_def started_writer_fields)
  have calm: "\<forall>i. \<not> reconciling_after i (w_events started_writer)"
    by (simp add: started_writer_fields reconciling_after_def concerns_def is_run_event_def demo_start_def run_event_def)
  have pass: "maintenance (append_locked (\<lambda>_. Inr [])) 3 (operation_index demo_plan) ''x'' d 1 started_writer = (w, Inr True)"
    by (simp add: maintenance_def d expire_journal_leases_def journal_ready_operations_def run_pass_def w)
  have time: "\<forall>x \<in> set (w_events w). timely x"
    by (simp add: w(2) timely_def demo_start_def demo_ready_def run_event_def op_event_def)
  from maintenance_terminates [OF demo_plan_wf sound red started d(3,2) calm pass time]
  obtain state' where "reduce demo_plan (w_events w) = Inr state'" "backlog (ds_operations state') < backlog (ds_operations d)"
    by blast
  with red w(2) have "reduce demo_plan (w_events started_writer) = Inr d \<and> w_events w = [demo_start ! 0, demo_ready]
    \<and> reduce demo_plan (w_events w) = Inr state' \<and> backlog (ds_operations state') < backlog (ds_operations d)" by (intro conjI)
  then show ?thesis by blast
qed



text \<open>The expiry pass is safe as long as the writer's clock has reached the time the pass decided with: the
  journal it leaves, wherever it stops, is accepted.\<close>

theorem expiry_pass_is_accepted:
  assumes "plan_wf p" and "writer_sound w" and "reduce p (w_events w) = Inr state"
    and "ds_started state" and "\<not> ds_completed state" and "ds_run_id state = run" and "clock_reached now w"
    and "expire_journal_leases (append_locked marshal) run state now w = (w', r)"
  shows "\<exists>state'. reduce p (w_events w') = Inr state' \<and> ds_cancelled state' = ds_cancelled state"
proof -
  obtain rd where live: "live_run p run (w_events w) rd" and state: "state = derived_of p rd"
    by (rule reduce_started [OF assms(3-6)])
  have batch: "batch_ok (\<lambda>e. now \<le> e_observed_at e) run rd (expire_entries run state now)"
    unfolding state by (rule expire_batch [OF live]) (auto simp: lease_due_def)
  obtain x where "append_each (append_locked marshal) w (expire_entries run state now) = (w', x)"
    using assms(8) by (auto simp: expire_journal_leases_def run_pass_def split: prod.splits option.splits)
  from clocked.batch_accepted [OF assms(2,7) live batch this] assms(1)
  show ?thesis by (auto simp: reduce_Inr plan_wf_def live_run_def state derived_of_def)
qed

theorem expiry_pass_is_accepted_witness:
  "\<exists>state state' w'. reduce demo_plan (w_events leased_writer) = Inr state
    \<and> expire_journal_leases (append_locked (\<lambda>_. Inr [])) ''x'' state 5 leased_writer = (w', Inr True)
    \<and> reduce demo_plan (w_events w') = Inr state' \<and> ds_cancelled state' = ds_cancelled state"
proof -
  obtain d where d: "reduce demo_plan (w_events leased_writer) = Inr d" "ds_run_id d = ''x''" "\<not> ds_completed d" "ds_started d"
    "expire_entries ''x'' d 5 = [event_entry demo_expired]" using leased_state by metis
  obtain w where w: "append_locked (\<lambda>_. Inr []) leased_writer (event_entry demo_expired) = (w, Inr demo_expired)"
    using expired_append by blast
  have sound: "writer_sound leased_writer" by (simp add: writer_sound_def leased_writer_def)
  have clock: "clock_reached 5 leased_writer" by (simp add: clock_reached_def leased_writer_def fresh_writer_def)
  have pass: "expire_journal_leases (append_locked (\<lambda>_. Inr [])) ''x'' d 5 leased_writer = (w, Inr True)"
    by (simp add: expire_journal_leases_def run_pass_def d w)
  from expiry_pass_is_accepted [OF demo_plan_wf sound d(1,4,3,2) clock pass] d(1) pass show ?thesis by blast
qed

end
