(* ===== verification/Protocol_Message.thy ===== *)
theory Protocol_Message
  imports Domain_Plan
begin

text \<open>
  The messages between the host and a provider process and their validation: \<open>messages.go\<close>,
  \<open>envelope.go\<close> and \<open>error.go\<close> of \<open>internal/protocol\<close>.  A string type with named constants is a
  datatype with one more constructor for every other text.  A raw JSON message is its bytes; the
  code never tells an absent one from an empty one.
\<close>

section \<open>Text\<close>

definition validate_text_max :: "string \<Rightarrow> string \<Rightarrow> nat \<Rightarrow> bool \<Rightarrow> error option" where
  "validate_text_max name value bound optional =
     (if value = [] then (if optional then None else Some (Errorf ''%s must not be empty'' [name]))
      else if \<not> valid_string value then Some (Errorf ''%s must be valid UTF-8'' [name])
      else if length value > bound then Some (Errorf ''%s exceeds %d bytes'' [name])
      else if trim_space value \<noteq> value
        then Some (Errorf ''%s must not have surrounding whitespace'' [name])
      else check_control name value)"

definition validate_version :: "string \<Rightarrow> error option" where
  "validate_version value = first_error [
     validate_text_max ''protocol version'' value 16 False,
     fail_if (\<exists>(r, _) \<in> set (rune_chunks value). case r of None \<Rightarrow> True | Some u \<Rightarrow> u < 48 \<or> 57 < u)
       (Errorf ''protocol version must be numeric'' [])]"

definition protocol_version :: string where
  "protocol_version = ''1''"

lemma validate_text_max_iff:
  "validate_text_max n v bound opt = None \<longleftrightarrow>
     (v = [] \<and> opt) \<or> (v \<noteq> [] \<and> valid_string v \<and> length v \<le> bound \<and> trim_space v = v \<and> \<not> has_control v)"
  by (auto simp: validate_text_max_def check_control_def)

lemma validate_text_max_text: "validate_text_max n v bound opt = None \<Longrightarrow> validate_text m v opt = None"
  by (auto simp: validate_text_max_iff validate_text_iff)

lemma validate_text_max_identifier [simp]: "validate_text_max n v 256 False = None \<longleftrightarrow> valid_identifier v"
  by (auto simp: validate_text_max_iff validate_identifier_iff [of "''identifier''"] valid_identifier_def
      simp del: validate_identifier_valid)

definition validate_json :: "string \<Rightarrow> string \<Rightarrow> error option" where
  "validate_json message raw = fail_if (raw = [] \<or> \<not> json_valid raw) (Errorf message [])"

definition validate_optional_json :: "string \<Rightarrow> string \<Rightarrow> error option" where
  "validate_optional_json message raw = fail_if (raw \<noteq> [] \<and> \<not> json_valid raw) (Errorf message [])"

lemma validate_json_None [checks]: "validate_json m raw = None \<longleftrightarrow> json_value_valid raw"
  by (auto simp: validate_json_def json_value_valid_def)

section \<open>Describe\<close>

datatype capability = CapabilityPlan | CapabilityApply | CapabilityReconcile | CapabilityOther string

fun capability_valid :: "capability \<Rightarrow> bool" where
  "capability_valid (CapabilityOther _) = False"
| "capability_valid _ = True"

fun capability_text :: "capability \<Rightarrow> string" where
  "capability_text CapabilityPlan = ''plan''"
| "capability_text CapabilityApply = ''apply''"
| "capability_text CapabilityReconcile = ''reconcile''"
| "capability_text (CapabilityOther s) = s"

record provider_identity =
  pi_name :: string
  pi_version :: string

definition provider_identity_validate :: "provider_identity \<Rightarrow> error option" where
  "provider_identity_validate p = first_error [
     validate_text_max ''provider name'' (pi_name p) 256 False,
     validate_text_max ''provider version'' (pi_version p) 256 False]"

record message_requirement =
  mr_kind :: string
  mr_name :: string
  mr_metadata :: string

definition message_requirement_validate :: "message_requirement \<Rightarrow> error option" where
  "message_requirement_validate r = first_error [
     validate_text_max ''requirement kind'' (mr_kind r) 128 False,
     validate_text_max ''requirement name'' (mr_name r) 256 False,
     validate_optional_json ''requirement metadata must be valid JSON'' (mr_metadata r)]"

record describe_response =
  dr_provider :: provider_identity
  dr_protocol_versions :: "string list"
  dr_capabilities :: "capability list"
  dr_requirements :: "message_requirement list"

definition check_protocol_version :: "string list \<Rightarrow> string \<Rightarrow> string list result" where
  "check_protocol_version seen version =
     (case validate_version version of
       Some err \<Rightarrow> Inl err
     | None \<Rightarrow> if version \<in> set seen then Inl (Errorf ''duplicate protocol version %q'' [version])
               else Inr (version # seen))"

definition check_capability :: "capability list \<Rightarrow> capability \<Rightarrow> capability list result" where
  "check_capability seen c =
     (if \<not> capability_valid c then Inl (Errorf ''invalid capability %q'' [capability_text c])
      else if c \<in> set seen then Inl (Errorf ''duplicate capability %q'' [capability_text c])
      else Inr (c # seen))"

text \<open>The error of a loop that only checks.\<close>

definition loop_error :: "('s \<Rightarrow> 'a \<Rightarrow> 's result) \<Rightarrow> 's \<Rightarrow> 'a list \<Rightarrow> error option" where
  "loop_error f s xs = (case for_each f s xs of Inl err \<Rightarrow> Some err | Inr _ \<Rightarrow> None)"

lemma loop_error_None [checks]: "loop_error f s xs = None \<longleftrightarrow> (\<exists>t. for_each f s xs = Inr t)"
  by (auto simp: loop_error_def split: sum.splits)

definition describe_response_validate :: "describe_response \<Rightarrow> error option" where
  "describe_response_validate r = first_error [
     provider_identity_validate (dr_provider r),
     fail_if (dr_protocol_versions r = []) (Errorf ''describe response must contain protocol versions'' []),
     loop_error check_protocol_version [] (dr_protocol_versions r),
     loop_error check_capability [] (dr_capabilities r),
     first_error (map message_requirement_validate (dr_requirements r))]"

section \<open>Plan requests\<close>

definition validate_sha256 :: "string \<Rightarrow> error option" where
  "validate_sha256 value =
     (let ok = prefix ''sha256:'' value; encoded = drop 7 value in
      if \<not> ok \<or> length encoded \<noteq> 64 \<or> encoded \<noteq> to_lower encoded
      then Some (Errorf ''artifact digest must use sha256:<lowercase hex>'' [])
      else if hex_decode encoded = None then Some (Errorf ''artifact digest must use sha256:<lowercase hex>: %w'' [])
      else None)"

record message_artifact =
  ma_name :: string
  ma_digest :: string
  ma_size :: int
  ma_media_type :: string

definition message_artifact_validate :: "message_artifact \<Rightarrow> error option" where
  "message_artifact_validate a = first_error [
     validate_text_max ''artifact name'' (ma_name a) 1024 False,
     validate_sha256 (ma_digest a),
     fail_if (ma_size a < 0) (Errorf ''artifact size must not be negative'' []),
     validate_text_max ''artifact media type'' (ma_media_type a) 1024 True]"

record message_release =
  mrel_id :: string
  mrel_artifacts :: "message_artifact list"

definition check_message_artifact :: "string list \<Rightarrow> message_artifact \<Rightarrow> string list result" where
  "check_message_artifact names a =
     (case message_artifact_validate a of
       Some err \<Rightarrow> Inl err
     | None \<Rightarrow> if ma_name a \<in> set names then Inl (Errorf ''duplicate artifact name %q'' [ma_name a])
               else Inr (ma_name a # names))"

definition message_release_validate :: "message_release \<Rightarrow> error option" where
  "message_release_validate r = first_error [
     validate_text_max ''release ID'' (mrel_id r) 256 False,
     fail_if (mrel_artifacts r = []) (Errorf ''release must contain at least one artifact'' []),
     loop_error check_message_artifact [] (mrel_artifacts r)]"

record message_target =
  mt_id :: string
  mt_configuration :: string

definition message_target_validate :: "message_target \<Rightarrow> error option" where
  "message_target_validate t = first_error [
     validate_text_max ''target ID'' (mt_id t) 256 False,
     validate_json ''target configuration must be valid JSON'' (mt_configuration t)]"

record plan_request =
  pr_release :: message_release
  pr_target :: message_target

definition plan_request_validate :: "plan_request \<Rightarrow> error option" where
  "plan_request_validate r = first_error [message_release_validate (pr_release r), message_target_validate (pr_target r)]"

section \<open>Plan responses\<close>

record planned_operation =
  po_id :: string
  po_kind :: string
  po_dependencies :: "string list"
  po_side_effecting :: bool
  po_timeout_millis :: "64 word"
  po_provider_payload :: string

definition check_planned_dependency :: "string \<Rightarrow> string list \<Rightarrow> string \<Rightarrow> string list result" where
  "check_planned_dependency i seen dep =
     (case validate_text_max ''operation dependency'' dep 256 False of
       Some err \<Rightarrow> Inl err
     | None \<Rightarrow> if dep = i then Inl (Errorf ''operation cannot depend on itself'' [])
               else if dep \<in> set seen then Inl (Errorf ''duplicate operation dependency %q'' [dep])
               else Inr (dep # seen))"

definition planned_operation_validate :: "planned_operation \<Rightarrow> error option" where
  "planned_operation_validate o1 = first_error [
     validate_text_max ''operation ID'' (po_id o1) 256 False,
     validate_text_max ''operation kind'' (po_kind o1) 256 False,
     validate_json ''operation provider payload must be valid JSON'' (po_provider_payload o1),
     loop_error (check_planned_dependency (po_id o1)) [] (po_dependencies o1)]"

type_synonym planned_index = "(string \<times> planned_operation) list"

definition index_planned :: "planned_index \<Rightarrow> planned_operation \<Rightarrow> planned_index result" where
  "index_planned idx o1 =
     (case planned_operation_validate o1 of
       Some err \<Rightarrow> Inl err
     | None \<Rightarrow> if map_of idx (po_id o1) \<noteq> None then Inl (Errorf ''duplicate operation ID %q'' [po_id o1])
               else Inr (map_insert (po_id o1) o1 idx))"

definition check_planned_known :: "planned_index \<Rightarrow> planned_operation \<Rightarrow> error option" where
  "check_planned_known idx o1 = first_error (map (\<lambda>d.
     fail_if (map_of idx d = None) (Errorf ''operation %q references unknown dependency %q'' [po_id o1, d]))
     (po_dependencies o1))"

text \<open>
  \<open>validateOperationGraph\<close> is the loop of the domain's \<open>validateAcyclic\<close> over the planned operations: the
  maps it starts from are built here, the loop itself is \<open>kahn\<close>.
\<close>

definition planned_indegrees :: "planned_index \<Rightarrow> (string \<times> int) list" where
  "planned_indegrees ops = map (\<lambda>(i, o1). (i, int (length (po_dependencies o1)))) ops"

definition planned_queue :: "planned_index \<Rightarrow> string list" where
  "planned_queue ops = map fst (filter (\<lambda>(i, o1). length (po_dependencies o1) = 0) ops)"

definition planned_dependents :: "planned_index \<Rightarrow> string \<Rightarrow> string list" where
  "planned_dependents ops d =
     concat (map (\<lambda>(i, o1). map (\<lambda>_. i) (filter (\<lambda>e. e = d) (po_dependencies o1))) ops)"

definition validate_operation_graph :: "planned_index \<Rightarrow> error option" where
  "validate_operation_graph ops =
     fail_if (kahn (planned_dependents ops) (planned_indegrees ops) (planned_queue ops) 0 \<noteq> length ops)
       (Errorf ''operation dependency graph contains a cycle'' [])"

record plan_response =
  ps_operations :: "planned_operation list"
  ps_requirements :: "message_requirement list"

definition plan_response_validate :: "plan_response \<Rightarrow> error option" where
  "plan_response_validate r =
     (case for_each index_planned [] (ps_operations r) of
       Inl err \<Rightarrow> Some err
     | Inr idx \<Rightarrow> first_error [
         first_error (map (check_planned_known idx) (ps_operations r)),
         validate_operation_graph idx,
         first_error (map message_requirement_validate (ps_requirements r))])"

section \<open>Execution\<close>

definition validate_execution_request ::
  "string \<Rightarrow> string \<Rightarrow> string \<Rightarrow> string \<Rightarrow> 32 word \<Rightarrow> string \<Rightarrow> error option" where
  "validate_execution_request p target i key attempt raw = first_error [
     validate_text_max ''plan ID'' p 512 False, validate_text_max ''target ID'' target 512 False,
     validate_text_max ''operation ID'' i 512 False, validate_text_max ''idempotency key'' key 512 False,
     fail_if (attempt = 0) (Errorf ''attempt must be greater than zero'' []),
     validate_json ''provider payload must be valid JSON'' raw]"

record apply_request =
  ar_plan_id :: string
  ar_target_id :: string
  ar_operation_id :: string
  ar_idempotency_key :: string
  ar_attempt :: "32 word"
  ar_provider_payload :: string

definition apply_request_validate :: "apply_request \<Rightarrow> error option" where
  "apply_request_validate r = validate_execution_request (ar_plan_id r) (ar_target_id r) (ar_operation_id r)
     (ar_idempotency_key r) (ar_attempt r) (ar_provider_payload r)"

datatype message_state = ResultWaitingExternal | ResultPublished | ResultRejected | ResultOther string

fun result_state_valid :: "message_state \<Rightarrow> bool" where
  "result_state_valid (ResultOther _) = False"
| "result_state_valid _ = True"

fun result_state_text :: "message_state \<Rightarrow> string" where
  "result_state_text ResultWaitingExternal = ''WAITING_EXTERNAL''"
| "result_state_text ResultPublished = ''PUBLISHED''"
| "result_state_text ResultRejected = ''REJECTED''"
| "result_state_text (ResultOther s) = s"

record distribution_result =
  dres_state :: message_state
  dres_provider_state :: string
  dres_evidence :: string

definition distribution_result_validate :: "distribution_result \<Rightarrow> error option" where
  "distribution_result_validate r = first_error [
     fail_if (\<not> result_state_valid (dres_state r)) (Errorf ''invalid result state %q'' [result_state_text (dres_state r)]),
     validate_text_max ''provider state'' (dres_provider_state r) 1024 True,
     validate_json ''result evidence must be valid JSON'' (dres_evidence r)]"

record reconcile_request = apply_request +
  rr_previous :: "distribution_result option"

definition reconcile_request_validate :: "reconcile_request \<Rightarrow> error option" where
  "reconcile_request_validate r = first_error [
     validate_execution_request (ar_plan_id r) (ar_target_id r) (ar_operation_id r)
       (ar_idempotency_key r) (ar_attempt r) (ar_provider_payload r),
     (case rr_previous r of None \<Rightarrow> None | Some d \<Rightarrow> distribution_result_validate d)]"

section \<open>Errors of a provider\<close>

datatype error_code = ErrorProtocol | ErrorConfiguration | ErrorAuthentication | ErrorAuthorization
  | ErrorTransientExternal | ErrorPermanentExternal | ErrorRejected | ErrorTimeout | ErrorCancelled
  | ErrorProviderInternal | ErrorAmbiguousOutcome | ErrorCodeOther string

fun error_code_valid :: "error_code \<Rightarrow> bool" where
  "error_code_valid (ErrorCodeOther _) = False"
| "error_code_valid _ = True"

fun error_code_text :: "error_code \<Rightarrow> string" where
  "error_code_text ErrorProtocol = ''PROTOCOL_ERROR''"
| "error_code_text ErrorConfiguration = ''CONFIGURATION_ERROR''"
| "error_code_text ErrorAuthentication = ''AUTHENTICATION_ERROR''"
| "error_code_text ErrorAuthorization = ''AUTHORIZATION_ERROR''"
| "error_code_text ErrorTransientExternal = ''TRANSIENT_EXTERNAL_ERROR''"
| "error_code_text ErrorPermanentExternal = ''PERMANENT_EXTERNAL_ERROR''"
| "error_code_text ErrorRejected = ''REJECTED''"
| "error_code_text ErrorTimeout = ''TIMEOUT''"
| "error_code_text ErrorCancelled = ''CANCELLED''"
| "error_code_text ErrorProviderInternal = ''PROVIDER_INTERNAL_ERROR''"
| "error_code_text ErrorAmbiguousOutcome = ''AMBIGUOUS_OUTCOME''"
| "error_code_text (ErrorCodeOther s) = s"

record provider_error =
  pe_code :: error_code
  pe_message :: string
  pe_retryable :: bool
  pe_details :: string

definition provider_error_validate :: "provider_error \<Rightarrow> error option" where
  "provider_error_validate e = first_error [
     fail_if (\<not> error_code_valid (pe_code e)) (Errorf ''invalid error code %q'' [error_code_text (pe_code e)]),
     validate_text_max ''error message'' (pe_message e) 4096 False,
     validate_optional_json ''error details must be valid JSON'' (pe_details e)]"

definition new_provider_error :: "error_code \<Rightarrow> string \<Rightarrow> bool \<Rightarrow> provider_error" where
  "new_provider_error code message retryable =
     \<lparr>pe_code = code, pe_message = message, pe_retryable = retryable, pe_details = []\<rparr>"

section \<open>Envelopes\<close>

datatype protocol_operation = OperationDescribe | OperationPlan | OperationApply | OperationReconcile
  | OperationOther string

fun protocol_operation_valid :: "protocol_operation \<Rightarrow> bool" where
  "protocol_operation_valid (OperationOther _) = False"
| "protocol_operation_valid _ = True"

fun protocol_operation_text :: "protocol_operation \<Rightarrow> string" where
  "protocol_operation_text OperationDescribe = ''describe''"
| "protocol_operation_text OperationPlan = ''plan''"
| "protocol_operation_text OperationApply = ''apply''"
| "protocol_operation_text OperationReconcile = ''reconcile''"
| "protocol_operation_text (OperationOther s) = s"

record envelope =
  env_protocol_version :: string
  env_request_id :: string
  env_operation :: protocol_operation
  env_payload :: string

type_synonym protocol_request = envelope

definition envelope_head_error :: "'a envelope_scheme \<Rightarrow> error option" where
  "envelope_head_error r = first_error [
     validate_version (env_protocol_version r),
     validate_text_max ''request ID'' (env_request_id r) 128 False,
     validate_text_max ''operation'' (protocol_operation_text (env_operation r)) 32 False]"

definition protocol_request_validate :: "protocol_request \<Rightarrow> error option" where
  "protocol_request_validate r = first_error [
     envelope_head_error r,
     validate_json ''request payload must be valid JSON'' (env_payload r)]"

definition check_version :: "protocol_request \<Rightarrow> error option" where
  "check_version r = fail_if (env_protocol_version r \<noteq> protocol_version)
     (Errorf ''unsupported protocol version %q'' [env_protocol_version r])"

datatype status = StatusOK | StatusError | StatusOther string

record protocol_response = envelope +
  res_status :: status
  res_error :: "provider_error option"

definition protocol_response_validate :: "protocol_response \<Rightarrow> error option" where
  "protocol_response_validate r = first_error [
     envelope_head_error r,
     (case res_status r of
       StatusOther s \<Rightarrow> Some (Errorf ''invalid response status %q'' [s])
     | StatusOK \<Rightarrow> first_error [
         fail_if (res_error r \<noteq> None) (Errorf ''successful response must not contain an error'' []),
         validate_json ''successful response payload must be valid JSON'' (env_payload r)]
     | StatusError \<Rightarrow> first_error [
         fail_if (env_payload r \<noteq> []) (Errorf ''error response must not contain a payload'' []),
         (case res_error r of
           None \<Rightarrow> Some (Errorf ''error response must contain an error'' [])
         | Some e \<Rightarrow> provider_error_validate e)])]"

definition check_correlation :: "protocol_response \<Rightarrow> protocol_request \<Rightarrow> error option" where
  "check_correlation r request = first_error [
     fail_if (env_protocol_version r \<noteq> env_protocol_version request)
       (Errorf ''response protocol version %q does not match request %q'' [env_protocol_version r, env_protocol_version request]),
     fail_if (env_request_id r \<noteq> env_request_id request)
       (Errorf ''response request ID %q does not match request %q'' [env_request_id r, env_request_id request]),
     fail_if (env_operation r \<noteq> env_operation request)
       (Errorf ''response operation %q does not match request %q''
         [protocol_operation_text (env_operation r), protocol_operation_text (env_operation request)])]"

section \<open>What validation promises\<close>

text \<open>The planned operations as a graph of the domain.\<close>

definition as_operation :: "planned_operation \<Rightarrow> operation" where
  "as_operation o1 = \<lparr>op_id = po_id o1, op_target_id = [], op_provider = \<lparr>provider_name = [], provider_version = []\<rparr>,
     op_kind = po_kind o1, op_dependencies = po_dependencies o1, op_side_effecting = po_side_effecting o1,
     op_idempotency_key = [], op_timeout = 0, op_provider_payload = po_provider_payload o1\<rparr>"

abbreviation as_index :: "planned_index \<Rightarrow> op_index" where
  "as_index ops \<equiv> map (map_prod id as_operation) ops"

definition planned_rel :: "planned_operation list \<Rightarrow> (string \<times> string) set" where
  "planned_rel ops = {(d, po_id o1) | d o1. o1 \<in> set ops \<and> d \<in> set (po_dependencies o1)}"

lemma as_operation_simps [simp]: "op_id (as_operation o1) = po_id o1" "op_dependencies (as_operation o1) = po_dependencies o1"
  by (simp_all add: as_operation_def)

lemma validate_operation_graph_eq: "validate_operation_graph ops = validate_acyclic (as_index ops)"
proof -
  have "planned_dependents ops = dependents (as_index ops)"
    by (rule ext) (simp add: planned_dependents_def dependents_def comp_def case_prod_unfold)
  moreover have "planned_indegrees ops = indegrees (as_index ops)" "planned_queue ops = initial_queue (as_index ops)"
    by (simp_all add: planned_indegrees_def indegrees_def planned_queue_def initial_queue_def filter_map comp_def case_prod_unfold)
  ultimately show ?thesis by (simp add: validate_operation_graph_def validate_acyclic_def)
qed

definition planned_ok :: "planned_operation \<Rightarrow> bool" where
  "planned_ok o1 \<longleftrightarrow> valid_identifier (po_id o1) \<and> valid_identifier (po_kind o1) \<and> json_value_valid (po_provider_payload o1)
     \<and> distinct (po_dependencies o1) \<and> (\<forall>d \<in> set (po_dependencies o1). valid_identifier d \<and> d \<noteq> po_id o1)"

lemma check_planned_dependencies_Inr:
  "(\<exists>t. for_each (check_planned_dependency i) seen deps = Inr t) \<longleftrightarrow>
     (\<forall>d \<in> set deps. valid_identifier d \<and> d \<noteq> i) \<and> distinct deps \<and> set deps \<inter> set seen = {}"
proof (induction deps arbitrary: seen)
  case (Cons d deps)
  have "check_planned_dependency i seen d = Inr s \<longleftrightarrow> valid_identifier d \<and> d \<noteq> i \<and> d \<notin> set seen \<and> s = d # seen" for s
    unfolding validate_text_max_identifier [of "''operation dependency''", symmetric]
    by (auto simp: check_planned_dependency_def simp del: validate_text_max_identifier split: option.splits)
  then show ?case using Cons.IH [of "d # seen"] by (auto simp: bind_result_Inr)
qed simp

lemma planned_operation_validate_None: "planned_operation_validate o1 = None \<longleftrightarrow> planned_ok o1"
  by (auto simp: planned_operation_validate_def planned_ok_def checks check_planned_dependencies_Inr)

lemma index_planned_Inr:
  "for_each index_planned idx ops = Inr idx' \<longleftrightarrow>
     (\<forall>o1 \<in> set ops. planned_ok o1 \<and> po_id o1 \<notin> fst ` set idx) \<and> distinct (map po_id ops)
     \<and> idx' = idx @ map (\<lambda>o1. (po_id o1, o1)) ops"
proof (induction ops arbitrary: idx)
  case (Cons o1 ops)
  have "index_planned idx o1 = Inr i \<longleftrightarrow> planned_ok o1 \<and> po_id o1 \<notin> fst ` set idx \<and> i = idx @ [(po_id o1, o1)]" for i
    by (auto simp: index_planned_def planned_operation_validate_None [symmetric] map_insert_fresh map_of_eq_None_iff
        split: option.splits)
  then show ?case by (auto simp: bind_result_Inr Cons.IH image_iff)
qed auto

lemma planned_rel_eq: "planned_rel ops = dependency_rel (map as_operation ops)"
proof -
  have "dependency_rel os = (\<Union>op \<in> set os. (\<lambda>d. (d, op_id op)) ` set (op_dependencies op))" for os
    by (auto simp: dependency_rel_def)
  moreover have "planned_rel ops = (\<Union>o1 \<in> set ops. (\<lambda>d. (d, po_id o1)) ` set (po_dependencies o1))"
    by (auto simp: planned_rel_def)
  ultimately show ?thesis by simp
qed

lemma plan_response_validate_None:
  "plan_response_validate r = None \<longleftrightarrow>
     (\<forall>o1 \<in> set (ps_operations r). planned_ok o1 \<and> set (po_dependencies o1) \<subseteq> po_id ` set (ps_operations r))
     \<and> distinct (map po_id (ps_operations r)) \<and> acyclic (planned_rel (ps_operations r))
     \<and> (\<forall>q \<in> set (ps_requirements r). message_requirement_validate q = None)"
proof -
  let ?ops = "ps_operations r" and ?idx = "map (\<lambda>o1. (po_id o1, o1)) (ps_operations r)"
  have known: "first_error (map (check_planned_known ?idx) ?ops) = None \<longleftrightarrow>
      (\<forall>o1 \<in> set ?ops. set (po_dependencies o1) \<subseteq> po_id ` set ?ops)"
    by (auto simp: first_error_map_None check_planned_known_def map_of_eq_None_iff image_image)
  have acyc: "validate_operation_graph ?idx = None \<longleftrightarrow> acyclic (planned_rel ?ops)"
    if d: "distinct (map po_id ?ops)" and ok: "\<forall>o1 \<in> set ?ops. planned_ok o1 \<and> set (po_dependencies o1) \<subseteq> po_id ` set ?ops"
  proof -
    have eq: "as_index ?idx = map (\<lambda>op. (op_id op, op)) (map as_operation ?ops)" by simp
    have d': "distinct (map op_id (map as_operation ?ops))" using d by (simp add: comp_def)
    have "graph_ok (as_index ?idx)" using d ok by (auto simp: graph_ok_def comp_def image_image planned_ok_def)
    then show ?thesis
      unfolding validate_operation_graph_eq planned_rel_eq using validate_acyclic_iff graph_rel_index [OF d'] eq by metis
  qed
  show ?thesis
  proof (cases "for_each index_planned [] ?ops")
    case (Inl err)
    then have "\<not> ((\<forall>o1 \<in> set ?ops. planned_ok o1) \<and> distinct (map po_id ?ops))"
      using index_planned_Inr [of "[]" ?ops ?idx] by auto
    with Inl show ?thesis by (auto simp: plan_response_validate_def)
  next
    case (Inr idx)
    then have "idx = ?idx" "\<forall>o1 \<in> set ?ops. planned_ok o1" "distinct (map po_id ?ops)"
      by (auto simp: index_planned_Inr)
    moreover from this Inr have "plan_response_validate r = None \<longleftrightarrow> first_error (map (check_planned_known ?idx) ?ops) = None
        \<and> validate_operation_graph ?idx = None \<and> (\<forall>q \<in> set (ps_requirements r). message_requirement_validate q = None)"
      by (simp add: plan_response_validate_def first_error_Cons first_error_map_None)
    ultimately show ?thesis unfolding known using acyc by blast
  qed
qed

end
