(* ===== verification/Go_Utf8.thy ===== *)
theory Go_Utf8
  imports Go_Text
begin

text \<open>
  Encoding and decoding of runes agree, and valid strings can be taken apart and put together: the facts
  the JSON printer needs.
\<close>

lemma char_eq_iff_byte: "c = d \<longleftrightarrow> byte c = byte d"
  by (simp add: byte_def)

lemma char_of_byte [simp]: "char_of (byte c) = c"
  by (simp add: byte_def)

lemma base64_digit: "r < 64 \<Longrightarrow> (q * 64 + r) div 64 = q" "r < 64 \<Longrightarrow> (q * 64 + r) mod 64 = r" for q r :: nat
  by simp_all

lemma base64_next:
  "u div 64 = u div 4096 * 64 + u div 64 mod 64" "u div 4096 = u div 262144 * 64 + u div 4096 mod 64" for u :: nat
proof -
  have "u div 4096 = u div 64 div 64" "u div 262144 = u div 4096 div 64" by (simp_all add: div_mult2_eq [symmetric])
  then show "u div 64 = u div 4096 * 64 + u div 64 mod 64" "u div 4096 = u div 262144 * 64 + u div 4096 mod 64"
    by (simp_all only: div_mult_mod_eq)
qed

section \<open>Decoding looks at the first rune only\<close>

lemma decode_rune_prefix:
  assumes "decode_rune (c # cs) = (Some u, n)"
  shows "decode_rune (take n (c # cs) @ t) = (Some u, n)"
proof -
  obtain lo hi where r: "second_range (byte c) = (lo, hi)" by fastforce
  show ?thesis
    using assms
    by (auto simp: decode_rune.simps(2) r Let_def split: if_splits list.splits)
qed

lemma decode_rune_Cons_prefix:
  assumes "decode_rune (c # cs) = (Some u, n)"
  shows "decode_rune (c # take (n - 1) cs @ t) = (Some u, n)"
  using decode_rune_prefix [OF assms, of t] decode_rune_width [OF assms] by (cases n) simp_all

text \<open>The rune that was decoded is a scalar value, and its encoding is what was read.\<close>

definition scalar_value :: "nat \<Rightarrow> bool" where
  "scalar_value u \<longleftrightarrow> u < 0x110000 \<and> \<not> (0xD800 \<le> u \<and> u \<le> 0xDFFF)"

lemma chars_of_bytes: "[c, c1] = [char_of (byte c), char_of (byte c1)]"
  by simp

lemma decode_rune_encoded:
  assumes "decode_rune (c # cs) = (Some u, n)"
  shows "take n (c # cs) = encode_rune u \<and> scalar_value u"
proof -
  obtain lo hi where r: "second_range (byte c) = (lo, hi)" by fastforce
  consider (one) "byte c < 0x80" | (two) "0xC2 \<le> byte c \<and> byte c \<le> 0xDF"
    | (three) "0xE0 \<le> byte c \<and> byte c \<le> 0xEF" | (four) "0xF0 \<le> byte c \<and> byte c \<le> 0xF4"
    using assms by (auto simp: decode_rune.simps(2) r Let_def split: if_splits)
  then show ?thesis
  proof cases
    case one
    then show ?thesis using assms by (auto simp: encode_rune_def scalar_value_def)
  next
    case two
    then obtain c1 cs1 where c1: "cs = c1 # cs1" "0x80 \<le> byte c1" "byte c1 \<le> 0xBF" "n = 2"
      and u: "u = (byte c - 0xC0) * 64 + (byte c1 - 0x80)"
      using assms by (auto simp: decode_rune.simps(2) second_range_def Let_def continuation_def split: if_splits list.splits)
    define x y where "x = byte c - 0xC0" and "y = byte c1 - 0x80"
    have b: "byte c = 0xC0 + x" "byte c1 = 0x80 + y" "2 \<le> x" "x < 32" "y < 64"
      using two c1 by (auto simp: x_def y_def)
    have u': "u = x * 64 + y" using u by (simp add: x_def y_def)
    have "\<not> u < 0x80" "u < 0x800" "u div 64 = x" "u mod 64 = y" using b by (simp_all add: u')
    moreover have "char_of (0xC0 + x) = c" "char_of (0x80 + y) = c1" unfolding b(1,2) [symmetric] by simp_all
    ultimately show ?thesis using c1 by (simp add: encode_rune_def scalar_value_def)
  next
    case three
    then obtain c1 c2 cs2 where cs: "cs = c1 # c2 # cs2" "0x80 \<le> byte c1" "byte c1 \<le> 0xBF" "0x80 \<le> byte c2" "byte c2 \<le> 0xBF" "n = 3"
      "byte c = 0xE0 \<longrightarrow> 0xA0 \<le> byte c1" "byte c = 0xED \<longrightarrow> byte c1 \<le> 0x9F"
      and u: "u = (byte c - 0xE0) * 4096 + (byte c1 - 0x80) * 64 + (byte c2 - 0x80)"
      using assms by (auto simp: decode_rune.simps(2) second_range_def Let_def continuation_def split: if_splits list.splits)
    define x y z where "x = byte c - 0xE0" and "y = byte c1 - 0x80" and "z = byte c2 - 0x80"
    have b: "byte c = 0xE0 + x" "byte c1 = 0x80 + y" "byte c2 = 0x80 + z" "x < 16" "y < 64" "z < 64"
      using three cs by (auto simp: x_def y_def z_def)
    have u': "u = (x * 64 + y) * 64 + z" using u by (simp add: x_def y_def z_def)
    have "u div 64 = x * 64 + y" "u mod 64 = z" unfolding u' using b by (simp_all only: base64_digit)
    moreover have "u div 4096 = x"
    proof -
      have "u div 4096 = u div 64 div 64" by (simp add: div_mult2_eq [symmetric])
      then show ?thesis using b calculation(1) by simp
    qed
    moreover have "u div 64 mod 64 = y" using b calculation(1) by simp
    moreover have "\<not> u < 0x800" using b cs(7) by (cases "x = 0") (auto simp: u')
    moreover have "u < 0x10000" using b by (simp add: u')
    moreover have "\<not> (0xD800 \<le> u \<and> u \<le> 0xDFFF)"
    proof (cases x "13 :: nat" rule: linorder_cases)
      case equal
      then have "y < 32" using b cs(8) by simp
      with equal b show ?thesis by (simp add: u')
    qed (use b in \<open>simp_all add: u'\<close>)
    moreover have "char_of (0xE0 + x) = c" "char_of (0x80 + y) = c1" "char_of (0x80 + z) = c2"
      unfolding b(1-3) [symmetric] by simp_all
    ultimately show ?thesis using cs by (simp add: encode_rune_def scalar_value_def)
  next
    case four
    then obtain c1 c2 c3 cs3 where cs: "cs = c1 # c2 # c3 # cs3" "0x80 \<le> byte c1" "byte c1 \<le> 0xBF" "0x80 \<le> byte c2" "byte c2 \<le> 0xBF"
      "0x80 \<le> byte c3" "byte c3 \<le> 0xBF" "n = 4" "byte c = 0xF0 \<longrightarrow> 0x90 \<le> byte c1" "byte c = 0xF4 \<longrightarrow> byte c1 \<le> 0x8F"
      and u: "u = (byte c - 0xF0) * 262144 + (byte c1 - 0x80) * 4096 + (byte c2 - 0x80) * 64 + (byte c3 - 0x80)"
      using assms by (auto simp: decode_rune.simps(2) second_range_def Let_def continuation_def split: if_splits list.splits)
    define w x y z where "w = byte c - 0xF0" and "x = byte c1 - 0x80" and "y = byte c2 - 0x80" and "z = byte c3 - 0x80"
    have b: "byte c = 0xF0 + w" "byte c1 = 0x80 + x" "byte c2 = 0x80 + y" "byte c3 = 0x80 + z" "w < 5" "x < 64" "y < 64" "z < 64"
      using four cs by (auto simp: w_def x_def y_def z_def)
    have u': "u = ((w * 64 + x) * 64 + y) * 64 + z" using u by (simp add: w_def x_def y_def z_def)
    have q: "u div 64 = (w * 64 + x) * 64 + y" "u mod 64 = z" unfolding u' using b by (simp_all only: base64_digit)
    moreover have q2: "u div 4096 = w * 64 + x"
    proof -
      have "u div 4096 = u div 64 div 64" by (simp add: div_mult2_eq [symmetric])
      then show ?thesis using b q(1) by simp
    qed
    moreover have "u div 262144 = w"
    proof -
      have "u div 262144 = u div 4096 div 64" by (simp add: div_mult2_eq [symmetric])
      then show ?thesis using b q2 by simp
    qed
    moreover have "u div 64 mod 64 = y" "u div 4096 mod 64 = x" unfolding q(1) q2 using b by (simp_all only: base64_digit)
    moreover have "\<not> u < 0x10000" using b cs(9) by (cases "w = 0") (auto simp: u')
    moreover have "u < 0x110000" using b cs(10) by (cases "w = 4") (auto simp: u')
    moreover have "char_of (0xF0 + w) = c" "char_of (0x80 + x) = c1" "char_of (0x80 + y) = c2" "char_of (0x80 + z) = c3"
      unfolding b(1-4) [symmetric] by simp_all
    ultimately show ?thesis using cs by (simp add: encode_rune_def scalar_value_def)
  qed
qed

section \<open>Valid strings\<close>

lemma valid_string_Nil [simp]: "valid_string []"
  by (simp add: valid_string_def)

lemma valid_string_step:
  assumes "decode_rune (c # cs) = (Some u, n)"
  shows "valid_string (c # cs) \<longleftrightarrow> valid_string (drop (n - 1) cs)"
  using assms by (simp add: valid_string_def)

lemma valid_string_Cons:
  assumes "valid_string (c # cs)"
  obtains u n where "decode_rune (c # cs) = (Some u, n)" "valid_string (drop (n - 1) cs)"
proof -
  obtain r n where d: "decode_rune (c # cs) = (r, n)" by fastforce
  with assms that show thesis by (cases r) (auto simp: valid_string_def)
qed

lemma rune_chunks_append: "valid_string s \<Longrightarrow> rune_chunks (s @ t) = rune_chunks s @ rune_chunks t"
proof (induction s rule: rune_chunks.induct)
  case (2 c cs)
  obtain u n where d: "decode_rune (c # cs) = (Some u, n)" "valid_string (drop (n - 1) cs)"
    using "2.prems" by (rule valid_string_Cons)
  note w = decode_rune_width [OF d(1)]
  have d': "decode_rune (c # cs @ t) = (Some u, n)"
    using decode_rune_Cons_prefix [OF d(1), of "drop (n - 1) cs @ t"] by (metis append_assoc append_take_drop_id)
  have "take (n - Suc 0) (cs @ t) = take (n - Suc 0) cs" "drop (n - Suc 0) (cs @ t) = drop (n - Suc 0) cs @ t" using w by simp_all
  then show ?case using "2.IH" d d' w by (simp add: take_Cons')
qed simp

lemma valid_string_append: "valid_string s \<Longrightarrow> valid_string (s @ t) \<longleftrightarrow> valid_string t"
  by (simp add: valid_string_def rune_chunks_append)

lemma valid_string_ascii: "list_all (\<lambda>c. byte c < 0x80) s \<Longrightarrow> valid_string s"
  by (induction s) (simp_all add: valid_string_step [OF decode_rune_ascii])

lemma valid_string_ascii_Cons [simp]: "byte c < 0x80 \<Longrightarrow> valid_string (c # s) \<longleftrightarrow> valid_string s"
  by (simp add: valid_string_step [OF decode_rune_ascii])

lemma decode_encode_rune:
  assumes "scalar_value u"
  shows "decode_rune (encode_rune u @ t) = (Some u, length (encode_rune u))"
proof -
  have u: "u < 0x110000" "\<not> (0xD800 \<le> u \<and> u \<le> 0xDFFF)" using assms by (simp_all add: scalar_value_def)
  consider "u < 0x80" | "0x80 \<le> u" "u < 0x800" | "0x800 \<le> u" "u < 0x10000" | "0x10000 \<le> u" by linarith
  then show ?thesis
  proof cases
    case 1
    then show ?thesis by (simp add: encode_rune_def)
  next
    case 2
    define x y where "x = u div 64" and "y = u mod 64"
    have b: "u = x * 64 + y" "y < 64" "2 \<le> x" "x < 32" using 2 by (simp_all add: x_def y_def)
    then show ?thesis using 2
      by (simp add: encode_rune_def x_def [symmetric] y_def [symmetric] decode_rune.simps(2) second_range_def continuation_def)
  next
    case 3
    define x y z where "x = u div 4096" and "y = u div 64 mod 64" and "z = u mod 64"
    have b: "y < 64" "z < 64" "x < 16" using 3 by (simp_all add: x_def y_def z_def)
    have "u = u div 64 * 64 + z" "u div 64 = x * 64 + y" using base64_next [of u] by (simp_all add: x_def y_def z_def)
    then have u_eq: "u = x * 4096 + y * 64 + z" by linarith
    have lo: "32 \<le> y" if "x = 0" using that 3(1) u_eq b by linarith
    have hi: "y < 32" if "x = 13"
    proof (rule ccontr)
      assume "\<not> y < 32"
      then have "0xD800 \<le> u" "u \<le> 0xDFFF" using that u_eq b by linarith+
      with u(2) show False by simp
    qed
    have e: "encode_rune u = [char_of (0xE0 + x), char_of (0x80 + y), char_of (0x80 + z)]"
      using 3 by (simp add: encode_rune_def x_def y_def z_def)
    have bytes: "byte (char_of (0xE0 + x)) = 0xE0 + x" "byte (char_of (0x80 + y)) = 0x80 + y" "byte (char_of (0x80 + z)) = 0x80 + z"
      using b by simp_all
    obtain l h where r: "second_range (0xE0 + x) = (l, h)" "l \<le> 0x80 + y" "0x80 + y \<le> h"
      using b lo hi by (cases "x = 0"; cases "x = 13") (simp_all add: second_range_def)
    have "decode_rune (char_of (0xE0 + x) # char_of (0x80 + y) # char_of (0x80 + z) # t) = (Some (x * 4096 + y * 64 + z), 3)"
      unfolding decode_rune.simps(2) bytes Let_def r(1) using r(2,3) b by (simp add: continuation_def bytes)
    then show ?thesis unfolding e by (simp add: u_eq)
  next
    case 4
    define w x y z where "w = u div 262144" and "x = u div 4096 mod 64" and "y = u div 64 mod 64" and "z = u mod 64"
    have b: "x < 64" "y < 64" "z < 64" "w < 5" using 4 u(1) by (simp_all add: w_def x_def y_def z_def)
    have "u = u div 64 * 64 + z" "u div 64 = u div 4096 * 64 + y" "u div 4096 = w * 64 + x"
      using base64_next [of u] by (simp_all add: w_def x_def y_def z_def)
    then have u_eq: "u = w * 262144 + x * 4096 + y * 64 + z" by linarith
    have lo: "16 \<le> x" if "w = 0" using that 4 u_eq b by linarith
    have hi: "x < 16" if "w = 4" using that u(1) u_eq b by linarith
    have e: "encode_rune u = [char_of (0xF0 + w), char_of (0x80 + x), char_of (0x80 + y), char_of (0x80 + z)]"
      using 4 by (simp add: encode_rune_def w_def x_def y_def z_def)
    have bytes: "byte (char_of (0xF0 + w)) = 0xF0 + w" "byte (char_of (0x80 + x)) = 0x80 + x"
      "byte (char_of (0x80 + y)) = 0x80 + y" "byte (char_of (0x80 + z)) = 0x80 + z"
      using b by simp_all
    obtain l h where r: "second_range (0xF0 + w) = (l, h)" "l \<le> 0x80 + x" "0x80 + x \<le> h"
      using b lo hi by (cases "w = 0"; cases "w = 4") (simp_all add: second_range_def)
    have "decode_rune (char_of (0xF0 + w) # char_of (0x80 + x) # char_of (0x80 + y) # char_of (0x80 + z) # t)
        = (Some (w * 262144 + x * 4096 + y * 64 + z), 4)"
      unfolding decode_rune.simps(2) bytes Let_def r(1) using r(2,3) b by (simp add: continuation_def bytes)
    then show ?thesis unfolding e by (simp add: u_eq)
  qed
qed

lemma encode_rune_nonempty [simp]: "encode_rune u \<noteq> []"
  by (simp add: encode_rune_def)

lemma valid_encode_rune: "scalar_value u \<Longrightarrow> valid_string (encode_rune u)"
proof -
  assume u: "scalar_value u"
  obtain c cs where e: "encode_rune u = c # cs" by (cases "encode_rune u") simp_all
  have "decode_rune (c # cs) = (Some u, length (c # cs))" using decode_encode_rune [OF u, of "[]"] by (simp add: e)
  from valid_string_step [OF this] show ?thesis by (simp add: e)
qed

end
