(* ===== verification/Go_Json_Print.thy ===== *)
theory Go_Json_Print
  imports Go_Utf8 Go_Json
begin

text \<open>
  What the code uses of \<open>json.Marshal\<close>: strings with the HTML escaping that is its default, decoded values
  (\<open>any\<close> holding maps, slices, strings, numbers kept as text, booleans and nil; the keys of a map are
  sorted), structs as their fields in order, and the compaction of a raw message.  What is printed
  parses to what was printed.
\<close>

section \<open>Strings\<close>

definition escape_ascii :: "nat \<Rightarrow> string" where
  "escape_ascii u =
     (if u = 0x22 \<or> u = 0x5C then [CHR 0x5C, char_of u]
      else if u = 8 then [CHR 0x5C, CHR ''b''] else if u = 12 then [CHR 0x5C, CHR ''f'']
      else if u = 10 then [CHR 0x5C, CHR ''n''] else if u = 13 then [CHR 0x5C, CHR ''r'']
      else if u = 9 then [CHR 0x5C, CHR ''t'']
      else if u < 0x20 \<or> u = 0x3C \<or> u = 0x3E \<or> u = 0x26
        then [CHR 0x5C, CHR ''u'', CHR ''0'', CHR ''0'', hex_char (u div 16), hex_char (u mod 16)]
      else [char_of u])"

definition escape_chunk :: "nat option \<times> string \<Rightarrow> string" where
  "escape_chunk = (\<lambda>(r, bs). case r of
     None \<Rightarrow> CHR 0x5C # ''ufffd''
   | Some u \<Rightarrow> if u < 0x80 then escape_ascii u
       else if u = 0x2028 \<or> u = 0x2029 then [CHR 0x5C, CHR ''u'', CHR ''2'', CHR ''0'', CHR ''2'', hex_char (u mod 16)]
       else bs)"

definition escape_string :: "string \<Rightarrow> string" where
  "escape_string s = concat (map escape_chunk (rune_chunks s))"

definition json_quote :: "string \<Rightarrow> string" where
  "json_quote s = CHR 0x22 # escape_string s @ [CHR 0x22]"

lemma byte_CHR [simp]: "byte CHR 0x22 = 0x22" "byte CHR 0x5C = 0x5C" "byte CHR ''u'' = 0x75"
  by (simp_all add: byte_def)

lemma parse_string_escape_ascii:
  assumes "u < 0x80"
  shows "parse_string (escape_ascii u @ t) = prepend [char_of u] (parse_string t)"
proof -
  have "simple_escape (char_of u) = Some (char_of u)" if "u = 0x22 \<or> u = 0x5C"
    using that by (auto simp: simple_escape_def)
  moreover have "simple_escape CHR ''b'' = Some (char_of (8 :: nat))" "simple_escape CHR ''f'' = Some (char_of (12 :: nat))"
    "simple_escape CHR ''n'' = Some (char_of (10 :: nat))" "simple_escape CHR ''r'' = Some (char_of (13 :: nat))"
    "simple_escape CHR ''t'' = Some (char_of (9 :: nat))"
    by (simp_all add: simple_escape_def byte_def)
  moreover have "byte CHR ''b'' \<noteq> 0x75" "byte CHR ''f'' \<noteq> 0x75" "byte CHR ''n'' \<noteq> 0x75" "byte CHR ''r'' \<noteq> 0x75"
    "byte CHR ''t'' \<noteq> 0x75" by (simp_all add: byte_def)
  moreover have "hex4 (CHR ''0'' # CHR ''0'' # hex_char (u div 16) # hex_char (u mod 16) # t) = Some (u, t)"
  proof -
    have "is_hex (hex_char (u div 16))" "is_hex (hex_char (u mod 16))" "hex_digit (hex_char (u div 16)) = u div 16"
      "hex_digit (hex_char (u mod 16)) = u mod 16" using assms by (simp_all add: lower_hex_is_hex)
    moreover have "is_hex CHR ''0''" "hex_digit CHR ''0'' = 0" by (simp_all add: is_hex_def hex_digit_def byte_def)
    ultimately show ?thesis by simp
  qed
  ultimately show ?thesis using assms
    by (auto simp: escape_ascii_def encode_rune_def)
qed

lemma parse_string_escape_separator:
  assumes "u = 0x2028 \<or> u = 0x2029"
  shows "parse_string (CHR 0x5C # CHR ''u'' # CHR ''2'' # CHR ''0'' # CHR ''2'' # hex_char (u mod 16) # t)
    = prepend (encode_rune u) (parse_string t)"
proof -
  have d: "is_hex CHR ''2''" "hex_digit CHR ''2'' = 2" "is_hex CHR ''0''" "hex_digit CHR ''0'' = 0"
    by (simp_all add: is_hex_def hex_digit_def byte_def)
  have "hex4 (CHR ''2'' # CHR ''0'' # CHR ''2'' # hex_char (u mod 16) # t) = Some (0x2020 + u mod 16, t)"
    using d by (simp add: lower_hex_is_hex)
  moreover have "0x2020 + u mod 16 = u" using assms by auto
  ultimately show ?thesis using assms by auto
qed

lemma prepend_prepend [simp]: "prepend p (prepend q r) = prepend (p @ q) r"
  by (cases r) (auto simp: prepend_def)

lemma prepend_simp [simp]: "prepend p (Some (t, r)) = Some (p @ t, r)"
  by (simp add: prepend_def)

lemma parse_string_escape:
  "valid_string s \<Longrightarrow> parse_string (escape_string s @ t) = prepend s (parse_string t)"
proof (induction s rule: rune_chunks.induct)
  case 1
  then show ?case by (cases "parse_string t") (simp_all add: escape_string_def prepend_def)
next
  case (2 c cs)
  obtain u n where d: "decode_rune (c # cs) = (Some u, n)" "valid_string (drop (n - 1) cs)"
    using "2.prems" by (rule valid_string_Cons)
  let ?rest = "escape_string (drop (n - 1) cs) @ t"
  have n: "0 < n" using decode_rune_width [OF d(1)] by simp
  have split: "take n (c # cs) @ drop (n - 1) cs = c # cs" using n by (cases n) simp_all
  have enc: "take n (c # cs) = encode_rune u" using decode_rune_encoded [OF d(1)] by simp
  have esc: "escape_string (c # cs) @ t = escape_chunk (Some u, take n (c # cs)) @ ?rest"
    using d(1) by (simp add: escape_string_def)
  have "parse_string (escape_chunk (Some u, take n (c # cs)) @ ?rest) = prepend (take n (c # cs)) (parse_string ?rest)"
  proof (cases "u < 0x80")
    case True
    then have "take n (c # cs) = [char_of u]" by (simp add: enc encode_rune_def)
    with True show ?thesis by (simp add: escape_chunk_def parse_string_escape_ascii)
  next
    case big: False
    show ?thesis
    proof (cases "u = 0x2028 \<or> u = 0x2029")
      case True
      then show ?thesis using parse_string_escape_separator [OF True, of ?rest] enc big
        by (simp add: escape_chunk_def del: parse_string.simps)
    next
      case False
      obtain m where m: "n = Suc m" using n by (cases n) simp_all
      have d': "decode_rune (c # take m cs @ ?rest) = (Some u, n)" using decode_rune_Cons_prefix [OF d(1), of ?rest] by (simp add: m)
      have c: "0x80 \<le> byte c" using d(1) big decode_rune_ascii [of c cs] by fastforce
      have le: "m \<le> length cs" using decode_rune_width [OF d(1)] m by simp
      show ?thesis using c big False d' by (simp add: escape_chunk_def m le min_absorb2)
    qed
  qed
  also have "\<dots> = prepend (take n (c # cs)) (prepend (drop (n - 1) cs) (parse_string t))"
    using "2.IH" [OF refl] d by simp
  finally show ?case using esc split by simp
qed

lemma parse_string_quoted: "valid_string s \<Longrightarrow> parse_string (escape_string s @ CHR 0x22 # r) = Some (s, r)"
  using parse_string_escape [of s "CHR 0x22 # r"] by simp

section \<open>Numbers\<close>

text \<open>The grammar of numbers, and what may follow one without becoming part of it.\<close>

definition stops_digits :: "string \<Rightarrow> bool" where
  "stops_digits r \<longleftrightarrow> (case r of [] \<Rightarrow> True | c # _ \<Rightarrow> \<not> is_digit c)"

definition ends_number :: "string \<Rightarrow> bool" where
  "ends_number r \<longleftrightarrow> stops_digits r \<and> (case r of [] \<Rightarrow> True | c # _ \<Rightarrow> byte c \<noteq> 0x2E \<and> byte c \<noteq> 0x65 \<and> byte c \<noteq> 0x45)"

definition digits :: "string \<Rightarrow> bool" where
  "digits ds \<longleftrightarrow> ds \<noteq> [] \<and> list_all is_digit ds"

definition fraction_text :: "string \<Rightarrow> bool" where
  "fraction_text s \<longleftrightarrow> (case s of [] \<Rightarrow> True | p # ds \<Rightarrow> byte p = 0x2E \<and> digits ds)"

definition exponent_text :: "string \<Rightarrow> bool" where
  "exponent_text s \<longleftrightarrow> s = [] \<or> (\<exists>e sg ds. s = e # sg @ ds \<and> (byte e = 0x65 \<or> byte e = 0x45) \<and> digits ds
     \<and> (sg = [] \<or> (\<exists>x. sg = [x] \<and> (byte x = 0x2B \<or> byte x = 0x2D))))"

definition number_text :: "string \<Rightarrow> bool" where
  "number_text s \<longleftrightarrow> (\<exists>sg ip fp ep. s = sg @ ip @ fp @ ep \<and> (sg = [] \<or> (\<exists>x. sg = [x] \<and> byte x = 0x2D))
     \<and> digits ip \<and> (byte (hd ip) = 48 \<longrightarrow> tl ip = []) \<and> fraction_text fp \<and> exponent_text ep)"

lemma digits_prefix:
  assumes "list_all is_digit ds" and "stops_digits r"
  shows "takeWhile is_digit (ds @ r) = ds" and "dropWhile is_digit (ds @ r) = r"
  using assms by (induction ds) (auto simp: stops_digits_def split: list.splits)

lemma digits_takeWhile: "takeWhile is_digit s \<noteq> [] \<Longrightarrow> digits (takeWhile is_digit s)"
  unfolding digits_def list_all_iff using set_takeWhileD by metis

lemma not_digit [simp]: "byte c = 0x2B \<Longrightarrow> \<not> is_digit c" "byte c = 0x2D \<Longrightarrow> \<not> is_digit c" "byte c = 0x2E \<Longrightarrow> \<not> is_digit c"
  "byte c = 0x65 \<Longrightarrow> \<not> is_digit c" "byte c = 0x45 \<Longrightarrow> \<not> is_digit c"
  by (simp_all add: is_digit_def)

lemma parse_exponent_text:
  assumes "exponent_text s" and "ends_number r"
  shows "parse_exponent (s @ r) = Some (s, r)"
proof (cases "s = []")
  case True
  then show ?thesis using assms(2) by (auto simp: parse_exponent_def ends_number_def split: list.splits)
next
  case False
  then obtain e sg ds where s: "s = e # sg @ ds" "byte e = 0x65 \<or> byte e = 0x45" "digits ds"
    and sg: "sg = [] \<or> (\<exists>x. sg = [x] \<and> (byte x = 0x2B \<or> byte x = 0x2D))"
    using assms(1) by (auto simp: exponent_text_def)
  have r: "stops_digits r" using assms(2) by (simp add: ends_number_def)
  have all: "list_all is_digit ds" and "ds \<noteq> []" using s(3) by (simp_all add: digits_def)
  then obtain d ds' where d: "ds = d # ds'" "byte d \<noteq> 0x2B" "byte d \<noteq> 0x2D" by (cases ds) (auto simp: is_digit_def)
  note pre = digits_prefix [OF all r, unfolded d(1), simplified]
  from sg show ?thesis
  proof
    assume "sg = []"
    then show ?thesis using s(2) d pre by (simp add: s(1) parse_exponent_def)
  next
    assume "\<exists>x. sg = [x] \<and> (byte x = 0x2B \<or> byte x = 0x2D)"
    then show ?thesis using s(2) d pre by (auto simp: s(1) parse_exponent_def)
  qed
qed

lemma parse_fraction_text:
  assumes "fraction_text s" and "stops_digits r" and "\<not> (\<exists>c t. r = c # t \<and> byte c = 0x2E)"
  shows "parse_fraction (s @ r) = Some (s, r)"
proof (cases s)
  case Nil
  then show ?thesis using assms(3) by (auto simp: parse_fraction_def split: list.splits)
next
  case (Cons p ds)
  then have "byte p = 0x2E" "list_all is_digit ds" "ds \<noteq> []" using assms(1) by (auto simp: fraction_text_def digits_def)
  then show ?thesis using digits_prefix [OF _ assms(2)] by (simp add: Cons parse_fraction_def)
qed

lemma stops_text: "exponent_text ep \<Longrightarrow> ends_number r \<Longrightarrow> stops_digits (ep @ r) \<and> \<not> (\<exists>c t. ep @ r = c # t \<and> byte c = 0x2E)"
  by (auto simp: exponent_text_def ends_number_def stops_digits_def Cons_eq_append_conv append_eq_Cons_conv split: list.splits)

lemma parse_number_text:
  assumes "number_text s" and "ends_number r"
  shows "parse_number (s @ r) = Some (s, r)"
proof -
  obtain sg ip fp ep where s: "s = sg @ ip @ fp @ ep" "sg = [] \<or> (\<exists>x. sg = [x] \<and> byte x = 0x2D)"
    "digits ip" "byte (hd ip) = 48 \<longrightarrow> tl ip = []" "fraction_text fp" "exponent_text ep"
    using assms(1) unfolding number_text_def by blast
  note e = parse_exponent_text [OF s(6) assms(2)]
  have stop: "stops_digits (ep @ r)" "\<not> (\<exists>c t. ep @ r = c # t \<and> byte c = 0x2E)" using stops_text [OF s(6) assms(2)] by blast+
  note f = parse_fraction_text [OF s(5) stop]
  obtain d ds where d: "ip = d # ds" "is_digit d" "byte d \<noteq> 0x2D" using s(3) by (cases ip) (auto simp: digits_def is_digit_def)
  have "stops_digits (fp @ ep @ r)"
    using s(5) stop(1) by (cases fp) (auto simp: fraction_text_def stops_digits_def)
  with s(3) have i: "takeWhile is_digit (ip @ fp @ ep @ r) = ip" "dropWhile is_digit (ip @ fp @ ep @ r) = fp @ ep @ r"
    using digits_prefix by (simp_all add: digits_def)
  have int: "(if byte d = 48 then ([d], ds @ fp @ ep @ r) else (takeWhile is_digit (d # ds @ fp @ ep @ r), dropWhile is_digit (d # ds @ fp @ ep @ r)))
      = (ip, fp @ ep @ r)"
    using i s(4) by (simp add: d(1))
  from s(2) show ?thesis
  proof
    assume "sg = []"
    then show ?thesis using d(2,3) e f int unfolding parse_number_def s(1) d(1) by simp
  next
    assume "\<exists>x. sg = [x] \<and> byte x = 0x2D"
    then show ?thesis using d(2) e f int unfolding parse_number_def s(1) d(1) by auto
  qed
qed

lemma parse_exponent_Some: "parse_exponent s = Some (t, u) \<Longrightarrow> exponent_text t \<and> s = t @ u"
proof (cases s)
  case (Cons e v)
  assume p: "parse_exponent s = Some (t, u)"
  show ?thesis
  proof (cases "byte e = 0x65 \<or> byte e = 0x45")
    case False
    with p show ?thesis by (auto simp: Cons parse_exponent_def exponent_text_def)
  next
    case True
    define sg w where "sg = (case v of x # _ \<Rightarrow> if byte x = 0x2B \<or> byte x = 0x2D then [x] else [] | [] \<Rightarrow> [])"
      and "w = (case v of x # t' \<Rightarrow> if byte x = 0x2B \<or> byte x = 0x2D then t' else v | [] \<Rightarrow> v)"
    have c: "(case v of x # t' \<Rightarrow> if byte x = 0x2B \<or> byte x = 0x2D then ([x], t') else ([], v) | [] \<Rightarrow> ([], v)) = (sg, w)"
      by (cases v) (simp_all add: sg_def w_def)
    have v: "v = sg @ w" "sg = [] \<or> (\<exists>x. sg = [x] \<and> (byte x = 0x2B \<or> byte x = 0x2D))"
      by (cases v; simp add: sg_def w_def)+
    have "takeWhile is_digit w \<noteq> []" "t = e # sg @ takeWhile is_digit w" "u = dropWhile is_digit w"
      using p True unfolding parse_exponent_def Cons c by (auto simp: c Let_def split: if_splits)
    with v True digits_takeWhile [of w] show ?thesis
      unfolding exponent_text_def Cons by auto
  qed
qed (auto simp: parse_exponent_def exponent_text_def)

lemma parse_fraction_Some: "parse_fraction s = Some (t, u) \<Longrightarrow> fraction_text t \<and> s = t @ u"
  by (cases s) (auto simp: parse_fraction_def fraction_text_def Let_def digits_takeWhile split: if_splits)

lemma parse_number_Some: "parse_number s = Some (t, u) \<Longrightarrow> number_text t"
proof -
  assume p: "parse_number s = Some (t, u)"
  define sg b where "sg = (case s of x # _ \<Rightarrow> if byte x = 0x2D then [x] else [] | [] \<Rightarrow> [])"
    and "b = (case s of x # t' \<Rightarrow> if byte x = 0x2D then t' else s | [] \<Rightarrow> s)"
  have c: "(case s of x # t' \<Rightarrow> if byte x = 0x2D then ([x], t') else ([], s) | [] \<Rightarrow> ([], s)) = (sg, b)"
    by (cases s) (simp_all add: sg_def b_def)
  have sg: "sg = [] \<or> (\<exists>x. sg = [x] \<and> byte x = 0x2D)" by (cases s) (simp_all add: sg_def)
  obtain d v where b: "b = d # v" "is_digit d"
    using p unfolding parse_number_def c by (auto split: list.splits if_splits)
  define ip w where "ip = (if byte d = 48 then [d] else takeWhile is_digit (d # v))"
    and "w = (if byte d = 48 then v else dropWhile is_digit (d # v))"
  have iw: "(if byte d = 48 then ([d], v) else (takeWhile is_digit (d # v), dropWhile is_digit (d # v))) = (ip, w)"
    by (simp add: ip_def w_def)
  obtain fp w1 ep where f: "parse_fraction w = Some (fp, w1)" "parse_exponent w1 = Some (ep, u)" "t = sg @ ip @ fp @ ep"
    using p b unfolding parse_number_def c by (auto simp: iw simp del: if_split split: option.splits prod.splits if_split_asm)
  have "digits ip" using b(2) digits_takeWhile [of "d # v"] by (auto simp: ip_def digits_def)
  moreover have "byte (hd ip) = 48 \<longrightarrow> tl ip = []" using b(2) by (simp add: ip_def)
  moreover have "fraction_text fp" "exponent_text ep" using parse_fraction_Some [OF f(1)] parse_exponent_Some [OF f(2)] by simp_all
  ultimately show ?thesis using sg f(3) unfolding number_text_def by blast
qed

section \<open>Values and structs\<close>

fun comma_separated :: "string list \<Rightarrow> string" where
  "comma_separated [] = []"
| "comma_separated [x] = x"
| "comma_separated (x # y # xs) = x @ CHR '','' # comma_separated (y # xs)"

definition array_text :: "string list \<Rightarrow> string" where
  "array_text xs = CHR ''['' # comma_separated xs @ [CHR '']'']"

definition member_text :: "string \<times> string \<Rightarrow> string" where
  "member_text = (\<lambda>(k, v). json_quote k @ CHR '':'' # v)"

definition object_text :: "(string \<times> string) list \<Rightarrow> string" where
  "object_text fields = CHR ''{'' # comma_separated (map member_text fields) @ [CHR ''}'']"

fun marshal_json :: "json \<Rightarrow> string" where
  "marshal_json JNull = ''null''"
| "marshal_json (JBool b) = (if b then ''true'' else ''false'')"
| "marshal_json (JNumber t) = t"
| "marshal_json (JString t) = json_quote t"
| "marshal_json (JArray vs) = array_text (map marshal_json vs)"
| "marshal_json (JObject kvs) = object_text (sort_key fst (map (\<lambda>(k, v). (k, marshal_json v)) kvs))"

text \<open>\<open>strconv\<close>'s decimal text of an integer.\<close>

fun decimal :: "nat \<Rightarrow> string" where
  "decimal n = (if n < 10 then [char_of (48 + n)] else decimal (n div 10) @ [char_of (48 + n mod 10)])"

declare decimal.simps [simp del]

definition decimal_int :: "int \<Rightarrow> string" where
  "decimal_int i = (if i < 0 then CHR ''-'' # decimal (nat (- i)) else decimal (nat i))"

definition bool_text :: "bool \<Rightarrow> string" where
  "bool_text b = (if b then ''true'' else ''false'')"

text \<open>
  A raw message inside a value being marshalled: white space outside strings goes, and the characters that
  HTML would read are escaped wherever they are.  The flags say whether the next byte is in a string and whether
  it is escaped.
\<close>

fun compact_from :: "bool \<Rightarrow> bool \<Rightarrow> string \<Rightarrow> string" where
  "compact_from quoted escaped [] = []"
| "compact_from quoted escaped (c # cs) =
     (let rest = compact_from (if quoted then escaped \<or> byte c \<noteq> 0x22 else byte c = 0x22)
                   (quoted \<and> \<not> escaped \<and> byte c = 0x5C) cs in
      if byte c = 0x3C \<or> byte c = 0x3E \<or> byte c = 0x26
      then [CHR 0x5C, CHR ''u'', CHR ''0'', CHR ''0'', hex_char (byte c div 16), hex_char (byte c mod 16)] @ rest
      else if byte c = 0xE2 \<and> 1 < length cs \<and> byte (cs ! 0) = 0x80 \<and> (byte (cs ! 1) = 0xA8 \<or> byte (cs ! 1) = 0xA9)
      then CHR 0x5C # ''u202'' @ [hex_char (byte (cs ! 1) mod 16)] @ compact_from quoted False (drop 2 cs)
      else if \<not> quoted \<and> is_json_space c then rest
      else c # rest)"

definition raw_text :: "string \<Rightarrow> string" where
  "raw_text raw = (if raw = [] then ''null'' else compact_from False False raw)"

section \<open>Printed values\<close>

text \<open>What decoding yields: number texts, valid strings, maps.\<close>

fun json_ok :: "json \<Rightarrow> bool" where
  "json_ok (JNumber t) \<longleftrightarrow> number_text t"
| "json_ok (JString t) \<longleftrightarrow> valid_string t"
| "json_ok (JArray vs) \<longleftrightarrow> list_all json_ok vs"
| "json_ok (JObject kvs) \<longleftrightarrow> distinct (map fst kvs) \<and> list_all (\<lambda>(k, v). valid_string k \<and> json_ok v) kvs"
| "json_ok _ \<longleftrightarrow> True"

text \<open>The value with the members of every object in the order of their keys.\<close>

fun canonical_value :: "json \<Rightarrow> json" where
  "canonical_value (JArray vs) = JArray (map canonical_value vs)"
| "canonical_value (JObject kvs) = JObject (sort_key fst (map (\<lambda>(k, v). (k, canonical_value v)) kvs))"
| "canonical_value v = v"

lemma sort_key_map_snd: "sort_key fst (map (\<lambda>(k, v). (k, f v)) kvs) = map (\<lambda>(k, v). (k, f v)) (sort_key fst kvs)"
proof -
  have ins: "insort_key fst (k, f v) (map (\<lambda>(k, v). (k, f v)) xs) = map (\<lambda>(k, v). (k, f v)) (insort_key fst (k, v) xs)" for k v xs
    by (induction xs) auto
  show ?thesis by (induction kvs) (auto simp: ins)
qed

lemma distinct_map_sort [simp]: "distinct (map f (sort_key g xs)) \<longleftrightarrow> distinct (map f xs)"
  by (simp add: distinct_map)

lemma sort_key_idem: "sort_key f (sort_key f xs) = sort_key f xs"
  by (simp add: sort_key_id_if_sorted)

lemma sort_values_comp:
  assumes "\<And>k v. (k, v) \<in> set kvs \<Longrightarrow> f (g v) = h v"
  shows "sort_key fst (map (\<lambda>(k, v). (k, f v)) (sort_key fst (map (\<lambda>(k, v). (k, g v)) kvs)))
    = sort_key fst (map (\<lambda>(k, v). (k, h v)) kvs)"
proof -
  have "map (\<lambda>(k, v). (k, f v)) (map (\<lambda>(k, v). (k, g v)) (sort_key fst kvs)) = map (\<lambda>(k, v). (k, h v)) (sort_key fst kvs)"
    using assms by auto
  then show ?thesis by (simp only: sort_key_map_snd sort_key_idem)
qed

lemma marshal_canonical: "marshal_json (canonical_value v) = marshal_json v"
proof (induction v rule: canonical_value.induct)
  case (1 vs)
  then show ?case by (simp add: comp_def cong: map_cong)
next
  case (2 kvs)
  have "sort_key fst (map (\<lambda>(k, v). (k, marshal_json v)) (sort_key fst (map (\<lambda>(k, v). (k, canonical_value v)) kvs)))
      = sort_key fst (map (\<lambda>(k, v). (k, marshal_json v)) kvs)"
    by (rule sort_values_comp) (rule 2, assumption, rule refl)
  then show ?case by (simp only: canonical_value.simps marshal_json.simps)
qed simp_all

lemma canonical_ok: "json_ok v \<Longrightarrow> json_ok (canonical_value v)"
proof (induction v rule: canonical_value.induct)
  case (2 kvs)
  have "map fst (map (\<lambda>(k, v). (k, canonical_value v)) kvs) = map fst kvs" by auto
  then have "distinct (map fst (sort_key fst (map (\<lambda>(k, v). (k, canonical_value v)) kvs)))"
    using "2.prems" by (simp only: distinct_map_sort json_ok.simps)
  moreover have "\<forall>x \<in> set (map (\<lambda>(k, v). (k, canonical_value v)) kvs). valid_string (fst x) \<and> json_ok (snd x)"
    using 2 by (auto simp: list_all_iff)
  ultimately show ?case by (auto simp: list_all_iff)
qed (auto simp: list_all_iff)

lemma canonical_idem: "canonical_value (canonical_value v) = canonical_value v"
proof (induction v rule: canonical_value.induct)
  case (2 kvs)
  have "sort_key fst (map (\<lambda>(k, v). (k, canonical_value v)) (sort_key fst (map (\<lambda>(k, v). (k, canonical_value v)) kvs)))
      = sort_key fst (map (\<lambda>(k, v). (k, canonical_value v)) kvs)"
    by (rule sort_values_comp) (rule 2, assumption, rule refl)
  then show ?case by (simp only: canonical_value.simps)
qed simp_all

end
