(* ===== verification/Canonical_Json.thy ===== *)
theory Canonical_Json
  imports Go_Json_Print
begin

text \<open>
  \<open>internal/canonicaljson/json.go\<close>: \<open>Normalize\<close> reads one JSON value token by token, refuses repeated keys, and
  prints it back with sorted keys.  A decoder is the rest of its input; \<open>decode_array\<close> and \<open>decode_object\<close>
  are the two loops of \<open>decodeValue\<close>, whose flag says whether no element has been read yet, and which
  spend one unit of fuel a call.  Reading by tokens, the decoder has no bound on nesting.
\<close>

definition decoder_error :: error where
  "decoder_error = Errorf ''%w'' []"

section \<open>Tokens\<close>

text \<open>A token that is not a delimiter.\<close>

definition scalar_token :: "string \<Rightarrow> (json \<times> string) option" where
  "scalar_token s = (case s of [] \<Rightarrow> None
     | c # cs \<Rightarrow>
        (if byte c = 0x22 then map_option (\<lambda>(t, r). (JString t, r)) (parse_string cs)
         else if byte c = 0x74 then literal ''true'' (JBool True) (c # cs)
         else if byte c = 0x66 then literal ''false'' (JBool False) (c # cs)
         else if byte c = 0x6E then literal ''null'' JNull (c # cs)
         else map_option (\<lambda>(t, r). (JNumber t, r)) (parse_number (c # cs))))"

definition object_key :: "string \<Rightarrow> (string \<times> string) option" where
  "object_key s = (case skip_ws s of [] \<Rightarrow> None | q # qs \<Rightarrow> if byte q = 0x22 then parse_string qs else None)"

definition after_colon :: "string \<Rightarrow> string option" where
  "after_colon s = (case skip_ws s of [] \<Rightarrow> None | c # t \<Rightarrow> if byte c = 0x3A then Some t else None)"

text \<open>The input of the next element, given the first byte that is not a space: a comma precedes all but the first.\<close>

definition next_element :: "bool \<Rightarrow> char \<Rightarrow> string \<Rightarrow> string option" where
  "next_element first c cs = (if first then Some (c # cs) else if byte c = 0x2C then Some cs else None)"

section \<open>decodeValue\<close>

fun decode_value :: "nat \<Rightarrow> string \<Rightarrow> (json \<times> string) result"
  and decode_array :: "nat \<Rightarrow> bool \<Rightarrow> json list \<Rightarrow> string \<Rightarrow> (json \<times> string) result"
  and decode_object :: "nat \<Rightarrow> bool \<Rightarrow> (string \<times> json) list \<Rightarrow> string \<Rightarrow> (json \<times> string) result" where
  "decode_value 0 s = Inl decoder_error"
| "decode_value (Suc n) s =
     (case skip_ws s of [] \<Rightarrow> Inl decoder_error
      | c # cs \<Rightarrow>
        (if byte c = 0x7B then decode_object n True [] cs
         else if byte c = 0x5B then decode_array n True [] cs
         else (case scalar_token (c # cs) of None \<Rightarrow> Inl decoder_error | Some p \<Rightarrow> Inr p)))"
| "decode_array 0 first array s = Inl decoder_error"
| "decode_array (Suc n) first array s =
     (case skip_ws s of [] \<Rightarrow> Inl decoder_error
      | c # cs \<Rightarrow>
        (if byte c = 0x5D then Inr (JArray array, cs)
         else if byte c = 0x7D then Inl decoder_error
         else (case next_element first c cs of None \<Rightarrow> Inl decoder_error
               | Some t \<Rightarrow>
                 (case decode_value n t of Inl err \<Rightarrow> Inl err
                  | Inr (v, r) \<Rightarrow> decode_array n False (array @ [v]) r))))"
| "decode_object 0 first object s = Inl decoder_error"
| "decode_object (Suc n) first object s =
     (case skip_ws s of [] \<Rightarrow> Inl decoder_error
      | c # cs \<Rightarrow>
        (if byte c = 0x7D then Inr (JObject object, cs)
         else if byte c = 0x5D then Inl decoder_error
         else (case next_element first c cs of None \<Rightarrow> Inl decoder_error
               | Some t \<Rightarrow>
                 (case object_key t of None \<Rightarrow> Inl decoder_error
                  | Some (k, u) \<Rightarrow>
                    (if map_of object k \<noteq> None then Inl (Errorf ''duplicate JSON object key %q'' [k])
                     else (case after_colon u of None \<Rightarrow> Inl decoder_error
                           | Some w \<Rightarrow>
                             (case decode_value n w of Inl err \<Rightarrow> Inl err
                              | Inr (v, r) \<Rightarrow> decode_object n False (map_insert k v object) r)))))))"

definition decode_fuel :: "string \<Rightarrow> nat" where
  "decode_fuel s = 2 * length s + 2"

text \<open>Whether the decoder reads another token at the top level.\<close>

definition top_token :: "string \<Rightarrow> bool" where
  "top_token s = (case skip_ws s of [] \<Rightarrow> False
     | c # cs \<Rightarrow> byte c = 0x7B \<or> byte c = 0x5B \<or> scalar_token (c # cs) \<noteq> None)"

definition normalize_json :: "string \<Rightarrow> string result" where
  "normalize_json raw =
     (if trim_space raw = [] then Inl (Errorf ''JSON value is empty'' [])
      else if \<not> valid_string raw then Inl (Errorf ''JSON value must be valid UTF-8'' [])
      else (case decode_value (decode_fuel raw) raw of
          Inl err \<Rightarrow> Inl err
        | Inr (v, r) \<Rightarrow>
            if skip_ws r = [] then Inr (marshal_json v)
            else if top_token r then Inl (Errorf ''multiple JSON values are not allowed: %v'' [])
            else Inl (Errorf ''trailing JSON data: %w'' [])))"

section \<open>The fuel is enough\<close>

lemma scalar_token_length: "scalar_token s = Some (v, r) \<Longrightarrow> length r < length s"
  by (auto simp: scalar_token_def split: list.splits if_splits
      dest!: parse_string_length parse_number_length literal_length)

lemma object_key_length: "object_key s = Some (k, r) \<Longrightarrow> length r < length s"
  by (auto simp: object_key_def split: list.splits if_splits dest!: skip_ws_Cons parse_string_length)

lemma after_colon_length: "after_colon s = Some r \<Longrightarrow> length r < length s"
  by (auto simp: after_colon_def split: list.splits if_splits dest!: skip_ws_Cons)

lemma next_element_length: "skip_ws s = c # cs \<Longrightarrow> next_element first c cs = Some t \<Longrightarrow> length t \<le> length s"
  using skip_ws_length [of s] by (auto simp: next_element_def skip_ws_length split: if_splits)

lemma decode_lengths_all:
  "(\<forall>s v r. decode_value n s = Inr (v, r) \<longrightarrow> length r < length s) \<and>
   (\<forall>b a s v r. decode_array n b a s = Inr (v, r) \<longrightarrow> length r < length s) \<and>
   (\<forall>b m s v r. decode_object n b m s = Inr (v, r) \<longrightarrow> length r < length s)"
proof (induction n)
  case (Suc n)
  then have v: "\<And>s v r. decode_value n s = Inr (v, r) \<Longrightarrow> length r < length s"
    and a: "\<And>b a s v r. decode_array n b a s = Inr (v, r) \<Longrightarrow> length r < length s"
    and m: "\<And>b m s v r. decode_object n b m s = Inr (v, r) \<Longrightarrow> length r < length s"
    by blast+
  have "\<And>s v r. decode_value (Suc n) s = Inr (v, r) \<Longrightarrow> length r < length s"
    by (auto split: list.splits if_splits option.splits dest!: scalar_token_length a m) (auto dest: skip_ws_Cons)
  moreover have "\<And>b a s v r. decode_array (Suc n) b a s = Inr (v, r) \<Longrightarrow> length r < length s"
    by (auto split: list.splits if_splits option.splits sum.splits prod.splits dest!: v a)
      (auto dest: skip_ws_Cons next_element_length)
  moreover have "\<And>b m s v r. decode_object (Suc n) b m s = Inr (v, r) \<Longrightarrow> length r < length s"
    by (auto split: list.splits if_splits option.splits sum.splits prod.splits
        dest!: v m object_key_length after_colon_length) (auto dest: skip_ws_Cons next_element_length)
  ultimately show ?case by blast
qed simp

lemma decode_lengths:
  "decode_value n s = Inr (v, r) \<Longrightarrow> length r < length s"
  "decode_array n b a s = Inr (v, r) \<Longrightarrow> length r < length s"
  "decode_object n b m s = Inr (v, r) \<Longrightarrow> length r < length s"
  using decode_lengths_all by blast+

lemma decode_fuel_all:
  "(\<forall>m s. 2 * length s < n \<longrightarrow> 2 * length s < m \<longrightarrow> decode_value n s = decode_value m s) \<and>
   (\<forall>m b a s. 2 * length s + 1 < n \<longrightarrow> 2 * length s + 1 < m \<longrightarrow> decode_array n b a s = decode_array m b a s) \<and>
   (\<forall>m b a s. 2 * length s + 1 < n \<longrightarrow> 2 * length s + 1 < m \<longrightarrow> decode_object n b a s = decode_object m b a s)"
proof (induction n)
  case (Suc n)
  then have V: "\<And>m s. 2 * length s < n \<Longrightarrow> 2 * length s < m \<Longrightarrow> decode_value n s = decode_value m s"
    and A: "\<And>m b a s. 2 * length s + 1 < n \<Longrightarrow> 2 * length s + 1 < m \<Longrightarrow> decode_array n b a s = decode_array m b a s"
    and O: "\<And>m b a s. 2 * length s + 1 < n \<Longrightarrow> 2 * length s + 1 < m \<Longrightarrow> decode_object n b a s = decode_object m b a s"
    by blast+
  have "decode_value (Suc n) s = decode_value m s" if n: "2 * length s < Suc n" and m: "2 * length s < m" for m s
  proof -
    obtain k where k: "m = Suc k" using m by (cases m) simp_all
    show ?thesis
    proof (cases "skip_ws s")
      case (Cons c cs)
      from skip_ws_Cons [OF this] n m k have "2 * length cs + 1 < n" "2 * length cs + 1 < k" by simp_all
      from A [OF this] O [OF this] show ?thesis by (simp add: k Cons)
    qed (simp add: k)
  qed
  moreover have "decode_array (Suc n) b a s = decode_array m b a s"
    if n: "2 * length s + 1 < Suc n" and m: "2 * length s + 1 < m" for m b a s
  proof -
    obtain k where k: "m = Suc k" using m by (cases m) simp_all
    show ?thesis
    proof (cases "skip_ws s")
      case (Cons c cs)
      show ?thesis
      proof (cases "next_element b c cs")
        case (Some t)
        note le = next_element_length [OF Cons Some]
        have v: "decode_value n t = decode_value k t" by (rule V) (use le n m k in simp_all)
        have "decode_array n False (a @ [x]) r = decode_array k False (a @ [x]) r" if "decode_value k t = Inr (x, r)" for x r
          by (rule A) (use decode_lengths(1) [OF that] le n m k in simp_all)
        then show ?thesis by (simp add: k Cons Some v split: sum.split prod.split)
      qed (simp add: k Cons)
    qed (simp add: k)
  qed
  moreover have "decode_object (Suc n) b a s = decode_object m b a s"
    if n: "2 * length s + 1 < Suc n" and m: "2 * length s + 1 < m" for m b a s
  proof -
    obtain k where k: "m = Suc k" using m by (cases m) simp_all
    show ?thesis
    proof (cases "skip_ws s")
      case (Cons c cs)
      show ?thesis
      proof (cases "next_element b c cs")
        case (Some t)
        note le = next_element_length [OF Cons Some]
        show ?thesis
        proof (cases "object_key t")
          case key: (Some p)
          obtain i u where p: "p = (i, u)" by (cases p)
          note le1 = object_key_length [OF key [unfolded p]]
          show ?thesis
          proof (cases "after_colon u")
            case colon: (Some w)
            note le2 = after_colon_length [OF colon]
            have v: "decode_value n w = decode_value k w" by (rule V) (use le le1 le2 n m k in simp_all)
            have "decode_object n False a' r = decode_object k False a' r" if "decode_value k w = Inr (x, r)" for x r a'
              by (rule O) (use decode_lengths(1) [OF that] le le1 le2 n m k in simp_all)
            then show ?thesis by (simp add: k Cons Some key p colon v split: sum.split prod.split)
          qed (simp add: k Cons Some key p)
        qed (simp add: k Cons Some)
      qed (simp add: k Cons)
    qed (simp add: k)
  qed
  ultimately show ?case by blast
qed simp

lemma decode_value_fuel: "2 * length s < n \<Longrightarrow> decode_value n s = decode_value (decode_fuel s) s"
  by (rule decode_fuel_all [THEN conjunct1, rule_format]) (simp_all add: decode_fuel_def)

section \<open>What is printed is read back\<close>

lemma literal_append: "literal w v (w @ r) = Some (v, r)"
  by (simp add: literal_def)

definition starts_value :: "string \<Rightarrow> bool" where
  "starts_value s \<longleftrightarrow> (\<exists>c cs. s = c # cs \<and> \<not> is_json_space c \<and> byte c \<notin> {0x5D, 0x7D, 0x2C, 0x3A})"

lemma number_start: "number_text s \<Longrightarrow> \<exists>c cs. s = c # cs \<and> (is_digit c \<or> byte c = 0x2D)"
  unfolding number_text_def
proof (elim exE conjE)
  fix sg ip fp ep
  assume s: "s = sg @ ip @ fp @ ep" "sg = [] \<or> (\<exists>x. sg = [x] \<and> byte x = 0x2D)" "digits ip"
  obtain d ds where "ip = d # ds" "is_digit d" using s(3) by (cases ip) (auto simp: digits_def)
  with s(1,2) show ?thesis by auto
qed

lemma number_start_value: "number_text s \<Longrightarrow> starts_value s"
  using number_start [of s] by (auto simp: starts_value_def is_digit_def is_json_space_def)

lemma marshal_starts: "json_ok v \<Longrightarrow> starts_value (marshal_json v)"
proof (cases v)
  case (JNumber t)
  moreover assume "json_ok v"
  ultimately show ?thesis by (simp add: number_start_value)
qed (simp_all add: starts_value_def is_json_space_def json_quote_def array_text_def object_text_def byte_def)

lemma starts_value_append: "starts_value s \<Longrightarrow> starts_value (s @ r)"
  by (auto simp: starts_value_def)

lemma skip_starts: "starts_value s \<Longrightarrow> skip_ws s = s"
  by (auto simp: starts_value_def skip_ws_def)

lemma skip_char: "\<not> is_json_space c \<Longrightarrow> skip_ws (c # s) = c # s"
  by (simp add: skip_ws_def)

lemma punctuation [simp]: "\<not> is_json_space CHR '',''" "\<not> is_json_space CHR '']''" "\<not> is_json_space CHR ''}''"
  "\<not> is_json_space CHR '':''" "\<not> is_json_space CHR 0x22" "\<not> is_json_space CHR ''{''" "\<not> is_json_space CHR ''[''"
  "byte CHR '','' = 0x2C" "byte CHR '']'' = 0x5D" "byte CHR ''}'' = 0x7D" "byte CHR '':'' = 0x3A" "byte CHR ''{'' = 0x7B"
  "byte CHR ''['' = 0x5B"
  by (simp_all add: is_json_space_def byte_def)

lemma ends_number_punctuation [simp]: "ends_number []" "ends_number (CHR '','' # r)" "ends_number (CHR '']'' # r)" "ends_number (CHR ''}'' # r)"
  by (simp_all add: ends_number_def stops_digits_def is_digit_def)

lemma scalar_token_number: "number_text t \<Longrightarrow> ends_number r \<Longrightarrow> scalar_token (t @ r) = Some (JNumber t, r)"
  using number_start [of t] parse_number_text [of t r] by (auto simp: scalar_token_def is_digit_def)

lemma scalar_token_string: "valid_string t \<Longrightarrow> scalar_token (json_quote t @ r) = Some (JString t, r)"
  using parse_string_quoted [of t r] by (simp add: scalar_token_def json_quote_def)

definition reads_back :: "json \<Rightarrow> bool" where
  "reads_back v \<longleftrightarrow> (\<forall>n r. 2 * length (marshal_json v) < n \<longrightarrow> ends_number r
     \<longrightarrow> decode_value n (marshal_json v @ r) = Inr (canonical_value v, r))"

text \<open>A list of elements or members after the opening bracket, with the comma that precedes it unless it comes first.\<close>

definition rest_of_list :: "bool \<Rightarrow> string list \<Rightarrow> string" where
  "rest_of_list first xs = (if first \<or> xs = [] then comma_separated xs else CHR '','' # comma_separated xs)"

lemma rest_of_list_simps [simp]:
  "rest_of_list b [] = []"
  "rest_of_list True (x # xs) = x @ rest_of_list False xs"
  "rest_of_list False (x # xs) = CHR '','' # x @ rest_of_list False xs"
  by (cases xs; simp add: rest_of_list_def)+

lemma ends_number_rest: "ends_number (rest_of_list False xs @ CHR '']'' # r)" "ends_number (rest_of_list False xs @ CHR ''}'' # r)"
  by (cases xs; simp)+

lemma decode_array_text:
  assumes "\<forall>v \<in> set vs. reads_back v \<and> json_ok v"
    and "2 * length (rest_of_list first (map marshal_json vs)) + 1 < n"
  shows "decode_array n first array (rest_of_list first (map marshal_json vs) @ CHR '']'' # r)
    = Inr (JArray (array @ map canonical_value vs), r)"
  using assms
proof (induction vs arbitrary: n first array)
  case Nil
  then obtain k where "n = Suc k" by (cases n) simp_all
  then show ?case by (simp add: skip_char)
next
  case (Cons v vs)
  obtain k where k: "n = Suc k" using Cons.prems(2) by (cases n) simp_all
  let ?rest = "rest_of_list False (map marshal_json vs) @ CHR '']'' # r"
  obtain c cs where c: "marshal_json v = c # cs" "\<not> is_json_space c" "byte c \<notin> {0x5D, 0x7D, 0x2C, 0x3A}"
    using Cons.prems(1) marshal_starts [of v] by (auto simp: starts_value_def)
  have v: "decode_value k (marshal_json v @ ?rest) = Inr (canonical_value v, ?rest)"
    using Cons.prems ends_number_rest by (cases first) (auto simp: reads_back_def k)
  have vs: "decode_array k False (array @ [canonical_value v]) ?rest = Inr (JArray (array @ map canonical_value (v # vs)), r)"
  proof -
    have "2 * length (rest_of_list False (map marshal_json vs)) + 1 < k"
      using Cons.prems(2) c(1) by (cases first) (simp_all add: k)
    from Cons.IH [OF _ this, of "array @ [canonical_value v]"] Cons.prems(1) show ?thesis by simp
  qed
  show ?case
  proof (cases first)
    case True
    with c v vs show ?thesis by (simp add: k skip_char next_element_def)
  next
    case False
    with v vs show ?thesis by (simp add: k skip_char next_element_def)
  qed
qed

lemma decode_object_text:
  assumes "\<forall>(i, v) \<in> set kvs. valid_string i \<and> reads_back v \<and> json_ok v" and "distinct (map fst (object @ kvs))"
    and "2 * length (rest_of_list first (map (\<lambda>(i, v). member_text (i, marshal_json v)) kvs)) + 1 < n"
  shows "decode_object n first object (rest_of_list first (map (\<lambda>(i, v). member_text (i, marshal_json v)) kvs) @ CHR ''}'' # r)
    = Inr (JObject (object @ map (\<lambda>(i, v). (i, canonical_value v)) kvs), r)"
  using assms
proof (induction kvs arbitrary: n first object)
  case Nil
  then obtain k where "n = Suc k" by (cases n) simp_all
  then show ?case by (simp add: skip_char)
next
  case (Cons iv kvs)
  obtain i v where iv: "iv = (i, v)" by (cases iv)
  obtain k where k: "n = Suc k" using Cons.prems(3) by (cases n) simp_all
  let ?text = "map (\<lambda>(i, v). member_text (i, marshal_json v)) kvs"
  let ?rest = "rest_of_list False ?text @ CHR ''}'' # r"
  have i: "valid_string i" "reads_back v" using Cons.prems(1) by (simp_all add: iv)
  have fresh: "i \<notin> fst ` set object" using Cons.prems(2) by (auto simp: iv)
  have insert: "map_insert i x object = object @ [(i, x)]" for x by (rule map_insert_fresh [OF fresh])
  have none: "map_of object i = None" using fresh by (simp add: map_of_eq_None_iff)
  have key: "object_key (json_quote i @ t) = Some (i, t)" for t
    using parse_string_quoted [OF i(1), of t] by (simp add: object_key_def json_quote_def skip_char)
  have colon: "after_colon (CHR '':'' # t) = Some t" for t by (simp add: after_colon_def skip_char)
  have v: "decode_value k (marshal_json v @ ?rest) = Inr (canonical_value v, ?rest)"
    using i(2) Cons.prems(3) ends_number_rest by (cases first) (auto simp: reads_back_def k iv member_text_def)
  have kvs: "decode_object k False (object @ [(i, canonical_value v)]) ?rest
      = Inr (JObject (object @ map (\<lambda>(i, v). (i, canonical_value v)) (iv # kvs)), r)"
  proof -
    have "2 * length (rest_of_list False ?text) + 1 < k"
      using Cons.prems(3) by (cases first) (simp_all add: k iv member_text_def json_quote_def)
    from Cons.IH [OF _ _ this, of "object @ [(i, canonical_value v)]"] Cons.prems(1,2) show ?thesis by (simp add: iv)
  qed
  have quote: "skip_ws (json_quote i @ t) = json_quote i @ t" for t by (simp add: json_quote_def skip_char)
  obtain q where q: "json_quote i = CHR 0x22 # q" by (simp add: json_quote_def)
  show ?case
  proof (cases first)
    case True
    have "next_element True CHR 0x22 (q @ CHR '':'' # marshal_json v @ ?rest) = Some (json_quote i @ CHR '':'' # marshal_json v @ ?rest)"
      by (simp add: next_element_def q)
    with True show ?thesis
      using key none colon v kvs insert by (simp add: k iv member_text_def q skip_char)
  next
    case False
    then show ?thesis
      using key none colon v kvs insert by (simp add: k iv member_text_def skip_char next_element_def)
  qed
qed

lemma marshal_reads_back: "json_ok v \<Longrightarrow> reads_back v"
proof (induction v rule: canonical_value.induct [case_names list members nothing truth numeral quoted])
  case (list vs)
  then have all: "\<forall>v \<in> set vs. reads_back v \<and> json_ok v" by (auto simp: list_all_iff)
  show ?case
    unfolding reads_back_def
  proof (intro allI impI)
    fix n r assume n: "2 * length (marshal_json (JArray vs)) < n"
    obtain k where k: "n = Suc k" using n by (cases n) simp_all
    have "2 * length (rest_of_list True (map marshal_json vs)) + 1 < k" using n by (simp add: k array_text_def rest_of_list_def)
    from decode_array_text [OF all this, of "[]" r]
    show "decode_value n (marshal_json (JArray vs) @ r) = Inr (canonical_value (JArray vs), r)"
      by (simp add: k array_text_def rest_of_list_def skip_char)
  qed
next
  case (members kvs)
  let ?xs = "sort_key fst kvs"
  have all: "\<forall>(i, v) \<in> set ?xs. valid_string i \<and> reads_back v \<and> json_ok v" using members by (auto simp: list_all_iff)
  have dist: "distinct (map fst ([] @ ?xs))" using members.prems by simp
  have printed: "marshal_json (JObject kvs) = CHR ''{'' # rest_of_list True (map (\<lambda>(i, v). member_text (i, marshal_json v)) ?xs) @ ''}''"
    by (auto simp: object_text_def rest_of_list_def sort_key_map_snd intro!: arg_cong [of _ _ comma_separated])
  show ?case
    unfolding reads_back_def
  proof (intro allI impI)
    fix n r assume n: "2 * length (marshal_json (JObject kvs)) < n"
    obtain k where k: "n = Suc k" using n by (cases n) simp_all
    have "2 * length (rest_of_list True (map (\<lambda>(i, v). member_text (i, marshal_json v)) ?xs)) + 1 < k"
      using n unfolding printed by (simp add: k)
    from decode_object_text [OF all dist this, of r]
    show "decode_value n (marshal_json (JObject kvs) @ r) = Inr (canonical_value (JObject kvs), r)"
      unfolding printed by (simp add: k skip_char sort_key_map_snd)
  qed
next
  case nothing
  show ?case unfolding reads_back_def
  proof (intro allI impI)
    fix n r assume "2 * length (marshal_json JNull) < n"
    then obtain k where k: "n = Suc k" by (cases n) simp_all
    show "decode_value n (marshal_json JNull @ r) = Inr (canonical_value JNull, r)"
      using literal_append [of "''null''" JNull r]
      by (simp add: k skip_ws_def is_json_space_def byte_def scalar_token_def)
  qed
next
  case (truth b)
  show ?case unfolding reads_back_def
  proof (intro allI impI)
    fix n r assume "2 * length (marshal_json (JBool b)) < n"
    then obtain k where k: "n = Suc k" by (cases n) simp_all
    show "decode_value n (marshal_json (JBool b) @ r) = Inr (canonical_value (JBool b), r)"
      using literal_append [of "''true''" "JBool True" r] literal_append [of "''false''" "JBool False" r]
      by (cases b) (simp_all add: k skip_ws_def is_json_space_def byte_def scalar_token_def)
  qed
next
  case (numeral t)
  then have t: "number_text t" by simp
  show ?case unfolding reads_back_def
  proof (intro allI impI)
    fix n r assume n: "2 * length (marshal_json (JNumber t)) < n" and r: "ends_number r"
    obtain k where k: "n = Suc k" using n by (cases n) simp_all
    obtain c cs where c: "t = c # cs" "is_digit c \<or> byte c = 0x2D" using number_start [OF t] by blast
    then have "\<not> is_json_space c" "byte c \<noteq> 0x7B" "byte c \<noteq> 0x5B" by (auto simp: is_digit_def is_json_space_def)
    with c scalar_token_number [OF t r]
    show "decode_value n (marshal_json (JNumber t) @ r) = Inr (canonical_value (JNumber t), r)" by (simp add: k skip_char)
  qed
next
  case (quoted t)
  then have t: "valid_string t" by simp
  show ?case unfolding reads_back_def
  proof (intro allI impI)
    fix n r assume n: "2 * length (marshal_json (JString t)) < n"
    obtain k where k: "n = Suc k" using n by (cases n) simp_all
    have "skip_ws (json_quote t @ r) = json_quote t @ r" by (simp add: json_quote_def skip_char)
    with scalar_token_string [OF t, of r]
    show "decode_value n (marshal_json (JString t) @ r) = Inr (canonical_value (JString t), r)"
      by (simp add: k json_quote_def)
  qed
qed

section \<open>What is decoded can be printed\<close>

lemma hex4_less: "hex4 s = Some (u, r) \<Longrightarrow> u < 0x10000"
proof (induction s rule: hex4.induct)
  case (1 a b c d s)
  have "hex_digit x < 16" if "is_hex x" for x using that by (auto simp: is_hex_def hex_digit_def)
  then have "is_hex a \<and> is_hex b \<and> is_hex c \<and> is_hex d \<Longrightarrow> hex_digit a < 16 \<and> hex_digit b < 16 \<and> hex_digit c < 16 \<and> hex_digit d < 16"
    by blast
  with 1 show ?case by (auto split: if_splits)
qed simp_all

lemma low_surrogate_range: "low_surrogate s = Some (l, r) \<Longrightarrow> 0xDC00 \<le> l \<and> l \<le> 0xDFFF"
  by (induction s rule: low_surrogate.induct) (auto split: if_splits option.splits prod.splits)

lemma valid_prepend: "valid_string p \<Longrightarrow> (\<And>t. x = Some (t, r) \<Longrightarrow> valid_string t) \<Longrightarrow> prepend p x = Some (s, r) \<Longrightarrow> valid_string s"
  by (auto simp: prepend_Some valid_string_append)

lemma parse_string_valid: "parse_string s = Some (t, r) \<Longrightarrow> valid_string t"
proof (induction s arbitrary: t r rule: length_induct)
  case (1 s)
  have IH: "valid_string t'" if "parse_string u = Some (t', r)" "length u < length s" for u t'
    using "1.IH" that by blast
  have step: "valid_string t" if "valid_string p" "prepend p (parse_string u) = Some (t, r)" "length u < length s" for p u
    using valid_prepend [OF that(1) _ that(2)] IH that(3) by blast
  have replacement: "valid_string (encode_rune 0xFFFD)" by (rule valid_encode_rune) (simp add: scalar_value_def)
  show ?case
  proof (cases s)
    case Nil
    with "1.prems" show ?thesis by simp
  next
    case (Cons c cs)
    consider (close) "byte c = 0x22" | (escape) "byte c = 0x5C" | (plain) "byte c \<noteq> 0x22" "byte c \<noteq> 0x5C" by blast
    then show ?thesis
    proof cases
      case close
      with "1.prems" show ?thesis by (simp add: Cons)
    next
      case escape
      then obtain e v where e: "cs = e # v" using "1.prems" by (auto simp: Cons split: list.splits)
      show ?thesis
      proof (cases "byte e = 0x75")
        case False
        then obtain x where x: "simple_escape e = Some x" "prepend [x] (parse_string v) = Some (t, r)"
          using "1.prems" escape by (auto simp: Cons e split: option.splits)
        have "valid_string [x]" using x(1) by (auto simp: simple_escape_def split: if_splits)
        from this x(2) show ?thesis by (rule step) (simp add: Cons e)
      next
        case True
        then obtain u w where u: "hex4 v = Some (u, w)" using "1.prems" escape by (auto simp: Cons e split: option.splits)
        note w = hex4_length [OF u] and small = hex4_less [OF u]
        show ?thesis
        proof (cases "0xD800 \<le> u \<and> u \<le> 0xDFFF")
          case False
          have "valid_string (encode_rune u)" using False small by (intro valid_encode_rune) (simp add: scalar_value_def)
          moreover have "prepend (encode_rune u) (parse_string w) = Some (t, r)" using "1.prems" escape True u False by (auto simp: Cons e)
          ultimately show ?thesis by (rule step) (use w in \<open>simp add: Cons e\<close>)
        next
          case surrogate: True
          show ?thesis
          proof (cases "if u \<le> 0xDBFF then low_surrogate w else None")
            case None
            then have "prepend (encode_rune 0xFFFD) (parse_string w) = Some (t, r)"
              using "1.prems" escape True u surrogate by (simp add: Cons e)
            with replacement show ?thesis by (rule step) (use w in \<open>simp add: Cons e\<close>)
          next
            case (Some p)
            obtain l w' where p: "p = (l, w')" by (cases p)
            then have l: "low_surrogate w = Some (l, w')" "u \<le> 0xDBFF" using Some by (auto split: if_splits)
            have "valid_string (encode_rune (0x10000 + (u - 0xD800) * 1024 + (l - 0xDC00)))"
              using low_surrogate_range [OF l(1)] l(2) surrogate by (intro valid_encode_rune) (auto simp: scalar_value_def)
            moreover have "prepend (encode_rune (0x10000 + (u - 0xD800) * 1024 + (l - 0xDC00))) (parse_string w') = Some (t, r)"
              using "1.prems" escape True u surrogate Some by (simp add: Cons e p)
            ultimately show ?thesis by (rule step) (use w low_surrogate_length [OF l(1)] in \<open>simp add: Cons e\<close>)
          qed
        qed
      qed
    next
      case plain
      show ?thesis
      proof (cases "byte c < 0x80")
        case True
        have "valid_string [c]" using True by simp
        moreover have "prepend [c] (parse_string cs) = Some (t, r)" using "1.prems" plain True by (auto simp: Cons split: if_splits)
        ultimately show ?thesis by (rule step) (simp add: Cons)
      next
        case False
        obtain d n where d: "decode_rune (c # cs) = (d, n)" by fastforce
        show ?thesis
        proof (cases d)
          case None
          with "1.prems" plain False d have "prepend (encode_rune 0xFFFD) (parse_string cs) = Some (t, r)" by (auto simp: Cons split: if_splits)
          with replacement show ?thesis by (rule step) (simp add: Cons)
        next
          case (Some u)
          have "valid_string (take n (c # cs))"
            using decode_rune_encoded [OF d [unfolded Some]] valid_encode_rune by simp
          moreover have "prepend (take n (c # cs)) (parse_string (drop (n - 1) cs)) = Some (t, r)"
            using "1.prems" plain False d Some by (auto simp: Cons split: if_splits)
          ultimately show ?thesis by (rule step) (simp add: Cons)
        qed
      qed
    qed
  qed
qed

lemma scalar_token_ok: "scalar_token s = Some (v, r) \<Longrightarrow> json_ok v"
  by (auto simp: scalar_token_def literal_def split: list.splits if_splits
      dest!: parse_string_valid parse_number_Some)

lemma decode_ok_all:
  "(\<forall>s v r. decode_value n s = Inr (v, r) \<longrightarrow> json_ok v) \<and>
   (\<forall>b a s v r. list_all json_ok a \<longrightarrow> decode_array n b a s = Inr (v, r) \<longrightarrow> json_ok v) \<and>
   (\<forall>b m s v r. json_ok (JObject m) \<longrightarrow> decode_object n b m s = Inr (v, r) \<longrightarrow> json_ok v)"
proof (induction n)
  case (Suc n)
  then have v: "\<And>s v r. decode_value n s = Inr (v, r) \<Longrightarrow> json_ok v"
    and a: "\<And>b a s v r. list_all json_ok a \<Longrightarrow> decode_array n b a s = Inr (v, r) \<Longrightarrow> json_ok v"
    and m: "\<And>b m s v r. json_ok (JObject m) \<Longrightarrow> decode_object n b m s = Inr (v, r) \<Longrightarrow> json_ok v"
    by blast+
  have "json_ok v" if "decode_value (Suc n) s = Inr (v, r)" for s v r
    using that a [of "[]"] m [of "[]"] scalar_token_ok by (auto split: list.splits if_splits option.splits)
  moreover have "json_ok v" if ok: "list_all json_ok xs" and d: "decode_array (Suc n) b xs s = Inr (v, r)" for b xs s v r
  proof -
    consider "v = JArray xs" | u w x where "decode_value n u = Inr (x, w)" "decode_array n False (xs @ [x]) w = Inr (v, r)"
      using d by (auto split: list.splits if_splits option.splits sum.splits prod.splits)
    then show ?thesis
    proof cases
      case 2
      from v [OF 2(1)] ok have "list_all json_ok (xs @ [x])" by simp
      from a [OF this 2(2)] show ?thesis .
    qed (use ok in simp)
  qed
  moreover have "json_ok v" if ok: "json_ok (JObject xs)" and d: "decode_object (Suc n) b xs s = Inr (v, r)" for b xs s v r
  proof -
    consider "v = JObject xs"
      | t i u w x z where "object_key t = Some (i, u)" "map_of xs i = None" "decode_value n w = Inr (x, z)"
        "decode_object n False (map_insert i x xs) z = Inr (v, r)"
      using d by (auto split: list.splits if_splits option.splits sum.splits prod.splits)
    then show ?thesis
    proof cases
      case 2
      have "valid_string i" using 2(1) parse_string_valid by (auto simp: object_key_def split: list.splits if_splits)
      moreover have fresh: "i \<notin> fst ` set xs" using 2(2) by (simp add: map_of_eq_None_iff)
      ultimately have "json_ok (JObject (map_insert i x xs))" using v [OF 2(3)] ok by (simp add: map_insert_fresh)
      from m [OF this 2(4)] show ?thesis .
    qed (use ok in simp)
  qed
  ultimately show ?case by blast
qed simp

lemma decode_value_ok: "decode_value n s = Inr (v, r) \<Longrightarrow> json_ok v"
  using decode_ok_all by blast

section \<open>What is printed is valid text\<close>

lemma char_bytes: "byte CHR ''0'' = 48" "byte CHR ''2'' = 50" "byte CHR ''b'' = 98" "byte CHR ''f'' = 102" "byte CHR ''n'' = 110"
  "byte CHR ''r'' = 114" "byte CHR ''t'' = 116" "byte CHR ''u'' = 117" "byte CHR ''l'' = 108" "byte CHR ''e'' = 101"
  "byte CHR ''a'' = 97" "byte CHR ''s'' = 115"
  by (simp_all add: byte_def)

lemma hex_char_ascii [simp]: "n < 16 \<Longrightarrow> byte (hex_char n) < 0x80"
  using hex_char_lower [of n] by (auto simp: is_lower_hex_def)

lemma valid_escape_ascii: "u < 0x80 \<Longrightarrow> valid_string (escape_ascii u)"
proof -
  assume u: "u < 0x80"
  have "u div 16 < 16" "u mod 16 < 16" using u by simp_all
  with u show ?thesis by (simp add: escape_ascii_def char_bytes)
qed

lemma valid_escape_string: "valid_string s \<Longrightarrow> valid_string (escape_string s)"
proof (induction s rule: rune_chunks.induct)
  case 1
  then show ?case by (simp add: escape_string_def)
next
  case (2 c cs)
  obtain u n where d: "decode_rune (c # cs) = (Some u, n)" "valid_string (drop (n - 1) cs)"
    using "2.prems" by (rule valid_string_Cons)
  have "valid_string (take n (c # cs))" using decode_rune_encoded [OF d(1)] valid_encode_rune by simp
  moreover have "valid_string [CHR 0x5C, CHR ''u'', CHR ''2'', CHR ''0'', CHR ''2'', hex_char (u mod 16)]"
    by (rule valid_string_ascii) (simp add: char_bytes)
  ultimately have "valid_string (escape_chunk (Some u, take n (c # cs)))"
    by (simp add: escape_chunk_def valid_escape_ascii)
  moreover have "valid_string (escape_string (drop (n - 1) cs))" using "2.IH" [OF refl] d by simp
  ultimately show ?case using d(1) by (simp add: escape_string_def valid_string_append)
qed

lemma valid_json_quote: "valid_string s \<Longrightarrow> valid_string (json_quote s)"
  using valid_escape_string [of s] by (simp add: json_quote_def valid_string_append)

lemma valid_comma_separated: "\<forall>x \<in> set xs. valid_string x \<Longrightarrow> valid_string (comma_separated xs)"
  by (induction xs rule: comma_separated.induct) (auto simp: valid_string_append)

lemma digits_ascii: "list_all is_digit ds \<Longrightarrow> list_all (\<lambda>c. byte c < 0x80) ds"
  by (induction ds) (auto simp: is_digit_def)

lemma number_ascii: "number_text t \<Longrightarrow> list_all (\<lambda>c. byte c < 0x80) t"
  unfolding number_text_def
proof (elim exE conjE)
  fix sg ip fp ep
  assume t: "t = sg @ ip @ fp @ ep" "sg = [] \<or> (\<exists>x. sg = [x] \<and> byte x = 0x2D)" "digits ip" "fraction_text fp" "exponent_text ep"
  have "list_all (\<lambda>c. byte c < 0x80) fp" using t(4) digits_ascii by (cases fp) (auto simp: fraction_text_def digits_def)
  moreover have "list_all (\<lambda>c. byte c < 0x80) ep" using t(5) digits_ascii by (auto simp: exponent_text_def digits_def)
  moreover have "list_all (\<lambda>c. byte c < 0x80) ip" using t(3) digits_ascii by (simp add: digits_def)
  ultimately show ?thesis using t(1,2) by auto
qed

lemma marshal_valid: "json_ok v \<Longrightarrow> valid_string (marshal_json v)"
proof (induction v rule: canonical_value.induct)
  case (1 vs)
  then have "valid_string (comma_separated (map marshal_json vs))" by (intro valid_comma_separated) (auto simp: list_all_iff)
  then show ?case by (simp add: array_text_def valid_string_append)
next
  case (2 kvs)
  have "valid_string (member_text (i, marshal_json v))" if "(i, v) \<in> set kvs" for i v
    using that 2 valid_json_quote [of i] by (auto simp: member_text_def list_all_iff valid_string_append)
  then have "valid_string (comma_separated (map member_text (sort_key fst (map (\<lambda>(k, v). (k, marshal_json v)) kvs))))"
    by (intro valid_comma_separated) auto
  then show ?case by (simp add: object_text_def valid_string_append)
qed (auto simp: char_bytes valid_json_quote intro: valid_string_ascii number_ascii)

lemma trim_space_nonempty:
  assumes "byte c < 0x80" and "\<not> is_space (Some (byte c))"
  shows "trim_space (c # cs) \<noteq> []"
proof -
  let ?p = "is_space \<circ> fst"
  have chunks: "rune_chunks (c # cs) = (Some (byte c), [c]) # rune_chunks cs" using assms(1) by simp
  have keep: "dropWhile ?p (rev xs @ [x]) \<noteq> []" if "\<not> ?p x" for x :: "nat option \<times> string" and xs using that by (simp add: dropWhile_append)
  obtain ys where ys: "dropWhile ?p (rev (rune_chunks (c # cs))) = ys @ [(Some (byte c), [c])]"
  proof -
    have "dropWhile ?p (xs @ [(Some (byte c), [c])]) = dropWhile ?p xs @ [(Some (byte c), [c])]" for xs
      using assms(2) by (simp add: dropWhile_append)
    with that chunks show thesis by simp
  qed
  show ?thesis unfolding trim_space_def ys using assms(2) by simp
qed

section \<open>Normalize\<close>

lemma normalize_Inr:
  "normalize_json raw = Inr out \<longleftrightarrow> trim_space raw \<noteq> [] \<and> valid_string raw
     \<and> (\<exists>v r. decode_value (decode_fuel raw) raw = Inr (v, r) \<and> skip_ws r = [] \<and> out = marshal_json v)"
  by (auto simp: normalize_json_def split: sum.splits if_splits)

lemma normalize_marshal:
  assumes "json_ok v"
  shows "normalize_json (marshal_json v) = Inr (marshal_json v)"
proof -
  obtain c cs where c: "marshal_json v = c # cs" "byte c < 0x80" "\<not> is_space (Some (byte c))"
  proof (cases v)
    case (JNumber t)
    then obtain c cs where "t = c # cs" "is_digit c \<or> byte c = 0x2D" using number_start [of t] assms by auto
    with JNumber that show thesis by (auto simp: is_digit_def is_space_def)
  next
    case (JBool b)
    with that show thesis by (cases b) (simp_all add: is_space_def char_bytes)
  qed (use that in \<open>simp_all add: json_quote_def array_text_def object_text_def is_space_def byte_def split: if_splits\<close>)
  have "decode_value (decode_fuel (marshal_json v)) (marshal_json v @ []) = Inr (canonical_value v, [])"
    using marshal_reads_back [OF assms] unfolding reads_back_def decode_fuel_def by (metis ends_number_punctuation(1) less_add_same_cancel1 zero_less_numeral)
  with trim_space_nonempty [OF c(2,3)] c(1) marshal_valid [OF assms] show ?thesis
    by (auto simp: normalize_Inr marshal_canonical skip_ws_def)
qed

lemma normalize_idempotent: "normalize_json raw = Inr out \<Longrightarrow> normalize_json out = Inr out"
  using normalize_marshal decode_value_ok by (auto simp: normalize_Inr)

end
