(* ===== verification/Go_Sha256.thy ===== *)
theory Go_Sha256
  imports Go_Text
begin

unbundle bit_operations_syntax

text \<open>
  \<open>sha256.Sum256\<close>: the hash the code takes of artifacts, plans and identifiers, and the hexadecimal
  text it writes for one.  All that the proofs use of it is that a sum has 32 bytes.
\<close>

section \<open>The compression function\<close>

text \<open>The constants of the rounds and the initial state, in decimal.\<close>

definition sha_constants :: "32 word list" where
  "sha_constants = [
     1116352408, 1899447441, 3049323471, 3921009573, 961987163, 1508970993, 2453635748, 2870763221,
     3624381080, 310598401, 607225278, 1426881987, 1925078388, 2162078206, 2614888103, 3248222580,
     3835390401, 4022224774, 264347078, 604807628, 770255983, 1249150122, 1555081692, 1996064986,
     2554220882, 2821834349, 2952996808, 3210313671, 3336571891, 3584528711, 113926993, 338241895,
     666307205, 773529912, 1294757372, 1396182291, 1695183700, 1986661051, 2177026350, 2456956037,
     2730485921, 2820302411, 3259730800, 3345764771, 3516065817, 3600352804, 4094571909, 275423344,
     430227734, 506948616, 659060556, 883997877, 958139571, 1322822218, 1537002063, 1747873779,
     1955562222, 2024104815, 2227730452, 2361852424, 2428436474, 2756734187, 3204031479, 3329325298]"

type_synonym sha_state = "32 word \<times> 32 word \<times> 32 word \<times> 32 word \<times> 32 word \<times> 32 word \<times> 32 word \<times> 32 word"

definition sha_initial :: sha_state where
  "sha_initial = (1779033703, 3144134277, 1013904242, 2773480762, 1359893119, 2600822924, 528734635, 1541459225)"

definition rotate_right :: "nat \<Rightarrow> 32 word \<Rightarrow> 32 word" where
  "rotate_right n x = drop_bit n x OR push_bit (32 - n) x"

text \<open>One word of the message schedule from the sixteen before it, newest first.\<close>

definition next_word :: "32 word list \<Rightarrow> 32 word" where
  "next_word ws =
     (let x = ws ! 1; y = ws ! 14
      in (rotate_right 17 x XOR rotate_right 19 x XOR drop_bit 10 x) + ws ! 6
         + (rotate_right 7 y XOR rotate_right 18 y XOR drop_bit 3 y) + ws ! 15)"

definition schedule :: "32 word list \<Rightarrow> 32 word list" where
  "schedule block = rev (((\<lambda>ws. next_word ws # ws) ^^ 48) (rev block))"

fun sha_round :: "sha_state \<Rightarrow> 32 word \<times> 32 word \<Rightarrow> sha_state" where
  "sha_round (a, b, c, d, e, f, g, h) (k, w) =
     (let t1 = h + (rotate_right 6 e XOR rotate_right 11 e XOR rotate_right 25 e) + ((e AND f) XOR (NOT e AND g)) + k + w;
          t2 = (rotate_right 2 a XOR rotate_right 13 a XOR rotate_right 22 a) + ((a AND b) XOR (a AND c) XOR (b AND c))
      in (t1 + t2, a, b, c, d + t1, e, f, g))"

fun sha_add :: "sha_state \<Rightarrow> sha_state \<Rightarrow> sha_state" where
  "sha_add (a, b, c, d, e, f, g, h) (a', b', c', d', e', f', g', h') =
     (a + a', b + b', c + c', d + d', e + e', f + f', g + g', h + h')"

definition sha_block :: "sha_state \<Rightarrow> 32 word list \<Rightarrow> sha_state" where
  "sha_block s block = sha_add s (foldl sha_round s (zip sha_constants (schedule block)))"

section \<open>Padding and output\<close>

definition word_bytes :: "32 word \<Rightarrow> string" where
  "word_bytes w = map (\<lambda>n. char_of (unat (drop_bit n w AND 0xFF))) [24, 16, 8, 0]"

definition sha_pad :: "string \<Rightarrow> string" where
  "sha_pad m =
     (let n = 8 * length m
      in m @ char_of (0x80::nat) # replicate ((119 - length m mod 64) mod 64) (char_of (0::nat))
         @ map (\<lambda>k. char_of (n div 256 ^ k mod 256)) [7, 6, 5, 4, 3, 2, 1, 0])"

fun big_endian_words :: "string \<Rightarrow> 32 word list" where
  "big_endian_words (a # b # c # d # s) =
     word_of_nat (byte a * 16777216 + byte b * 65536 + byte c * 256 + byte d) # big_endian_words s"
| "big_endian_words _ = []"

function sha_blocks :: "sha_state \<Rightarrow> 32 word list \<Rightarrow> sha_state" where
  "sha_blocks s ws = (if ws = [] then s else sha_blocks (sha_block s (take 16 ws)) (drop 16 ws))"
  by pat_completeness auto
termination
  by (relation "measure (\<lambda>(s, ws). length ws)") (auto simp: neq_Nil_conv)

declare sha_blocks.simps [simp del]

definition sha256_sum :: "string \<Rightarrow> string" where
  "sha256_sum m = (case sha_blocks sha_initial (big_endian_words (sha_pad m)) of
     (a, b, c, d, e, f, g, h) \<Rightarrow> concat (map word_bytes [a, b, c, d, e, f, g, h]))"

lemma length_sha256_sum [simp]: "length (sha256_sum m) = 32"
  by (simp add: sha256_sum_def word_bytes_def split: prod.split)

text \<open>\<open>hex.EncodeToString\<close> of a sum, and the identifiers made of it.\<close>

definition sha256_hex :: "string \<Rightarrow> string" where
  "sha256_hex m = hex_encode (sha256_sum m)"

lemma length_sha256_hex [simp]: "length (sha256_hex m) = 64"
  by (simp add: sha256_hex_def)

lemma lower_hex_printable: "is_lower_hex c \<Longrightarrow> printable c"
  by (auto simp: is_lower_hex_def printable_def)

lemma sha256_hex_printable: "list_all printable (sha256_hex m)"
  using hex_encode_lower lower_hex_printable unfolding sha256_hex_def list_all_iff by blast

end
