(* ===== verification/Planner_Document.thy ===== *)
theory Planner_Document
  imports Protocol_Message Canonical_Json Go_Sha256 "HOL-Library.Product_Lexorder"
begin

text \<open>
  \<open>internal/planner/document.go\<close>: the document of a plan, the semantic plan whose hash is the plan's identifier,
  idempotency keys, and the requirements and capabilities of a target.  A slice that the code prints
  without \<open>omitempty\<close> and may leave nil is an option.
\<close>

section \<open>Documents\<close>

record provider_document =
  pd_name :: string
  pd_version :: string
  pd_digest :: string

record artifact_document =
  ad_name :: string
  ad_source :: string
  ad_digest :: string
  ad_size :: int
  ad_media_type :: string

record release_document =
  rld_id :: string
  rld_artifacts :: "artifact_document list"

record requirement_document =
  qd_kind :: string
  qd_name :: string
  qd_metadata :: string

record target_document =
  td_id :: string
  td_provider :: provider_document
  td_configuration :: string
  td_required_capabilities :: "capability list option"
  td_requirements :: "requirement_document list"

record semantic_operation =
  so_id :: string
  so_provider_operation_id :: string
  so_target_id :: string
  so_provider :: provider_document
  so_kind :: string
  so_dependencies :: "string list"
  so_side_effecting :: bool
  so_timeout_millis :: "64 word"
  so_provider_payload :: string

record operation_document = semantic_operation +
  od_idempotency_key :: string

record plan_document =
  pn_schema_version :: string
  pn_protocol_version :: string
  pn_plan_id :: string
  pn_release :: release_document
  pn_targets :: "target_document list option"
  pn_operations :: "operation_document list"

record semantic_artifact =
  sa_name :: string
  sa_digest :: string
  sa_size :: int
  sa_media_type :: string

record semantic_release =
  sr_id :: string
  sr_artifacts :: "semantic_artifact list"

record semantic_plan =
  sp_schema_version :: string
  sp_protocol_version :: string
  sp_release :: semantic_release
  sp_targets :: "target_document list option"
  sp_operations :: "semantic_operation list"

record operation_draft =
  df_global_id :: operation_id
  df_provider_operation_id :: string
  df_target_id :: target_id
  df_provider :: provider_ref
  df_provider_digest :: digest
  df_kind :: string
  df_dependencies :: "operation_id list"
  df_side_effecting :: bool
  df_timeout :: int
  df_timeout_millis :: "64 word"
  df_provider_payload :: json_value

record distribution_plan =
  dp_plan :: plan
  dp_document :: plan_document

definition plan_schema_version :: string where
  "plan_schema_version = ''1''"

section \<open>What is hashed\<close>

text \<open>Fields of a struct: always, or unless empty.\<close>

definition field :: "string \<Rightarrow> string \<Rightarrow> (string \<times> string) list" where
  "field k v = [(k, v)]"

definition field_unless :: "bool \<Rightarrow> string \<Rightarrow> string \<Rightarrow> (string \<times> string) list" where
  "field_unless absent k v = (if absent then [] else [(k, v)])"

definition slice_text :: "('a \<Rightarrow> string) \<Rightarrow> 'a list option \<Rightarrow> string" where
  "slice_text f xs = (case xs of None \<Rightarrow> ''null'' | Some ys \<Rightarrow> array_text (map f ys))"

definition provider_document_text :: "provider_document \<Rightarrow> string" where
  "provider_document_text p = object_text (field ''name'' (json_quote (pd_name p)) @ field ''version'' (json_quote (pd_version p))
     @ field_unless (pd_digest p = []) ''digest'' (json_quote (pd_digest p)))"

definition requirement_document_text :: "requirement_document \<Rightarrow> string" where
  "requirement_document_text q = object_text (field ''kind'' (json_quote (qd_kind q)) @ field ''name'' (json_quote (qd_name q))
     @ field_unless (qd_metadata q = []) ''metadata'' (raw_text (qd_metadata q)))"

definition target_document_text :: "target_document \<Rightarrow> string" where
  "target_document_text t = object_text (field ''id'' (json_quote (td_id t))
     @ field ''provider'' (provider_document_text (td_provider t))
     @ field ''configuration'' (raw_text (td_configuration t))
     @ field ''requiredCapabilities'' (slice_text (\<lambda>c. json_quote (capability_text c)) (td_required_capabilities t))
     @ field_unless (td_requirements t = []) ''requirements'' (array_text (map requirement_document_text (td_requirements t))))"

definition semantic_operation_text :: "semantic_operation \<Rightarrow> string" where
  "semantic_operation_text o1 = object_text (field ''id'' (json_quote (so_id o1))
     @ field ''providerOperationId'' (json_quote (so_provider_operation_id o1))
     @ field ''targetId'' (json_quote (so_target_id o1))
     @ field ''provider'' (provider_document_text (so_provider o1))
     @ field ''kind'' (json_quote (so_kind o1))
     @ field_unless (so_dependencies o1 = []) ''dependencies'' (array_text (map json_quote (so_dependencies o1)))
     @ field ''sideEffecting'' (bool_text (so_side_effecting o1))
     @ field_unless (so_timeout_millis o1 = 0) ''timeoutMillis'' (decimal (unat (so_timeout_millis o1)))
     @ field ''providerPayload'' (raw_text (so_provider_payload o1)))"

definition semantic_artifact_text :: "semantic_artifact \<Rightarrow> string" where
  "semantic_artifact_text a = object_text (field ''name'' (json_quote (sa_name a)) @ field ''digest'' (json_quote (sa_digest a))
     @ field ''size'' (decimal_int (sa_size a)) @ field_unless (sa_media_type a = []) ''mediaType'' (json_quote (sa_media_type a)))"

definition semantic_release_text :: "semantic_release \<Rightarrow> string" where
  "semantic_release_text r = object_text (field ''id'' (json_quote (sr_id r))
     @ field ''artifacts'' (array_text (map semantic_artifact_text (sr_artifacts r))))"

definition semantic_plan_text :: "semantic_plan \<Rightarrow> string" where
  "semantic_plan_text s = object_text (field ''schemaVersion'' (json_quote (sp_schema_version s))
     @ field ''protocolVersion'' (json_quote (sp_protocol_version s))
     @ field ''release'' (semantic_release_text (sp_release s))
     @ field ''targets'' (slice_text target_document_text (sp_targets s))
     @ field ''operations'' (array_text (map semantic_operation_text (sp_operations s))))"

text \<open>\<open>json.Marshal\<close> of the semantic plan fails when one of its raw messages is not JSON.\<close>

definition raw_ok :: "string \<Rightarrow> bool" where
  "raw_ok raw \<longleftrightarrow> raw = [] \<or> json_valid raw"

definition target_raws :: "target_document \<Rightarrow> string list" where
  "target_raws t = td_configuration t # map qd_metadata (td_requirements t)"

definition semantic_raws :: "semantic_plan \<Rightarrow> string list" where
  "semantic_raws s = concat (map target_raws (case sp_targets s of None \<Rightarrow> [] | Some ts \<Rightarrow> ts))
     @ map so_provider_payload (sp_operations s)"

definition semantic_plan_id :: "semantic_plan \<Rightarrow> plan_id result" where
  "semantic_plan_id s =
     (if \<not> list_all raw_ok (semantic_raws s) then Inl (Errorf ''json: error calling MarshalJSON'' [])
      else new_plan_id (''sha256-'' @ sha256_hex (semantic_plan_text s)))"

definition derive_idempotency_key :: "plan_id \<Rightarrow> target_id \<Rightarrow> operation_id \<Rightarrow> artifact list \<Rightarrow> string" where
  "derive_idempotency_key p target i artifacts =
     (let digests = sort (map (\<lambda>a. digest_string (artifact_digest a)) artifacts);
          material = object_text (field ''version'' (json_quote ''1'') @ field ''planId'' (json_quote p)
            @ field ''targetId'' (json_quote target) @ field ''operationId'' (json_quote i)
            @ field ''artifacts'' (array_text (map json_quote digests)))
      in ''sha256:'' @ sha256_hex material)"

lemma idempotency_key_nonempty [simp]: "derive_idempotency_key p t i as \<noteq> []"
  by (simp add: derive_idempotency_key_def Let_def)

section \<open>Requirements and capabilities\<close>

definition canonical_requirement :: "message_requirement \<Rightarrow> requirement_document result" where
  "canonical_requirement r =
     bind_result (if mr_metadata r \<noteq> [] then normalize_json (mr_metadata r) else Inr []) (\<lambda>metadata.
       Inr \<lparr>qd_kind = mr_kind r, qd_name = mr_name r, qd_metadata = metadata\<rparr>)"

definition add_requirement ::
  "(string list \<times> requirement_document list) \<Rightarrow> message_requirement \<Rightarrow> (string list \<times> requirement_document list) result" where
  "add_requirement = (\<lambda>(seen, found) r.
     bind_result (checked (message_requirement_validate r) ()) (\<lambda>_.
     bind_result (canonical_requirement r) (\<lambda>q.
       let key = requirement_document_text q in
       if key \<in> set seen then Inr (seen, found) else Inr (key # seen, found @ [q]))))"

text \<open>The order of the sort; it separates all requirements but an absent and a \<open>null\<close> metadata.\<close>

definition requirement_order :: "requirement_document \<Rightarrow> string \<times> string \<times> string" where
  "requirement_order q = (qd_kind q, qd_name q, raw_text (qd_metadata q))"

definition canonical_requirements :: "message_requirement list \<Rightarrow> requirement_document list result" where
  "canonical_requirements values =
     bind_result (for_each add_requirement ([], []) values) (\<lambda>(seen, found). Inr (sort_key requirement_order found))"

definition required_capabilities :: "planned_operation list \<Rightarrow> capability list" where
  "required_capabilities operations =
     CapabilityPlan # (if operations \<noteq> [] then [CapabilityApply] else [])
     @ (if list_ex po_side_effecting operations then [CapabilityReconcile] else [])"

definition ensure_capabilities :: "capability list \<Rightarrow> capability list \<Rightarrow> error option" where
  "ensure_capabilities advertised required = first_error (map (\<lambda>c.
     fail_if (c \<notin> set advertised) (Errorf ''provider is missing required capability %q'' [capability_text c])) required)"

lemma ensure_capabilities_None [checks]: "ensure_capabilities advertised required = None \<longleftrightarrow> set required \<subseteq> set advertised"
  by (auto simp: ensure_capabilities_def first_error_map_None)

lemma required_capabilities_valid: "c \<in> set (required_capabilities ops) \<Longrightarrow> capability_valid c"
  by (auto simp: required_capabilities_def split: if_splits)

definition build_domain_requirements :: "requirement_document list \<Rightarrow> requirement list result" where
  "build_domain_requirements values = for_each (\<lambda>found q.
     bind_result (new_requirement (qd_kind q) (qd_name q) (qd_metadata q)) (\<lambda>r. Inr (found @ [r]))) [] values"

text \<open>The methods of a plan with its document.\<close>

definition provider_ref_from_document :: "provider_document \<Rightarrow> provider_ref result" where
  "provider_ref_from_document p =
     bind_result (new_provider_name (pd_name p)) (\<lambda>name.
     bind_result (new_provider_version (pd_version p)) (\<lambda>version. new_provider_ref name version))"

definition add_provider_digest :: "(provider_ref \<times> digest) list \<Rightarrow> target_document \<Rightarrow> (provider_ref \<times> digest) list" where
  "add_provider_digest m t =
     (if pd_digest (td_provider t) = [] then m
      else (case provider_ref_from_document (td_provider t) of
          Inl _ \<Rightarrow> m
        | Inr ref \<Rightarrow> (case parse_digest (pd_digest (td_provider t)) of Inl _ \<Rightarrow> m | Inr d \<Rightarrow> map_insert ref d m)))"

definition provider_digests :: "distribution_plan \<Rightarrow> (provider_ref \<times> digest) list" where
  "provider_digests p = foldl add_provider_digest [] (case pn_targets (dp_document p) of None \<Rightarrow> [] | Some ts \<Rightarrow> ts)"

definition verify_provider_digests :: "distribution_plan \<Rightarrow> error option" where
  "verify_provider_digests p =
     (if \<not> valid_identifier (pl_id (dp_plan p)) then Some (Errorf ''plan is invalid'' [])
      else first_error (map (\<lambda>t.
        fail_if (case map_of (provider_digests p) (tgt_provider t) of None \<Rightarrow> True | Some d \<Rightarrow> \<not> digest_set d)
          (Errorf ''provider %q@%q is not bound to an executable digest; create a new plan''
             [provider_name (tgt_provider t), provider_version (tgt_provider t)])) (pl_targets (dp_plan p))))"

lemma build_domain_requirements_Inr:
  "build_domain_requirements qs = Inr rs \<longleftrightarrow>
     (\<forall>q \<in> set qs. requirement_error (qd_kind q) (qd_name q) (qd_metadata q) = None)
     \<and> rs = map (\<lambda>q. \<lparr>req_kind = qd_kind q, req_name = qd_name q, req_metadata = qd_metadata q\<rparr>) qs"
proof -
  have "for_each (\<lambda>found q. bind_result (new_requirement (qd_kind q) (qd_name q) (qd_metadata q)) (\<lambda>r. Inr (found @ [r]))) acc qs = Inr rs \<longleftrightarrow>
     (\<forall>q \<in> set qs. requirement_error (qd_kind q) (qd_name q) (qd_metadata q) = None)
     \<and> rs = acc @ map (\<lambda>q. \<lparr>req_kind = qd_kind q, req_name = qd_name q, req_metadata = qd_metadata q\<rparr>) qs" for acc
    by (induction qs arbitrary: acc) (auto simp: bind_result_Inr new_requirement_def)
  then show ?thesis by (simp add: build_domain_requirements_def)
qed

end
