(* ===== verification/Config.thy ===== *)
theory Config
  imports Canonical_Json Domain
begin

text \<open>
  The configuration of a release, \<open>internal/config/config.go\<close>: its data, and the validation after decoding,
  which replaces the configuration of every target by its canonical form.
\<close>

record config_artifact =
  ca_name :: string
  ca_source :: string
  ca_media_type :: string

record config_release =
  cr_id :: string
  cr_artifacts :: "config_artifact list"

record config_provider =
  cp_name :: string
  cp_executable :: string

record config_target =
  ct_id :: string
  ct_provider :: config_provider
  ct_configuration :: string

record config =
  cf_schema_version :: string
  cf_release :: config_release
  cf_targets :: "config_target list"
  cf_credential_sources :: "(string \<times> string) list"

record loaded =
  ld_config :: config
  ld_base_dir :: string

definition check_config_artifact :: "string list \<Rightarrow> config_artifact \<Rightarrow> string list result" where
  "check_config_artifact names a =
     bind_result (checked (first_error [
        validate_text ''artifact name'' (ca_name a) False,
        validate_text ''artifact source'' (ca_source a) False,
        validate_text ''artifact media type'' (ca_media_type a) True,
        fail_if (ca_name a \<in> set names) (Errorf ''duplicate artifact name %q'' [ca_name a])]) ())
       (\<lambda>_. Inr (ca_name a # names))"

definition check_config_target :: "string list \<times> config_target list \<Rightarrow> config_target \<Rightarrow> (string list \<times> config_target list) result" where
  "check_config_target = (\<lambda>(ids, targets) t.
     bind_result (checked (first_error [
        validate_text ''target ID'' (ct_id t) False,
        fail_if (ct_id t \<in> set ids) (Errorf ''duplicate target ID %q'' [ct_id t]),
        validate_text ''provider name'' (cp_name (ct_provider t)) False,
        validate_text ''provider executable'' (cp_executable (ct_provider t)) True]) ()) (\<lambda>_.
     case normalize_json (ct_configuration t) of
       Inl err \<Rightarrow> Inl (Errorf ''target %q configuration: %w'' [ct_id t])
     | Inr configuration \<Rightarrow> Inr (ct_id t # ids, targets @ [t\<lparr>ct_configuration := configuration\<rparr>])))"

definition normalize_and_validate :: "config \<Rightarrow> config result" where
  "normalize_and_validate c =
     bind_result (checked (first_error [
        fail_if (cf_schema_version c \<noteq> ''1'' \<and> cf_schema_version c \<noteq> ''2'')
          (Errorf ''unsupported config schema version %q'' [cf_schema_version c]),
        validate_text ''release ID'' (cr_id (cf_release c)) False,
        fail_if (cr_artifacts (cf_release c) = []) (Errorf ''release must contain at least one artifact'' [])]) ()) (\<lambda>_.
     bind_result (for_each check_config_artifact [] (cr_artifacts (cf_release c))) (\<lambda>_.
     bind_result (checked (fail_if (cf_targets c = []) (Errorf ''config must contain at least one target'' [])) ()) (\<lambda>_.
     bind_result (for_each check_config_target ([], []) (cf_targets c)) (\<lambda>(_, targets).
       Inr (c\<lparr>cf_targets := targets\<rparr>)))))"

definition config_target_ok :: "config_target \<Rightarrow> bool" where
  "config_target_ok t \<longleftrightarrow> validate_text ''target ID'' (ct_id t) False = None
     \<and> validate_text ''provider name'' (cp_name (ct_provider t)) False = None
     \<and> validate_text ''provider executable'' (cp_executable (ct_provider t)) True = None
     \<and> (\<exists>v. normalize_json (ct_configuration t) = Inr v)"

definition canonical_target :: "config_target \<Rightarrow> config_target" where
  "canonical_target t = t\<lparr>ct_configuration := projr (normalize_json (ct_configuration t))\<rparr>"

lemma canonical_target_simps [simp]: "ct_id (canonical_target t) = ct_id t" "ct_provider (canonical_target t) = ct_provider t"
  by (simp_all add: canonical_target_def)

lemma canonical_target_ok: "config_target_ok t \<Longrightarrow> config_target_ok (canonical_target t) \<and> canonical_target (canonical_target t) = canonical_target t"
proof -
  assume ok: "config_target_ok t"
  then obtain v where v: "normalize_json (ct_configuration t) = Inr v" by (auto simp: config_target_ok_def)
  from normalize_idempotent [OF v] ok v show ?thesis by (simp add: config_target_ok_def canonical_target_def)
qed

lemma check_config_targets_Inr:
  "for_each check_config_target (ids, done) ts = Inr (ids', done') \<longleftrightarrow>
     (\<forall>t \<in> set ts. config_target_ok t \<and> ct_id t \<notin> set ids) \<and> distinct (map ct_id ts)
     \<and> ids' = rev (map ct_id ts) @ ids \<and> done' = done @ map canonical_target ts"
proof (induction ts arbitrary: ids "done")
  case (Cons t ts)
  have "check_config_target (ids, done) t = Inr p \<longleftrightarrow>
      config_target_ok t \<and> ct_id t \<notin> set ids \<and> p = (ct_id t # ids, done @ [canonical_target t])" for p
    by (auto simp: check_config_target_def config_target_ok_def canonical_target_def checks bind_result_Inr split: sum.splits)
  then have "for_each check_config_target (ids, done) (t # ts) = Inr (ids', done') \<longleftrightarrow>
      config_target_ok t \<and> ct_id t \<notin> set ids
      \<and> for_each check_config_target (ct_id t # ids, done @ [canonical_target t]) ts = Inr (ids', done')"
    by (simp add: bind_result_Inr)
  then show ?case unfolding Cons.IH by (auto simp: image_iff)
qed auto

lemma normalize_and_validate_targets:
  assumes "normalize_and_validate c = Inr c'"
  shows "c' = c\<lparr>cf_targets := map canonical_target (cf_targets c)\<rparr>" and "distinct (map ct_id (cf_targets c))"
    and "\<forall>t \<in> set (cf_targets c). config_target_ok t"
  using assms by (auto simp: normalize_and_validate_def bind_result_Inr check_config_targets_Inr)

lemma normalize_and_validate_idempotent:
  assumes "normalize_and_validate c = Inr c'"
  shows "normalize_and_validate c' = Inr c'"
proof -
  note t = normalize_and_validate_targets [OF assms]
  have "map canonical_target (map canonical_target (cf_targets c)) = map canonical_target (cf_targets c)"
    using t(3) canonical_target_ok by simp
  moreover have "for_each check_config_target ([], []) (map canonical_target (cf_targets c)) = Inr (rev (map ct_id (cf_targets c)), map canonical_target (map canonical_target (cf_targets c)))"
    unfolding check_config_targets_Inr using t(2,3) canonical_target_ok by (simp add: comp_def)
  moreover have "is_ok (for_each check_config_artifact [] (cr_artifacts (cf_release c)))"
    using assms by (auto simp: normalize_and_validate_def bind_result_Inr is_ok_iff)
  ultimately show ?thesis
    using assms unfolding t(1) by (auto simp: normalize_and_validate_def bind_result_Inr is_ok_iff)
qed

end
