(* ===== verification/Go_Io.thy ===== *)
theory Go_Io
  imports Prelude
begin

text \<open>
  Code that asks the world (child processes, files) in the order it is written: a function from a world to
  the world after it and a result, or an error.  The world is whatever the answers depend on, so two calls with the
  same arguments may answer differently.
\<close>

type_synonym ('w, 'e, 'a) act = "'w \<Rightarrow> 'w \<times> ('e + 'a)"
type_synonym ('w, 'a) io = "('w, error, 'a) act"

definition io_lift :: "'e + 'a \<Rightarrow> ('w, 'e, 'a) act" where
  "io_lift r = (\<lambda>w. (w, r))"

definition io_return :: "'a \<Rightarrow> ('w, 'e, 'a) act" where
  "io_return x = io_lift (Inr x)"

definition io_fail :: "'e \<Rightarrow> ('w, 'e, 'a) act" where
  "io_fail e = io_lift (Inl e)"

definition io_bind :: "('w, 'e, 'a) act \<Rightarrow> ('a \<Rightarrow> ('w, 'e, 'b) act) \<Rightarrow> ('w, 'e, 'b) act" where
  "io_bind m f = (\<lambda>w. case m w of (w', Inl e) \<Rightarrow> (w', Inl e) | (w', Inr x) \<Rightarrow> f x w')"

text \<open>A wrapped error is a new message, and keeps the sentinel \<open>errors.Is\<close> looks for.\<close>

fun wrap_error :: "string \<Rightarrow> string list \<Rightarrow> error \<Rightarrow> error" where
  "wrap_error f xs (Errorf _ _) = Errorf f xs"
| "wrap_error f xs (ErrorIs s _ _) = ErrorIs s f xs"

definition wrap_result :: "string \<Rightarrow> string list \<Rightarrow> 'a result \<Rightarrow> 'a result" where
  "wrap_result f xs r = (case r of Inl e \<Rightarrow> Inl (wrap_error f xs e) | Inr x \<Rightarrow> Inr x)"

definition io_wrap :: "string \<Rightarrow> string list \<Rightarrow> ('w, 'a) io \<Rightarrow> ('w, 'a) io" where
  "io_wrap f xs m = (\<lambda>w. map_prod id (wrap_result f xs) (m w))"

fun io_each :: "('s \<Rightarrow> 'a \<Rightarrow> ('w, 'e, 's) act) \<Rightarrow> 's \<Rightarrow> 'a list \<Rightarrow> ('w, 'e, 's) act" where
  "io_each f s [] = io_return s"
| "io_each f s (x # xs) = io_bind (f s x) (\<lambda>s'. io_each f s' xs)"

named_theorems io_success \<open>when a step succeeds\<close>

lemma io_lift_Inr [io_success]: "io_lift r w = (w', Inr x) \<longleftrightarrow> w' = w \<and> r = Inr x"
  by (auto simp: io_lift_def)

lemma io_return_Inr [io_success]: "io_return y w = (w', Inr x) \<longleftrightarrow> w' = w \<and> y = x"
  by (auto simp: io_return_def io_lift_def)

lemma io_fail_Inr [io_success]: "io_fail e w \<noteq> (w', Inr x)"
  by (simp add: io_fail_def io_lift_def)

lemma io_bind_Inr [io_success]:
  "io_bind m f w = (w', Inr y) \<longleftrightarrow> (\<exists>v x. m w = (v, Inr x) \<and> f x v = (w', Inr y))"
  by (auto simp: io_bind_def split: prod.splits sum.splits)

lemma wrap_result_Inr [simp]: "wrap_result f xs r = Inr x \<longleftrightarrow> r = Inr x"
  by (cases r) (simp_all add: wrap_result_def)

lemma io_wrap_Inr [io_success]: "io_wrap f xs m w = (w', Inr x) \<longleftrightarrow> m w = (w', Inr x)"
  by (cases "m w") (simp add: io_wrap_def)

lemma io_each_invariant:
  assumes "io_each f s xs w = (w', Inr t)" and "P [] s"
    and "\<And>ys x s v v' s'. P ys s \<Longrightarrow> x \<in> set xs \<Longrightarrow> f s x v = (v', Inr s') \<Longrightarrow> P (ys @ [x]) s'"
  shows "P xs t"
proof -
  have "P (ys @ zs) t" if "io_each f s zs w = (w', Inr t)" "P ys s" "set zs \<subseteq> set xs" for ys zs s w
    using that
  proof (induction zs arbitrary: ys s w)
    case (Cons z zs)
    then obtain v s' where v: "f s z w = (v, Inr s')" "io_each f s' zs v = (w', Inr t)" by (auto simp: io_bind_Inr)
    have "P (ys @ [z]) s'" using assms(3) [OF Cons.prems(2) _ v(1)] Cons.prems(3) by simp
    from Cons.IH [OF v(2) this] Cons.prems(3) show ?case by simp
  qed (simp add: io_return_Inr)
  from this [of s xs w "[]"] assms(1,2) show ?thesis by simp
qed

end
