(* ===== verification/Planner_Build.thy ===== *)
theory Planner_Build
  imports Planner_Document Config Go_Io Go_Path
begin

text \<open>
  \<open>Build\<close> of \<open>internal/planner/planner.go\<close>: from a configuration, the descriptions and operations that the
  providers of its targets answer, and the hashes of the files, to a plan and its document.  The provider
  client, the resolver of executables, the hasher and the working directory are the \<open>tools\<close> of the planner,
  code that answers out of the world.
\<close>

section \<open>The planner\<close>

record endpoint =
  ep_name :: string
  ep_executable :: string

record 'w provider_client =
  pc_describe :: "endpoint \<Rightarrow> ('w, describe_response) io"
  pc_plan :: "endpoint \<Rightarrow> plan_request \<Rightarrow> ('w, plan_response) io"

type_synonym 'w resolver = "string \<Rightarrow> string \<Rightarrow> ('w, string) io"
type_synonym 'w hasher = "string \<Rightarrow> ('w, digest \<times> int) io"

record 'w planner =
  pln_client :: "'w provider_client option"
  pln_resolver :: "'w resolver option"
  pln_hasher :: "'w hasher option"

text \<open>\<open>New\<close>, given the resolver and the hasher it falls back to.\<close>

definition new_planner ::
  "'w resolver \<Rightarrow> 'w hasher \<Rightarrow> 'w provider_client option \<Rightarrow> 'w resolver option \<Rightarrow> 'w hasher option \<Rightarrow> 'w planner result" where
  "new_planner default_resolver default_hasher client resolver hash =
     (if client = None then Inl (Errorf ''provider client must not be nil'' [])
      else Inr \<lparr>pln_client = client,
        pln_resolver = Some (case resolver of None \<Rightarrow> default_resolver | Some r \<Rightarrow> r),
        pln_hasher = Some (case hash of None \<Rightarrow> default_hasher | Some h \<Rightarrow> h)\<rparr>)"

record 'w tools =
  tl_client :: "'w provider_client"
  tl_resolve :: "'w resolver"
  tl_hash :: "'w hasher"
  tl_getwd :: "('w, string) io"

section \<open>The release\<close>

definition absolute_path :: "'w tools \<Rightarrow> string \<Rightarrow> ('w, string) io" where
  "absolute_path tools p =
     (if is_abs p then io_return (abs_path [] p) else io_bind (tl_getwd tools) (\<lambda>wd. io_return (abs_path wd p)))"

definition build_artifact ::
  "'w tools \<Rightarrow> string \<Rightarrow> artifact list \<times> message_artifact list \<Rightarrow> config_artifact \<Rightarrow> ('w, artifact list \<times> message_artifact list) io" where
  "build_artifact tools base_dir = (\<lambda>(artifacts, messages) ac.
     let source = (if is_abs (ca_source ac) then ca_source ac else join_path [base_dir, ca_source ac]) in
     io_bind (absolute_path tools source) (\<lambda>found.
     let absolute = clean_path found in
     io_bind (io_wrap ''hash artifact %q: %w'' [ca_name ac] (tl_hash tools absolute)) (\<lambda>(dig, sz).
     io_bind (io_lift (new_artifact (ca_name ac) absolute dig sz (ca_media_type ac))) (\<lambda>a.
       io_return (artifacts @ [a], messages @ [\<lparr>ma_name = artifact_name a, ma_digest = digest_string (artifact_digest a),
         ma_size = artifact_size a, ma_media_type = artifact_media_type a\<rparr>])))))"

definition build_release :: "'w tools \<Rightarrow> loaded \<Rightarrow> ('w, release \<times> message_release) io" where
  "build_release tools ld =
     io_bind (io_lift (new_release_id (cr_id (cf_release (ld_config ld))))) (\<lambda>i.
     io_bind (io_each (build_artifact tools (ld_base_dir ld)) ([], []) (sort_key ca_name (cr_artifacts (cf_release (ld_config ld)))))
       (\<lambda>(artifacts, messages).
     io_bind (io_lift (new_release i artifacts)) (\<lambda>rel.
       io_return (rel, \<lparr>mrel_id = i, mrel_artifacts = messages\<rparr>))))"

section \<open>Providers\<close>

definition resolve_endpoint :: "'w tools \<Rightarrow> string \<Rightarrow> config_target \<Rightarrow> ('w, endpoint) io" where
  "resolve_endpoint tools base_dir tc =
     (let configured = cp_executable (ct_provider tc); name = cp_name (ct_provider tc);
          relative = configured \<noteq> [] \<and> \<not> is_abs configured \<and> list_ex (\<lambda>c. c = CHR ''/'' \<or> byte c = 0x5C) configured in
      if relative \<and> trim_space base_dir = []
      then io_fail (Errorf ''base directory must not be empty for relative provider executable'' [])
      else io_bind (tl_resolve tools name (if relative then join_path [base_dir, configured] else configured)) (\<lambda>executable.
        io_return \<lparr>ep_name = name, ep_executable = executable\<rparr>))"

definition validate_description :: "string \<Rightarrow> describe_response \<Rightarrow> error option" where
  "validate_description configured_name r = first_error [
     describe_response_validate r,
     fail_if (pi_name (dr_provider r) \<noteq> configured_name)
       (Errorf ''provider reported name %q, expected %q'' [pi_name (dr_provider r), configured_name]),
     fail_if (protocol_version \<notin> set (dr_protocol_versions r))
       (Errorf ''provider does not support protocol version %q'' [protocol_version]),
     ensure_capabilities (dr_capabilities r) [CapabilityPlan]]"

record build_state =
  bs_targets :: "target list"
  bs_documents :: "target_document list"
  bs_drafts :: "operation_draft list"
  bs_described :: "(endpoint \<times> describe_response) list"
  bs_hashed :: "(endpoint \<times> digest) list"
  bs_bound :: "(provider_ref \<times> digest) list"

definition describe_cached ::
  "'w tools \<Rightarrow> config_target \<Rightarrow> endpoint \<Rightarrow> build_state \<Rightarrow> ('w, build_state \<times> describe_response) io" where
  "describe_cached tools tc ep st =
     (let name = cp_name (ct_provider tc) in
      case map_of (bs_described st) ep of
        Some d \<Rightarrow> io_return (st, d)
      | None \<Rightarrow>
          io_bind (io_wrap ''describe provider %q: %w'' [name] (pc_describe (tl_client tools) ep)) (\<lambda>d.
          io_bind (io_wrap ''describe provider %q: %w'' [name] (io_lift (checked (validate_description name d) ()))) (\<lambda>_.
            io_return (st\<lparr>bs_described := map_insert ep d (bs_described st)\<rparr>, d))))"

definition target_identity :: "config_target \<Rightarrow> describe_response \<Rightarrow> (target_id \<times> provider_ref) result" where
  "target_identity tc d =
     bind_result (new_target_id (ct_id tc)) (\<lambda>i.
     bind_result (new_provider_name (pi_name (dr_provider d))) (\<lambda>name.
     bind_result (new_provider_version (pi_version (dr_provider d))) (\<lambda>version.
     bind_result (new_provider_ref name version) (\<lambda>ref. Inr (i, ref)))))"

definition hash_cached ::
  "'w tools \<Rightarrow> config_target \<Rightarrow> endpoint \<Rightarrow> build_state \<Rightarrow> ('w, build_state \<times> digest) io" where
  "hash_cached tools tc ep st =
     (case map_of (bs_hashed st) ep of
        Some d \<Rightarrow> io_return (st, d)
      | None \<Rightarrow>
          io_bind (io_wrap ''hash provider %q: %w'' [cp_name (ct_provider tc)] (tl_hash tools (ep_executable ep))) (\<lambda>(d, _).
            io_return (st\<lparr>bs_hashed := map_insert ep d (bs_hashed st)\<rparr>, d)))"

definition bind_digest :: "provider_ref \<Rightarrow> digest \<Rightarrow> build_state \<Rightarrow> build_state result" where
  "bind_digest ref d st =
     (if (case map_of (bs_bound st) ref of None \<Rightarrow> False | Some e \<Rightarrow> e \<noteq> d)
      then Inl (Errorf ''provider %q@%q resolves to multiple executable digests'' [provider_name ref, provider_version ref])
      else Inr (st\<lparr>bs_bound := map_insert ref d (bs_bound st)\<rparr>))"

section \<open>Operations of a target\<close>

definition namespaced_operation_id :: "target_id \<Rightarrow> string \<Rightarrow> operation_id result" where
  "namespaced_operation_id target i = new_operation_id (''op-'' @ sha256_hex (target @ [char_of (0::nat)] @ i))"

definition name_operation ::
  "target_id \<Rightarrow> (string \<times> operation_id) list \<Rightarrow> planned_operation \<Rightarrow> (string \<times> operation_id) list result" where
  "name_operation target names o1 =
     bind_result (namespaced_operation_id target (po_id o1)) (\<lambda>i. Inr (map_insert (po_id o1) i names))"

text \<open>\<open>math.MaxInt64 / int64(time.Millisecond)\<close>.\<close>

definition max_timeout_millis :: nat where
  "max_timeout_millis = 9223372036854"

definition build_draft ::
  "target_id \<Rightarrow> provider_ref \<Rightarrow> digest \<Rightarrow> (string \<times> operation_id) list \<Rightarrow> operation_draft list \<Rightarrow> planned_operation
   \<Rightarrow> operation_draft list result" where
  "build_draft target provider dig names drafts o1 =
     bind_result (wrap_result ''operation %q payload: %w'' [po_id o1] (normalize_json (po_provider_payload o1))) (\<lambda>raw.
     bind_result (new_json_value raw) (\<lambda>value.
     bind_result (for_each (\<lambda>ds d. case map_of names d of
          None \<Rightarrow> Inl (Errorf ''operation %q references unknown dependency %q'' [po_id o1, d])
        | Some i \<Rightarrow> Inr (ds @ [i])) [] (po_dependencies o1)) (\<lambda>dependencies.
     if max_timeout_millis < unat (po_timeout_millis o1)
     then Inl (Errorf ''operation %q timeout exceeds supported duration'' [po_id o1])
     else Inr (drafts @ [\<lparr>df_global_id = (case map_of names (po_id o1) of None \<Rightarrow> [] | Some i \<Rightarrow> i),
        df_provider_operation_id = po_id o1, df_target_id = target, df_provider = provider, df_provider_digest = dig,
        df_kind = po_kind o1, df_dependencies = sort dependencies, df_side_effecting = po_side_effecting o1,
        df_timeout = int (unat (po_timeout_millis o1)) * 1000000, df_timeout_millis = po_timeout_millis o1,
        df_provider_payload = value\<rparr>]))))"

definition build_operation_drafts ::
  "target_id \<Rightarrow> provider_ref \<Rightarrow> digest \<Rightarrow> planned_operation list \<Rightarrow> operation_draft list result" where
  "build_operation_drafts target provider dig operations =
     bind_result (for_each (name_operation target) [] operations) (\<lambda>names.
     bind_result (for_each (build_draft target provider dig names) [] operations) (\<lambda>drafts.
       Inr (sort_key df_global_id drafts)))"

section \<open>Targets\<close>

definition document_of_ref :: "provider_ref \<Rightarrow> digest \<Rightarrow> provider_document" where
  "document_of_ref ref d = \<lparr>pd_name = provider_name ref, pd_version = provider_version ref, pd_digest = digest_string d\<rparr>"

text \<open>What the answer of a provider makes of a target: the target, its document and its operations.\<close>

definition use_plan_response ::
  "config_target \<Rightarrow> describe_response \<Rightarrow> target_id \<Rightarrow> provider_ref \<Rightarrow> digest \<Rightarrow> json_value \<Rightarrow> plan_response
   \<Rightarrow> (target \<times> target_document \<times> operation_draft list) result" where
  "use_plan_response tc d target ref dig configuration response =
     (let required = required_capabilities (ps_operations response); i = ct_id tc in
      bind_result (wrap_result ''plan target %q: %w'' [i] (checked (plan_response_validate response) ())) (\<lambda>_.
      bind_result (wrap_result ''target %q: %w'' [i] (checked (ensure_capabilities (dr_capabilities d) required) ())) (\<lambda>_.
      bind_result (wrap_result ''target %q requirements: %w'' [i]
        (canonical_requirements (dr_requirements d @ ps_requirements response))) (\<lambda>requirements.
      bind_result (wrap_result ''target %q requirements: %w'' [i] (build_domain_requirements requirements)) (\<lambda>reqs.
      bind_result (new_target_with_requirements target ref configuration reqs) (\<lambda>t.
      bind_result (wrap_result ''target %q operations: %w'' [i]
        (build_operation_drafts target ref dig (ps_operations response))) (\<lambda>drafts.
        Inr (t, \<lparr>td_id = i,
               td_provider = \<lparr>pd_name = pi_name (dr_provider d), pd_version = pi_version (dr_provider d), pd_digest = digest_string dig\<rparr>,
               td_configuration = ct_configuration tc, td_required_capabilities = Some required,
               td_requirements = requirements\<rparr>, drafts))))))))"

definition build_target ::
  "'w tools \<Rightarrow> string \<Rightarrow> message_release \<Rightarrow> build_state \<Rightarrow> config_target \<Rightarrow> ('w, build_state) io" where
  "build_target tools base_dir rel st tc =
     io_bind (io_wrap ''target %q: %w'' [ct_id tc] (resolve_endpoint tools base_dir tc)) (\<lambda>ep.
     io_bind (describe_cached tools tc ep st) (\<lambda>(st1, d).
     io_bind (io_lift (target_identity tc d)) (\<lambda>(target, ref).
     io_bind (hash_cached tools tc ep st1) (\<lambda>(st2, dig).
     io_bind (io_lift (bind_digest ref dig st2)) (\<lambda>st3.
     io_bind (io_lift (new_json_value (ct_configuration tc))) (\<lambda>configuration.
     io_bind (io_lift (new_target target ref configuration)) (\<lambda>_.
     io_bind (io_wrap ''plan target %q: %w'' [ct_id tc] (pc_plan (tl_client tools) ep
        \<lparr>pr_release = rel, pr_target = \<lparr>mt_id = ct_id tc, mt_configuration = ct_configuration tc\<rparr>\<rparr>)) (\<lambda>response.
     io_bind (io_lift (use_plan_response tc d target ref dig configuration response)) (\<lambda>(t, doc, drafts).
       io_return (st3\<lparr>bs_targets := bs_targets st3 @ [t], bs_documents := bs_documents st3 @ [doc],
         bs_drafts := bs_drafts st3 @ drafts\<rparr>))))))))))"

section \<open>The plan\<close>

definition semantic_release_of :: "release \<Rightarrow> semantic_release" where
  "semantic_release_of rel = \<lparr>sr_id = rel_id rel, sr_artifacts = sort_key sa_name (map (\<lambda>a.
     \<lparr>sa_name = artifact_name a, sa_digest = digest_string (artifact_digest a), sa_size = artifact_size a,
      sa_media_type = artifact_media_type a\<rparr>) (rel_artifacts rel))\<rparr>"

definition release_document_of :: "release \<Rightarrow> release_document" where
  "release_document_of rel = \<lparr>rld_id = rel_id rel, rld_artifacts = sort_key ad_name (map (\<lambda>a.
     \<lparr>ad_name = artifact_name a, ad_source = artifact_source a, ad_digest = digest_string (artifact_digest a),
      ad_size = artifact_size a, ad_media_type = artifact_media_type a\<rparr>) (rel_artifacts rel))\<rparr>"

definition semantic_of_draft :: "operation_draft \<Rightarrow> semantic_operation" where
  "semantic_of_draft df = \<lparr>so_id = df_global_id df, so_provider_operation_id = df_provider_operation_id df,
     so_target_id = df_target_id df, so_provider = document_of_ref (df_provider df) (df_provider_digest df),
     so_kind = df_kind df, so_dependencies = sort (df_dependencies df), so_side_effecting = df_side_effecting df,
     so_timeout_millis = df_timeout_millis df, so_provider_payload = df_provider_payload df\<rparr>"

definition semantic_operations :: "operation_draft list \<Rightarrow> semantic_operation list" where
  "semantic_operations drafts = sort_key so_id (map semantic_of_draft drafts)"

definition build_operation ::
  "plan_id \<Rightarrow> release \<Rightarrow> operation list \<times> operation_document list \<Rightarrow> operation_draft \<Rightarrow> (operation list \<times> operation_document list) result" where
  "build_operation p rel = (\<lambda>(operations, docs) df.
     let key = (if df_side_effecting df then derive_idempotency_key p (df_target_id df) (df_global_id df) (rel_artifacts rel) else []) in
     bind_result (new_operation (df_global_id df) (df_target_id df) (df_provider df) (df_kind df) (df_dependencies df)
        (df_side_effecting df) key (df_timeout df) (df_provider_payload df)) (\<lambda>op.
       Inr (operations @ [op], docs @ [semantic_operation.extend (semantic_of_draft df) (operation_document.fields key)])))"

definition assemble_plan :: "release \<Rightarrow> build_state \<Rightarrow> distribution_plan result" where
  "assemble_plan rel st =
     (let targets = sort_key tgt_id (bs_targets st); docs = sort_key td_id (bs_documents st);
          drafts = sort_key df_global_id (bs_drafts st) in
      bind_result (semantic_plan_id \<lparr>sp_schema_version = plan_schema_version, sp_protocol_version = protocol_version,
        sp_release = semantic_release_of rel, sp_targets = Some docs, sp_operations = semantic_operations drafts\<rparr>) (\<lambda>p.
      bind_result (for_each (build_operation p rel) ([], []) drafts) (\<lambda>(operations, op_docs).
      bind_result (new_plan p plan_schema_version protocol_version rel targets operations) (\<lambda>pl.
        Inr \<lparr>dp_plan = pl, dp_document = \<lparr>pn_schema_version = plan_schema_version, pn_protocol_version = protocol_version,
          pn_plan_id = p, pn_release = release_document_of rel, pn_targets = Some docs, pn_operations = op_docs\<rparr>\<rparr>))))"

definition initial_build :: build_state where
  "initial_build = \<lparr>bs_targets = [], bs_documents = [], bs_drafts = [], bs_described = [], bs_hashed = [], bs_bound = []\<rparr>"

definition build_with :: "'w tools \<Rightarrow> loaded \<Rightarrow> ('w, distribution_plan) io" where
  "build_with tools ld =
     io_bind (build_release tools ld) (\<lambda>(rel, message).
     io_bind (io_each (build_target tools (ld_base_dir ld) message) initial_build (sort_key ct_id (cf_targets (ld_config ld)))) (\<lambda>st.
       io_lift (assemble_plan rel st)))"

text \<open>\<open>Build\<close>, told whether its context is nil; \<open>getwd\<close> is the working directory of the process.\<close>

definition build :: "('w, string) io \<Rightarrow> bool \<Rightarrow> 'w planner option \<Rightarrow> loaded \<Rightarrow> ('w, distribution_plan) io" where
  "build getwd context_nil p ld =
     (if context_nil then io_fail (Errorf ''context must not be nil'' [])
      else (case map_option (\<lambda>q. (pln_client q, pln_resolver q, pln_hasher q)) p of
          Some (Some client, Some resolver, Some hash) \<Rightarrow>
            build_with \<lparr>tl_client = client, tl_resolve = resolver, tl_hash = hash, tl_getwd = getwd\<rparr> ld
        | _ \<Rightarrow> io_fail (Errorf ''planner is not initialized'' [])))"

end
