(* ===== verification/Planner_Load.thy ===== *)
theory Planner_Load
  imports Planner_Build
begin

text \<open>
  \<open>planFromDocument\<close> of \<open>internal/planner/load.go\<close>, which checks a stored document against its identifier and
  rebuilds the plan, and \<open>VerifyArtifacts\<close>, which hashes the artifacts of a plan again.  Decoding the
  JSON of a document into its struct is the library's.
\<close>

section \<open>planFromDocument\<close>

definition load_artifact :: "artifact list \<Rightarrow> artifact_document \<Rightarrow> artifact list result" where
  "load_artifact artifacts v =
     bind_result (wrap_result ''artifact %q digest: %w'' [ad_name v] (parse_digest (ad_digest v))) (\<lambda>d.
     bind_result (wrap_result ''artifact %q: %w'' [ad_name v]
        (new_artifact (ad_name v) (ad_source v) d (ad_size v) (ad_media_type v))) (\<lambda>a. Inr (artifacts @ [a])))"

record load_state =
  lt_targets :: "target list"
  lt_providers :: "(target_id \<times> provider_ref) list"
  lt_target_digests :: "(target_id \<times> string) list"
  lt_provider_digests :: "(provider_ref \<times> string) list"

definition note_digest :: "target_id \<Rightarrow> provider_ref \<Rightarrow> target_document \<Rightarrow> load_state \<Rightarrow> load_state result" where
  "note_digest i ref v st =
     (if pd_digest (td_provider v) = [] then Inr st
      else bind_result (wrap_result ''target %q provider digest: %w'' [td_id v] (parse_digest (pd_digest (td_provider v)))) (\<lambda>d.
        let canonical = digest_string d in
        if (case map_of (lt_provider_digests st) ref of None \<Rightarrow> False | Some e \<Rightarrow> e \<noteq> canonical)
        then Inl (Errorf ''provider %q@%q has inconsistent executable digests'' [provider_name ref, provider_version ref])
        else Inr (st\<lparr>lt_target_digests := map_insert i canonical (lt_target_digests st),
                    lt_provider_digests := map_insert ref canonical (lt_provider_digests st)\<rparr>)))"

definition load_target :: "load_state \<Rightarrow> target_document \<Rightarrow> load_state result" where
  "load_target st v =
     bind_result (new_target_id (td_id v)) (\<lambda>i.
     bind_result (wrap_result ''target %q provider: %w'' [td_id v] (provider_ref_from_document (td_provider v))) (\<lambda>ref.
     bind_result (note_digest i ref v st) (\<lambda>st1.
     bind_result (checked (first_error (map (\<lambda>c. fail_if (\<not> capability_valid c)
         (Errorf ''target %q has invalid required capability %q'' [td_id v, capability_text c]))
       (case td_required_capabilities v of None \<Rightarrow> [] | Some cs \<Rightarrow> cs))) ()) (\<lambda>_.
     bind_result (wrap_result ''target %q configuration: %w'' [td_id v] (new_json_value (td_configuration v))) (\<lambda>configuration.
     bind_result (wrap_result ''target %q requirements: %w'' [td_id v] (build_domain_requirements (td_requirements v))) (\<lambda>reqs.
     bind_result (new_target_with_requirements i ref configuration reqs) (\<lambda>t.
       Inr (st1\<lparr>lt_targets := lt_targets st1 @ [t], lt_providers := map_insert i ref (lt_providers st1)\<rparr>))))))))"

definition expected_key :: "plan_id \<Rightarrow> target_id \<Rightarrow> operation_id \<Rightarrow> artifact list \<Rightarrow> operation_document \<Rightarrow> string result" where
  "expected_key p target i artifacts v =
     (if so_side_effecting v
      then (let key = derive_idempotency_key p target i artifacts in
            if od_idempotency_key v \<noteq> key
            then Inl (Errorf ''operation %q idempotency key does not match plan identity'' [so_id v]) else Inr key)
      else if od_idempotency_key v \<noteq> []
      then Inl (Errorf ''operation %q must not contain an idempotency key'' [so_id v]) else Inr [])"

definition operation_digest_error :: "load_state \<Rightarrow> target_id \<Rightarrow> operation_document \<Rightarrow> error option" where
  "operation_digest_error st target v =
     (let dig = pd_digest (so_provider v); expected = (case map_of (lt_target_digests st) target of None \<Rightarrow> [] | Some d \<Rightarrow> d) in
      if dig \<noteq> expected then Some (Errorf ''operation %q provider digest does not match target'' [so_id v])
      else if dig \<noteq> [] \<and> \<not> is_ok (parse_digest dig) then Some (Errorf ''operation %q provider digest: %w'' [so_id v])
      else None)"

definition load_operation ::
  "plan_id \<Rightarrow> artifact list \<Rightarrow> load_state \<Rightarrow> operation list \<Rightarrow> operation_document \<Rightarrow> operation list result" where
  "load_operation p artifacts st operations v =
     bind_result (checked (fail_if (so_provider_operation_id v = [])
        (Errorf ''operation %q provider operation ID must not be empty'' [so_id v])) ()) (\<lambda>_.
     bind_result (new_operation_id (so_id v)) (\<lambda>i.
     bind_result (new_target_id (so_target_id v)) (\<lambda>target.
     bind_result (wrap_result ''operation %q provider: %w'' [so_id v] (provider_ref_from_document (so_provider v))) (\<lambda>ref.
     bind_result (checked (fail_if (map_of (lt_providers st) target \<noteq> Some ref)
        (Errorf ''operation %q provider does not match target'' [so_id v])) ()) (\<lambda>_.
     bind_result (checked (operation_digest_error st target v) ()) (\<lambda>_.
     bind_result (for_each (\<lambda>ds d. bind_result (new_operation_id d) (\<lambda>i. Inr (ds @ [i]))) [] (so_dependencies v)) (\<lambda>dependencies.
     bind_result (checked (fail_if (max_timeout_millis < unat (so_timeout_millis v))
        (Errorf ''operation %q timeout exceeds supported duration'' [so_id v])) ()) (\<lambda>_.
     bind_result (wrap_result ''operation %q payload: %w'' [so_id v] (new_json_value (so_provider_payload v))) (\<lambda>payload.
     bind_result (expected_key p target i artifacts v) (\<lambda>key.
     bind_result (new_operation i target ref (so_kind v) dependencies (so_side_effecting v) key
        (int (unat (so_timeout_millis v)) * 1000000) payload) (\<lambda>op. Inr (operations @ [op]))))))))))))"

definition load_header_error :: "plan_document \<Rightarrow> error option" where
  "load_header_error doc = first_error [
     fail_if (pn_schema_version doc \<noteq> plan_schema_version) (Errorf ''unsupported plan schema version %q'' [pn_schema_version doc]),
     fail_if (pn_protocol_version doc \<noteq> protocol_version) (Errorf ''unsupported plan protocol version %q'' [pn_protocol_version doc]),
     fail_if (pn_plan_id doc = []) (Errorf ''plan ID must not be empty'' [])]"

definition empty_load :: load_state where
  "empty_load = \<lparr>lt_targets = [], lt_providers = [], lt_target_digests = [], lt_provider_digests = []\<rparr>"

definition document_semantics :: "plan_document \<Rightarrow> release \<Rightarrow> semantic_plan" where
  "document_semantics doc rel = \<lparr>sp_schema_version = pn_schema_version doc, sp_protocol_version = pn_protocol_version doc,
     sp_release = semantic_release_of rel, sp_targets = pn_targets doc,
     sp_operations = map semantic_operation.truncate (pn_operations doc)\<rparr>"

definition plan_from_document :: "plan_document \<Rightarrow> distribution_plan result" where
  "plan_from_document doc =
     bind_result (checked (load_header_error doc) ()) (\<lambda>_.
     bind_result (new_release_id (rld_id (pn_release doc))) (\<lambda>release_id.
     bind_result (for_each load_artifact [] (rld_artifacts (pn_release doc))) (\<lambda>artifacts.
     bind_result (new_release release_id artifacts) (\<lambda>rel.
     bind_result (for_each load_target empty_load (case pn_targets doc of None \<Rightarrow> [] | Some ts \<Rightarrow> ts)) (\<lambda>st.
     bind_result (new_plan_id (pn_plan_id doc)) (\<lambda>p.
     bind_result (for_each (load_operation p artifacts st) [] (pn_operations doc)) (\<lambda>operations.
     bind_result (semantic_plan_id (document_semantics doc rel)) (\<lambda>expected.
     bind_result (checked (fail_if (expected \<noteq> p) (Errorf ''plan ID %q does not match plan content'' [p])) ()) (\<lambda>_.
     bind_result (new_plan p (pn_schema_version doc) (pn_protocol_version doc) rel (lt_targets st) operations) (\<lambda>pl.
       Inr \<lparr>dp_plan = pl, dp_document = doc\<rparr>))))))))))"

section \<open>VerifyArtifacts\<close>

definition verify_artifact :: "'w hasher \<Rightarrow> unit \<Rightarrow> artifact \<Rightarrow> ('w, unit) io" where
  "verify_artifact hash = (\<lambda>_ a.
     io_bind (io_wrap ''verify artifact %q: %w'' [artifact_name a] (hash (artifact_source a))) (\<lambda>(d, sz).
       io_lift (checked (first_error [
         fail_if (sz \<noteq> artifact_size a) (Errorf ''artifact %q size changed: got %d, want %d'' [artifact_name a]),
         fail_if (d \<noteq> artifact_digest a) (Errorf ''artifact %q digest changed'' [artifact_name a])]) ())))"

definition verify_artifacts :: "plan \<Rightarrow> 'w hasher \<Rightarrow> ('w, unit) io" where
  "verify_artifacts p hash =
     (if \<not> valid_identifier (pl_id p) then io_fail (Errorf ''plan is invalid'' [])
      else io_each (verify_artifact hash) () (rel_artifacts (pl_release p)))"

end
