(* ===== verification/Planner_Roundtrip.thy ===== *)
theory Planner_Roundtrip
  imports Planner_Load
begin

text \<open>
  What \<open>Build\<close> writes, \<open>planFromDocument\<close> accepts: the facts that the loops of \<open>Build\<close> establish, one group for
  each part of the document, and the loops of loading run over such a document.
\<close>

section \<open>Sorting two lists alike\<close>

lemma list_all2_insort_key:
  assumes "list_all2 R xs ys" and "R x y" and "\<And>a b. R a b \<Longrightarrow> f a = g b"
  shows "list_all2 R (insort_key f x xs) (insort_key g y ys)"
  using assms(1) by (induction rule: list_all2_induct) (use assms(2,3) in \<open>auto dest: assms(3)\<close>)

lemma list_all2_sort_key:
  assumes "list_all2 R xs ys" and "\<And>a b. R a b \<Longrightarrow> f a = g b"
  shows "list_all2 R (sort_key f xs) (sort_key g ys)"
  using assms(1) by (induction rule: list_all2_induct) (auto intro: list_all2_insort_key assms(2))

lemma sort_key_map_sorted: "sorted (map g xs) \<Longrightarrow> (\<And>x. f (h x) = g x) \<Longrightarrow> sort_key f (map h xs) = map h xs"
  by (rule sort_key_id_if_sorted) (simp add: comp_def)

section \<open>The release\<close>

definition artifact_made :: "artifact \<Rightarrow> bool" where
  "artifact_made a \<longleftrightarrow> digest_wf (artifact_digest a)
     \<and> new_artifact (artifact_name a) (artifact_source a) (artifact_digest a) (artifact_size a) (artifact_media_type a) = Inr a"

definition hasher_sound :: "'w hasher \<Rightarrow> bool" where
  "hasher_sound h \<longleftrightarrow> (\<forall>p w w' d n. h p w = (w', Inr (d, n)) \<longrightarrow> digest_wf d)"

lemma new_artifact_made: "new_artifact n s d z m = Inr a \<Longrightarrow> digest_wf d \<Longrightarrow> artifact_made a \<and> artifact_name a = n"
  by (auto simp: new_artifact_def artifact_made_def)

lemma build_artifact_made:
  assumes "hasher_sound (tl_hash tools)" and "build_artifact tools base (as, ms) ac w = (w', Inr (as', ms'))"
  shows "\<exists>a. as' = as @ [a] \<and> artifact_made a \<and> artifact_name a = ca_name ac"
proof -
  obtain v v' p d n a where "tl_hash tools p v = (v', Inr (d, n))"
    "new_artifact (ca_name ac) p d n (ca_media_type ac) = Inr a" "as' = as @ [a]"
    using assms(2) by (auto simp: build_artifact_def Let_def io_success)
  with assms(1) new_artifact_made show ?thesis unfolding hasher_sound_def by blast
qed

lemma build_release_made:
  assumes "hasher_sound (tl_hash tools)" and "build_release tools ld w = (w', Inr (rel, msg))"
  shows "valid_identifier (rel_id rel)" and "new_release (rel_id rel) (rel_artifacts rel) = Inr rel"
    and "\<forall>a \<in> set (rel_artifacts rel). artifact_made a" and "sorted (map artifact_name (rel_artifacts rel))"
proof -
  let ?acs = "sort_key ca_name (cr_artifacts (cf_release (ld_config ld)))"
  obtain v as ms i where l: "io_each (build_artifact tools (ld_base_dir ld)) ([], []) ?acs w = (v, Inr (as, ms))"
    and rel: "new_release i as = Inr rel" and i: "new_release_id i = Inr i"
    using assms(2) by (auto simp: build_release_def io_success new_release_id_def)
  have "(\<forall>a \<in> set as. artifact_made a) \<and> map artifact_name as = map ca_name ?acs"
    using io_each_invariant [OF l, of "\<lambda>ys (as, ms). (\<forall>a \<in> set as. artifact_made a) \<and> map artifact_name as = map ca_name ys"]
      build_artifact_made [OF assms(1)] by (fastforce split: prod.splits)
  moreover have "rel = \<lparr>rel_id = i, rel_artifacts = as\<rparr>"
    using rel by (auto simp: new_release_def bind_result_Inr split: if_splits)
  ultimately show "valid_identifier (rel_id rel)" "new_release (rel_id rel) (rel_artifacts rel) = Inr rel"
    "\<forall>a \<in> set (rel_artifacts rel). artifact_made a" "sorted (map artifact_name (rel_artifacts rel))"
    using rel i by (simp_all add: new_release_id_def)
qed

lemma load_artifacts:
  assumes "\<forall>a \<in> set as. artifact_made a"
  shows "for_each load_artifact acc (map (\<lambda>a. \<lparr>ad_name = artifact_name a, ad_source = artifact_source a,
      ad_digest = digest_string (artifact_digest a), ad_size = artifact_size a, ad_media_type = artifact_media_type a\<rparr>) as)
    = Inr (acc @ as)"
  using assms
proof (induction as arbitrary: acc)
  case (Cons a as)
  then have "parse_digest (digest_string (artifact_digest a)) = Inr (artifact_digest a)"
    by (simp add: artifact_made_def parse_digest_string)
  with Cons show ?case by (simp add: load_artifact_def artifact_made_def wrap_result_def)
qed simp

section \<open>Targets\<close>

text \<open>A document that loads to a target, given what every provider is bound to.\<close>

definition loads_to :: "(provider_ref \<times> digest) list \<Rightarrow> target_document \<Rightarrow> target \<Rightarrow> bool" where
  "loads_to bound doc t \<longleftrightarrow> td_id doc = tgt_id t \<and> valid_identifier (tgt_id t)
     \<and> (\<exists>d. map_of bound (tgt_provider t) = Some d \<and> digest_wf d \<and> td_provider doc = document_of_ref (tgt_provider t) d)
     \<and> provider_ref_valid (tgt_provider t)
     \<and> (\<exists>cs. td_required_capabilities doc = Some cs \<and> (\<forall>c \<in> set cs. capability_valid c))
     \<and> new_json_value (td_configuration doc) = Inr (tgt_configuration t)
     \<and> build_domain_requirements (td_requirements doc) = Inr (tgt_requirements t)
     \<and> new_target_with_requirements (tgt_id t) (tgt_provider t) (tgt_configuration t) (tgt_requirements t) = Inr t"

definition draft_made :: "target_document list \<Rightarrow> operation_draft \<Rightarrow> bool" where
  "draft_made docs df \<longleftrightarrow> df_provider_operation_id df \<noteq> [] \<and> sorted (df_dependencies df)
     \<and> unat (df_timeout_millis df) \<le> max_timeout_millis \<and> df_timeout df = int (unat (df_timeout_millis df)) * 1000000
     \<and> new_json_value (df_provider_payload df) = Inr (df_provider_payload df)
     \<and> provider_ref_valid (df_provider df) \<and> digest_wf (df_provider_digest df)
     \<and> (\<exists>doc \<in> set docs. td_id doc = df_target_id df \<and> td_provider doc = document_of_ref (df_provider df) (df_provider_digest df))"

lemma draft_made_mono: "draft_made docs df \<Longrightarrow> set docs \<subseteq> set docs' \<Longrightarrow> draft_made docs' df"
  by (auto simp: draft_made_def)

lemma loads_to_mono:
  "loads_to bound doc t \<Longrightarrow> (\<And>r d. map_of bound r = Some d \<Longrightarrow> map_of bound' r = Some d) \<Longrightarrow> loads_to bound' doc t"
  by (auto simp: loads_to_def simp del: map_of_eq_Some_iff)

lemma provider_ref_from_document_made:
  "provider_ref_valid ref \<Longrightarrow> provider_ref_from_document (document_of_ref ref d) = Inr ref"
  by (simp add: provider_ref_from_document_def document_of_ref_def provider_ref_valid_def new_provider_name_def
      new_provider_version_def new_provider_ref_def checks bind_result_Inr)

lemma build_drafts_made:
  assumes "for_each (build_draft target ref dig names) acc ops = Inr drafts" and "\<forall>o1 \<in> set ops. planned_ok o1"
  shows "\<forall>df \<in> set drafts. df \<in> set acc \<or> (df_target_id df = target \<and> df_provider df = ref \<and> df_provider_digest df = dig
    \<and> df_provider_operation_id df \<noteq> [] \<and> sorted (df_dependencies df) \<and> unat (df_timeout_millis df) \<le> max_timeout_millis
    \<and> df_timeout df = int (unat (df_timeout_millis df)) * 1000000
    \<and> new_json_value (df_provider_payload df) = Inr (df_provider_payload df))"
proof (rule for_each_invariant [OF assms(1)])
  fix s o1 s'
  assume "o1 \<in> set ops" and step: "build_draft target ref dig names s o1 = Inr s'"
  then have "po_id o1 \<noteq> []" using assms(2) by (auto simp: planned_ok_def)
  moreover assume "\<forall>df \<in> set s. df \<in> set acc \<or> (df_target_id df = target \<and> df_provider df = ref \<and> df_provider_digest df = dig
    \<and> df_provider_operation_id df \<noteq> [] \<and> sorted (df_dependencies df) \<and> unat (df_timeout_millis df) \<le> max_timeout_millis
    \<and> df_timeout df = int (unat (df_timeout_millis df)) * 1000000
    \<and> new_json_value (df_provider_payload df) = Inr (df_provider_payload df))"
  ultimately show "\<forall>df \<in> set s'. df \<in> set acc \<or> (df_target_id df = target \<and> df_provider df = ref \<and> df_provider_digest df = dig
    \<and> df_provider_operation_id df \<noteq> [] \<and> sorted (df_dependencies df) \<and> unat (df_timeout_millis df) \<le> max_timeout_millis
    \<and> df_timeout df = int (unat (df_timeout_millis df)) * 1000000
    \<and> new_json_value (df_provider_payload df) = Inr (df_provider_payload df))"
    using step by (auto simp: build_draft_def bind_result_Inr split: if_splits)
qed simp

lemma use_plan_response_made:
  assumes "use_plan_response tc d (ct_id tc) ref dig configuration response = Inr (t, doc, drafts)"
    and "valid_identifier (ct_id tc)" and "provider_ref_valid ref" and "digest_wf dig"
    and "new_json_value (ct_configuration tc) = Inr configuration" and "map_of bound ref = Some dig"
    and "pi_name (dr_provider d) = provider_name ref" and "pi_version (dr_provider d) = provider_version ref"
  shows "loads_to bound doc t" and "\<forall>df \<in> set drafts. draft_made [doc] df"
proof -
  let ?ops = "ps_operations response"
  obtain reqs qs names ds where a: "plan_response_validate response = None" "build_domain_requirements qs = Inr reqs"
    "new_target_with_requirements (ct_id tc) ref configuration reqs = Inr t"
    "for_each (build_draft (ct_id tc) ref dig names) [] ?ops = Inr ds" "drafts = sort_key df_global_id ds"
    and doc: "doc = \<lparr>td_id = ct_id tc, td_provider = document_of_ref ref dig, td_configuration = ct_configuration tc,
       td_required_capabilities = Some (required_capabilities ?ops), td_requirements = qs\<rparr>"
    using assms(1,7,8)
    by (auto simp: use_plan_response_def Let_def bind_result_Inr build_operation_drafts_def document_of_ref_def)
  have t: "t = \<lparr>tgt_id = ct_id tc, tgt_provider = ref, tgt_configuration = configuration, tgt_requirements = reqs\<rparr>"
    using a(3) by (auto simp: new_target_with_requirements_def bind_result_Inr split: if_splits)
  show "loads_to bound doc t"
    using assms(2-6) a(2,3) required_capabilities_valid by (auto simp: loads_to_def doc t)
  have "\<forall>o1 \<in> set ?ops. planned_ok o1" using a(1) by (simp add: plan_response_validate_None)
  from build_drafts_made [OF a(4) this] assms(3,4)
  show "\<forall>df \<in> set drafts. draft_made [doc] df" by (simp add: draft_made_def doc a(5))
qed

text \<open>What the loop over the targets has established after some of them.\<close>

definition build_inv :: "build_state \<Rightarrow> bool" where
  "build_inv st \<longleftrightarrow> list_all2 (loads_to (bs_bound st)) (bs_documents st) (bs_targets st)
     \<and> (\<forall>df \<in> set (bs_drafts st). draft_made (bs_documents st) df)
     \<and> (\<forall>(ep, d) \<in> set (bs_hashed st). digest_wf d)"

lemma hash_cached_made:
  assumes "hasher_sound (tl_hash tools)" and "hash_cached tools tc ep st w = (w', Inr (st', d))"
    and "\<forall>(ep, d) \<in> set (bs_hashed st). digest_wf d"
  shows "digest_wf d \<and> (\<exists>m. st' = st\<lparr>bs_hashed := m\<rparr> \<and> (\<forall>(ep, d) \<in> set m. digest_wf d))"
proof (cases "map_of (bs_hashed st) ep")
  case (Some e)
  then have "st' = st" "d = e" "w' = w" using assms(2) by (simp_all add: hash_cached_def io_success)
  moreover have "digest_wf e" using map_of_SomeD [OF Some] assms(3) by auto
  ultimately show ?thesis using assms(3) by (intro conjI exI [of _ "bs_hashed st"]) simp_all
next
  case None
  then obtain n where n: "tl_hash tools (ep_executable ep) w = (w', Inr (d, n))" "st' = st\<lparr>bs_hashed := map_insert ep d (bs_hashed st)\<rparr>"
    using assms(2) by (auto simp: hash_cached_def io_success)
  have "ep \<notin> fst ` set (bs_hashed st)" using None by (simp add: map_of_eq_None_iff)
  then have "map_insert ep d (bs_hashed st) = bs_hashed st @ [(ep, d)]" by (rule map_insert_fresh)
  moreover have "digest_wf d" using n(1) assms(1) unfolding hasher_sound_def by blast
  ultimately show ?thesis using n(2) assms(3) by (intro conjI exI [of _ "map_insert ep d (bs_hashed st)"]) auto
qed

lemma target_identity_made:
  assumes "target_identity tc d = Inr (i, ref)"
  shows "i = ct_id tc" "valid_identifier (ct_id tc)" "provider_ref_valid ref"
    "pi_name (dr_provider d) = provider_name ref" "pi_version (dr_provider d) = provider_version ref"
  using assms
  by (auto simp: target_identity_def bind_result_Inr new_target_id_def new_provider_name_def new_provider_version_def
      new_provider_ref_def provider_ref_valid_def checks)

lemma describe_cached_made:
  "describe_cached tools tc ep st w = (w', Inr (st', d)) \<Longrightarrow> \<exists>m. st' = st\<lparr>bs_described := m\<rparr>"
  by (cases "map_of (bs_described st) ep") (auto simp: describe_cached_def io_success Let_def intro: exI [of _ "bs_described st"])

lemma build_target_inv:
  assumes "hasher_sound (tl_hash tools)" and "build_target tools base msg st tc w = (w', Inr st')" and "build_inv st"
  shows "build_inv st'"
proof -
  obtain w1 w2 w3 w4 w5 ep st1 d i ref st2 dig st3 configuration response t doc drafts where
    d: "describe_cached tools tc ep st w1 = (w2, Inr (st1, d))" and i: "target_identity tc d = Inr (i, ref)"
    and h: "hash_cached tools tc ep st1 w2 = (w3, Inr (st2, dig))" and b: "bind_digest ref dig st2 = Inr st3"
    and c: "new_json_value (ct_configuration tc) = Inr configuration"
    and u: "use_plan_response tc d i ref dig configuration response = Inr (t, doc, drafts)"
    and st': "st' = st3\<lparr>bs_targets := bs_targets st3 @ [t], bs_documents := bs_documents st3 @ [doc], bs_drafts := bs_drafts st3 @ drafts\<rparr>"
    using assms(2) by (simp only: build_target_def io_success split_paired_Ex prod.case) blast
  note i' = target_identity_made [OF i]
  obtain m where m: "st1 = st\<lparr>bs_described := m\<rparr>" using describe_cached_made [OF d] by blast
  obtain k where k: "st2 = st1\<lparr>bs_hashed := k\<rparr>" "\<forall>(ep, d) \<in> set k. digest_wf d" "digest_wf dig"
    using hash_cached_made [OF assms(1) h] assms(3) by (auto simp: m build_inv_def)
  have bound: "st3 = st2\<lparr>bs_bound := map_insert ref dig (bs_bound st2)\<rparr>"
    and same: "map_of (bs_bound st) ref = None \<or> map_of (bs_bound st) ref = Some dig"
    using b by (auto simp: bind_digest_def k(1) m split: if_splits option.splits)
  have mono: "map_of (map_insert ref dig (bs_bound st)) r = Some e" if "map_of (bs_bound st) r = Some e" for r e
    using that same by (auto simp del: map_of_eq_Some_iff)
  have at: "map_of (map_insert ref dig (bs_bound st)) ref = Some dig" by (simp del: map_of_eq_Some_iff)
  note made = use_plan_response_made [OF u [unfolded i'(1)] i'(2,3) k(3) c at i'(4,5)]
  have "list_all2 (loads_to (map_insert ref dig (bs_bound st))) (bs_documents st) (bs_targets st)"
    using assms(3) unfolding build_inv_def by (auto elim!: list_all2_mono intro: loads_to_mono mono)
  with made(1) have "list_all2 (loads_to (map_insert ref dig (bs_bound st))) (bs_documents st @ [doc]) (bs_targets st @ [t])"
    by (intro list_all2_appendI) simp_all
  moreover have "draft_made (bs_documents st @ [doc]) df" if "df \<in> set (bs_drafts st @ drafts)" for df
    using that assms(3) made(2) draft_made_mono [of "bs_documents st" df "bs_documents st @ [doc]"]
      draft_made_mono [of "[doc]" df "bs_documents st @ [doc]"] by (auto simp: build_inv_def)
  ultimately show ?thesis using k(2) by (simp add: build_inv_def st' bound k(1) m)
qed

lemma build_targets_inv:
  assumes "hasher_sound (tl_hash tools)" and "io_each (build_target tools base msg) initial_build tcs w = (w', Inr st)"
  shows "build_inv st"
proof (rule io_each_invariant [OF assms(2), of "\<lambda>_. build_inv"])
  show "build_inv initial_build" by (simp add: build_inv_def initial_build_def)
qed (rule build_target_inv [OF assms(1)])

section \<open>Loading the targets\<close>

definition digests_agree :: "(provider_ref \<times> digest) list \<Rightarrow> load_state \<Rightarrow> bool" where
  "digests_agree bound st \<longleftrightarrow> (\<forall>r s. map_of (lt_provider_digests st) r = Some s \<longrightarrow>
     (\<exists>d. map_of bound r = Some d \<and> s = digest_string d))"

lemma digest_string_nonempty [simp]: "digest_string d \<noteq> []"
  by (simp add: digest_string_def)

lemma load_target_made:
  assumes "loads_to bound doc t" and "digests_agree bound st"
  shows "\<exists>d st'. map_of bound (tgt_provider t) = Some d \<and> td_provider doc = document_of_ref (tgt_provider t) d
    \<and> load_target st doc = Inr st' \<and> digests_agree bound st' \<and> lt_targets st' = lt_targets st @ [t]
    \<and> map_of (lt_providers st') = (map_of (lt_providers st))(tgt_id t \<mapsto> tgt_provider t)
    \<and> map_of (lt_target_digests st') = (map_of (lt_target_digests st))(tgt_id t \<mapsto> digest_string d)"
proof -
  obtain d cs where d: "map_of bound (tgt_provider t) = Some d" "digest_wf d" "td_provider doc = document_of_ref (tgt_provider t) d"
    and cs: "td_required_capabilities doc = Some cs" "\<forall>c \<in> set cs. capability_valid c"
    and rest: "td_id doc = tgt_id t" "valid_identifier (tgt_id t)" "provider_ref_valid (tgt_provider t)"
      "new_json_value (td_configuration doc) = Inr (tgt_configuration t)"
      "build_domain_requirements (td_requirements doc) = Inr (tgt_requirements t)"
      "new_target_with_requirements (tgt_id t) (tgt_provider t) (tgt_configuration t) (tgt_requirements t) = Inr t"
    using assms(1) unfolding loads_to_def by blast
  let ?st1 = "st\<lparr>lt_target_digests := map_insert (tgt_id t) (digest_string d) (lt_target_digests st),
     lt_provider_digests := map_insert (tgt_provider t) (digest_string d) (lt_provider_digests st)\<rparr>"
  have agree: "\<not> (case map_of (lt_provider_digests st) (tgt_provider t) of None \<Rightarrow> False | Some e \<Rightarrow> e \<noteq> digest_string d)"
  proof (cases "map_of (lt_provider_digests st) (tgt_provider t)")
    case (Some e)
    with assms(2) obtain d' where "map_of bound (tgt_provider t) = Some d'" "e = digest_string d'"
      unfolding digests_agree_def by blast
    with d(1) Some show ?thesis by (simp del: map_of_eq_Some_iff)
  qed simp
  have dig: "pd_digest (td_provider doc) = digest_string d" by (simp add: d(3) document_of_ref_def)
  have noted: "note_digest (tgt_id t) (tgt_provider t) doc st = Inr ?st1"
    using agree by (simp add: note_digest_def Let_def dig parse_digest_string [OF d(2)] wrap_result_def del: map_of_eq_Some_iff)
  have ref: "provider_ref_from_document (td_provider doc) = Inr (tgt_provider t)"
    unfolding d(3) by (rule provider_ref_from_document_made [OF rest(3)])
  have caps: "first_error (map (\<lambda>c. fail_if (\<not> capability_valid c)
      (Errorf ''target %q has invalid required capability %q'' [td_id doc, capability_text c])) cs) = None"
    using cs(2) by (simp add: first_error_map_None)
  let ?st2 = "?st1\<lparr>lt_targets := lt_targets ?st1 @ [t], lt_providers := map_insert (tgt_id t) (tgt_provider t) (lt_providers ?st1)\<rparr>"
  have "load_target st doc = Inr ?st2"
    using rest(2,4-6) noted ref caps by (auto simp: load_target_def bind_result_Inr new_target_id_def rest(1) cs(1))
  moreover have "digests_agree bound ?st2"
    using assms(2) d(1) by (auto simp: digests_agree_def simp del: map_of_eq_Some_iff)
  ultimately show ?thesis using d(1,3)
    by (intro exI [of _ d] exI [of _ ?st2]) (simp del: map_of_eq_Some_iff)
qed

lemma load_targets_made:
  assumes "list_all2 (loads_to bound) docs ts" and "digests_agree bound st" and "distinct (map tgt_id ts)"
  shows "\<exists>st'. for_each load_target st docs = Inr st' \<and> lt_targets st' = lt_targets st @ ts
    \<and> (\<forall>i. i \<notin> tgt_id ` set ts \<longrightarrow> map_of (lt_providers st') i = map_of (lt_providers st) i
          \<and> map_of (lt_target_digests st') i = map_of (lt_target_digests st) i)
    \<and> (\<forall>t \<in> set ts. \<exists>doc \<in> set docs. \<exists>d. td_id doc = tgt_id t \<and> td_provider doc = document_of_ref (tgt_provider t) d
          \<and> map_of (lt_providers st') (tgt_id t) = Some (tgt_provider t)
          \<and> map_of (lt_target_digests st') (tgt_id t) = Some (digest_string d))"
  using assms
proof (induction docs ts arbitrary: st rule: list_all2_induct)
  case (Cons doc docs t ts)
  obtain d st1 where st1: "td_provider doc = document_of_ref (tgt_provider t) d" "load_target st doc = Inr st1"
    "digests_agree bound st1" "lt_targets st1 = lt_targets st @ [t]"
    and maps: "map_of (lt_providers st1) = (map_of (lt_providers st))(tgt_id t \<mapsto> tgt_provider t)"
      "map_of (lt_target_digests st1) = (map_of (lt_target_digests st))(tgt_id t \<mapsto> digest_string d)"
    using load_target_made [OF Cons.hyps(1) Cons.prems(1)] by blast
  have dist: "distinct (map tgt_id ts)" "tgt_id t \<notin> tgt_id ` set ts" using Cons.prems(2) by auto
  obtain st' where st': "for_each load_target st1 docs = Inr st'" "lt_targets st' = lt_targets st1 @ ts"
    and same: "\<forall>i. i \<notin> tgt_id ` set ts \<longrightarrow> map_of (lt_providers st') i = map_of (lt_providers st1) i
          \<and> map_of (lt_target_digests st') i = map_of (lt_target_digests st1) i"
    and each: "\<forall>t \<in> set ts. \<exists>doc \<in> set docs. \<exists>d. td_id doc = tgt_id t \<and> td_provider doc = document_of_ref (tgt_provider t) d
          \<and> map_of (lt_providers st') (tgt_id t) = Some (tgt_provider t)
          \<and> map_of (lt_target_digests st') (tgt_id t) = Some (digest_string d)"
    using Cons.IH [OF st1(3) dist(1)] by blast
  have here: "map_of (lt_providers st') (tgt_id t) = Some (tgt_provider t)"
    "map_of (lt_target_digests st') (tgt_id t) = Some (digest_string d)"
    using same dist(2) by (simp_all add: maps del: map_of_eq_Some_iff)
  have id: "td_id doc = tgt_id t" using Cons.hyps(1) by (simp add: loads_to_def)
  have first: "\<exists>doc' \<in> set (doc # docs). \<exists>d. td_id doc' = tgt_id t \<and> td_provider doc' = document_of_ref (tgt_provider t) d
      \<and> map_of (lt_providers st') (tgt_id t) = Some (tgt_provider t)
      \<and> map_of (lt_target_digests st') (tgt_id t) = Some (digest_string d)"
    by (rule bexI [of _ doc], rule exI [of _ d]) (use id st1(1) here in simp_all)
  have others: "\<forall>i. i \<notin> tgt_id ` set (t # ts) \<longrightarrow> map_of (lt_providers st') i = map_of (lt_providers st) i
          \<and> map_of (lt_target_digests st') i = map_of (lt_target_digests st) i"
    using same by (simp add: maps del: map_of_eq_Some_iff)
  show ?case
  proof (rule exI [of _ st'], intro conjI)
    show "for_each load_target st (doc # docs) = Inr st'" by (simp add: st1(2) st'(1))
    show "lt_targets st' = lt_targets st @ t # ts" by (simp add: st'(2) st1(4))
  qed (use others first each in \<open>simp_all del: map_of_eq_Some_iff\<close>)
qed simp

end
