(* ===== verification/Planner_Loads.thy ===== *)
theory Planner_Loads
  imports Planner_Roundtrip
begin

text \<open>The operations of a document that \<open>Build\<close> wrote, and then the whole document, are loaded back.\<close>

section \<open>Operations\<close>

definition draft_key :: "plan_id \<Rightarrow> release \<Rightarrow> operation_draft \<Rightarrow> string" where
  "draft_key p rel df = (if df_side_effecting df
     then derive_idempotency_key p (df_target_id df) (df_global_id df) (rel_artifacts rel) else [])"

definition document_of_draft :: "plan_id \<Rightarrow> release \<Rightarrow> operation_draft \<Rightarrow> operation_document" where
  "document_of_draft p rel df = semantic_operation.extend (semantic_of_draft df) (operation_document.fields (draft_key p rel df))"

lemma document_of_draft_fields [simp]:
  "so_id (document_of_draft p rel df) = df_global_id df"
  "so_provider_operation_id (document_of_draft p rel df) = df_provider_operation_id df"
  "so_target_id (document_of_draft p rel df) = df_target_id df"
  "so_provider (document_of_draft p rel df) = document_of_ref (df_provider df) (df_provider_digest df)"
  "so_kind (document_of_draft p rel df) = df_kind df"
  "so_dependencies (document_of_draft p rel df) = sort (df_dependencies df)"
  "so_side_effecting (document_of_draft p rel df) = df_side_effecting df"
  "so_timeout_millis (document_of_draft p rel df) = df_timeout_millis df"
  "so_provider_payload (document_of_draft p rel df) = df_provider_payload df"
  "od_idempotency_key (document_of_draft p rel df) = draft_key p rel df"
  "semantic_operation.truncate (document_of_draft p rel df) = semantic_of_draft df"
  by (simp_all add: document_of_draft_def semantic_of_draft_def semantic_operation.defs operation_document.defs)

definition operation_of_draft :: "plan_id \<Rightarrow> release \<Rightarrow> operation_draft \<Rightarrow> operation result" where
  "operation_of_draft p rel df = new_operation (df_global_id df) (df_target_id df) (df_provider df) (df_kind df)
     (df_dependencies df) (df_side_effecting df) (draft_key p rel df) (df_timeout df) (df_provider_payload df)"

lemma build_operation_Inr:
  "build_operation p rel (ops, docs) df = Inr (ops', docs') \<longleftrightarrow>
     (\<exists>op. operation_of_draft p rel df = Inr op \<and> ops' = ops @ [op] \<and> docs' = docs @ [document_of_draft p rel df])"
  by (auto simp: build_operation_def bind_result_Inr Let_def draft_key_def operation_of_draft_def document_of_draft_def)

lemma build_operations_Inr:
  "for_each (build_operation p rel) (ops, docs) drafts = Inr (ops', docs') \<Longrightarrow>
     docs' = docs @ map (document_of_draft p rel) drafts
     \<and> (\<exists>new. ops' = ops @ new \<and> list_all2 (\<lambda>df op. operation_of_draft p rel df = Inr op) drafts new)"
proof (induction drafts arbitrary: ops docs)
  case (Cons df drafts)
  then obtain op where op: "operation_of_draft p rel df = Inr op"
    and rest: "for_each (build_operation p rel) (ops @ [op], docs @ [document_of_draft p rel df]) drafts = Inr (ops', docs')"
    by (auto simp: bind_result_Inr build_operation_Inr)
  from Cons.IH [OF rest] obtain new where "docs' = (docs @ [document_of_draft p rel df]) @ map (document_of_draft p rel) drafts"
    "ops' = (ops @ [op]) @ new" "list_all2 (\<lambda>df op. operation_of_draft p rel df = Inr op) drafts new" by blast
  with op show ?case by (intro conjI exI [of _ "op # new"]) simp_all
qed simp

lemma new_identifier_valid: "valid_identifier v \<Longrightarrow> new_identifier n v = Inr v"
  by simp

lemma load_dependencies:
  "\<forall>d \<in> set ds. valid_identifier d \<Longrightarrow>
     for_each (\<lambda>ds d. bind_result (new_operation_id d) (\<lambda>i. Inr (ds @ [i]))) acc ds = Inr (acc @ ds)"
  by (induction ds arbitrary: acc) (simp_all add: new_operation_id_def new_identifier_valid)

definition knows_target :: "load_state \<Rightarrow> operation_draft \<Rightarrow> bool" where
  "knows_target st df \<longleftrightarrow> map_of (lt_providers st) (df_target_id df) = Some (df_provider df)
     \<and> map_of (lt_target_digests st) (df_target_id df) = Some (digest_string (df_provider_digest df))"

lemma load_operation_made:
  assumes "draft_made docs df" and "knows_target st df" and "operation_of_draft p rel df = Inr op"
  shows "load_operation p (rel_artifacts rel) st ops (document_of_draft p rel df) = Inr (ops @ [op])"
proof -
  note made = assms(1) [unfolded draft_made_def] and known = assms(2) [unfolded knows_target_def]
  have op: "valid_identifier (df_global_id df)" "valid_identifier (df_target_id df)"
    "\<forall>d \<in> set (df_dependencies df). valid_identifier d"
    using assms(3) by (auto simp: operation_of_draft_def new_operation_def checks check_dependencies_Inr)
  have sorted: "sort (df_dependencies df) = df_dependencies df" using made by (simp add: sorted_sort_id)
  have ref: "provider_ref_from_document (document_of_ref (df_provider df) (df_provider_digest df)) = Inr (df_provider df)"
    using made by (simp add: provider_ref_from_document_made)
  have dig: "operation_digest_error st (df_target_id df) (document_of_draft p rel df) = None"
    using made known by (simp add: operation_digest_error_def Let_def document_of_ref_def parse_digest_string del: map_of_eq_Some_iff)
  have key: "expected_key p (df_target_id df) (df_global_id df) (rel_artifacts rel) (document_of_draft p rel df) = Inr (draft_key p rel df)"
    by (simp add: expected_key_def draft_key_def)
  have payload: "new_json_value (df_provider_payload df) = Inr (df_provider_payload df)" using made by simp
  show ?thesis
    using made known op ref dig key payload load_dependencies [OF op(3), of "[]"] assms(3)
    by (simp add: load_operation_def new_operation_id_def new_target_id_def new_identifier_valid sorted wrap_result_def operation_of_draft_def
        del: map_of_eq_Some_iff new_json_value_Inr)
qed

lemma load_operations_made:
  assumes "list_all2 (\<lambda>df op. operation_of_draft p rel df = Inr op) drafts ops"
    and "\<forall>df \<in> set drafts. draft_made docs df \<and> knows_target st df"
  shows "for_each (load_operation p (rel_artifacts rel) st) acc (map (document_of_draft p rel) drafts) = Inr (acc @ ops)"
  using assms by (induction arbitrary: acc rule: list_all2_induct) (simp_all add: load_operation_made [of docs])

section \<open>The whole document\<close>

lemma knows_target_made:
  assumes "list_all2 (loads_to bound) docs ts" and "distinct (map tgt_id ts)" and "draft_made docs df"
    and each: "\<forall>t \<in> set ts. \<exists>doc \<in> set docs. \<exists>d. td_id doc = tgt_id t \<and> td_provider doc = document_of_ref (tgt_provider t) d
          \<and> map_of (lt_providers st) (tgt_id t) = Some (tgt_provider t)
          \<and> map_of (lt_target_digests st) (tgt_id t) = Some (digest_string d)"
  shows "knows_target st df"
proof -
  obtain doc where doc: "doc \<in> set docs" "td_id doc = df_target_id df"
    "td_provider doc = document_of_ref (df_provider df) (df_provider_digest df)"
    using assms(3) unfolding draft_made_def by blast
  obtain t where t: "t \<in> set ts" "loads_to bound doc t" using assms(1) doc(1) by (induction rule: list_all2_induct) auto
  then obtain doc' d where d: "doc' \<in> set docs" "td_id doc' = tgt_id t" "td_provider doc' = document_of_ref (tgt_provider t) d"
    "map_of (lt_providers st) (tgt_id t) = Some (tgt_provider t)" "map_of (lt_target_digests st) (tgt_id t) = Some (digest_string d)"
    using each by blast
  have "map td_id docs = map tgt_id ts"
    using assms(1) by (induction rule: list_all2_induct) (auto simp: loads_to_def)
  then have "distinct (map td_id docs)" using assms(2) by simp
  then have "doc' = doc" using doc(1) d(1,2) t(2) by (auto simp: loads_to_def distinct_map inj_on_def)
  then have "document_of_ref (tgt_provider t) d = document_of_ref (df_provider df) (df_provider_digest df)"
    using d(3) doc(3) by simp
  then have "tgt_provider t = df_provider df" "digest_string d = digest_string (df_provider_digest df)"
    by (simp_all add: document_of_ref_def)
  with d(4,5) doc(2) t(2) show ?thesis by (simp add: knows_target_def loads_to_def)
qed

lemma operations_distinct_dependencies:
  "list_all2 (\<lambda>df op. operation_of_draft p rel df = Inr op) drafts ops \<Longrightarrow> \<forall>op \<in> set ops. distinct (op_dependencies op)"
  by (induction rule: list_all2_induct) (simp_all add: operation_of_draft_def, metis new_operation_Inr(4,8))

text \<open>What a successful \<open>Build\<close> has made, part by part.\<close>

lemma build_with_parts:
  assumes "hasher_sound (tl_hash tools)" and "build_with tools ld w = (w', Inr dp)"
  obtains rel st drafts p ops where
    "new_release (rel_id rel) (rel_artifacts rel) = Inr rel" "valid_identifier (rel_id rel)"
    "\<forall>a \<in> set (rel_artifacts rel). artifact_made a" "sorted (map artifact_name (rel_artifacts rel))"
    "build_inv st" "drafts = sort_key df_global_id (bs_drafts st)"
    "semantic_plan_id \<lparr>sp_schema_version = plan_schema_version, sp_protocol_version = protocol_version,
        sp_release = semantic_release_of rel, sp_targets = Some (sort_key td_id (bs_documents st)),
        sp_operations = map semantic_of_draft drafts\<rparr> = Inr p"
    "list_all2 (\<lambda>df op. operation_of_draft p rel df = Inr op) drafts ops"
    "new_plan p plan_schema_version protocol_version rel (sort_key tgt_id (bs_targets st)) ops = Inr (dp_plan dp)"
    "dp_document dp = \<lparr>pn_schema_version = plan_schema_version, pn_protocol_version = protocol_version,
          pn_plan_id = p, pn_release = release_document_of rel, pn_targets = Some (sort_key td_id (bs_documents st)),
          pn_operations = map (document_of_draft p rel) drafts\<rparr>"
proof -
  obtain w1 w2 rel msg st where r: "build_release tools ld w = (w1, Inr (rel, msg))"
    and t: "io_each (build_target tools (ld_base_dir ld) msg) initial_build (sort_key ct_id (cf_targets (ld_config ld))) w1 = (w2, Inr st)"
    and a: "assemble_plan rel st = Inr dp"
    using assms(2) by (simp only: build_with_def io_success split_paired_Ex prod.case) blast
  let ?drafts = "sort_key df_global_id (bs_drafts st)"
  have sorted: "semantic_operations ?drafts = map semantic_of_draft ?drafts"
    unfolding semantic_operations_def by (rule sort_key_map_sorted [of df_global_id]) (simp_all add: semantic_of_draft_def)
  obtain p ops docs where p: "semantic_plan_id \<lparr>sp_schema_version = plan_schema_version, sp_protocol_version = protocol_version,
        sp_release = semantic_release_of rel, sp_targets = Some (sort_key td_id (bs_documents st)),
        sp_operations = map semantic_of_draft ?drafts\<rparr> = Inr p"
    and b: "for_each (build_operation p rel) ([], []) ?drafts = Inr (ops, docs)"
    and n: "new_plan p plan_schema_version protocol_version rel (sort_key tgt_id (bs_targets st)) ops = Inr (dp_plan dp)"
    and d: "dp_document dp = \<lparr>pn_schema_version = plan_schema_version, pn_protocol_version = protocol_version,
          pn_plan_id = p, pn_release = release_document_of rel, pn_targets = Some (sort_key td_id (bs_documents st)), pn_operations = docs\<rparr>"
    using a by (auto simp: assemble_plan_def Let_def bind_result_Inr sorted)
  from build_operations_Inr [OF b] have docs: "docs = map (document_of_draft p rel) ?drafts"
    and ops: "list_all2 (\<lambda>df op. operation_of_draft p rel df = Inr op) ?drafts ops" by simp_all
  note made = build_release_made [OF assms(1) r] and inv = build_targets_inv [OF assms(1) t]
  show thesis by (rule that [OF made(2,1,3,4) inv refl p ops n d [unfolded docs]])
qed

lemma build_with_loads:
  assumes "hasher_sound (tl_hash tools)" and "build_with tools ld w = (w', Inr dp)"
  shows "plan_from_document (dp_document dp) = Inr dp"
proof -
  obtain rel st drafts p ops where
    rel: "new_release (rel_id rel) (rel_artifacts rel) = Inr rel" "valid_identifier (rel_id rel)"
      "\<forall>a \<in> set (rel_artifacts rel). artifact_made a" "sorted (map artifact_name (rel_artifacts rel))"
    and inv: "build_inv st" and drafts: "drafts = sort_key df_global_id (bs_drafts st)"
    and p: "semantic_plan_id \<lparr>sp_schema_version = plan_schema_version, sp_protocol_version = protocol_version,
        sp_release = semantic_release_of rel, sp_targets = Some (sort_key td_id (bs_documents st)),
        sp_operations = map semantic_of_draft drafts\<rparr> = Inr p"
    and ops: "list_all2 (\<lambda>df op. operation_of_draft p rel df = Inr op) drafts ops"
    and plan: "new_plan p plan_schema_version protocol_version rel (sort_key tgt_id (bs_targets st)) ops = Inr (dp_plan dp)"
    and doc: "dp_document dp = \<lparr>pn_schema_version = plan_schema_version, pn_protocol_version = protocol_version,
          pn_plan_id = p, pn_release = release_document_of rel, pn_targets = Some (sort_key td_id (bs_documents st)),
          pn_operations = map (document_of_draft p rel) drafts\<rparr>"
    by (rule build_with_parts [OF assms])
  let ?ts = "sort_key tgt_id (bs_targets st)" and ?docs = "sort_key td_id (bs_documents st)"
  note accepted = plan [unfolded new_plan_accepts [OF operations_distinct_dependencies [OF ops]]]
  have dist: "distinct (map tgt_id ?ts)" and pid: "valid_identifier p" using accepted by simp_all
  have loads: "list_all2 (loads_to (bs_bound st)) ?docs ?ts"
    using inv unfolding build_inv_def by (auto intro!: list_all2_sort_key simp: loads_to_def)
  obtain lt where lt: "for_each load_target empty_load ?docs = Inr lt" "lt_targets lt = ?ts"
    and each: "\<forall>t \<in> set ?ts. \<exists>doc \<in> set ?docs. \<exists>d. td_id doc = tgt_id t \<and> td_provider doc = document_of_ref (tgt_provider t) d
          \<and> map_of (lt_providers lt) (tgt_id t) = Some (tgt_provider t)
          \<and> map_of (lt_target_digests lt) (tgt_id t) = Some (digest_string d)"
    using load_targets_made [OF loads _ dist, of empty_load] by (auto simp: digests_agree_def empty_load_def)
  have made: "draft_made ?docs df" if "df \<in> set drafts" for df
    using inv that by (auto simp: build_inv_def drafts intro: draft_made_mono)
  have "\<forall>df \<in> set drafts. draft_made ?docs df \<and> knows_target lt df"
    using knows_target_made [OF loads dist _ each] made by blast
  from load_operations_made [OF ops this, of "[]"]
  have operations: "for_each (load_operation p (rel_artifacts rel) lt) [] (map (document_of_draft p rel) drafts) = Inr ops" by simp
  have arts: "for_each load_artifact [] (rld_artifacts (release_document_of rel)) = Inr (rel_artifacts rel)"
    using load_artifacts [OF rel(3), of "[]"] rel(4)
    by (simp add: release_document_of_def sort_key_map_sorted [of artifact_name])
  have semantics: "document_semantics (dp_document dp) rel = \<lparr>sp_schema_version = plan_schema_version, sp_protocol_version = protocol_version,
        sp_release = semantic_release_of rel, sp_targets = Some ?docs, sp_operations = map semantic_of_draft drafts\<rparr>"
    by (simp add: document_semantics_def doc comp_def)
  have rid: "new_release_id (rld_id (release_document_of rel)) = Inr (rel_id rel)" and pi: "new_plan_id p = Inr p"
    using rel(2) pid by (simp_all add: release_document_of_def new_release_id_def new_plan_id_def new_identifier_valid)
  have header: "load_header_error (dp_document dp) = None"
    using pid by (auto simp: load_header_error_def doc checks)
  have dp: "\<lparr>dp_plan = dp_plan dp, dp_document = dp_document dp\<rparr> = dp" by simp
  have e: "plan_from_document (dp_document dp) =
      bind_result (new_plan p plan_schema_version protocol_version rel (lt_targets lt) ops)
        (\<lambda>pl. Inr \<lparr>dp_plan = pl, dp_document = dp_document dp\<rparr>)"
    unfolding plan_from_document_def header
    by (simp add: doc rid arts rel(1) lt(1) pi operations semantics [unfolded doc] p)
  show ?thesis unfolding e lt(2) plan by (simp add: dp)
qed

end
