(* ===== verification/Planner_Hash.thy ===== *)
theory Planner_Hash
  imports Planner_Loads "HOL-Library.Multiset"
begin

text \<open>
  The hasher of \<open>internal/planner/artifact.go\<close>, and what the planner promises with it: the interface that
  \<open>Build\<close> has to an artifact hasher is a locale, which the file hasher provides.
\<close>

section \<open>Hashing a file\<close>

record file_stat =
  fs_regular :: bool
  fs_size :: int
  fs_mod_time :: int

text \<open>The calls on a file: \<open>os.Open\<close>, \<open>Stat\<close>, and \<open>io.Copy\<close>, whose value is the bytes it passed on.\<close>

record ('w, 'h) file_calls =
  fc_open :: "string \<Rightarrow> ('w, 'h) io"
  fc_stat :: "'h \<Rightarrow> ('w, file_stat) io"
  fc_copy :: "'h \<Rightarrow> ('w, string) io"
  fc_after_read :: "('w, unit) io"

definition hash_file :: "('w, 'h) file_calls \<Rightarrow> 'w hasher" where
  "hash_file fc path =
     io_bind (fc_open fc path) (\<lambda>h.
     io_bind (fc_stat fc h) (\<lambda>before.
     if \<not> fs_regular before then io_fail (Errorf ''artifact %q is not a regular file'' [path])
     else io_bind (fc_copy fc h) (\<lambda>data.
     io_bind (fc_after_read fc) (\<lambda>_.
     io_bind (fc_stat fc h) (\<lambda>after.
     if int (length data) \<noteq> fs_size before \<or> fs_size after \<noteq> fs_size before \<or> fs_mod_time after \<noteq> fs_mod_time before
     then io_fail (Errorf ''artifact %q changed while hashing'' [path])
     else io_bind (io_lift (new_sha256_digest (sha256_hex data))) (\<lambda>d. io_return (d, int (length data))))))))"

lemma new_sha256_digest_sum: "new_sha256_digest (sha256_hex m) = Inr \<lparr>digest_bytes = sha256_sum m, digest_set = True\<rparr>"
  unfolding sha256_hex_def by (rule new_sha256_digest_hex) simp

text \<open>What a hash that succeeds has seen.\<close>

lemma hash_file_Inr:
  assumes "hash_file fc path w = (w', Inr (d, n))"
  obtains w1 w2 w3 w4 h before after data where
    "fc_open fc path w = (w1, Inr h)" "fc_stat fc h w1 = (w2, Inr before)" "fs_regular before"
    "fc_copy fc h w2 = (w3, Inr data)" "fc_after_read fc w3 = (w4, Inr ())" "fc_stat fc h w4 = (w', Inr after)"
    "fs_size before = int (length data)" "fs_size after = int (length data)" "fs_mod_time after = fs_mod_time before"
    "d = \<lparr>digest_bytes = sha256_sum data, digest_set = True\<rparr>" "n = int (length data)"
proof -
  obtain w1 h where h: "fc_open fc path w = (w1, Inr h)"
    and r1: "(io_bind (fc_stat fc h) (\<lambda>before.
     if \<not> fs_regular before then io_fail (Errorf ''artifact %q is not a regular file'' [path])
     else io_bind (fc_copy fc h) (\<lambda>data.
     io_bind (fc_after_read fc) (\<lambda>_.
     io_bind (fc_stat fc h) (\<lambda>after.
     if int (length data) \<noteq> fs_size before \<or> fs_size after \<noteq> fs_size before \<or> fs_mod_time after \<noteq> fs_mod_time before
     then io_fail (Errorf ''artifact %q changed while hashing'' [path])
     else io_bind (io_lift (new_sha256_digest (sha256_hex data))) (\<lambda>d. io_return (d, int (length data)))))))) w1 = (w', Inr (d, n))"
    using assms unfolding hash_file_def io_bind_Inr by blast
  then obtain w2 before where b: "fc_stat fc h w1 = (w2, Inr before)" and reg: "fs_regular before"
    and r2: "(io_bind (fc_copy fc h) (\<lambda>data.
     io_bind (fc_after_read fc) (\<lambda>_.
     io_bind (fc_stat fc h) (\<lambda>after.
     if int (length data) \<noteq> fs_size before \<or> fs_size after \<noteq> fs_size before \<or> fs_mod_time after \<noteq> fs_mod_time before
     then io_fail (Errorf ''artifact %q changed while hashing'' [path])
     else io_bind (io_lift (new_sha256_digest (sha256_hex data))) (\<lambda>d. io_return (d, int (length data))))))) w2 = (w', Inr (d, n))"
    by (auto simp: io_bind_Inr io_fail_Inr split: if_splits)
  from r2 obtain w3 data w4 after w5 where c: "fc_copy fc h w2 = (w3, Inr data)" "fc_after_read fc w3 = (w4, Inr ())"
      "fc_stat fc h w4 = (w5, Inr after)"
    and r3: "(if int (length data) \<noteq> fs_size before \<or> fs_size after \<noteq> fs_size before \<or> fs_mod_time after \<noteq> fs_mod_time before
     then io_fail (Errorf ''artifact %q changed while hashing'' [path])
     else io_bind (io_lift (new_sha256_digest (sha256_hex data))) (\<lambda>d. io_return (d, int (length data)))) w5 = (w', Inr (d, n))"
    unfolding io_bind_Inr by auto
  have same: "int (length data) = fs_size before" "fs_size after = fs_size before" "fs_mod_time after = fs_mod_time before"
    using r3 by (simp_all add: io_fail_Inr split: if_splits)
  have d: "w5 = w'" "d = \<lparr>digest_bytes = sha256_sum data, digest_set = True\<rparr>" "n = int (length data)"
    using r3 same by (simp_all add: io_bind_Inr io_lift_Inr io_return_Inr new_sha256_digest_sum)
  show thesis by (rule that [OF h b reg c [unfolded d(1)] _ _ same(3) d(2,3)]) (use same in simp_all)
qed

section \<open>The interface\<close>

locale artifact_hasher =
  fixes hash :: "'w hasher"
  assumes digest_of_hash: "hash path w = (w', Inr (d, n)) \<Longrightarrow> digest_wf d \<and> 0 \<le> n"
begin

lemma hasher_sound: "hasher_sound hash"
  using digest_of_hash by (auto simp: hasher_sound_def)

lemma build_loads:
  assumes "tl_hash tools = hash" and "build_with tools ld w = (w', Inr dp)"
  shows "plan_from_document (dp_document dp) = Inr dp"
  using build_with_loads [of tools] hasher_sound assms by simp

lemma build_parts_wf:
  assumes "tl_hash tools = hash" and "build_with tools ld w = (w', Inr dp)"
  shows "plan_wf (dp_plan dp)"
proof -
  from hasher_sound assms(1) have s: "hasher_sound (tl_hash tools)" by simp
  from build_with_parts [OF s assms(2)] show ?thesis
    by (metis new_plan_wf operations_distinct_dependencies)
qed

end

interpretation files: artifact_hasher "hash_file fc" for fc :: "('w, 'h) file_calls"
proof
  fix path w w' d n
  assume "hash_file fc path w = (w', Inr (d, n))"
  then obtain data where "d = \<lparr>digest_bytes = sha256_sum data, digest_set = True\<rparr>" "n = int (length data)"
    by (rule hash_file_Inr) blast
  then show "digest_wf d \<and> 0 \<le> n" by (simp add: digest_wf_def)
qed

section \<open>A planner made by New\<close>

lemma build_is_build_with:
  assumes "new_planner resolver hash (Some client) resolver' None = Inr pl"
  shows "build getwd False (Some pl) ld = build_with \<lparr>tl_client = client,
      tl_resolve = (case resolver' of None \<Rightarrow> resolver | Some r \<Rightarrow> r), tl_hash = hash, tl_getwd = getwd\<rparr> ld"
  using assms by (intro ext) (cases resolver'; auto simp: new_planner_def build_def)

section \<open>What loading has checked\<close>

lemma load_operation_appends:
  assumes "load_operation p as lt ops v = Inr ops'"
  shows "\<exists>op dependencies. ops' = ops @ [op] \<and> new_operation (so_id v) (so_target_id v) (op_provider op) (so_kind v) dependencies
      (so_side_effecting v) (od_idempotency_key v) (int (unat (so_timeout_millis v)) * 1000000) (so_provider_payload v) = Inr op
    \<and> od_idempotency_key v = (if so_side_effecting v then derive_idempotency_key p (so_target_id v) (so_id v) as else [])"
proof -
  obtain ref deps key op where "expected_key p (so_target_id v) (so_id v) as v = Inr key" "ops' = ops @ [op]"
    "new_operation (so_id v) (so_target_id v) ref (so_kind v) deps (so_side_effecting v) key
        (int (unat (so_timeout_millis v)) * 1000000) (so_provider_payload v) = Inr op"
    using assms by (auto simp: load_operation_def bind_result_Inr new_operation_id_def new_target_id_def simp del: of_nat_unat)
  moreover from this(3) have "op_provider op = ref" by (rule new_operation_Inr(3))
  ultimately show ?thesis by (auto simp: expected_key_def Let_def split: if_splits)
qed

lemma load_operations_append:
  assumes "for_each (load_operation p as lt) acc vs = Inr ops"
  shows "\<exists>new. ops = acc @ new \<and> list_all2 (\<lambda>v op. (\<exists>dependencies. new_operation (so_id v) (so_target_id v) (op_provider op) (so_kind v) dependencies
      (so_side_effecting v) (od_idempotency_key v) (int (unat (so_timeout_millis v)) * 1000000) (so_provider_payload v) = Inr op)
    \<and> od_idempotency_key v = (if so_side_effecting v then derive_idempotency_key p (so_target_id v) (so_id v) as else [])) vs new"
  using assms
proof (induction vs arbitrary: acc)
  case (Cons v vs)
  then obtain acc' where a: "load_operation p as lt acc v = Inr acc'" "for_each (load_operation p as lt) acc' vs = Inr ops"
    by (auto simp: bind_result_Inr)
  obtain op where op: "acc' = acc @ [op]" "\<exists>dependencies. new_operation (so_id v) (so_target_id v) (op_provider op) (so_kind v) dependencies
      (so_side_effecting v) (od_idempotency_key v) (int (unat (so_timeout_millis v)) * 1000000) (so_provider_payload v) = Inr op"
    "od_idempotency_key v = (if so_side_effecting v then derive_idempotency_key p (so_target_id v) (so_id v) as else [])"
    using load_operation_appends [OF a(1)] by blast
  obtain new where "ops = acc' @ new" "list_all2 (\<lambda>v op. (\<exists>dependencies. new_operation (so_id v) (so_target_id v) (op_provider op) (so_kind v) dependencies
      (so_side_effecting v) (od_idempotency_key v) (int (unat (so_timeout_millis v)) * 1000000) (so_provider_payload v) = Inr op)
    \<and> od_idempotency_key v = (if so_side_effecting v then derive_idempotency_key p (so_target_id v) (so_id v) as else [])) vs new"
    using Cons.IH [OF a(2)] by blast
  with op show ?case by (intro exI [of _ "op # new"]) simp
qed simp

lemma plan_from_document_Inr:
  assumes "plan_from_document doc = Inr dp"
  obtains rel lt ops where "new_release (rld_id (pn_release doc)) (rel_artifacts rel) = Inr rel"
    "for_each (load_operation (pn_plan_id doc) (rel_artifacts rel) lt) [] (pn_operations doc) = Inr ops"
    "semantic_plan_id (document_semantics doc rel) = Inr (pn_plan_id doc)"
    "new_plan (pn_plan_id doc) plan_schema_version protocol_version rel (lt_targets lt) ops = Inr (dp_plan dp)"
    "dp_document dp = doc"
proof -
  obtain artifacts rel lt ops pl where r: "new_release (rld_id (pn_release doc)) artifacts = Inr rel"
    and rest: "for_each (load_operation (pn_plan_id doc) artifacts lt) [] (pn_operations doc) = Inr ops"
    "semantic_plan_id (document_semantics doc rel) = Inr (pn_plan_id doc)"
    "new_plan (pn_plan_id doc) (pn_schema_version doc) (pn_protocol_version doc) rel (lt_targets lt) ops = Inr pl"
    "dp = \<lparr>dp_plan = pl, dp_document = doc\<rparr>" "load_header_error doc = None"
    using assms by (auto simp: plan_from_document_def bind_result_Inr new_release_id_def new_plan_id_def)
  have "artifacts = rel_artifacts rel" using r by (auto simp: new_release_def bind_result_Inr split: if_splits)
  with r rest that [of rel lt ops] show thesis by (simp add: load_header_error_def checks)
qed

section \<open>The order of the configuration\<close>

lemma sort_key_unique:
  assumes "mset xs = mset ys" and "distinct (map f xs)"
  shows "sort_key f xs = sort_key f ys"
proof (rule properties_for_sort_key)
  show "mset (sort_key f ys) = mset xs" using assms(1) by simp
  have "set xs = set ys" using assms(1) by (rule mset_eq_setD)
  have "distinct (map f ys)" using assms by (metis mset_map mset_eq_imp_distinct_iff)
  then have d: "distinct (map f (sort_key f ys))" by (metis mset_map mset_sort mset_eq_imp_distinct_iff)
  have one: "filter (\<lambda>y. f k = f y) zs = [k]" if "distinct (map f zs)" "k \<in> set zs" for zs k
    using that by (induction zs) (auto simp: filter_empty_conv image_iff)
  fix k
  assume k: "k \<in> set (sort_key f ys)"
  then have "k \<in> set xs" using \<open>set xs = set ys\<close> by simp
  with one [OF d k] one [OF assms(2)] show "filter (\<lambda>y. f k = f y) (sort_key f ys) = filter (\<lambda>y. f k = f y) xs" by metis
qed simp

section \<open>Provider digests\<close>

text \<open>The digests that a built plan binds its providers to.\<close>

definition binds :: "(provider_ref \<times> digest) list \<Rightarrow> provider_ref \<Rightarrow> bool" where
  "binds m ref \<longleftrightarrow> (\<exists>d. map_of m ref = Some d \<and> digest_set d)"

lemma add_provider_digest_made:
  assumes "loads_to bound doc t"
  shows "binds (add_provider_digest m doc) (tgt_provider t)"
    and "binds m r \<Longrightarrow> binds (add_provider_digest m doc) r"
proof -
  obtain d where d: "digest_wf d" "td_provider doc = document_of_ref (tgt_provider t) d" "provider_ref_valid (tgt_provider t)"
    using assms unfolding loads_to_def by blast
  have "pd_digest (document_of_ref (tgt_provider t) d) = digest_string d" by (simp add: document_of_ref_def)
  then have "add_provider_digest m doc = map_insert (tgt_provider t) d m"
    using d by (simp add: add_provider_digest_def provider_ref_from_document_made parse_digest_string)
  moreover have "digest_set d" using d(1) by (simp add: digest_wf_def)
  ultimately show "binds (add_provider_digest m doc) (tgt_provider t)" "binds m r \<Longrightarrow> binds (add_provider_digest m doc) r"
    by (auto simp: binds_def simp del: map_of_eq_Some_iff)
qed

lemma provider_digests_made:
  assumes "list_all2 (loads_to bound) docs ts"
  shows "(\<forall>t \<in> set ts. binds (foldl add_provider_digest m docs) (tgt_provider t))
    \<and> (\<forall>r. binds m r \<longrightarrow> binds (foldl add_provider_digest m docs) r)"
  using assms
proof (induction arbitrary: m rule: list_all2_induct)
  case (Cons doc docs t ts)
  from Cons.IH [of "add_provider_digest m doc"] add_provider_digest_made [OF Cons.hyps(1)] show ?case by simp
qed simp

lemma build_with_binds:
  assumes "hasher_sound (tl_hash tools)" and "build_with tools ld w = (w', Inr dp)"
  shows "verify_provider_digests dp = None"
proof -
  obtain rel st drafts p ops where inv: "build_inv st"
    and ops: "list_all2 (\<lambda>df op. operation_of_draft p rel df = Inr op) drafts ops"
    and plan: "new_plan p plan_schema_version protocol_version rel (sort_key tgt_id (bs_targets st)) ops = Inr (dp_plan dp)"
    and doc: "dp_document dp = \<lparr>pn_schema_version = plan_schema_version, pn_protocol_version = protocol_version,
          pn_plan_id = p, pn_release = release_document_of rel, pn_targets = Some (sort_key td_id (bs_documents st)),
          pn_operations = map (document_of_draft p rel) drafts\<rparr>"
    by (rule build_with_parts [OF assms])
  note accepted = plan [unfolded new_plan_accepts [OF operations_distinct_dependencies [OF ops]]]
  have loads: "list_all2 (loads_to (bs_bound st)) (sort_key td_id (bs_documents st)) (sort_key tgt_id (bs_targets st))"
    using inv unfolding build_inv_def by (auto intro!: list_all2_sort_key simp: loads_to_def)
  have "binds (provider_digests dp) (tgt_provider t)" if "t \<in> set (pl_targets (dp_plan dp))" for t
    using provider_digests_made [OF loads, of "[]"] accepted that by (simp add: provider_digests_def doc)
  then have "(case map_of (provider_digests dp) (tgt_provider t) of None \<Rightarrow> True | Some d \<Rightarrow> \<not> digest_set d) = False"
    if "t \<in> set (pl_targets (dp_plan dp))" for t
    using that by (fastforce simp: binds_def simp del: map_of_eq_Some_iff)
  then show ?thesis using accepted by (simp add: verify_provider_digests_def first_error_map_None)
qed

section \<open>Configurations\<close>

lemma check_config_artifacts_distinct:
  "for_each check_config_artifact names as = Inr names' \<Longrightarrow> distinct (map ca_name as) \<and> set (map ca_name as) \<inter> set names = {}"
proof (induction as arbitrary: names)
  case (Cons a as)
  then obtain n where "check_config_artifact names a = Inr n" "for_each check_config_artifact n as = Inr names'"
    by (auto simp: bind_result_Inr)
  moreover from this(1) have "ca_name a \<notin> set names" "n = ca_name a # names"
    by (auto simp: bind_result_Inr check_config_artifact_def checks)
  ultimately have "ca_name a \<notin> set names" "for_each check_config_artifact (ca_name a # names) as = Inr names'" by simp_all
  with Cons.IH [OF this(2)] show ?case by auto
qed simp

lemma normalized_distinct:
  assumes "normalize_and_validate c = Inr c'"
  shows "distinct (map ct_id (cf_targets c'))" and "distinct (map ca_name (cr_artifacts (cf_release c')))"
proof -
  note t = normalize_and_validate_targets [OF assms]
  show "distinct (map ct_id (cf_targets c'))" using t(1,2) by (simp add: comp_def)
  obtain names where "for_each check_config_artifact [] (cr_artifacts (cf_release c)) = Inr names"
    using assms by (auto simp: normalize_and_validate_def bind_result_Inr)
  from check_config_artifacts_distinct [OF this] t(1) show "distinct (map ca_name (cr_artifacts (cf_release c')))" by simp
qed

text \<open>Two configurations that differ in the order of their targets and artifacts only.\<close>

definition same_content :: "config \<Rightarrow> config \<Rightarrow> bool" where
  "same_content c d \<longleftrightarrow> cr_id (cf_release c) = cr_id (cf_release d)
     \<and> mset (cr_artifacts (cf_release c)) = mset (cr_artifacts (cf_release d)) \<and> mset (cf_targets c) = mset (cf_targets d)"

lemma build_with_order:
  assumes "normalize_and_validate c = Inr c'" and "same_content c' d"
  shows "build_with tools \<lparr>ld_config = c', ld_base_dir = b\<rparr> = build_with tools \<lparr>ld_config = d, ld_base_dir = b\<rparr>"
proof -
  note dist = normalized_distinct [OF assms(1)]
  have "sort_key ct_id (cf_targets c') = sort_key ct_id (cf_targets d)"
    "sort_key ca_name (cr_artifacts (cf_release c')) = sort_key ca_name (cr_artifacts (cf_release d))"
    using assms(2) dist by (auto intro!: sort_key_unique simp: same_content_def)
  moreover have "cr_id (cf_release c') = cr_id (cf_release d)" using assms(2) by (simp add: same_content_def)
  ultimately show ?thesis by (simp add: build_with_def build_release_def fun_eq_iff cong: prod.case_cong)
qed

section \<open>Canonical text\<close>

lemma marshal_injective:
  assumes "json_ok v" and "json_ok u" and "marshal_json v = marshal_json u"
  shows "canonical_value v = canonical_value u"
  using assms marshal_reads_back unfolding reads_back_def
  by (metis ends_number_punctuation(1) less_add_same_cancel1 old.sum.inject(2) prod.inject zero_less_numeral append_Nil2 lessI)

end
