(* ===== verification/Planner_Demo.thy ===== *)
theory Planner_Demo
  imports Planner_Hash
begin

text \<open>
  A release of one file through one provider, which answers one side-effecting operation.  Every file is
  empty and regular, and nothing changes the world.
\<close>

lemma empty_object [simp]: "json_valid ''{}''"
  by (simp add: json_valid_def json_parse_def json_decode_def max_nesting_depth_def skip_ws_def is_json_space_def
      byte_def numeral_2_eq_2)

lemma normalize_empty_object [simp]: "normalize_json ''{}'' = Inr ''{}''"
  using normalize_marshal [of "JObject []"] by (simp add: object_text_def)

lemma optional_text [simp]: "validate_text n [] True = None"
  by simp

definition demo_files :: "(unit, unit) file_calls" where
  "demo_files = \<lparr>fc_open = (\<lambda>_. io_return ()), fc_stat = (\<lambda>_. io_return \<lparr>fs_regular = True, fs_size = 0, fs_mod_time = 7\<rparr>),
     fc_copy = (\<lambda>_. io_return []), fc_after_read = io_return ()\<rparr>"

definition demo_client :: "unit provider_client" where
  "demo_client = \<lparr>pc_describe = (\<lambda>_. io_return \<lparr>dr_provider = \<lparr>pi_name = ''npm'', pi_version = ''1''\<rparr>,
       dr_protocol_versions = [''1''], dr_capabilities = [CapabilityPlan, CapabilityApply, CapabilityReconcile], dr_requirements = []\<rparr>),
     pc_plan = (\<lambda>_ _. io_return \<lparr>ps_operations = [\<lparr>po_id = ''publish'', po_kind = ''publish'', po_dependencies = [],
       po_side_effecting = True, po_timeout_millis = 5, po_provider_payload = ''{}''\<rparr>], ps_requirements = []\<rparr>)\<rparr>"

definition demo_config :: config where
  "demo_config = \<lparr>cf_schema_version = ''1'', cf_release = \<lparr>cr_id = ''r'', cr_artifacts = [\<lparr>ca_name = ''x'', ca_source = ''/x'', ca_media_type = []\<rparr>]\<rparr>,
     cf_targets = [\<lparr>ct_id = ''t'', ct_provider = \<lparr>cp_name = ''npm'', cp_executable = []\<rparr>, ct_configuration = ''{}''\<rparr>],
     cf_credential_sources = []\<rparr>"

definition demo_loaded :: loaded where
  "demo_loaded = \<lparr>ld_config = demo_config, ld_base_dir = ''/r''\<rparr>"

definition demo_resolver :: "unit resolver" where
  "demo_resolver = (\<lambda>_ _. io_return ''/bin/npm'')"

abbreviation demo_planner :: "unit planner" where
  "demo_planner \<equiv> \<lparr>pln_client = Some demo_client, pln_resolver = Some demo_resolver, pln_hasher = Some (hash_file demo_files)\<rparr>"

lemma demo_planner_made: "new_planner demo_resolver (hash_file demo_files) (Some demo_client) None None = Inr demo_planner"
  by (simp add: new_planner_def)

abbreviation demo_digest :: digest where
  "demo_digest \<equiv> \<lparr>digest_bytes = sha256_sum [], digest_set = True\<rparr>"

lemma demo_hash: "hash_file demo_files p w = ((), Inr (demo_digest, 0))"
  by (simp add: hash_file_def demo_files_def io_bind_def io_return_def io_lift_def new_sha256_digest_sum)

lemma demo_config_normalized: "normalize_and_validate demo_config = Inr demo_config"
  by (simp add: normalize_and_validate_def demo_config_def check_config_artifact_def check_config_target_def text_eval checked_def)

definition demo_tools :: "unit tools" where
  "demo_tools = \<lparr>tl_client = demo_client, tl_resolve = demo_resolver, tl_hash = hash_file demo_files, tl_getwd = io_return ''/''\<rparr>"

lemma io_step [simp]:
  "io_bind (io_return x) f = f x" "io_bind (io_lift (Inr x)) f = f x" "io_wrap s xs (io_return x) = io_return x"
  "io_lift (Inr x) = io_return x"
  by (simp_all add: io_bind_def io_return_def io_lift_def io_wrap_def wrap_result_def fun_eq_iff)

lemma demo_hash_io: "hash_file demo_files p = io_return (demo_digest, 0)"
  using demo_hash by (simp add: fun_eq_iff io_return_def io_lift_def)

abbreviation demo_release :: release where
  "demo_release \<equiv> \<lparr>rel_id = ''r'', rel_artifacts = [\<lparr>artifact_name = ''x'', artifact_source = ''/x'', artifact_digest = demo_digest,
     artifact_size = 0, artifact_media_type = []\<rparr>]\<rparr>"

lemma path_eval: "is_abs ''/x''" "clean_path ''/x'' = ''/x''"
  by code_simp+

abbreviation demo_message :: message_release where
  "demo_message \<equiv> \<lparr>mrel_id = ''r'', mrel_artifacts = [\<lparr>ma_name = ''x'', ma_digest = digest_string demo_digest,
     ma_size = 0, ma_media_type = []\<rparr>]\<rparr>"

lemma demo_release_built: "build_release demo_tools demo_loaded = io_return (demo_release, demo_message)"
  by (simp add: build_release_def demo_loaded_def demo_config_def new_release_id_def new_identifier_valid text_eval
      build_artifact_def Let_def path_eval absolute_path_def abs_path_def demo_tools_def demo_hash_io
      new_artifact_def checked_def new_release_def check_artifact_def)

lemma hash_identifiers [simp]:
  "valid_identifier (CHR ''o'' # CHR ''p'' # CHR ''-'' # sha256_hex m)"
  "valid_identifier (CHR ''s'' # CHR ''h'' # CHR ''a'' # CHR ''2'' # CHR ''5'' # CHR ''6'' # CHR ''-'' # sha256_hex m)"
  using sha256_hex_printable [of m] by (auto intro!: printable_identifier simp: printable_def byte_def)

abbreviation demo_operation_id :: string where
  "demo_operation_id \<equiv> CHR ''o'' # CHR ''p'' # CHR ''-'' # sha256_hex (CHR ''t'' # char_of (0::nat) # ''publish'')"

abbreviation npm :: provider_ref where
  "npm \<equiv> \<lparr>provider_name = ''npm'', provider_version = ''1''\<rparr>"

abbreviation demo_target :: target where
  "demo_target \<equiv> \<lparr>tgt_id = ''t'', tgt_provider = npm, tgt_configuration = ''{}'', tgt_requirements = []\<rparr>"

abbreviation demo_target_document :: target_document where
  "demo_target_document \<equiv> \<lparr>td_id = ''t'', td_provider = document_of_ref npm demo_digest, td_configuration = ''{}'',
     td_required_capabilities = Some [CapabilityPlan, CapabilityApply, CapabilityReconcile], td_requirements = []\<rparr>"

abbreviation demo_draft :: operation_draft where
  "demo_draft \<equiv> \<lparr>df_global_id = demo_operation_id, df_provider_operation_id = ''publish'', df_target_id = ''t'',
     df_provider = npm, df_provider_digest = demo_digest, df_kind = ''publish'', df_dependencies = [], df_side_effecting = True,
     df_timeout = 5000000, df_timeout_millis = 5, df_provider_payload = ''{}''\<rparr>"

lemma demo_drafts:
  "build_operation_drafts ''t'' npm demo_digest [\<lparr>po_id = ''publish'', po_kind = ''publish'', po_dependencies = [],
       po_side_effecting = True, po_timeout_millis = 5, po_provider_payload = ''{}''\<rparr>] = Inr [demo_draft]"
  by (simp add: build_operation_drafts_def name_operation_def namespaced_operation_id_def new_operation_id_def
      new_identifier_valid build_draft_def wrap_result_def new_json_value_def max_timeout_millis_def)

definition demo_response :: plan_response where
  "demo_response = \<lparr>ps_operations = [\<lparr>po_id = ''publish'', po_kind = ''publish'', po_dependencies = [],
       po_side_effecting = True, po_timeout_millis = 5, po_provider_payload = ''{}''\<rparr>], ps_requirements = []\<rparr>"

definition demo_description :: describe_response where
  "demo_description = \<lparr>dr_provider = \<lparr>pi_name = ''npm'', pi_version = ''1''\<rparr>,
       dr_protocol_versions = [''1''], dr_capabilities = [CapabilityPlan, CapabilityApply, CapabilityReconcile], dr_requirements = []\<rparr>"

lemma demo_client_answers [simp]: "pc_plan demo_client ep rq = io_return demo_response" "pc_describe demo_client ep = io_return demo_description"
  by (simp_all add: demo_client_def demo_response_def demo_description_def)

lemma demo_response_valid: "plan_response_validate demo_response = None"
  by (simp add: plan_response_validate_None demo_response_def planned_ok_def json_value_valid_def text_eval planned_rel_def acyclic_def)

lemma demo_use:
  "use_plan_response \<lparr>ct_id = ''t'', ct_provider = cp, ct_configuration = ''{}''\<rparr> demo_description ''t'' npm demo_digest ''{}'' demo_response
     = Inr (demo_target, demo_target_document, [demo_draft])"
proof -
  have ops: "ps_operations demo_response = [\<lparr>po_id = ''publish'', po_kind = ''publish'', po_dependencies = [],
       po_side_effecting = True, po_timeout_millis = 5, po_provider_payload = ''{}''\<rparr>]" "ps_requirements demo_response = []"
    by (simp_all add: demo_response_def)
  have caps: "ensure_capabilities [CapabilityPlan, CapabilityApply, CapabilityReconcile] [CapabilityPlan, CapabilityApply, CapabilityReconcile] = None"
    by (simp add: ensure_capabilities_None)
  show ?thesis
    by (simp add: use_plan_response_def Let_def demo_response_valid caps ops demo_drafts wrap_result_def
        canonical_requirements_def build_domain_requirements_def new_target_with_requirements_def json_value_valid_def
        provider_ref_valid_def text_eval required_capabilities_def demo_description_def document_of_ref_def)
qed

lemma version_one: "validate_version ''1'' = None"
  using printable_checks [of "''1''"] by (simp add: validate_version_def checks validate_text_max_iff printable_def byte_def)

lemma demo_description_valid: "validate_description ''npm'' demo_description = None"
  by (simp add: validate_description_def demo_description_def describe_response_validate_def checks protocol_version_def
      provider_identity_validate_def check_capability_def check_protocol_version_def version_one text_eval)

definition demo_built :: build_state where
  "demo_built = \<lparr>bs_targets = [demo_target], bs_documents = [demo_target_document], bs_drafts = [demo_draft],
     bs_described = [(\<lparr>ep_name = ''npm'', ep_executable = ''/bin/npm''\<rparr>, demo_description)],
     bs_hashed = [(\<lparr>ep_name = ''npm'', ep_executable = ''/bin/npm''\<rparr>, demo_digest)], bs_bound = [(npm, demo_digest)]\<rparr>"

lemma demo_target_built:
  "build_target demo_tools b msg initial_build
     \<lparr>ct_id = ''t'', ct_provider = \<lparr>cp_name = ''npm'', cp_executable = []\<rparr>, ct_configuration = ''{}''\<rparr> = io_return demo_built"
  by (simp add: build_target_def resolve_endpoint_def demo_tools_def Let_def demo_resolver_def describe_cached_def initial_build_def
      demo_description_valid target_identity_def new_target_id_def new_identifier_valid text_eval
      new_provider_name_def new_provider_version_def new_provider_ref_def demo_description_def [THEN arg_cong, of dr_provider]
      hash_cached_def demo_hash_io bind_digest_def new_json_value_def new_target_def new_target_with_requirements_def
      json_value_valid_def provider_ref_valid_def demo_use demo_built_def)

lemma plan_texts: "validate_text ''plan schema version'' plan_schema_version False = None"
    "validate_text ''protocol version'' protocol_version False = None"
  by (simp_all add: plan_schema_version_def protocol_version_def text_eval)

lemma key_text: "validate_text n (derive_idempotency_key p t i as) False = None"
  using sha256_hex_printable
  by (auto intro!: printable_text simp: derive_idempotency_key_def Let_def printable_def byte_def)

lemma demo_assembled: "\<exists>dp. assemble_plan demo_release demo_built = Inr dp \<and> pn_operations (dp_document dp) \<noteq> []"
proof -
  obtain p where p: "semantic_plan_id \<lparr>sp_schema_version = plan_schema_version, sp_protocol_version = protocol_version,
     sp_release = semantic_release_of demo_release, sp_targets = Some [demo_target_document],
     sp_operations = semantic_operations [demo_draft]\<rparr> = Inr p" "valid_identifier p"
    by (simp add: semantic_plan_id_def semantic_raws_def raw_ok_def target_raws_def semantic_operations_def semantic_of_draft_def
      new_plan_id_def)
  obtain op where op: "operation_of_draft p demo_release demo_draft = Inr op"
    by (simp add: operation_of_draft_def new_operation_def text_eval provider_ref_valid_def json_value_valid_def
       idempotency_error_def draft_key_def key_text checked_def)
  obtain pl where pl: "new_plan p plan_schema_version protocol_version demo_release [demo_target] [op] = Inr pl"
    using new_operation_Inr [OF op [unfolded operation_of_draft_def]] p(2)
    by (simp add: new_plan_accepts plan_texts text_eval target_ok_def provider_ref_valid_def json_value_valid_def operation_ok_def
      dependency_rel_def acyclic_def)
  have b: "for_each (build_operation p demo_release) ([], []) [demo_draft] = Inr ([op], [document_of_draft p demo_release demo_draft])"
  proof -
    have "build_operation p demo_release ([], []) demo_draft = Inr ([op], [document_of_draft p demo_release demo_draft])"
      using op by (simp only: build_operation_Inr) simp
    then show ?thesis by simp
  qed
  show ?thesis
    using p(1) b pl by (simp add: assemble_plan_def Let_def demo_built_def bind_result_Inr)
qed

lemma demo_builds_operations:
  "\<exists>dp. build (io_return ''/'') False (Some demo_planner) demo_loaded () = ((), Inr dp) \<and> pn_operations (dp_document dp) \<noteq> []"
proof -
  obtain dp where dp: "assemble_plan demo_release demo_built = Inr dp" "pn_operations (dp_document dp) \<noteq> []" using demo_assembled by blast
  have "build (io_return ''/'') False (Some demo_planner) demo_loaded = build_with demo_tools demo_loaded"
    unfolding build_is_build_with [OF demo_planner_made] by (simp add: demo_tools_def)
  moreover have "io_each (build_target demo_tools ''/r'' demo_message) initial_build (cf_targets demo_config) = io_return demo_built"
    by (simp add: demo_config_def demo_target_built)
  then have "build_with demo_tools demo_loaded = io_return dp"
    using dp(1) by (simp add: build_with_def demo_release_built) (simp add: demo_loaded_def demo_config_def)
  ultimately show ?thesis using dp(2) by (simp add: io_return_def io_lift_def)
qed

lemma demo_builds: "\<exists>dp. build (io_return ''/'') False (Some demo_planner) demo_loaded () = ((), Inr dp)"
  using demo_builds_operations by blast

lemma demo_operations:
  "build (io_return ''/'') False (Some demo_planner) demo_loaded () = ((), Inr dp) \<Longrightarrow> pn_operations (dp_document dp) \<noteq> []"
  using demo_builds_operations by auto

lemma demo_loads:
  assumes "build (io_return ''/'') False (Some demo_planner) demo_loaded () = ((), Inr dp)"
  shows "plan_from_document (dp_document dp) = Inr dp"
  by (rule files.build_loads) (use assms in \<open>simp_all add: build_is_build_with [OF demo_planner_made]\<close>)

definition x_artifact :: config_artifact where
  "x_artifact = \<lparr>ca_name = ''x'', ca_source = ''/x'', ca_media_type = []\<rparr>"

definition y_artifact :: config_artifact where
  "y_artifact = \<lparr>ca_name = ''y'', ca_source = ''/y'', ca_media_type = []\<rparr>"

definition two_artifacts :: "config_artifact list \<Rightarrow> config" where
  "two_artifacts as = demo_config\<lparr>cf_release := \<lparr>cr_id = ''r'', cr_artifacts = as\<rparr>\<rparr>"

lemma two_artifacts_normalized: "normalize_and_validate (two_artifacts [x_artifact, y_artifact]) = Inr (two_artifacts [x_artifact, y_artifact])"
  by (simp add: two_artifacts_def x_artifact_def y_artifact_def normalize_and_validate_def demo_config_def
      check_config_artifact_def check_config_target_def text_eval checked_def)

end
