(* ===== verification/Planner_Claims.thy ===== *)
theory Planner_Claims
  imports Planner_Demo
begin

text \<open>
  What planning promises: a built plan can be stored and loaded, is well formed and bound to the executables
  it was made with, does not depend on the order of the configuration, and a stored plan is loaded only if
  its identifier is that of its content.
\<close>

section \<open>Building and loading\<close>

text \<open>C30  Whatever the providers answer and the files hold, a plan that \<open>Build\<close> returns is loaded back
  from its document: \<open>planFromDocument\<close> accepts it and rebuilds the same plan, in the same order.\<close>

theorem built_plan_loads_back:
  assumes "new_planner resolver (hash_file fc) (Some client) resolver' None = Inr pl"
    and "build getwd False (Some pl) ld w = (w', Inr dp)"
  shows "plan_from_document (dp_document dp) = Inr dp"
  by (rule files.build_loads) (use assms(2) in \<open>simp_all add: build_is_build_with [OF assms(1)]\<close>)

theorem built_plan_loads_back_witness:
  "\<exists>dp. build (io_return ''/'') False (Some demo_planner) demo_loaded () = ((), Inr dp) \<and> plan_from_document (dp_document dp) = Inr dp"
  using demo_builds built_plan_loads_back [OF demo_planner_made] by blast

text \<open>A plan that \<open>Build\<close> returns is well formed, and every provider of its targets is bound to the
  digest of an executable, so \<open>VerifyProviderDigests\<close> accepts it.\<close>

theorem built_plan_is_bound:
  assumes "new_planner resolver (hash_file fc) (Some client) resolver' None = Inr pl"
    and "build getwd False (Some pl) ld w = (w', Inr dp)"
  shows "plan_wf (dp_plan dp) \<and> verify_provider_digests dp = None"
proof
  note b = assms(2) [unfolded build_is_build_with [OF assms(1)]]
  show "plan_wf (dp_plan dp)" by (rule files.build_parts_wf [OF _ b]) simp
  show "verify_provider_digests dp = None" by (rule build_with_binds [OF _ b]) (simp add: files.hasher_sound)
qed

theorem built_plan_is_bound_witness:
  "\<exists>dp. build (io_return ''/'') False (Some demo_planner) demo_loaded () = ((), Inr dp) \<and> verify_provider_digests dp = None"
  using demo_builds built_plan_is_bound [OF demo_planner_made] by blast

text \<open>C33  A stored document is loaded only if its plan identifier is the hash of its content: the release,
  the targets and the operations; the loaded plan is well formed, keeps that identifier, and every operation
  carries the idempotency key derived from it, or none if it has no side effect.\<close>

theorem loaded_plan_matches_its_content:
  assumes "plan_from_document doc = Inr dp"
  shows "\<exists>rel. pl_release (dp_plan dp) = rel \<and> pl_id (dp_plan dp) = pn_plan_id doc
      \<and> pn_plan_id doc = ''sha256-'' @ sha256_hex (semantic_plan_text (document_semantics doc rel))
      \<and> plan_wf (dp_plan dp)
      \<and> list_all2 (\<lambda>v op. op_id op = so_id v \<and> op_idempotency_key op = od_idempotency_key v \<and> od_idempotency_key v =
          (if so_side_effecting v then derive_idempotency_key (pn_plan_id doc) (so_target_id v) (so_id v) (rel_artifacts rel) else []))
          (pn_operations doc) (pl_operations (dp_plan dp))"
proof -
  obtain rel lt ops where o: "for_each (load_operation (pn_plan_id doc) (rel_artifacts rel) lt) [] (pn_operations doc) = Inr ops"
    and i: "semantic_plan_id (document_semantics doc rel) = Inr (pn_plan_id doc)"
    and n: "new_plan (pn_plan_id doc) plan_schema_version protocol_version rel (lt_targets lt) ops = Inr (dp_plan dp)"
    by (rule plan_from_document_Inr [OF assms])
  let ?made = "\<lambda>v op. (\<exists>ds. new_operation (so_id v) (so_target_id v) (op_provider op) (so_kind v) ds (so_side_effecting v)
      (od_idempotency_key v) (int (unat (so_timeout_millis v)) * 1000000) (so_provider_payload v) = Inr op)
    \<and> od_idempotency_key v = (if so_side_effecting v then derive_idempotency_key (pn_plan_id doc) (so_target_id v) (so_id v) (rel_artifacts rel) else [])"
  have made: "list_all2 ?made (pn_operations doc) ops" using load_operations_append [OF o] by simp
  then have "\<forall>op \<in> set ops. distinct (op_dependencies op)"
    by (induction rule: list_all2_induct) (auto dest: new_operation_Inr(4,8))
  note accepted = new_plan_wf [OF this n] n [unfolded new_plan_accepts [OF this]]
  have "list_all2 (\<lambda>v op. op_id op = so_id v \<and> op_idempotency_key op = od_idempotency_key v \<and> od_idempotency_key v =
      (if so_side_effecting v then derive_idempotency_key (pn_plan_id doc) (so_target_id v) (so_id v) (rel_artifacts rel) else []))
      (pn_operations doc) ops"
    by (rule list_all2_mono [OF made]) (use new_operation_Inr(1,6) in blast)
  moreover have "pn_plan_id doc = ''sha256-'' @ sha256_hex (semantic_plan_text (document_semantics doc rel))"
    using i by (simp add: semantic_plan_id_def new_plan_id_def split: if_splits)
  ultimately show ?thesis using accepted by simp
qed

theorem loaded_plan_matches_its_content_witness:
  "\<exists>doc dp. plan_from_document doc = Inr dp \<and> pn_operations doc \<noteq> []
     \<and> (\<exists>rel. pn_plan_id doc = ''sha256-'' @ sha256_hex (semantic_plan_text (document_semantics doc rel)))"
proof -
  obtain dp where b: "build (io_return ''/'') False (Some demo_planner) demo_loaded () = ((), Inr dp)" using demo_builds by blast
  have l: "plan_from_document (dp_document dp) = Inr dp" by (rule demo_loads [OF b])
  from loaded_plan_matches_its_content [OF l] l demo_operations [OF b] show ?thesis by blast
qed

text \<open>C34  The order in which a configuration lists its targets and artifacts does not matter: for a
  validated configuration and any reordering of it, \<open>Build\<close> asks the same questions and returns the same.\<close>

theorem configuration_order_is_irrelevant:
  assumes "normalize_and_validate c = Inr c'" and "same_content c' d"
  shows "build getwd nil pl \<lparr>ld_config = c', ld_base_dir = b\<rparr> = build getwd nil pl \<lparr>ld_config = d, ld_base_dir = b\<rparr>"
  using build_with_order [OF assms] by (auto simp: build_def split: option.splits)

theorem configuration_order_is_irrelevant_witness:
  "build (io_return ''/'') False (Some demo_planner) \<lparr>ld_config = two_artifacts [x_artifact, y_artifact], ld_base_dir = ''/''\<rparr>
     = build (io_return ''/'') False (Some demo_planner) \<lparr>ld_config = two_artifacts [y_artifact, x_artifact], ld_base_dir = ''/''\<rparr>"
  by (rule configuration_order_is_irrelevant [OF two_artifacts_normalized])
    (simp add: same_content_def two_artifacts_def x_artifact_def y_artifact_def)

section \<open>Validation and canonical text\<close>

text \<open>Validating a configuration replaces the configuration of every target by its canonical JSON and
  changes nothing else, and a validated configuration is left as it is.\<close>

theorem validated_configuration_is_fixed:
  assumes "normalize_and_validate c = Inr c'"
  shows "normalize_and_validate c' = Inr c'
    \<and> c' = c\<lparr>cf_targets := map (\<lambda>t. t\<lparr>ct_configuration := projr (normalize_json (ct_configuration t))\<rparr>) (cf_targets c)\<rparr>
    \<and> distinct (map ct_id (cf_targets c')) \<and> distinct (map ca_name (cr_artifacts (cf_release c')))"
  using normalize_and_validate_idempotent [OF assms] normalized_distinct [OF assms] normalize_and_validate_targets(1) [OF assms]
  by (simp add: canonical_target_def [abs_def])

theorem validated_configuration_is_fixed_witness:
  "normalize_and_validate demo_config = Inr demo_config \<and> distinct (map ct_id (cf_targets demo_config))"
  using validated_configuration_is_fixed [OF demo_config_normalized] demo_config_normalized by blast

text \<open>C40  Canonical JSON decides equality: of two texts that \<open>Normalize\<close> accepts, the canonical texts are the
  same exactly when the values they decode to are the same up to the order of object members; and the
  canonical text is accepted and left as it is.\<close>

theorem canonical_text_decides_equality:
  assumes "normalize_json raw1 = Inr out1" and "normalize_json raw2 = Inr out2"
    and "decode_value (decode_fuel raw1) raw1 = Inr (v1, r1)" and "decode_value (decode_fuel raw2) raw2 = Inr (v2, r2)"
  shows "(out1 = out2 \<longleftrightarrow> canonical_value v1 = canonical_value v2) \<and> normalize_json out1 = Inr out1"
proof -
  have out: "out1 = marshal_json v1" "out2 = marshal_json v2" using assms by (simp_all add: normalize_Inr)
  have "json_ok v1" "json_ok v2" using assms(3,4) decode_value_ok by blast+
  with out marshal_injective have "out1 = out2 \<longleftrightarrow> canonical_value v1 = canonical_value v2" by (metis marshal_canonical)
  with normalize_idempotent [OF assms(1)] show ?thesis by blast
qed

theorem canonical_text_decides_equality_witness:
  "\<exists>out1 out2. normalize_json ''[1, true]'' = Inr out1 \<and> normalize_json ''[1,true ]'' = Inr out2 \<and> out1 = out2 \<and> normalize_json out1 = Inr out1"
proof -
  have d: "decode_value (decode_fuel ''[1, true]'') ''[1, true]'' = Inr (JArray [JNumber ''1'', JBool True], [])"
    "decode_value (decode_fuel ''[1,true ]'') ''[1,true ]'' = Inr (JArray [JNumber ''1'', JBool True], [])"
    by code_simp+
  have "valid_string ''[1, true]''" "valid_string ''[1,true ]''" by (simp_all add: printable_checks printable_def byte_def)
  moreover have "trim_space ''[1, true]'' \<noteq> []" "trim_space ''[1,true ]'' \<noteq> []"
    by (rule trim_space_nonempty; simp add: byte_def is_space_def)+
  ultimately have n: "normalize_json ''[1, true]'' = Inr (marshal_json (JArray [JNumber ''1'', JBool True]))"
    "normalize_json ''[1,true ]'' = Inr (marshal_json (JArray [JNumber ''1'', JBool True]))"
    using d by (auto simp: normalize_Inr skip_ws_def)
  from canonical_text_decides_equality [OF n d] n show ?thesis by blast
qed

section \<open>Answers of a provider\<close>

text \<open>The host accepts the plan of a provider exactly when its operations have unique valid names, depend on
  each other without a cycle and on nothing else, and each operation and requirement is well formed.\<close>

theorem plan_response_accepted_iff:
  "plan_response_validate r = None \<longleftrightarrow>
     (\<forall>o1 \<in> set (ps_operations r). valid_identifier (po_id o1) \<and> valid_identifier (po_kind o1) \<and> json_value_valid (po_provider_payload o1)
        \<and> distinct (po_dependencies o1) \<and> (\<forall>d \<in> set (po_dependencies o1). valid_identifier d \<and> d \<noteq> po_id o1)
        \<and> set (po_dependencies o1) \<subseteq> po_id ` set (ps_operations r))
     \<and> distinct (map po_id (ps_operations r)) \<and> acyclic {(d, po_id o1) | d o1. o1 \<in> set (ps_operations r) \<and> d \<in> set (po_dependencies o1)}
     \<and> (\<forall>q \<in> set (ps_requirements r). message_requirement_validate q = None)"
  unfolding plan_response_validate_None planned_ok_def planned_rel_def by blast

theorem plan_response_accepted_iff_witness: "plan_response_validate demo_response = None"
  unfolding plan_response_accepted_iff
  by (simp add: demo_response_def json_value_valid_def text_eval acyclic_def)

end
