(* ===== verification/Host_Redact.thy ===== *)
theory Host_Redact
  imports Protocol_Message Canonical_Json
begin

text \<open>
  \<open>internal/providerhost/redact.go\<close>: the credentials given to a provider process are replaced in what comes
  back from it, in texts and in the strings of JSON values.
\<close>

section \<open>strings.ReplaceAll\<close>

text \<open>The occurrences of a text that is not empty, from the left and not overlapping.\<close>

fun replace_from :: "string \<Rightarrow> string \<Rightarrow> string \<Rightarrow> string" where
  "replace_from old new [] = []"
| "replace_from old new (c # cs) =
     (if prefix old (c # cs) then new @ replace_from old new (drop (length old - 1) cs)
      else c # replace_from old new cs)"

text \<open>The empty text occurs before, between and after the characters.\<close>

definition replace_all :: "string \<Rightarrow> string \<Rightarrow> string \<Rightarrow> string" where
  "replace_all s old new =
     (if old = [] then new @ concat (map (\<lambda>(_, b). b @ new) (rune_chunks s)) else replace_from old new s)"

section \<open>The redactor\<close>

definition redacted :: string where
  "redacted = ''[REDACTED]''"

text \<open>The texts to replace, longest first; \<open>sort.Slice\<close> may order equally long ones in any way.\<close>

definition add_secret :: "string list \<Rightarrow> string \<Rightarrow> string list" where
  "add_secret found v = (if v = [] \<or> v \<in> set found then found else found @ [v])"

definition new_redactor :: "string list \<Rightarrow> string list" where
  "new_redactor values = rev (sort_key length (rev (foldl add_secret [] values)))"

definition redact_text :: "string list \<Rightarrow> string \<Rightarrow> string" where
  "redact_text secrets v = foldl (\<lambda>t s. replace_all t s redacted) v secrets"

text \<open>
  \<open>value\<close>: of two keys that become the same, the one ranged over last stays; \<open>order\<close> is the order in which
  Go ranges over the members.
\<close>

type_synonym member_order = "(string \<times> json) list \<Rightarrow> (string \<times> json) list"

fun redact_value :: "member_order \<Rightarrow> string list \<Rightarrow> json \<Rightarrow> json" where
  "redact_value order secrets (JString s) = JString (redact_text secrets s)"
| "redact_value order secrets (JArray vs) = JArray (map (redact_value order secrets) vs)"
| "redact_value order secrets (JObject kvs) =
     JObject (foldl (\<lambda>m (k, v). map_insert (redact_text secrets k) v m) []
       (order (map (\<lambda>(k, v). (k, redact_value order secrets v)) kvs)))"
| "redact_value order secrets v = v"

definition redact_json :: "member_order \<Rightarrow> string list \<Rightarrow> string \<Rightarrow> string" where
  "redact_json order secrets raw =
     (if raw = [] \<or> secrets = [] then raw
      else (case json_decode raw of None \<Rightarrow> raw | Some (v, _) \<Rightarrow> marshal_json (redact_value order secrets v)))"

definition redact_provider_error :: "member_order \<Rightarrow> string list \<Rightarrow> provider_error \<Rightarrow> provider_error" where
  "redact_provider_error order secrets e =
     (if secrets = [] then e
      else e\<lparr>pe_message := redact_text secrets (pe_message e), pe_details := redact_json order secrets (pe_details e)\<rparr>)"

definition redact_distribution_result :: "member_order \<Rightarrow> string list \<Rightarrow> distribution_result \<Rightarrow> distribution_result" where
  "redact_distribution_result order secrets r =
     (if secrets = [] then r
      else r\<lparr>dres_provider_state := redact_text secrets (dres_provider_state r), dres_evidence := redact_json order secrets (dres_evidence r)\<rparr>)"

section \<open>Nothing redacted is left\<close>

text \<open>A credential that neither the marker nor its ends can show by themselves.\<close>

definition plain_secret :: "string \<Rightarrow> bool" where
  "plain_secret s \<longleftrightarrow> CHR ''['' \<notin> set s \<and> CHR '']'' \<notin> set s \<and> \<not> sublist s redacted"

lemma plain_secret_nonempty: "plain_secret s \<Longrightarrow> s \<noteq> []"
  by (auto simp: plain_secret_def)

lemma prefix_of_replaced:
  "prefix p (replace_from old redacted t) \<Longrightarrow> CHR ''['' \<notin> set p \<Longrightarrow> prefix p t"
proof (induction t arbitrary: p)
  case (Cons c cs)
  show ?case
  proof (cases p)
    case (Cons d ds)
    with Cons.prems have "\<not> prefix old (c # cs)" by (auto simp: redacted_def split: if_splits)
    with Cons Cons.prems Cons.IH [of ds] show ?thesis by auto
  qed simp
qed simp

lemma sublist_of_marker:
  assumes "sublist q (redacted @ r)" and "plain_secret q"
  shows "sublist q r"
proof -
  have "\<not> suffix q1 redacted" if "q = q1 @ q2" "q1 \<noteq> []" for q1 q2
  proof
    assume "suffix q1 redacted"
    then obtain zs where "redacted = zs @ q1" by (auto simp: suffix_def)
    then have "last q1 = last redacted" using \<open>q1 \<noteq> []\<close> by (metis last_appendR)
    then have "CHR '']'' \<in> set q1" using \<open>q1 \<noteq> []\<close> last_in_set [of q1] by (simp add: redacted_def)
    with that(1) assms(2) show False by (simp add: plain_secret_def)
  qed
  then have "sublist q r" if "q = q1 @ q2" "suffix q1 redacted" "prefix q2 r" for q1 q2
    using that by (cases "q1 = []") (auto intro: prefix_imp_sublist)
  then show ?thesis using assms unfolding sublist_append plain_secret_def by blast
qed

lemma replace_induct [case_names empty step]:
  assumes "P []" and "\<And>c cs. (\<And>k. P (drop k cs)) \<Longrightarrow> P (c # cs)"
  shows "P (t :: string)"
proof (induction t rule: length_induct)
  case (1 t)
  show ?case
  proof (cases t)
    case (Cons c cs)
    have "P (drop k cs)" for k by (rule "1" [rule_format]) (simp add: Cons)
    with assms(2) Cons show ?thesis by simp
  qed (use assms(1) in simp)
qed

lemma sublist_of_replaced:
  "sublist q (replace_from old redacted t) \<Longrightarrow> plain_secret q \<Longrightarrow> sublist q t"
proof (induction t rule: replace_induct)
  case (step c cs)
  show ?case
  proof (cases "prefix old (c # cs)")
    case True
    with step.prems sublist_of_marker have "sublist q (replace_from old redacted (drop (length old - 1) cs))" by simp
    with step.IH step.prems(2) have "sublist q (drop (length old - 1) cs)" by blast
    then show ?thesis by (meson sublist_Cons_right sublist_drop sublist_order.order.trans)
  next
    case False
    with step.prems(1) consider "prefix q (c # replace_from old redacted cs)" | "sublist q (replace_from old redacted cs)"
      by (auto simp: sublist_Cons_right)
    then show ?thesis
    proof cases
      case 1
      with step.prems(2) prefix_of_replaced [of "tl q" old cs] have "prefix q (c # cs)" by (cases q) (auto simp: plain_secret_def)
      then show ?thesis by (rule prefix_imp_sublist)
    next
      case 2
      with step.IH [of 0] step.prems(2) show ?thesis by (simp add: sublist_Cons_right)
    qed
  qed
qed simp

lemma replaced_is_gone:
  "plain_secret s \<Longrightarrow> \<not> sublist s (replace_from s redacted t)"
proof (induction t rule: replace_induct)
  case (step c cs)
  show ?case
  proof (cases "prefix s (c # cs)")
    case True
    with step.IH [OF step.prems] step.prems sublist_of_marker show ?thesis by auto
  next
    case False
    have "\<not> prefix s (c # replace_from s redacted cs)"
    proof
      assume "prefix s (c # replace_from s redacted cs)"
      with step.prems prefix_of_replaced [of "tl s" s cs] have "prefix s (c # cs)" by (cases s) (auto simp: plain_secret_def)
      with False show False by simp
    qed
    with step.IH [of 0, OF step.prems] step.prems False show ?thesis by (simp add: sublist_Cons_right)
  qed
qed (auto simp: plain_secret_def)

lemma redact_text_keeps: "\<forall>s \<in> set secrets. s \<noteq> [] \<Longrightarrow> plain_secret q \<Longrightarrow> sublist q (redact_text secrets t) \<Longrightarrow> sublist q t"
proof (induction secrets arbitrary: t)
  case (Cons s secrets)
  then have "sublist q (replace_all t s redacted)" by (simp add: redact_text_def)
  with Cons.prems sublist_of_replaced show ?case by (simp add: replace_all_def)
qed (simp add: redact_text_def)

lemma redact_text_gone:
  "\<forall>s \<in> set secrets. plain_secret s \<Longrightarrow> s \<in> set secrets \<Longrightarrow> \<not> sublist s (redact_text secrets t)"
proof (induction secrets arbitrary: t)
  case (Cons r secrets)
  have ne: "\<forall>s \<in> set (r # secrets). s \<noteq> []" using Cons.prems(1) plain_secret_nonempty by blast
  have step: "redact_text (r # secrets) t = redact_text secrets (replace_from r redacted t)"
    using ne by (simp add: redact_text_def replace_all_def)
  show ?case
  proof (cases "s = r")
    case True
    with Cons.prems replaced_is_gone have "\<not> sublist s (replace_from r redacted t)" by simp
    with redact_text_keeps [of secrets s "replace_from r redacted t"] ne Cons.prems(1,2) show ?thesis unfolding step by auto
  qed (use Cons in \<open>simp add: step\<close>)
qed simp

text \<open>The strings of a JSON value, member names included.\<close>

inductive json_string :: "json \<Rightarrow> string \<Rightarrow> bool" where
  here: "json_string (JString s) s"
| element: "v \<in> set vs \<Longrightarrow> json_string v s \<Longrightarrow> json_string (JArray vs) s"
| name: "(k, v) \<in> set kvs \<Longrightarrow> json_string (JObject kvs) k"
| member: "(k, v) \<in> set kvs \<Longrightarrow> json_string v s \<Longrightarrow> json_string (JObject kvs) s"

inductive_simps json_string_simps [simp]:
  "json_string (JString s) t" "json_string (JArray vs) t" "json_string (JObject kvs) t" "json_string JNull t"
  "json_string (JBool b) t" "json_string (JNumber n) t"

lemma set_redacted_members:
  "set (foldl (\<lambda>m (k, v). map_insert (f k) v m) m kvs) \<subseteq> set m \<union> (\<lambda>(k, v). (f k, v)) ` set kvs"
proof (induction kvs arbitrary: m)
  case (Cons p kvs)
  obtain k v where p: "p = (k, v)" by (cases p)
  have "set (map_insert (f k) v m) \<subseteq> set m \<union> {(f k, v)}" by (induction m) (auto split: if_splits)
  with Cons.IH [of "map_insert (f k) v m"] show ?case by (auto simp: p)
qed simp

lemma redact_value_gone:
  assumes "\<forall>s \<in> set secrets. plain_secret s" and "\<And>kvs. set (order kvs) = set kvs"
    and "json_string (redact_value order secrets v) t" and "s \<in> set secrets"
  shows "\<not> sublist s t"
  using assms(3)
proof (induction v arbitrary: t)
  case (JObject kvs)
  let ?members = "order (map (\<lambda>(k, v). (k, redact_value order secrets v)) kvs)"
  have members: "set ?members = set (map (\<lambda>(k, v). (k, redact_value order secrets v)) kvs)" by (rule assms(2))
  have "set (foldl (\<lambda>m (k, v). map_insert (redact_text secrets k) v m) [] ?members)
      \<subseteq> (\<lambda>(k, v). (redact_text secrets k, v)) ` set ?members"
    using set_redacted_members [of "redact_text secrets" "[]" ?members] by simp
  then have "(k, v) \<in> set (foldl (\<lambda>m (k, v). map_insert (redact_text secrets k) v m) [] ?members) \<Longrightarrow>
      \<exists>i u. k = redact_text secrets i \<and> (i, u) \<in> set kvs \<and> v = redact_value order secrets u" for k v
    unfolding members by fastforce
  moreover obtain k v where "(k, v) \<in> set (foldl (\<lambda>m (k, v). map_insert (redact_text secrets k) v m) [] ?members)"
      "t = k \<or> json_string v t"
    using JObject.prems by auto
  ultimately obtain i u where "(i, u) \<in> set kvs" "t = redact_text secrets i \<or> json_string (redact_value order secrets u) t" by blast
  with JObject.IH [of "(i, u)" u] redact_text_gone [OF assms(1,4)] show ?case by auto
qed (use redact_text_gone [OF assms(1,4)] in auto)

end
