(* ===== verification/Protocol_Codec.thy ===== *)
theory Protocol_Codec
  imports Protocol_Message Canonical_Json Planner_Document Go_Io
begin

text \<open>
  \<open>internal/protocol/codec.go\<close> and \<open>server.go\<close>: what one side writes, how the other side reads it, and one
  turn of a provider.  Filling a Go struct from JSON is the library's: a set of \<open>decoders\<close>.  A slice of a
  message is a list, printed as an array; a nil slice, which Go prints as \<open>null\<close>, is not told apart.
\<close>

section \<open>The texts of messages\<close>

definition message_requirement_text :: "message_requirement \<Rightarrow> string" where
  "message_requirement_text q = object_text (field ''kind'' (json_quote (mr_kind q)) @ field ''name'' (json_quote (mr_name q))
     @ field_unless (mr_metadata q = []) ''metadata'' (raw_text (mr_metadata q)))"

definition requirements_field :: "message_requirement list \<Rightarrow> (string \<times> string) list" where
  "requirements_field qs = field_unless (qs = []) ''requirements'' (array_text (map message_requirement_text qs))"

definition describe_response_text :: "describe_response \<Rightarrow> string" where
  "describe_response_text r = object_text (
     field ''provider'' (object_text (field ''name'' (json_quote (pi_name (dr_provider r))) @ field ''version'' (json_quote (pi_version (dr_provider r)))))
     @ field ''protocolVersions'' (array_text (map json_quote (dr_protocol_versions r)))
     @ field ''capabilities'' (array_text (map (\<lambda>c. json_quote (capability_text c)) (dr_capabilities r)))
     @ requirements_field (dr_requirements r))"

definition message_artifact_text :: "message_artifact \<Rightarrow> string" where
  "message_artifact_text a = object_text (field ''name'' (json_quote (ma_name a)) @ field ''digest'' (json_quote (ma_digest a))
     @ field ''size'' (decimal_int (ma_size a)) @ field_unless (ma_media_type a = []) ''mediaType'' (json_quote (ma_media_type a)))"

definition plan_request_text :: "plan_request \<Rightarrow> string" where
  "plan_request_text r = object_text (
     field ''release'' (object_text (field ''id'' (json_quote (mrel_id (pr_release r)))
       @ field ''artifacts'' (array_text (map message_artifact_text (mrel_artifacts (pr_release r))))))
     @ field ''target'' (object_text (field ''id'' (json_quote (mt_id (pr_target r)))
       @ field ''configuration'' (raw_text (mt_configuration (pr_target r))))))"

definition planned_operation_text :: "planned_operation \<Rightarrow> string" where
  "planned_operation_text o1 = object_text (field ''id'' (json_quote (po_id o1)) @ field ''kind'' (json_quote (po_kind o1))
     @ field_unless (po_dependencies o1 = []) ''dependencies'' (array_text (map json_quote (po_dependencies o1)))
     @ field ''sideEffecting'' (bool_text (po_side_effecting o1))
     @ field_unless (po_timeout_millis o1 = 0) ''timeoutMillis'' (decimal (unat (po_timeout_millis o1)))
     @ field ''providerPayload'' (raw_text (po_provider_payload o1)))"

definition plan_response_text :: "plan_response \<Rightarrow> string" where
  "plan_response_text r = object_text (field ''operations'' (array_text (map planned_operation_text (ps_operations r)))
     @ requirements_field (ps_requirements r))"

definition apply_fields :: "'a apply_request_scheme \<Rightarrow> (string \<times> string) list" where
  "apply_fields r = field ''planId'' (json_quote (ar_plan_id r)) @ field ''targetId'' (json_quote (ar_target_id r))
     @ field ''operationId'' (json_quote (ar_operation_id r)) @ field ''idempotencyKey'' (json_quote (ar_idempotency_key r))
     @ field ''attempt'' (decimal (unat (ar_attempt r))) @ field ''providerPayload'' (raw_text (ar_provider_payload r))"

definition apply_request_text :: "apply_request \<Rightarrow> string" where
  "apply_request_text r = object_text (apply_fields r)"

definition distribution_result_text :: "distribution_result \<Rightarrow> string" where
  "distribution_result_text r = object_text (field ''state'' (json_quote (result_state_text (dres_state r)))
     @ field_unless (dres_provider_state r = []) ''providerState'' (json_quote (dres_provider_state r))
     @ field ''evidence'' (raw_text (dres_evidence r)))"

definition reconcile_request_text :: "reconcile_request \<Rightarrow> string" where
  "reconcile_request_text r = object_text (apply_fields r
     @ (case rr_previous r of None \<Rightarrow> [] | Some d \<Rightarrow> field ''previous'' (distribution_result_text d)))"

definition result_response_text :: "distribution_result \<Rightarrow> string" where
  "result_response_text r = object_text (field ''result'' (distribution_result_text r))"

definition provider_error_text :: "provider_error \<Rightarrow> string" where
  "provider_error_text e = object_text (field ''code'' (json_quote (error_code_text (pe_code e)))
     @ field ''message'' (json_quote (pe_message e)) @ field ''retryable'' (bool_text (pe_retryable e))
     @ field_unless (pe_details e = []) ''details'' (raw_text (pe_details e)))"

definition envelope_fields :: "'a envelope_scheme \<Rightarrow> (string \<times> string) list" where
  "envelope_fields r = field ''protocolVersion'' (json_quote (env_protocol_version r))
     @ field ''requestId'' (json_quote (env_request_id r))
     @ field ''operation'' (json_quote (protocol_operation_text (env_operation r)))"

definition request_text :: "protocol_request \<Rightarrow> string" where
  "request_text r = object_text (envelope_fields r @ field ''payload'' (raw_text (env_payload r)))"

fun status_text :: "status \<Rightarrow> string" where
  "status_text StatusOK = ''ok''"
| "status_text StatusError = ''error''"
| "status_text (StatusOther s) = s"

definition response_text :: "protocol_response \<Rightarrow> string" where
  "response_text r = object_text (envelope_fields r @ field ''status'' (json_quote (status_text (res_status r)))
     @ field_unless (env_payload r = []) ''payload'' (raw_text (env_payload r))
     @ (case res_error r of None \<Rightarrow> [] | Some e \<Rightarrow> field ''error'' (provider_error_text e)))"

section \<open>rejectDuplicateKeys\<close>

text \<open>\<open>scanJSONValue\<close> and its two loops; an object keeps the keys it has read.\<close>

fun scan_value :: "nat \<Rightarrow> string \<Rightarrow> string result"
  and scan_array :: "nat \<Rightarrow> bool \<Rightarrow> string \<Rightarrow> string result"
  and scan_object :: "nat \<Rightarrow> bool \<Rightarrow> string list \<Rightarrow> string \<Rightarrow> string result" where
  "scan_value 0 s = Inl decoder_error"
| "scan_value (Suc n) s =
     (case skip_ws s of [] \<Rightarrow> Inl decoder_error
      | c # cs \<Rightarrow>
        (if byte c = 0x7B then scan_object n True [] cs
         else if byte c = 0x5B then scan_array n True cs
         else (case scalar_token (c # cs) of None \<Rightarrow> Inl decoder_error | Some (_, r) \<Rightarrow> Inr r)))"
| "scan_array 0 first s = Inl decoder_error"
| "scan_array (Suc n) first s =
     (case skip_ws s of [] \<Rightarrow> Inl decoder_error
      | c # cs \<Rightarrow>
        (if byte c = 0x5D then Inr cs
         else if byte c = 0x7D then Inl decoder_error
         else (case next_element first c cs of None \<Rightarrow> Inl decoder_error
               | Some t \<Rightarrow> (case scan_value n t of Inl err \<Rightarrow> Inl err | Inr r \<Rightarrow> scan_array n False r))))"
| "scan_object 0 first keys s = Inl decoder_error"
| "scan_object (Suc n) first keys s =
     (case skip_ws s of [] \<Rightarrow> Inl decoder_error
      | c # cs \<Rightarrow>
        (if byte c = 0x7D then Inr cs
         else if byte c = 0x5D then Inl decoder_error
         else (case next_element first c cs of None \<Rightarrow> Inl decoder_error
               | Some t \<Rightarrow>
                 (case object_key t of None \<Rightarrow> Inl decoder_error
                  | Some (k, u) \<Rightarrow>
                    (if k \<in> set keys then Inl (Errorf ''duplicate JSON object key %q'' [k])
                     else (case after_colon u of None \<Rightarrow> Inl decoder_error
                           | Some w \<Rightarrow> (case scan_value n w of Inl err \<Rightarrow> Inl err
                              | Inr r \<Rightarrow> scan_object n False (k # keys) r)))))))"

definition reject_duplicate_keys :: "string \<Rightarrow> error option" where
  "reject_duplicate_keys data =
     (case scan_value (decode_fuel data) data of
       Inl err \<Rightarrow> Some err
     | Inr r \<Rightarrow>
         if skip_ws r = [] then None
         else if top_token r then Some (Errorf ''multiple JSON values are not allowed'' [])
         else Some decoder_error)"

text \<open>It is \<open>decodeValue\<close> of the canonical encoding without the value.\<close>

lemma scan_decode_all:
  "(\<forall>s. scan_value n s = map_sum id snd (decode_value n s)) \<and>
   (\<forall>b a s. scan_array n b s = map_sum id snd (decode_array n b a s)) \<and>
   (\<forall>b m keys s. set keys = fst ` set m \<longrightarrow> scan_object n b keys s = map_sum id snd (decode_object n b m s))"
proof (induction n)
  case (Suc n)
  then have V: "\<And>s. scan_value n s = map_sum id snd (decode_value n s)"
    and A: "\<And>b a s. scan_array n b s = map_sum id snd (decode_array n b a s)"
    and O: "\<And>b m keys s. set keys = fst ` set m \<Longrightarrow> scan_object n b keys s = map_sum id snd (decode_object n b m s)"
    by blast+
  have insert: "set (k # keys) = fst ` set (map_insert k v m)" if "set keys = fst ` set m" for k v keys and m :: "(string \<times> json) list"
    using that keys_map_insert [of k v m] by simp
  have v1: "scan_value (Suc n) s = map_sum id snd (decode_value (Suc n) s)" for s
    by (auto simp: O [of "[]" "[]"] A [of _ _ "[]"] split: list.split option.split prod.split)
  have a1: "scan_array (Suc n) b s = map_sum id snd (decode_array (Suc n) b a s)" for b a s
    by (auto simp: V A [of False] split: list.split option.split sum.split)
  have o1: "scan_object (Suc n) b keys s = map_sum id snd (decode_object (Suc n) b m s)" if k: "set keys = fst ` set m" for b m keys s
  proof (cases "skip_ws s")
    case c: (Cons c cs)
    show ?thesis
    proof (cases "next_element b c cs")
      case t: (Some t)
      show ?thesis
      proof (cases "object_key t")
        case key: (Some p)
        obtain i u where p: "p = (i, u)" by (cases p)
        show ?thesis
        proof (cases "i \<in> set keys")
          case True
          then have "map_of m i \<noteq> None" by (simp add: k map_of_eq_None_iff)
          with True show ?thesis by (simp add: c t key p)
        next
          case False
          then have new: "map_of m i = None" by (simp add: k map_of_eq_None_iff)
          show ?thesis
          proof (cases "after_colon u")
            case w: (Some w)
            show ?thesis
            proof (cases "decode_value n w")
              case (Inr q)
              obtain v r where q: "q = (v, r)" by (cases q)
              have "scan_object n False (i # keys) r = map_sum id snd (decode_object n False (map_insert i v m) r)"
                by (rule O [OF insert [OF k]])
              then show ?thesis using Inr by (simp add: c t key p new False w V [of w] q)
            qed (simp add: c t key p new False w V [of w])
          qed (simp add: c t key p new False)
        qed
      qed (simp add: c t)
    qed (simp add: c)
  qed simp
  show ?case by (intro conjI allI impI, rule v1, rule a1, rule o1)
qed simp

lemma scan_value_decode: "scan_value n s = map_sum id snd (decode_value n s)"
  using scan_decode_all by blast

lemma reject_duplicate_keys_None:
  "reject_duplicate_keys data = None \<longleftrightarrow> (\<exists>v r. decode_value (decode_fuel data) data = Inr (v, r) \<and> skip_ws r = [])"
  by (cases "decode_value (decode_fuel data) data") (auto simp: reject_duplicate_keys_def scan_value_decode)

section \<open>Reading and writing messages\<close>

record decoders =
  dec_request :: "string \<Rightarrow> protocol_request result"
  dec_response :: "string \<Rightarrow> protocol_response result"
  dec_describe_response :: "string \<Rightarrow> describe_response result"
  dec_plan_request :: "string \<Rightarrow> plan_request result"
  dec_plan_response :: "string \<Rightarrow> plan_response result"
  dec_apply_request :: "string \<Rightarrow> apply_request result"
  dec_reconcile_request :: "string \<Rightarrow> reconcile_request result"
  dec_result :: "string \<Rightarrow> distribution_result result"
  dec_describe_request :: "string \<Rightarrow> unit result"

definition default_max_message_bytes :: int where
  "default_max_message_bytes = 1048576"

definition new_codec :: "int \<Rightarrow> int" where
  "new_codec bound = (if bound \<le> 0 then default_max_message_bytes else bound)"

text \<open>\<open>decodeExact\<close>: after the first value, the decoder finds the end of the input.\<close>

definition decode_exact :: "(string \<Rightarrow> 'a result) \<Rightarrow> string \<Rightarrow> 'a result" where
  "decode_exact fill data =
     (if data = [] \<or> \<not> valid_string data then Inl (Errorf ''invalid JSON input'' [])
      else case reject_duplicate_keys data of
        Some err \<Rightarrow> Inl err
      | None \<Rightarrow> bind_result (fill data) (\<lambda>x.
          case json_decode data of
            None \<Rightarrow> Inl decoder_error
          | Some (_, r) \<Rightarrow> if skip_ws r = [] then Inr x else Inl (Errorf ''multiple JSON values are not allowed'' [])))"

text \<open>\<open>Codec.read\<close>, of all that can be read.\<close>

definition codec_read :: "int \<Rightarrow> string \<Rightarrow> string result" where
  "codec_read bound input =
     (let data = take (nat (bound + 1)) input in
      if int (length data) > bound then Inl (Errorf ''protocol message exceeds %d bytes'' [])
      else if trim_space data = [] then Inl (Errorf ''protocol message is empty'' [])
      else if \<not> valid_string data then Inl (Errorf ''protocol message must be valid UTF-8'' [])
      else Inr data)"

definition decode_message :: "(string \<Rightarrow> 'a result) \<Rightarrow> ('a \<Rightarrow> error option) \<Rightarrow> string \<Rightarrow> int \<Rightarrow> string \<Rightarrow> 'a result" where
  "decode_message fill validate what bound input =
     bind_result (codec_read bound input) (\<lambda>data.
     bind_result (wrap_result what [] (decode_exact fill data)) (\<lambda>x. checked (validate x) x))"

definition decode_request :: "decoders \<Rightarrow> int \<Rightarrow> string \<Rightarrow> protocol_request result" where
  "decode_request dec = decode_message (dec_request dec) protocol_request_validate ''decode request: %w''"

definition decode_response :: "decoders \<Rightarrow> int \<Rightarrow> string \<Rightarrow> protocol_response result" where
  "decode_response dec = decode_message (dec_response dec) protocol_response_validate ''decode response: %w''"

definition codec_write :: "int \<Rightarrow> string \<Rightarrow> string result" where
  "codec_write bound data =
     (if int (length data) > bound then Inl (Errorf ''protocol message exceeds %d bytes'' []) else Inr data)"

definition encode_request :: "int \<Rightarrow> protocol_request \<Rightarrow> string result" where
  "encode_request bound r = bind_result (checked (protocol_request_validate r) ()) (\<lambda>_. codec_write bound (request_text r))"

definition encode_response :: "int \<Rightarrow> protocol_response \<Rightarrow> string result" where
  "encode_response bound r = bind_result (checked (protocol_response_validate r) ()) (\<lambda>_. codec_write bound (response_text r))"

definition decode_payload :: "(string \<Rightarrow> 'a result) \<Rightarrow> ('a \<Rightarrow> error option) \<Rightarrow> string \<Rightarrow> 'a result" where
  "decode_payload fill validate payload = bind_result (decode_exact fill payload) (\<lambda>x. checked (validate x) x)"

definition encode_payload :: "('a \<Rightarrow> error option) \<Rightarrow> ('a \<Rightarrow> string) \<Rightarrow> 'a \<Rightarrow> string result" where
  "encode_payload validate print x = checked (validate x) (print x)"

section \<open>ServeOnce\<close>

text \<open>A handler answers with a value or with a structured error, out of the world; \<open>error_text\<close> is \<open>err.Error()\<close>.\<close>

record 'w handler =
  hd_describe :: "('w, provider_error, describe_response) act"
  hd_plan :: "plan_request \<Rightarrow> ('w, provider_error, plan_response) act"
  hd_apply :: "apply_request \<Rightarrow> ('w, provider_error, distribution_result) act"
  hd_reconcile :: "reconcile_request \<Rightarrow> ('w, provider_error, distribution_result) act"

definition encode_handler_result ::
  "('a \<Rightarrow> error option) \<Rightarrow> ('a \<Rightarrow> string) \<Rightarrow> 'a \<Rightarrow> provider_error + string" where
  "encode_handler_result validate print x = (case encode_payload validate print x of
     Inl _ \<Rightarrow> Inl (new_provider_error ErrorProviderInternal ''provider returned an invalid response'' False)
   | Inr payload \<Rightarrow> Inr payload)"

definition protocol_payload_error :: "(error \<Rightarrow> string) \<Rightarrow> error \<Rightarrow> provider_error" where
  "protocol_payload_error error_text err = new_provider_error ErrorProtocol (''invalid operation payload: '' @ error_text err) False"

definition handle ::
  "(error \<Rightarrow> string) \<Rightarrow> (string \<Rightarrow> 'r result) \<Rightarrow> ('r \<Rightarrow> error option) \<Rightarrow> ('r \<Rightarrow> ('w, provider_error, 'a) act)
     \<Rightarrow> ('a \<Rightarrow> error option) \<Rightarrow> ('a \<Rightarrow> string) \<Rightarrow> string \<Rightarrow> ('w, provider_error, string) act" where
  "handle error_text fill validate run validate_answer print payload =
     (case decode_payload fill validate payload of
        Inl err \<Rightarrow> io_fail (protocol_payload_error error_text err)
      | Inr rq \<Rightarrow> io_bind (run rq) (\<lambda>x. io_lift (encode_handler_result validate_answer print x)))"

definition dispatch :: "(error \<Rightarrow> string) \<Rightarrow> decoders \<Rightarrow> 'w handler \<Rightarrow> protocol_request \<Rightarrow> ('w, provider_error, string) act" where
  "dispatch error_text dec h r = (case env_operation r of
     OperationDescribe \<Rightarrow> handle error_text (dec_describe_request dec) (\<lambda>_. None) (\<lambda>_. hd_describe h)
       describe_response_validate describe_response_text (env_payload r)
   | OperationPlan \<Rightarrow> handle error_text (dec_plan_request dec) plan_request_validate (hd_plan h)
       plan_response_validate plan_response_text (env_payload r)
   | OperationApply \<Rightarrow> handle error_text (dec_apply_request dec) apply_request_validate (hd_apply h)
       distribution_result_validate result_response_text (env_payload r)
   | OperationReconcile \<Rightarrow> handle error_text (dec_reconcile_request dec) reconcile_request_validate (hd_reconcile h)
       distribution_result_validate result_response_text (env_payload r)
   | OperationOther _ \<Rightarrow> io_fail (new_provider_error ErrorProtocol ''unsupported operation'' False))"

definition answer :: "protocol_request \<Rightarrow> status \<Rightarrow> string \<Rightarrow> provider_error option \<Rightarrow> protocol_response" where
  "answer r st payload err = \<lparr>env_protocol_version = protocol_version, env_request_id = env_request_id r,
     env_operation = env_operation r, env_payload = payload, res_status = st, res_error = err\<rparr>"

definition write_error :: "int \<Rightarrow> protocol_request \<Rightarrow> provider_error \<Rightarrow> string result" where
  "write_error bound r e = encode_response bound (answer r StatusError [] (Some e))"

text \<open>The bytes to write, or the error of \<open>ServeOnce\<close>; writing them is the caller's.\<close>

definition serve_once ::
  "(error \<Rightarrow> string) \<Rightarrow> decoders \<Rightarrow> int \<Rightarrow> 'w handler option \<Rightarrow> bool \<Rightarrow> string \<Rightarrow> ('w, string) io" where
  "serve_once error_text dec bound handler context_nil input =
     (if context_nil then io_fail (Errorf ''context must not be nil'' [])
      else (case handler of None \<Rightarrow> io_fail (Errorf ''handler must not be nil'' [])
      | Some h \<Rightarrow> io_bind (io_lift (decode_request dec bound input)) (\<lambda>r.
          case check_version r of
            Some err \<Rightarrow> io_lift (write_error bound r (new_provider_error ErrorProtocol (error_text err) False))
          | None \<Rightarrow>
              if \<not> protocol_operation_valid (env_operation r)
              then io_lift (write_error bound r (new_provider_error ErrorProtocol
                     (error_text (Errorf ''unsupported operation %q'' [protocol_operation_text (env_operation r)])) False))
              else (\<lambda>w. case dispatch error_text dec h r w of
                  (w', Inl e) \<Rightarrow> (w', write_error bound r (if provider_error_validate e = None then e
                      else new_provider_error ErrorProviderInternal ''provider returned an invalid structured error'' False))
                | (w', Inr payload) \<Rightarrow> (w', encode_response bound (answer r StatusOK payload None))))))"

section \<open>What a provider answers\<close>

lemma encode_response_Inr:
  "encode_response bound resp = Inr out \<longleftrightarrow> protocol_response_validate resp = None \<and> out = response_text resp \<and> int (length out) \<le> bound"
  by (auto simp: encode_response_def codec_write_def bind_result_Inr)

lemma answer_correlates: "check_version r = None \<Longrightarrow> check_correlation (answer r st payload err) r = None"
  by (simp add: check_version_def check_correlation_def answer_def checks)

text \<open>A turn that ends with bytes to write ends with a validated answer to the request it read.\<close>

lemma serve_once_answers:
  assumes "serve_once error_text dec bound handler nil input w = (w', Inr out)"
  obtains r h st payload err where "decode_request dec bound input = Inr r" "handler = Some h"
    "encode_response bound (answer r st payload err) = Inr out"
    "w' = w \<or> (check_version r = None \<and> protocol_operation_valid (env_operation r))"
    "st = StatusOK \<Longrightarrow> check_version r = None \<and> dispatch error_text dec h r w = (w', Inr payload)"
proof -
  obtain h r where h: "handler = Some h" and r: "decode_request dec bound input = Inr r" and nil: "\<not> nil"
    using assms by (auto simp: serve_once_def io_success split: if_splits option.splits)
  consider err where "check_version r = Some err" | "check_version r = None" "\<not> protocol_operation_valid (env_operation r)"
    | e v where "check_version r = None" "protocol_operation_valid (env_operation r)" "dispatch error_text dec h r w = (v, Inl e)"
    | payload v where "check_version r = None" "protocol_operation_valid (env_operation r)" "dispatch error_text dec h r w = (v, Inr payload)"
    by (cases "check_version r"; cases "dispatch error_text dec h r w"; cases "snd (dispatch error_text dec h r w)") auto
  then show thesis
    by cases (use assms that [OF r h, where st = StatusError and payload = "[]"] that [OF r h, where st = StatusOK and err = None] in
      \<open>auto simp: serve_once_def h r nil io_bind_def io_lift_def write_error_def split: if_splits\<close>)
qed

end
