(* ===== verification/Host_Client.thy ===== *)
theory Host_Client
  imports Host_Redact Protocol_Codec Planner_Build
begin

text \<open>
  \<open>internal/providerhost/client.go\<close>: one call of a provider, which is one run of its executable: the environment
  it gets, the request it reads, the boundaries the caller is told about, the bounded output, the answer.
  The environment is that of systems that tell the case of names apart.
\<close>

section \<open>Environments\<close>

text \<open>An entry \<open>key=value\<close>; a map of entries by key.\<close>

definition parse_environment_entry :: "string \<Rightarrow> (string \<times> string) result" where
  "parse_environment_entry v = (case string_cut v (CHR ''='') of
     None \<Rightarrow> Inl (Errorf ''invalid provider environment entry'' [])
   | Some (key, item) \<Rightarrow>
       if key = [] \<or> char_of (0::nat) \<in> set key \<or> char_of (0::nat) \<in> set item
       then Inl (Errorf ''invalid provider environment entry'' []) else Inr (key, item))"

definition environment_list :: "(string \<times> string) list \<Rightarrow> string list" where
  "environment_list env = map (\<lambda>(key, item). key @ CHR ''='' # item) (sort_key fst env)"

definition add_base :: "(string \<times> string) list \<Rightarrow> string \<Rightarrow> (string \<times> string) list result" where
  "add_base env v = bind_result (parse_environment_entry v) (\<lambda>(key, item).
     if map_of env key \<noteq> None then Inl (Errorf ''provider environment entry %q duplicates %q'' [key])
     else Inr (map_insert key item env))"

definition add_extra ::
  "string list \<times> (string \<times> string) list \<Rightarrow> string \<Rightarrow> (string list \<times> (string \<times> string) list) result" where
  "add_extra = (\<lambda>(names, env) v. bind_result (parse_environment_entry v) (\<lambda>(key, item).
     if key \<in> set names then Inl (Errorf ''provider environment entry %q duplicates %q'' [key])
     else if map_of env key \<noteq> None then Inl (Errorf ''provider environment entry %q conflicts with %q'' [key])
     else Inr (key # names, map_insert key item env)))"

definition merge_environment :: "string list \<Rightarrow> string list \<Rightarrow> string list result" where
  "merge_environment base extra =
     bind_result (for_each add_base [] base) (\<lambda>env.
     bind_result (for_each add_extra ([], env) extra) (\<lambda>(_, env'). Inr (environment_list env')))"

definition baseline_names :: "string list" where
  "baseline_names = [''PATH'', ''TMPDIR'', ''TMP'', ''TEMP'']"

definition add_baseline :: "(string \<Rightarrow> string option) \<Rightarrow> (string \<times> string) list \<Rightarrow> string \<Rightarrow> (string \<times> string) list" where
  "add_baseline lookup env key = (case lookup key of
     None \<Rightarrow> env
   | Some v \<Rightarrow> if v = [] \<or> map_of env key \<noteq> None then env else map_insert key v env)"

definition add_explicit ::
  "string list \<times> (string \<times> string) list \<Rightarrow> string \<Rightarrow> (string list \<times> (string \<times> string) list) result" where
  "add_explicit = (\<lambda>(names, env) v. bind_result (parse_environment_entry v) (\<lambda>(key, item).
     if key \<in> set names then Inl (Errorf ''provider environment entry %q duplicates %q'' [key])
     else Inr (key # names, map_insert key item env)))"

definition normalize_environment :: "(string \<Rightarrow> string option) \<Rightarrow> string list \<Rightarrow> string list result" where
  "normalize_environment lookup values =
     bind_result (for_each add_explicit ([], foldl (add_baseline lookup) [] baseline_names) values)
       (\<lambda>(_, env). Inr (environment_list env))"

section \<open>Bounded output\<close>

text \<open>A writer that fails beyond its limit, and one that drops what is beyond; chunks are written one by one.\<close>

record limited_writer =
  lw_buffer :: string
  lw_limit :: int
  lw_exceeded :: bool

definition limited_write :: "limited_writer \<Rightarrow> string \<Rightarrow> limited_writer \<times> int \<times> error option" where
  "limited_write w p =
     (if lw_exceeded w then (w, 0, Some (ErrorIs ErrOutputLimit ''provider stdout exceeds limit'' []))
      else let remaining = lw_limit w - int (length (lw_buffer w)) in
        if int (length p) \<le> remaining then (w\<lparr>lw_buffer := lw_buffer w @ p\<rparr>, int (length p), None)
        else (w\<lparr>lw_buffer := lw_buffer w @ take (nat remaining) p, lw_exceeded := True\<rparr>, max remaining 0,
              Some (ErrorIs ErrOutputLimit ''provider stdout exceeds limit'' [])))"

record capture_writer =
  cw_buffer :: string
  cw_limit :: int
  cw_truncated :: bool

definition capture_write :: "capture_writer \<Rightarrow> string \<Rightarrow> capture_writer \<times> int" where
  "capture_write w p =
     (let remaining = cw_limit w - int (length (cw_buffer w)) in
      (w\<lparr>cw_buffer := cw_buffer w @ take (nat remaining) p,
        cw_truncated := cw_truncated w \<or> int (length p) > remaining\<rparr>, int (length p)))"

text \<open>All chunks of a process; the copying of its output stops at the first error.\<close>

fun write_chunks :: "limited_writer \<Rightarrow> string list \<Rightarrow> limited_writer" where
  "write_chunks w [] = w"
| "write_chunks w (p # ps) = (case limited_write w p of
     (w', _, None) \<Rightarrow> write_chunks w' ps | (w', _, Some _) \<Rightarrow> w')"

definition capture_chunks :: "capture_writer \<Rightarrow> string list \<Rightarrow> capture_writer" where
  "capture_chunks w ps = foldl (\<lambda>u p. fst (capture_write u p)) w ps"

section \<open>The client\<close>

text \<open>An error of a call: an ordinary one, a failed process around one, or the structured error of the provider.\<close>

datatype host_error =
    Plain error
  | ProcessFailed string error string bool
  | ProviderFailed provider_error

record client =
  cl_max_message :: int
  cl_max_stderr :: int
  cl_environment :: "string list"

definition new_client :: "(string \<Rightarrow> string option) \<Rightarrow> int \<Rightarrow> int \<Rightarrow> string list \<Rightarrow> int \<Rightarrow> client result" where
  "new_client lookup max_message max_stderr environment wait_delay =
     bind_result (checked (first_error [
        fail_if (max_message < 0) (Errorf ''max message bytes must not be negative'' []),
        fail_if (max_stderr < 0) (Errorf ''max stderr bytes must not be negative'' []),
        fail_if (wait_delay < 0) (Errorf ''wait delay must not be negative'' [])]) ()) (\<lambda>_.
     bind_result (normalize_environment lookup environment) (\<lambda>env.
       Inr \<lparr>cl_max_message = (if max_message = 0 then default_max_message_bytes else max_message),
            cl_max_stderr = (if max_stderr = 0 then 65536 else max_stderr), cl_environment = env\<rparr>))"

text \<open>
  What the system does: whether a file exists and is a directory; the number of the next request; starting a
  process; letting it read its input; killing its tree; waiting for its end, with the chunks it wrote; and
  what \<open>Err()\<close> of the context returns.
\<close>

record 'w system =
  sy_stat :: "string \<Rightarrow> ('w, bool) io"
  sy_sequence :: "'w \<Rightarrow> 'w \<times> 64 word"
  sy_start :: "string \<Rightarrow> string list \<Rightarrow> ('w, unit) io"
  sy_release :: "string \<Rightarrow> 'w \<Rightarrow> 'w"
  sy_terminate :: "'w \<Rightarrow> 'w"
  sy_wait :: "'w \<Rightarrow> 'w \<times> error option \<times> string list \<times> string list"
  sy_context :: "'w \<Rightarrow> 'w \<times> error option"

record 'w call_options =
  co_environment :: "string list option"
  co_redactions :: "string list"
  co_started :: "('w, unit) io option"
  co_dispatched :: "('w, unit) io option"
  co_response :: "('w, unit) io option"

definition no_options :: "'w call_options" where
  "no_options = \<lparr>co_environment = None, co_redactions = [], co_started = None, co_dispatched = None, co_response = None\<rparr>"

definition plain :: "('w, 'a) io \<Rightarrow> ('w, host_error, 'a) act" where
  "plain m = (\<lambda>w. map_prod id (map_sum Plain id) (m w))"

definition validate_executable :: "'w system \<Rightarrow> string \<Rightarrow> ('w, string) io" where
  "validate_executable sys v =
     (if trim_space v = [] then io_fail (Errorf ''provider executable must not be empty'' [])
      else if \<not> valid_string v then io_fail (Errorf ''provider executable must be valid UTF-8'' [])
      else if \<not> is_abs v then io_fail (Errorf ''provider executable must be an absolute path'' [])
      else io_bind (io_wrap ''provider executable %q: %w'' [clean_path v] (sy_stat sys (clean_path v))) (\<lambda>is_directory.
        if is_directory then io_fail (Errorf ''provider executable %q is a directory'' [clean_path v])
        else io_return (clean_path v)))"

text \<open>A boundary the caller wants to hear of; when it fails, the process is cleaned up.\<close>

definition clean_up :: "'w system \<Rightarrow> string \<Rightarrow> 'w \<Rightarrow> 'w" where
  "clean_up sys input = (\<lambda>w. fst (sy_wait sys (sy_terminate sys (sy_release sys input w))))"

definition boundary :: "'w system \<Rightarrow> string \<Rightarrow> ('w, unit) io option \<Rightarrow> ('w, host_error, unit) act" where
  "boundary sys input callback = (case callback of
     None \<Rightarrow> io_return ()
   | Some f \<Rightarrow> (\<lambda>w. case f w of (w', Inr _) \<Rightarrow> (w', Inr ()) | (w', Inl err) \<Rightarrow> (clean_up sys input w', Inl (Plain err))))"

definition check_context :: "'w system \<Rightarrow> ('w, host_error, unit) act" where
  "check_context sys = (\<lambda>w. case sy_context sys w of (w', None) \<Rightarrow> (w', Inr ()) | (w', Some err) \<Rightarrow> (w', Inl (Plain err)))"

definition check_started_context :: "'w system \<Rightarrow> string \<Rightarrow> ('w, host_error, unit) act" where
  "check_started_context sys input = (\<lambda>w. case sy_context sys w of
     (w', None) \<Rightarrow> (w', Inr ()) | (w', Some err) \<Rightarrow> (clean_up sys input w', Inl (Plain err)))"

text \<open>\<open>strings.ToValidUTF8\<close> with the replacement character: one for every run of invalid bytes.\<close>

fun valid_chunks :: "bool \<Rightarrow> (nat option \<times> string) list \<Rightarrow> string" where
  "valid_chunks invalid [] = []"
| "valid_chunks invalid ((Some r, b) # cs) = b @ valid_chunks False cs"
| "valid_chunks invalid ((None, b) # cs) = (if invalid then [] else encode_rune 0xFFFD) @ valid_chunks True cs"

definition to_valid_utf8 :: "string \<Rightarrow> string" where
  "to_valid_utf8 s = valid_chunks False (rune_chunks s)"

text \<open>The output of the process, once it has ended and the context has not.\<close>

definition provider_output ::
  "client \<Rightarrow> string \<Rightarrow> string list \<Rightarrow> error option \<times> string list \<times> string list \<Rightarrow> host_error + string" where
  "provider_output c executable secrets = (\<lambda>(run_error, out, err).
     let stdout = write_chunks \<lparr>lw_buffer = [], lw_limit = cl_max_message c, lw_exceeded = False\<rparr> out;
         stderr = capture_chunks \<lparr>cw_buffer = [], cw_limit = cl_max_stderr c, cw_truncated = False\<rparr> err in
     if lw_exceeded stdout then Inl (Plain (ErrorIs ErrOutputLimit ''%w: maximum is %d bytes'' []))
     else (case run_error of
         Some e \<Rightarrow> Inl (ProcessFailed executable e (redact_text secrets (trim_space (to_valid_utf8 (cw_buffer stderr)))) (cw_truncated stderr))
       | None \<Rightarrow> Inr (lw_buffer stdout)))"

definition run_process ::
  "'w system \<Rightarrow> client \<Rightarrow> string \<Rightarrow> string \<Rightarrow> 'w call_options \<Rightarrow> ('w, host_error, string) act" where
  "run_process sys c executable input options =
     io_bind (\<lambda>w. case sy_start sys executable (case co_environment options of None \<Rightarrow> cl_environment c | Some e \<Rightarrow> e) w of
        (w', Inl err) \<Rightarrow> (sy_release sys input w', Inl (ProcessFailed executable err [] False))
      | (w', Inr _) \<Rightarrow> (w', Inr ())) (\<lambda>_.
     io_bind (boundary sys input (co_started options)) (\<lambda>_.
     io_bind (check_started_context sys input) (\<lambda>_.
     io_bind (boundary sys input (co_dispatched options)) (\<lambda>_.
     io_bind (\<lambda>w. case sy_wait sys (sy_release sys input w) of (w', r) \<Rightarrow> (w', Inr r)) (\<lambda>ended.
     io_bind (check_context sys) (\<lambda>_.
       io_lift (provider_output c executable (new_redactor (co_redactions options)) ended)))))))"

text \<open>\<open>callWithOptions\<close>, for one kind of answer: how its payload is read, checked and redacted.\<close>

definition call_with_options ::
  "'w system \<Rightarrow> decoders \<Rightarrow> member_order \<Rightarrow> client option \<Rightarrow> bool \<Rightarrow> string \<Rightarrow> protocol_operation \<Rightarrow> string result
   \<Rightarrow> (string \<Rightarrow> 'a result) \<Rightarrow> ('a \<Rightarrow> error option) \<Rightarrow> (string list \<Rightarrow> 'a \<Rightarrow> 'a) \<Rightarrow> 'w call_options
   \<Rightarrow> ('w, host_error, 'a) act" where
  "call_with_options sys dec order client context_nil executable operation payload fill validate redact options =
     (if context_nil then io_fail (Plain (Errorf ''context must not be nil'' []))
      else (case client of None \<Rightarrow> io_fail (Plain (Errorf ''provider client is not initialized'' []))
      | Some c \<Rightarrow>
        if cl_max_message c \<le> 0 \<or> cl_max_stderr c \<le> 0 then io_fail (Plain (Errorf ''provider client is not initialized'' []))
        else if \<not> protocol_operation_valid operation
        then io_fail (Plain (Errorf ''invalid provider operation %q'' [protocol_operation_text operation]))
        else io_bind (plain (validate_executable sys executable)) (\<lambda>path.
          io_bind (plain (io_lift payload)) (\<lambda>raw.
          io_bind (\<lambda>w. case sy_sequence sys w of (w', n) \<Rightarrow> (w', Inr n)) (\<lambda>number.
          let request = \<lparr>env_protocol_version = protocol_version, env_request_id = ''req-'' @ decimal (unat number),
                         env_operation = operation, env_payload = raw\<rparr>;
              secrets = new_redactor (co_redactions options) in
          io_bind (plain (io_lift (encode_request (cl_max_message c) request))) (\<lambda>input.
          io_bind (run_process sys c path input options) (\<lambda>stdout.
          io_bind (plain (io_wrap ''decode provider response: %w'' [] (io_lift (decode_response dec (cl_max_message c) stdout)))) (\<lambda>response.
          io_bind (plain (io_lift (checked (check_correlation response request) ()))) (\<lambda>_.
          io_bind (plain (case co_response options of None \<Rightarrow> io_return () | Some f \<Rightarrow> f)) (\<lambda>_.
          case (res_status response, res_error response) of
            (StatusError, Some e) \<Rightarrow> io_fail (ProviderFailed (redact_provider_error order secrets e))
          | _ \<Rightarrow> io_bind (plain (io_wrap ''decode provider payload: %w'' []
                   (io_lift (decode_payload fill validate (env_payload response))))) (\<lambda>x. io_return (redact secrets x))))))))))))"

definition client_describe ::
  "'w system \<Rightarrow> decoders \<Rightarrow> member_order \<Rightarrow> client option \<Rightarrow> bool \<Rightarrow> endpoint \<Rightarrow> ('w, host_error, describe_response) act" where
  "client_describe sys dec order c context_nil ep = call_with_options sys dec order c context_nil (ep_executable ep) OperationDescribe (Inr ''{}'')
     (dec_describe_response dec) describe_response_validate (\<lambda>_ r. r) no_options"

definition client_plan ::
  "'w system \<Rightarrow> decoders \<Rightarrow> member_order \<Rightarrow> client option \<Rightarrow> bool \<Rightarrow> endpoint \<Rightarrow> plan_request \<Rightarrow> ('w, host_error, plan_response) act" where
  "client_plan sys dec order c context_nil ep rq = call_with_options sys dec order c context_nil (ep_executable ep) OperationPlan
     (encode_payload plan_request_validate plan_request_text rq)
     (dec_plan_response dec) plan_response_validate (\<lambda>_ r. r) no_options"

definition client_apply ::
  "'w system \<Rightarrow> decoders \<Rightarrow> member_order \<Rightarrow> client option \<Rightarrow> bool \<Rightarrow> string \<Rightarrow> apply_request \<Rightarrow> 'w call_options
   \<Rightarrow> ('w, host_error, distribution_result) act" where
  "client_apply sys dec order c context_nil executable rq options = call_with_options sys dec order c context_nil executable OperationApply
     (encode_payload apply_request_validate apply_request_text rq)
     (dec_result dec) distribution_result_validate (redact_distribution_result order) options"

definition client_reconcile ::
  "'w system \<Rightarrow> decoders \<Rightarrow> member_order \<Rightarrow> client option \<Rightarrow> bool \<Rightarrow> string \<Rightarrow> reconcile_request \<Rightarrow> 'w call_options
   \<Rightarrow> ('w, host_error, distribution_result) act" where
  "client_reconcile sys dec order c context_nil executable rq options = call_with_options sys dec order c context_nil executable OperationReconcile
     (encode_payload reconcile_request_validate reconcile_request_text rq)
     (dec_result dec) distribution_result_validate (redact_distribution_result order) options"

end
