(* ===== verification/Credentials.thy ===== *)
theory Credentials
  imports Domain_Plan Go_Io
begin

text \<open>
  \<open>internal/credentials\<close>: credential material, the resolvers and their chain, the credential requirements of a
  target, and \<open>SelectSources\<close>, which chooses the environment variable each credential is read from.
  Maps are association lists; a map the code ranges over is given in the order it is ranged over.
\<close>

section \<open>Material\<close>

record material =
  mat_value :: string
  mat_released :: bool

definition new_material :: "string \<Rightarrow> material result" where
  "new_material value =
     (if value = [] then Inl (ErrorIs ErrUnavailable ''credential is unavailable'' [])
      else Inr \<lparr>mat_value = value, mat_released = False\<rparr>)"

definition material_bytes :: "material option \<Rightarrow> string result" where
  "material_bytes m = (case m of
     None \<Rightarrow> Inl (ErrorIs ErrReleased ''credential material is released'' [])
   | Some x \<Rightarrow> if mat_released x then Inl (ErrorIs ErrReleased ''credential material is released'' []) else Inr (mat_value x))"

text \<open>The bytes are overwritten and dropped.\<close>

definition material_release :: "material \<Rightarrow> material" where
  "material_release m = (if mat_released m then m else \<lparr>mat_value = [], mat_released = True\<rparr>)"

section \<open>Names of environment variables\<close>

definition name_start :: "char \<Rightarrow> bool" where
  "name_start c \<longleftrightarrow> c = CHR ''_'' \<or> (65 \<le> byte c \<and> byte c \<le> 90) \<or> (97 \<le> byte c \<and> byte c \<le> 122)"

definition name_part :: "char \<Rightarrow> bool" where
  "name_part c \<longleftrightarrow> name_start c \<or> (48 \<le> byte c \<and> byte c \<le> 57)"

definition valid_environment_name :: "string \<Rightarrow> bool" where
  "valid_environment_name v \<longleftrightarrow> (case v of [] \<Rightarrow> False | c # cs \<Rightarrow> name_start c \<and> list_all name_part cs)"

text \<open>\<open>strings.ToUpper\<close> of such a name.\<close>

definition upper_name :: "string \<Rightarrow> string" where
  "upper_name v = map (\<lambda>c. if 97 \<le> byte c \<and> byte c \<le> 122 then char_of (byte c - 32) else c) v"

section \<open>Resolvers\<close>

type_synonym 'w credential_resolver = "credential_ref \<Rightarrow> ('w, material) io"

text \<open>\<open>ctx\<close> is \<open>None\<close> for a nil context and otherwise what its \<open>Err()\<close> returns.\<close>

definition validate_resolve :: "error option option \<Rightarrow> credential_ref \<Rightarrow> error option" where
  "validate_resolve ctx ref = (case ctx of
     None \<Rightarrow> Some (Errorf ''context must not be nil'' [])
   | Some (Some err) \<Rightarrow> Some err
   | Some None \<Rightarrow> fail_if (\<not> valid_identifier ref) (Errorf ''credential reference is invalid'' []))"

definition new_static_resolver :: "(credential_ref \<times> string) list \<Rightarrow> (credential_ref \<times> string) list result" where
  "new_static_resolver values = for_each (\<lambda>copied (ref, value).
     if \<not> valid_identifier ref then Inl (Errorf ''credential reference is invalid'' [])
     else if value = [] then Inl (ErrorIs ErrUnavailable ''%w: %q'' [ref])
     else Inr (map_insert ref value copied)) [] values"

definition static_resolve :: "error option option \<Rightarrow> (credential_ref \<times> string) list \<Rightarrow> 'w credential_resolver" where
  "static_resolve ctx values ref = io_lift (
     bind_result (checked (validate_resolve ctx ref) ()) (\<lambda>_.
     case map_of values ref of
       None \<Rightarrow> Inl (ErrorIs ErrNotFound ''%w: %q'' [ref])
     | Some value \<Rightarrow> new_material value))"

definition new_environment_resolver :: "(credential_ref \<times> string) list \<Rightarrow> (credential_ref \<times> string) list result" where
  "new_environment_resolver sources = for_each (\<lambda>copied (ref, source).
     if \<not> valid_identifier ref then Inl (Errorf ''credential reference is invalid'' [])
     else if \<not> valid_environment_name source then Inl (Errorf ''credential environment source is invalid'' [])
     else Inr (map_insert ref source copied)) [] sources"

text \<open>\<open>lookup\<close> is \<open>os.LookupEnv\<close>.\<close>

definition environment_resolve ::
  "error option option \<Rightarrow> ('w \<Rightarrow> string \<Rightarrow> string option) \<Rightarrow> (credential_ref \<times> string) list \<Rightarrow> 'w credential_resolver" where
  "environment_resolve ctx lookup sources ref = (\<lambda>w. (w,
     bind_result (checked (validate_resolve ctx ref) ()) (\<lambda>_.
     case map_of sources ref of
       None \<Rightarrow> Inl (ErrorIs ErrNotFound ''%w: %q'' [ref])
     | Some source \<Rightarrow>
         if (case lookup w source of None \<Rightarrow> True | Some v \<Rightarrow> v = []) then Inl (ErrorIs ErrUnavailable ''%w: %q'' [ref])
         else new_material (the (lookup w source)))))"

definition new_chain :: "'w credential_resolver option list \<Rightarrow> 'w credential_resolver list result" where
  "new_chain resolvers =
     (if resolvers = [] then Inl (Errorf ''credential resolver chain must not be empty'' [])
      else for_each (\<lambda>copied r. case r of
        None \<Rightarrow> Inl (Errorf ''credential resolver must not be nil'' [])
      | Some f \<Rightarrow> Inr (copied @ [f])) [] resolvers)"

fun ask_chain :: "'w credential_resolver list \<Rightarrow> 'w credential_resolver" where
  "ask_chain [] ref = io_fail (ErrorIs ErrNotFound ''%w: %q'' [ref])"
| "ask_chain (r # rs) ref = (\<lambda>w. case r ref w of
     (w', Inr m) \<Rightarrow> (w', Inr m)
   | (w', Inl err) \<Rightarrow> if errors_is err ErrNotFound then ask_chain rs ref w' else (w', Inl err))"

definition chain_resolve :: "error option option \<Rightarrow> 'w credential_resolver list \<Rightarrow> 'w credential_resolver" where
  "chain_resolve ctx resolvers ref =
     io_bind (io_lift (checked (validate_resolve ctx ref) ())) (\<lambda>_.
     if resolvers = [] then io_fail (Errorf ''credential resolver chain is not initialized'' [])
     else ask_chain resolvers ref)"

section \<open>Requirements\<close>

record credential_requirement =
  cq_ref :: credential_ref
  cq_environment :: string

text \<open>\<open>field\<close> reads the member \<open>environment\<close> of the metadata, empty when it is absent, or fails.\<close>

type_synonym environment_field = "string \<Rightarrow> string result"

definition parse_requirement :: "environment_field \<Rightarrow> requirement \<Rightarrow> credential_requirement result" where
  "parse_requirement field v =
     (if req_kind v \<noteq> ''credential'' then Inl (Errorf ''requirement is not a credential requirement'' [])
      else bind_result (new_credential_ref (req_name v)) (\<lambda>ref.
        if req_metadata v = [] then Inl (Errorf ''credential requirement %q is missing environment metadata'' [ref])
        else (case field (req_metadata v) of
            Inl _ \<Rightarrow> Inl (Errorf ''credential requirement %q metadata is invalid'' [ref])
          | Inr environment \<Rightarrow>
              if \<not> valid_environment_name environment
              then Inl (Errorf ''credential requirement %q environment is invalid'' [ref])
              else Inr \<lparr>cq_ref = ref, cq_environment = environment\<rparr>)))"

section \<open>SelectSources\<close>

record usage =
  us_provider :: string
  us_environment :: string

record usages =
  ug_uses :: "(credential_ref \<times> usage) list"
  ug_targets :: "(string \<times> target_id list) list"

definition use_requirement :: "environment_field \<Rightarrow> target \<Rightarrow> usages \<Rightarrow> requirement \<Rightarrow> usages result" where
  "use_requirement field t st raw =
     (if req_kind raw \<noteq> ''credential'' then Inr st
      else (case parse_requirement field raw of
          Inl err \<Rightarrow> Inl (wrap_error ''target %q: %w'' [tgt_id t] err)
        | Inr q \<Rightarrow>
            let provider = provider_name (tgt_provider t);
                use = \<lparr>us_provider = provider, us_environment = cq_environment q\<rparr>;
                targets = (case map_of (ug_targets st) provider of None \<Rightarrow> [] | Some ts \<Rightarrow> ts) in
            if (case map_of (ug_uses st) (cq_ref q) of None \<Rightarrow> False | Some previous \<Rightarrow> previous \<noteq> use)
            then Inl (ErrorIs ErrSourceConflict ''%w: reference %q requires distinct references'' [cq_ref q])
            else Inr \<lparr>ug_uses = map_insert (cq_ref q) use (ug_uses st),
                      ug_targets = map_insert provider (List.insert (tgt_id t) targets) (ug_targets st)\<rparr>))"

definition use_target :: "environment_field \<Rightarrow> usages \<Rightarrow> target \<Rightarrow> usages result" where
  "use_target field st t = for_each (use_requirement field t) st (tgt_requirements t)"

definition mapping_error :: "string \<Rightarrow> string \<Rightarrow> (credential_ref \<times> usage) list \<Rightarrow> credential_ref \<times> string \<Rightarrow> error option" where
  "mapping_error invalid unknown uses = (\<lambda>(ref, environment). first_error [
     fail_if (\<not> valid_identifier ref \<or> \<not> valid_environment_name environment) (Errorf invalid [ref]),
     fail_if (map_of uses ref = None) (Errorf unknown [ref])])"

definition default_source :: "string \<Rightarrow> string \<Rightarrow> string" where
  "default_source provider environment =
     (let key = provider @ ''/'' @ environment in
      if key = ''npm/DISTROPLANE_NPM_TOKEN'' then ''NPM_TOKEN''
      else if key = ''sdkman/DISTROPLANE_SDKMAN_VENDOR_EMAIL'' then ''SDKMAN_VENDOR_EMAIL''
      else if key = ''sdkman/DISTROPLANE_SDKMAN_VENDOR_PASSWORD'' then ''SDKMAN_VENDOR_PASSWORD''
      else if key = ''sdkman/DISTROPLANE_SDKMAN_CONSUMER_KEY'' then ''SDKMAN_CONSUMER_KEY''
      else if key = ''sdkman/DISTROPLANE_SDKMAN_CONSUMER_TOKEN'' then ''SDKMAN_CONSUMER_TOKEN''
      else if key = ''homebrew/DISTROPLANE_HOMEBREW_TOKEN'' then ''HOMEBREW_GITHUB_TOKEN''
      else if key = ''winget/DISTROPLANE_WINGET_TOKEN'' then ''WINGET_GITHUB_TOKEN''
      else [])"

definition chosen_source ::
  "usages \<Rightarrow> (credential_ref \<times> string) list \<Rightarrow> (credential_ref \<times> string) list \<Rightarrow> string set \<Rightarrow> credential_ref \<times> usage \<Rightarrow> string" where
  "chosen_source st configured explicit trusted = (\<lambda>(ref, use).
     case map_of explicit ref of
       Some source \<Rightarrow> source
     | None \<Rightarrow>
        (case map_of configured ref of
           Some source \<Rightarrow> source
         | None \<Rightarrow>
             if us_provider use \<in> trusted \<and> length (case map_of (ug_targets st) (us_provider use) of None \<Rightarrow> [] | Some ts \<Rightarrow> ts) = 1
             then default_source (us_provider use) (us_environment use) else []))"

text \<open>\<open>owners\<close> keeps the reference that has taken a variable, whatever the case of its name.\<close>

definition select_source ::
  "(credential_ref \<times> usage \<Rightarrow> string) \<Rightarrow> (credential_ref \<times> string) list \<times> (string \<times> credential_ref) list \<Rightarrow> credential_ref \<times> usage
   \<Rightarrow> ((credential_ref \<times> string) list \<times> (string \<times> credential_ref) list) result" where
  "select_source pick = (\<lambda>(sources, owners). \<lambda>(ref, use).
     let source = pick (ref, use); key = upper_name source in
     if source = [] then Inr (sources, owners)
     else if (case map_of owners key of None \<Rightarrow> False | Some other \<Rightarrow> other \<noteq> ref)
     then Inl (ErrorIs ErrAmbiguousSource ''%w: references %q and %q select the same environment source'' [ref])
     else Inr (map_insert ref source sources, map_insert key ref owners))"

definition select_sources ::
  "environment_field \<Rightarrow> target list \<Rightarrow> (credential_ref \<times> string) list \<Rightarrow> (credential_ref \<times> string) list \<Rightarrow> string set
   \<Rightarrow> (credential_ref \<times> string) list result" where
  "select_sources field targets configured explicit trusted =
     bind_result (for_each (use_target field) \<lparr>ug_uses = [], ug_targets = []\<rparr> targets) (\<lambda>st.
     bind_result (checked (first_error (map (mapping_error ''invalid explicit credential mapping''
        ''explicit credential reference %q is not required by the plan'' (ug_uses st)) explicit)) ()) (\<lambda>_.
     bind_result (checked (first_error (map (mapping_error ''invalid configured source for reference %q''
        ''configured credential reference %q is not required by the plan'' (ug_uses st)) configured)) ()) (\<lambda>_.
     bind_result (for_each (select_source (chosen_source st configured explicit trusted)) ([], []) (sort_key fst (ug_uses st)))
       (\<lambda>(sources, _). Inr sources))))"

section \<open>What is selected\<close>

text \<open>The use that a requirement makes of a reference.\<close>

definition credential_use :: "environment_field \<Rightarrow> target \<times> requirement \<Rightarrow> (credential_ref \<times> usage) option" where
  "credential_use field = (\<lambda>(t, raw). if req_kind raw \<noteq> ''credential'' then None
     else (case parse_requirement field raw of Inl _ \<Rightarrow> None
           | Inr q \<Rightarrow> Some (cq_ref q, \<lparr>us_provider = provider_name (tgt_provider t), us_environment = cq_environment q\<rparr>)))"

definition usages_of :: "environment_field \<Rightarrow> (target \<times> requirement) set \<Rightarrow> usages \<Rightarrow> bool" where
  "usages_of field S st \<longleftrightarrow> distinct (map fst (ug_uses st))
     \<and> (\<forall>ref use. map_of (ug_uses st) ref = Some use \<longleftrightarrow> (\<exists>p \<in> S. credential_use field p = Some (ref, use)))
     \<and> (\<forall>prov. let ids = (case map_of (ug_targets st) prov of None \<Rightarrow> [] | Some ts \<Rightarrow> ts) in distinct ids
          \<and> set ids = {tgt_id t | t raw ref use. (t, raw) \<in> S \<and> credential_use field (t, raw) = Some (ref, use) \<and> us_provider use = prov})"

lemma use_requirement_usages:
  assumes "use_requirement field t st raw = Inr st'" and "usages_of field S st"
  shows "usages_of field (insert (t, raw) S) st'"
proof (cases "req_kind raw = ''credential''")
  case False
  then have "st' = st" "credential_use field (t, raw) = None" using assms(1) by (simp_all add: use_requirement_def credential_use_def)
  moreover from this(2) have "(\<exists>q \<in> insert (t, raw) S. credential_use field q = Some x) = (\<exists>q \<in> S. credential_use field q = Some x)" for x
    by auto
  moreover from calculation(2) have "{tgt_id u | u r ref w. (u, r) \<in> insert (t, raw) S \<and> credential_use field (u, r) = Some (ref, w) \<and> us_provider w = prov}
      = {tgt_id u | u r ref w. (u, r) \<in> S \<and> credential_use field (u, r) = Some (ref, w) \<and> us_provider w = prov}" for prov
    by auto
  ultimately show ?thesis using assms(2) unfolding usages_of_def by simp
next
  case True
  let ?prov = "provider_name (tgt_provider t)"
  obtain q where q: "parse_requirement field raw = Inr q"
    using assms(1) True by (auto simp: use_requirement_def split: sum.splits)
  define use where "use = \<lparr>us_provider = ?prov, us_environment = cq_environment q\<rparr>"
  define ids where "ids = (case map_of (ug_targets st) ?prov of None \<Rightarrow> [] | Some ts \<Rightarrow> ts)"
  have cu: "credential_use field (t, raw) = Some (cq_ref q, use)" by (simp add: credential_use_def True q use_def)
  have same: "map_of (ug_uses st) (cq_ref q) = None \<or> map_of (ug_uses st) (cq_ref q) = Some use"
    and st': "st' = \<lparr>ug_uses = map_insert (cq_ref q) use (ug_uses st), ug_targets = map_insert ?prov (List.insert (tgt_id t) ids) (ug_targets st)\<rparr>"
    using assms(1) True q by (auto simp: use_requirement_def Let_def use_def ids_def split: if_splits option.splits)
  have "map_of (ug_uses st') ref = Some u \<longleftrightarrow> (\<exists>p \<in> insert (t, raw) S. credential_use field p = Some (ref, u))" for ref u
  proof -
    have old: "(\<exists>p \<in> S. credential_use field p = Some (ref, u)) \<longleftrightarrow> map_of (ug_uses st) ref = Some u"
      using assms(2) unfolding usages_of_def by blast
    have "(\<exists>p \<in> insert (t, raw) S. credential_use field p = Some (ref, u)) \<longleftrightarrow> (ref = cq_ref q \<and> u = use) \<or> map_of (ug_uses st) ref = Some u"
      unfolding old [symmetric] using cu by auto
    then show ?thesis using same by (auto simp: st' simp del: map_of_eq_Some_iff)
  qed
  moreover have "let ids = (case map_of (ug_targets st') prov of None \<Rightarrow> [] | Some ts \<Rightarrow> ts) in distinct ids
      \<and> set ids = {tgt_id u | u r ref w. (u, r) \<in> insert (t, raw) S \<and> credential_use field (u, r) = Some (ref, w) \<and> us_provider w = prov}" for prov
  proof (cases "prov = ?prov")
    case True
    have "distinct ids" "set ids = {tgt_id u | u r ref w. (u, r) \<in> S \<and> credential_use field (u, r) = Some (ref, w) \<and> us_provider w = ?prov}"
      using assms(2) unfolding usages_of_def Let_def ids_def by blast+
    moreover have "us_provider use = ?prov" by (simp add: use_def)
    with cu have "{tgt_id u | u r ref w. (u, r) \<in> insert (t, raw) S \<and> credential_use field (u, r) = Some (ref, w) \<and> us_provider w = ?prov}
        = insert (tgt_id t) {tgt_id u | u r ref w. (u, r) \<in> S \<and> credential_use field (u, r) = Some (ref, w) \<and> us_provider w = ?prov}"
      by blast
    ultimately show ?thesis using True by (simp add: st' del: map_of_eq_Some_iff)
  next
    case False
    have "{tgt_id u | u r ref w. (u, r) \<in> insert (t, raw) S \<and> credential_use field (u, r) = Some (ref, w) \<and> us_provider w = prov}
        = {tgt_id u | u r ref w. (u, r) \<in> S \<and> credential_use field (u, r) = Some (ref, w) \<and> us_provider w = prov}"
      using False cu by (auto simp: use_def)
    then show ?thesis using assms(2) False by (simp add: st' usages_of_def Let_def del: map_of_eq_Some_iff)
  qed
  moreover have "distinct (map fst (ug_uses st'))" using assms(2) by (simp add: st' usages_of_def)
  ultimately show ?thesis unfolding usages_of_def by blast
qed

lemma use_target_usages:
  assumes "use_target field st t = Inr st'" and "usages_of field S st"
  shows "usages_of field (S \<union> {t} \<times> set (tgt_requirements t)) st'"
proof -
  have "for_each (use_requirement field t) st raws = Inr st' \<Longrightarrow> usages_of field S st \<Longrightarrow>
      usages_of field (S \<union> {t} \<times> set raws) st'" for raws S st
  proof (induction raws arbitrary: S st)
    case (Cons raw raws)
    then obtain st1 where s: "use_requirement field t st raw = Inr st1" "for_each (use_requirement field t) st1 raws = Inr st'"
      by (auto simp: bind_result_Inr)
    from Cons.IH [OF s(2) use_requirement_usages [OF s(1) Cons.prems(2)]] show ?case by simp
  qed simp
  with assms show ?thesis by (simp add: use_target_def)
qed

definition requirement_pairs :: "target list \<Rightarrow> (target \<times> requirement) set" where
  "requirement_pairs ts = {(t, raw). t \<in> set ts \<and> raw \<in> set (tgt_requirements t)}"

lemma use_targets_usages:
  assumes "for_each (use_target field) \<lparr>ug_uses = [], ug_targets = []\<rparr> ts = Inr st"
  shows "usages_of field (requirement_pairs ts) st"
proof -
  have "for_each (use_target field) st0 ts = Inr st \<Longrightarrow> usages_of field S st0 \<Longrightarrow> usages_of field (S \<union> requirement_pairs ts) st" for S st0
  proof (induction ts arbitrary: S st0)
    case (Cons t ts)
    then obtain st1 where s: "use_target field st0 t = Inr st1" "for_each (use_target field) st1 ts = Inr st"
      by (auto simp: bind_result_Inr)
    have "S \<union> {t} \<times> set (tgt_requirements t) \<union> requirement_pairs ts = S \<union> requirement_pairs (t # ts)"
      by (auto simp: requirement_pairs_def)
    with Cons.IH [OF s(2) use_target_usages [OF s(1) Cons.prems(2)]] show ?case by simp
  qed (simp add: requirement_pairs_def)
  moreover have "usages_of field {} \<lparr>ug_uses = [], ug_targets = []\<rparr>" by (simp add: usages_of_def)
  ultimately show ?thesis using assms by fastforce
qed

text \<open>Every selected variable has one owner.\<close>

definition owned :: "(credential_ref \<times> usage \<Rightarrow> string) \<Rightarrow> (credential_ref \<times> usage) set
    \<Rightarrow> (credential_ref \<times> string) list \<times> (string \<times> credential_ref) list \<Rightarrow> bool" where
  "owned pick S = (\<lambda>(sources, owners).
     (\<forall>(ref, source) \<in> set sources. source \<noteq> [] \<and> (\<exists>use. (ref, use) \<in> S \<and> source = pick (ref, use)) \<and> map_of owners (upper_name source) = Some ref)
     \<and> (\<forall>(ref, use) \<in> S. pick (ref, use) \<noteq> [] \<longrightarrow> ref \<in> fst ` set sources))"

lemma set_map_insert_subset: "set (map_insert k v m) \<subseteq> insert (k, v) (set m)"
  by (induction m) (auto split: if_splits)

lemma select_source_owned:
  assumes "select_source pick st p = Inr st'" and "owned pick S st"
  shows "owned pick (insert p S) st'"
proof -
  obtain ref use sources owners where p: "p = (ref, use)" "st = (sources, owners)" by (cases p; cases st)
  let ?source = "pick (ref, use)" and ?key = "upper_name (pick (ref, use))"
  show ?thesis
  proof (cases "?source = []")
    case True
    with assms show ?thesis by (auto simp: select_source_def p owned_def)
  next
    case False
    have same: "map_of owners ?key = None \<or> map_of owners ?key = Some ref"
      and st': "st' = (map_insert ref ?source sources, map_insert ?key ref owners)"
      using assms(1) False by (auto simp: select_source_def p Let_def split: if_splits option.splits)
    have keys: "fst ` set (map_insert ref ?source sources) = insert ref (fst ` set sources)" using keys_map_insert [of ref ?source sources] by simp
    have kept: "map_of (map_insert ?key ref owners) (upper_name s) = Some r" if "map_of owners (upper_name s) = Some r" for s r
      using that same by (auto simp del: map_of_eq_Some_iff)
    have old: "\<forall>(r, s) \<in> set sources. s \<noteq> [] \<and> (\<exists>u. (r, u) \<in> S \<and> s = pick (r, u)) \<and> map_of owners (upper_name s) = Some r"
      "\<forall>(r, u) \<in> S. pick (r, u) \<noteq> [] \<longrightarrow> r \<in> fst ` set sources"
      using assms(2) by (simp_all add: owned_def p)
    have "s \<noteq> [] \<and> (\<exists>u. (r, u) \<in> insert (ref, use) S \<and> s = pick (r, u)) \<and> map_of (map_insert ?key ref owners) (upper_name s) = Some r"
      if "(r, s) \<in> set (map_insert ref ?source sources)" for r s
    proof (cases "(r, s) = (ref, ?source)")
      case True
      with False show ?thesis by (auto simp del: map_of_eq_Some_iff)
    next
      case False
      then have "(r, s) \<in> set sources" using that set_map_insert_subset [of ref ?source sources] by blast
      with old(1) kept show ?thesis by (auto simp del: map_of_map_insert map_of_eq_Some_iff)
    qed
    moreover have "r \<in> fst ` set (map_insert ref ?source sources)" if "(r, u) \<in> insert (ref, use) S" "pick (r, u) \<noteq> []" for r u
      using that old(2) unfolding keys by auto
    ultimately show ?thesis unfolding owned_def p st' by blast
  qed
qed

lemma select_sources_owned:
  "for_each (select_source pick) st ps = Inr st' \<Longrightarrow> owned pick S st \<Longrightarrow> owned pick (S \<union> set ps) st'"
proof (induction ps arbitrary: S st)
  case (Cons p ps)
  then obtain st1 where s: "select_source pick st p = Inr st1" "for_each (select_source pick) st1 ps = Inr st'"
    by (auto simp: bind_result_Inr)
  from Cons.IH [OF s(2) select_source_owned [OF s(1) Cons.prems(2)]] show ?case by simp
qed simp

end
