(* ===== verification/Host_Driver.thy ===== *)
theory Host_Driver
  imports Host_Client Credentials Planner_Hash Executor_Task
begin

text \<open>
  \<open>internal/providerhost/driver.go\<close>: the driver that the executor calls, over the client and the credential
  resolvers.  A context is the invocation that has been prepared in it, if any.
\<close>

section \<open>The driver\<close>

record provider_binding =
  pb_executable :: string
  pb_digest :: digest

record 'w host_driver =
  hd_client :: "client option"
  hd_resolver :: "'w credential_resolver option"
  hd_bindings :: "(provider_ref \<times> provider_binding) list"

text \<open>What the driver uses: the system, the decoders, the hasher of files, and the texts of \<open>fmt\<close>.\<close>

record 'w services =
  sv_system :: "'w system"
  sv_decoders :: decoders
  sv_order :: member_order
  sv_hash :: "'w hasher"
  sv_field :: environment_field
  sv_error_text :: "error \<Rightarrow> string"
  sv_quote :: "string \<Rightarrow> string"

datatype driver_failure = Failed host_error | Reported driver_error

definition driver_report :: "string \<Rightarrow> string \<Rightarrow> bool \<Rightarrow> driver_failure" where
  "driver_report code message blocked = Reported \<lparr>de_code = code, de_message = message, de_retryable = False,
     de_ambiguous = False, de_blocked = blocked\<rparr>"

definition failing :: "('w, 'a) io \<Rightarrow> ('w, driver_failure, 'a) act" where
  "failing m = (\<lambda>w. map_prod id (map_sum (\<lambda>e. Failed (Plain e)) id) (m w))"

definition bind_provider ::
  "'w services \<Rightarrow> (provider_ref \<times> provider_binding) list \<Rightarrow> provider_ref \<times> string \<times> digest
   \<Rightarrow> ('w, (provider_ref \<times> provider_binding) list) io" where
  "bind_provider sv bound = (\<lambda>(provider, executable, dig).
     if \<not> provider_ref_valid provider then io_fail (Errorf ''provider binding is invalid'' [])
     else io_bind (validate_executable (sv_system sv) executable) (\<lambda>path.
       io_bind (if digest_set dig
          then io_bind (io_wrap ''hash provider %q@%q executable: %w'' [provider_name provider, provider_version provider] (sv_hash sv path)) (\<lambda>(actual, _).
            if actual \<noteq> dig
            then io_fail (Errorf ''provider %q@%q executable digest does not match plan'' [provider_name provider, provider_version provider])
            else io_return ())
          else io_return ()) (\<lambda>_.
       if map_of bound provider \<noteq> None
       then io_fail (Errorf ''duplicate provider binding %q@%q'' [provider_name provider, provider_version provider])
       else io_return (map_insert provider \<lparr>pb_executable = path, pb_digest = dig\<rparr> bound))))"

definition new_driver ::
  "'w services \<Rightarrow> client option \<Rightarrow> 'w credential_resolver option \<Rightarrow> (provider_ref \<times> string \<times> digest) list
   \<Rightarrow> ('w, 'w host_driver) io" where
  "new_driver sv client resolver bindings =
     (if client = None then io_fail (Errorf ''provider client must not be nil'' [])
      else io_bind (io_each (bind_provider sv) [] bindings) (\<lambda>bound.
        io_return \<lparr>hd_client = client, hd_resolver = resolver, hd_bindings = bound\<rparr>))"

definition new_driver_with_credentials ::
  "'w services \<Rightarrow> client option \<Rightarrow> 'w credential_resolver option \<Rightarrow> (provider_ref \<times> string \<times> digest) list
   \<Rightarrow> ('w, 'w host_driver) io" where
  "new_driver_with_credentials sv client resolver bindings =
     (if resolver = None then io_fail (Errorf ''credential resolver must not be nil'' [])
      else new_driver sv client resolver bindings)"

section \<open>Checks of a request\<close>

definition validate_driver_request :: "'w host_driver option \<Rightarrow> bool \<Rightarrow> request \<Rightarrow> error option" where
  "validate_driver_request d context_nil rq = first_error [
     fail_if context_nil (Errorf ''context must not be nil'' []),
     fail_if (case d of None \<Rightarrow> True | Some x \<Rightarrow> hd_client x = None) (Errorf ''provider driver is not initialized'' []),
     fail_if (\<not> valid_identifier (rq_plan_id rq)) (Errorf ''plan ID is invalid'' []),
     fail_if (\<not> valid_identifier (rq_run_id rq)) (Errorf ''run ID is invalid'' []),
     fail_if (rq_attempt rq = 0) (Errorf ''attempt must be greater than zero'' []),
     fail_if (\<not> valid_identifier (op_id (rq_operation rq)) \<or> \<not> valid_identifier (op_target_id (rq_operation rq))
        \<or> \<not> provider_ref_valid (op_provider (rq_operation rq)) \<or> \<not> json_value_valid (op_provider_payload (rq_operation rq)))
       (Errorf ''operation is invalid'' []),
     first_error (map (\<lambda>q. fail_if (\<not> requirement_valid q) (Errorf ''requirement is invalid'' [])) (rq_requirements rq))]"

fun capability_for :: "driver_operation \<Rightarrow> capability" where
  "capability_for DriverApply = CapabilityApply"
| "capability_for DriverReconcile = CapabilityReconcile"

definition resolve_binding :: "'w host_driver \<Rightarrow> provider_ref \<Rightarrow> provider_binding result" where
  "resolve_binding d provider = (case map_of (hd_bindings d) provider of
     None \<Rightarrow> Inl (Errorf ''provider %q@%q is not bound'' [provider_name provider, provider_version provider])
   | Some b \<Rightarrow> Inr b)"

definition verify_provider_executable ::
  "'w services \<Rightarrow> provider_binding \<Rightarrow> provider_ref \<Rightarrow> ('w, driver_failure, unit) act" where
  "verify_provider_executable sv b provider =
     (if \<not> digest_set (pb_digest b) then io_return ()
      else io_bind (failing (io_wrap ''hash provider %q@%q executable: %w'' [provider_name provider, provider_version provider]
              (sv_hash sv (pb_executable b)))) (\<lambda>(actual, _).
        if actual \<noteq> pb_digest b
        then io_fail (driver_report ''PROVIDER_EXECUTABLE_CHANGED'' (''provider '' @ sv_quote sv (provider_name provider) @ ''@''
               @ sv_quote sv (provider_version provider) @ '' executable digest does not match plan'') False)
        else io_return ()))"

text \<open>\<open>mapError\<close>.\<close>

fun map_host_error :: "host_error \<Rightarrow> driver_failure" where
  "map_host_error (ProviderFailed e) = Reported \<lparr>de_code = error_code_text (pe_code e), de_message = pe_message e,
     de_retryable = pe_retryable e, de_ambiguous = (pe_code e = ErrorAmbiguousOutcome), de_blocked = False\<rparr>"
| "map_host_error e = Failed e"

definition mapping :: "('w, host_error, 'a) act \<Rightarrow> ('w, driver_failure, 'a) act" where
  "mapping m = (\<lambda>w. map_prod id (map_sum map_host_error id) (m w))"

definition verify_description ::
  "'w services \<Rightarrow> provider_ref \<Rightarrow> capability \<Rightarrow> describe_response \<Rightarrow> driver_failure option" where
  "verify_description sv provider cap description =
     (if pi_name (dr_provider description) \<noteq> provider_name provider \<or> pi_version (dr_provider description) \<noteq> provider_version provider
      then Some (driver_report ''PROVIDER_IDENTITY_MISMATCH'' (''provider reported '' @ sv_quote sv (pi_name (dr_provider description)) @ ''@''
             @ sv_quote sv (pi_version (dr_provider description)) @ '', expected '' @ sv_quote sv (provider_name provider) @ ''@''
             @ sv_quote sv (provider_version provider)) False)
      else if protocol_version \<notin> set (dr_protocol_versions description)
      then Some (driver_report ''PROVIDER_PROTOCOL_MISMATCH'' (''provider does not support protocol version '' @ sv_quote sv protocol_version) False)
      else if cap \<notin> set (dr_capabilities description)
      then Some (driver_report ''PROVIDER_CAPABILITY_MISMATCH'' (''provider does not support capability '' @ sv_quote sv (capability_text cap)) False)
      else None)"

definition verify_provider ::
  "'w services \<Rightarrow> 'w host_driver \<Rightarrow> string \<Rightarrow> provider_ref \<Rightarrow> capability \<Rightarrow> ('w, driver_failure, unit) act" where
  "verify_provider sv d executable provider cap =
     io_bind (mapping (client_describe (sv_system sv) (sv_decoders sv) (sv_order sv) (hd_client d) False \<lparr>ep_name = [], ep_executable = executable\<rparr>))
       (\<lambda>description. case verify_description sv provider cap description of None \<Rightarrow> io_return () | Some err \<Rightarrow> io_fail err)"

section \<open>Credentials of an invocation\<close>

definition add_credential ::
  "environment_field \<Rightarrow> credential_requirement list \<Rightarrow> requirement \<Rightarrow> credential_requirement list result" where
  "add_credential env_field found v =
     (if req_kind v \<noteq> ''credential'' then Inr found
      else bind_result (parse_requirement env_field v) (\<lambda>q.
        if cq_environment q \<in> cq_environment ` set found
        then Inl (Errorf ''credential environment %q is requested by both %q and %q'' [cq_environment q])
        else if cq_ref q \<in> cq_ref ` set found
        then Inl (Errorf ''credential %q is requested for both %q and %q'' [cq_ref q])
        else Inr (found @ [q])))"

definition credential_requirements :: "environment_field \<Rightarrow> requirement list \<Rightarrow> credential_requirement list result" where
  "credential_requirements env_field values =
     bind_result (for_each (add_credential env_field) [] values)
       (\<lambda>found. Inr (sort_key (\<lambda>q. (cq_environment q, cq_ref q)) found))"

record invocation =
  iv_provider :: provider_ref
  iv_operation_id :: operation_id
  iv_attempt :: attempt_number
  iv_operation :: driver_operation
  iv_environment :: "string list"
  iv_redactions :: "string list"
  iv_materials :: "material list"
  iv_used :: bool

record resolved =
  rv_materials :: "material list"
  rv_redactions :: "string list"
  rv_environment :: "string list"
  rv_refs :: "credential_ref list"

definition resolution_failure :: "'w services \<Rightarrow> credential_ref \<Rightarrow> error \<Rightarrow> driver_failure" where
  "resolution_failure sv ref err =
     (if errors_is err ErrCanceled \<or> errors_is err ErrDeadlineExceeded then Failed (Plain err)
      else if errors_is err ErrNotFound \<or> errors_is err ErrUnavailable
      then driver_report ''CREDENTIAL_UNAVAILABLE'' (''credential '' @ sv_quote sv ref @ '' is unavailable'') True
      else driver_report ''CREDENTIAL_RESOLUTION_FAILED'' (''credential '' @ sv_quote sv ref @ '' could not be resolved'') True)"

definition resolve_credential ::
  "'w services \<Rightarrow> 'w credential_resolver \<Rightarrow> resolved \<Rightarrow> credential_requirement \<Rightarrow> ('w, driver_failure, resolved) act" where
  "resolve_credential sv resolve st q =
     io_bind (\<lambda>w. map_prod id (map_sum (resolution_failure sv (cq_ref q)) id) (resolve (cq_ref q) w)) (\<lambda>m.
     case material_bytes (Some m) of
       Inl _ \<Rightarrow> io_fail (driver_report ''CREDENTIAL_RESOLUTION_FAILED'' (''credential '' @ sv_quote sv (cq_ref q) @ '' could not be resolved'') False)
     | Inr value \<Rightarrow> io_return \<lparr>rv_materials = rv_materials st @ [m], rv_redactions = rv_redactions st @ [value],
         rv_environment = rv_environment st @ [cq_environment q @ CHR ''='' # value],
         rv_refs = (if cq_ref q \<in> set (rv_refs st) then rv_refs st else rv_refs st @ [cq_ref q])\<rparr>)"

definition process_environment :: "client option \<Rightarrow> string list \<Rightarrow> string list result" where
  "process_environment c extra = (case c of
     None \<Rightarrow> Inl (Errorf ''provider client is not initialized'' [])
   | Some x \<Rightarrow> merge_environment (cl_environment x) extra)"

section \<open>Prepare\<close>

definition prepare_request ::
  "'w services \<Rightarrow> 'w host_driver \<Rightarrow> request \<Rightarrow> driver_operation \<Rightarrow> ('w, driver_failure, invocation \<times> credential_ref list) act" where
  "prepare_request sv d rq operation =
     (let provider = op_provider (rq_operation rq) in
      io_bind (failing (io_lift (resolve_binding d provider))) (\<lambda>b.
      io_bind (verify_provider_executable sv b provider) (\<lambda>_.
      io_bind (verify_provider sv d (pb_executable b) provider (capability_for operation)) (\<lambda>_.
      case credential_requirements (sv_field sv) (rq_requirements rq) of
        Inl err \<Rightarrow> io_fail (driver_report ''CREDENTIAL_REQUIREMENT_INVALID'' (sv_error_text sv err) False)
      | Inr requirements \<Rightarrow>
        if requirements \<noteq> [] \<and> hd_resolver d = None
        then io_fail (driver_report ''CREDENTIAL_UNAVAILABLE'' ''credential resolver is not configured'' True)
        else io_bind (case hd_resolver d of
             None \<Rightarrow> io_return \<lparr>rv_materials = [], rv_redactions = [], rv_environment = [], rv_refs = []\<rparr>
           | Some resolve \<Rightarrow> io_each (resolve_credential sv resolve)
               \<lparr>rv_materials = [], rv_redactions = [], rv_environment = [], rv_refs = []\<rparr> requirements) (\<lambda>st.
          case process_environment (hd_client d) (rv_environment st) of
            Inl err \<Rightarrow> io_fail (driver_report ''CREDENTIAL_ENVIRONMENT_INVALID'' (sv_error_text sv err) False)
          | Inr environment \<Rightarrow> io_return (\<lparr>iv_provider = provider, iv_operation_id = op_id (rq_operation rq), iv_attempt = rq_attempt rq,
              iv_operation = operation, iv_environment = environment, iv_redactions = rv_redactions st,
              iv_materials = rv_materials st, iv_used = False\<rparr>, sort (rv_refs st)))))))"

definition prepare ::
  "'w services \<Rightarrow> 'w host_driver option \<Rightarrow> bool \<Rightarrow> request \<Rightarrow> driver_operation \<Rightarrow> ('w, driver_failure, invocation \<times> credential_ref list) act" where
  "prepare sv driver context_nil rq operation =
     io_bind (failing (io_lift (checked (validate_driver_request driver context_nil rq) ()))) (\<lambda>_.
       prepare_request sv (the driver) rq operation)"

text \<open>\<open>release\<close> overwrites what the invocation holds.\<close>

definition release_invocation :: "invocation \<Rightarrow> invocation" where
  "release_invocation i = i\<lparr>iv_redactions := [], iv_materials := [], iv_environment := []\<rparr>"

section \<open>Apply and Reconcile\<close>

definition execution_key :: "request \<Rightarrow> string" where
  "execution_key rq =
     (let key = op_idempotency_key (rq_operation rq) in
      if key \<noteq> [] then key
      else ''op-'' @ sha256_hex (rq_plan_id rq @ [char_of (0::nat)] @ op_target_id (rq_operation rq) @ [char_of (0::nat)] @ op_id (rq_operation rq)))"

definition to_protocol_state :: "normalized_state \<Rightarrow> message_state option" where
  "to_protocol_state s =
     (if s = StateWaitingExternal then Some ResultWaitingExternal
      else if s = StatePublished then Some ResultPublished
      else if s = StateRejected then Some ResultRejected else None)"

fun from_protocol_state :: "message_state \<Rightarrow> normalized_state option" where
  "from_protocol_state ResultWaitingExternal = Some StateWaitingExternal"
| "from_protocol_state ResultPublished = Some StatePublished"
| "from_protocol_state ResultRejected = Some StateRejected"
| "from_protocol_state (ResultOther _) = None"

definition map_previous :: "previous option \<Rightarrow> distribution_result option" where
  "map_previous p = (case p of None \<Rightarrow> None | Some v \<Rightarrow>
     (case to_protocol_state (pv_state v) of
        None \<Rightarrow> None
      | Some s \<Rightarrow> if pv_evidence v = [] \<or> \<not> json_valid (pv_evidence v) then None
          else Some \<lparr>dres_state = s, dres_provider_state = pv_provider_state v, dres_evidence = pv_evidence v\<rparr>))"

definition map_distribution_result :: "distribution_result \<Rightarrow> driver_result result" where
  "map_distribution_result r = (case from_protocol_state (dres_state r) of
     None \<Rightarrow> Inl (Errorf ''unsupported provider result state %q'' [result_state_text (dres_state r)])
   | Some s \<Rightarrow> Inr \<lparr>res_state = s, res_provider_state = dres_provider_state r, res_evidence = dres_evidence r\<rparr>)"

text \<open>The observer's methods, when the request has an observer.\<close>

type_synonym 'w observer_methods = "(observer_call \<Rightarrow> ('w, unit) io) option"

definition consume_prepared ::
  "'w observer_methods \<Rightarrow> invocation option \<Rightarrow> request \<Rightarrow> driver_operation \<Rightarrow> (invocation \<times> 'w call_options) result" where
  "consume_prepared observer context rq operation = (case context of
     None \<Rightarrow> Inl (Errorf ''provider invocation is not prepared'' [])
   | Some i \<Rightarrow>
       if iv_provider i \<noteq> op_provider (rq_operation rq) \<or> iv_operation_id i \<noteq> op_id (rq_operation rq)
          \<or> iv_attempt i \<noteq> rq_attempt rq \<or> iv_operation i \<noteq> operation
       then Inl (Errorf ''provider invocation preparation does not match request'' [])
       else if iv_used i then Inl (Errorf ''provider invocation preparation has already been used'' [])
       else Inr (i\<lparr>iv_used := True\<rparr>, \<lparr>co_environment = Some (iv_environment i), co_redactions = iv_redactions i,
         co_started = map_option (\<lambda>f. f CallStarted) observer,
         co_dispatched = (if operation = DriverApply \<and> op_side_effecting (rq_operation rq)
           then map_option (\<lambda>f. f CallDispatched) observer else None),
         co_response = map_option (\<lambda>f. f CallResponded) observer\<rparr>))"

definition ensure_prepared ::
  "'w services \<Rightarrow> 'w host_driver option \<Rightarrow> invocation option \<Rightarrow> request \<Rightarrow> driver_operation
   \<Rightarrow> ('w, driver_failure, invocation option) act" where
  "ensure_prepared sv d context rq operation = (case context of
     Some i \<Rightarrow> io_return (Some i)
   | None \<Rightarrow> io_bind (prepare sv d False rq operation) (\<lambda>(i, _). io_return (Some i)))"

definition execution_request :: "request \<Rightarrow> apply_request" where
  "execution_request rq = \<lparr>ar_plan_id = rq_plan_id rq, ar_target_id = op_target_id (rq_operation rq),
     ar_operation_id = op_id (rq_operation rq), ar_idempotency_key = execution_key rq, ar_attempt = rq_attempt rq,
     ar_provider_payload = op_provider_payload (rq_operation rq)\<rparr>"

text \<open>Both calls: prepared unless they are, bound, verified once more, run and mapped.\<close>

definition perform ::
  "'w services \<Rightarrow> 'w host_driver option \<Rightarrow> 'w observer_methods \<Rightarrow> driver_operation
   \<Rightarrow> (client option \<Rightarrow> string \<Rightarrow> 'w call_options \<Rightarrow> ('w, host_error, distribution_result) act)
   \<Rightarrow> invocation option \<Rightarrow> request \<Rightarrow> ('w, driver_failure, driver_result) act" where
  "perform sv d observer operation run context rq =
     io_bind (ensure_prepared sv d context rq operation) (\<lambda>context'.
     io_bind (failing (io_lift (consume_prepared observer context' rq operation))) (\<lambda>(_, options).
     io_bind (failing (io_lift (resolve_binding (the d) (op_provider (rq_operation rq))))) (\<lambda>b.
     io_bind (verify_provider_executable sv b (op_provider (rq_operation rq))) (\<lambda>_.
     io_bind (mapping (run (hd_client (the d)) (pb_executable b) options)) (\<lambda>r.
       failing (io_lift (map_distribution_result r)))))))"

definition driver_apply ::
  "'w services \<Rightarrow> 'w host_driver option \<Rightarrow> 'w observer_methods \<Rightarrow> invocation option \<Rightarrow> request \<Rightarrow> ('w, driver_failure, driver_result) act" where
  "driver_apply sv d observer context rq = perform sv d observer DriverApply (\<lambda>c executable options.
     client_apply (sv_system sv) (sv_decoders sv) (sv_order sv) c False executable (execution_request rq) options) context rq"

definition driver_reconcile ::
  "'w services \<Rightarrow> 'w host_driver option \<Rightarrow> 'w observer_methods \<Rightarrow> invocation option \<Rightarrow> request \<Rightarrow> ('w, driver_failure, driver_result) act" where
  "driver_reconcile sv d observer context rq = perform sv d observer DriverReconcile (\<lambda>c executable options.
     client_reconcile (sv_system sv) (sv_decoders sv) (sv_order sv) c False executable
       (apply_request.extend (execution_request rq) (reconcile_request.fields (map_previous (rq_previous rq)))) options) context rq"

end
