(* ===== verification/Host_Boundary.thy ===== *)
theory Host_Boundary
  imports Host_Driver Executor_Run
begin

text \<open>
  What the observer of an execution is told by the provider driver, and the driver as the executor sees it.
  An action tells a list of calls when it makes a prefix of them, in order, and all of them when it succeeds.
  The services of the driver are those of any system that makes no such calls itself.
\<close>

section \<open>Actions that tell\<close>

definition told :: "('w \<Rightarrow> observer_call list) \<Rightarrow> observer_call list \<Rightarrow> ('w, 'e, 'a) act \<Rightarrow> bool" where
  "told calls L m \<longleftrightarrow> (\<forall>w. \<exists>K. calls (fst (m w)) = calls w @ K \<and> prefix K L \<and> (\<not> isl (snd (m w)) \<longrightarrow> K = L))"

named_theorems telling \<open>what an action tells\<close>

lemma told_lift [telling]: "told calls [] (io_lift r)" "told calls [] (io_return x)" "told calls L (io_fail e)"
  by (simp_all add: told_def io_lift_def io_return_def io_fail_def)

lemma told_bind:
  assumes "told calls K m" and "\<And>x. told calls L (f x)"
  shows "told calls (K @ L) (io_bind m f)"
  unfolding told_def
proof
  fix w
  obtain v r where m: "m w = (v, r)" by (cases "m w")
  from assms(1) m obtain A where A: "calls v = calls w @ A" "prefix A K" "\<not> isl r \<longrightarrow> A = K"
    unfolding told_def by (metis fst_conv snd_conv)
  show "\<exists>B. calls (fst (io_bind m f w)) = calls w @ B \<and> prefix B (K @ L) \<and> (\<not> isl (snd (io_bind m f w)) \<longrightarrow> B = K @ L)"
  proof (cases r)
    case (Inl e)
    with m A show ?thesis by (auto simp: io_bind_def)
  next
    case (Inr x)
    with A have "A = K" by simp
    from assms(2) [of x] obtain C where "calls (fst (f x v)) = calls v @ C" "prefix C L" "\<not> isl (snd (f x v)) \<longrightarrow> C = L"
      unfolding told_def by metis
    with m Inr A \<open>A = K\<close> show ?thesis by (intro exI [of _ "K @ C"]) (simp add: io_bind_def)
  qed
qed

lemma told_bind_silent: "told calls [] m \<Longrightarrow> (\<And>x. told calls L (f x)) \<Longrightarrow> told calls L (io_bind m f)"
  using told_bind [of calls "[]" m L f] by simp

lemma told_mapped: "told calls L m \<Longrightarrow> told calls L (\<lambda>w. map_prod id (map_sum g id) (m w))"
  by (simp add: told_def map_prod_def split_beta isl_map_sum)

lemma isl_wrap_result [simp]: "isl (wrap_result f xs r) = isl r"
  by (cases r) (simp_all add: wrap_result_def)

lemma told_wrap [telling]: "told calls L m \<Longrightarrow> told calls L (io_wrap f xs m)"
  by (simp add: told_def io_wrap_def map_prod_def split_beta)

lemma told_mapping [telling]: "told calls L m \<Longrightarrow> told calls L (failing m)" "told calls L h \<Longrightarrow> told calls L (mapping h)"
  unfolding failing_def mapping_def by (rule told_mapped, assumption)+

lemma told_plain [telling]: "told calls L m \<Longrightarrow> told calls L (plain m)"
  unfolding plain_def by (rule told_mapped)

lemma told_each: "(\<And>s x. told calls [] (f s x)) \<Longrightarrow> told calls [] (io_each f s xs)"
  by (induction xs arbitrary: s) (auto intro: telling told_bind_silent)

text \<open>A boundary that may not be reported at all.\<close>

definition reported :: "('w \<Rightarrow> observer_call list) \<Rightarrow> observer_call list \<Rightarrow> ('w, unit) io option \<Rightarrow> bool" where
  "reported calls L f \<longleftrightarrow> (case f of None \<Rightarrow> L = [] | Some m \<Rightarrow> told calls L m)"

text \<open>The calls of an execution whose request has an observer.\<close>

definition boundary_calls :: "driver_operation \<Rightarrow> operation \<Rightarrow> observer_call list" where
  "boundary_calls operation op = [CallStarted]
     @ (if operation = DriverApply \<and> op_side_effecting op then [CallDispatched] else []) @ [CallResponded]"

section \<open>The client\<close>

text \<open>What a system promises: it leaves the observer alone.\<close>

locale quiet_services =
  fixes calls :: "'w \<Rightarrow> observer_call list" and sv :: "'w services"
  assumes stat_quiet: "told calls [] (sy_stat (sv_system sv) path)"
    and sequence_quiet: "calls (fst (sy_sequence (sv_system sv) w)) = calls w"
    and start_quiet: "told calls [] (sy_start (sv_system sv) path env)"
    and hash_quiet: "told calls [] (sv_hash sv path)"
    and release_quiet: "calls (sy_release (sv_system sv) input w) = calls w"
    and terminate_quiet: "calls (sy_terminate (sv_system sv) w) = calls w"
    and wait_quiet: "calls (fst (sy_wait (sv_system sv) w)) = calls w"
    and context_quiet: "calls (fst (sy_context (sv_system sv) w)) = calls w"
begin

abbreviation "sys \<equiv> sv_system sv"

lemma clean_up_quiet [simp]: "calls (clean_up sys input w) = calls w"
  by (simp add: clean_up_def release_quiet terminate_quiet wait_quiet)

lemma boundary_tells: "reported calls L f \<Longrightarrow> told calls L (boundary sys input f)"
proof (cases f)
  case (Some m)
  assume "reported calls L f"
  then have t: "told calls L m" by (simp add: reported_def Some)
  show ?thesis unfolding told_def
  proof
    fix w
    obtain v r where "m w = (v, r)" by (cases "m w")
    with t [unfolded told_def, rule_format, of w] show "\<exists>K. calls (fst (boundary sys input f w)) = calls w @ K \<and> prefix K L
        \<and> (\<not> isl (snd (boundary sys input f w)) \<longrightarrow> K = L)"
      by (cases r) (auto simp: boundary_def Some)
  qed
qed (auto simp: reported_def boundary_def intro: telling)

lemma context_tells: "told calls [] (check_context sys)" "told calls [] (check_started_context sys input)"
  using context_quiet by (auto simp: told_def check_context_def check_started_context_def split: prod.splits option.splits)
    (metis clean_up_quiet fst_conv)+

lemma started_tells: "told calls [] (\<lambda>w. case sy_start sys path env w of
    (w', Inl err) \<Rightarrow> (sy_release sys input w', Inl (ProcessFailed path err [] False)) | (w', Inr _) \<Rightarrow> (w', Inr ()))"
  using start_quiet [of path env] by (auto simp: told_def release_quiet split: prod.splits sum.splits) (metis fst_conv)+

lemma ended_tells: "told calls [] (\<lambda>w. case sy_wait sys (sy_release sys input w) of (w', r) \<Rightarrow> (w', Inr r))"
  by (auto simp: told_def split: prod.splits) (metis fst_conv wait_quiet release_quiet)

lemma run_process_tells:
  assumes "reported calls S (co_started options)" and "reported calls D (co_dispatched options)"
  shows "told calls (S @ D) (run_process sys c executable input options)"
  unfolding run_process_def
  by (intro told_bind_silent started_tells told_bind boundary_tells assms context_tells
      told_bind [of _ D _ "[]", simplified] ended_tells telling)

lemma call_with_options_tells:
  assumes "reported calls S (co_started options)" and "reported calls D (co_dispatched options)" and "reported calls R (co_response options)"
  shows "told calls (S @ D @ R) (call_with_options sys dec order client nil path operation payload fill validate redact options)"
proof -
  have run: "told calls (S @ D @ L) (io_bind (run_process sys c path input options) f)" if "\<And>x. told calls L (f x)"
    for c path input f L
    using told_bind [OF run_process_tells [OF assms(1,2)] that] by simp
  have response: "told calls R (plain (case co_response options of None \<Rightarrow> io_return () | Some f \<Rightarrow> f))"
    using assms(3) by (auto simp: reported_def intro: telling split: option.splits)
  have valid: "told calls [] (validate_executable sys path)"
    unfolding validate_executable_def by (auto intro!: telling told_bind_silent stat_quiet)
  have number: "told calls [] (\<lambda>w. case sy_sequence sys w of (w', n) \<Rightarrow> (w', Inr n))"
    by (auto simp: told_def split: prod.splits) (metis fst_conv sequence_quiet)
  have final: "told calls R (io_bind (plain (case co_response options of None \<Rightarrow> io_return () | Some f \<Rightarrow> f)) f)"
    if "\<And>x. told calls [] (f x)" for f
    using told_bind [OF response that] by simp
  have answer: "told calls [] (case (st, e) of (StatusError, Some e) \<Rightarrow> io_fail (ProviderFailed (g e)) | _ \<Rightarrow> m)"
    if "told calls [] m" for st e g and m :: "('w, host_error, 'b) act"
    using that by (auto intro: telling split: status.splits option.splits)
  show ?thesis
  proof (cases client)
    case (Some c)
    show ?thesis unfolding call_with_options_def Let_def Some option.case
      by (rule final run valid number answer telling told_bind_silent conjI impI | split if_split)+
  qed (auto simp: call_with_options_def intro: telling)
qed

lemma describe_tells: "told calls [] (client_describe sys dec order c nil ep)"
  unfolding client_describe_def using call_with_options_tells [of "[]" no_options "[]" "[]"]
  by (simp add: reported_def no_options_def)

section \<open>The driver\<close>

lemma verify_executable_tells: "told calls [] (verify_provider_executable sv b provider)"
  unfolding verify_provider_executable_def by (auto intro!: telling told_bind_silent hash_quiet)

lemma prepare_tells:
  assumes "\<And>f ref. hd_resolver (the d) = Some f \<Longrightarrow> told calls [] (f ref)"
  shows "told calls [] (prepare sv d nil rq operation)"
proof -
  have resolve: "told calls [] (resolve_credential sv f st q)" if "hd_resolver (the d) = Some f" for f st q
    unfolding resolve_credential_def using assms [OF that]
    by (auto intro!: telling told_bind_silent told_mapped split: sum.splits)
  have verify: "told calls [] (verify_provider sv (the d) path provider cap)" for path provider cap
    unfolding verify_provider_def by (auto intro!: telling told_bind_silent describe_tells split: option.splits)
  show ?thesis unfolding prepare_def prepare_request_def Let_def
    by (auto intro!: telling told_bind_silent verify_executable_tells verify told_each resolve split: option.splits sum.splits)
qed

lemma perform_tells:
  assumes "\<And>f ref. hd_resolver (the d) = Some f \<Longrightarrow> told calls [] (f ref)" and "\<And>c. told calls [c] (observer c)"
    and run: "\<And>S D R c path options. reported calls S (co_started options) \<Longrightarrow> reported calls D (co_dispatched options)
      \<Longrightarrow> reported calls R (co_response options) \<Longrightarrow> told calls (S @ D @ R) (run c path options)"
  shows "told calls (boundary_calls operation (rq_operation rq)) (perform sv d (Some observer) operation run context rq)"
proof -
  let ?L = "boundary_calls operation (rq_operation rq)"
  have prepared: "told calls [] (ensure_prepared sv d context rq operation)"
    unfolding ensure_prepared_def 
    by (auto intro!: telling told_bind_silent prepare_tells assms(1) split: option.splits)
  have rest: "told calls ?L (io_bind (failing (io_lift r)) f)" if "\<And>x. r = Inr x \<Longrightarrow> told calls ?L (f x)" for r f
    using that by (cases r) (auto simp: failing_def io_lift_def io_bind_def told_def)
  have run': "told calls ?L (io_bind (mapping (run c path options)) f)"
    if "consume_prepared (Some observer) context' rq operation = Inr (i, options)" "\<And>x. told calls [] (f x)" for context' i options c path f
  proof -
    have "told calls ?L (run c path options)"
      unfolding boundary_calls_def
      by (rule run) (use that(1) assms(2) in \<open>auto simp: consume_prepared_def reported_def split: option.splits if_splits\<close>)
    from told_bind [OF told_mapping(2) [OF this] that(2)] show ?thesis by simp
  qed
  have "told calls ?L (io_bind (failing (io_lift (resolve_binding (the d) (op_provider (rq_operation rq))))) (\<lambda>b.
      io_bind (verify_provider_executable sv b (op_provider (rq_operation rq))) (\<lambda>_.
      io_bind (mapping (run (hd_client (the d)) (pb_executable b) options)) (\<lambda>r. failing (io_lift (map_distribution_result r))))))"
    if "consume_prepared (Some observer) context' rq operation = Inr (i, options)" for context' i options
    by (intro rest told_bind_silent verify_executable_tells run' [OF that] telling)
  then show ?thesis unfolding perform_def by (intro told_bind_silent [OF prepared] rest) auto
qed

lemma driver_tells:
  assumes "\<And>f ref. hd_resolver (the d) = Some f \<Longrightarrow> told calls [] (f ref)" and "\<And>c. told calls [c] (observer c)"
  shows "told calls (boundary_calls DriverApply (rq_operation rq)) (driver_apply sv d (Some observer) context rq)"
    and "told calls (boundary_calls DriverReconcile (rq_operation rq)) (driver_reconcile sv d (Some observer) context rq)"
  unfolding driver_apply_def driver_reconcile_def client_apply_def client_reconcile_def
  by (rule perform_tells assms call_with_options_tells | assumption)+

end

section \<open>The system beside an observer\<close>

text \<open>The calls made are kept beside the world; the observer answers them as \<open>answers\<close> says.\<close>

type_synonym 'o observed = "'o \<times> observer_call list"

definition beside :: "('o, 'e, 'a) act \<Rightarrow> ('o observed, 'e, 'a) act" where
  "beside m = (\<lambda>(v, told_calls). case m v of (v', r) \<Rightarrow> ((v', told_calls), r))"

definition beside_system :: "'o system \<Rightarrow> 'o observed system" where
  "beside_system sys = \<lparr>sy_stat = (\<lambda>f. beside (sy_stat sys f)), sy_sequence = (\<lambda>(v, told_calls). case sy_sequence sys v of (v', n) \<Rightarrow> ((v', told_calls), n)),
     sy_start = (\<lambda>f env. beside (sy_start sys f env)), sy_release = (\<lambda>input. apfst (sy_release sys input)),
     sy_terminate = apfst (sy_terminate sys),
     sy_wait = (\<lambda>(v, told_calls). case sy_wait sys v of (v', r) \<Rightarrow> ((v', told_calls), r)),
     sy_context = (\<lambda>(v, told_calls). case sy_context sys v of (v', r) \<Rightarrow> ((v', told_calls), r))\<rparr>"

definition beside_services :: "'o services \<Rightarrow> 'o observed services" where
  "beside_services sv = \<lparr>sv_system = beside_system (sv_system sv), sv_decoders = sv_decoders sv, sv_order = sv_order sv,
     sv_hash = (\<lambda>f. beside (sv_hash sv f)), sv_field = sv_field sv, sv_error_text = sv_error_text sv, sv_quote = sv_quote sv\<rparr>"

definition beside_driver :: "'o host_driver \<Rightarrow> 'o observed host_driver" where
  "beside_driver d = \<lparr>hd_client = hd_client d, hd_resolver = map_option (\<lambda>f ref. beside (f ref)) (hd_resolver d),
     hd_bindings = hd_bindings d\<rparr>"

definition recording :: "(observer_call \<Rightarrow> error option) \<Rightarrow> observer_call \<Rightarrow> ('o observed, unit) io" where
  "recording answers c = (\<lambda>(v, told_calls). ((v, told_calls @ [c]), case answers c of None \<Rightarrow> Inr () | Some err \<Rightarrow> Inl err))"

lemma beside_quiet: "told snd [] (beside m)"
  by (auto simp: told_def beside_def split: prod.splits)

lemma recording_tells: "told snd [c] (recording answers c)"
  by (auto simp: told_def recording_def)

interpretation observed: quiet_services snd "beside_services sv" for sv :: "'o services"
  by unfold_locales (auto simp: beside_services_def beside_system_def beside_quiet split: prod.splits)

section \<open>The driver as the executor calls it\<close>

text \<open>What the executor can tell of an error: \<open>ProcessError\<close> unwraps to the error of the process.\<close>

fun call_error_of :: "driver_failure \<Rightarrow> call_error" where
  "call_error_of (Reported e) = \<lparr>ce_deadline = False, ce_canceled = False, ce_driver = Some (Some e)\<rparr>"
| "call_error_of (Failed (Plain e)) =
     \<lparr>ce_deadline = errors_is e ErrDeadlineExceeded, ce_canceled = errors_is e ErrCanceled, ce_driver = None\<rparr>"
| "call_error_of (Failed (ProcessFailed _ e _ _)) =
     \<lparr>ce_deadline = errors_is e ErrDeadlineExceeded, ce_canceled = errors_is e ErrCanceled, ce_driver = None\<rparr>"
| "call_error_of (Failed (ProviderFailed _)) = \<lparr>ce_deadline = False, ce_canceled = False, ce_driver = None\<rparr>"

fun call_of :: "'o observed \<times> (driver_failure + driver_result) \<Rightarrow> driver_call" where
  "call_of ((_, told_calls), Inr r) = \<lparr>dc_calls = told_calls, dc_result = r, dc_error = None\<rparr>"
| "call_of ((_, told_calls), Inl f) = \<lparr>dc_calls = told_calls, dc_result = no_result, dc_error = Some (call_error_of f)\<rparr>"

text \<open>
  \<open>worlds\<close> is the world each call starts in and \<open>answers\<close> what its observer answers, both chosen freely.  A call
  runs in the context that its preparation made; the driver says itself when it reports the boundaries.
\<close>

definition prepared_call ::
  "'o services \<Rightarrow> 'o host_driver \<Rightarrow> (request \<Rightarrow> driver_operation \<Rightarrow> 'o) \<Rightarrow> request \<Rightarrow> driver_operation
   \<Rightarrow> 'o observed \<times> (driver_failure + invocation \<times> credential_ref list)" where
  "prepared_call sv d worlds rq operation =
     prepare (beside_services sv) (Some (beside_driver d)) False rq operation (worlds rq operation, [])"

definition prepared_context :: "driver_failure + invocation \<times> credential_ref list \<Rightarrow> invocation option" where
  "prepared_context r = (case r of Inl _ \<Rightarrow> None | Inr (i, _) \<Rightarrow> Some i)"

definition host_as_driver ::
  "'o services \<Rightarrow> 'o host_driver \<Rightarrow> (request \<Rightarrow> observer_call \<Rightarrow> error option) \<Rightarrow> (request \<Rightarrow> driver_operation \<Rightarrow> 'o) \<Rightarrow> driver" where
  "host_as_driver sv d answers worlds = \<lparr>
     dv_prepare = Some (\<lambda>rq operation. map_sum call_error_of snd (snd (prepared_call sv d worlds rq operation))),
     dv_boundaries = Some True,
     dv_apply = (\<lambda>rq. case prepared_call sv d worlds rq DriverApply of (w, r) \<Rightarrow>
       call_of (driver_apply (beside_services sv) (Some (beside_driver d)) (Some (recording (answers rq))) (prepared_context r) rq w)),
     dv_reconcile = (\<lambda>rq. case prepared_call sv d worlds rq DriverReconcile of (w, r) \<Rightarrow>
       call_of (driver_reconcile (beside_services sv) (Some (beside_driver d)) (Some (recording (answers rq))) (prepared_context r) rq w))\<rparr>"

lemma beside_resolver_quiet: "hd_resolver (the (Some (beside_driver d))) = Some f \<Longrightarrow> told snd [] (f ref)"
  by (auto simp: beside_driver_def beside_quiet)

lemma host_tells:
  "told snd (boundary_calls DriverApply (rq_operation rq))
     (driver_apply (beside_services sv) (Some (beside_driver d)) (Some (recording answers)) context rq)"
  "told snd (boundary_calls DriverReconcile (rq_operation rq))
     (driver_reconcile (beside_services sv) (Some (beside_driver d)) (Some (recording answers)) context rq)"
  by (rule observed.driver_tells, erule beside_resolver_quiet, rule recording_tells)+

lemma call_of_calls [simp]: "dc_calls (call_of x) = snd (fst x)"
  by (cases x rule: call_of.cases) simp_all

lemma prepared_tells_nothing: "snd (fst (prepared_call sv d worlds rq operation)) = []"
proof -
  have "told snd [] (prepare (beside_services sv) (Some (beside_driver d)) False rq operation)"
    by (rule observed.prepare_tells, erule beside_resolver_quiet)
  then show ?thesis by (auto simp: told_def prepared_call_def)
qed

lemma told_from_nothing: "told snd L m \<Longrightarrow> snd w = [] \<Longrightarrow> prefix (snd (fst (m w))) L"
  unfolding told_def by (metis append_Nil)

theorem host_driver_contract: "driver_contract (host_as_driver sv d answers worlds)"
proof -
  have allowed: "call_allowed k op c" if "c \<in> set (boundary_calls operation op)" "operation = DriverApply \<longleftrightarrow> k = TaskApply"
    for k operation op c
    using that by (auto simp: boundary_calls_def call_allowed_def split: if_splits)
  have prefix: "c \<in> set L" if "c \<in> set K" "prefix K L" for c and K L :: "observer_call list"
    using that set_mono_prefix by blast
  have calls: "prefix (dc_calls (dv_apply (host_as_driver sv d answers worlds) rq)) (boundary_calls DriverApply (rq_operation rq))"
      "prefix (dc_calls (dv_reconcile (host_as_driver sv d answers worlds) rq)) (boundary_calls DriverReconcile (rq_operation rq))" for rq
    unfolding host_as_driver_def driver.simps split_beta call_of_calls
    by (rule told_from_nothing host_tells prepared_tells_nothing)+
  show ?thesis unfolding driver_contract_def
    using allowed [where operation = DriverApply and k = TaskApply] allowed [where operation = DriverReconcile and k = TaskReconcile]
      prefix calls by blast
qed

end
