(* ===== verification/Host_Lemmas.thy ===== *)
theory Host_Lemmas
  imports Host_Boundary
begin

text \<open>
  Lemmas about the provider host: which environments can be merged, what the bounded writers hold, which texts are
  redacted, and what a preparation hands to the process.
\<close>

section \<open>Merging environments\<close>

lemma parsed_keys: "parse_environment_entry v = Inr (key, item) \<Longrightarrow> v = key @ CHR ''='' # item"
  unfolding parse_environment_entry_def using string_cut_Some [of v "CHR ''=''"]
  by (auto split: option.splits if_splits)

lemma add_base_Inr:
  "add_base env v = Inr env' \<longleftrightarrow> (\<exists>p. parse_environment_entry v = Inr p \<and> fst p \<notin> fst ` set env \<and> env' = env @ [p])"
  by (auto simp: add_base_def bind_result_Inr map_of_eq_None_iff map_insert_fresh simp del: map_of_eq_Some_iff
      split: if_splits)

lemma add_extra_Inr:
  "add_extra (names, env) v = Inr st \<longleftrightarrow> (\<exists>p. parse_environment_entry v = Inr p \<and> fst p \<notin> set names \<and> fst p \<notin> fst ` set env
     \<and> st = (fst p # names, env @ [p]))"
  by (auto simp: add_extra_def bind_result_Inr map_of_eq_None_iff map_insert_fresh simp del: map_of_eq_Some_iff
      split: if_splits)

lemma base_Inr:
  "for_each add_base env vs = Inr env' \<longleftrightarrow> (\<exists>ps. map parse_environment_entry vs = map Inr ps \<and> env' = env @ ps
     \<and> distinct (map fst ps) \<and> fst ` set ps \<inter> fst ` set env = {})"
proof (induction vs arbitrary: env)
  case (Cons v vs)
  have "for_each add_base env (v # vs) = Inr env' \<longleftrightarrow> (\<exists>p. parse_environment_entry v = Inr p \<and> fst p \<notin> fst ` set env
      \<and> for_each add_base (env @ [p]) vs = Inr env')"
    by (auto simp: bind_result_Inr add_base_Inr)
  also have "\<dots> \<longleftrightarrow> (\<exists>p ps. parse_environment_entry v = Inr p \<and> fst p \<notin> fst ` set env \<and> map parse_environment_entry vs = map Inr ps
      \<and> env' = env @ p # ps \<and> distinct (map fst ps) \<and> fst ` set ps \<inter> fst ` set (env @ [p]) = {})"
    by (auto simp: Cons.IH)
  also have "\<dots> \<longleftrightarrow> (\<exists>ps. map parse_environment_entry (v # vs) = map Inr ps \<and> env' = env @ ps
     \<and> distinct (map fst ps) \<and> fst ` set ps \<inter> fst ` set env = {})"
    by (auto simp: map_eq_Cons_conv Cons_eq_map_conv)
  finally show ?case .
qed auto

lemma extra_Inr:
  "set names \<subseteq> fst ` set env \<Longrightarrow> (\<exists>names'. for_each add_extra (names, env) vs = Inr (names', env')) \<longleftrightarrow> for_each add_base env vs = Inr env'"
proof (induction vs arbitrary: env names)
  case (Cons v vs)
  have "(\<exists>names'. for_each add_extra (names, env) (v # vs) = Inr (names', env')) \<longleftrightarrow>
      (\<exists>p. parse_environment_entry v = Inr p \<and> fst p \<notin> fst ` set env
        \<and> (\<exists>names'. for_each add_extra (fst p # names, env @ [p]) vs = Inr (names', env')))"
    using Cons.prems by (auto simp: bind_result_Inr add_extra_Inr)
  also have "\<dots> \<longleftrightarrow> (\<exists>p. parse_environment_entry v = Inr p \<and> fst p \<notin> fst ` set env \<and> for_each add_base (env @ [p]) vs = Inr env')"
  proof -
    have "(\<exists>names'. for_each add_extra (fst p # names, env @ [p]) vs = Inr (names', env')) \<longleftrightarrow> for_each add_base (env @ [p]) vs = Inr env'" for p
      by (rule Cons.IH) (use Cons.prems in auto)
    then show ?thesis by simp
  qed
  finally show ?case by (auto simp: bind_result_Inr add_base_Inr)
qed auto

lemma merge_environment_Inr:
  "merge_environment base extra = Inr env \<longleftrightarrow> (\<exists>ps. map parse_environment_entry (base @ extra) = map Inr ps
     \<and> distinct (map fst ps) \<and> env = environment_list ps)"
proof -
  have "merge_environment base extra = Inr env \<longleftrightarrow> (\<exists>env1 env2. for_each add_base [] base = Inr env1
      \<and> (\<exists>names. for_each add_extra ([], env1) extra = Inr (names, env2)) \<and> env = environment_list env2)"
    by (auto simp: merge_environment_def bind_result_Inr)
  also have "\<dots> \<longleftrightarrow> (\<exists>env1 env2. for_each add_base [] base = Inr env1 \<and> for_each add_base env1 extra = Inr env2
      \<and> env = environment_list env2)"
    by (simp add: extra_Inr)
  also have "\<dots> \<longleftrightarrow> (\<exists>env2. for_each add_base [] (base @ extra) = Inr env2 \<and> env = environment_list env2)"
    by (auto simp: for_each_append_Inr)
  finally show ?thesis by (auto simp: base_Inr)
qed

section \<open>Bounded writers\<close>

lemma limited_chunks:
  assumes "\<not> lw_exceeded w" and "int (length (lw_buffer w)) \<le> lw_limit w"
  shows "lw_buffer (write_chunks w ps) = take (nat (lw_limit w)) (lw_buffer w @ concat ps)
    \<and> (lw_exceeded (write_chunks w ps) \<longleftrightarrow> lw_limit w < int (length (lw_buffer w @ concat ps)))"
  using assms
proof (induction ps arbitrary: w)
  case (Cons p ps)
  let ?rest = "lw_limit w - int (length (lw_buffer w))"
  show ?case
  proof (cases "int (length p) \<le> ?rest")
    case True
    then have "write_chunks w (p # ps) = write_chunks (w\<lparr>lw_buffer := lw_buffer w @ p\<rparr>) ps"
      using Cons.prems by (simp add: limited_write_def Let_def)
    with Cons.IH [of "w\<lparr>lw_buffer := lw_buffer w @ p\<rparr>"] Cons.prems True show ?thesis by simp
  next
    case False
    have "write_chunks w (p # ps) = w\<lparr>lw_buffer := lw_buffer w @ take (nat ?rest) p, lw_exceeded := True\<rparr>"
      using Cons.prems False by (simp add: limited_write_def Let_def)
    moreover have "nat (lw_limit w) - length (lw_buffer w) = nat ?rest" using Cons.prems by linarith
    ultimately show ?thesis using False Cons.prems by (auto simp: nat_le_iff)
  qed
qed simp

lemma captured_chunks:
  "0 \<le> cw_limit w \<Longrightarrow> int (length (cw_buffer w)) \<le> cw_limit w \<Longrightarrow>
     cw_buffer (capture_chunks w ps) = take (nat (cw_limit w)) (cw_buffer w @ concat ps)
     \<and> (cw_truncated (capture_chunks w ps) \<longleftrightarrow> cw_truncated w \<or> cw_limit w < int (length (cw_buffer w @ concat ps)))"
proof (induction ps arbitrary: w)
  case (Cons p ps)
  let ?w = "fst (capture_write w p)" and ?n = "nat (cw_limit w)"
  have step: "capture_chunks w (p # ps) = capture_chunks ?w ps" by (simp add: capture_chunks_def)
  have w: "cw_limit ?w = cw_limit w" "cw_buffer ?w = take ?n (cw_buffer w @ p)"
    "cw_truncated ?w \<longleftrightarrow> cw_truncated w \<or> cw_limit w < int (length (cw_buffer w @ p))"
    using Cons.prems by (auto simp: capture_write_def Let_def nat_diff_distrib)
  have IH: "cw_buffer (capture_chunks ?w ps) = take ?n (cw_buffer ?w @ concat ps)
      \<and> (cw_truncated (capture_chunks ?w ps) \<longleftrightarrow> cw_truncated ?w \<or> cw_limit w < int (length (cw_buffer ?w @ concat ps)))"
    using Cons.IH [of ?w] Cons.prems w(1,2) by simp
  show ?case
  proof (cases "length (cw_buffer w @ p) \<le> ?n")
    case True
    then have "cw_buffer ?w = cw_buffer w @ p" "cw_truncated ?w = cw_truncated w" using w(2,3) Cons.prems by auto
    with IH step show ?thesis by simp
  next
    case False
    then have "length (cw_buffer ?w) = ?n" "cw_truncated ?w" using w(2,3) Cons.prems by auto
    moreover from False have "cw_limit w < int (length (cw_buffer w @ p @ concat ps))" by simp
    ultimately show ?thesis using IH step w(2) False Cons.prems by simp
  qed
qed (simp add: capture_chunks_def)

section \<open>Redaction\<close>

lemma set_new_redactor: "set (new_redactor values) = set values - {[]}"
proof -
  have "set (foldl add_secret found vs) = set found \<union> (set vs - {[]})" for found vs
    by (induction vs arbitrary: found) (auto simp: add_secret_def)
  then show ?thesis by (simp add: new_redactor_def)
qed

section \<open>What a preparation hands to the process\<close>

text \<open>The credentials resolved so far, against the requirements met so far.\<close>

definition resolved_for :: "credential_requirement list \<Rightarrow> resolved \<Rightarrow> bool" where
  "resolved_for qs st \<longleftrightarrow> length (rv_redactions st) = length qs
     \<and> rv_environment st = map2 (\<lambda>q value. cq_environment q @ CHR ''='' # value) qs (rv_redactions st)
     \<and> map material_bytes (map Some (rv_materials st)) = map Inr (rv_redactions st)
     \<and> set (rv_refs st) = cq_ref ` set qs \<and> distinct (rv_refs st)"

lemma resolve_credential_step:
  assumes "resolve_credential sv f st q w = (w', Inr st')" and "resolved_for qs st"
  shows "resolved_for (qs @ [q]) st'"
proof -
  obtain m v where "material_bytes (Some m) = Inr v"
    "st' = \<lparr>rv_materials = rv_materials st @ [m], rv_redactions = rv_redactions st @ [v],
         rv_environment = rv_environment st @ [cq_environment q @ CHR ''='' # v],
         rv_refs = (if cq_ref q \<in> set (rv_refs st) then rv_refs st else rv_refs st @ [cq_ref q])\<rparr>"
  proof -
    obtain m u where "(case material_bytes (Some m) of
        Inl _ \<Rightarrow> io_fail (driver_report ''CREDENTIAL_RESOLUTION_FAILED'' (''credential '' @ sv_quote sv (cq_ref q) @ '' could not be resolved'') False)
      | Inr value \<Rightarrow> io_return \<lparr>rv_materials = rv_materials st @ [m], rv_redactions = rv_redactions st @ [value],
          rv_environment = rv_environment st @ [cq_environment q @ CHR ''='' # value],
          rv_refs = (if cq_ref q \<in> set (rv_refs st) then rv_refs st else rv_refs st @ [cq_ref q])\<rparr>) u = (w', Inr st')"
      using assms(1) unfolding resolve_credential_def io_bind_Inr by blast
    with that show thesis by (cases "material_bytes (Some m)") (simp_all add: io_success)
  qed
  with assms(2) show ?thesis by (auto simp: resolved_for_def)
qed

lemma prepared_parts:
  assumes "prepare sv (Some d) nil rq operation w = (w', Inr (i, refs))"
  obtains b c qs st where "resolve_binding d (op_provider (rq_operation rq)) = Inr b" "hd_client d = Some c"
    "credential_requirements (sv_field sv) (rq_requirements rq) = Inr qs" "resolved_for qs st"
    "merge_environment (cl_environment c) (rv_environment st) = Inr (iv_environment i)"
    "iv_redactions i = rv_redactions st" "refs = sort (rv_refs st)" "\<not> iv_used i"
    "iv_provider i = op_provider (rq_operation rq)" "iv_operation_id i = op_id (rq_operation rq)"
    "iv_attempt i = rq_attempt rq" "iv_operation i = operation"
proof -
  let ?none = "\<lparr>rv_materials = [], rv_redactions = [], rv_environment = [], rv_refs = []\<rparr>"
  have failing: "failing m v = (v', Inr x) \<longleftrightarrow> m v = (v', Inr x)" for m :: "('a, 'b) io" and v v' x
    by (cases "m v"; cases "snd (m v)") (auto simp: failing_def)
  from assms obtain v where "prepare_request sv d rq operation v = (w', Inr (i, refs))"
    by (auto simp: prepare_def io_success)
  then obtain b u where b: "resolve_binding d (op_provider (rq_operation rq)) = Inr b"
    and rest: "(case credential_requirements (sv_field sv) (rq_requirements rq) of
        Inl err \<Rightarrow> io_fail (driver_report ''CREDENTIAL_REQUIREMENT_INVALID'' (sv_error_text sv err) False)
      | Inr requirements \<Rightarrow>
        if requirements \<noteq> [] \<and> hd_resolver d = None
        then io_fail (driver_report ''CREDENTIAL_UNAVAILABLE'' ''credential resolver is not configured'' True)
        else io_bind (case hd_resolver d of None \<Rightarrow> io_return ?none
           | Some resolve \<Rightarrow> io_each (resolve_credential sv resolve) ?none requirements) (\<lambda>st.
          case process_environment (hd_client d) (rv_environment st) of
            Inl err \<Rightarrow> io_fail (driver_report ''CREDENTIAL_ENVIRONMENT_INVALID'' (sv_error_text sv err) False)
          | Inr environment \<Rightarrow> io_return (\<lparr>iv_provider = op_provider (rq_operation rq), iv_operation_id = op_id (rq_operation rq),
              iv_attempt = rq_attempt rq, iv_operation = operation, iv_environment = environment, iv_redactions = rv_redactions st,
              iv_materials = rv_materials st, iv_used = False\<rparr>, sort (rv_refs st)))) u = (w', Inr (i, refs))"
    unfolding prepare_request_def Let_def io_bind_Inr failing io_lift_Inr by blast
  obtain qs where qs: "credential_requirements (sv_field sv) (rq_requirements rq) = Inr qs" "qs \<noteq> [] \<longrightarrow> hd_resolver d \<noteq> None"
    using rest by (auto simp: io_success split: sum.splits if_splits)
  obtain st u' where st: "(case hd_resolver d of None \<Rightarrow> io_return ?none
        | Some resolve \<Rightarrow> io_each (resolve_credential sv resolve) ?none qs) u = (u', Inr st)"
    and env: "(case process_environment (hd_client d) (rv_environment st) of
            Inl err \<Rightarrow> io_fail (driver_report ''CREDENTIAL_ENVIRONMENT_INVALID'' (sv_error_text sv err) False)
          | Inr environment \<Rightarrow> io_return (\<lparr>iv_provider = op_provider (rq_operation rq), iv_operation_id = op_id (rq_operation rq),
              iv_attempt = rq_attempt rq, iv_operation = operation, iv_environment = environment, iv_redactions = rv_redactions st,
              iv_materials = rv_materials st, iv_used = False\<rparr>, sort (rv_refs st))) u' = (w', Inr (i, refs))"
    using rest qs by (auto simp: io_bind_Inr)
  have i: "process_environment (hd_client d) (rv_environment st) = Inr (iv_environment i)" "iv_redactions i = rv_redactions st"
    "refs = sort (rv_refs st)" "\<not> iv_used i" "iv_provider i = op_provider (rq_operation rq)"
    "iv_operation_id i = op_id (rq_operation rq)" "iv_attempt i = rq_attempt rq" "iv_operation i = operation"
    using env by (auto simp: io_success split: sum.splits)
  have "resolved_for qs st"
  proof (cases "hd_resolver d")
    case None
    with qs st show ?thesis by (auto simp: io_success resolved_for_def)
  next
    case (Some f)
    with st have "io_each (resolve_credential sv f) ?none qs u = (u', Inr st)" by simp
    then show ?thesis by (rule io_each_invariant) (auto simp: resolved_for_def [of "[]"] intro: resolve_credential_step)
  qed
  with that b qs(1) i show thesis by (auto simp: process_environment_def split: option.splits)
qed

section \<open>What comes back from a call\<close>

text \<open>An action whose errors satisfy \<open>E\<close> and whose values satisfy \<open>V\<close>.\<close>

definition yields :: "('e \<Rightarrow> bool) \<Rightarrow> ('a \<Rightarrow> bool) \<Rightarrow> ('w, 'e, 'a) act \<Rightarrow> bool" where
  "yields E V m \<longleftrightarrow> (\<forall>w. case snd (m w) of Inl e \<Rightarrow> E e | Inr x \<Rightarrow> V x)"

lemma yields_bind: "yields E V m \<Longrightarrow> (\<And>x. V x \<Longrightarrow> yields E W (f x)) \<Longrightarrow> yields E W (io_bind m f)"
proof (unfold yields_def, rule allI)
  fix w
  assume m: "\<forall>w. case snd (m w) of Inl e \<Rightarrow> E e | Inr x \<Rightarrow> V x"
    and f: "\<And>x. V x \<Longrightarrow> \<forall>w. case snd (f x w) of Inl e \<Rightarrow> E e | Inr x \<Rightarrow> W x"
  obtain v r where "m w = (v, r)" by (cases "m w")
  with m [rule_format, of w] f show "case snd (io_bind m f w) of Inl e \<Rightarrow> E e | Inr x \<Rightarrow> W x"
    by (cases r) (auto simp: io_bind_def)
qed

lemma yields_lift: "(case r of Inl e \<Rightarrow> E e | Inr x \<Rightarrow> V x) \<Longrightarrow> yields E V (io_lift r)"
  "V x \<Longrightarrow> yields E V (io_return x)" "E e \<Longrightarrow> yields E V (io_fail e)"
  by (simp_all add: yields_def io_lift_def io_return_def io_fail_def)

lemma yields_if: "(b \<Longrightarrow> yields E V m) \<Longrightarrow> (\<not> b \<Longrightarrow> yields E V n) \<Longrightarrow> yields E V (if b then m else n)"
  by simp

lemma yields_plain: "(\<And>e. E (Plain e)) \<Longrightarrow> (\<And>w w' x. m w = (w', Inr x) \<Longrightarrow> V x) \<Longrightarrow> yields E V (plain m)"
  unfolding yields_def plain_def by (metis (mono_tags, lifting) map_prod_def case_prod_conv eq_snd_iff map_sum.simps snd_conv
    old.sum.exhaust old.sum.simps(5,6) id_apply prod.collapse)

text \<open>Errors and results that do not show a text.\<close>

fun error_hides :: "string \<Rightarrow> host_error \<Rightarrow> bool" where
  "error_hides s (Plain e) = True"
| "error_hides s (ProcessFailed _ _ diagnostics _) = (\<not> sublist s diagnostics)"
| "error_hides s (ProviderFailed e) = (\<not> sublist s (pe_message e))"

definition result_hides :: "string \<Rightarrow> distribution_result \<Rightarrow> bool" where
  "result_hides s r \<longleftrightarrow> \<not> sublist s (dres_provider_state r)
     \<and> (\<exists>v. dres_evidence r = marshal_json v \<and> (\<forall>t. json_string v t \<longrightarrow> \<not> sublist s t))"

text \<open>\<open>s\<close> is one of the credentials of a call, none of which can hide in the marker that replaces it; the order in
  which Go ranges over an object leaves nothing out.\<close>

definition redactions :: "member_order \<Rightarrow> string list \<Rightarrow> string \<Rightarrow> bool" where
  "redactions order creds s \<longleftrightarrow> (\<forall>x \<in> set creds - {[]}. plain_secret x) \<and> (\<forall>kvs. set (order kvs) = set kvs)
     \<and> s \<in> set creds \<and> s \<noteq> []"

lemma redactions_secrets:
  assumes "redactions order creds s"
  shows "\<forall>x \<in> set (new_redactor creds). plain_secret x" "s \<in> set (new_redactor creds)" "new_redactor creds \<noteq> []"
    "set (order kvs) = set kvs" "s \<noteq> []"
proof -
  show "s \<in> set (new_redactor creds)" using assms by (simp add: redactions_def set_new_redactor)
  then show "new_redactor creds \<noteq> []" by auto
qed (use assms in \<open>simp_all add: redactions_def set_new_redactor\<close>)

lemma text_hides: "redactions order creds s \<Longrightarrow> \<not> sublist s (redact_text (new_redactor creds) t)"
  by (rule redact_text_gone [OF redactions_secrets(1,2)])

lemma redacted_result_hides:
  assumes secret: "redactions order creds s" and "distribution_result_validate r = None"
  shows "result_hides s (redact_distribution_result order (new_redactor creds) r)"
proof -
  have "json_value_valid (dres_evidence r)" using assms(2) by (simp add: distribution_result_validate_def checks)
  then obtain v u where v: "json_decode (dres_evidence r) = Some (v, u)" "dres_evidence r \<noteq> []"
    by (auto simp: json_value_valid_def json_valid_def json_parse_def split: option.splits)
  then have "redact_json order (new_redactor creds) (dres_evidence r) = marshal_json (redact_value order (new_redactor creds) v)"
    using redactions_secrets(3) [OF secret] by (simp add: redact_json_def)
  moreover have "\<forall>t. json_string (redact_value order (new_redactor creds) v) t \<longrightarrow> \<not> sublist s t"
    using redact_value_gone [OF redactions_secrets(1,4) [OF secret] _ redactions_secrets(2) [OF secret]] by blast
  ultimately show ?thesis
    using redactions_secrets(3) [OF secret] text_hides [OF secret] by (auto simp: result_hides_def redact_distribution_result_def)
qed

lemma redacted_error_hides:
  assumes secret: "redactions order creds s"
  shows "error_hides s (ProviderFailed (redact_provider_error order (new_redactor creds) e))"
  using redactions_secrets(3) [OF secret] text_hides [OF secret] by (simp add: redact_provider_error_def)

lemma run_process_hides:
  fixes sys :: "'w system"
  assumes secret: "redactions order creds s" and "co_redactions options = creds"
  shows "yields (error_hides s) (\<lambda>_. True) (run_process sys c path input options)"
proof -
  have silent: "yields (error_hides s) (\<lambda>_. True) (boundary sys input f)" for f
    by (auto simp: yields_def boundary_def io_return_def io_lift_def split: option.splits prod.splits sum.splits)
  have checks: "yields (error_hides s) (\<lambda>_. True) (check_started_context sys input)" "yields (error_hides s) (\<lambda>_. True) (check_context sys)"
    by (auto simp: yields_def check_started_context_def check_context_def split: prod.splits option.splits)
  have start: "yields (error_hides s) (\<lambda>_. True) (\<lambda>w. case m w of
     (w', Inl err) \<Rightarrow> (sy_release sys input w', Inl (ProcessFailed path err [] False)) | (w', Inr _) \<Rightarrow> (w', Inr ()))" for m :: "('w, unit) io"
    using redactions_secrets(5) [OF secret] by (auto simp: yields_def split: prod.splits sum.splits)
  have wait: "yields (error_hides s) (\<lambda>_. True) (\<lambda>w. case m w of (w', r) \<Rightarrow> (w', Inr r))" for m :: "'w \<Rightarrow> 'w \<times> 'c"
    by (auto simp: yields_def split: prod.splits)
  have printed: "yields (error_hides s) (\<lambda>_. True) (io_lift (provider_output c path (new_redactor (co_redactions options)) ended))" for ended
    by (rule yields_lift) (auto simp: provider_output_def Let_def text_hides [OF secret] assms(2) split: prod.splits option.splits)
  show ?thesis unfolding run_process_def
    by (rule yields_bind [OF start] yields_bind [OF silent] yields_bind [OF checks(1)] yields_bind [OF checks(2)] yields_bind [OF wait] printed)+
qed

lemma call_hides:
  fixes sys :: "'w system" and validate :: "'x \<Rightarrow> error option"
  assumes secret: "redactions order creds s" and "co_redactions options = creds" and "\<And>x. validate x = None \<Longrightarrow> V (redact (new_redactor creds) x)"
  shows "yields (error_hides s) V (call_with_options sys dec order client nil path operation payload fill validate redact options)"
proof (cases client)
  case (Some c)
  have plain: "yields (error_hides s) (\<lambda>_. True) (plain m)" for m :: "('w, 'c) io" by (rule yields_plain) simp_all
  have number: "yields (error_hides s) (\<lambda>_. True) (\<lambda>w. case sy_sequence sys w of (w', n) \<Rightarrow> (w', Inr n))"
    by (auto simp: yields_def split: prod.splits)
  have payload: "yields (error_hides s) (\<lambda>x. validate x = None) (plain (io_wrap m xs (io_lift (decode_payload fill validate raw))))" for m xs raw
    by (rule yields_plain) (auto simp: io_success decode_payload_def checks)
  have answer: "yields (error_hides s) V (case (st, e) of
      (StatusError, Some e) \<Rightarrow> io_fail (ProviderFailed (redact_provider_error order (new_redactor (co_redactions options)) e)) | _ \<Rightarrow> m)"
    if "yields (error_hides s) V m" for st e and m :: "('w, host_error, 'x) act"
    using that redacted_error_hides [OF secret] by (auto simp: assms(2) intro: yields_lift split: status.splits option.splits)
  show ?thesis unfolding call_with_options_def Let_def Some option.case
    by (rule yields_if answer yields_bind [OF number] yields_bind [OF run_process_hides [OF secret assms(2)]]
      yields_bind [OF payload] yields_bind [OF plain] yields_lift(2,3) | (simp add: assms(2,3); fail))+
qed (simp add: call_with_options_def yields_lift)

end
