(* ===== verification/Host_Demo.thy ===== *)
theory Host_Demo
  imports Host_Lemmas Executor_Demo Planner_Demo
begin

text \<open>
  A concrete provider: a system in which every process starts and answers at once, first a description and then a
  publication, evaluated once for the witnesses of the host's properties.  The world counts the processes.
\<close>

definition demo_system :: "nat system" where
  "demo_system = \<lparr>sy_stat = (\<lambda>_. io_return False), sy_sequence = (\<lambda>n. (n, word_of_nat (n + 1))),
     sy_start = (\<lambda>_ _ n. (n + 1, Inr ())), sy_release = (\<lambda>_ n. n), sy_terminate = (\<lambda>n. n),
     sy_wait = (\<lambda>n. (n, None, [if n = 1 then ''[]'' else ''{}''], [])), sy_context = (\<lambda>n. (n, None))\<rparr>"

definition demo_answer :: "protocol_operation \<Rightarrow> string \<Rightarrow> protocol_response" where
  "demo_answer operation i = \<lparr>env_protocol_version = ''1'', env_request_id = i, env_operation = operation,
     env_payload = ''{}'', res_status = StatusOK, res_error = None\<rparr>"

definition demo_decoders :: decoders where
  "demo_decoders = \<lparr>dec_request = (\<lambda>_. Inl (Errorf [] [])),
     dec_response = (\<lambda>s. Inr (if s = ''[]'' then demo_answer OperationDescribe ''req-1'' else demo_answer OperationApply ''req-2'')),
     dec_describe_response = (\<lambda>_. Inr \<lparr>dr_provider = \<lparr>pi_name = ''npm'', pi_version = ''1''\<rparr>, dr_protocol_versions = [''1''],
       dr_capabilities = [CapabilityPlan, CapabilityApply, CapabilityReconcile], dr_requirements = []\<rparr>),
     dec_plan_request = (\<lambda>_. Inl (Errorf [] [])), dec_plan_response = (\<lambda>_. Inl (Errorf [] [])),
     dec_apply_request = (\<lambda>_. Inl (Errorf [] [])), dec_reconcile_request = (\<lambda>_. Inl (Errorf [] [])),
     dec_result = (\<lambda>_. Inr \<lparr>dres_state = ResultPublished, dres_provider_state = ''key=hunter2'', dres_evidence = ''{}''\<rparr>),
     dec_describe_request = (\<lambda>_. Inl (Errorf [] []))\<rparr>"

definition demo_services :: "nat services" where
  "demo_services = \<lparr>sv_system = demo_system, sv_decoders = demo_decoders, sv_order = (\<lambda>m. m),
     sv_hash = (\<lambda>_. io_fail (Errorf [] [])), sv_field = (\<lambda>_. Inr ''TOKEN''), sv_error_text = (\<lambda>_. []), sv_quote = (\<lambda>s. s)\<rparr>"

definition demo_host :: "nat host_driver" where
  "demo_host = \<lparr>hd_client = Some \<lparr>cl_max_message = 1024, cl_max_stderr = 64, cl_environment = [''PATH=/bin'']\<rparr>,
     hd_resolver = Some (\<lambda>ref. io_return \<lparr>mat_value = ''hunter2'', mat_released = False\<rparr>),
     hd_bindings = [(\<lparr>provider_name = ''npm'', provider_version = ''1''\<rparr>, \<lparr>pb_executable = ''/p'', pb_digest = zero_digest\<rparr>)]\<rparr>"

definition demo_request :: request where
  "demo_request = \<lparr>rq_plan_id = ''p'', rq_run_id = ''x'', rq_operation = demo_operation ''a'' True [], rq_attempt = 1,
     rq_previous = None, rq_requirements = [\<lparr>req_kind = ''credential'', req_name = ''npm'', req_metadata = ''{}''\<rparr>]\<rparr>"

section \<open>Evaluation\<close>

lemmas demo_host_defs = demo_system_def demo_answer_def demo_decoders_def demo_services_def demo_host_def demo_request_def
  demo_operation_def

lemmas act_eval = io_bind_def io_return_def io_lift_def io_wrap_def io_fail_def wrap_result_def failing_def mapping_def plain_def

lemma printable_eval: "list_all printable s \<Longrightarrow> trim_space s = s" "list_all printable s \<Longrightarrow> valid_string s"
  using printable_checks by blast+

lemma empty_object_value: "json_value_valid ''{}''" 
  by (simp add: json_value_valid_def)

lemma request_checked: "validate_driver_request (Some demo_host) False demo_request = None"
  by (simp add: validate_driver_request_def demo_host_defs checks text_eval empty_object_value provider_ref_valid_def
    requirement_valid_iff requirement_error_def)

lemma path_checked: "validate_executable demo_system ''/p'' = io_return ''/p''"
  by (simp add: validate_executable_def demo_system_def act_eval printable_eval printable_def byte_def is_abs_def clean_path_def clean_element_def)

lemma empty_scan: "reject_duplicate_keys ''{}'' = None" "reject_duplicate_keys ''[]'' = None"
  by (simp_all add: reject_duplicate_keys_def decode_fuel_def skip_ws_def is_json_space_def byte_def eval_nat_numeral)

lemma empty_decode: "json_decode ''{}'' = Some (JObject [], [])" "json_decode ''[]'' = Some (JArray [], [])"
  by (simp_all add: json_decode_def max_nesting_depth_def skip_ws_def is_json_space_def byte_def eval_nat_numeral)

lemma exact_eval: "fill s = Inr x \<Longrightarrow> s = ''{}'' \<or> s = ''[]'' \<Longrightarrow> decode_exact fill s = Inr x"
  by (auto simp: decode_exact_def empty_scan empty_decode skip_ws_def)



definition demo_description :: describe_response where
  "demo_description = \<lparr>dr_provider = \<lparr>pi_name = ''npm'', pi_version = ''1''\<rparr>, dr_protocol_versions = [''1''],
       dr_capabilities = [CapabilityPlan, CapabilityApply, CapabilityReconcile], dr_requirements = []\<rparr>"

lemma text_max_eval: "list_all printable v \<Longrightarrow> v \<noteq> [] \<Longrightarrow> length v \<le> n \<Longrightarrow> validate_text_max m v n b = None"
  by (simp add: validate_text_max_iff printable_checks)

lemma response_read: "decode_response demo_decoders 1024 ''[]'' = Inr (demo_answer OperationDescribe ''req-1'')"
  by (simp add: decode_response_def decode_message_def codec_read_def printable_eval printable_def byte_def Let_def
      exact_eval [where x = "demo_answer OperationDescribe ''req-1''"] demo_decoders_def protocol_response_validate_def demo_answer_def
      text_eval text_max_eval checks empty_object_value envelope_head_error_def protocol_version_def validate_version_def)

lemma description_valid: "describe_response_validate demo_description = None"
  by (simp add: describe_response_validate_def demo_description_def provider_identity_validate_def text_eval text_max_eval checks loop_error_def
    check_protocol_version_def check_capability_def validate_version_def)


definition demo_envelope :: "protocol_operation \<Rightarrow> string \<Rightarrow> string \<Rightarrow> protocol_request" where
  "demo_envelope operation i payload = \<lparr>env_protocol_version = ''1'', env_request_id = i, env_operation = operation, env_payload = payload\<rparr>"

lemma envelope_length: "int (length (request_text (demo_envelope OperationDescribe ''req-1'' ''{}''))) \<le> 1024"
  by code_simp

lemma request_sent: "encode_request 1024 (demo_envelope OperationDescribe ''req-1'' ''{}'') = Inr (request_text (demo_envelope OperationDescribe ''req-1'' ''{}''))"
  using envelope_length
  by (simp add: encode_request_def protocol_request_validate_def envelope_head_error_def demo_envelope_def checks empty_object_value text_eval text_max_eval
    validate_version_def printable_runes codec_write_def)

lemma ran: "run_process demo_system \<lparr>cl_max_message = 1024, cl_max_stderr = 64, cl_environment = e\<rparr> ''/p'' input no_options 0 = (1, Inr ''[]'')"
  by (simp add: run_process_def boundary_def no_options_def demo_system_def act_eval check_started_context_def check_context_def provider_output_def Let_def
    limited_write_def)

lemma described: "client_describe demo_system demo_decoders (\<lambda>m. m) (hd_client demo_host) False \<lparr>ep_name = [], ep_executable = ''/p''\<rparr> 0
  = (1, Inr demo_description)"
proof -
  have number: "sy_sequence demo_system 0 = (0, 1)" by (simp add: demo_system_def)
  have one: "decimal (Suc 0) = ''1''" by code_simp
  have corr: "check_correlation (demo_answer OperationDescribe ''req-1'') (demo_envelope OperationDescribe ''req-1'' ''{}'') = None"
    by (simp add: check_correlation_def demo_answer_def demo_envelope_def checks)
  have payload: "decode_payload (dec_describe_response demo_decoders) describe_response_validate ''{}'' = Inr demo_description"
    by (simp add: decode_payload_def exact_eval [where x = demo_description] description_valid demo_decoders_def demo_description_def [symmetric])
  have answer: "env_payload (demo_answer OperationDescribe ''req-1'') = ''{}''" "res_status (demo_answer OperationDescribe ''req-1'') = StatusOK" by (simp_all add: demo_answer_def)
  have options: "co_response no_options = None" "co_redactions no_options = []" by (simp_all add: no_options_def)
  show ?thesis unfolding client_describe_def call_with_options_def demo_host_def Let_def
  by (simp add: path_checked act_eval number one protocol_version_def request_sent [unfolded demo_envelope_def] ran response_read corr [unfolded demo_envelope_def] payload
    answer options)
qed


lemma new_npm_ref: "new_credential_ref ''npm'' = Inr ''npm''"
proof -
  have "validate_identifier ''credential reference'' ''npm'' = None" by (simp add: text_eval)
  then show ?thesis by (simp only: new_credential_ref_def new_identifier_def checked_def option.case)
qed

lemma demo_prepare: "\<exists>i. prepare demo_services (Some demo_host) False demo_request DriverApply 0 = (1, Inr (i, [''npm'']))
  \<and> iv_environment i = [''PATH=/bin'', ''TOKEN=hunter2''] \<and> iv_redactions i = [''hunter2'']"
proof -
  have verified: "verify_provider demo_services demo_host ''/p'' \<lparr>provider_name = ''npm'', provider_version = ''1''\<rparr> CapabilityApply 0 = (1, Inr ())"
    using described by (simp add: verify_provider_def demo_services_def act_eval verify_description_def demo_description_def protocol_version_def)
  have needed: "credential_requirements (sv_field demo_services) (rq_requirements demo_request) = Inr [\<lparr>cq_ref = ''npm'', cq_environment = ''TOKEN''\<rparr>]"
  proof -
    show ?thesis by (simp add: new_npm_ref credential_requirements_def demo_request_def add_credential_def parse_requirement_def demo_services_def text_eval
      valid_environment_name_def name_start_def name_part_def)
  qed
  have merged: "merge_environment [''PATH=/bin''] [''TOKEN=hunter2''] = Inr [''PATH=/bin'', ''TOKEN=hunter2'']" 
    unfolding merge_environment_Inr
  proof (intro exI conjI)
    show "map parse_environment_entry ([''PATH=/bin''] @ [''TOKEN=hunter2'']) = map Inr [(''PATH'', ''/bin''), (''TOKEN'', ''hunter2'')]"
      by code_simp
  qed (simp_all add: environment_list_def)
  show ?thesis
    using request_checked verified needed merged
    by (simp add: prepare_def prepare_request_def act_eval Let_def resolve_binding_def demo_host_def demo_request_def demo_operation_def
      verify_provider_executable_def zero_digest_def resolve_credential_def material_bytes_def process_environment_def checked_def)
qed

definition demo_options :: "nat call_options" where
  "demo_options = no_options\<lparr>co_redactions := [''hunter2'']\<rparr>"

definition demo_result :: distribution_result where
  "demo_result = \<lparr>dres_state = ResultPublished, dres_provider_state = ''key=[REDACTED]'', dres_evidence = ''{}''\<rparr>"

lemma demo_applied:
  "client_apply demo_system demo_decoders (\<lambda>m. m) (hd_client demo_host) False ''/p'' (execution_request demo_request) demo_options 1
    = (2, Inr demo_result)"
proof -
  let ?text = "apply_request_text (execution_request demo_request)"
  have number: "sy_sequence demo_system (Suc 0) = (Suc 0, 2)" by (simp add: demo_system_def)
  have two: "decimal 2 = ''2''" by code_simp
  have payload_text: "json_value_valid ?text" by code_simp
  have sent: "encode_request 1024 (demo_envelope OperationApply ''req-2'' ?text) = Inr (request_text (demo_envelope OperationApply ''req-2'' ?text))"
  proof -
    have "int (length (request_text (demo_envelope OperationApply ''req-2'' ?text))) \<le> 1024" by code_simp
    with payload_text show ?thesis
      by (simp add: encode_request_def protocol_request_validate_def envelope_head_error_def demo_envelope_def checks text_eval text_max_eval
        validate_version_def printable_runes codec_write_def)
  qed
  have run: "run_process demo_system \<lparr>cl_max_message = 1024, cl_max_stderr = 64, cl_environment = e\<rparr> ''/p'' input demo_options (Suc 0) = (2, Inr ''{}'')" for e input
    by (simp add: run_process_def boundary_def demo_options_def no_options_def demo_system_def act_eval check_started_context_def
      check_context_def provider_output_def Let_def limited_write_def)
  have response: "decode_response demo_decoders 1024 ''{}'' = Inr (demo_answer OperationApply ''req-2'')"
    by (simp add: decode_response_def decode_message_def codec_read_def printable_eval printable_def byte_def Let_def
      exact_eval [where x = "demo_answer OperationApply ''req-2''"] demo_decoders_def protocol_response_validate_def demo_answer_def
      text_eval text_max_eval checks empty_object_value envelope_head_error_def protocol_version_def validate_version_def)
  have corr: "check_correlation (demo_answer OperationApply ''req-2'') (demo_envelope OperationApply ''req-2'' ?text) = None"
    by (simp add: check_correlation_def demo_answer_def demo_envelope_def checks)
  let ?r = "\<lparr>dres_state = ResultPublished, dres_provider_state = ''key=hunter2'', dres_evidence = ''{}''\<rparr>"
  have valid: "distribution_result_validate ?r = None"
    by (simp add: distribution_result_validate_def checks text_max_eval printable_def byte_def empty_object_value)
  have payload: "decode_payload (dec_result demo_decoders) distribution_result_validate ''{}'' = Inr ?r"
    by (simp add: decode_payload_def exact_eval [where x = ?r] valid demo_decoders_def)
  have redacted: "redact_distribution_result (\<lambda>m. m) [''hunter2''] ?r = demo_result"
    by (simp add: redact_distribution_result_def demo_result_def redact_text_def replace_all_def redacted_def redact_json_def empty_decode object_text_def)
  have answer: "env_payload (demo_answer OperationApply ''req-2'') = ''{}''" "res_status (demo_answer OperationApply ''req-2'') = StatusOK"
    by (simp_all add: demo_answer_def)
  have options: "co_response demo_options = None" "new_redactor (co_redactions demo_options) = [''hunter2'']"
    by (simp_all add: demo_options_def no_options_def new_redactor_def add_secret_def)
  have request: "encode_payload apply_request_validate apply_request_text (execution_request demo_request) = Inr ?text"
    by (simp add: encode_payload_def apply_request_validate_def validate_execution_request_def execution_request_def demo_request_def demo_operation_def
       execution_key_def checks text_eval text_max_eval empty_object_value)
  show ?thesis unfolding client_apply_def call_with_options_def demo_host_def Let_def
    by (simp add: path_checked act_eval request number two protocol_version_def sent [unfolded demo_envelope_def] run response
      corr [unfolded demo_envelope_def] payload answer options redacted)
qed

end
