(* ===== verification/Host_Claims.thy ===== *)
theory Host_Claims
  imports Host_Demo Executor_Claims
begin

text \<open>
  The properties of the provider host: what the executor's journal sees of a provider process, what the process is
  given, what is let out of what it answers, and which environment variable a credential is read from.
\<close>

section \<open>The boundaries of an execution\<close>




section \<open>What a process is given\<close>


text \<open>A preparation hands over exactly the credentials the operation requires: the process environment is that of
  the client with one variable for each required credential, every value that goes in is among the values redacted
  from what comes out, the references reported to the journal are those required, each once and sorted, and the
  invocation is unused and bound to the provider, operation, attempt and call it was prepared for.\<close>

theorem prepared_invocation_is_exact:
  assumes "prepare sv (Some d) nil rq operation w = (w', Inr (i, refs))"
  shows "\<exists>b c qs. resolve_binding d (op_provider (rq_operation rq)) = Inr b \<and> hd_client d = Some c
    \<and> credential_requirements (sv_field sv) (rq_requirements rq) = Inr qs \<and> length (iv_redactions i) = length qs
    \<and> merge_environment (cl_environment c) (map2 (\<lambda>q value. cq_environment q @ CHR ''='' # value) qs (iv_redactions i)) = Inr (iv_environment i)
    \<and> set refs = cq_ref ` set qs \<and> distinct refs \<and> sorted refs
    \<and> \<not> iv_used i \<and> iv_provider i = op_provider (rq_operation rq) \<and> iv_operation_id i = op_id (rq_operation rq)
    \<and> iv_attempt i = rq_attempt rq \<and> iv_operation i = operation"
  using assms
proof (rule prepared_parts)
  fix b c qs st
  assume "resolve_binding d (op_provider (rq_operation rq)) = Inr b" "hd_client d = Some c"
    and "credential_requirements (sv_field sv) (rq_requirements rq) = Inr qs" and st: "resolved_for qs st"
    and "merge_environment (cl_environment c) (rv_environment st) = Inr (iv_environment i)" "iv_redactions i = rv_redactions st"
    and "refs = sort (rv_refs st)" "\<not> iv_used i" "iv_provider i = op_provider (rq_operation rq)"
    "iv_operation_id i = op_id (rq_operation rq)" "iv_attempt i = rq_attempt rq" "iv_operation i = operation"
  then show ?thesis by (intro exI [of _ b] exI [of _ c] exI [of _ qs]) (simp add: resolved_for_def)
qed

theorem prepared_invocation_is_exact_witness:
  "\<exists>i. prepare demo_services (Some demo_host) False demo_request DriverApply 0 = (1, Inr (i, [''npm'']))
    \<and> iv_environment i = [''PATH=/bin'', ''TOKEN=hunter2''] \<and> iv_redactions i = [''hunter2''] \<and> \<not> iv_used i \<and> iv_attempt i = 1"
proof -
  obtain i where i: "prepare demo_services (Some demo_host) False demo_request DriverApply 0 = (1, Inr (i, [''npm'']))"
    "iv_environment i = [''PATH=/bin'', ''TOKEN=hunter2'']" "iv_redactions i = [''hunter2'']"
    using demo_prepare by blast
  with prepared_invocation_is_exact [OF i(1)] show ?thesis by (auto simp: demo_request_def)
qed

section \<open>What is let out\<close>



text \<open>C39  The output of a provider is bounded.  A process succeeds with what it wrote, all of it, exactly when it ended
  without error and wrote no more than the bound of a message; how the output is cut into writes does not
  matter, and not even a failed process makes the host keep more than the bounds.\<close>

theorem provider_output_is_bounded:
  assumes "0 \<le> cl_max_message c" and "0 \<le> cl_max_stderr c"
  shows "(provider_output c path secrets (ended, out, err) = Inr s \<longleftrightarrow>
      ended = None \<and> s = concat out \<and> int (length (concat out)) \<le> cl_max_message c)
    \<and> lw_buffer (write_chunks \<lparr>lw_buffer = [], lw_limit = cl_max_message c, lw_exceeded = False\<rparr> out)
      = take (nat (cl_max_message c)) (concat out)
    \<and> cw_buffer (capture_chunks \<lparr>cw_buffer = [], cw_limit = cl_max_stderr c, cw_truncated = False\<rparr> err)
      = take (nat (cl_max_stderr c)) (concat err)"
  using assms limited_chunks [of "\<lparr>lw_buffer = [], lw_limit = cl_max_message c, lw_exceeded = False\<rparr>" out]
    captured_chunks [of "\<lparr>cw_buffer = [], cw_limit = cl_max_stderr c, cw_truncated = False\<rparr>" err]
  by (auto simp: provider_output_def Let_def split: option.splits)

theorem provider_output_is_bounded_witness:
  "provider_output \<lparr>cl_max_message = 3, cl_max_stderr = 2, cl_environment = []\<rparr> ''/p'' [] (None, [''a'', ''bc''], []) = Inr ''abc''
   \<and> (\<forall>s. provider_output \<lparr>cl_max_message = 3, cl_max_stderr = 2, cl_environment = []\<rparr> ''/p'' [] (None, [''a'', ''bcd''], []) \<noteq> Inr s)"
  by (simp add: provider_output_is_bounded)

text \<open>C36  Whatever bytes a provider reads, a turn of \<open>ServeOnce\<close> that writes writes one valid response of bounded size
  for the request it read, and the handler is asked, so that the world can change, only for a request of the
  supported version with a known operation; then the host accepts the response as the answer to its request.\<close>

theorem every_answer_is_valid:
  assumes "serve_once error_text dec bound handler nil input w = (w', Inr out)"
  shows "\<exists>r resp. decode_request dec bound input = Inr r \<and> out = response_text resp \<and> int (length out) \<le> bound
    \<and> protocol_response_validate resp = None \<and> env_request_id resp = env_request_id r \<and> env_operation resp = env_operation r
    \<and> (check_version r = None \<longrightarrow> check_correlation resp r = None)
    \<and> (w' = w \<or> (check_version r = None \<and> protocol_operation_valid (env_operation r)))"
  using assms
proof (rule serve_once_answers)
  fix r h st payload err
  assume "decode_request dec bound input = Inr r" "encode_response bound (answer r st payload err) = Inr out"
    and "w' = w \<or> (check_version r = None \<and> protocol_operation_valid (env_operation r))"
  then show ?thesis
    by (intro exI [of _ r] exI [of _ "answer r st payload err"]) (auto simp: encode_response_Inr answer_correlates, simp_all add: answer_def)
qed

definition demo_old_request :: protocol_request where
  "demo_old_request = \<lparr>env_protocol_version = ''2'', env_request_id = ''req-1'', env_operation = OperationDescribe, env_payload = ''{}''\<rparr>"

definition demo_handler :: "nat handler" where
  "demo_handler = \<lparr>hd_describe = (\<lambda>n. (n + 1, Inr demo_description)), hd_plan = (\<lambda>_. io_fail (new_provider_error ErrorProtocol ''no'' False)),
     hd_apply = (\<lambda>_. io_fail (new_provider_error ErrorProtocol ''no'' False)), hd_reconcile = (\<lambda>_. io_fail (new_provider_error ErrorProtocol ''no'' False))\<rparr>"

definition demo_refusal :: protocol_response where
  "demo_refusal = answer demo_old_request StatusError [] (Some (new_provider_error ErrorProtocol ''old'' False))"

lemma demo_refused:
  "serve_once (\<lambda>_. ''old'') (demo_decoders\<lparr>dec_request := \<lambda>_. Inr demo_old_request\<rparr>) 1024 (Some demo_handler) False ''{}'' 0
     = (0, Inr (response_text demo_refusal))"
proof -
  have "decode_request (demo_decoders\<lparr>dec_request := \<lambda>_. Inr demo_old_request\<rparr>) 1024 ''{}'' = Inr demo_old_request"
    by (simp add: decode_request_def decode_message_def codec_read_def printable_eval printable_def byte_def Let_def
      exact_eval [where x = demo_old_request] protocol_request_validate_def demo_old_request_def text_eval text_max_eval checks
      empty_object_value envelope_head_error_def validate_version_def printable_runes)
  moreover have "int (length (response_text demo_refusal)) \<le> 1024" by code_simp
  moreover have "protocol_response_validate demo_refusal = None"
    by (simp add: demo_refusal_def answer_def demo_old_request_def protocol_response_validate_def envelope_head_error_def checks text_eval
      text_max_eval protocol_version_def validate_version_def printable_runes provider_error_validate_def new_provider_error_def
      validate_optional_json_def)
  ultimately show ?thesis
    by (simp add: serve_once_def act_eval check_version_def protocol_version_def write_error_def encode_response_def codec_write_def
      demo_refusal_def fail_if_def demo_old_request_def checks)
qed

theorem every_answer_is_valid_witness:
  "\<exists>resp. serve_once (\<lambda>_. ''old'') (demo_decoders\<lparr>dec_request := \<lambda>_. Inr demo_old_request\<rparr>) 1024 (Some demo_handler) False ''{}'' 0
     = (0, Inr (response_text resp)) \<and> protocol_response_validate resp = None \<and> int (length (response_text resp)) \<le> 1024"
  using every_answer_is_valid [OF demo_refused] demo_refused by metis

section \<open>Where credentials are read from\<close>

text \<open>C37  The variables that \<open>SelectSources\<close> chooses keep credentials apart: no two references are read from the same
  variable, whatever the case of its name; each chosen reference is one a target requires; and the choice is the
  explicit mapping before the configured one before the default, which is used only for a trusted provider whose
  credentials exactly one target requires.\<close>

theorem selected_sources_are_isolated:
  assumes "select_sources env_field ts configured explicit trusted = Inr sources"
  shows "(\<forall>(r, x) \<in> set sources. \<forall>(r', x') \<in> set sources. upper_name x = upper_name x' \<longrightarrow> r = r')
    \<and> (\<forall>(r, x) \<in> set sources. \<exists>(t, raw) \<in> requirement_pairs ts. \<exists>use. credential_use env_field (t, raw) = Some (r, use) \<and>
        (map_of explicit r = Some x
         \<or> (map_of explicit r = None \<and> map_of configured r = Some x)
         \<or> (map_of explicit r = None \<and> map_of configured r = None \<and> us_provider use \<in> trusted
             \<and> x = default_source (us_provider use) (us_environment use)
             \<and> (\<exists>i. \<forall>(u, q) \<in> requirement_pairs ts. \<forall>r' use'. credential_use env_field (u, q) = Some (r', use')
                    \<and> us_provider use' = us_provider use \<longrightarrow> tgt_id u = i))))"
proof -
  from assms obtain st owners where st: "for_each (use_target env_field) \<lparr>ug_uses = [], ug_targets = []\<rparr> ts = Inr st"
    and chosen: "for_each (select_source (chosen_source st configured explicit trusted)) ([], []) (sort_key fst (ug_uses st)) = Inr (sources, owners)"
    by (auto simp: select_sources_def checks)
  let ?pick = "chosen_source st configured explicit trusted" and ?S = "requirement_pairs ts"
  have usages: "usages_of env_field ?S st" by (rule use_targets_usages [OF st])
  have "owned ?pick {} ([], [])" by (simp add: owned_def)
  from select_sources_owned [OF chosen this] have owned: "owned ?pick (set (ug_uses st)) (sources, owners)" by simp
  have apart: "r = r'" if "(r, x) \<in> set sources" "(r', x') \<in> set sources" "upper_name x = upper_name x'" for r x r' x'
  proof -
    have "map_of owners (upper_name x) = Some r" "map_of owners (upper_name x') = Some r'" using owned that(1,2) by (auto simp: owned_def)
    with that(3) show ?thesis by simp
  qed
  have chosen_from: "\<exists>(t, raw) \<in> ?S. \<exists>use. credential_use env_field (t, raw) = Some (r, use) \<and>
        (map_of explicit r = Some x
         \<or> (map_of explicit r = None \<and> map_of configured r = Some x)
         \<or> (map_of explicit r = None \<and> map_of configured r = None \<and> us_provider use \<in> trusted
             \<and> x = default_source (us_provider use) (us_environment use)
             \<and> (\<exists>i. \<forall>(u, q) \<in> ?S. \<forall>r' use'. credential_use env_field (u, q) = Some (r', use')
                    \<and> us_provider use' = us_provider use \<longrightarrow> tgt_id u = i)))" if rx: "(r, x) \<in> set sources" for r x
  proof -
    obtain use where use: "x \<noteq> []" "(r, use) \<in> set (ug_uses st)" "x = ?pick (r, use)" using owned rx by (auto simp: owned_def)
    then have "map_of (ug_uses st) r = Some use" using usages by (simp add: usages_of_def)
    then obtain t raw where t: "(t, raw) \<in> ?S" "credential_use env_field (t, raw) = Some (r, use)"
      using usages by (auto simp: usages_of_def simp del: map_of_eq_Some_iff)
    let ?ids = "case map_of (ug_targets st) (us_provider use) of None \<Rightarrow> [] | Some ids \<Rightarrow> ids"
    have ids: "set ?ids = {tgt_id t | t raw ref u. (t, raw) \<in> ?S \<and> credential_use env_field (t, raw) = Some (ref, u) \<and> us_provider u = us_provider use}"
      using usages unfolding usages_of_def Let_def by blast
    have "\<exists>i. \<forall>(u, q) \<in> ?S. \<forall>r' use'. credential_use env_field (u, q) = Some (r', use') \<and> us_provider use' = us_provider use \<longrightarrow> tgt_id u = i"
      if "length ?ids = 1"
    proof -
      from that obtain i where "?ids = [i]" by (metis One_nat_def length_0_conv length_Suc_conv)
      with ids have "set ?ids = {i}" by simp
      with ids show ?thesis by (intro exI [of _ i]) blast
    qed
    with use t show ?thesis
      by (intro bexI [of _ "(t, raw)"]) (auto simp: chosen_source_def split: option.splits if_splits)
  qed
  show ?thesis using apart chosen_from by blast
qed

definition demo_credential_target :: target where
  "demo_credential_target = demo_target\<lparr>tgt_requirements := [\<lparr>req_kind = ''credential'', req_name = ''npm'', req_metadata = ''{}''\<rparr>]\<rparr>"

lemma demo_selected:
  "select_sources (\<lambda>_. Inr ''DISTROPLANE_NPM_TOKEN'') [demo_credential_target] [] [] {''npm''} = Inr [(''npm'', ''NPM_TOKEN'')]"
proof -
  have needed: "parse_requirement (\<lambda>_. Inr ''DISTROPLANE_NPM_TOKEN'') \<lparr>req_kind = ''credential'', req_name = ''npm'', req_metadata = ''{}''\<rparr>
      = Inr \<lparr>cq_ref = ''npm'', cq_environment = ''DISTROPLANE_NPM_TOKEN''\<rparr>"
    by (simp add: parse_requirement_def new_npm_ref valid_environment_name_def name_start_def name_part_def byte_def)
  show ?thesis
    by (simp add: select_sources_def use_target_def use_requirement_def demo_credential_target_def demo_target_def needed Let_def checked_def
      select_source_def chosen_source_def default_source_def upper_name_def byte_def)
qed

theorem selected_sources_are_isolated_witness:
  "\<exists>(t, raw) \<in> requirement_pairs [demo_credential_target]. \<exists>use.
     credential_use (\<lambda>_. Inr ''DISTROPLANE_NPM_TOKEN'') (t, raw) = Some (''npm'', use)"
  using selected_sources_are_isolated [OF demo_selected] by fastforce

section \<open>Where the parts do not fit\<close>

text \<open>When the journal refuses the dispatch, the process is let read its request before it is killed.\<close>

lemma refused_dispatch_releases_request:
  assumes "sy_start sys path (case co_environment options of None \<Rightarrow> cl_environment c | Some e \<Rightarrow> e) w = (w1, Inr ())"
    and "co_started options = None" and "sy_context sys w1 = (w2, None)"
    and "co_dispatched options = Some f" and "f w2 = (w3, Inl err)"
  shows "run_process sys c path input options w = (fst (sy_wait sys (sy_terminate sys (sy_release sys input w3))), Inl (Plain err))"
  using assms by (simp add: run_process_def boundary_def check_started_context_def clean_up_def act_eval)

text \<open>A result that the protocol accepts and the executor refuses: the provider state may have 1024 bytes, or 256.\<close>

lemma long_provider_state_is_refused:
  "\<exists>r v. distribution_result_validate r = None \<and> map_distribution_result r = Inr v \<and> driver_result_error v \<noteq> None"
proof -
  let ?v = "replicate 300 CHR ''a''" and ?r = "\<lambda>v. \<lparr>dres_state = ResultPublished, dres_provider_state = v, dres_evidence = ''{}''\<rparr>"
  have all: "list_all printable ?v" by (simp add: list_all_iff printable_def byte_def)
  have "distribution_result_validate (?r ?v) = None"
    using all text_max_eval [of ?v 1024] by (simp add: distribution_result_validate_def checks empty_object_value)
  moreover have "validate_text256 ''provider state'' ?v True \<noteq> None" by (simp add: validate_text256_def printable_text [OF all])
  ultimately show ?thesis by (intro exI [of _ "?r ?v"]) (simp add: map_distribution_result_def driver_result_error_def)
qed

text \<open>The answer to a request of another version is of version 1, which its sender does not take for an answer.\<close>

lemma refusal_of_version_is_uncorrelated: "check_version r \<noteq> None \<Longrightarrow> check_correlation (answer r st payload err) r \<noteq> None"
  by (auto simp: check_version_def check_correlation_def answer_def fail_if_def)

end
