(* ===== verification/Go_Files.thy ===== *)
theory Go_Files
  imports Go_Io Go_Path Go_Json_Print "HOL-Library.Word"
begin

unbundle bit_operations_syntax

text \<open>
  What the code uses of package \<open>os\<close>: a tree of regular files, directories and symbolic links, and the calls on it.
  Every call sees what other processes made of the tree in the meantime (\<open>dk_others\<close>), and may fail before or after it
  took effect (\<open>dk_faults\<close>); a process that is killed is one whose calls all fail from then on.  A link shares the content
  of a file at the time it is made: no file is written through one of its names after it got another.
\<close>

section \<open>The tree\<close>

datatype node = Regular string "32 word" | Folder "32 word" | Link string

type_synonym nodes = "(string list \<times> node) list"

fun is_folder :: "node \<Rightarrow> bool" where
  "is_folder (Folder _) = True"
| "is_folder _ = False"

fun is_regular :: "node \<Rightarrow> bool" where
  "is_regular (Regular _ _) = True"
| "is_regular _ = False"

fun node_perm :: "node \<Rightarrow> 32 word" where
  "node_perm (Regular _ p) = p"
| "node_perm (Folder p) = p"
| "node_perm (Link _) = 0x1FF"

fun node_size :: "node \<Rightarrow> nat" where
  "node_size (Regular s _) = length s"
| "node_size (Folder _) = 4096"
| "node_size (Link t) = length t"

definition lookup :: "nodes \<Rightarrow> string list \<Rightarrow> node option" where
  "lookup ns q = (if q = [] then Some (Folder 0x1ED) else map_of ns q)"

definition put_node :: "string list \<Rightarrow> node \<Rightarrow> nodes \<Rightarrow> nodes" where
  "put_node q n ns = (q, n) # ns"

definition drop_node :: "string list \<Rightarrow> nodes \<Rightarrow> nodes" where
  "drop_node q ns = filter (\<lambda>x. fst x \<noteq> q) ns"

lemma lookup_put: "lookup (put_node q n ns) p = (if p = q \<and> q \<noteq> [] then Some n else lookup ns p)"
  by (simp add: lookup_def put_node_def)

lemma lookup_drop: "lookup (drop_node q ns) p = (if p = q \<and> q \<noteq> [] then None else lookup ns p)"
proof -
  have "map_of (filter (\<lambda>x. fst x \<noteq> q) ns) p = (if p = q then None else map_of ns p)" for p by (induction ns) auto
  then show ?thesis by (simp add: lookup_def drop_node_def)
qed

section \<open>Resolving a path\<close>

definition err_not_exist :: error where
  "err_not_exist = ErrorIs ErrNotExist ''file does not exist'' []"

definition err_exist :: error where
  "err_exist = ErrorIs ErrExist ''file already exists'' []"

definition err_not_folder :: error where
  "err_not_folder = Errorf ''not a directory'' []"

definition path_elements :: "string \<Rightarrow> string list" where
  "path_elements p = filter (\<lambda>e. e \<noteq> [] \<and> e \<noteq> ''.'') (split_path p)"

text \<open>Following a path from a directory, at most \<open>k\<close> links.\<close>

function walk :: "nodes \<Rightarrow> nat \<Rightarrow> string list \<Rightarrow> string list \<Rightarrow> string list result" where
  "walk ns k at [] = Inr at"
| "walk ns k at (c # cs) =
     (if c = ''..'' then walk ns k (butlast at) cs
      else (case lookup ns (at @ [c]) of
          None \<Rightarrow> Inl err_not_exist
        | Some (Folder _) \<Rightarrow> walk ns k (at @ [c]) cs
        | Some (Regular _ _) \<Rightarrow> if cs = [] then Inr (at @ [c]) else Inl err_not_folder
        | Some (Link t) \<Rightarrow>
            if k = 0 then Inl (Errorf ''too many links'' [])
            else walk ns (k - 1) (if is_abs t then [] else at) (path_elements t @ cs)))"
  by pat_completeness auto
termination
  by (relation "measures [\<lambda>(ns, k, at, cs). k, \<lambda>(ns, k, at, cs). length cs]") auto

declare walk.simps(2) [simp del]

definition max_links :: nat where
  "max_links = 255"

text \<open>Where a path leads, and where its last element is, which need not exist.\<close>

definition follow :: "nodes \<Rightarrow> string \<Rightarrow> string list result" where
  "follow ns p = walk ns max_links [] (path_elements p)"

definition locate :: "nodes \<Rightarrow> string \<Rightarrow> string list result" where
  "locate ns p = (case path_elements p of [] \<Rightarrow> Inr []
     | e # es \<Rightarrow> bind_result (walk ns max_links [] (butlast (e # es))) (\<lambda>d.
         case lookup ns d of Some (Folder _) \<Rightarrow> Inr (d @ [last (e # es)]) | _ \<Rightarrow> Inl err_not_folder))"

definition path_text :: "string list \<Rightarrow> string" where
  "path_text q = CHR ''/'' # join_slash q"

definition node_at :: "nodes \<Rightarrow> string list \<Rightarrow> node result" where
  "node_at ns q = (case lookup ns q of None \<Rightarrow> Inl err_not_exist | Some n \<Rightarrow> Inr n)"

section \<open>Calls\<close>

datatype fault = FailBefore string | FailAfter string

record disk =
  dk_nodes :: nodes
  dk_calls :: nat
  dk_faults :: "nat \<Rightarrow> fault option"
  dk_others :: "nat \<Rightarrow> nodes \<Rightarrow> nodes"
  dk_random :: "nat \<Rightarrow> nat"
  dk_cwd :: string

text \<open>One call: what it does to the tree and what it answers.\<close>

definition call :: "(nodes \<Rightarrow> nodes \<times> 'a result) \<Rightarrow> (disk, 'a) io" where
  "call f dk =
     (let ns = dk_others dk (dk_calls dk) (dk_nodes dk); quiet = dk\<lparr>dk_nodes := ns, dk_calls := Suc (dk_calls dk)\<rparr>;
          done = quiet\<lparr>dk_nodes := fst (f ns)\<rparr> in
      case dk_faults dk (dk_calls dk) of
        None \<Rightarrow> (done, snd (f ns))
      | Some (FailBefore m) \<Rightarrow> (quiet, Inl (Errorf m []))
      | Some (FailAfter m) \<Rightarrow> (done, Inl (Errorf m [])))"

definition observe :: "(nodes \<Rightarrow> 'a result) \<Rightarrow> (disk, 'a) io" where
  "observe f = call (\<lambda>ns. (ns, f ns))"

definition change :: "(nodes \<Rightarrow> nodes result) \<Rightarrow> (disk, unit) io" where
  "change f = call (\<lambda>ns. case f ns of Inl err \<Rightarrow> (ns, Inl err) | Inr ns' \<Rightarrow> (ns', Inr ()))"

text \<open>A relative path is one from the working directory.\<close>

definition full :: "disk \<Rightarrow> string \<Rightarrow> string" where
  "full dk p = (if is_abs p then p else dk_cwd dk @ CHR ''/'' # p)"

definition on_path :: "(string \<Rightarrow> (disk, 'a) io) \<Rightarrow> string \<Rightarrow> (disk, 'a) io" where
  "on_path m p = (\<lambda>dk. m (full dk p) dk)"

definition fs_abs :: "string \<Rightarrow> (disk, string) io" where
  "fs_abs p = (\<lambda>dk. if is_abs p then (dk, Inr (clean_path p)) else observe (\<lambda>_. Inr (abs_path (dk_cwd dk) p)) dk)"

definition fs_lstat :: "string \<Rightarrow> (disk, node) io" where
  "fs_lstat = on_path (\<lambda>p. observe (\<lambda>ns. bind_result (locate ns p) (node_at ns)))"

definition fs_stat :: "string \<Rightarrow> (disk, node) io" where
  "fs_stat = on_path (\<lambda>p. observe (\<lambda>ns. bind_result (follow ns p) (node_at ns)))"

definition fs_eval_links :: "string \<Rightarrow> (disk, string) io" where
  "fs_eval_links = on_path (\<lambda>p. observe (\<lambda>ns. bind_result (follow ns p) (\<lambda>q. Inr (path_text q))))"

definition fs_read_file :: "string \<Rightarrow> (disk, string) io" where
  "fs_read_file = on_path (\<lambda>p. observe (\<lambda>ns. bind_result (follow ns p) (\<lambda>q. bind_result (node_at ns q) (\<lambda>n.
     case n of Regular s _ \<Rightarrow> Inr s | _ \<Rightarrow> Inl (Errorf ''is a directory'' [])))))"

text \<open>The names in a directory, sorted.\<close>

definition fs_read_dir :: "string \<Rightarrow> (disk, string list) io" where
  "fs_read_dir = on_path (\<lambda>p. observe (\<lambda>ns. bind_result (follow ns p) (\<lambda>q. bind_result (node_at ns q) (\<lambda>n.
     if is_folder n then Inr (sort (remdups (map last (filter (\<lambda>k. k \<noteq> [] \<and> butlast k = q) (map fst ns)))))
     else Inl err_not_folder))))"

definition fs_mkdir :: "string \<Rightarrow> 32 word \<Rightarrow> (disk, unit) io" where
  "fs_mkdir p perm = on_path (\<lambda>p. change (\<lambda>ns. bind_result (locate ns p) (\<lambda>q.
     if lookup ns q \<noteq> None then Inl err_exist else Inr (put_node q (Folder perm) ns)))) p"

text \<open>\<open>CreateTemp\<close> with a pattern that ends in a star: the name it found, if one of its tries was free.\<close>

definition fs_create_temp :: "string \<Rightarrow> string \<Rightarrow> (disk, string) io" where
  "fs_create_temp dir pattern = (\<lambda>dk. let p = join_path [dir, pattern @ decimal (dk_random dk (dk_calls dk))] in
     on_path (\<lambda>p'. call (\<lambda>ns. case locate ns p' of
         Inl err \<Rightarrow> (ns, Inl err)
       | Inr q \<Rightarrow> if lookup ns q \<noteq> None then (ns, Inl err_exist) else (put_node q (Regular [] 0x180) ns, Inr p))) p dk)"

text \<open>Through the handle of a regular file.\<close>

definition on_regular :: "(string \<Rightarrow> 32 word \<Rightarrow> node) \<Rightarrow> string \<Rightarrow> (disk, unit) io" where
  "on_regular f = on_path (\<lambda>p. change (\<lambda>ns. bind_result (locate ns p) (\<lambda>q.
     case lookup ns q of Some (Regular s perm) \<Rightarrow> Inr (put_node q (f s perm) ns) | _ \<Rightarrow> Inl err_not_exist)))"

definition fs_chmod :: "string \<Rightarrow> 32 word \<Rightarrow> (disk, unit) io" where
  "fs_chmod p perm = on_regular (\<lambda>s _. Regular s perm) p"

definition fs_write :: "string \<Rightarrow> string \<Rightarrow> (disk, unit) io" where
  "fs_write p data = on_regular (\<lambda>s perm. Regular (s @ data) perm) p"

text \<open>\<open>Sync\<close> and \<open>Close\<close> change nothing that a call sees.\<close>

definition fs_sync :: "string \<Rightarrow> (disk, unit) io" where
  "fs_sync p = observe (\<lambda>ns. Inr ())"

definition fs_close :: "string \<Rightarrow> (disk, unit) io" where
  "fs_close p = observe (\<lambda>ns. Inr ())"

definition fs_link :: "string \<Rightarrow> string \<Rightarrow> (disk, unit) io" where
  "fs_link old new = (\<lambda>dk. change (\<lambda>ns. bind_result (locate ns (full dk old)) (\<lambda>from.
     bind_result (locate ns (full dk new)) (\<lambda>to. case lookup ns from of
         Some (Regular s perm) \<Rightarrow> if lookup ns to \<noteq> None then Inl err_exist else Inr (put_node to (Regular s perm) ns)
       | _ \<Rightarrow> Inl err_not_exist))) dk)"

definition fs_remove :: "string \<Rightarrow> (disk, unit) io" where
  "fs_remove = on_path (\<lambda>p. change (\<lambda>ns. bind_result (locate ns p) (\<lambda>q. case lookup ns q of
       None \<Rightarrow> Inl err_not_exist
     | Some n \<Rightarrow> if is_folder n \<and> (\<exists>k \<in> fst ` set ns. k \<noteq> [] \<and> butlast k = q) then Inl (Errorf ''directory not empty'' [])
         else Inr (drop_node q ns))))"

definition fs_sync_dir :: "string \<Rightarrow> (disk, unit) io" where
  "fs_sync_dir = on_path (\<lambda>p. observe (\<lambda>ns. bind_result (follow ns p) (\<lambda>q. bind_result (node_at ns q) (\<lambda>_. Inr ()))))"

text \<open>A call whose error the code looks at, and a deferred call, whose result it does not.\<close>

definition io_try :: "('w, 'a) io \<Rightarrow> ('w, 'e, 'a result) act" where
  "io_try m = (\<lambda>w. case m w of (w', r) \<Rightarrow> (w', Inr r))"

definition deferred :: "('w, unit) io \<Rightarrow> ('w, 'a) io \<Rightarrow> ('w, 'a) io" where
  "deferred cleanup m = (\<lambda>w. case m w of (w', r) \<Rightarrow> (fst (cleanup w'), r))"

text \<open>A call that closes the file before it returns an error.\<close>

definition on_error :: "('w, unit) io \<Rightarrow> ('w, 'a) io \<Rightarrow> ('w, 'a) io" where
  "on_error cleanup m = (\<lambda>w. case m w of (w', Inl e) \<Rightarrow> (fst (cleanup w'), Inl e) | (w', Inr x) \<Rightarrow> (w', Inr x))"

definition missing :: "'a result \<Rightarrow> bool" where
  "missing r \<longleftrightarrow> (case r of Inl e \<Rightarrow> errors_is e ErrNotExist | Inr _ \<Rightarrow> False)"

end
