(* ===== verification/Planner_Store.thy ===== *)
theory Planner_Store
  imports Go_Files Planner_Load
begin

text \<open>
  Plans on disk: \<open>Bytes\<close> of \<open>internal/planner/document.go\<close>, \<open>Decode\<close> and \<open>Load\<close> of \<open>load.go\<close>, and the store of
  \<open>store.go\<close>, which links a plan into place so that no plan file is ever written over.  How the decoder of the
  standard library fills the document from a JSON text, refusing unknown fields, is the argument \<open>dec\<close>: the
  document and the rest of the input.
\<close>

section \<open>The text of a plan\<close>

definition artifact_document_text :: "artifact_document \<Rightarrow> string" where
  "artifact_document_text a = object_text (field ''name'' (json_quote (ad_name a))
     @ field_unless (ad_source a = []) ''source'' (json_quote (ad_source a)) @ field ''digest'' (json_quote (ad_digest a))
     @ field ''size'' (decimal_int (ad_size a)) @ field_unless (ad_media_type a = []) ''mediaType'' (json_quote (ad_media_type a)))"

definition release_document_text :: "release_document \<Rightarrow> string" where
  "release_document_text r = object_text (field ''id'' (json_quote (rld_id r))
     @ field ''artifacts'' (array_text (map artifact_document_text (rld_artifacts r))))"

definition operation_document_text :: "operation_document \<Rightarrow> string" where
  "operation_document_text o1 = object_text (field ''id'' (json_quote (so_id o1))
     @ field ''providerOperationId'' (json_quote (so_provider_operation_id o1))
     @ field ''targetId'' (json_quote (so_target_id o1))
     @ field ''provider'' (provider_document_text (so_provider o1))
     @ field ''kind'' (json_quote (so_kind o1))
     @ field_unless (so_dependencies o1 = []) ''dependencies'' (array_text (map json_quote (so_dependencies o1)))
     @ field ''sideEffecting'' (bool_text (so_side_effecting o1))
     @ field_unless (od_idempotency_key o1 = []) ''idempotencyKey'' (json_quote (od_idempotency_key o1))
     @ field_unless (so_timeout_millis o1 = 0) ''timeoutMillis'' (decimal (unat (so_timeout_millis o1)))
     @ field ''providerPayload'' (raw_text (so_provider_payload o1)))"

definition plan_document_text :: "plan_document \<Rightarrow> string" where
  "plan_document_text d = object_text (field ''schemaVersion'' (json_quote (pn_schema_version d))
     @ field ''protocolVersion'' (json_quote (pn_protocol_version d))
     @ field ''planId'' (json_quote (pn_plan_id d))
     @ field ''release'' (release_document_text (pn_release d))
     @ field ''targets'' (slice_text target_document_text (pn_targets d))
     @ field ''operations'' (array_text (map operation_document_text (pn_operations d))))"

definition document_raws :: "plan_document \<Rightarrow> string list" where
  "document_raws d = concat (map target_raws (case pn_targets d of None \<Rightarrow> [] | Some ts \<Rightarrow> ts))
     @ map so_provider_payload (pn_operations d)"

definition plan_bytes :: "distribution_plan \<Rightarrow> string result" where
  "plan_bytes dp = (if list_all raw_ok (document_raws (dp_document dp)) then Inr (plan_document_text (dp_document dp))
     else Inl (Errorf ''json: error calling MarshalJSON'' []))"

section \<open>Loading\<close>

type_synonym document_decoder = "string \<Rightarrow> (plan_document \<times> string) result"

definition max_plan_bytes :: nat where
  "max_plan_bytes = 16777216"

definition decode_plan :: "document_decoder \<Rightarrow> string \<Rightarrow> distribution_plan result" where
  "decode_plan dec raw =
     (if max_plan_bytes < length raw then Inl (Errorf ''plan exceeds %d bytes'' [])
      else bind_result (wrap_result ''decode plan: %w'' [] (normalize_json raw)) (\<lambda>normalized.
        bind_result (wrap_result ''decode plan: %w'' [] (dec normalized)) (\<lambda>(doc, rest).
          if skip_ws rest \<noteq> [] then Inl (Errorf ''decode plan: trailing data'' []) else plan_from_document doc)))"

definition load_plan :: "document_decoder \<Rightarrow> string \<Rightarrow> (disk, distribution_plan) io" where
  "load_plan dec p =
     (if p = [] then io_fail (Errorf ''plan path must not be empty'' [])
      else io_bind (fs_read_file p) (\<lambda>raw. io_lift (decode_plan dec raw)))"

section \<open>Saving\<close>

definition existing_matches :: "string \<Rightarrow> string \<Rightarrow> (disk, bool) io" where
  "existing_matches p expected =
     io_bind (io_try (fs_read_file p)) (\<lambda>r. case r of
       Inl err \<Rightarrow> if errors_is err ErrNotExist then io_return False else io_fail err
     | Inr actual \<Rightarrow> if actual \<noteq> expected then io_fail (Errorf ''plan file %q exists with different content'' [p]) else io_return True)"

text \<open>\<open>MkdirAll\<close>: the missing directories of a path, outermost first.\<close>

definition make_directory :: "unit \<Rightarrow> string \<Rightarrow> (disk, unit) io" where
  "make_directory _ p = io_bind (io_try (fs_stat p)) (\<lambda>r. case r of
      Inr n \<Rightarrow> if is_folder n then io_return () else io_fail err_not_folder
    | Inl _ \<Rightarrow> io_bind (io_try (fs_mkdir p 0x1ED)) (\<lambda>made. case made of
          Inr _ \<Rightarrow> io_return ()
        | Inl err \<Rightarrow> io_bind (io_try (fs_lstat p)) (\<lambda>found. case found of
              Inr n \<Rightarrow> if is_folder n then io_return () else io_fail err
            | Inl _ \<Rightarrow> io_fail err)))"

definition fs_mkdir_all :: "string \<Rightarrow> (disk, unit) io" where
  "fs_mkdir_all p = (\<lambda>dk. io_each make_directory () (map path_text (tl (prefixes (path_elements (full dk p))))) dk)"

definition save_plan :: "string \<Rightarrow> distribution_plan \<Rightarrow> (disk, string) io" where
  "save_plan root dp =
     (if trim_space root = [] then io_fail (Errorf ''store root must not be empty'' [])
      else if \<not> valid_identifier (pl_id (dp_plan dp)) then io_fail (Errorf ''plan ID is invalid'' [])
      else io_bind (io_lift (plan_bytes dp)) (\<lambda>data.
        let directory = join_path [root, ''plans'']; final = join_path [directory, pl_id (dp_plan dp) @ ''.json''] in
        io_bind (fs_mkdir_all directory) (\<lambda>_.
        io_bind (existing_matches final data) (\<lambda>same.
        if same then io_return final
        else io_bind (fs_create_temp directory ''.plan-'') (\<lambda>temp. deferred (fs_remove temp) (
          io_bind (on_error (fs_close temp) (fs_write temp data)) (\<lambda>_.
          io_bind (on_error (fs_close temp) (fs_sync temp)) (\<lambda>_.
          io_bind (fs_close temp) (\<lambda>_.
          io_bind (fs_chmod temp 0x1A4) (\<lambda>_.
          io_bind (io_try (fs_link temp final)) (\<lambda>linked. case linked of
            Inr _ \<Rightarrow> io_bind (fs_sync_dir directory) (\<lambda>_. io_return final)
          | Inl err \<Rightarrow> io_bind (io_try (existing_matches final data)) (\<lambda>again.
              if again = Inr True then io_return final
              else io_bind (io_try (fs_stat final)) (\<lambda>found. case found of
                Inr _ \<Rightarrow> io_fail (Errorf ''plan %q already exists with different content'' [pl_id (dp_plan dp)])
              | Inl _ \<Rightarrow> io_fail (wrap_error ''persist plan %q: %w'' [pl_id (dp_plan dp)] err))))))))))))))"

end
