(* ===== verification/Run_Store.thy ===== *)
theory Run_Store
  imports Planner_Store Journal_Frame Journal_Reduce
begin

text \<open>
  The run catalog, \<open>internal/runstate/store.go\<close>: which plans are known, and which run of a plan was claimed.  Entries
  are files that are linked into place complete and are never changed; the claim of a run is written twice,
  the backup first.  What is read is always checked against the plan and the journal it names.
\<close>

section \<open>Entries\<close>

record catalog_entry =
  ce_schema_version :: string
  ce_plan_id :: string
  ce_plan_path :: string
  ce_run_id :: string
  ce_journal_path :: string

definition catalog_schema :: string where
  "catalog_schema = ''1''"

definition max_entry_bytes :: nat where
  "max_entry_bytes = 16384"

definition catalog_entry_text :: "catalog_entry \<Rightarrow> string" where
  "catalog_entry_text e = object_text (field ''schemaVersion'' (json_quote (ce_schema_version e))
     @ field ''planId'' (json_quote (ce_plan_id e)) @ field ''planPath'' (json_quote (ce_plan_path e))
     @ field_unless (ce_run_id e = []) ''runId'' (json_quote (ce_run_id e))
     @ field_unless (ce_journal_path e = []) ''journalPath'' (json_quote (ce_journal_path e)))"

text \<open>What the decoders of the standard library make of an entry, a plan and a journal record.\<close>

type_synonym entry_decoder = "string \<Rightarrow> (catalog_entry \<times> string) result"

record catalog_tools =
  ct_entry :: entry_decoder
  ct_document :: document_decoder
  ct_unmarshal :: unmarshaller

definition catalog_key :: "string \<Rightarrow> string" where
  "catalog_key v = sha256_hex v @ ''.json''"

definition read_entry :: "entry_decoder \<Rightarrow> string \<Rightarrow> (disk, catalog_entry) io" where
  "read_entry dec p =
     io_bind (fs_lstat p) (\<lambda>info.
     if \<not> is_regular info \<or> max_entry_bytes < node_size info then io_fail (Errorf ''unsafe catalog entry %q'' [p])
     else io_bind (fs_read_file p) (\<lambda>b.
     if max_entry_bytes < length b then io_fail (Errorf ''oversized catalog entry %q'' [p])
     else io_bind (io_wrap ''corrupt catalog entry %q: %w'' [p] (io_lift (dec b))) (\<lambda>(e, rest).
     io_lift (checked (first_error [
       fail_if (skip_ws rest \<noteq> []) (Errorf ''trailing catalog entry data in %q'' [p]),
       fail_if (ce_schema_version e \<noteq> catalog_schema \<or> \<not> valid_identifier (ce_plan_id e))
         (Errorf ''unsupported catalog identity in %q'' [p]),
       fail_if (ce_run_id e = [] \<and> ce_journal_path e \<noteq> []
           \<or> ce_run_id e \<noteq> [] \<and> (ce_journal_path e = [] \<or> \<not> valid_identifier (ce_run_id e)))
         (Errorf ''invalid run identity in %q'' [p]),
       fail_if (\<not> is_abs (ce_plan_path e) \<or> ce_journal_path e \<noteq> [] \<and> \<not> is_abs (ce_journal_path e))
         (Errorf ''relative catalog paths in %q'' [p])]) e))))"

text \<open>Linking a file into place; true if it is new.\<close>

definition install_entry :: "entry_decoder \<Rightarrow> string \<Rightarrow> string \<Rightarrow> catalog_entry \<Rightarrow> (disk, bool) io" where
  "install_entry dec dir name e =
     (let target = join_path [dir, name] in
      io_bind (fs_create_temp dir ''.entry-'') (\<lambda>temp. deferred (fs_remove temp) (
        io_bind (on_error (fs_close temp) (fs_chmod temp 0x180)) (\<lambda>_.
        io_bind (on_error (fs_close temp) (fs_write temp (catalog_entry_text e @ [CHR 0x0A]))) (\<lambda>_.
        io_bind (on_error (fs_close temp) (fs_sync temp)) (\<lambda>_.
        io_bind (fs_close temp) (\<lambda>_.
        io_bind (io_try (fs_link temp target)) (\<lambda>linked. case linked of
          Inl _ \<Rightarrow> io_bind (io_wrap ''catalog entry %q cannot be read: %w'' [target] (read_entry dec target)) (\<lambda>previous.
            if previous \<noteq> e then io_fail (ErrorIs ErrConflict ''%w: %s'' [target]) else io_return False)
        | Inr _ \<Rightarrow> io_bind (fs_sync_dir dir) (\<lambda>_. io_return True)))))))))"

section \<open>The directory of the catalog\<close>

text \<open>A catalog that was there before must not be missing.\<close>

definition check_lost :: "string \<Rightarrow> (disk, unit) io" where
  "check_lost root =
     io_bind (io_try (fs_lstat root)) (\<lambda>info. case info of
       Inr (Folder _) \<Rightarrow>
         io_bind (io_try (fs_lstat (join_path [root, ''catalog'']))) (\<lambda>catalog.
         io_bind (io_try (fs_lstat (join_path [root, ''.catalog-required'']))) (\<lambda>marker.
         if \<not> missing catalog then io_return ()
         else (case marker of
             Inr _ \<Rightarrow> io_fail (Errorf ''run catalog disappeared; refusing to create new publication state'' [])
           | Inl err \<Rightarrow> if \<not> errors_is err ErrNotExist then io_fail err
               else io_bind (io_try (fs_read_dir (join_path [root, ''plans'']))) (\<lambda>plans. case plans of
                   Inr names \<Rightarrow> if names \<noteq> []
                     then io_fail (Errorf ''saved plans exist without a catalog; explicit recovery required'' []) else io_return ()
                 | Inl e \<Rightarrow> if errors_is e ErrNotExist then io_return () else io_fail e))))
     | _ \<Rightarrow> io_return ())"

definition check_directory :: "bool \<Rightarrow> unit \<Rightarrow> bool \<times> string \<Rightarrow> (disk, unit) io" where
  "check_directory create _ = (\<lambda>(private, dir).
     io_bind (io_try (fs_lstat dir)) (\<lambda>info0.
     io_bind (if missing info0 \<and> create
         then io_bind (io_try (fs_mkdir dir 0x1C0)) (\<lambda>made. case made of
             Inl err \<Rightarrow> if errors_is err ErrExist then io_try (fs_lstat dir) else io_fail err
           | Inr _ \<Rightarrow> io_try (fs_lstat dir))
         else io_return info0) (\<lambda>info.
     case info of
       Inl err \<Rightarrow> if missing info \<and> \<not> create then io_fail err_not_exist else io_fail err
     | Inr n \<Rightarrow>
         if \<not> is_folder n then io_fail (Errorf ''unsafe catalog directory %q'' [dir])
         else if private \<and> node_perm n AND 0x3F \<noteq> 0 then io_fail (Errorf ''catalog directory %q must be private'' [dir])
         else io_return ())))"

text \<open>The marker outlives the removal of the catalog.  Its text is a one, a backslash and an \<open>n\<close>.\<close>

definition install_marker :: "string \<Rightarrow> string \<Rightarrow> (disk, unit) io" where
  "install_marker root marker =
     io_bind (fs_create_temp root ''.catalog-marker-'') (\<lambda>temp. deferred (fs_remove temp) (
       io_bind (on_error (fs_close temp) (fs_chmod temp 0x180)) (\<lambda>_.
       io_bind (on_error (fs_close temp) (fs_write temp [CHR ''1'', CHR 0x5C, CHR ''n''])) (\<lambda>_.
       io_bind (on_error (fs_close temp) (fs_sync temp)) (\<lambda>_.
       io_bind (fs_close temp) (\<lambda>_.
       io_bind (io_try (fs_link temp marker)) (\<lambda>linked. case linked of
         Inl err \<Rightarrow> if errors_is err ErrExist then fs_sync_dir root else io_fail err
       | Inr _ \<Rightarrow> fs_sync_dir root)))))))"

definition catalog_directory :: "string \<Rightarrow> bool \<Rightarrow> (disk, string) io" where
  "catalog_directory root create =
     (if trim_space root = [] then io_fail (Errorf ''catalog root is required'' [])
      else io_bind (fs_abs root) (\<lambda>absolute.
        io_bind (io_wrap ''resolve catalog project: %w'' [] (fs_eval_links (dir_path absolute))) (\<lambda>project.
        let base = join_path [project, base_path absolute]; catalog = join_path [base, ''catalog''];
            marker = join_path [base, ''.catalog-required''] in
        if base_path base \<noteq> ''.distroplane'' then io_fail (Errorf ''catalog must be inside the project .distroplane directory'' [])
        else io_bind (check_lost base) (\<lambda>_.
          io_bind (io_each (check_directory create) ()
            [(False, base), (True, catalog), (True, join_path [catalog, ''plans'']), (True, join_path [catalog, ''runs''])]) (\<lambda>_.
          io_bind (if create
              then io_bind (io_try (fs_lstat marker)) (\<lambda>found. case found of
                  Inr _ \<Rightarrow> io_return ()
                | Inl err \<Rightarrow> if errors_is err ErrNotExist then install_marker base marker else io_fail err)
              else io_return ()) (\<lambda>_. io_return catalog))))))"

definition ensure_catalog :: "string \<Rightarrow> (disk, unit) io" where
  "ensure_catalog root = io_bind (catalog_directory root True) (\<lambda>_. io_return ())"

section \<open>Files the catalog names\<close>

text \<open>The first existing directory above a file, and the missing ones below it.\<close>

fun climb :: "bool \<Rightarrow> string \<Rightarrow> string list \<Rightarrow> string list \<Rightarrow> (disk, string \<times> string list) io" where
  "climb must_exist file [] pending =
     io_bind (io_try (fs_lstat ''/'')) (\<lambda>info. case info of
       Inr n \<Rightarrow> io_return (''/'', pending)
     | Inl err \<Rightarrow> if \<not> errors_is err ErrNotExist \<or> must_exist then io_fail err
         else io_fail (Errorf ''no existing journal parent for %q'' [file]))"
| "climb must_exist file (b # up) pending =
     (let parent = path_text (rev (b # up)) in
      io_bind (io_try (fs_lstat parent)) (\<lambda>info. case info of
        Inr n \<Rightarrow> if is_regular n then io_fail (Errorf ''journal parent %q is not a directory'' [parent])
          else io_return (parent, pending)
      | Inl err \<Rightarrow> if \<not> errors_is err ErrNotExist \<or> must_exist then io_fail err
          else climb must_exist file up (b # pending)))"

definition canonical_file :: "string \<Rightarrow> bool \<Rightarrow> (disk, string) io" where
  "canonical_file p must_exist =
     (if trim_space p = [] then io_fail (Errorf ''file path is required'' [])
      else io_bind (fs_abs p) (\<lambda>absolute.
        io_bind (climb must_exist absolute (rev (path_elements (dir_path absolute))) []) (\<lambda>(parent, pending).
        io_bind (fs_eval_links parent) (\<lambda>found.
        let file = join_path [foldl (\<lambda>d name. join_path [d, name]) found pending, base_path absolute] in
        io_bind (io_try (fs_lstat file)) (\<lambda>info. case info of
          Inl err \<Rightarrow> if errors_is err ErrNotExist \<and> \<not> must_exist then io_return file else io_fail err
        | Inr n \<Rightarrow> if is_regular n then io_return file
            else io_fail (Errorf ''%q must be a regular file, not a symlink or special file'' [file]))))))"

section \<open>Plans and claims\<close>

definition register_plan :: "catalog_tools \<Rightarrow> string \<Rightarrow> string \<Rightarrow> (disk, plan_id) io" where
  "register_plan tools root path =
     io_bind (canonical_file path True) (\<lambda>file.
     io_bind (load_plan (ct_document tools) file) (\<lambda>dp.
     io_bind (io_lift (checked (verify_provider_digests dp) ())) (\<lambda>_.
     io_bind (catalog_directory root True) (\<lambda>dir.
     let i = pl_id (dp_plan dp) in
     io_bind (install_entry (ct_entry tools) (join_path [dir, ''plans'']) (catalog_key i)
         \<lparr>ce_schema_version = catalog_schema, ce_plan_id = i, ce_plan_path = file, ce_run_id = [], ce_journal_path = []\<rparr>) (\<lambda>_.
       io_return i)))))"

definition plan_entry :: "entry_decoder \<Rightarrow> string \<Rightarrow> plan_id \<Rightarrow> (disk, catalog_entry) io" where
  "plan_entry dec dir i =
     io_bind (read_entry dec (join_path [dir, ''plans'', catalog_key i])) (\<lambda>e.
     if ce_plan_id e \<noteq> i \<or> ce_run_id e \<noteq> [] \<or> ce_journal_path e \<noteq> []
     then io_fail (Errorf ''catalog plan record mismatch for %q'' [i]) else io_return e)"

text \<open>The claim of a plan, from the record and its backup, whichever can be read.\<close>

definition agreed_claim :: "plan_id \<Rightarrow> catalog_entry result \<Rightarrow> catalog_entry result \<Rightarrow> catalog_entry option result" where
  "agreed_claim i primary backup =
     (if missing primary \<and> missing backup then Inr None
      else bind_result (case (primary, backup) of
            (Inr e, Inr f) \<Rightarrow> if e = f then Inr e else Inl (ErrorIs ErrConflict ''%w: conflicting run records for %q'' [i])
          | (Inr e, Inl _) \<Rightarrow> Inr e
          | (Inl _, Inr f) \<Rightarrow> Inr f
          | (Inl _, Inl _) \<Rightarrow> Inl (Errorf ''corrupt run catalog for %q: primary=%v backup=%v'' [i])) (\<lambda>e.
        if ce_plan_id e \<noteq> i \<or> \<not> valid_identifier (ce_run_id e) \<or> ce_journal_path e = []
        then Inl (Errorf ''invalid run record for %q'' [i]) else Inr (Some e)))"

definition claim_entry :: "entry_decoder \<Rightarrow> string \<Rightarrow> plan_id \<Rightarrow> (disk, catalog_entry option) io" where
  "claim_entry dec dir i =
     (let base = join_path [dir, ''runs'', catalog_key i] in
      io_bind (io_try (read_entry dec base)) (\<lambda>primary.
      io_bind (io_try (read_entry dec (base @ ''.backup''))) (\<lambda>backup. io_lift (agreed_claim i primary backup))))"

definition read_run_journal :: "unmarshaller \<Rightarrow> catalog_entry \<Rightarrow> (disk, read_result) io" where
  "read_run_journal unmarshal e =
     io_bind (canonical_file (ce_journal_path e) True) (\<lambda>path.
     if path \<noteq> ce_journal_path e then io_fail (Errorf ''journal path changed'' [])
     else io_bind (fs_read_file path) (\<lambda>raw.
     io_bind (io_lift (read_journal unmarshal (Some \<lparr>rdr_data = raw, rdr_fault = None\<rparr>))) (\<lambda>res.
     case rr_events res of
       [] \<Rightarrow> io_fail (Errorf ''journal contains no durable run identity'' [])
     | ev # _ \<Rightarrow> if e_run_id ev \<noteq> ce_run_id e \<or> e_plan_id ev \<noteq> ce_plan_id e
         then io_fail (ErrorIs ErrConflict ''%w: journal plan/run identity mismatch'' []) else io_return res)))"

text \<open>\<open>ClaimRun\<close>, and the plan that it claimed a run of.\<close>

definition claim_plan :: "catalog_tools \<Rightarrow> string \<Rightarrow> string \<Rightarrow> string \<Rightarrow> run_id \<Rightarrow> (disk, plan_id) io" where
  "claim_plan tools root plan_path journal_path run =
     (if \<not> valid_identifier run then io_fail (Errorf ''run ID is invalid'' [])
      else io_bind (canonical_file plan_path True) (\<lambda>plan_file.
        io_bind (canonical_file journal_path False) (\<lambda>journal_file.
        io_bind (register_plan tools root plan_file) (\<lambda>i.
        io_bind (catalog_directory root True) (\<lambda>dir.
        io_bind (plan_entry (ct_entry tools) dir i) (\<lambda>p.
        if ce_plan_path p \<noteq> plan_file then io_fail (ErrorIs ErrConflict ''%w: plan changed location'' [])
        else let claim = \<lparr>ce_schema_version = catalog_schema, ce_plan_id = i, ce_plan_path = plan_file,
                ce_run_id = run, ce_journal_path = journal_file\<rparr>; base = join_path [dir, ''runs''] in
          io_bind (io_try (read_run_journal (ct_unmarshal tools) claim)) (\<lambda>res.
          io_bind (io_lift (case res of Inl err \<Rightarrow> if errors_is err ErrNotExist then Inr () else Inl err | Inr _ \<Rightarrow> Inr ())) (\<lambda>_.
          io_bind (install_entry (ct_entry tools) base (catalog_key i @ ''.backup'') claim) (\<lambda>created.
          io_bind (install_entry (ct_entry tools) base (catalog_key i) claim) (\<lambda>_.
          if \<not> created \<and> missing res then io_fail (Errorf ''reserved run lacks journal; manual recovery required'' [])
          else io_return i))))))))))"

definition claim_run :: "catalog_tools \<Rightarrow> string \<Rightarrow> string \<Rightarrow> string \<Rightarrow> run_id \<Rightarrow> (disk, unit) io" where
  "claim_run tools root plan_path journal_path run = io_bind (claim_plan tools root plan_path journal_path run) (\<lambda>_. io_return ())"

section \<open>The inventory\<close>

definition read_entries :: "entry_decoder \<Rightarrow> string \<Rightarrow> (disk, catalog_entry list) io" where
  "read_entries dec dir =
     io_bind (fs_read_dir dir) (\<lambda>names. io_each (\<lambda>entries name.
       if prefix ''.entry-'' name \<or> suffix ''.backup'' name then io_return entries
       else if \<not> suffix ''.json'' name then io_fail (Errorf ''unexpected catalog file %q'' [name])
       else io_bind (read_entry dec (join_path [dir, name])) (\<lambda>e.
         if catalog_key (ce_plan_id e) \<noteq> name then io_fail (Errorf ''catalog key mismatch for %q'' [name])
         else io_return (entries @ [e]))) [] names)"

datatype record_state = Planned | Reserved | Completed | Pending

record run_record =
  rc_release_id :: string
  rc_plan_id :: string
  rc_plan_path :: string
  rc_run_id :: string
  rc_journal_path :: string
  rc_state :: record_state
  rc_completed :: bool
  rc_reconcile_required :: bool

text \<open>What the journal of a claimed run says of it.\<close>

definition journal_record :: "plan \<Rightarrow> run_record \<Rightarrow> event list \<Rightarrow> run_record result" where
  "journal_record p rec events = bind_result (reduce p events) (\<lambda>state.
     Inr (rec\<lparr>rc_completed := ds_completed state, rc_state := (if ds_completed state then Completed else Pending),
       rc_reconcile_required := list_ex (\<lambda>o1. os_reconcile_required o1 \<or> os_ambiguous o1) (ds_operations state)\<rparr>))"

definition planned_record :: "plan \<Rightarrow> catalog_entry \<Rightarrow> run_record" where
  "planned_record p e = \<lparr>rc_release_id = rel_id (pl_release p), rc_plan_id = ce_plan_id e, rc_plan_path = ce_plan_path e,
     rc_run_id = [], rc_journal_path = [], rc_state = Planned, rc_completed = False, rc_reconcile_required = False\<rparr>"

definition claimed_record :: "unmarshaller \<Rightarrow> plan \<Rightarrow> catalog_entry \<Rightarrow> catalog_entry \<Rightarrow> (disk, run_record) io" where
  "claimed_record unmarshal p e c =
     (if ce_plan_path c \<noteq> ce_plan_path e then io_fail (Errorf ''run references another plan path'' [])
      else let claimed = (planned_record p e)\<lparr>rc_run_id := ce_run_id c, rc_journal_path := ce_journal_path c\<rparr> in
        io_bind (io_try (read_run_journal unmarshal c)) (\<lambda>res. case res of
          Inl err \<Rightarrow> if errors_is err ErrNotExist then io_return (claimed\<lparr>rc_state := Reserved\<rparr>) else io_fail err
        | Inr read \<Rightarrow> io_lift (journal_record p claimed (rr_events read))))"

definition inventory_record ::
  "catalog_tools \<Rightarrow> run_record list \<times> (string \<times> catalog_entry) list \<Rightarrow> catalog_entry
   \<Rightarrow> (disk, run_record list \<times> (string \<times> catalog_entry) list) io" where
  "inventory_record tools = (\<lambda>(records, claims) e.
     io_bind (canonical_file (ce_plan_path e) True) (\<lambda>path.
     if path \<noteq> ce_plan_path e then io_fail (Errorf ''plan path moved for %q'' [ce_plan_id e])
     else io_bind (load_plan (ct_document tools) path) (\<lambda>dp.
     if pl_id (dp_plan dp) \<noteq> ce_plan_id e then io_fail (Errorf ''saved plan identity mismatch'' [])
     else io_bind (io_lift (checked (verify_provider_digests dp) ())) (\<lambda>_.
     io_bind (case map_of claims (ce_plan_id e) of
         None \<Rightarrow> io_return (planned_record (dp_plan dp) e)
       | Some c \<Rightarrow> claimed_record (ct_unmarshal tools) (dp_plan dp) e c) (\<lambda>r.
     io_return (records @ [r], filter (\<lambda>x. fst x \<noteq> ce_plan_id e) claims))))))"

definition claim_of_plan ::
  "entry_decoder \<Rightarrow> string \<Rightarrow> (string \<times> catalog_entry) list \<Rightarrow> catalog_entry \<Rightarrow> (disk, (string \<times> catalog_entry) list) io" where
  "claim_of_plan dec dir claims p =
     io_bind (claim_entry dec dir (ce_plan_id p)) (\<lambda>found. io_return (case found of
       None \<Rightarrow> claims | Some e \<Rightarrow> map_insert (ce_plan_id p) e claims))"

definition check_orphan :: "string list \<Rightarrow> unit \<Rightarrow> string \<Rightarrow> (disk, unit) io" where
  "check_orphan keys _ name =
     (if prefix ''.entry-'' name \<or> name \<in> set keys \<union> (\<lambda>k. k @ ''.backup'') ` set keys then io_return ()
      else io_fail (Errorf ''orphan or unexpected run catalog record %q'' [name]))"

definition inventory :: "catalog_tools \<Rightarrow> string \<Rightarrow> (disk, run_record list) io" where
  "inventory tools root =
     io_bind (io_try (catalog_directory root False)) (\<lambda>found. case found of
       Inl err \<Rightarrow> if errors_is err ErrNotExist then io_return [] else io_fail err
     | Inr dir \<Rightarrow>
         io_bind (read_entries (ct_entry tools) (join_path [dir, ''plans''])) (\<lambda>plans.
         io_bind (io_each (claim_of_plan (ct_entry tools) dir) [] plans) (\<lambda>claims.
         io_bind (fs_read_dir (join_path [dir, ''runs''])) (\<lambda>files.
         io_bind (io_each (check_orphan (map (\<lambda>p. catalog_key (ce_plan_id p)) plans)) () files) (\<lambda>_.
         io_bind (io_each (inventory_record tools) ([], claims) plans) (\<lambda>(records, rest).
         if rest \<noteq> [] then io_fail (Errorf ''orphan run catalog entries'' [])
         else io_return (sort_key rc_release_id (sort_key rc_plan_id records))))))))"

definition select_record :: "string \<Rightarrow> string \<Rightarrow> run_record list \<Rightarrow> run_record result" where
  "select_record release run records =
     (case filter (\<lambda>r. (release = [] \<or> rc_release_id r = release) \<and> (run = [] \<or> rc_run_id r = run)) records of
        [] \<Rightarrow> Inl err_not_exist
      | [r] \<Rightarrow> Inr r
      | candidates \<Rightarrow> Inl (ErrorIs ErrAmbiguous ''%w: candidates %s; specify a release and run''
          (map (\<lambda>r. rc_plan_id r @ CHR ''/'' # rc_run_id r) candidates)))"

definition select :: "catalog_tools \<Rightarrow> string \<Rightarrow> string \<Rightarrow> string \<Rightarrow> (disk, run_record) io" where
  "select tools root release run = io_bind (inventory tools root) (\<lambda>records. io_lift (select_record release run records))"

end
