(* ===== verification/Go_Path_Lemmas.thy ===== *)
theory Go_Path_Lemmas
  imports Go_Files
begin

text \<open>
  Paths as lists of plain names: cleaning, joining and splitting paths computes with them, and resolving a path in a
  tree does not depend on nodes that are not on it.
\<close>

section \<open>Splitting and joining\<close>

definition plain_name :: "string \<Rightarrow> bool" where
  "plain_name e \<longleftrightarrow> e \<noteq> [] \<and> CHR ''/'' \<notin> set e \<and> e \<noteq> ''.'' \<and> e \<noteq> ''..''"

lemma split_path_nonempty [simp]: "split_path p \<noteq> []"
  by (induction p) (auto split: list.splits)

lemma split_path_plain: "CHR ''/'' \<notin> set e \<Longrightarrow> split_path e = [e]"
  by (induction e) auto

lemma split_path_append: "split_path (s @ CHR ''/'' # t) = split_path s @ split_path t"
  by (induction s) (auto split: list.splits)

lemma split_path_no_slash: "e \<in> set (split_path p) \<Longrightarrow> CHR ''/'' \<notin> set e"
  by (induction p arbitrary: e) (auto split: list.splits if_splits)

lemma split_join: "es \<noteq> [] \<Longrightarrow> \<forall>e \<in> set es. CHR ''/'' \<notin> set e \<Longrightarrow> split_path (join_slash es) = es"
  by (induction es rule: join_slash.induct) (auto simp: split_path_plain split_path_append)

lemma clean_plain: "list_all plain_name es \<Longrightarrow> foldl (clean_element r) kept es = rev es @ kept"
  by (induction es arbitrary: kept) (auto simp: clean_element_def plain_name_def)

lemma plain_no_slash: "list_all plain_name es \<Longrightarrow> \<forall>e \<in> set es. CHR ''/'' \<notin> set e"
  by (auto simp: list_all_iff plain_name_def)

lemma split_path_text: "list_all plain_name q \<Longrightarrow> split_path (path_text q) = [] # (if q = [] then [[]] else q)"
  using split_join [of q] plain_no_slash by (auto simp: path_text_def)

lemma is_abs_path_text [simp]: "is_abs (path_text q)"
  by (simp add: is_abs_def path_text_def)

lemma clean_path_text [simp]: "list_all plain_name q \<Longrightarrow> clean_path (path_text q) = path_text q"
  by (auto simp: clean_path_def split_path_text clean_plain clean_element_def) (simp_all add: path_text_def)

lemma path_elements_text [simp]:
  assumes "list_all plain_name q" shows "path_elements (path_text q) = q"
proof -
  have "filter (\<lambda>e. e \<noteq> [] \<and> e \<noteq> ''.'') q = q" using assms by (auto simp: filter_id_conv list_all_iff plain_name_def)
  with assms show ?thesis by (simp add: path_elements_def split_path_text)
qed

lemma full_path_text [simp]: "full dk (path_text q) = path_text q"
  by (simp add: full_def)

lemma path_text_Cons: "path_text (q @ [n]) = (if q = [] then CHR ''/'' # n else path_text q @ CHR ''/'' # n)"
proof -
  have "join_slash (es @ [n]) = join_slash es @ CHR ''/'' # n" if "es \<noteq> []" for es
    using that by (induction es rule: join_slash.induct) auto
  then show ?thesis by (simp add: path_text_def)
qed

lemma join_slash_append: "es \<noteq> [] \<Longrightarrow> fs \<noteq> [] \<Longrightarrow> join_slash (es @ fs) = join_slash es @ CHR ''/'' # join_slash fs"
  by (induction es rule: join_slash.induct) (auto simp: neq_Nil_conv)

lemma join_path_text [simp]:
  assumes "list_all plain_name q" and "list_all plain_name ns" and "ns \<noteq> []"
  shows "join_path (path_text q # ns) = path_text (q @ ns)"
proof -
  have n: "\<forall>e \<in> set ns. CHR ''/'' \<notin> set e" using plain_no_slash [OF assms(2)] .
  have "path_text q \<noteq> []" by (simp add: path_text_def)
  then have "join_path (path_text q # ns) = clean_path (path_text q @ CHR ''/'' # join_slash ns)"
    using assms(3) by (auto simp: join_path_def neq_Nil_conv)
  also have "is_abs (path_text q @ CHR ''/'' # join_slash ns)" by (simp add: is_abs_def path_text_def)
  then have "clean_path (path_text q @ CHR ''/'' # join_slash ns) = CHR ''/'' # join_slash (q @ ns)"
    unfolding clean_path_def Let_def using assms
    by (auto simp: split_path_append split_path_text split_join [OF assms(3) n] clean_plain clean_element_def)
  finally show ?thesis by (simp add: path_text_def)
qed

lemma base_path_text [simp]:
  assumes "list_all plain_name q" and "plain_name n" shows "base_path (path_text (q @ [n])) = n"
proof -
  have n: "n \<noteq> []" "last n \<noteq> CHR ''/''" using assms(2) by (cases n rule: rev_cases; auto simp: plain_name_def)+
  then have "strip_slashes (xs @ n) = xs @ n" for xs
    by (cases n rule: rev_cases) (simp_all add: strip_slashes_def)
  then have strip: "strip_slashes (path_text (q @ [n])) = path_text (q @ [n])"
    by (cases "q = []") (metis path_text_Cons append_Cons append_Nil append_assoc)+
  have "list_all plain_name (q @ [n])" using assms by simp
  from split_path_text [OF this] n show ?thesis
    by (simp add: base_path_def strip) (simp add: path_text_def)
qed

lemma dir_path_text [simp]:
  assumes "list_all plain_name q" and "plain_name n" shows "dir_path (path_text (q @ [n])) = path_text q"
proof -
  have drop: "dropWhile (\<lambda>c. c \<noteq> CHR ''/'') (rev n @ CHR ''/'' # xs) = CHR ''/'' # xs" for xs
    using assms(2) by (subst dropWhile_append2) (auto simp: plain_name_def)
  show ?thesis
  proof (cases "q = []")
    case True
    with drop [of "[]"] show ?thesis
      by (simp add: dir_path_def path_text_Cons) (simp add: path_text_def clean_path_def is_abs_def clean_element_def)
  next
    case False
    have "clean_path (path_text q @ [CHR ''/'']) = path_text q"
      using assms(1) split_path_append [of "path_text q" "[]"] False
      by (simp add: clean_path_def split_path_text clean_plain clean_element_def is_abs_def) (simp add: path_text_def)
    with False show ?thesis by (simp add: dir_path_def path_text_Cons drop)
  qed
qed

lemma abs_path_text [simp]: "list_all plain_name q \<Longrightarrow> abs_path cwd (path_text q) = path_text q"
  by (simp add: abs_path_def)

section \<open>The last name of a path\<close>

lemma path_elements_append: "path_elements (s @ CHR ''/'' # t) = path_elements s @ path_elements t"
  by (simp add: path_elements_def split_path_append)

lemma path_elements_plain: "plain_name n \<Longrightarrow> path_elements n = [n]"
  by (simp add: path_elements_def plain_name_def split_path_plain)

lemma path_elements_full: "path_elements p \<noteq> [] \<Longrightarrow> path_elements (full dk p) \<noteq> [] \<and> last (path_elements (full dk p)) = last (path_elements p)"
  by (simp add: full_def path_elements_append)

lemma clean_kept: "\<forall>e \<in> set kept \<union> set es. CHR ''/'' \<notin> set e \<Longrightarrow> e \<in> set (foldl (clean_element r) kept es) \<Longrightarrow> CHR ''/'' \<notin> set e"
proof (induction es arbitrary: kept)
  case (Cons x es)
  have "\<forall>e \<in> set (clean_element r kept x). CHR ''/'' \<notin> set e"
    using Cons.prems(1) by (auto simp: clean_element_def split: list.splits)
  with Cons show ?case by auto
qed simp

lemma clean_last:
  assumes "plain_name n" and "split_path p = es @ [n]"
  shows "path_elements (clean_path p) \<noteq> [] \<and> last (path_elements (clean_path p)) = n"
proof -
  define kept where "kept = foldl (clean_element (is_abs p)) [] es"
  have "\<forall>e \<in> set (es @ [n]). CHR ''/'' \<notin> set e" using split_path_no_slash [of _ p] assms(2) by auto
  then have slash: "\<forall>e \<in> set (rev kept @ [n]). CHR ''/'' \<notin> set e" using clean_kept [of "[]" es _ "is_abs p"] by (auto simp: kept_def)
  have "foldl (clean_element (is_abs p)) [] (split_path p) = n # kept"
    using assms by (simp add: kept_def clean_element_def plain_name_def)
  then have "clean_path p = (if is_abs p then CHR ''/'' # join_slash (rev kept @ [n]) else join_slash (rev kept @ [n]))"
    by (simp add: clean_path_def)
  moreover have "split_path (join_slash (rev kept @ [n])) = rev kept @ [n]" using split_join [OF _ slash] by simp
  ultimately show ?thesis using assms(1) by (auto simp: path_elements_def plain_name_def)
qed

lemma join_last:
  assumes "plain_name n"
  shows "path_elements (join_path [d, n]) \<noteq> [] \<and> last (path_elements (join_path [d, n])) = n"
proof -
  have "split_path n = [n]" using assms by (simp add: plain_name_def split_path_plain)
  moreover have "n \<noteq> []" using assms by (simp add: plain_name_def)
  ultimately show ?thesis
    using clean_last [OF assms, of n "[]"] clean_last [OF assms, of "d @ CHR ''/'' # n" "split_path d"]
    by (cases "d = []") (simp_all add: join_path_def split_path_append)
qed

lemma join_last3:
  assumes "plain_name n" "plain_name m"
  shows "path_elements (join_path [d, m, n]) \<noteq> [] \<and> last (path_elements (join_path [d, m, n])) = n"
proof -
  have "split_path n = [n]" "split_path m = [m]" using assms by (simp_all add: plain_name_def split_path_plain)
  moreover have "n \<noteq> []" "m \<noteq> []" using assms by (simp_all add: plain_name_def)
  ultimately show ?thesis
    using clean_last [OF assms(1), of "m @ CHR ''/'' # n" "[m]"]
      clean_last [OF assms(1), of "d @ CHR ''/'' # m @ CHR ''/'' # n" "split_path d @ [m]"]
    by (cases "d = []") (simp_all add: join_path_def split_path_append)
qed

lemma base_last:
  assumes "base_path p = n" and "plain_name n"
  shows "path_elements p \<noteq> [] \<and> last (path_elements p) = n"
proof -
  define s where "s = strip_slashes p"
  have "p = s @ replicate (length p - length s) CHR ''/''"
  proof -
    have "rev p = takeWhile (\<lambda>c. c = CHR ''/'') (rev p) @ dropWhile (\<lambda>c. c = CHR ''/'') (rev p)" by simp
    then have p: "p = s @ rev (takeWhile (\<lambda>c. c = CHR ''/'') (rev p))"
      unfolding s_def strip_slashes_def by (metis rev_append rev_rev_ident)
    moreover have "takeWhile (\<lambda>c. c = CHR ''/'') xs = replicate (length (takeWhile (\<lambda>c. c = CHR ''/'') xs)) CHR ''/''" for xs
      by (induction xs) auto
    ultimately show ?thesis by (metis add_diff_cancel_left' length_append length_rev rev_replicate)
  qed
  moreover have "path_elements (t @ replicate k CHR ''/'') = path_elements t" for t k
  proof (induction k)
    case (Suc k)
    have "path_elements (t @ replicate (Suc k) CHR ''/'') = path_elements ((t @ replicate k CHR ''/'') @ CHR ''/'' # [])"
      by (simp add: replicate_append_same)
    also have "\<dots> = path_elements (t @ replicate k CHR ''/'')" by (subst path_elements_append) (simp add: path_elements_def)
    also note Suc
    finally show ?case .
  qed simp
  ultimately have elements: "path_elements p = path_elements s" by metis
  have "p \<noteq> []" "last (split_path s) = n"
    using assms by (auto simp: base_path_def s_def plain_name_def Let_def split: if_splits)
  then obtain es where "split_path s = es @ [n]" by (metis append_butlast_last_id split_path_nonempty)
  then show ?thesis using assms(2) unfolding elements by (simp add: path_elements_def plain_name_def)
qed

section \<open>Resolution in a tree that grows\<close>

lemma walk_Cons: "walk ns k at (c # cs) = Inr q \<longleftrightarrow>
   (if c = ''..'' then walk ns k (butlast at) cs = Inr q
    else (\<exists>p. lookup ns (at @ [c]) = Some (Folder p) \<and> walk ns k (at @ [c]) cs = Inr q)
      \<or> (\<exists>s p. lookup ns (at @ [c]) = Some (Regular s p) \<and> cs = [] \<and> q = at @ [c])
      \<or> (\<exists>t. lookup ns (at @ [c]) = Some (Link t) \<and> 0 < k \<and> walk ns (k - 1) (if is_abs t then [] else at) (path_elements t @ cs) = Inr q))"
  by (subst walk.simps) (auto split: option.splits node.splits)

lemma walk_stable:
  assumes "walk ns k at cs = Inr q" and "lookup ns q = Some (Folder p)"
    and "\<And>r n. lookup ns r = Some n \<Longrightarrow> \<not> is_regular n \<Longrightarrow> lookup ns' r = Some n"
  shows "walk ns' k at cs = Inr q"
  using assms
proof (induction ns k at cs rule: walk.induct)
  case (2 ns k at c cs)
  note keep = "2.prems"(3)
  show ?case
  proof (cases "c = ''..''")
    case False
    from "2.prems"(1,2) False consider (folder) m where "lookup ns (at @ [c]) = Some (Folder m)" "walk ns k (at @ [c]) cs = Inr q"
      | (link) t where "lookup ns (at @ [c]) = Some (Link t)" "0 < k" "walk ns (k - 1) (if is_abs t then [] else at) (path_elements t @ cs) = Inr q"
      by (auto simp: walk_Cons)
    then show ?thesis
    proof cases
      case folder
      have "walk ns' k (at @ [c]) cs = Inr q" using "2.IH"(2) [OF False folder(1) refl folder(2) "2.prems"(2) keep] by simp
      with False keep [OF folder(1)] show ?thesis by (auto simp: walk_Cons)
    next
      case link
      have "walk ns' (k - 1) (if is_abs t then [] else at) (path_elements t @ cs) = Inr q"
        using "2.IH"(3) [OF False link(1) refl _ link(3) "2.prems"(2) keep] link(2) by simp
      with False link(2) keep [OF link(1)] show ?thesis by (auto simp: walk_Cons)
    qed
  next
    case True
    with "2.IH"(1) [OF True _ "2.prems"(2) keep] "2.prems"(1) show ?thesis by (simp add: walk_Cons)
  qed
qed simp

lemma walk_snoc:
  assumes "walk ns k at cs = Inr d" and "lookup ns d = Some (Folder p)" and "y \<noteq> ''..''"
    and "lookup ns (d @ [y]) = Some (Regular s m)"
  shows "walk ns k at (cs @ [y]) = Inr (d @ [y])"
  using assms
proof (induction ns k at cs rule: walk.induct)
  case (1 ns k at)
  then show ?case by (simp add: walk_Cons)
next
  case (2 ns k at c cs)
  note last_step = "2.prems"(2,3,4)
  show ?case
  proof (cases "c = ''..''")
    case False
    from "2.prems"(1,2) False consider (folder) m where "lookup ns (at @ [c]) = Some (Folder m)" "walk ns k (at @ [c]) cs = Inr d"
      | (link) t where "lookup ns (at @ [c]) = Some (Link t)" "0 < k" "walk ns (k - 1) (if is_abs t then [] else at) (path_elements t @ cs) = Inr d"
      by (auto simp: walk_Cons)
    then show ?thesis
    proof cases
      case folder
      from "2.IH"(2) [OF False folder(1) refl folder(2) last_step] folder(1) False show ?thesis by (simp add: walk_Cons)
    next
      case link
      from "2.IH"(3) [OF False link(1) refl _ link(3) last_step] link(1,2) False show ?thesis by (simp add: walk_Cons)
    qed
  next
    case True
    with "2.IH"(1) [OF True _ last_step] "2.prems"(1) show ?thesis by (simp add: walk_Cons)
  qed
qed

lemma locate_Inr: "locate ns p = Inr q \<longleftrightarrow> (path_elements p = [] \<and> q = []) \<or> (path_elements p \<noteq> [] \<and> (\<exists>d m.
   walk ns max_links [] (butlast (path_elements p)) = Inr d \<and> lookup ns d = Some (Folder m) \<and> q = d @ [last (path_elements p)]))"
proof (cases "path_elements p")
  case (Cons e es)
  show ?thesis
  proof (cases "walk ns max_links [] (butlast (e # es))")
    case (Inr d)
    show ?thesis
    proof (cases "lookup ns d")
      case (Some n)
      with Cons Inr show ?thesis by (cases n) (auto simp: locate_def bind_result_def)
    qed (use Cons Inr in \<open>simp add: locate_def bind_result_def\<close>)
  qed (use Cons in \<open>simp add: locate_def bind_result_def\<close>)
qed (auto simp: locate_def)

lemma locate_last: "locate ns p = Inr q \<Longrightarrow> path_elements p \<noteq> [] \<Longrightarrow> q \<noteq> [] \<and> last q = last (path_elements p)"
  by (auto simp: locate_Inr)

lemma locate_stable:
  assumes "locate ns p = Inr q" and "\<And>r n. lookup ns r = Some n \<Longrightarrow> \<not> is_regular n \<Longrightarrow> lookup ns' r = Some n"
  shows "locate ns' p = Inr q"
proof (cases "path_elements p = []")
  case False
  with assms(1) obtain d m where d: "walk ns max_links [] (butlast (path_elements p)) = Inr d" "lookup ns d = Some (Folder m)"
      "q = d @ [last (path_elements p)]"
    by (auto simp: locate_Inr)
  have "lookup ns' d = Some (Folder m)" using assms(2) [OF d(2)] by simp
  with walk_stable [OF d(1,2) assms(2)] d(3) False show ?thesis by (auto simp: locate_Inr)
qed (use assms(1) in \<open>simp add: locate_Inr\<close>)

lemma locate_follow:
  assumes "locate ns p = Inr q" and "lookup ns q = Some (Regular s m)" and "path_elements p \<noteq> []" and "last (path_elements p) \<noteq> ''..''"
  shows "follow ns p = Inr q"
proof -
  obtain d n where d: "walk ns max_links [] (butlast (path_elements p)) = Inr d" "lookup ns d = Some (Folder n)"
      "q = d @ [last (path_elements p)]"
    using assms(1,3) by (auto simp: locate_Inr)
  from walk_snoc [OF d(1,2) assms(4)] assms(2) d(3)
  have "walk ns max_links [] (butlast (path_elements p) @ [last (path_elements p)]) = Inr q" by simp
  then show ?thesis using assms(3) by (simp add: follow_def)
qed

end
