(* ===== verification/Run_Kept.thy ===== *)
theory Run_Kept
  imports Run_Store Go_Path_Lemmas
begin

text \<open>
  What the processes that share a catalog promise each other, whatever fails in between: a directory or link stays,
  a file with the name of a catalog entry keeps its content, and temporary names are names of regular files only.
  Each process relies on this of the others and guarantees it itself.
\<close>

section \<open>The promise\<close>

definition scratch_name :: "string \<Rightarrow> bool" where
  "scratch_name n \<longleftrightarrow> prefix ''.entry-'' n \<or> prefix ''.catalog-marker-'' n \<or> prefix ''.plan-'' n"

definition entry_name :: "string \<Rightarrow> bool" where
  "entry_name n \<longleftrightarrow> \<not> scratch_name n \<and> (suffix ''.json'' n \<or> suffix ''.json.backup'' n)"

definition kept_node :: "string list \<Rightarrow> node \<Rightarrow> bool" where
  "kept_node q n \<longleftrightarrow> is_regular n \<longrightarrow> q \<noteq> [] \<and> entry_name (last q)"

definition tidy :: "nodes \<Rightarrow> bool" where
  "tidy ns \<longleftrightarrow> (\<forall>q n. lookup ns q = Some n \<and> q \<noteq> [] \<and> scratch_name (last q) \<longrightarrow> is_regular n)"

definition keeps :: "nodes \<Rightarrow> nodes \<Rightarrow> bool" where
  "keeps ns ns' \<longleftrightarrow> (tidy ns \<longrightarrow> tidy ns' \<and> (\<forall>q n. lookup ns q = Some n \<and> kept_node q n \<longrightarrow> lookup ns' q = Some n))"

lemma keeps_refl [simp]: "keeps ns ns"
  by (simp add: keeps_def)

lemma keeps_trans: "keeps ns1 ns2 \<Longrightarrow> keeps ns2 ns3 \<Longrightarrow> keeps ns1 ns3"
  by (auto simp: keeps_def)

lemma lookup_root [simp]: "lookup ns [] = Some (Folder 0x1ED)"
  by (simp add: lookup_def)

lemma keeps_new:
  assumes "lookup ns q = None" and "is_regular n \<or> \<not> scratch_name (last q)"
  shows "keeps ns (put_node q n ns)"
  using assms by (auto simp: keeps_def tidy_def lookup_put)

lemma keeps_scratch:
  assumes "q \<noteq> []" and "scratch_name (last q)"
  shows "lookup ns q = Some (Regular s m) \<Longrightarrow> keeps ns (put_node q (Regular s' m') ns)"
    and "keeps ns (drop_node q ns)"
  using assms by (auto simp: keeps_def tidy_def lookup_put lookup_drop kept_node_def entry_name_def)

section \<open>Actions that keep it\<close>

text \<open>The other processes keep the promise, and leave the temporary files of this one alone.\<close>

definition own_temp :: "disk \<Rightarrow> string \<Rightarrow> bool" where
  "own_temp dk n \<longleftrightarrow> (\<exists>pattern \<in> {''.entry-'', ''.catalog-marker-'', ''.plan-''}. \<exists>k. n = pattern @ decimal (dk_random dk k))"

definition gentle :: "disk \<Rightarrow> bool" where
  "gentle dk \<longleftrightarrow> (\<forall>n ns. keeps ns (dk_others dk n ns)
     \<and> (\<forall>q. q \<noteq> [] \<and> own_temp dk (last q) \<longrightarrow> lookup (dk_others dk n ns) q = lookup ns q))"

text \<open>The disk after some actions, of this process or of others.\<close>

definition later :: "disk \<Rightarrow> disk \<Rightarrow> bool" where
  "later dk dk' \<longleftrightarrow> keeps (dk_nodes dk) (dk_nodes dk') \<and> dk_others dk' = dk_others dk \<and> dk_cwd dk' = dk_cwd dk
     \<and> dk_random dk' = dk_random dk"

definition maintains :: "(disk, 'e, 'a) act \<Rightarrow> bool" where
  "maintains m \<longleftrightarrow> (\<forall>dk. gentle dk \<longrightarrow> later dk (fst (m dk)))"

lemma later_refl [simp]: "later dk dk"
  by (simp add: later_def)

lemma later_trans: "later dk1 dk2 \<Longrightarrow> later dk2 dk3 \<Longrightarrow> later dk1 dk3"
  by (auto simp: later_def intro: keeps_trans)

lemma later_gentle: "later dk dk' \<Longrightarrow> gentle dk \<Longrightarrow> gentle dk'"
  by (simp add: later_def gentle_def own_temp_def)

lemma maintainsD: "maintains m \<Longrightarrow> gentle dk \<Longrightarrow> m dk = (dk', r) \<Longrightarrow> later dk dk' \<and> gentle dk'"
  using later_gentle by (fastforce simp: maintains_def)

lemma call_later:
  assumes "gentle dk" and "\<And>ns. keeps ns (fst (f ns))"
  shows "later dk (fst (call f dk))"
proof -
  have "keeps (dk_nodes dk) (dk_others dk (dk_calls dk) (dk_nodes dk))" using assms(1) by (simp add: gentle_def)
  moreover note assms(2) [of "dk_others dk (dk_calls dk) (dk_nodes dk)"]
  ultimately show ?thesis
    by (auto simp: call_def Let_def later_def intro: keeps_trans split: option.splits fault.splits)
qed

lemma maintains_call: "(\<And>ns. keeps ns (fst (f ns))) \<Longrightarrow> maintains (call f)"
  by (simp add: maintains_def call_later)

lemma maintains_observe [simp]: "maintains (observe f)"
  unfolding observe_def by (rule maintains_call) simp

lemma maintains_on_path: "(\<And>dk. maintains (m (full dk p))) \<Longrightarrow> maintains (on_path m p)"
  by (simp add: maintains_def on_path_def)

lemma maintains_change:
  "(\<And>ns ns'. f ns = Inr ns' \<Longrightarrow> keeps ns ns') \<Longrightarrow> maintains (change f)"
  unfolding change_def by (rule maintains_call) (simp split: sum.splits)

lemma maintains_lift [simp]: "maintains (io_lift r)" "maintains (io_return x)" "maintains (io_fail e)"
  by (simp_all add: maintains_def io_return_def io_fail_def) (simp_all add: io_lift_def)

lemma maintains_bind:
  assumes "maintains m" and "\<And>x. maintains (f x)"
  shows "maintains (io_bind m f)"
  unfolding maintains_def
proof (intro allI impI)
  fix dk assume dk: "gentle dk"
  obtain dk1 r where m: "m dk = (dk1, r)" by (cases "m dk")
  from maintainsD [OF assms(1) dk m] have dk1: "later dk dk1" "gentle dk1" by simp_all
  show "later dk (fst (io_bind m f dk))"
  proof (cases r)
    case (Inr x)
    have "later dk1 (fst (f x dk1))" using assms(2) [of x] dk1(2) by (simp add: maintains_def)
    with dk1(1) m Inr show ?thesis by (simp add: io_bind_def later_trans)
  qed (use m dk1 in \<open>simp add: io_bind_def\<close>)
qed

lemma maintains_try: "maintains m \<Longrightarrow> maintains (io_try m)"
  unfolding maintains_def io_try_def by (metis (mono_tags, lifting) case_prod_unfold fst_conv)

lemma maintains_wrap: "maintains m \<Longrightarrow> maintains (io_wrap f xs m)"
  by (simp add: maintains_def io_wrap_def)

lemma maintains_deferred:
  assumes "maintains c" "maintains m"
  shows "maintains (deferred c m)"
  unfolding maintains_def
proof (intro allI impI)
  fix dk assume dk: "gentle dk"
  obtain dk1 r where m: "m dk = (dk1, r)" by (cases "m dk")
  from maintainsD [OF assms(2) dk m] have "later dk dk1" "gentle dk1" by simp_all
  with assms(1) m show "later dk (fst (deferred c m dk))" by (simp add: deferred_def maintains_def later_trans)
qed

lemma maintains_on_error:
  assumes "maintains c" "maintains m"
  shows "maintains (on_error c m)"
  unfolding maintains_def
proof (intro allI impI)
  fix dk assume dk: "gentle dk"
  obtain dk1 r where m: "m dk = (dk1, r)" by (cases "m dk")
  from maintainsD [OF assms(2) dk m] have "later dk dk1" "gentle dk1" by simp_all
  with assms(1) m show "later dk (fst (on_error c m dk))" by (cases r) (simp_all add: on_error_def maintains_def later_trans)
qed

lemma maintains_each: "(\<And>s x. maintains (f s x)) \<Longrightarrow> maintains (io_each f s xs)"
  by (induction xs arbitrary: s) (auto intro: maintains_bind)

lemmas maintains_rules = maintains_bind maintains_on_error maintains_try maintains_wrap maintains_each

section \<open>Calls of the file system\<close>

lemma maintains_reading [simp]: "maintains (fs_lstat p)" "maintains (fs_stat p)" "maintains (fs_eval_links p)" "maintains (fs_read_file p)"
  "maintains (fs_read_dir p)" "maintains (fs_sync p)" "maintains (fs_close p)" "maintains (fs_sync_dir p)"
  unfolding fs_lstat_def fs_stat_def fs_eval_links_def fs_read_file_def fs_read_dir_def fs_sync_def fs_close_def fs_sync_dir_def
  by (auto intro: maintains_on_path)

lemma maintains_abs [simp]: "maintains (fs_abs p)"
proof -
  have "later dk (fst (observe f dk))" if "gentle dk" for dk and f :: "nodes \<Rightarrow> string result"
    using maintains_observe [of f] that by (simp add: maintains_def)
  then show ?thesis by (simp add: maintains_def fs_abs_def)
qed

definition scratch_path :: "string \<Rightarrow> bool" where
  "scratch_path p \<longleftrightarrow> path_elements p \<noteq> [] \<and> scratch_name (last (path_elements p))"

lemma scratch_located:
  assumes "scratch_path p" and "locate ns (full dk p) = Inr q" shows "q \<noteq> []" "scratch_name (last q)"
  using locate_last [OF assms(2)] path_elements_full [of p dk] assms(1) by (simp_all add: scratch_path_def)

lemma is_regular_iff: "is_regular n \<longleftrightarrow> (\<exists>s m. n = Regular s m)"
  by (cases n) auto

lemma case_regular: "(case found of Some (Regular s m) \<Rightarrow> f s m | _ \<Rightarrow> Inl err) = Inr x \<longleftrightarrow> (\<exists>s m. found = Some (Regular s m) \<and> f s m = Inr x)"
proof (cases found)
  case (Some n)
  then show ?thesis by (cases n) auto
qed simp

lemma maintains_link [simp]: "maintains (fs_link old new)"
proof -
  have "maintains (change (\<lambda>ns. bind_result (locate ns a) (\<lambda>from. bind_result (locate ns b) (\<lambda>to. case lookup ns from of
         Some (Regular s perm) \<Rightarrow> if lookup ns to \<noteq> None then Inl err_exist else Inr (put_node to (Regular s perm) ns)
       | _ \<Rightarrow> Inl err_not_exist))))" for a b
    by (rule maintains_change) (auto simp: bind_result_Inr case_regular split: if_splits intro: keeps_new)
  then show ?thesis by (simp add: maintains_def fs_link_def)
qed

lemma maintains_scratch:
  assumes "scratch_path p"
  shows "maintains (fs_chmod p perm)" "maintains (fs_write p s)" "maintains (fs_remove p)"
proof -
  have handle: "maintains (on_regular f p)" if regular: "\<And>s m. is_regular (f s m)" for f
  proof -
    have "maintains (change (\<lambda>ns. bind_result (locate ns (full dk p)) (\<lambda>q.
       case lookup ns q of Some (Regular s perm) \<Rightarrow> Inr (put_node q (f s perm) ns) | _ \<Rightarrow> Inl err_not_exist)))" for dk
    proof (rule maintains_change)
      fix ns ns'
      assume "bind_result (locate ns (full dk p)) (\<lambda>q. case lookup ns q of Some (Regular s perm) \<Rightarrow> Inr (put_node q (f s perm) ns) | _ \<Rightarrow> Inl err_not_exist) = Inr ns'"
      then obtain q s m where q: "locate ns (full dk p) = Inr q" "lookup ns q = Some (Regular s m)" "ns' = put_node q (f s m) ns"
        by (auto simp: bind_result_Inr case_regular)
      obtain s' m' where "f s m = Regular s' m'" using regular [of s m] by (auto simp: is_regular_iff)
      with keeps_scratch(1) [OF scratch_located [OF assms q(1)] q(2)] q(3) show "keeps ns ns'" by simp
    qed
    then show ?thesis unfolding on_regular_def by (auto intro: maintains_on_path)
  qed
  show "maintains (fs_chmod p perm)" "maintains (fs_write p s)" by (auto simp: fs_chmod_def fs_write_def intro: handle)
  show "maintains (fs_remove p)"
    unfolding fs_remove_def
  proof (rule maintains_on_path, rule maintains_change)
    fix dk ns ns'
    assume "bind_result (locate ns (full dk p)) (\<lambda>q. case lookup ns q of None \<Rightarrow> Inl err_not_exist
       | Some n \<Rightarrow> if is_folder n \<and> (\<exists>k \<in> fst ` set ns. k \<noteq> [] \<and> butlast k = q) then Inl (Errorf ''directory not empty'' []) else Inr (drop_node q ns)) = Inr ns'"
    then obtain q where "locate ns (full dk p) = Inr q" "ns' = drop_node q ns"
      by (auto simp: bind_result_Inr split: option.splits if_splits)
    with keeps_scratch(2) [OF scratch_located [OF assms this(1)]] show "keeps ns ns'" by simp
  qed
qed

lemma maintains_mkdir:
  assumes "path_elements p \<noteq> []" "\<not> scratch_name (last (path_elements p))"
  shows "maintains (fs_mkdir p perm)"
  unfolding fs_mkdir_def
proof (rule maintains_on_path, rule maintains_change)
  fix dk ns ns'
  assume "bind_result (locate ns (full dk p)) (\<lambda>q. if lookup ns q \<noteq> None then Inl err_exist else Inr (put_node q (Folder perm) ns)) = Inr ns'"
  then obtain q where q: "locate ns (full dk p) = Inr q" "lookup ns q = None" "ns' = put_node q (Folder perm) ns"
    by (auto simp: bind_result_Inr split: if_splits)
  with keeps_new [OF q(2)] locate_last [OF q(1)] path_elements_full [OF assms(1)] assms(2) show "keeps ns ns'" by simp
qed

lemma decimal_digits: "c \<in> set (decimal n) \<Longrightarrow> is_digit c"
proof (induction n rule: decimal.induct)
  case (1 n)
  have "is_digit (char_of (48 + k))" if "k < 10" for k :: nat
    using that by (simp add: is_digit_def byte_def)
  with 1 show ?case by (cases "n < 10") (simp_all add: decimal.simps [of n], auto)
qed

lemma decimal_plain: "CHR ''/'' \<notin> set pattern \<Longrightarrow> 2 < length pattern \<Longrightarrow> plain_name (pattern @ decimal n)"
  using decimal_digits [of "CHR ''/''" n] by (auto simp: plain_name_def is_digit_def byte_def append_eq_Cons_conv)

lemma create_temp_scratch:
  assumes "gentle dk" and "fs_create_temp dir pattern dk = (dk', r)" and "pattern \<in> {''.entry-'', ''.catalog-marker-'', ''.plan-''}"
  shows "later dk dk' \<and> (\<forall>temp. r = Inr temp \<longrightarrow> scratch_path temp)"
proof -
  define p where "p = join_path [dir, pattern @ decimal (dk_random dk (dk_calls dk))]"
  have "plain_name (pattern @ decimal (dk_random dk (dk_calls dk)))" using assms(3) by (intro decimal_plain) auto
  from join_last [OF this] have p: "scratch_path p"
    using assms(3) by (auto simp: scratch_path_def scratch_name_def p_def)
  let ?f = "\<lambda>ns. case locate ns (full dk p) of Inl err \<Rightarrow> (ns, Inl err)
    | Inr q \<Rightarrow> if lookup ns q \<noteq> None then (ns, Inl err_exist) else (put_node q (Regular [] 0x180) ns, Inr p)"
  have run: "fs_create_temp dir pattern dk = call ?f dk" unfolding fs_create_temp_def on_path_def p_def Let_def ..
  have "keeps ns (fst (?f ns))" for ns by (auto intro: keeps_new split: sum.splits)
  from call_later [OF assms(1) this] have "later dk dk'" by (metis run assms(2) fst_conv)
  moreover have "r = Inr temp \<Longrightarrow> temp = p" for temp
    using assms(2) unfolding run call_def Let_def by (auto split: option.splits fault.splits sum.splits if_splits)
  ultimately show ?thesis using p by blast
qed

lemma maintains_temp:
  assumes "pattern \<in> {''.entry-'', ''.catalog-marker-'', ''.plan-''}" and "\<And>temp. scratch_path temp \<Longrightarrow> maintains (f temp)"
  shows "maintains (io_bind (fs_create_temp dir pattern) f)"
  unfolding maintains_def
proof (intro allI impI)
  fix dk assume dk: "gentle dk"
  obtain dk1 r where m: "fs_create_temp dir pattern dk = (dk1, r)" by (cases "fs_create_temp dir pattern dk")
  from create_temp_scratch [OF dk m assms(1)] have first: "later dk dk1" "\<And>temp. r = Inr temp \<Longrightarrow> scratch_path temp" by blast+
  show "later dk (fst (io_bind (fs_create_temp dir pattern) f dk))"
  proof (cases r)
    case (Inr temp)
    with assms(2) [OF first(2)] later_gentle [OF first(1) dk] have "later dk1 (fst (f temp dk1))" by (simp add: maintains_def)
    with first(1) m Inr show ?thesis by (simp add: io_bind_def later_trans)
  qed (use m first in \<open>simp add: io_bind_def\<close>)
qed

section \<open>The operations of the catalog and of the plan store\<close>

lemma maintains_if: "(b \<Longrightarrow> maintains m) \<Longrightarrow> (\<not> b \<Longrightarrow> maintains n) \<Longrightarrow> maintains (if b then m else n)"
  by simp

lemma maintains_case [intro]:
  "(\<And>e. maintains (f e)) \<Longrightarrow> (\<And>x. maintains (g x)) \<Longrightarrow> maintains (case r of Inl e \<Rightarrow> f e | Inr x \<Rightarrow> g x)"
  by (cases r) simp_all

lemma maintains_case_pair: "(\<And>a b. maintains (f a b)) \<Longrightarrow> maintains (case p of (a, b) \<Rightarrow> f a b)"
  by (cases p) simp

lemma maintains_read_entry: "maintains (read_entry dec p)"
  unfolding read_entry_def by (intro maintains_rules maintains_if maintains_case_pair) simp_all

lemma maintains_install_entry: "maintains (install_entry dec dir name e)"
  unfolding install_entry_def Let_def
  by (rule maintains_temp, simp, intro maintains_deferred maintains_rules maintains_if maintains_case maintains_read_entry)
    (simp_all add: maintains_scratch)

lemma maintains_install_marker: "maintains (install_marker root marker)"
  unfolding install_marker_def
  by (rule maintains_temp, simp, intro maintains_deferred maintains_rules maintains_if maintains_case) (simp_all add: maintains_scratch)

lemma maintains_check_lost: "maintains (check_lost root)"
  unfolding check_lost_def
  by (intro maintains_rules maintains_if maintains_case) (auto intro!: maintains_rules maintains_if maintains_case split: node.split)

lemma maintains_check_directory:
  assumes "path_elements dir \<noteq> []" "\<not> scratch_name (last (path_elements dir))"
  shows "maintains (check_directory create u (private, dir))"
  unfolding check_directory_def case_prod_conv
  by (intro maintains_rules maintains_if maintains_case maintains_mkdir [OF assms]) simp_all

lemma plain_catalog_names [simp]:
  "plain_name ''catalog''" "plain_name ''plans''" "plain_name ''runs''" "plain_name ''.distroplane''" "plain_name ''.catalog-required''"
  "\<not> scratch_name ''catalog''" "\<not> scratch_name ''plans''" "\<not> scratch_name ''runs''" "\<not> scratch_name ''.distroplane''"
  by (simp_all add: plain_name_def scratch_name_def)

lemma maintains_catalog_directory: "maintains (catalog_directory root create)"
proof -
  have "maintains (io_each (check_directory create) ()
      [(False, base), (True, join_path [base, ''catalog'']), (True, join_path [join_path [base, ''catalog''], ''plans'']),
       (True, join_path [join_path [base, ''catalog''], ''runs''])])" if "base_path base = ''.distroplane''" for base
    using base_last [OF that] join_last [of "''catalog''" base] join_last [of "''plans''"] join_last [of "''runs''"]
    by (auto intro!: maintains_bind maintains_check_directory)
  then show ?thesis
    unfolding catalog_directory_def Let_def
    by (intro maintains_bind maintains_try maintains_wrap maintains_if maintains_case maintains_check_lost maintains_install_marker) simp_all
qed

lemma maintains_ensure: "maintains (ensure_catalog root)"
  unfolding ensure_catalog_def by (intro maintains_bind maintains_catalog_directory) simp

lemma maintains_climb: "maintains (climb must p up pending)"
  by (induction up arbitrary: pending) (auto simp: Let_def intro!: maintains_rules maintains_case)

lemma maintains_canonical_file: "maintains (canonical_file p must)"
  unfolding canonical_file_def Let_def
  by (intro maintains_rules maintains_if maintains_case maintains_case_pair maintains_climb) simp_all

lemma maintains_load_plan: "maintains (load_plan dec p)"
  unfolding load_plan_def by (intro maintains_rules maintains_if) simp_all

lemma maintains_register_plan: "maintains (register_plan tools root p)"
  unfolding register_plan_def Let_def
  by (intro maintains_rules maintains_canonical_file maintains_load_plan maintains_catalog_directory maintains_install_entry) simp_all

lemma maintains_plan_entry: "maintains (plan_entry dec dir i)"
  unfolding plan_entry_def by (intro maintains_rules maintains_if maintains_read_entry) simp_all

lemma maintains_claim_entry: "maintains (claim_entry dec dir i)"
  unfolding claim_entry_def Let_def by (intro maintains_rules maintains_read_entry) simp_all

lemma maintains_run_journal: "maintains (read_run_journal un e)"
  unfolding read_run_journal_def
  by (intro maintains_rules maintains_if maintains_canonical_file) (auto split: list.split)

lemma maintains_claim_plan: "maintains (claim_plan tools root p j r)"
  unfolding claim_plan_def Let_def
  by (intro maintains_rules maintains_if maintains_canonical_file maintains_register_plan maintains_catalog_directory
      maintains_plan_entry maintains_run_journal maintains_install_entry) simp_all

lemma maintains_claim_run: "maintains (claim_run tools root p j r)"
  unfolding claim_run_def by (intro maintains_bind maintains_claim_plan) simp

lemma maintains_inventory: "maintains (inventory tools root)"
proof -
  have entries: "maintains (read_entries dec dir)" for dec dir
    unfolding read_entries_def by (intro maintains_rules maintains_if maintains_read_entry) simp_all
  have claimed: "maintains (claimed_record un p e c)" for un p e c
    unfolding claimed_record_def Let_def
    by (intro maintains_rules maintains_if maintains_case maintains_run_journal) simp_all
  have one: "maintains (inventory_record tools s e)" for s e
  proof (cases s)
    case (Pair rs cs)
    have found: "maintains (case m of None \<Rightarrow> io_return (planned_record p e) | Some c \<Rightarrow> claimed_record un p e c)" for m un p
      using claimed by (cases m) simp_all
    show ?thesis unfolding Pair inventory_record_def case_prod_conv
      by (intro maintains_rules maintains_if maintains_canonical_file maintains_load_plan found) simp_all
  qed
  have claims: "maintains (claim_of_plan dec dir cs p)" for dec dir cs p
    unfolding claim_of_plan_def by (intro maintains_rules maintains_claim_entry) simp
  have orphan: "maintains (check_orphan keys u n)" for keys u n
    unfolding check_orphan_def by simp
  show ?thesis
    unfolding inventory_def
    by (intro maintains_rules maintains_case maintains_if maintains_case_pair maintains_catalog_directory entries one claims orphan) simp_all
qed

lemma maintains_select: "maintains (select tools root release run)"
  unfolding select_def by (intro maintains_rules maintains_inventory) simp

end
