(* ===== verification/Run_Entries.thy ===== *)
theory Run_Entries
  imports Run_Kept
begin

text \<open>
  Catalog entries are written once: what is installed under a name is what any later installation finds there,
  whoever made it and however many calls failed since.
\<close>

section \<open>What a call saw\<close>

definition seen :: "disk \<Rightarrow> nodes" where
  "seen dk = dk_others dk (dk_calls dk) (dk_nodes dk)"

lemma gentle_seen: "gentle dk \<Longrightarrow> keeps (dk_nodes dk) (seen dk)"
  by (simp add: gentle_def seen_def)

lemma call_Inr: "call f dk = (dk', Inr x) \<Longrightarrow> snd (f (seen dk)) = Inr x \<and> dk_nodes dk' = fst (f (seen dk))"
  by (auto simp: call_def Let_def seen_def split: option.splits fault.splits)

lemma observe_Inr: "observe f dk = (dk', Inr x) \<Longrightarrow> f (seen dk) = Inr x \<and> dk_nodes dk' = seen dk"
  unfolding observe_def using call_Inr [of "\<lambda>ns. (ns, f ns)"] by fastforce

lemma change_Inr: "change f dk = (dk', Inr u) \<Longrightarrow> f (seen dk) = Inr (dk_nodes dk')"
  unfolding change_def using call_Inr [of "\<lambda>ns. case f ns of Inl err \<Rightarrow> (ns, Inl err) | Inr ns' \<Rightarrow> (ns', Inr ())"]
  by (fastforce split: sum.splits)

section \<open>Files that stay\<close>

definition holds_file :: "disk \<Rightarrow> string \<Rightarrow> string \<Rightarrow> bool" where
  "holds_file dk p raw \<longleftrightarrow> tidy (dk_nodes dk) \<and> path_elements p \<noteq> [] \<and> entry_name (last (path_elements p))
     \<and> (\<exists>q m. locate (dk_nodes dk) (full dk p) = Inr q \<and> lookup (dk_nodes dk) q = Some (Regular raw m))"

lemma keeps_solid: "keeps ns ns' \<Longrightarrow> tidy ns \<Longrightarrow> lookup ns r = Some n \<Longrightarrow> \<not> is_regular n \<Longrightarrow> lookup ns' r = Some n"
  by (simp add: keeps_def kept_node_def)

lemma keeps_locate: "keeps ns ns' \<Longrightarrow> tidy ns \<Longrightarrow> locate ns p = Inr q \<Longrightarrow> locate ns' p = Inr q"
  using locate_stable keeps_solid by blast

lemma holds_keeps:
  assumes "holds_file dk p raw" and "keeps (dk_nodes dk) ns" and "dk_cwd dk' = dk_cwd dk" and "dk_nodes dk' = ns"
  shows "holds_file dk' p raw"
proof -
  obtain q m where q: "locate (dk_nodes dk) (full dk p) = Inr q" "lookup (dk_nodes dk) q = Some (Regular raw m)"
    and p: "tidy (dk_nodes dk)" "path_elements p \<noteq> []" "entry_name (last (path_elements p))"
    using assms(1) by (auto simp: holds_file_def)
  have "q \<noteq> [] \<and> last q = last (path_elements p)" using locate_last [OF q(1)] path_elements_full [OF p(2)] by simp
  then have "lookup ns q = Some (Regular raw m)" using assms(2) q(2) p by (simp add: keeps_def kept_node_def)
  with keeps_locate [OF assms(2) p(1) q(1)] assms(2-4) p show ?thesis by (auto simp: holds_file_def full_def keeps_def)
qed

lemma holds_later: "holds_file dk p raw \<Longrightarrow> later dk dk' \<Longrightarrow> holds_file dk' p raw"
  by (rule holds_keeps) (simp_all add: later_def)

lemma holds_seen: "holds_file dk p raw \<Longrightarrow> gentle dk \<Longrightarrow> holds_file (dk\<lparr>dk_nodes := seen dk\<rparr>) p raw"
  by (rule holds_keeps) (simp_all add: gentle_seen)

lemma holds_unique: "holds_file dk p raw \<Longrightarrow> holds_file dk p raw' \<Longrightarrow> raw = raw'"
  by (auto simp: holds_file_def)

lemma lstat_regular:
  assumes "fs_lstat p dk = (dk', Inr n)" and "is_regular n" and "gentle dk" and "tidy (dk_nodes dk)"
    and "path_elements p \<noteq> []" and "entry_name (last (path_elements p))"
  shows "\<exists>raw. holds_file dk' p raw"
proof -
  obtain q where q: "locate (seen dk) (full dk p) = Inr q" "lookup (seen dk) q = Some n" "dk_nodes dk' = seen dk"
    using observe_Inr [OF assms(1) [unfolded fs_lstat_def on_path_def]] by (auto simp: bind_result_Inr node_at_def split: option.splits)
  have "later dk dk'" using maintainsD [OF maintains_reading(1) assms(3,1)] by simp
  then have "dk_cwd dk' = dk_cwd dk" "tidy (dk_nodes dk')" using assms(4) by (auto simp: later_def keeps_def)
  with q assms(2,5,6) show ?thesis by (auto simp: holds_file_def full_def is_regular_iff)
qed

lemma full_nodes [simp]: "full (dk\<lparr>dk_nodes := ns\<rparr>) p = full dk p"
  by (simp add: full_def)

lemma later_full: "later dk dk' \<Longrightarrow> full dk' p = full dk p"
  by (simp add: later_def full_def)

lemma read_file_holds:
  assumes "holds_file dk p raw" and "gentle dk" and "fs_read_file p dk = (dk', Inr s)"
  shows "s = raw"
proof -
  obtain q m where q: "locate (seen dk) (full dk p) = Inr q" "lookup (seen dk) q = Some (Regular raw m)"
    and p: "path_elements p \<noteq> []" "entry_name (last (path_elements p))"
    using holds_seen [OF assms(1,2)] by (auto simp: holds_file_def)
  have "last (path_elements (full dk p)) \<noteq> ''..''"
    using p path_elements_full [OF p(1), of dk] by (auto simp: entry_name_def suffix_def dest!: arg_cong [of _ _ length])
  then have "follow (seen dk) (full dk p) = Inr q"
    using locate_follow [OF q] path_elements_full [OF p(1), of dk] by blast
  with q(2) observe_Inr [OF assms(3) [unfolded fs_read_file_def on_path_def]] show ?thesis
    by (simp add: bind_result_def node_at_def)
qed

section \<open>Reading an entry\<close>

lemma read_entry_Inr:
  assumes "read_entry dec p dk = (dk', Inr e)"
  shows "\<exists>n dk1 b rest. fs_lstat p dk = (dk1, Inr n) \<and> is_regular n \<and> fs_read_file p dk1 = (dk', Inr b) \<and> dec b = Inr (e, rest)"
  using assms unfolding read_entry_def
  by (auto simp: io_bind_Inr io_lift_Inr io_wrap_Inr io_fail_Inr checked_def split: if_splits option.splits)

lemma read_entry_held:
  assumes "read_entry dec p dk = (dk', Inr e)" and "gentle dk" and "tidy (dk_nodes dk)"
    and "path_elements p \<noteq> []" and "entry_name (last (path_elements p))"
  shows "\<exists>raw rest. holds_file dk' p raw \<and> dec raw = Inr (e, rest)"
proof -
  obtain n dk1 b rest where n: "fs_lstat p dk = (dk1, Inr n)" "is_regular n" and b: "fs_read_file p dk1 = (dk', Inr b)"
    and dec: "dec b = Inr (e, rest)"
    using read_entry_Inr [OF assms(1)] by blast
  have dk1: "gentle dk1" using maintainsD [OF maintains_reading(1) assms(2) n(1)] by simp
  obtain raw where raw: "holds_file dk1 p raw" using lstat_regular [OF n assms(2-5)] by blast
  have "b = raw" using read_file_holds [OF raw dk1 b] .
  moreover have "holds_file dk' p raw" using holds_later [OF raw] maintainsD [OF maintains_reading(4) dk1 b] by blast
  ultimately show ?thesis using dec by blast
qed

section \<open>The temporary file of a call\<close>

definition owns :: "disk \<Rightarrow> string \<Rightarrow> string \<Rightarrow> bool" where
  "owns dk p s \<longleftrightarrow> tidy (dk_nodes dk) \<and> path_elements p \<noteq> [] \<and> own_temp dk (last (path_elements p))
     \<and> (\<exists>q m. locate (dk_nodes dk) (full dk p) = Inr q \<and> lookup (dk_nodes dk) q = Some (Regular s m))"

lemma owns_seen:
  assumes "owns dk p s" and "gentle dk"
  shows "\<exists>q m. locate (seen dk) (full dk p) = Inr q \<and> q \<noteq> [] \<and> last q = last (path_elements p) \<and> lookup (seen dk) q = Some (Regular s m)
     \<and> tidy (seen dk)"
proof -
  obtain q m where q: "locate (dk_nodes dk) (full dk p) = Inr q" "lookup (dk_nodes dk) q = Some (Regular s m)"
    and p: "tidy (dk_nodes dk)" "path_elements p \<noteq> []" "own_temp dk (last (path_elements p))"
    using assms(1) by (auto simp: owns_def)
  have "q \<noteq> []" "last q = last (path_elements p)" using locate_last [OF q(1)] path_elements_full [OF p(2)] by simp_all
  moreover from this have "lookup (seen dk) q = Some (Regular s m)" using assms(2) q(2) p(3) by (simp add: gentle_def seen_def)
  moreover have "tidy (seen dk)" using gentle_seen [OF assms(2)] p(1) by (simp add: keeps_def)
  ultimately show ?thesis using keeps_locate [OF gentle_seen [OF assms(2)] p(1) q(1)] by blast
qed

lemma owns_step:
  assumes "owns dk p s" and "later dk dk'" and "tidy (dk_nodes dk')"
    and "locate (dk_nodes dk') (full dk p) = Inr q" and "lookup (dk_nodes dk') q = Some (Regular s' m)"
  shows "owns dk' p s'"
  using assms later_full [OF assms(2), of p] by (auto simp: owns_def later_def own_temp_def)

lemma owns_observe:
  assumes "owns dk p s" and "gentle dk" and "observe f dk = (dk', Inr x)"
  shows "owns dk' p s"
proof -
  have "later dk dk'" using maintainsD [OF maintains_observe assms(2,3)] by simp
  moreover have "dk_nodes dk' = seen dk" using observe_Inr [OF assms(3)] by simp
  ultimately show ?thesis using owns_seen [OF assms(1,2)] by (auto intro: owns_step [OF assms(1)])
qed

lemma own_scratch: "owns dk p s \<Longrightarrow> scratch_path p"
  by (auto simp: owns_def own_temp_def scratch_path_def scratch_name_def)

lemma owns_handle:
  assumes "owns dk p s" and "gentle dk" and "on_regular f p dk = (dk', Inr u)" and "later dk dk'"
    and "\<And>m. \<exists>m'. f s m = Regular s' m'"
  shows "owns dk' p s'"
proof -
  obtain q m where q: "locate (seen dk) (full dk p) = Inr q" "q \<noteq> []" "last q = last (path_elements p)"
      "lookup (seen dk) q = Some (Regular s m)" "tidy (seen dk)"
    using owns_seen [OF assms(1,2)] by blast
  obtain m' where m': "f s m = Regular s' m'" using assms(5) by blast
  have now: "dk_nodes dk' = put_node q (Regular s' m') (seen dk)"
    using change_Inr [OF assms(3) [unfolded on_regular_def on_path_def]] q m' by (simp add: bind_result_def)
  have keeps: "keeps (seen dk) (dk_nodes dk')"
    unfolding now using keeps_scratch(1) [OF q(2) _ q(4)] own_scratch [OF assms(1)] q(3) by (simp add: scratch_path_def)
  then have "tidy (dk_nodes dk')" using q(5) by (simp add: keeps_def)
  moreover have "locate (dk_nodes dk') (full dk p) = Inr q" using keeps_locate [OF keeps q(5,1)] .
  moreover have "lookup (dk_nodes dk') q = Some (Regular s' m')" using q(2) by (simp add: now lookup_put)
  ultimately show ?thesis using owns_step [OF assms(1,4)] by blast
qed

lemma owns_chmod: "owns dk p s \<Longrightarrow> gentle dk \<Longrightarrow> fs_chmod p perm dk = (dk', Inr u) \<Longrightarrow> owns dk' p s \<and> gentle dk'"
  using owns_handle [of dk p s "\<lambda>s _. Regular s perm" dk' u s] maintainsD [OF maintains_scratch(1) [OF own_scratch], of dk p s dk perm dk' "Inr u"]
  by (simp add: fs_chmod_def)

lemma owns_write: "owns dk p s \<Longrightarrow> gentle dk \<Longrightarrow> fs_write p data dk = (dk', Inr u) \<Longrightarrow> owns dk' p (s @ data) \<and> gentle dk'"
  using owns_handle [of dk p s "\<lambda>s perm. Regular (s @ data) perm" dk' u "s @ data"]
    maintainsD [OF maintains_scratch(2) [OF own_scratch], of dk p s dk data dk' "Inr u"]
  by (simp add: fs_write_def)

lemma owns_sync: "owns dk p s \<Longrightarrow> gentle dk \<Longrightarrow> fs_sync p dk = (dk', Inr u) \<Longrightarrow> owns dk' p s \<and> gentle dk'"
  and owns_close: "owns dk p s \<Longrightarrow> gentle dk \<Longrightarrow> fs_close p dk = (dk', Inr u) \<Longrightarrow> owns dk' p s \<and> gentle dk'"
  using owns_observe [of dk p s "\<lambda>ns. Inr ()" dk' u] maintainsD [OF maintains_observe, of dk "\<lambda>ns. Inr ()" dk' "Inr u"]
  by (simp_all add: fs_sync_def fs_close_def)

lemma on_error_Inr: "on_error c m w = (w', Inr x) \<longleftrightarrow> m w = (w', Inr x)"
  by (auto simp: on_error_def split: prod.splits sum.splits)

lemma owns_written:
  assumes "io_bind (on_error c (fs_chmod p perm)) (\<lambda>_. io_bind (on_error c (fs_write p data)) (\<lambda>_. io_bind (on_error c (fs_sync p))
     (\<lambda>_. io_bind (fs_close p) (\<lambda>_. m)))) dk = (dk', Inr b)"
    and "owns dk p s" and "gentle dk"
  shows "\<exists>dk5. owns dk5 p (s @ data) \<and> gentle dk5 \<and> m dk5 = (dk', Inr b)"
proof -
  obtain dk1 dk2 dk3 dk4 u1 u2 u3 u4 where steps: "fs_chmod p perm dk = (dk1, Inr u1)" "fs_write p data dk1 = (dk2, Inr u2)"
      "fs_sync p dk2 = (dk3, Inr u3)" "fs_close p dk3 = (dk4, Inr u4)" "m dk4 = (dk', Inr b)"
    using assms(1) unfolding io_bind_Inr on_error_Inr by blast
  from owns_chmod [OF assms(2,3) steps(1)] owns_write [OF _ _ steps(2)] owns_sync [OF _ _ steps(3)] owns_close [OF _ _ steps(4)]
  have "owns dk4 p (s @ data) \<and> gentle dk4" by blast
  with steps(5) show ?thesis by blast
qed

lemma create_temp_owns:
  assumes "fs_create_temp dir pattern dk = (dk', Inr temp)" and "gentle dk" and "tidy (dk_nodes dk)"
    and "pattern \<in> {''.entry-'', ''.catalog-marker-'', ''.plan-''}"
  shows "owns dk' temp [] \<and> gentle dk'"
proof -
  let ?name = "pattern @ decimal (dk_random dk (dk_calls dk))"
  define p where "p = join_path [dir, ?name]"
  have "plain_name ?name" using assms(4) by (intro decimal_plain) auto
  from join_last [OF this] have p: "path_elements p \<noteq> []" "last (path_elements p) = ?name" by (simp_all add: p_def)
  let ?f = "\<lambda>ns. case locate ns (full dk p) of Inl err \<Rightarrow> (ns, Inl err)
    | Inr q \<Rightarrow> if lookup ns q \<noteq> None then (ns, Inl err_exist) else (put_node q (Regular [] 0x180) ns, Inr p)"
  have run: "call ?f dk = (dk', Inr temp)" using assms(1) unfolding fs_create_temp_def on_path_def p_def Let_def .
  from call_Inr [OF run] obtain q where q: "locate (seen dk) (full dk p) = Inr q" "lookup (seen dk) q = None"
      "dk_nodes dk' = put_node q (Regular [] 0x180) (seen dk)" "temp = p"
    by (auto split: sum.splits if_splits)
  have later: "later dk dk'" and gentle: "gentle dk'"
    using create_temp_scratch [OF assms(2,1,4)] later_gentle assms(2) by blast+
  have "q \<noteq> []" using q(2) by auto
  have tidy: "tidy (seen dk)" using gentle_seen [OF assms(2)] assms(3) by (simp add: keeps_def)
  have keeps: "keeps (seen dk) (dk_nodes dk')" unfolding q(3) by (rule keeps_new [OF q(2)]) simp
  then have "tidy (dk_nodes dk')" using tidy by (simp add: keeps_def)
  moreover have "own_temp dk' (last (path_elements p))"
    unfolding p own_temp_def using later assms(4) by (auto simp: later_def)
  moreover have "locate (dk_nodes dk') (full dk' p) = Inr q"
    using keeps_locate [OF keeps tidy q(1)] later_full [OF later] by simp
  ultimately show ?thesis using p(1) q(3,4) \<open>q \<noteq> []\<close> gentle by (auto simp: owns_def lookup_put)
qed

section \<open>Installing an entry\<close>

lemma link_holds:
  assumes "fs_link old new dk = (dk', Inr u)" and "gentle dk" and "owns dk old s"
    and "path_elements new \<noteq> []" and "entry_name (last (path_elements new))"
  shows "holds_file dk' new s"
proof -
  obtain q m where q: "locate (seen dk) (full dk old) = Inr q" "lookup (seen dk) q = Some (Regular s m)" "tidy (seen dk)"
    using owns_seen [OF assms(3,2)] by blast
  obtain to where to: "locate (seen dk) (full dk new) = Inr to" "lookup (seen dk) to = None"
      "dk_nodes dk' = put_node to (Regular s m) (seen dk)"
    using change_Inr [OF assms(1) [unfolded fs_link_def]] q by (auto simp: bind_result_Inr split: if_splits)
  have keeps: "keeps (seen dk) (dk_nodes dk')" unfolding to(3) by (rule keeps_new [OF to(2)]) simp
  then have "locate (dk_nodes dk') (full dk' new) = Inr to"
    using keeps_locate [OF keeps q(3) to(1)] later_full [of dk dk' new] maintainsD [OF maintains_link assms(2,1)] by simp
  moreover have "to \<noteq> []" using to(2) by auto
  then have "lookup (dk_nodes dk') to = Some (Regular s m)" by (simp add: to(3) lookup_put)
  moreover have "tidy (dk_nodes dk')" using keeps q(3) by (simp add: keeps_def)
  ultimately show ?thesis using assms(4,5) by (auto simp: holds_file_def)
qed

lemma deferred_Inr: "deferred c m dk = (dk', Inr x) \<Longrightarrow> \<exists>dk1. m dk = (dk1, Inr x) \<and> dk' = fst (c dk1)"
  by (auto simp: deferred_def split: prod.splits)

text \<open>Whatever happened on the way, an installed name holds the entry: its text, or one that reads the same.\<close>

lemma install_entry_holds:
  assumes "install_entry dec dir name e dk = (dk', Inr b)" and "gentle dk" and "tidy (dk_nodes dk)"
    and "plain_name name" and "entry_name name"
  shows "\<exists>raw. holds_file dk' (join_path [dir, name]) raw \<and> (raw = catalog_entry_text e @ [CHR 0x0A] \<or> (\<exists>rest. dec raw = Inr (e, rest)))"
proof -
  let ?target = "join_path [dir, name]" and ?data = "catalog_entry_text e @ [CHR 0x0A]"
  have target: "path_elements ?target \<noteq> []" "entry_name (last (path_elements ?target))"
    using join_last [OF assms(4)] assms(5) by simp_all
  let ?after = "\<lambda>linked. case linked of
     Inl _ \<Rightarrow> io_bind (io_wrap ''catalog entry %q cannot be read: %w'' [?target] (read_entry dec ?target)) (\<lambda>previous.
            if previous \<noteq> e then io_fail (ErrorIs ErrConflict ''%w: %s'' [?target]) else io_return False)
   | Inr _ \<Rightarrow> io_bind (fs_sync_dir dir) (\<lambda>_. io_return True)"
  obtain temp dk1 dk2 where temp: "fs_create_temp dir ''.entry-'' dk = (dk1, Inr temp)"
    and body: "io_bind (on_error (fs_close temp) (fs_chmod temp 0x180)) (\<lambda>_. io_bind (on_error (fs_close temp) (fs_write temp ?data)) (\<lambda>_.
        io_bind (on_error (fs_close temp) (fs_sync temp)) (\<lambda>_.
        io_bind (fs_close temp) (\<lambda>_. io_bind (io_try (fs_link temp ?target)) ?after)))) dk1 = (dk2, Inr b)"
    and dk': "dk' = fst (fs_remove temp dk2)"
    using assms(1) unfolding install_entry_def Let_def io_bind_Inr [of "fs_create_temp dir ''.entry-''"] by (blast dest: deferred_Inr)
  have own: "owns dk1 temp []" "gentle dk1" using create_temp_owns [OF temp assms(2,3)] by simp_all
  obtain dk5 where own5: "owns dk5 temp ?data" "gentle dk5"
    and linked: "io_bind (io_try (fs_link temp ?target)) ?after dk5 = (dk2, Inr b)"
    using owns_written [OF body own] by auto
  obtain dk6 r where link: "fs_link temp ?target dk5 = (dk6, r)" and after: "?after r dk6 = (dk2, Inr b)"
    using linked by (auto simp: io_bind_Inr io_try_def split: prod.splits)
  have dk6: "gentle dk6" "later dk5 dk6" using maintainsD [OF maintains_link own5(2) link] by simp_all
  have "\<exists>raw. holds_file dk2 ?target raw \<and> (raw = ?data \<or> (\<exists>rest. dec raw = Inr (e, rest)))" and "gentle dk2"
  proof -
    have "maintains (?after r)"
      by (intro maintains_case maintains_rules maintains_if maintains_read_entry) simp_all
    from maintainsD [OF this dk6(1), of dk2 "Inr b"] after show "gentle dk2" by simp
    show "\<exists>raw. holds_file dk2 ?target raw \<and> (raw = ?data \<or> (\<exists>rest. dec raw = Inr (e, rest)))"
    proof (cases r)
      case (Inl err)
      have "tidy (dk_nodes dk6)" using own5(1) dk6(2) by (simp add: owns_def later_def keeps_def)
      moreover have "read_entry dec ?target dk6 = (dk2, Inr e)"
        using after Inl by (auto simp: io_bind_Inr io_wrap_Inr io_return_Inr io_fail_Inr split: if_splits)
      ultimately show ?thesis using read_entry_held [OF _ dk6(1) _ target] by blast
    next
      case (Inr u)
      have "holds_file dk6 ?target ?data" using link_holds [OF _ own5(2,1) target] link Inr by blast
      moreover have "later dk6 dk2"
        using after Inr maintainsD [OF maintains_reading(8) dk6(1)] by (auto simp: io_bind_Inr io_return_Inr)
      ultimately show ?thesis using holds_later by blast
    qed
  qed
  moreover have "later dk2 dk'"
    using maintains_scratch(3) [OF own_scratch [OF own(1)]] \<open>gentle dk2\<close> unfolding dk' by (simp add: maintains_def)
  ultimately show ?thesis using holds_later by blast
qed

end
