(* ===== verification/Run_Claimed.thy ===== *)
theory Run_Claimed
  imports Run_Entries
begin

text \<open>
  Where the catalog is, and what a claim that succeeds leaves in it: however many processes claim runs of a plan,
  they find the same file, and whoever made it, it names the run of each of them.
\<close>

section \<open>Absolute paths\<close>

lemma is_abs_clean: "is_abs p \<Longrightarrow> is_abs (clean_path p)"
  by (simp add: clean_path_def is_abs_def Let_def)

lemma is_abs_append: "is_abs p \<Longrightarrow> is_abs (p @ s)"
  by (cases p) (simp_all add: is_abs_def)

lemma is_abs_dir: "is_abs p \<Longrightarrow> is_abs (dir_path p)"
proof -
  assume "is_abs p"
  then obtain cs where p: "p = CHR ''/'' # cs" by (cases p) (auto simp: is_abs_def)
  have "dropWhile (\<lambda>c. c \<noteq> CHR ''/'') (rev p) = dropWhile (\<lambda>c. c \<noteq> CHR ''/'') (rev cs) @ [CHR ''/'']
      \<or> dropWhile (\<lambda>c. c \<noteq> CHR ''/'') (rev p) = [CHR ''/'']"
    unfolding p by (simp add: dropWhile_append)
  then have "is_abs (rev (dropWhile (\<lambda>c. c \<noteq> CHR ''/'') (rev p)))" by (auto simp: is_abs_def)
  then show ?thesis by (simp add: dir_path_def is_abs_clean)
qed

lemma is_abs_join: "is_abs p \<Longrightarrow> is_abs (join_path (p # es))"
proof -
  assume p: "is_abs p"
  then have "p \<noteq> []" by (auto simp: is_abs_def)
  moreover have "is_abs (join_slash (p # es))" using p by (cases es) (simp_all add: is_abs_append)
  ultimately show ?thesis by (simp add: join_path_def is_abs_clean)
qed

lemma full_abs: "is_abs p \<Longrightarrow> full dk p = p"
  by (simp add: full_def)

section \<open>The directory of the catalog\<close>

definition project_at :: "nodes \<Rightarrow> string \<Rightarrow> string list \<Rightarrow> bool" where
  "project_at ns root q \<longleftrightarrow> tidy ns \<and> is_abs root \<and> follow ns (dir_path (clean_path root)) = Inr q \<and> (\<exists>m. lookup ns q = Some (Folder m))"

definition catalog_at :: "string \<Rightarrow> string list \<Rightarrow> string" where
  "catalog_at root q = join_path [join_path [path_text q, base_path (clean_path root)], ''catalog'']"

lemma project_stable: "project_at ns root q \<Longrightarrow> keeps ns ns' \<Longrightarrow> project_at ns' root q"
  using keeps_solid unfolding project_at_def follow_def
  by (metis (no_types, lifting) is_regular.simps(2) keeps_def walk_stable)

lemma catalog_directory_at:
  assumes "catalog_directory root create dk = (dk', Inr dir)" and "gentle dk" and "project_at (dk_nodes dk) root q"
  shows "dir = catalog_at root q \<and> base_path (join_path [path_text q, base_path (clean_path root)]) = ''.distroplane''"
proof -
  have "is_abs root" using assms(3) by (simp add: project_at_def)
  then have "fs_abs root dk = (dk, Inr (clean_path root))" by (simp add: fs_abs_def)
  then obtain p dk1 where p: "fs_eval_links (dir_path (clean_path root)) dk = (dk1, Inr p)"
    and rest: "dir = join_path [join_path [p, base_path (clean_path root)], ''catalog'']"
      "base_path (join_path [p, base_path (clean_path root)]) = ''.distroplane''"
    using assms(1) unfolding catalog_directory_def Let_def
    by (auto simp: io_bind_Inr io_wrap_Inr io_return_Inr io_fail_Inr split: if_splits)
  have "is_abs (dir_path (clean_path root))" using \<open>is_abs root\<close> by (simp add: is_abs_dir is_abs_clean)
  then have "bind_result (follow (seen dk) (dir_path (clean_path root))) (\<lambda>q. Inr (path_text q)) = Inr p"
    using observe_Inr [OF p [unfolded fs_eval_links_def on_path_def]] by (simp add: full_abs)
  moreover have "follow (seen dk) (dir_path (clean_path root)) = Inr q"
    using project_stable [OF assms(3) gentle_seen [OF assms(2)]] by (simp add: project_at_def)
  ultimately show ?thesis using rest by (simp add: catalog_at_def bind_result_def)
qed

lemma catalog_at_abs: "is_abs (catalog_at root q)"
  by (simp add: catalog_at_def is_abs_join)

section \<open>Names of entries\<close>

lemma hex_first: "\<exists>c cs. sha256_hex v = c # cs \<and> is_lower_hex c"
proof -
  have "list_all is_lower_hex (sha256_hex v)" by (simp add: sha256_hex_def hex_encode_lower)
  moreover have "sha256_hex v \<noteq> []" using length_sha256_hex [of v] by fastforce
  ultimately show ?thesis by (cases "sha256_hex v") auto
qed

lemma hex_no_slash: "CHR ''/'' \<notin> set (sha256_hex v)"
proof -
  have "list_all is_lower_hex (sha256_hex v)" by (simp add: sha256_hex_def hex_encode_lower)
  then show ?thesis by (auto simp: list_all_iff is_lower_hex_def byte_def)
qed

lemma catalog_key_names [simp]: "plain_name (catalog_key i)" "plain_name (catalog_key i @ ''.backup'')"
  "entry_name (catalog_key i)" "entry_name (catalog_key i @ ''.backup'')"
proof -
  obtain c cs where h: "sha256_hex i = c # cs" "is_lower_hex c" using hex_first by blast
  have c: "c \<noteq> CHR ''.''" using h(2) by (auto simp: is_lower_hex_def byte_def)
  then show "plain_name (catalog_key i)" "plain_name (catalog_key i @ ''.backup'')"
    using hex_no_slash [of i] by (simp_all add: plain_name_def catalog_key_def h)
  show "entry_name (catalog_key i)" "entry_name (catalog_key i @ ''.backup'')"
    using c by (simp_all add: entry_name_def scratch_name_def catalog_key_def h suffix_def)
qed

section \<open>A claim that succeeds\<close>

definition backup_at :: "string \<Rightarrow> string list \<Rightarrow> plan_id \<Rightarrow> string" where
  "backup_at root q i = join_path [join_path [catalog_at root q, ''runs''], catalog_key i @ ''.backup'']"

lemma backup_at_abs: "is_abs (backup_at root q i)"
  by (simp add: backup_at_def is_abs_join catalog_at_abs)

lemma io_unless_Inr: "(if b then io_fail e else m) w = (w', Inr x) \<longleftrightarrow> \<not> b \<and> m w = (w', Inr x)"
  by (simp add: io_fail_Inr)

lemma claim_plan_holds:
  assumes "claim_plan tools root p j r dk = (dk', Inr i)" and "gentle dk" and "project_at (dk_nodes dk) root q"
  shows "valid_identifier r \<and> (\<exists>e raw. ce_plan_id e = i \<and> ce_run_id e = r \<and> holds_file dk' (backup_at root q i) raw
     \<and> (raw = catalog_entry_text e @ [CHR 0x0A] \<or> (\<exists>rest. ct_entry tools raw = Inr (e, rest))))"
proof -
  obtain dk1 dk2 dk3 dk4 dk5 dk6 dk7 plan_file journal_file dir res created new where
    r: "valid_identifier r"
    and s1: "canonical_file p True dk = (dk1, Inr plan_file)" and s2: "canonical_file j False dk1 = (dk2, Inr journal_file)"
    and s3: "register_plan tools root plan_file dk2 = (dk3, Inr i)" and s4: "catalog_directory root True dk3 = (dk4, Inr dir)"
    and s5: "\<exists>pe. plan_entry (ct_entry tools) dir i dk4 = (dk5, Inr pe)"
    and s6: "io_try (read_run_journal (ct_unmarshal tools) \<lparr>ce_schema_version = catalog_schema, ce_plan_id = i, ce_plan_path = plan_file,
        ce_run_id = r, ce_journal_path = journal_file\<rparr>) dk5 = (dk6, Inr res :: error + read_result result)"
    and s7: "install_entry (ct_entry tools) (join_path [dir, ''runs'']) (catalog_key i @ ''.backup'') \<lparr>ce_schema_version = catalog_schema, ce_plan_id = i,
        ce_plan_path = plan_file, ce_run_id = r, ce_journal_path = journal_file\<rparr> dk6 = (dk7, Inr created)"
    and s8: "install_entry (ct_entry tools) (join_path [dir, ''runs'']) (catalog_key i) \<lparr>ce_schema_version = catalog_schema, ce_plan_id = i,
        ce_plan_path = plan_file, ce_run_id = r, ce_journal_path = journal_file\<rparr> dk7 = (dk', Inr new)"
    using assms(1) unfolding claim_plan_def Let_def io_bind_Inr io_unless_Inr io_return_Inr io_lift_Inr
    by (elim exE conjE, hypsubst) (rule that, simp, assumption+, rule exI, assumption+)
  note d1 = maintainsD [OF maintains_canonical_file assms(2) s1]
  note d2 = maintainsD [OF maintains_canonical_file conjunct2 [OF d1] s2]
  note d3 = maintainsD [OF maintains_register_plan conjunct2 [OF d2] s3]
  note d4 = maintainsD [OF maintains_catalog_directory conjunct2 [OF d3] s4]
  obtain pe where "plan_entry (ct_entry tools) dir i dk4 = (dk5, Inr pe)" using s5 by blast
  note d5 = maintainsD [OF maintains_plan_entry conjunct2 [OF d4] this]
  note d6 = maintainsD [OF maintains_try [OF maintains_run_journal] conjunct2 [OF d5] s6]
  note d7 = maintainsD [OF maintains_install_entry conjunct2 [OF d6] s7]
  note d8 = maintainsD [OF maintains_install_entry conjunct2 [OF d7] s8]
  have k3: "keeps (dk_nodes dk) (dk_nodes dk3)" using d1 d2 d3 by (meson later_def keeps_trans)
  have dir: "dir = catalog_at root q"
    using catalog_directory_at [OF s4 conjunct2 [OF d3] project_stable [OF assms(3) k3]] by simp
  have "keeps (dk_nodes dk) (dk_nodes dk6)" using k3 d4 d5 d6 by (meson later_def keeps_trans)
  then have "tidy (dk_nodes dk6)" using project_stable [OF assms(3)] by (simp add: project_at_def)
  define e where "e = \<lparr>ce_schema_version = catalog_schema, ce_plan_id = i, ce_plan_path = plan_file, ce_run_id = r, ce_journal_path = journal_file\<rparr>"
  obtain raw where "holds_file dk7 (backup_at root q i) raw"
    and raw: "raw = catalog_entry_text e @ [CHR 0x0A] \<or> (\<exists>rest. ct_entry tools raw = Inr (e, rest))"
    using install_entry_holds [OF s7 conjunct2 [OF d6] \<open>tidy (dk_nodes dk6)\<close>] unfolding backup_at_def dir e_def by auto
  then have "holds_file dk' (backup_at root q i) raw" using holds_later conjunct1 [OF d8] by blast
  moreover have "ce_plan_id e = i \<and> ce_run_id e = r" by (simp add: e_def)
  ultimately show ?thesis using r raw by blast
qed

text \<open>Two claims of one plan, wherever they ran, agree as soon as some later tree has what both left.\<close>

lemma holds_abs: "is_abs p \<Longrightarrow> holds_file dk p raw \<Longrightarrow> keeps (dk_nodes dk) ns \<Longrightarrow> holds_file (dk2\<lparr>dk_nodes := ns\<rparr>) p raw"
  by (drule holds_keeps [of dk p raw ns "dk\<lparr>dk_nodes := ns\<rparr>"]) (simp_all add: holds_file_def full_abs)

definition reads_runs :: "entry_decoder \<Rightarrow> bool" where
  "reads_runs dec \<longleftrightarrow> (\<forall>e. valid_string (ce_run_id e) \<longrightarrow>
     (\<exists>x rest. dec (catalog_entry_text e @ [CHR 0x0A]) = Inr (x, rest) \<and> ce_run_id x = ce_run_id e))"

lemma held_run:
  assumes "reads_runs dec" and "valid_identifier (ce_run_id e)"
    and "raw = catalog_entry_text e @ [CHR 0x0A] \<or> (\<exists>rest. dec raw = Inr (e, rest))"
  shows "\<exists>x rest. dec raw = Inr (x, rest) \<and> ce_run_id x = ce_run_id e"
  using assms by (auto simp: reads_runs_def valid_identifier_def validate_identifier_iff simp del: validate_identifier_valid)

lemma claims_agree:
  assumes "claim_plan tools root p1 j1 r1 dk1 = (dk1', Inr i)" and "gentle dk1" and "project_at (dk_nodes dk1) root q"
    and "claim_plan tools root p2 j2 r2 dk2 = (dk2', Inr i)" and "gentle dk2" and "project_at (dk_nodes dk2) root q"
    and "keeps (dk_nodes dk1') ns" and "keeps (dk_nodes dk2') ns" and "reads_runs (ct_entry tools)"
  shows "r1 = r2"
proof -
  obtain e1 raw1 where e1: "ce_run_id e1 = r1" "valid_identifier r1" "holds_file dk1' (backup_at root q i) raw1"
      "raw1 = catalog_entry_text e1 @ [CHR 0x0A] \<or> (\<exists>rest. ct_entry tools raw1 = Inr (e1, rest))"
    using claim_plan_holds [OF assms(1-3)] by blast
  obtain e2 raw2 where e2: "ce_run_id e2 = r2" "valid_identifier r2" "holds_file dk2' (backup_at root q i) raw2"
      "raw2 = catalog_entry_text e2 @ [CHR 0x0A] \<or> (\<exists>rest. ct_entry tools raw2 = Inr (e2, rest))"
    using claim_plan_holds [OF assms(4-6)] by blast
  have "raw1 = raw2"
    using holds_unique [OF holds_abs [OF backup_at_abs e1(3) assms(7), of dk1] holds_abs [OF backup_at_abs e2(3) assms(8), of dk1]] .
  with held_run [OF assms(9) _ e1(4)] held_run [OF assms(9) _ e2(4)] e1(1,2) e2(1,2) show ?thesis by force
qed

end
