(* ===== verification/Run_Quiet.thy ===== *)
theory Run_Quiet
  imports Run_Claimed
begin

text \<open>
  The calls on a disk that no other process uses and that does not fail: what each answers and leaves, when the
  directories on the way are there.
\<close>

definition quiet_disk :: "nodes \<Rightarrow> nat \<Rightarrow> disk" where
  "quiet_disk ns n = \<lparr>dk_nodes = ns, dk_calls = n, dk_faults = (\<lambda>_. None), dk_others = (\<lambda>_ ns. ns), dk_random = id, dk_cwd = ''/''\<rparr>"

lemma quiet_gentle [simp]: "gentle (quiet_disk ns n)"
  by (simp add: gentle_def quiet_disk_def)

lemma quiet_nodes [simp]: "dk_nodes (quiet_disk ns n) = ns"
  by (simp add: quiet_disk_def)

lemma quiet_call: "call f (quiet_disk ns n) = (quiet_disk (fst (f ns)) (Suc n), snd (f ns))"
  by (simp add: call_def quiet_disk_def)

lemma quiet_observe: "observe f (quiet_disk ns n) = (quiet_disk ns (Suc n), f ns)"
  by (simp add: observe_def quiet_call)

lemma quiet_change: "change f (quiet_disk ns n) =
   (case f ns of Inl err \<Rightarrow> (quiet_disk ns (Suc n), Inl err) | Inr ns' \<Rightarrow> (quiet_disk ns' (Suc n), Inr ()))"
  by (simp add: change_def quiet_call split: sum.split)

section \<open>Directories\<close>

fun folders :: "nodes \<Rightarrow> string list \<Rightarrow> string list \<Rightarrow> bool" where
  "folders ns at [] = (\<exists>m. lookup ns at = Some (Folder m))"
| "folders ns at (c # cs) = (plain_name c \<and> (\<exists>m. lookup ns (at @ [c]) = Some (Folder m)) \<and> folders ns (at @ [c]) cs)"

lemma folders_walk: "folders ns at cs \<Longrightarrow> walk ns k at cs = Inr (at @ cs)"
  by (induction cs arbitrary: at) (auto simp: walk_Cons plain_name_def)

lemma folders_plain: "folders ns at cs \<Longrightarrow> list_all plain_name cs"
  by (induction cs arbitrary: at) auto

lemma folders_last: "folders ns at cs \<Longrightarrow> \<exists>m. lookup ns (at @ cs) = Some (Folder m)"
  by (induction cs arbitrary: at) fastforce+

lemma folders_keep:
  "folders ns at cs \<Longrightarrow> (\<And>k. k \<le> length cs \<Longrightarrow> lookup ns' (at @ take k cs) = lookup ns (at @ take k cs)) \<Longrightarrow> folders ns' at cs"
proof (induction cs arbitrary: at)
  case Nil
  then show ?case using Nil.prems(2) [of 0] by simp
next
  case (Cons c cs)
  have "lookup ns' (at @ [c]) = lookup ns (at @ [c])" using Cons.prems(2) [of 1] by simp
  moreover have "folders ns' (at @ [c]) cs"
  proof (rule Cons.IH)
    show "folders ns (at @ [c]) cs" using Cons.prems(1) by simp
    show "lookup ns' ((at @ [c]) @ take k cs) = lookup ns ((at @ [c]) @ take k cs)" if "k \<le> length cs" for k
      using Cons.prems(2) [of "Suc k"] that by simp
  qed
  ultimately show ?case using Cons.prems(1) by simp
qed

lemma folders_put: "folders ns [] q \<Longrightarrow> folders (put_node (q @ [x]) n ns) [] q"
proof (erule folders_keep)
  fix k
  have "take k q \<noteq> q @ [x]" by (metis length_append_singleton length_take lessI min.cobounded1 not_less)
  then show "lookup (put_node (q @ [x]) n ns) ([] @ take k q) = lookup ns ([] @ take k q)" by (simp add: lookup_put)
qed

lemma folders_locate: "folders ns [] q \<Longrightarrow> plain_name x \<Longrightarrow> locate ns (path_text (q @ [x])) = Inr (q @ [x])"
  using folders_plain [of ns "[]" q] folders_walk [of ns "[]" q] folders_last [of ns "[]" q] by (simp add: locate_Inr)

lemma folders_follow: "folders ns [] q \<Longrightarrow> follow ns (path_text q) = Inr q"
  using folders_plain [of ns "[]" q] folders_walk [of ns "[]" q] by (simp add: follow_def)

lemma folders_follow_file:
  "folders ns [] q \<Longrightarrow> plain_name x \<Longrightarrow> lookup ns (q @ [x]) = Some (Regular s m) \<Longrightarrow> follow ns (path_text (q @ [x])) = Inr (q @ [x])"
  using folders_plain [of ns "[]" q] by (intro locate_follow [OF folders_locate]) (auto simp: plain_name_def)

section \<open>Calls\<close>

text \<open>A path below a directory that is there, split for the rewriter.\<close>

definition below :: "nodes \<Rightarrow> string list \<Rightarrow> bool" where
  "below ns q \<longleftrightarrow> q \<noteq> [] \<and> plain_name (last q) \<and> folders ns [] (butlast q)"

lemma below_snoc [simp]: "below ns (q @ [x]) \<longleftrightarrow> plain_name x \<and> folders ns [] q"
  by (simp add: below_def)

lemma below_locate: "below ns q \<Longrightarrow> locate ns (path_text q) = Inr q"
  using folders_locate [of ns "butlast q" "last q"] by (simp add: below_def)

lemma below_follow: "below ns q \<Longrightarrow> lookup ns q = Some (Regular s m) \<Longrightarrow> follow ns (path_text q) = Inr q"
  using folders_follow_file [of ns "butlast q" "last q"] by (simp add: below_def)

lemma quiet_lstat: "below ns q \<Longrightarrow> fs_lstat (path_text q) (quiet_disk ns n) =
   (quiet_disk ns (Suc n), case lookup ns q of None \<Rightarrow> Inl err_not_exist | Some v \<Rightarrow> Inr v)"
  by (simp add: fs_lstat_def on_path_def quiet_observe below_locate bind_result_def node_at_def)

lemma quiet_lstat_folder: "folders ns [] q \<Longrightarrow> q \<noteq> [] \<Longrightarrow> \<exists>m. fs_lstat (path_text q) (quiet_disk ns n) = (quiet_disk ns (Suc n), Inr (Folder m))"
proof -
  assume q: "folders ns [] q" "q \<noteq> []"
  have "folders ns at (xs @ [x]) \<Longrightarrow> \<exists>m. lookup ns at = Some (Folder m) \<Longrightarrow> folders ns at xs" for at xs and x :: string
    by (induction xs arbitrary: at) auto
  then have "folders ns [] (butlast q)" using q by (metis append_butlast_last_id lookup_root)
  then have "below ns q" using q folders_plain [OF q(1)] by (auto simp: below_def list_all_iff)
  then show ?thesis using folders_last [OF q(1)] by (auto simp: quiet_lstat)
qed

lemma quiet_eval: "folders ns [] q \<Longrightarrow> fs_eval_links (path_text q) (quiet_disk ns n) = (quiet_disk ns (Suc n), Inr (path_text q))"
  by (simp add: fs_eval_links_def on_path_def quiet_observe folders_follow bind_result_def)

lemma quiet_read: "below ns q \<Longrightarrow> lookup ns q = Some (Regular s m) \<Longrightarrow> fs_read_file (path_text q) (quiet_disk ns n) = (quiet_disk ns (Suc n), Inr s)"
  by (simp add: fs_read_file_def on_path_def quiet_observe below_follow bind_result_def node_at_def)

lemma quiet_read_dir: "folders ns [] q \<Longrightarrow> fs_read_dir (path_text q) (quiet_disk ns n) =
   (quiet_disk ns (Suc n), Inr (sort (remdups (map last (filter (\<lambda>k. k \<noteq> [] \<and> butlast k = q) (map fst ns))))))"
  using folders_last [of ns "[]" q] by (auto simp: fs_read_dir_def on_path_def quiet_observe folders_follow bind_result_def node_at_def)

lemma quiet_mkdir: "below ns q \<Longrightarrow> lookup ns q = None \<Longrightarrow> fs_mkdir (path_text q) perm (quiet_disk ns n) = (quiet_disk (put_node q (Folder perm) ns) (Suc n), Inr ())"
  by (simp add: fs_mkdir_def on_path_def quiet_change below_locate bind_result_def)

lemma quiet_sync_dir: "folders ns [] q \<Longrightarrow> fs_sync_dir (path_text q) (quiet_disk ns n) = (quiet_disk ns (Suc n), Inr ())"
  using folders_last [of ns "[]" q] by (auto simp: fs_sync_dir_def on_path_def quiet_observe folders_follow bind_result_def node_at_def)

lemma quiet_abs: "list_all plain_name q \<Longrightarrow> fs_abs (path_text q) dk = (dk, Inr (path_text q))"
  by (simp add: fs_abs_def)

lemma quiet_temp:
  assumes "folders ns [] q" "plain_name (pattern @ decimal n)" "lookup ns (q @ [pattern @ decimal n]) = None"
  shows "fs_create_temp (path_text q) pattern (quiet_disk ns n) =
     (quiet_disk (put_node (q @ [pattern @ decimal n]) (Regular [] 0x180) ns) (Suc n), Inr (path_text (q @ [pattern @ decimal n])))"
proof -
  have "join_path [path_text q, pattern @ decimal n] = path_text (q @ [pattern @ decimal n])"
    using folders_plain [OF assms(1)] assms(2) by simp
  moreover have "dk_random (quiet_disk ns n) (dk_calls (quiet_disk ns n)) = n" by (simp add: quiet_disk_def)
  ultimately show ?thesis
    using folders_locate [OF assms(1,2)] assms(3) by (simp add: fs_create_temp_def on_path_def quiet_call Let_def)
qed

lemma quiet_regular: "below ns q \<Longrightarrow> lookup ns q = Some (Regular s m) \<Longrightarrow>
   on_regular f (path_text q) (quiet_disk ns n) = (quiet_disk (put_node q (f s m) ns) (Suc n), Inr ())"
  by (simp add: on_regular_def on_path_def quiet_change below_locate bind_result_def)

lemma quiet_close: "fs_sync p (quiet_disk ns n) = (quiet_disk ns (Suc n), Inr ())" "fs_close p (quiet_disk ns n) = (quiet_disk ns (Suc n), Inr ())"
  by (simp_all add: fs_sync_def fs_close_def quiet_observe)

lemma quiet_link: "below ns p \<Longrightarrow> below ns q \<Longrightarrow> lookup ns p = Some (Regular s m) \<Longrightarrow> lookup ns q = None \<Longrightarrow>
   fs_link (path_text p) (path_text q) (quiet_disk ns n) = (quiet_disk (put_node q (Regular s m) ns) (Suc n), Inr ())"
  by (simp add: fs_link_def quiet_change below_locate bind_result_def)

lemma quiet_remove: "below ns q \<Longrightarrow> lookup ns q = Some (Regular s m) \<Longrightarrow>
   fs_remove (path_text q) (quiet_disk ns n) = (quiet_disk (drop_node q ns) (Suc n), Inr ())"
  by (simp add: fs_remove_def on_path_def quiet_change below_locate bind_result_def)

lemma drop_absent: "q \<noteq> [] \<Longrightarrow> lookup ns q = None \<Longrightarrow> drop_node q ns = ns"
  by (auto simp: drop_node_def lookup_def map_of_eq_None_iff image_iff filter_id_conv)

section \<open>Files put in place\<close>

text \<open>What a file goes through that is written under a temporary name and linked into place.\<close>

lemma quiet_placed:
  assumes "folders ns [] q" and "plain_name x" and "plain_name t" and "x \<noteq> t"
    and "lookup ns (q @ [x]) = None" and "lookup ns (q @ [t]) = None"
    and "t = pattern @ decimal n"
  shows "io_bind (fs_create_temp (path_text q) pattern) (\<lambda>temp. deferred (fs_remove temp)
       (io_bind (on_error (fs_close temp) (fs_chmod temp perm)) (\<lambda>_. io_bind (on_error (fs_close temp) (fs_write temp s)) (\<lambda>_.
        io_bind (on_error (fs_close temp) (fs_sync temp)) (\<lambda>_. io_bind (fs_close temp) (\<lambda>_.
        io_bind (io_try (fs_link temp (path_text (q @ [x])))) (\<lambda>linked. case linked of Inl err \<Rightarrow> f err
          | Inr _ \<Rightarrow> io_bind (fs_sync_dir (path_text q)) (\<lambda>_. io_return b)))))))) (quiet_disk ns n)
     = (quiet_disk (put_node (q @ [x]) (Regular s perm) ns) (n + 8), Inr b)"
proof -
  note keep = folders_put [OF folders_put [OF folders_put [OF folders_put [OF assms(1)]]]] folders_put [OF folders_put [OF folders_put [OF assms(1)]]]
    folders_put [OF folders_put [OF assms(1)]] folders_put [OF assms(1)]
  have final: "drop_node (q @ [t]) (put_node (q @ [x]) (Regular s perm) (put_node (q @ [t]) (Regular s perm)
      (put_node (q @ [t]) (Regular [] perm) (put_node (q @ [t]) (Regular [] 0x180) ns)))) = put_node (q @ [x]) (Regular s perm) ns"
    using assms(4,6) drop_absent [of "q @ [t]" ns] by (auto simp: drop_node_def put_node_def)
  show ?thesis
    using assms(2-4) keep assms(1,5,6) unfolding fs_chmod_def fs_write_def
    by (simp add: io_bind_def deferred_def on_error_def io_try_def quiet_temp [OF assms(1)] assms(7) [symmetric]
      quiet_regular quiet_close quiet_link quiet_sync_dir quiet_remove lookup_put final io_return_def io_lift_def eval_nat_numeral)
qed

chapter \<open>A decoder\<close>

text \<open>
  A decoder of catalog entries for the witnesses: it reads the text of any entry, and gives its strings back if
  they are valid UTF-8.
\<close>

section \<open>Strings that need not be valid\<close>

lemma decode_rune_None: "decode_rune (c # cs) = (None, n) \<Longrightarrow> n = 1"
  by (cases "second_range (byte c)") (auto simp: decode_rune.simps(2) Let_def split: if_splits list.splits)

lemma parse_replacement: "parse_string (CHR 0x5C # CHR ''u'' # CHR ''f'' # CHR ''f'' # CHR ''f'' # CHR ''d'' # t) = prepend (encode_rune 0xFFFD) (parse_string t)"
proof -
  have "is_hex CHR ''f''" "hex_digit CHR ''f'' = 15" "is_hex CHR ''d''" "hex_digit CHR ''d'' = 13"
    by (simp_all add: is_hex_def hex_digit_def byte_def)
  then have "hex4 (CHR ''f'' # CHR ''f'' # CHR ''f'' # CHR ''d'' # t) = Some (0xFFFD, t)" by simp
  then show ?thesis by simp
qed

lemma single_rune:
  assumes "decode_rune (c # cs) = (Some u, n)"
  shows "valid_string (take n (c # cs))" "escape_string (take n (c # cs)) = escape_chunk (Some u, take n (c # cs))"
proof -
  obtain m where m: "n = Suc m" "m \<le> length cs" using decode_rune_width [OF assms] by (cases n) simp_all
  have "decode_rune (c # take m cs) = (Some u, n)" using decode_rune_prefix [OF assms, of "[]"] by (simp add: m)
  then have "rune_chunks (take n (c # cs)) = [(Some u, take n (c # cs))]" using m by (simp add: min_absorb2)
  then show "valid_string (take n (c # cs))" "escape_string (take n (c # cs)) = escape_chunk (Some u, take n (c # cs))"
    by (simp_all add: valid_string_def escape_string_def)
qed

lemma parse_escaped: "\<exists>s'. (\<forall>t. parse_string (escape_string s @ t) = prepend s' (parse_string t)) \<and> (valid_string s \<longrightarrow> s' = s)"
proof -
  have "\<exists>s'. \<forall>t. parse_string (escape_string s @ t) = prepend s' (parse_string t)"
  proof (induction s rule: rune_chunks.induct)
    case 1
    have "parse_string t = prepend [] (parse_string t)" for t by (cases "parse_string t") (simp_all add: prepend_def)
    then show ?case by (intro exI [of _ "[]"]) (simp add: escape_string_def)
  next
    case (2 c cs)
    obtain r n where d: "decode_rune (c # cs) = (r, n)" by fastforce
    obtain s' where s': "parse_string (escape_string (drop (n - 1) cs) @ t) = prepend s' (parse_string t)" for t
      using "2.IH" [OF refl] d by auto
    have split: "escape_string (c # cs) = escape_chunk (r, take n (c # cs)) @ escape_string (drop (n - 1) cs)"
      using d by (simp add: escape_string_def)
    show ?case
    proof (cases r)
      case None
      then have "parse_string (escape_string (c # cs) @ t) = prepend (encode_rune 0xFFFD @ s') (parse_string t)" for t
        using decode_rune_None [of c cs n] d s' [of t] by (simp add: split escape_chunk_def parse_replacement del: parse_string.simps(2))
      then show ?thesis by blast
    next
      case (Some u)
      note one = single_rune [OF d [unfolded Some]]
      have "parse_string (escape_string (c # cs) @ t) = prepend (take n (c # cs) @ s') (parse_string t)" for t
        using parse_string_escape [OF one(1), of "escape_string (drop (n - 1) cs) @ t"] s' [of t] by (simp add: split one(2) Some)
      then show ?thesis by blast
    qed
  qed
  then obtain s' where s': "\<forall>t. parse_string (escape_string s @ t) = prepend s' (parse_string t)" by blast
  have "s' = s" if "valid_string s"
    using parse_string_quoted [OF that, of "[]"] s' [rule_format, of "[CHR 0x22]"] by simp
  with s' show ?thesis by blast
qed

section \<open>The decoder\<close>

definition expect :: "string \<Rightarrow> string \<Rightarrow> string option" where
  "expect p s = (if prefix p s then Some (drop (length p) s) else None)"

definition read_member :: "string \<Rightarrow> string \<Rightarrow> (string \<times> string) option" where
  "read_member k s = (case expect (json_quote k @ CHR '':'' # [CHR 0x22]) s of None \<Rightarrow> None | Some r \<Rightarrow> parse_string r)"

definition read_optional :: "string \<Rightarrow> string \<Rightarrow> (string \<times> string) option" where
  "read_optional k s = (case expect (CHR '','' # json_quote k @ CHR '':'' # [CHR 0x22]) s of None \<Rightarrow> Some ([], s) | Some r \<Rightarrow> parse_string r)"

definition read_after :: "string \<Rightarrow> string \<Rightarrow> (string \<times> string) option" where
  "read_after k s = (case expect (CHR '','' # json_quote k @ CHR '':'' # [CHR 0x22]) s of None \<Rightarrow> None | Some r \<Rightarrow> parse_string r)"

definition plain_entry_decoder :: entry_decoder where
  "plain_entry_decoder s = (case Option.bind (expect ''{'' s) (\<lambda>s. Option.bind (read_member ''schemaVersion'' s) (\<lambda>(v, s).
     Option.bind (read_after ''planId'' s) (\<lambda>(i, s). Option.bind (read_after ''planPath'' s) (\<lambda>(p, s).
     Option.bind (read_optional ''runId'' s) (\<lambda>(r, s). Option.bind (read_optional ''journalPath'' s) (\<lambda>(j, s).
     Option.bind (expect ''}'' s) (\<lambda>s. Some (\<lparr>ce_schema_version = v, ce_plan_id = i, ce_plan_path = p, ce_run_id = r, ce_journal_path = j\<rparr>, s)))))))) of
     None \<Rightarrow> Inl (Errorf ''invalid entry'' []) | Some x \<Rightarrow> Inr x)"

lemma expect_append: "expect p (p @ s) = Some s"
  by (simp add: expect_def)

lemma parse_quoted: "\<exists>s'. (\<forall>r. parse_string (escape_string s @ CHR 0x22 # r) = Some (s', r)) \<and> (valid_string s \<longrightarrow> s' = s)"
  using parse_escaped [of s] by fastforce

lemma expect_member:
  "expect (json_quote k @ CHR '':'' # [CHR 0x22]) (member_text (k, json_quote s) @ r) = Some (escape_string s @ CHR 0x22 # r)"
  "expect (CHR '','' # json_quote k @ CHR '':'' # [CHR 0x22]) (CHR '','' # member_text (k, json_quote s) @ r) = Some (escape_string s @ CHR 0x22 # r)"
proof -
  have member: "member_text (k, json_quote s) @ r = (json_quote k @ CHR '':'' # [CHR 0x22]) @ escape_string s @ CHR 0x22 # r"
    by (simp add: member_text_def json_quote_def [of s])
  show first: "expect (json_quote k @ CHR '':'' # [CHR 0x22]) (member_text (k, json_quote s) @ r) = Some (escape_string s @ CHR 0x22 # r)"
    unfolding member by (rule expect_append)
  show "expect (CHR '','' # json_quote k @ CHR '':'' # [CHR 0x22]) (CHR '','' # member_text (k, json_quote s) @ r) = Some (escape_string s @ CHR 0x22 # r)"
    using first by (simp add: expect_def split: if_splits)
qed

lemma read_text: "\<exists>s'. (\<forall>r k. read_member k (member_text (k, json_quote s) @ r) = Some (s', r)
      \<and> read_after k (CHR '','' # member_text (k, json_quote s) @ r) = Some (s', r)
      \<and> read_optional k (CHR '','' # member_text (k, json_quote s) @ r) = Some (s', r)) \<and> (valid_string s \<longrightarrow> s' = s)"
  using parse_quoted [of s] by (auto simp: read_member_def read_after_def read_optional_def expect_member)

lemma read_absent:
  "read_optional ''runId'' (CHR ''}'' # r) = Some ([], CHR ''}'' # r)"
  "read_optional ''journalPath'' (CHR ''}'' # r) = Some ([], CHR ''}'' # r)"
  "read_optional ''runId'' (CHR '','' # member_text (''journalPath'', v) @ r) = Some ([], CHR '','' # member_text (''journalPath'', v) @ r)"
  by (simp_all add: read_optional_def expect_def member_text_def json_quote_def escape_string_def escape_chunk_def escape_ascii_def byte_def)

text \<open>What it reads: the strings of the entry, if they are valid.\<close>

definition alike :: "catalog_entry \<Rightarrow> catalog_entry \<Rightarrow> bool" where
  "alike e x \<longleftrightarrow> (valid_string (ce_schema_version e) \<longrightarrow> ce_schema_version x = ce_schema_version e)
     \<and> (valid_string (ce_plan_id e) \<longrightarrow> ce_plan_id x = ce_plan_id e) \<and> (valid_string (ce_plan_path e) \<longrightarrow> ce_plan_path x = ce_plan_path e)
     \<and> (valid_string (ce_run_id e) \<longrightarrow> ce_run_id x = ce_run_id e) \<and> (valid_string (ce_journal_path e) \<longrightarrow> ce_journal_path x = ce_journal_path e)"

lemma plain_entry_reads: "\<exists>x. plain_entry_decoder (catalog_entry_text e @ r) = Inr (x, r) \<and> alike e x"
proof -
  obtain v where v: "\<forall>r k. read_member k (member_text (k, json_quote (ce_schema_version e)) @ r) = Some (v, r)" "valid_string (ce_schema_version e) \<longrightarrow> v = ce_schema_version e"
    using read_text [of "ce_schema_version e"] by blast
  obtain i where i: "\<forall>r k. read_after k (CHR '','' # member_text (k, json_quote (ce_plan_id e)) @ r) = Some (i, r)" "valid_string (ce_plan_id e) \<longrightarrow> i = ce_plan_id e"
    using read_text [of "ce_plan_id e"] by blast
  obtain p where p: "\<forall>r k. read_after k (CHR '','' # member_text (k, json_quote (ce_plan_path e)) @ r) = Some (p, r)" "valid_string (ce_plan_path e) \<longrightarrow> p = ce_plan_path e"
    using read_text [of "ce_plan_path e"] by blast
  obtain u where u: "\<forall>r k. read_optional k (CHR '','' # member_text (k, json_quote (ce_run_id e)) @ r) = Some (u, r)" "valid_string (ce_run_id e) \<longrightarrow> u = ce_run_id e"
    using read_text [of "ce_run_id e"] by blast
  obtain j where j: "\<forall>r k. read_optional k (CHR '','' # member_text (k, json_quote (ce_journal_path e)) @ r) = Some (j, r)" "valid_string (ce_journal_path e) \<longrightarrow> j = ce_journal_path e"
    using read_text [of "ce_journal_path e"] by blast
  have brace: "expect ''{'' (CHR ''{'' # s) = Some s" "expect ''}'' (CHR ''}'' # s) = Some s" for s by (simp_all add: expect_def)
  note parts = catalog_entry_text_def plain_entry_decoder_def object_text_def field_def field_unless_def brace v(1) i(1) p(1) u(1) j(1) read_absent
  let ?read = "\<lambda>u j. plain_entry_decoder (catalog_entry_text e @ r) =
     Inr (\<lparr>ce_schema_version = v, ce_plan_id = i, ce_plan_path = p, ce_run_id = u, ce_journal_path = j\<rparr>, r)"
  have "?read (if ce_run_id e = [] then [] else u) (if ce_journal_path e = [] then [] else j)"
    by (cases "ce_run_id e = []"; cases "ce_journal_path e = []") (simp_all add: parts)
  moreover have "alike e \<lparr>ce_schema_version = v, ce_plan_id = i, ce_plan_path = p, ce_run_id = (if ce_run_id e = [] then [] else u),
     ce_journal_path = (if ce_journal_path e = [] then [] else j)\<rparr>"
    using v(2) i(2) p(2) u(2) j(2) by (simp add: alike_def)
  ultimately show ?thesis by blast
qed

lemma plain_entry_runs: "reads_runs plain_entry_decoder"
  using plain_entry_reads by (fastforce simp: reads_runs_def alike_def)

end
