(* ===== verification/Run_Demo.thy ===== *)
theory Run_Demo
  imports Run_Quiet Planner_Claims
begin

text \<open>
  A catalog with a project, a plan file and no entries, and a first claim of a run in it, evaluated call by call.
\<close>

definition demo_root :: string where
  "demo_root = path_text [''p'', ''.distroplane'']"

definition demo_nodes :: nodes where
  "demo_nodes = [([''p''], Folder 0x1ED), ([''p'', ''.distroplane''], Folder 0x1ED), ([''p'', ''.distroplane'', ''catalog''], Folder 0x1C0),
     ([''p'', ''.distroplane'', ''catalog'', ''plans''], Folder 0x1C0), ([''p'', ''.distroplane'', ''catalog'', ''runs''], Folder 0x1C0),
     ([''p'', ''.distroplane'', ''.catalog-required''], Regular ''1'' 0x180), ([''p'', ''x.json''], Regular ''{}'' 0x1A4)]"

definition ready :: "nodes \<Rightarrow> bool" where
  "ready ns \<longleftrightarrow> lookup ns [''p''] = Some (Folder 0x1ED) \<and> lookup ns [''p'', ''.distroplane''] = Some (Folder 0x1ED)
     \<and> lookup ns [''p'', ''.distroplane'', ''catalog''] = Some (Folder 0x1C0)
     \<and> lookup ns [''p'', ''.distroplane'', ''catalog'', ''plans''] = Some (Folder 0x1C0)
     \<and> lookup ns [''p'', ''.distroplane'', ''catalog'', ''runs''] = Some (Folder 0x1C0)
     \<and> lookup ns [''p'', ''.distroplane'', ''.catalog-required''] = Some (Regular ''1'' 0x180)
     \<and> lookup ns [''p'', ''x.json''] = Some (Regular ''{}'' 0x1A4) \<and> lookup ns [''p'', ''j''] = None"

lemma demo_ready: "ready demo_nodes"
  by (simp add: ready_def demo_nodes_def lookup_def)

lemma ready_put: "ready ns \<Longrightarrow> lookup ns q = None \<Longrightarrow> q \<noteq> [''p'', ''j''] \<Longrightarrow> ready (put_node q n ns)"
proof -
  assume a: "ready ns" "lookup ns q = None" "q \<noteq> [''p'', ''j'']"
  have "lookup (put_node q n ns) k = Some v" if "lookup ns k = Some v" for k v using a(2) that by (auto simp: lookup_put)
  moreover have "lookup (put_node q n ns) [''p'', ''j''] = lookup ns [''p'', ''j'']" using a(3) by (auto simp: lookup_put)
  ultimately show ?thesis using a(1) unfolding ready_def by presburger
qed

lemma plain_demo [simp]: "plain_name ''p''" "plain_name ''x.json''" "plain_name ''j''"
  by (simp_all add: plain_name_def)

lemma ready_folders [simp]:
  assumes "ready ns"
  shows "folders ns [] [''p'']" "folders ns [] [''p'', ''.distroplane'']" "folders ns [] [''p'', ''.distroplane'', ''catalog'', ''plans'']"
    "folders ns [] [''p'', ''.distroplane'', ''catalog'', ''runs'']"
    "below ns [''p'']" "below ns [''p'', ''.distroplane'']" "below ns [''p'', ''.distroplane'', ''catalog'']"
    "below ns [''p'', ''.distroplane'', ''catalog'', ''plans'']" "below ns [''p'', ''.distroplane'', ''catalog'', ''runs'']"
    "below ns [''p'', ''.distroplane'', ''.catalog-required'']" "below ns [''p'', ''x.json'']" "below ns [''p'', ''j'']"
  using assms by (simp_all add: ready_def below_def)

lemma trim_path [simp]: "trim_space (path_text q) \<noteq> []"
  using trim_space_nonempty [of "CHR ''/''" "join_slash q"] by (simp add: path_text_def byte_def is_space_def)

lemma path_parts [simp]:
  "dir_path (path_text [''p'', ''.distroplane'']) = path_text [''p'']" "dir_path (path_text [''p'', ''x.json'']) = path_text [''p'']"
  "dir_path (path_text [''p'', ''j'']) = path_text [''p'']" "base_path (path_text [''p'', ''.distroplane'']) = ''.distroplane''"
  "base_path (path_text [''p'', ''x.json'']) = ''x.json''" "base_path (path_text [''p'', ''j'']) = ''j''"
  using dir_path_text [of "[''p'']"] base_path_text [of "[''p'']"] by simp_all

lemmas steps = io_bind_def io_try_def io_wrap_def io_return_def io_fail_def io_lift_def wrap_result_def quiet_lstat quiet_eval quiet_read quiet_abs

lemma ready_directory:
  assumes "ready ns"
  shows "catalog_directory demo_root True (quiet_disk ns n) = (quiet_disk ns (n + 9), Inr (path_text [''p'', ''.distroplane'', ''catalog'']))"
proof -
  note r = assms [unfolded ready_def]
  show ?thesis
    using assms r unfolding catalog_directory_def demo_root_def
    by (simp add: Let_def steps check_lost_def check_directory_def missing_def eval_nat_numeral)
qed

lemma ready_known_directory:
  assumes "ready ns"
  shows "catalog_directory demo_root False (quiet_disk ns n) = (quiet_disk ns (n + 8), Inr (path_text [''p'', ''.distroplane'', ''catalog'']))"
proof -
  note r = assms [unfolded ready_def]
  show ?thesis
    using assms r unfolding catalog_directory_def demo_root_def
    by (simp add: Let_def steps check_lost_def check_directory_def missing_def eval_nat_numeral)
qed

lemma ready_canonical:
  assumes "ready ns"
  shows "canonical_file (path_text [''p'', ''x.json'']) True (quiet_disk ns n) = (quiet_disk ns (n + 3), Inr (path_text [''p'', ''x.json'']))"
    "canonical_file (path_text [''p'', ''j'']) False (quiet_disk ns n) = (quiet_disk ns (n + 3), Inr (path_text [''p'', ''j'']))"
    "canonical_file (path_text [''p'', ''j'']) True (quiet_disk ns n) = (quiet_disk ns (n + 3), Inl err_not_exist)"
  using assms assms [unfolded ready_def]
  by (simp_all add: canonical_file_def Let_def steps err_not_exist_def eval_nat_numeral)

section \<open>Entries\<close>

abbreviation plans_at :: "string list" where
  "plans_at \<equiv> [''p'', ''.distroplane'', ''catalog'', ''plans'']"

abbreviation runs_at :: "string list" where
  "runs_at \<equiv> [''p'', ''.distroplane'', ''catalog'', ''runs'']"

lemma catalog_joins [simp]:
  "join_path [path_text [''p'', ''.distroplane'', ''catalog''], ''plans''] = path_text plans_at"
  "join_path [path_text [''p'', ''.distroplane'', ''catalog''], ''runs''] = path_text runs_at"
  "join_path [path_text [''p'', ''.distroplane'', ''catalog''], ''plans'', catalog_key i] = path_text (plans_at @ [catalog_key i])"
  by simp_all

lemma entry_temp: "plain_name (''.entry-'' @ decimal n)" "catalog_key i \<noteq> ''.entry-'' @ decimal n" "catalog_key i @ s \<noteq> ''.entry-'' @ decimal n"
proof -
  show "plain_name (''.entry-'' @ decimal n)" by (rule decimal_plain) simp_all
  obtain c cs where h: "sha256_hex i = c # cs" "is_lower_hex c" using hex_first by blast
  then show "catalog_key i \<noteq> ''.entry-'' @ decimal n" "catalog_key i @ s \<noteq> ''.entry-'' @ decimal n"
    by (auto simp: catalog_key_def is_lower_hex_def byte_def)
qed

lemma ready_install:
  assumes "folders ns [] q" and "plain_name x" and "x \<noteq> ''.entry-'' @ decimal n" and "lookup ns (q @ [x]) = None"
    and "lookup ns (q @ [''.entry-'' @ decimal n]) = None"
  shows "install_entry dec (path_text q) x e (quiet_disk ns n) =
     (quiet_disk (put_node (q @ [x]) (Regular (catalog_entry_text e @ [CHR 0x0A]) 0x180) ns) (n + 8), Inr True)"
proof -
  have "join_path [path_text q, x] = path_text (q @ [x])" using folders_plain [OF assms(1)] assms(2) by simp
  then show ?thesis
    unfolding install_entry_def Let_def
    using quiet_placed [OF assms(1,2) entry_temp(1) assms(3-5) refl, where perm = "0x180" and s = "catalog_entry_text e @ [CHR 0x0A]"] by simp
qed

section \<open>The claim\<close>

definition demo_catalog_tools :: "distribution_plan \<Rightarrow> catalog_tools" where
  "demo_catalog_tools dp = \<lparr>ct_entry = plain_entry_decoder, ct_document = (\<lambda>_. Inr (dp_document dp, [])), ct_unmarshal = (\<lambda>_. None)\<rparr>"

lemma demo_catalog_tools_entry [simp]: "ct_entry (demo_catalog_tools dp) = plain_entry_decoder"
  by (simp add: demo_catalog_tools_def)

lemma load_demo:
  assumes "ready ns" and "plan_from_document (dp_document dp) = Inr dp"
  shows "load_plan (ct_document (demo_catalog_tools dp)) (path_text [''p'', ''x.json'']) (quiet_disk ns n) = (quiet_disk ns (n + 1), Inr dp)"
proof -
  have "normalize_json ''{}'' = Inr ''{}''" using normalize_marshal [of "JObject []"] by (simp add: object_text_def)
  then have "decode_plan (\<lambda>_. Inr (dp_document dp, [])) ''{}'' = Inr dp"
    using assms(2) by (simp add: decode_plan_def max_plan_bytes_def bind_result_def wrap_result_def skip_ws_def)
  moreover have "path_text [''p'', ''x.json''] \<noteq> []" by (simp add: path_text_def)
  ultimately show ?thesis using assms(1) assms(1) [unfolded ready_def] by (simp add: load_plan_def demo_catalog_tools_def steps)
qed

definition plan_claim :: "plan_id \<Rightarrow> catalog_entry" where
  "plan_claim i = \<lparr>ce_schema_version = catalog_schema, ce_plan_id = i, ce_plan_path = path_text [''p'', ''x.json''],
     ce_run_id = [], ce_journal_path = []\<rparr>"

definition run_claim :: "plan_id \<Rightarrow> catalog_entry" where
  "run_claim i = \<lparr>ce_schema_version = catalog_schema, ce_plan_id = i, ce_plan_path = path_text [''p'', ''x.json''],
     ce_run_id = ''run-1'', ce_journal_path = path_text [''p'', ''j'']\<rparr>"

abbreviation entry_file :: "catalog_entry \<Rightarrow> node" where
  "entry_file e \<equiv> Regular (catalog_entry_text e @ [CHR 0x0A]) 0x180"

lemma register_demo:
  assumes "plan_from_document (dp_document dp) = Inr dp" and "verify_provider_digests dp = None"
  shows "register_plan (demo_catalog_tools dp) demo_root (path_text [''p'', ''x.json'']) (quiet_disk demo_nodes n) =
     (quiet_disk (put_node (plans_at @ [catalog_key (pl_id (dp_plan dp))]) (entry_file (plan_claim (pl_id (dp_plan dp)))) demo_nodes) (n + 21),
      Inr (pl_id (dp_plan dp)))"
proof -
  let ?key = "catalog_key (pl_id (dp_plan dp))"
  have free: "lookup demo_nodes (plans_at @ [x]) = None" for x by (simp add: lookup_def demo_nodes_def)
  note install = ready_install [OF ready_folders(3) [OF demo_ready] catalog_key_names(1) entry_temp(2) free free]
  show ?thesis
    by (simp add: register_plan_def Let_def io_bind_def ready_canonical [OF demo_ready] load_demo [OF demo_ready assms(1)]
      io_lift_def assms(2) checked_def ready_directory [OF demo_ready] install [simplified] io_return_def)
      (simp add: plan_claim_def demo_catalog_tools_def add.commute)
qed

lemma length_escape: "length (escape_string s) \<le> 6 * length s"
proof (induction s rule: rune_chunks.induct)
  case (2 c cs)
  obtain r n where d: "decode_rune (c # cs) = (r, n)" by fastforce
  have n: "0 < n" "n \<le> Suc (length cs)" using decode_rune_width [OF d] by simp_all
  have "length (escape_chunk (r, bs)) \<le> 6 * length bs" if "bs \<noteq> []" for bs
    using that by (cases bs) (auto simp: escape_chunk_def escape_ascii_def split: option.split)
  from this [of "take n (c # cs)"] n have "length (escape_chunk (r, take n (c # cs))) \<le> 6 * n" by (simp add: min_absorb2)
  moreover have "length (escape_string (drop (n - 1) cs)) \<le> 6 * (length cs - (n - 1))" using "2.IH" [OF refl] d by simp
  moreover have "escape_string (c # cs) = escape_chunk (r, take n (c # cs)) @ escape_string (drop (n - 1) cs)"
    using d by (simp add: escape_string_def)
  ultimately show ?case using n by simp
qed (simp add: escape_string_def)

lemma demo_path_valid: "valid_string (path_text [''p'', ''x.json''])" "valid_string catalog_schema"
  by (rule valid_string_ascii, simp add: path_text_def catalog_schema_def byte_def)+

lemma plan_claim_length: "valid_identifier i \<Longrightarrow> length (catalog_entry_text (plan_claim i)) < 16000"
proof -
  assume "valid_identifier i"
  then have "length i \<le> 256" by (simp add: valid_identifier_def validate_identifier_iff del: validate_identifier_valid)
  then have "length (escape_string i) \<le> 1536" using length_escape [of i] by simp
  moreover have "length (escape_string (path_text [''p'', ''x.json''])) \<le> 54" "length (escape_string catalog_schema) \<le> 6"
    using length_escape [of "path_text [''p'', ''x.json'']"] length_escape [of catalog_schema] by (simp_all add: path_text_def catalog_schema_def)
  moreover have "length (escape_string ''schemaVersion'') \<le> 78" "length (escape_string ''planId'') \<le> 36" "length (escape_string ''planPath'') \<le> 48"
    using length_escape [of "''schemaVersion''"] length_escape [of "''planId''"] length_escape [of "''planPath''"] by simp_all
  ultimately show ?thesis
    by (simp add: catalog_entry_text_def plan_claim_def object_text_def field_def field_unless_def member_text_def json_quote_def)
qed

lemma read_plan_demo:
  assumes "ready ns" and "valid_identifier i" and "lookup ns (plans_at @ [catalog_key i]) = Some (entry_file (plan_claim i))"
  shows "read_entry plain_entry_decoder (path_text (plans_at @ [catalog_key i])) (quiet_disk ns n) = (quiet_disk ns (n + 2), Inr (plan_claim i))"
proof -
  have valid: "valid_string i" using assms(2) by (simp add: valid_identifier_def validate_identifier_iff del: validate_identifier_valid)
  obtain x where x: "plain_entry_decoder (catalog_entry_text (plan_claim i) @ [CHR 0x0A]) = Inr (x, [CHR 0x0A])" "alike (plan_claim i) x"
    using plain_entry_reads by blast
  then have "x = plan_claim i" using valid demo_path_valid by (auto simp: alike_def plan_claim_def valid_string_def)
  with x have read: "plain_entry_decoder (catalog_entry_text (plan_claim i) @ [CHR 0x0A]) = Inr (plan_claim i, [CHR 0x0A])" by simp
  define q where "q = plans_at @ [catalog_key i]"
  have at: "below ns q" unfolding q_def using ready_folders(3) [OF assms(1)] by (simp only: below_snoc catalog_key_names)
  have small: "\<not> max_entry_bytes < Suc (length (catalog_entry_text (plan_claim i)))"
    using plan_claim_length [OF assms(2)] by (simp add: max_entry_bytes_def)
  have "first_error [fail_if (skip_ws [CHR 0x0A] \<noteq> []) e1, fail_if (ce_schema_version (plan_claim i) \<noteq> catalog_schema \<or> \<not> valid_identifier (ce_plan_id (plan_claim i))) e2,
       fail_if (ce_run_id (plan_claim i) = [] \<and> ce_journal_path (plan_claim i) \<noteq> [] \<or> ce_run_id (plan_claim i) \<noteq> [] \<and>
          (ce_journal_path (plan_claim i) = [] \<or> \<not> valid_identifier (ce_run_id (plan_claim i)))) e3,
       fail_if (\<not> is_abs (ce_plan_path (plan_claim i)) \<or> ce_journal_path (plan_claim i) \<noteq> [] \<and> \<not> is_abs (ce_journal_path (plan_claim i))) e4] = None"
    for e1 e2 e3 e4 using assms(2) by (simp add: plan_claim_def skip_ws_def is_json_space_def byte_def)
  then show ?thesis
    unfolding read_entry_def q_def [symmetric]
    by (simp add: steps at assms(3) [folded q_def] read small checked_def del: skip_ws_def first_error.simps)
qed

lemma plan_entry_demo:
  assumes "ready ns" and "valid_identifier i" and "lookup ns (plans_at @ [catalog_key i]) = Some (entry_file (plan_claim i))"
  shows "plan_entry plain_entry_decoder (path_text [''p'', ''.distroplane'', ''catalog'']) i (quiet_disk ns n) = (quiet_disk ns (n + 2), Inr (plan_claim i))"
  using read_plan_demo [OF assms, of n] unfolding plan_entry_def by (simp add: io_bind_def io_return_def io_lift_def) (simp add: plan_claim_def)

lemma plan_claim_path [simp]: "ce_plan_path (plan_claim i) = path_text [''p'', ''x.json'']"
  by (simp add: plan_claim_def)

lemma journal_demo:
  assumes "ready ns"
  shows "io_try (read_run_journal unmarshal (run_claim i)) (quiet_disk ns n) = (quiet_disk ns (n + 3), Inr (Inl err_not_exist))"
  by (simp add: io_try_def read_run_journal_def run_claim_def io_bind_def ready_canonical [OF assms])

lemma demo_free:
  "lookup demo_nodes (plans_at @ [x]) = None" "lookup demo_nodes (runs_at @ [x]) = None"
  by (simp_all add: lookup_def demo_nodes_def)

lemma claim_demo:
  assumes "plan_from_document (dp_document dp) = Inr dp" and "verify_provider_digests dp = None"
  shows "\<exists>ns. claim_plan (demo_catalog_tools dp) demo_root (path_text [''p'', ''x.json'']) (path_text [''p'', ''j'']) ''run-1'' (quiet_disk demo_nodes 0)
     = (quiet_disk ns 57, Inr (pl_id (dp_plan dp)))"
proof -
  define i where "i = pl_id (dp_plan dp)"
  have i: "valid_identifier i" using assms(2) by (auto simp: verify_provider_digests_def i_def split: if_splits)
  define ns1 where "ns1 = put_node (plans_at @ [catalog_key i]) (entry_file (plan_claim i)) demo_nodes"
  define ns2 where "ns2 = put_node (runs_at @ [catalog_key i @ ''.backup'']) (entry_file (run_claim i)) ns1"
  define ns3 where "ns3 = put_node (runs_at @ [catalog_key i]) (entry_file (run_claim i)) ns2"
  have ready1: "ready ns1" unfolding ns1_def by (rule ready_put [OF demo_ready demo_free(1)]) simp
  have free1: "lookup ns1 (runs_at @ [x]) = None" for x unfolding ns1_def lookup_put demo_free by simp
  have entry1: "lookup ns1 (plans_at @ [catalog_key i]) = Some (entry_file (plan_claim i))" by (simp add: ns1_def lookup_put)
  have ready2: "ready ns2" unfolding ns2_def by (rule ready_put [OF ready1 free1]) simp
  have free2: "lookup ns2 (runs_at @ [x]) = None" if "x \<noteq> catalog_key i @ ''.backup''" for x
    using that free1 [of x] unfolding ns2_def lookup_put by simp
  have temp: "''.entry-'' @ decimal n \<noteq> catalog_key i @ ''.backup''" for n using entry_temp(3) [of i "''.backup''" n] by metis
  note register = register_demo [OF assms, folded i_def, folded ns1_def]
  note first = ready_install [OF ready_folders(4) [OF ready1] catalog_key_names(2) [of i] entry_temp(3) free1 free1, where e = "run_claim i", folded ns2_def]
  note second = ready_install [OF ready_folders(4) [OF ready2] catalog_key_names(1) [of i] entry_temp(2) free2 free2 [OF temp], where e = "run_claim i", folded ns3_def]
  have "claim_plan (demo_catalog_tools dp) demo_root (path_text [''p'', ''x.json'']) (path_text [''p'', ''j'']) ''run-1'' (quiet_disk demo_nodes 0)
     = (quiet_disk ns3 57, Inr i)"
    unfolding claim_plan_def Let_def
    by (simp add: io_bind_def ready_canonical [OF demo_ready] register
      ready_directory [OF ready1] plan_entry_demo [OF ready1 i entry1] text_eval io_return_def io_lift_def
      run_claim_def [of i, symmetric] journal_demo [OF ready1] first second err_not_exist_def)
  then show ?thesis unfolding i_def by (rule exI)
qed

section \<open>The inventory\<close>

lemma key_tests:
  "\<not> prefix ''.entry-'' (catalog_key i)" "\<not> suffix ''.backup'' (catalog_key i)" "suffix ''.json'' (catalog_key i)"
proof -
  obtain c cs where h: "sha256_hex i = c # cs" "is_lower_hex c" using hex_first by blast
  then show "\<not> prefix ''.entry-'' (catalog_key i)" by (auto simp: catalog_key_def is_lower_hex_def byte_def)
  have "last (catalog_key i) = CHR ''n''" by (simp add: catalog_key_def)
  moreover have "suffix ''.backup'' s \<Longrightarrow> last s = CHR ''p''" for s by (auto simp: suffix_def)
  ultimately show "\<not> suffix ''.backup'' (catalog_key i)" by fastforce
  show "suffix ''.json'' (catalog_key i)" by (auto simp: catalog_key_def suffix_def)
qed

lemma select_demo:
  assumes "plan_from_document (dp_document dp) = Inr dp" and "verify_provider_digests dp = None"
  shows "\<exists>ns n. register_plan (demo_catalog_tools dp) demo_root (path_text [''p'', ''x.json'']) (quiet_disk demo_nodes 0) = (quiet_disk ns 21, Inr (pl_id (dp_plan dp)))
     \<and> select (demo_catalog_tools dp) demo_root [] [] (quiet_disk ns 21) = (quiet_disk ns n, Inr (planned_record (dp_plan dp) (plan_claim (pl_id (dp_plan dp)))))"
proof -
  define i where "i = pl_id (dp_plan dp)"
  have i: "valid_identifier i" using assms(2) by (auto simp: verify_provider_digests_def i_def split: if_splits)
  define ns1 where "ns1 = put_node (plans_at @ [catalog_key i]) (entry_file (plan_claim i)) demo_nodes"
  have ready1: "ready ns1" unfolding ns1_def by (rule ready_put [OF demo_ready demo_free(1)]) simp
  have free1: "lookup ns1 (runs_at @ [x]) = None" for x unfolding ns1_def lookup_put demo_free by simp
  have entry1: "lookup ns1 (plans_at @ [catalog_key i]) = Some (entry_file (plan_claim i))" by (simp add: ns1_def lookup_put)
  have plans: "fs_read_dir (path_text plans_at) (quiet_disk ns1 n) = (quiet_disk ns1 (Suc n), Inr [catalog_key i])" for n
    using ready_folders(3) [OF ready1] by (simp add: quiet_read_dir) (simp add: ns1_def put_node_def demo_nodes_def)
  have runs: "fs_read_dir (path_text runs_at) (quiet_disk ns1 n) = (quiet_disk ns1 (Suc n), Inr [])" for n
    using ready_folders(4) [OF ready1] by (simp add: quiet_read_dir) (simp add: ns1_def put_node_def demo_nodes_def)
  have absent: "read_entry dec (path_text (runs_at @ [x])) (quiet_disk ns1 n) = (quiet_disk ns1 (Suc n), Inl err_not_exist)" if "plain_name x" for x n dec
  proof -
    have "below ns1 (runs_at @ [x])" using ready_folders(4) [OF ready1] that by (simp only: below_snoc)
    then show ?thesis using free1 [of x] by (simp add: read_entry_def io_bind_def quiet_lstat)
  qed
  have claim_id: "ce_plan_id (plan_claim i) = i" by (simp add: plan_claim_def)
  have joined: "join_path [path_text plans_at, catalog_key i] = path_text (plans_at @ [catalog_key i])" by simp
  have entries: "read_entries plain_entry_decoder (path_text plans_at) (quiet_disk ns1 n) = (quiet_disk ns1 (n + 3), Inr [plan_claim i])" for n
    unfolding read_entries_def
    by (simp add: io_bind_def plans key_tests joined read_plan_demo [OF ready1 i entry1] claim_id io_return_def io_lift_def numeral_3_eq_3 del: append_Cons append_Nil join_path_text)
  have paths: "join_path [path_text [''p'', ''.distroplane'', ''catalog''], ''runs'', catalog_key i] = path_text (runs_at @ [catalog_key i])"
      "path_text (runs_at @ [catalog_key i]) @ ''.backup'' = path_text (runs_at @ [catalog_key i @ ''.backup''])"
    by simp (simp add: path_text_def)
  have claim: "claim_of_plan plain_entry_decoder (path_text [''p'', ''.distroplane'', ''catalog'']) [] (plan_claim i) (quiet_disk ns1 n)
      = (quiet_disk ns1 (n + 2), Inr [])" for n
    unfolding claim_of_plan_def claim_entry_def Let_def claim_id paths
    by (simp add: io_bind_def io_try_def absent [OF catalog_key_names(1)] absent [OF catalog_key_names(2)] agreed_claim_def missing_def
      err_not_exist_def io_return_def io_lift_def del: append_Cons append_Nil)
  have rec: "inventory_record (demo_catalog_tools dp) ([], []) (plan_claim i) (quiet_disk ns1 n)
      = (quiet_disk ns1 (n + 4), Inr ([planned_record (dp_plan dp) (plan_claim i)], []))" for n
    unfolding inventory_record_def
    by (simp add: io_bind_def ready_canonical [OF ready1] load_demo [OF ready1 assms(1)] i_def [symmetric] claim_id assms(2) checked_def
      io_return_def io_lift_def add.commute)
  have "inventory (demo_catalog_tools dp) demo_root (quiet_disk ns1 21) = (quiet_disk ns1 39, Inr [planned_record (dp_plan dp) (plan_claim i)])"
    unfolding inventory_def
    by (simp add: io_bind_def io_try_def ready_known_directory [OF ready1] runs entries claim rec io_return_def io_lift_def)
  then have "select (demo_catalog_tools dp) demo_root [] [] (quiet_disk ns1 21) = (quiet_disk ns1 39, Inr (planned_record (dp_plan dp) (plan_claim i)))"
    by (simp add: select_def io_bind_def io_lift_def select_record_def)
  then show ?thesis using register_demo [OF assms, of 0] unfolding i_def ns1_def by auto
qed

end
