(* ===== verification/Run_Inventory.thy ===== *)
theory Run_Inventory
  imports Run_Claimed
begin

text \<open>
  What an inventory says of a run is what the journal of that run says: each record comes from a plan, the claim of
  that plan and the events of the journal that the claim names.
\<close>

definition from_journal :: "unmarshaller \<Rightarrow> run_record \<Rightarrow> bool" where
  "from_journal un r \<longleftrightarrow> (\<exists>raw out ev more p st. read_journal un (Some \<lparr>rdr_data = raw, rdr_fault = None\<rparr>) = Inr out
     \<and> rr_events out = ev # more \<and> e_run_id ev = rc_run_id r \<and> e_plan_id ev = rc_plan_id r
     \<and> pl_id p = rc_plan_id r \<and> rel_id (pl_release p) = rc_release_id r \<and> reduce p (rr_events out) = Inr st
     \<and> rc_completed r = ds_completed st \<and> rc_state r = (if ds_completed st then Completed else Pending)
     \<and> rc_reconcile_required r = (\<exists>x \<in> set (ds_operations st). os_reconcile_required x \<or> os_ambiguous x))"

definition reported :: "unmarshaller \<Rightarrow> run_record \<Rightarrow> bool" where
  "reported un r \<longleftrightarrow> (rc_state r = Planned \<and> rc_run_id r = [] \<and> \<not> rc_completed r \<and> \<not> rc_reconcile_required r)
     \<or> (rc_state r = Reserved \<and> valid_identifier (rc_run_id r) \<and> \<not> rc_completed r \<and> \<not> rc_reconcile_required r)
     \<or> (valid_identifier (rc_run_id r) \<and> from_journal un r)"

section \<open>Claims\<close>

definition claims_ok :: "(string \<times> catalog_entry) list \<Rightarrow> bool" where
  "claims_ok cs \<longleftrightarrow> (\<forall>(k, c) \<in> set cs. ce_plan_id c = k \<and> valid_identifier (ce_run_id c))"

lemma agreed_claim_ok: "agreed_claim i a b = Inr (Some e) \<Longrightarrow> ce_plan_id e = i \<and> valid_identifier (ce_run_id e)"
  by (auto simp: agreed_claim_def bind_result_Inr split: if_splits)

lemma set_map_insert: "set (map_insert k v m) \<subseteq> insert (k, v) (set m)"
  by (induction m rule: map_insert.induct) auto

lemma claim_of_plan_ok:
  assumes "claim_of_plan dec dir cs p dk = (dk', Inr cs')" and "claims_ok cs"
  shows "claims_ok cs'"
proof -
  obtain found where found: "claim_entry dec dir (ce_plan_id p) dk = (dk', Inr found)"
    and cs': "cs' = (case found of None \<Rightarrow> cs | Some e \<Rightarrow> map_insert (ce_plan_id p) e cs)"
    using assms(1) by (auto simp: claim_of_plan_def io_bind_Inr io_return_Inr)
  obtain a b where "agreed_claim (ce_plan_id p) a b = Inr found"
    using found by (auto simp: claim_entry_def Let_def io_bind_Inr io_lift_Inr)
  then have ok: "found = Some e \<Longrightarrow> ce_plan_id e = ce_plan_id p \<and> valid_identifier (ce_run_id e)" for e
    using agreed_claim_ok by simp
  show ?thesis
  proof (cases found)
    case (Some e)
    then have "set cs' \<subseteq> insert (ce_plan_id p, e) (set cs)" using set_map_insert cs' by simp
    with ok [OF Some] assms(2) show ?thesis by (fastforce simp: claims_ok_def)
  qed (use cs' assms(2) in simp)
qed

section \<open>Records\<close>

lemma run_journal_Inr:
  assumes "read_run_journal un c dk = (dk', Inr out)"
  shows "\<exists>raw ev more. read_journal un (Some \<lparr>rdr_data = raw, rdr_fault = None\<rparr>) = Inr out \<and> rr_events out = ev # more
     \<and> e_run_id ev = ce_run_id c \<and> e_plan_id ev = ce_plan_id c"
proof -
  obtain raw res dk1 where read: "read_journal un (Some \<lparr>rdr_data = raw, rdr_fault = None\<rparr>) = Inr res"
    and check: "(case rr_events res of [] \<Rightarrow> io_fail (Errorf ''journal contains no durable run identity'' [])
     | ev # _ \<Rightarrow> if e_run_id ev \<noteq> ce_run_id c \<or> e_plan_id ev \<noteq> ce_plan_id c
         then io_fail (ErrorIs ErrConflict ''%w: journal plan/run identity mismatch'' []) else io_return res) dk1 = (dk', Inr out)"
    using assms unfolding read_run_journal_def io_bind_Inr io_unless_Inr io_lift_Inr by blast
  show ?thesis
    using check read by (cases "rr_events res") (auto simp: io_fail_Inr io_return_Inr split: if_splits)
qed

lemma claimed_record_reported:
  assumes "claimed_record un p e c dk = (dk', Inr r)" and "pl_id p = ce_plan_id e" and "ce_plan_id c = ce_plan_id e" and "valid_identifier (ce_run_id c)"
  shows "rc_plan_id r = ce_plan_id e \<and> reported un r"
proof -
  let ?claimed = "(planned_record p e)\<lparr>rc_run_id := ce_run_id c, rc_journal_path := ce_journal_path c\<rparr>"
  obtain dk1 res where res: "io_try (read_run_journal un c) dk = (dk1, Inr res :: error + read_result result)"
    and after: "(case res of
          Inl err \<Rightarrow> if errors_is err ErrNotExist then io_return (?claimed\<lparr>rc_state := Reserved\<rparr>) else io_fail err
        | Inr read \<Rightarrow> io_lift (journal_record p ?claimed (rr_events read))) dk1 = (dk', Inr r)"
    using assms(1) unfolding claimed_record_def Let_def io_unless_Inr io_bind_Inr by blast
  show ?thesis
  proof (cases res)
    case (Inl err)
    with after assms(4) show ?thesis by (auto simp: io_return_Inr io_fail_Inr reported_def planned_record_def split: if_splits)
  next
    case (Inr out)
    then have "read_run_journal un c dk = (dk1, Inr out)" using res by (auto simp: io_try_def split: prod.splits)
    from run_journal_Inr [OF this] obtain raw ev more where j: "read_journal un (Some \<lparr>rdr_data = raw, rdr_fault = None\<rparr>) = Inr out"
      "rr_events out = ev # more" "e_run_id ev = ce_run_id c" "e_plan_id ev = ce_plan_id c" by blast
    from after Inr obtain st where st: "reduce p (rr_events out) = Inr st"
      and r: "r = ?claimed\<lparr>rc_completed := ds_completed st, rc_state := (if ds_completed st then Completed else Pending),
        rc_reconcile_required := list_ex (\<lambda>o1. os_reconcile_required o1 \<or> os_ambiguous o1) (ds_operations st)\<rparr>"
      by (auto simp: io_lift_Inr journal_record_def bind_result_Inr)
    have "from_journal un r"
      unfolding from_journal_def using j st assms(2,3)
      by (intro exI [of _ raw] exI [of _ out] exI [of _ ev] exI [of _ more] exI [of _ p] exI [of _ st])
        (simp add: r planned_record_def list_ex_iff)
    with assms(4) show ?thesis by (simp add: reported_def r planned_record_def)
  qed
qed

lemma inventory_record_reported:
  assumes "inventory_record tools (rs, cs) e dk = (dk', Inr (rs', cs'))" and "claims_ok cs"
  shows "claims_ok cs' \<and> (\<exists>r. rs' = rs @ [r] \<and> rc_plan_id r = ce_plan_id e \<and> reported (ct_unmarshal tools) r)"
proof -
  obtain dp :: distribution_plan and dk1 r where dp: "pl_id (dp_plan dp) = ce_plan_id e"
    and r: "(case map_of cs (ce_plan_id e) of None \<Rightarrow> io_return (planned_record (dp_plan dp) e)
       | Some c \<Rightarrow> claimed_record (ct_unmarshal tools) (dp_plan dp) e c) dk1 = (dk', Inr r)"
    and rs': "rs' = rs @ [r]" "cs' = filter (\<lambda>x. fst x \<noteq> ce_plan_id e) cs"
    using assms(1) unfolding inventory_record_def case_prod_conv io_bind_Inr io_unless_Inr io_return_Inr prod.inject by blast
  have "claims_ok cs'" using assms(2) by (auto simp: claims_ok_def rs'(2))
  moreover have "rc_plan_id r = ce_plan_id e \<and> reported (ct_unmarshal tools) r"
  proof (cases "map_of cs (ce_plan_id e)")
    case None
    with r show ?thesis by (auto simp: io_return_Inr reported_def planned_record_def)
  next
    case (Some c)
    then have "ce_plan_id c = ce_plan_id e" "valid_identifier (ce_run_id c)"
      using assms(2) by (auto simp: claims_ok_def dest: map_of_SomeD)
    with claimed_record_reported r Some dp show ?thesis by simp
  qed
  ultimately show ?thesis using rs'(1) by simp
qed

section \<open>The inventory\<close>

lemma inventory_reported:
  assumes "inventory tools root dk = (dk', Inr records)"
  shows "\<forall>r \<in> set records. reported (ct_unmarshal tools) r"
proof -
  obtain dk1 found where found: "io_try (catalog_directory root False) dk = (dk1, Inr found :: error + string result)"
    and after: "(case found of
       Inl err \<Rightarrow> if errors_is err ErrNotExist then io_return [] else io_fail err
     | Inr dir \<Rightarrow>
         io_bind (read_entries (ct_entry tools) (join_path [dir, ''plans''])) (\<lambda>plans.
         io_bind (io_each (claim_of_plan (ct_entry tools) dir) [] plans) (\<lambda>claims.
         io_bind (fs_read_dir (join_path [dir, ''runs''])) (\<lambda>files.
         io_bind (io_each (check_orphan (map (\<lambda>p. catalog_key (ce_plan_id p)) plans)) () files) (\<lambda>_.
         io_bind (io_each (inventory_record tools) ([], claims) plans) (\<lambda>(records, rest).
         if rest \<noteq> [] then io_fail (Errorf ''orphan run catalog entries'' [])
         else io_return (sort_key rc_release_id (sort_key rc_plan_id records)))))))) dk1 = (dk', Inr records)"
    using assms unfolding inventory_def io_bind_Inr [of "io_try (catalog_directory root False)"] by blast
  show ?thesis
  proof (cases found)
    case (Inl err)
    with after show ?thesis by (auto simp: io_return_Inr io_fail_Inr split: if_splits)
  next
    case (Inr dir)
    with after obtain plans claims rs rest dk2 dk3 dk4 dk5 where
      claims: "io_each (claim_of_plan (ct_entry tools) dir) [] plans dk2 = (dk3, Inr claims)"
      and each: "io_each (inventory_record tools) ([], claims) plans dk4 = (dk5, Inr (rs, rest))"
      and records: "records = sort_key rc_release_id (sort_key rc_plan_id rs)"
      by (auto simp: io_bind_Inr io_return_Inr io_fail_Inr split: if_splits)
    have "claims_ok claims"
      using io_each_invariant [OF claims, of "\<lambda>_. claims_ok"] claim_of_plan_ok by (auto simp: claims_ok_def [of "[]"])
    then have "claims_ok rest \<and> (\<forall>r \<in> set rs. reported (ct_unmarshal tools) r)"
      using io_each_invariant [OF each, of "\<lambda>_ s. claims_ok (snd s) \<and> (\<forall>r \<in> set (fst s). reported (ct_unmarshal tools) r)"]
        inventory_record_reported by fastforce
    then show ?thesis by (simp add: records)
  qed
qed

end
