(* ===== verification/Run_Claims.thy ===== *)
theory Run_Claims
  imports Run_Demo Run_Inventory
begin

text \<open>
  What the run catalog promises: one run per plan, whoever claims it; entries that are never changed; and reports that
  come from the journals.
\<close>

section \<open>One run per plan\<close>

text \<open>C4  A plan is claimed for one run only.  Whenever a claim of a run succeeded, a claim of another run of that plan
  does not: not later, and not at the same time in another process, wherever either was interrupted, however
  often calls of the file system failed, and whatever else happened to the disk that keeps the files of the catalog.\<close>

theorem run_is_claimed_once:
  assumes "claim_plan tools root p1 j1 r1 dk1 = (dk1', Inr i)" and "gentle dk1" and "project_at (dk_nodes dk1) root q"
    and "gentle dk2" and "project_at (dk_nodes dk2) root q" and "r2 \<noteq> r1"
    and "keeps (dk_nodes dk1') ns" and "keeps (dk_nodes (fst (claim_plan tools root p2 j2 r2 dk2))) ns"
    and "reads_runs (ct_entry tools)"
  shows "snd (claim_plan tools root p2 j2 r2 dk2) \<noteq> Inr i"
proof
  assume "snd (claim_plan tools root p2 j2 r2 dk2) = Inr i"
  then have "claim_plan tools root p2 j2 r2 dk2 = (fst (claim_plan tools root p2 j2 r2 dk2), Inr i)" by (metis prod.collapse)
  from claims_agree [OF assms(1-3) this assms(4,5,7,8,9)] assms(6) show False by simp
qed

text \<open>The witness: after the claim of \<open>run-1\<close> in the demo project, \<open>run-2\<close> of the same plan is refused.\<close>

lemma demo_tidy: "tidy demo_nodes"
proof -
  have "\<not> scratch_name ''p''" "\<not> scratch_name ''x.json''" "\<not> scratch_name ''.catalog-required''" by (simp_all add: scratch_name_def)
  then show ?thesis by (auto simp: tidy_def lookup_def demo_nodes_def split: if_splits)
qed

lemma demo_project: "project_at demo_nodes demo_root [''p'']"
  using folders_follow [OF ready_folders(1) [OF demo_ready]] demo_tidy demo_ready
  by (simp add: project_at_def demo_root_def ready_def)

lemma demo_bound: "\<exists>dp. plan_from_document (dp_document dp) = Inr dp \<and> verify_provider_digests dp = None"
proof -
  obtain dp where b: "build (io_return ''/'') False (Some demo_planner) demo_loaded () = ((), Inr dp)" using demo_builds by blast
  have "verify_provider_digests dp = None"
    by (rule build_with_binds [OF _ b [unfolded build_is_build_with [OF demo_planner_made]]]) (simp add: files.hasher_sound)
  with demo_loads [OF b] show ?thesis by blast
qed

theorem run_is_claimed_once_witness:
  "\<exists>dp ns n. claim_plan (demo_catalog_tools dp) demo_root (path_text [''p'', ''x.json'']) (path_text [''p'', ''j'']) ''run-1'' (quiet_disk demo_nodes 0)
       = (quiet_disk ns n, Inr (pl_id (dp_plan dp)))
     \<and> snd (claim_plan (demo_catalog_tools dp) demo_root (path_text [''p'', ''x.json'']) (path_text [''p'', ''j'']) ''run-2'' (quiet_disk ns n))
       \<noteq> Inr (pl_id (dp_plan dp))"
proof -
  obtain dp where dp: "plan_from_document (dp_document dp) = Inr dp" "verify_provider_digests dp = None" using demo_bound by blast
  let ?claim = "claim_plan (demo_catalog_tools dp) demo_root (path_text [''p'', ''x.json'']) (path_text [''p'', ''j''])"
  obtain ns where ns: "?claim ''run-1'' (quiet_disk demo_nodes 0) = (quiet_disk ns 57, Inr (pl_id (dp_plan dp)))"
    using claim_demo [OF dp] by blast
  have kept: "keeps demo_nodes ns" using maintainsD [OF maintains_claim_plan quiet_gentle ns] by (simp add: later_def)
  have next_kept: "keeps ns (dk_nodes (fst (?claim ''run-2'' (quiet_disk ns 57))))"
    using maintains_claim_plan [unfolded maintains_def, rule_format, OF quiet_gentle] by (simp add: later_def)
  have "snd (?claim ''run-2'' (quiet_disk ns 57)) \<noteq> Inr (pl_id (dp_plan dp))"
    by (rule run_is_claimed_once [OF ns _ _ _ _ _ _ keeps_refl])
      (use demo_project project_stable [OF demo_project kept] next_kept in \<open>simp_all add: plain_entry_runs\<close>)
  with ns show ?thesis by blast
qed

section \<open>Entries are written once\<close>

text \<open>C25  Whatever operation of the catalog runs, to its end or until a call fails, every catalog entry that was there
  keeps its content, as long as the other processes keep it; and the operation keeps what they rely on in turn.\<close>

theorem catalog_is_write_once:
  assumes "gentle dk" and "holds_file dk p raw"
    and "m \<in> {fst (ensure_catalog root dk), fst (register_plan tools root plan dk), fst (claim_run tools root plan journal run dk),
        fst (inventory tools root dk), fst (select tools root release run dk)}"
  shows "holds_file m p raw \<and> keeps (dk_nodes dk) (dk_nodes m)"
proof -
  have "later dk m"
    using assms(1,3) maintains_ensure maintains_register_plan maintains_claim_run maintains_inventory maintains_select by (auto simp: maintains_def)
  then show ?thesis using holds_later [OF assms(2)] by (simp add: later_def)
qed

theorem catalog_is_write_once_witness:
  "\<exists>dp ns raw. holds_file (quiet_disk ns 57) (backup_at demo_root [''p''] (pl_id (dp_plan dp))) raw
     \<and> holds_file (fst (claim_run (demo_catalog_tools dp) demo_root (path_text [''p'', ''x.json'']) (path_text [''p'', ''j'']) ''run-2'' (quiet_disk ns 57)))
         (backup_at demo_root [''p''] (pl_id (dp_plan dp))) raw"
proof -
  obtain dp where dp: "plan_from_document (dp_document dp) = Inr dp" "verify_provider_digests dp = None" using demo_bound by blast
  obtain ns where ns: "claim_plan (demo_catalog_tools dp) demo_root (path_text [''p'', ''x.json'']) (path_text [''p'', ''j'']) ''run-1''
      (quiet_disk demo_nodes 0) = (quiet_disk ns 57, Inr (pl_id (dp_plan dp)))"
    using claim_demo [OF dp] by blast
  obtain raw where raw: "holds_file (quiet_disk ns 57) (backup_at demo_root [''p''] (pl_id (dp_plan dp))) raw"
    using claim_plan_holds [OF ns quiet_gentle] demo_project by auto
  from catalog_is_write_once [OF quiet_gentle raw, where tools = "demo_catalog_tools dp" and root = demo_root and plan = "path_text [''p'', ''x.json'']"
      and journal = "path_text [''p'', ''j'']" and run = "''run-2''"]
  show ?thesis using raw by blast
qed

section \<open>Selecting a run\<close>



end
