(* ===== verification/Planner_Resolver.thy ===== *)
theory Planner_Resolver
  imports Go_Files Go_Io Go_Path Go_Text
begin

unbundle bit_operations_syntax

text \<open>
  How provider executables are found, \<open>internal/planner/provider.go\<close>: an explicit path, or the executable that is
  installed with the program, or the one on the search path.  What the resolver asks of the system are the fields of
  \<open>executableResolver\<close>; a nil field stands for the function of the library that \<open>newExecutableResolver\<close> puts there.
  The system is not Windows, where names end in \<open>.exe\<close> and there are no permission bits to look at.
\<close>

record 'w executable_resolver =
  er_look_path :: "string \<Rightarrow> ('w, string) io"
  er_abs :: "string \<Rightarrow> ('w, string) io"
  er_stat :: "string \<Rightarrow> ('w, node) io"
  er_lstat :: "string \<Rightarrow> ('w, node) io"
  er_executable :: "('w, string) io"
  er_eval_links :: "string \<Rightarrow> ('w, string) io"

definition provider_executable_prefix :: string where
  "provider_executable_prefix = ''distroplane-provider-''"

definition name_char :: "nat \<Rightarrow> char \<Rightarrow> bool" where
  "name_char i c \<longleftrightarrow> (CHR ''a'' \<le> c \<and> c \<le> CHR ''z'') \<or> (CHR ''A'' \<le> c \<and> c \<le> CHR ''Z'') \<or> (CHR ''0'' \<le> c \<and> c \<le> CHR ''9'')
     \<or> (0 < i \<and> (c = CHR ''-'' \<or> c = CHR ''_'' \<or> c = CHR ''.''))"

text \<open>Only bytes of ASCII pass, so the runes of the loop are bytes.\<close>

definition valid_provider_executable_name :: "string \<Rightarrow> bool" where
  "valid_provider_executable_name name \<longleftrightarrow>
     \<not> (name = [] \<or> 128 < length name) \<and> list_all (\<lambda>(i, c). name_char i c) (zip [0..<length name] name)"

definition has_separator :: "string \<Rightarrow> bool" where
  "has_separator p \<longleftrightarrow> CHR ''/'' \<in> set p \<or> CHR 0x5C \<in> set p"

definition group_or_world_writable :: "node \<Rightarrow> bool" where
  "group_or_world_writable n \<longleftrightarrow> node_perm n AND 0x12 \<noteq> 0"

definition validate_trusted_directory :: "('w, 'm) executable_resolver_scheme \<Rightarrow> string \<Rightarrow> ('w, unit) io" where
  "validate_trusted_directory r dir =
     io_bind (io_wrap ''inspect provider directory %q: %w'' [dir] (er_lstat r dir)) (\<lambda>info.
     if \<not> is_folder info then io_fail (Errorf ''provider directory %q is not a real directory'' [dir])
     else if group_or_world_writable info then io_fail (Errorf ''provider directory %q must not be group/world writable'' [dir])
     else io_return ())"

definition inspect_installed :: "('w, 'm) executable_resolver_scheme \<Rightarrow> string \<Rightarrow> ('w, unit) io" where
  "inspect_installed r path =
     io_bind (io_wrap ''inspect installed provider %q: %w'' [path] (er_lstat r path)) (\<lambda>link.
     if \<not> is_regular link then io_fail (Errorf ''installed provider %q must be a regular file, not a symlink or special file'' [path])
     else if group_or_world_writable link then io_fail (Errorf ''installed provider %q must not be group/world writable'' [path])
     else io_return ())"

definition resolve_executable_file :: "('w, 'm) executable_resolver_scheme \<Rightarrow> string \<Rightarrow> bool \<Rightarrow> ('w, string) io" where
  "resolve_executable_file r path trusted =
     io_bind (io_wrap ''resolve provider executable %q: %w'' [path] (er_abs r path)) (\<lambda>full0.
     let full = clean_path full0 in
     io_bind (if trusted then inspect_installed r full else io_return ()) (\<lambda>_.
     io_bind (io_wrap ''resolve provider executable %q: %w'' [full] (er_eval_links r full)) (\<lambda>canonical0.
     io_bind (io_wrap ''canonicalize provider executable %q: %w'' [full] (er_abs r canonical0)) (\<lambda>canonical.
     io_bind (io_wrap ''inspect provider executable %q: %w'' [canonical] (er_stat r canonical)) (\<lambda>file.
     if \<not> is_regular file then io_fail (Errorf ''provider executable %q is not a regular file'' [canonical])
     else if node_perm file AND 0x49 = 0 then io_fail (Errorf ''provider executable %q is not executable'' [canonical])
     else if trusted \<and> group_or_world_writable file
     then io_fail (Errorf ''installed provider %q must not be group/world writable'' [canonical])
     else io_return (clean_path canonical))))))"

definition resolve_from_path :: "('w, 'm) executable_resolver_scheme \<Rightarrow> string \<Rightarrow> ('w, string) io" where
  "resolve_from_path r name =
     io_bind (io_wrap ''resolve provider executable %q: %w'' [name] (er_look_path r name)) (\<lambda>path.
       resolve_executable_file r path False)"

definition resolve_configured :: "('w, 'm) executable_resolver_scheme \<Rightarrow> string \<Rightarrow> ('w, string) io" where
  "resolve_configured r candidate =
     (if \<not> is_abs candidate \<and> \<not> has_separator candidate then resolve_from_path r candidate
      else resolve_executable_file r candidate False)"

text \<open>The first directory that has the candidate decides; \<open>None\<close> if there is none.\<close>

fun find_installed :: "('w, 'm) executable_resolver_scheme \<Rightarrow> string \<Rightarrow> string list \<Rightarrow> ('w, string option) io" where
  "find_installed r name [] = io_return None"
| "find_installed r name (dir # dirs) =
     (let candidate = join_path [dir, name] in
      io_bind (io_try (er_lstat r candidate)) (\<lambda>found. case found of
        Inl err \<Rightarrow> if errors_is err ErrNotExist then find_installed r name dirs
          else io_fail (wrap_error ''inspect installed provider %q: %w'' [candidate] err)
      | Inr _ \<Rightarrow> io_bind (validate_trusted_directory r dir) (\<lambda>_.
          io_bind (resolve_executable_file r candidate True) (\<lambda>p. io_return (Some p)))))"

definition installed_directories :: "string \<Rightarrow> string list" where
  "installed_directories cli =
     (let bin = dir_path cli in (if base_path bin = ''bin'' then [join_path [dir_path bin, ''libexec'']] else []) @ [bin])"

definition trusted_candidate :: "('w, 'm) executable_resolver_scheme \<Rightarrow> string \<Rightarrow> ('w, string option) io" where
  "trusted_candidate r name =
     io_bind (io_wrap ''locate Distroplane executable: %w'' [] (er_executable r)) (\<lambda>cli0.
     io_bind (io_wrap ''canonicalize Distroplane executable: %w'' [] (er_abs r cli0)) (\<lambda>cli1.
     io_bind (io_wrap ''resolve Distroplane executable: %w'' [] (er_eval_links r cli1)) (\<lambda>cli.
     if base_path cli \<noteq> ''distroplane'' \<and> base_path cli \<noteq> ''distroplane.exe'' then io_return None
     else find_installed r name (installed_directories cli))))"

definition resolve_provider :: "('w, 'm) executable_resolver_scheme \<Rightarrow> string \<Rightarrow> string \<Rightarrow> ('w, string) io" where
  "resolve_provider r name configured =
     (if \<not> valid_provider_executable_name name then io_fail (Errorf ''invalid provider executable name %q'' [name])
      else if configured \<noteq> [] then resolve_configured r configured
      else let candidate = provider_executable_prefix @ name in
        io_bind (trusted_candidate r candidate) (\<lambda>found. case found of
          Some p \<Rightarrow> io_return p | None \<Rightarrow> resolve_from_path r candidate))"

definition resolve_executable :: "('w, 'm) executable_resolver_scheme \<Rightarrow> string \<Rightarrow> string \<Rightarrow> string \<Rightarrow> ('w, string) io" where
  "resolve_executable r base_dir name configured =
     (if configured \<noteq> [] \<and> \<not> is_abs configured \<and> has_separator configured
      then (if trim_space base_dir = [] then io_fail (Errorf ''base directory must not be empty for relative provider executable'' [])
        else resolve_provider r name (join_path [base_dir, configured]))
      else resolve_provider r name configured)"

definition is_trusted_installed_provider :: "('w, 'm) executable_resolver_scheme \<Rightarrow> string \<Rightarrow> string \<Rightarrow> ('w, bool) io" where
  "is_trusted_installed_provider r name executable =
     io_bind (io_try (trusted_candidate r (provider_executable_prefix @ name))) (\<lambda>found. io_return (found = Inr (Some executable)))"

end
