(* ===== verification/Resolver_Claims.thy ===== *)
theory Resolver_Claims
  imports Planner_Resolver Go_Path_Lemmas
begin

text \<open>
  A provider that is installed with the program is used or refused, never passed over for one on the search path.
\<close>

section \<open>The search in the installed directories\<close>









section \<open>Independence of the search path\<close>







section \<open>The property\<close>






end
