(* ===== verification/Evidence_Redact.thy ===== *)
theory Evidence_Redact
  imports Canonical_Json Journal_Event
begin

text \<open>
  What an evidence bundle keeps of the evidence of an operation, \<open>internal/evidence/bundle.go\<close>: values whose member names say
  that they are secret are replaced, and text that looks like a credential is rewritten.  The two regular expressions are
  matched rune by rune as \<open>regexp\<close> does, where \<open>(?i)\<close> folds the long s and the Kelvin sign too.  Package \<open>net/url\<close> is the
  argument \<open>url_tools\<close>.
\<close>

section \<open>Regular expressions\<close>

type_synonym piece = "nat \<times> string"

definition pieces :: "string \<Rightarrow> piece list" where
  "pieces s = map (\<lambda>(r, bs). (case r of None \<Rightarrow> 0xFFFD | Some u \<Rightarrow> u, bs)) (rune_chunks s)"

definition piece_text :: "piece list \<Rightarrow> string" where
  "piece_text ps = concat (map snd ps)"

definition fold_rune :: "nat \<Rightarrow> nat" where
  "fold_rune u = (if 0x41 \<le> u \<and> u \<le> 0x5A then u + 0x20 else if u = 0x17F then 0x73 else if u = 0x212A then 0x6B else u)"

definition space_rune :: "nat \<Rightarrow> bool" where
  "space_rune u \<longleftrightarrow> u \<in> {0x09, 0x0A, 0x0C, 0x0D, 0x20}"

definition word_rune :: "nat \<Rightarrow> bool" where
  "word_rune u \<longleftrightarrow> (0x30 \<le> u \<and> u \<le> 0x39) \<or> (0x41 \<le> u \<and> u \<le> 0x5A) \<or> (0x61 \<le> u \<and> u \<le> 0x7A) \<or> u = 0x5F"

text \<open>A word at the front, and the text it has there.\<close>

fun match_word :: "string \<Rightarrow> piece list \<Rightarrow> (string \<times> piece list) option" where
  "match_word [] ps = Some ([], ps)"
| "match_word (c # cs) [] = None"
| "match_word (c # cs) ((u, bs) # ps) =
     (if fold_rune u = byte c then map_option (\<lambda>(t, rest). (bs @ t, rest)) (match_word cs ps) else None)"

fun first_match :: "('a \<Rightarrow> 'b option) \<Rightarrow> 'a list \<Rightarrow> 'b option" where
  "first_match f [] = None"
| "first_match f (x # xs) = (case f x of Some y \<Rightarrow> Some y | None \<Rightarrow> first_match f xs)"

definition assignment_words :: "string list" where
  "assignment_words = [''authorization'', ''token'', ''secret'', ''password'', ''passwd'', ''api_key'', ''api-key'', ''apikey'',
     ''client_secret'', ''client-secret'', ''clientsecret'', ''signature'']"

definition value_rune :: "piece \<Rightarrow> bool" where
  "value_rune = (\<lambda>(u, _). u \<noteq> 0x26 \<and> \<not> space_rune u)"

definition match_assignment :: "piece list \<Rightarrow> (string \<times> piece list) option" where
  "match_assignment ps = first_match (\<lambda>w. case match_word w ps of
       Some (t, (u, _) # rest) \<Rightarrow> if u = 0x3D \<and> takeWhile value_rune rest \<noteq> [] then Some (t, dropWhile value_rune rest) else None
     | _ \<Rightarrow> None) assignment_words"

definition credential_rune :: "piece \<Rightarrow> bool" where
  "credential_rune = (\<lambda>(u, _). (word_rune u \<or> u \<in> {0x17F, 0x212A, 0x2B, 0x2F, 0x3D, 0x2D, 0x2E}))"

definition match_authorization :: "bool \<Rightarrow> piece list \<Rightarrow> (string \<times> piece list) option" where
  "match_authorization after_word ps =
     (if after_word then None
      else first_match (\<lambda>w. case match_word w ps of
         None \<Rightarrow> None
       | Some (t, rest) \<Rightarrow>
           let more = dropWhile (space_rune \<circ> fst) rest in
           if takeWhile (space_rune \<circ> fst) rest \<noteq> [] \<and> takeWhile credential_rune more \<noteq> []
           then Some (t, dropWhile credential_rune more) else None) [''bearer'', ''basic''])"

lemma match_word_length: "match_word w ps = Some (t, rest) \<Longrightarrow> length rest \<le> length ps"
  by (induction w ps arbitrary: t rest rule: match_word.induct) (fastforce split: if_splits)+

lemma first_match_Some: "first_match f xs = Some y \<Longrightarrow> \<exists>x \<in> set xs. f x = Some y"
  by (induction xs) (auto split: option.splits)

lemma match_assignment_length: "match_assignment ps = Some (t, rest) \<Longrightarrow> length rest < length ps"
proof -
  assume "match_assignment ps = Some (t, rest)"
  from first_match_Some [OF this [unfolded match_assignment_def]] obtain w where
    w: "(case match_word w ps of
       Some (t, (u, _) # rest) \<Rightarrow> if u = 0x3D \<and> takeWhile value_rune rest \<noteq> [] then Some (t, dropWhile value_rune rest) else None
     | _ \<Rightarrow> None) = Some (t, rest)" by blast
  show ?thesis
  proof (cases "match_word w ps")
    case (Some tr)
    obtain t' r where tr: "tr = (t', r)" by fastforce
    with w Some obtain p more where r: "r = p # more" by (cases r) auto
    obtain u bs where p: "p = (u, bs)" by fastforce
    have "rest = dropWhile value_rune more" using w Some tr r p by (simp split: if_splits)
    moreover have "length (p # more) \<le> length ps" using match_word_length [of w ps t' r] Some tr r by simp
    ultimately show ?thesis using length_dropWhile_le [of value_rune more] by simp
  qed (use w in simp)
qed

lemma match_authorization_length: "match_authorization b ps = Some (t, rest) \<Longrightarrow> length rest < length ps"
proof -
  assume m: "match_authorization b ps = Some (t, rest)"
  then have "\<not> b" by (auto simp: match_authorization_def)
  with m have "first_match (\<lambda>w. case match_word w ps of
         None \<Rightarrow> None
       | Some (t, rest) \<Rightarrow>
           let more = dropWhile (space_rune \<circ> fst) rest in
           if takeWhile (space_rune \<circ> fst) rest \<noteq> [] \<and> takeWhile credential_rune more \<noteq> []
           then Some (t, dropWhile credential_rune more) else None) [''bearer'', ''basic''] = Some (t, rest)"
    by (simp add: match_authorization_def)
  from first_match_Some [OF this] obtain w t' r where w: "match_word w ps = Some (t', r)"
    and r: "takeWhile (space_rune \<circ> fst) r \<noteq> []" "rest = dropWhile credential_rune (dropWhile (space_rune \<circ> fst) r)"
    by (auto simp: Let_def split: option.splits if_splits prod.splits)
  have "length (dropWhile (space_rune \<circ> fst) r) < length r" using r(1) by (cases r) (auto simp: le_imp_less_Suc length_dropWhile_le split: if_splits)
  with match_word_length [OF w] r(2) length_dropWhile_le [of credential_rune "dropWhile (space_rune \<circ> fst) r"] show ?thesis by simp
qed

text \<open>\<open>ReplaceAllString\<close> with each of the two patterns.\<close>

function redact_assignments :: "piece list \<Rightarrow> string" where
  "redact_assignments [] = []"
| "redact_assignments (p # ps) = (case match_assignment (p # ps) of
     Some (t, rest) \<Rightarrow> t @ ''=[REDACTED]'' @ redact_assignments rest
   | None \<Rightarrow> snd p @ redact_assignments ps)"
  by pat_completeness auto
termination by (relation "measure length") (auto dest: match_assignment_length)

function redact_authorizations :: "bool \<Rightarrow> piece list \<Rightarrow> string" where
  "redact_authorizations after_word [] = []"
| "redact_authorizations after_word (p # ps) = (case match_authorization after_word (p # ps) of
     Some (t, rest) \<Rightarrow> t @ '' [REDACTED]'' @ redact_authorizations True rest
   | None \<Rightarrow> snd p @ redact_authorizations (word_rune (fst p)) ps)"
  by pat_completeness auto
termination by (relation "measure (\<lambda>(_, ps). length ps)") (auto dest: match_authorization_length)

section \<open>Addresses\<close>

record 'u url_tools =
  ut_parse :: "string \<Rightarrow> 'u option"
  ut_scheme :: "'u \<Rightarrow> string"
  ut_host :: "'u \<Rightarrow> string"
  ut_has_user :: "'u \<Rightarrow> bool"
  ut_set_user :: "string \<Rightarrow> 'u \<Rightarrow> 'u"
  ut_query :: "'u \<Rightarrow> (string \<times> string list) list"
  ut_set_query :: "(string \<times> string list) list \<Rightarrow> 'u \<Rightarrow> 'u"
  ut_text :: "'u \<Rightarrow> string"

definition evidence_secret_words :: "string list" where
  "evidence_secret_words = [''authorization'', ''credential'', ''credentials'', ''password'', ''passwd'', ''secret'', ''token'',
     ''accesstoken'', ''refreshtoken'', ''apikey'', ''clientsecret'', ''privatekey'', ''signature'',
     ''xamzcredential'', ''xamzsecuritytoken'', ''xamzsignature'', ''googleaccessid'']"

definition evidence_secret_key :: "string \<Rightarrow> bool" where
  "evidence_secret_key key \<longleftrightarrow> key_letters key \<in> set (map (map byte) evidence_secret_words)"

definition redaction_mark :: string where
  "redaction_mark = ''[REDACTED]''"

definition sanitize_uri :: "'u url_tools \<Rightarrow> string \<Rightarrow> string result" where
  "sanitize_uri tools value = (case ut_parse tools value of
     None \<Rightarrow> Inl (Errorf ''must be an absolute URI'' [])
   | Some parsed \<Rightarrow>
       if ut_scheme tools parsed = [] then Inl (Errorf ''must be an absolute URI'' [])
       else let named = (if ut_has_user tools parsed then ut_set_user tools redaction_mark parsed else parsed);
                query = ut_query tools named in
         Inr (ut_text tools (if list_ex (evidence_secret_key \<circ> fst) query
           then ut_set_query tools (map (\<lambda>(k, vs). (k, if evidence_secret_key k then [redaction_mark] else vs)) query) named else named)))"

definition sanitize_text :: "'u url_tools \<Rightarrow> string \<Rightarrow> string" where
  "sanitize_text tools value =
     (let rewritten = redact_authorizations False (pieces (redact_assignments (pieces value))) in
      case sanitize_uri tools rewritten of Inr t \<Rightarrow> t | Inl _ \<Rightarrow> rewritten)"

fun sanitize_value :: "'u url_tools \<Rightarrow> json \<Rightarrow> json" where
  "sanitize_value tools (JObject kvs) =
     JObject (map (\<lambda>(k, v). (k, if evidence_secret_key k then JString redaction_mark else sanitize_value tools v)) kvs)"
| "sanitize_value tools (JArray vs) = JArray (map (sanitize_value tools) vs)"
| "sanitize_value tools (JString t) = JString (sanitize_text tools t)"
| "sanitize_value tools v = v"

definition normalize_evidence :: "'u url_tools \<Rightarrow> string \<Rightarrow> string result" where
  "normalize_evidence tools raw =
     bind_result (normalize_json raw) (\<lambda>normalized.
     case json_decode normalized of
       None \<Rightarrow> Inl (Errorf ''invalid JSON'' [])
     | Some (v, _) \<Rightarrow> normalize_json (marshal_json (sanitize_value tools v)))"

fun collect_references :: "'u url_tools \<Rightarrow> json \<Rightarrow> string list" where
  "collect_references tools (JObject kvs) = concat (map (\<lambda>(_, v). collect_references tools v) kvs)"
| "collect_references tools (JArray vs) = concat (map (collect_references tools) vs)"
| "collect_references tools (JString t) = (case ut_parse tools t of
     None \<Rightarrow> []
   | Some u \<Rightarrow> if (ut_scheme tools u = ''https'' \<or> ut_scheme tools u = ''http'') \<and> ut_host tools u \<noteq> [] \<and> \<not> ut_has_user tools u
       then [ut_text tools u] else [])"
| "collect_references tools _ = []"

definition external_references :: "'u url_tools \<Rightarrow> string \<Rightarrow> string list" where
  "external_references tools raw = (case json_decode raw of
     None \<Rightarrow> [] | Some (v, _) \<Rightarrow> sort (remdups (collect_references tools v)))"

end
