(* ===== verification/Evidence_Bundle.thy ===== *)
theory Evidence_Bundle
  imports Evidence_Redact Journal_Frame Journal_Reduce Protocol_Message Go_Sha256 Go_Io
begin

text \<open>
  The evidence bundle of a run, \<open>internal/evidence/bundle.go\<close>: what the journal says of each target and operation, bound
  to the bytes of the journal by their digest.  Times count from the zero time of package \<open>time\<close>.
\<close>

section \<open>Records\<close>

record attestation =
  at_name :: string
  at_uri :: string
  at_digest :: string

record evidence_run =
  eu_id :: run_id
  eu_started_at :: time
  eu_completed_at :: "time option"
  eu_cancelled_at :: "time option"
  eu_completed :: bool
  eu_cancelled :: bool

record evidence_artifact =
  ea_name :: string
  ea_digest :: string
  ea_size :: int
  ea_media_type :: string

record evidence_release =
  el_id :: release_id
  el_artifacts :: "evidence_artifact list"

record evidence_journal =
  ej_reference :: string
  ej_digest :: string
  ej_bytes :: int
  ej_events :: nat
  ej_truncated_tail :: bool
  ej_schema_version :: "16 word"

record evidence_operation =
  eo_id :: operation_id
  eo_observed_at :: time
  eo_kind :: string
  eo_state :: normalized_state
  eo_attempt :: attempt_number
  eo_reconcile_required :: bool
  eo_ambiguous :: bool
  eo_retryable :: bool
  eo_provider_state :: string
  eo_evidence :: string
  eo_error_code :: string

record evidence_target =
  et_id :: target_id
  et_observed_at :: time
  et_provider :: provider_ref
  et_state :: normalized_state
  et_reconcile_required :: bool
  et_ambiguous :: bool
  et_external_references :: "string list"
  et_operations :: "evidence_operation list"

record evidence_bundle =
  eb_schema_version :: string
  eb_observed_at :: time
  eb_plan_id :: plan_id
  eb_protocol_version :: string
  eb_run :: evidence_run
  eb_release :: evidence_release
  eb_journal :: evidence_journal
  eb_targets :: "evidence_target list"
  eb_attestations :: "attestation list"

definition evidence_schema :: string where
  "evidence_schema = ''1''"

definition evidence_digest :: "string \<Rightarrow> string" where
  "evidence_digest raw = ''sha256:'' @ sha256_hex raw"

section \<open>Observations\<close>

record observations =
  ob_observed_at :: time
  ob_started_at :: time
  ob_completed_at :: "time option"
  ob_cancelled_at :: "time option"
  ob_operations :: "(operation_id \<times> time) list"

definition operation_observation_event :: "event_type \<Rightarrow> bool" where
  "operation_observation_event t \<longleftrightarrow> t \<in> {EventOperationReady, EventAttemptStarted, EventSideEffectDispatched,
     EventOperationWaitingExternal, EventOperationPublished, EventOperationRejected, EventOperationFailed, EventOperationResult,
     EventOperationCancelled, EventOutcomeAmbiguous, EventReconcileResult}"

definition note_observation :: "observations \<Rightarrow> event \<Rightarrow> observations" where
  "note_observation ob0 e =
     (let ob = ob0\<lparr>ob_observed_at := e_observed_at e\<rparr> in
      case e_type e of
        EventRunStarted \<Rightarrow> ob\<lparr>ob_started_at := e_observed_at e\<rparr>
      | EventRunCompleted \<Rightarrow> ob\<lparr>ob_completed_at := Some (e_observed_at e)\<rparr>
      | EventRunCancelled \<Rightarrow> ob\<lparr>ob_cancelled_at := Some (e_observed_at e)\<rparr>
      | t \<Rightarrow> if operation_observation_event t
          then ob\<lparr>ob_operations := map_insert (e_operation_id e) (e_observed_at e) (ob_operations ob)\<rparr> else ob)"

definition derive_observations :: "event list \<Rightarrow> observations" where
  "derive_observations events = foldl note_observation
     \<lparr>ob_observed_at = 0, ob_started_at = 0, ob_completed_at = None, ob_cancelled_at = None, ob_operations = []\<rparr> events"

section \<open>Attestations\<close>

definition attestation_key :: "attestation \<Rightarrow> string" where
  "attestation_key a = at_name a @ [char_of (0::nat)] @ at_uri a @ [char_of (0::nat)] @ at_digest a"

definition normalize_attestation :: "'u url_tools \<Rightarrow> attestation list \<Rightarrow> attestation \<Rightarrow> attestation list result" where
  "normalize_attestation tools found v =
     bind_result (checked (validate_text_max ''attestation name'' (at_name v) 256 False) ()) (\<lambda>_.
     bind_result (wrap_result ''attestation %q URI: %w'' [at_name v] (sanitize_uri tools (at_uri v))) (\<lambda>uri.
     bind_result (if at_digest v = [] then Inr ()
        else bind_result (wrap_result ''attestation %q digest: %w'' [at_name v] (parse_digest (at_digest v))) (\<lambda>_. Inr ())) (\<lambda>_.
     let a = \<lparr>at_name = at_name v, at_uri = uri, at_digest = at_digest v\<rparr> in
     Inr (if attestation_key a \<in> attestation_key ` set found then found else found @ [a]))))"

definition normalize_attestations :: "'u url_tools \<Rightarrow> attestation list \<Rightarrow> attestation list result" where
  "normalize_attestations tools vs = bind_result (for_each (normalize_attestation tools) [] vs) (\<lambda>found.
     Inr (sort_key at_name (sort_key at_uri (sort_key at_digest found))))"

section \<open>Build\<close>

definition evidence_artifact_of :: "artifact \<Rightarrow> evidence_artifact" where
  "evidence_artifact_of a = \<lparr>ea_name = artifact_name a, ea_digest = digest_string (artifact_digest a), ea_size = artifact_size a,
     ea_media_type = artifact_media_type a\<rparr>"

text \<open>When an operation was last seen; a cancellation of the run is one for it.\<close>

definition operation_observed_at :: "observations \<Rightarrow> operation_state \<Rightarrow> time" where
  "operation_observed_at ob os =
     (let seen = (case map_of (ob_operations ob) (os_id os) of None \<Rightarrow> 0 | Some t \<Rightarrow> t);
          cancelled = (case ob_cancelled_at ob of
            Some t \<Rightarrow> if os_state os = StateCancelled \<and> seen < t then t else seen | None \<Rightarrow> seen) in
      if cancelled = 0 then ob_started_at ob else cancelled)"

text \<open>The records of the operations with the targets they belong to, and the references found for the targets.\<close>

definition record_operation ::
  "'u url_tools \<Rightarrow> plan \<Rightarrow> observations \<Rightarrow> (target_id \<times> evidence_operation) list \<times> (target_id \<times> string) list \<Rightarrow> operation_state
   \<Rightarrow> ((target_id \<times> evidence_operation) list \<times> (target_id \<times> string) list) result" where
  "record_operation tools p ob = (\<lambda>(records, refs) os.
     (case map_of (rev (map (\<lambda>op. (op_id op, op)) (pl_operations p))) (os_id os) of
        None \<Rightarrow> Inl (Errorf ''derived state references unknown operation %q'' [os_id os])
      | Some op \<Rightarrow>
          bind_result (if os_evidence os = [] then Inr []
            else wrap_result ''operation %q evidence: %w'' [os_id os] (normalize_evidence tools (os_evidence os))) (\<lambda>evidence.
          Inr (records @ [(os_target_id os, \<lparr>eo_id = os_id os, eo_observed_at = operation_observed_at ob os, eo_kind = op_kind op,
                 eo_state = os_state os, eo_attempt = os_attempt os, eo_reconcile_required = os_reconcile_required os,
                 eo_ambiguous = os_ambiguous os, eo_retryable = os_retryable os, eo_provider_state = os_provider_state os,
                 eo_evidence = evidence, eo_error_code = os_error_code os\<rparr>)],
               refs @ (if os_evidence os = [] then [] else map (Pair (os_target_id os)) (external_references tools evidence))))))"

definition belonging :: "'k \<Rightarrow> ('k \<times> 'v) list \<Rightarrow> 'v list" where
  "belonging k xs = map snd (filter (\<lambda>x. fst x = k) xs)"

definition latest :: "time \<Rightarrow> evidence_operation list \<Rightarrow> time" where
  "latest t os = foldl (\<lambda>t o1. if t < eo_observed_at o1 then eo_observed_at o1 else t) t os"

definition record_target ::
  "plan \<Rightarrow> observations \<Rightarrow> (target_id \<times> evidence_operation) list \<Rightarrow> (target_id \<times> string) list \<Rightarrow> evidence_target list \<Rightarrow> target_state
   \<Rightarrow> evidence_target list result" where
  "record_target p ob records refs targets ts =
     (case map_of (rev (map (\<lambda>t. (tgt_id t, t)) (pl_targets p))) (ts_id ts) of
        None \<Rightarrow> Inl (Errorf ''derived state references unknown target %q'' [ts_id ts])
      | Some t \<Rightarrow>
          let operations = sort_key eo_id (belonging (ts_id ts) records) in
          Inr (targets @ [\<lparr>et_id = ts_id ts, et_observed_at = latest (ob_started_at ob) operations, et_provider = tgt_provider t,
            et_state = ts_state ts, et_reconcile_required = ts_reconcile_required ts, et_ambiguous = ts_ambiguous ts,
            et_external_references = sort (remdups (belonging (ts_id ts) refs)), et_operations = operations\<rparr>]))"

definition build_bundle ::
  "unmarshaller \<Rightarrow> 'u url_tools \<Rightarrow> plan \<Rightarrow> string \<Rightarrow> string \<Rightarrow> attestation list \<Rightarrow> evidence_bundle result" where
  "build_bundle unmarshal tools p raw reference attestations =
     (if \<not> valid_identifier (pl_id p) then Inl (Errorf ''plan is invalid'' [])
      else bind_result (checked (validate_text_max ''journal reference'' reference 2048 False) ()) (\<lambda>_.
      if raw = [] then Inl (Errorf ''journal is empty'' [])
      else bind_result (wrap_result ''read journal: %w'' [] (read_journal unmarshal (Some \<lparr>rdr_data = raw, rdr_fault = None\<rparr>))) (\<lambda>read.
      if rr_events read = [] \<or> rr_valid_bytes read \<le> 0 \<or> int (length raw) < rr_valid_bytes read
      then Inl (Errorf ''journal contains no durable events'' [])
      else bind_result (wrap_result ''reduce journal: %w'' [] (reduce p (rr_events read))) (\<lambda>state.
      let ob = derive_observations (rr_events read) in
      if ob_started_at ob = 0 \<or> ob_observed_at ob = 0 then Inl (Errorf ''journal observation metadata is incomplete'' [])
      else bind_result (normalize_attestations tools attestations) (\<lambda>found.
      bind_result (for_each (record_operation tools p ob) ([], []) (ds_operations state)) (\<lambda>(records, refs).
      bind_result (for_each (record_target p ob records refs) [] (ds_targets state)) (\<lambda>targets.
      Inr \<lparr>eb_schema_version = evidence_schema, eb_observed_at = ob_observed_at ob, eb_plan_id = pl_id p,
        eb_protocol_version = pl_protocol_version p,
        eb_run = \<lparr>eu_id = ds_run_id state, eu_started_at = ob_started_at ob, eu_completed_at = ob_completed_at ob,
          eu_cancelled_at = ob_cancelled_at ob, eu_completed = ds_completed state, eu_cancelled = ds_cancelled state\<rparr>,
        eb_release = \<lparr>el_id = rel_id (pl_release p),
          el_artifacts = sort_key ea_name (map evidence_artifact_of (rel_artifacts (pl_release p)))\<rparr>,
        eb_journal = \<lparr>ej_reference = reference, ej_digest = evidence_digest (take (nat (rr_valid_bytes read)) raw),
          ej_bytes = rr_valid_bytes read, ej_events = length (rr_events read), ej_truncated_tail = rr_truncated_tail read,
          ej_schema_version = schema_version\<rparr>,
        eb_targets = sort_key et_id targets, eb_attestations = found\<rparr>)))))))"

end
