(* ===== verification/Evidence_Secrets.thy ===== *)
theory Evidence_Secrets
  imports Evidence_Redact
begin

text \<open>
  What \<open>normalizeEvidence\<close> leaves: the text of a value in which every member with a secret name is replaced, and that does
  not depend on what was there.
\<close>

section \<open>Decoded values\<close>

lemma json_ok_insert:
  assumes "json_ok (JObject m)" and "valid_string k" and "json_ok v"
  shows "json_ok (JObject (map_insert k v m))"
proof -
  have "(i, x) \<in> set (map_insert k v m) \<Longrightarrow> (i, x) = (k, v) \<or> (i, x) \<in> set m" for i x
    by (induction m) (auto split: if_splits)
  then show ?thesis using assms by (fastforce simp: list_all_iff)
qed

lemma build_object_ok:
  assumes "list_all (\<lambda>(k, v). valid_string k \<and> json_ok v) kvs"
  shows "json_ok (build_object kvs)"
proof -
  have "json_ok (JObject m) \<Longrightarrow> json_ok (JObject (foldl (\<lambda>m (k, v). map_insert k v m) m kvs))" for m
    using assms
  proof (induction kvs arbitrary: m)
    case (Cons kv kvs)
    then show ?case using json_ok_insert [of m "fst kv" "snd kv"] by (cases kv) simp
  qed simp
  then show ?thesis by (simp add: build_object_def)
qed

lemma parse_key_valid: "parse_key s = Some (k, r) \<Longrightarrow> valid_string k"
  by (auto simp: parse_key_def split: list.splits if_splits option.splits dest: parse_string_valid)

lemma literal_ok: "literal w v s = Some (x, r) \<Longrightarrow> x = v"
  by (simp add: literal_def split: if_splits)

lemma parse_ok_all:
  "(\<forall>d s v r. parse_value n d s = Some (v, r) \<longrightarrow> json_ok v) \<and>
   (\<forall>d s vs r. parse_elements n d s = Some (vs, r) \<longrightarrow> list_all json_ok vs) \<and>
   (\<forall>d s kvs r. parse_members n d s = Some (kvs, r) \<longrightarrow> list_all (\<lambda>(k, v). valid_string k \<and> json_ok v) kvs)"
proof (induction n)
  case (Suc n)
  then have v: "\<And>d s v r. parse_value n d s = Some (v, r) \<Longrightarrow> json_ok v"
    and e: "\<And>d s vs r. parse_elements n d s = Some (vs, r) \<Longrightarrow> list_all json_ok vs"
    and m: "\<And>d s kvs r. parse_members n d s = Some (kvs, r) \<Longrightarrow> list_all (\<lambda>(k, v). valid_string k \<and> json_ok v) kvs"
    by blast+
  have "json_ok v" if "parse_value (Suc n) d s = Some (v, r)" for d s v r
    using that
    by (auto split: list.splits if_splits option.splits dest: parse_string_valid parse_number_Some literal_ok e m intro: build_object_ok)
  moreover have "list_all json_ok vs" if "parse_elements (Suc n) d s = Some (vs, r)" for d s vs r
    using that by (auto split: list.splits if_splits option.splits dest!: v e)
  moreover have "list_all (\<lambda>(k, v). valid_string k \<and> json_ok v) kvs" if "parse_members (Suc n) d s = Some (kvs, r)" for d s kvs r
    using that by (auto split: list.splits if_splits option.splits dest!: v m parse_key_valid)
  ultimately show ?case by blast
qed simp

lemma json_decode_ok: "json_decode s = Some (v, r) \<Longrightarrow> json_ok v"
  using parse_ok_all unfolding json_decode_def by blast

section \<open>Rewritten text is valid\<close>

definition valid_pieces :: "piece list \<Rightarrow> bool" where
  "valid_pieces ps \<longleftrightarrow> list_all (\<lambda>p. valid_string (snd p)) ps"

lemma match_word_valid: "match_word w ps = Some (t, rest) \<Longrightarrow> valid_pieces ps \<Longrightarrow> valid_string t \<and> valid_pieces rest"
proof (induction w ps arbitrary: t rest rule: match_word.induct)
  case (3 c cs u bs ps)
  then obtain t' where t: "match_word cs ps = Some (t', rest)" "t = bs @ t'" "fold_rune u = byte c" by (auto split: if_splits)
  with 3 show ?case by (auto simp: valid_pieces_def valid_string_append)
qed simp_all

lemma valid_dropWhile: "valid_pieces ps \<Longrightarrow> valid_pieces (dropWhile f ps)"
  by (auto simp: valid_pieces_def list_all_iff dest: set_dropWhileD)

lemma match_assignment_valid:
  assumes "match_assignment ps = Some (t, rest)" and "valid_pieces ps"
  shows "valid_string t \<and> valid_pieces rest"
proof -
  from first_match_Some [OF assms(1) [unfolded match_assignment_def]] obtain w where
    w: "(case match_word w ps of
       Some (t, (u, _) # rest) \<Rightarrow> if u = 0x3D \<and> takeWhile value_rune rest \<noteq> [] then Some (t, dropWhile value_rune rest) else None
     | _ \<Rightarrow> None) = Some (t, rest)" by blast
  then obtain u b more where more: "match_word w ps = Some (t, (u, b) # more)" "rest = dropWhile value_rune more"
    by (auto split: option.splits list.splits if_splits)
  from match_word_valid [OF more(1) assms(2)] show ?thesis
    using valid_dropWhile [of more value_rune] by (simp add: more(2) valid_pieces_def)
qed

lemma match_authorization_valid:
  assumes "match_authorization b ps = Some (t, rest)" and "valid_pieces ps"
  shows "valid_string t \<and> valid_pieces rest"
proof -
  have "\<not> b" using assms(1) by (auto simp: match_authorization_def)
  with assms(1) have "first_match (\<lambda>w. case match_word w ps of
         None \<Rightarrow> None
       | Some (t, rest) \<Rightarrow>
           let more = dropWhile (space_rune \<circ> fst) rest in
           if takeWhile (space_rune \<circ> fst) rest \<noteq> [] \<and> takeWhile credential_rune more \<noteq> []
           then Some (t, dropWhile credential_rune more) else None) [''bearer'', ''basic''] = Some (t, rest)"
    by (simp add: match_authorization_def)
  from first_match_Some [OF this] obtain w r where w: "match_word w ps = Some (t, r)"
    and r: "rest = dropWhile credential_rune (dropWhile (space_rune \<circ> fst) r)"
    by (auto simp: Let_def split: option.splits if_splits prod.splits)
  from match_word_valid [OF w assms(2)] show ?thesis by (simp add: r valid_dropWhile)
qed

lemma valid_redaction: "valid_string ''=[REDACTED]''" "valid_string '' [REDACTED]''" "valid_string redaction_mark"
  by (simp_all add: redaction_mark_def byte_def)

lemma redact_assignments_valid: "valid_pieces ps \<Longrightarrow> valid_string (redact_assignments ps)"
proof (induction ps rule: redact_assignments.induct)
  case (2 p ps)
  show ?case
  proof (cases "match_assignment (p # ps)")
    case None
    with 2 show ?thesis by (simp add: valid_pieces_def valid_string_append)
  next
    case (Some tr)
    obtain t rest where tr: "tr = (t, rest)" by fastforce
    from match_assignment_valid [OF Some [unfolded tr] "2.prems"] "2.IH"(2) [OF Some tr [symmetric]] show ?thesis
      by (simp add: Some tr valid_string_append valid_redaction byte_def)
  qed
qed simp

lemma redact_authorizations_valid: "valid_pieces ps \<Longrightarrow> valid_string (redact_authorizations b ps)"
proof (induction b ps rule: redact_authorizations.induct)
  case (2 b p ps)
  show ?case
  proof (cases "match_authorization b (p # ps)")
    case None
    with 2 show ?thesis by (simp add: valid_pieces_def valid_string_append)
  next
    case (Some tr)
    obtain t rest where tr: "tr = (t, rest)" by fastforce
    from match_authorization_valid [OF Some [unfolded tr] "2.prems"] "2.IH"(2) [OF Some tr [symmetric]] show ?thesis
      by (simp add: Some tr valid_string_append valid_redaction byte_def)
  qed
qed simp

lemma pieces_valid: "valid_string s \<Longrightarrow> valid_pieces (pieces s)"
proof (induction s rule: rune_chunks.induct)
  case (2 c cs)
  obtain u n where d: "decode_rune (c # cs) = (Some u, n)" "valid_string (drop (n - 1) cs)"
    using "2.prems" by (rule valid_string_Cons)
  have "valid_string (take n (c # cs))" using decode_rune_encoded [OF d(1)] valid_encode_rune by simp
  with "2.IH" [OF refl] d show ?case by (simp add: pieces_def valid_pieces_def)
qed (simp add: pieces_def valid_pieces_def)

text \<open>What \<open>URL.String\<close> gives is valid: it escapes all that is not ASCII, except what it keeps of a valid text.\<close>

definition prints_valid :: "'u url_tools \<Rightarrow> bool" where
  "prints_valid tools \<longleftrightarrow> (\<forall>s t. valid_string s \<longrightarrow> sanitize_uri tools s = Inr t \<longrightarrow> valid_string t)"

lemma sanitize_text_valid:
  assumes "prints_valid tools" and "valid_string s"
  shows "valid_string (sanitize_text tools s)"
proof -
  have "valid_string (redact_authorizations False (pieces (redact_assignments (pieces s))))"
    by (intro redact_authorizations_valid pieces_valid redact_assignments_valid assms(2))
  with assms(1) show ?thesis by (auto simp: sanitize_text_def prints_valid_def Let_def split: sum.split)
qed

lemma sanitize_value_ok: "prints_valid tools \<Longrightarrow> json_ok v \<Longrightarrow> json_ok (sanitize_value tools v)"
proof (induction tools v rule: sanitize_value.induct)
  case (1 tools kvs)
  have keys: "map fst (map (\<lambda>(k, v). (k, if evidence_secret_key k then JString redaction_mark else sanitize_value tools v)) kvs) = map fst kvs" by auto
  show ?case using 1 valid_redaction(3) unfolding sanitize_value.simps json_ok.simps keys by (auto simp: list_all_iff)
qed (auto simp: list_all_iff sanitize_text_valid)


section \<open>Secrets\<close>

fun hides_secrets :: "json \<Rightarrow> bool" where
  "hides_secrets (JObject kvs) = list_all (\<lambda>(k, v). if evidence_secret_key k then v = JString redaction_mark else hides_secrets v) kvs"
| "hides_secrets (JArray vs) = list_all hides_secrets vs"
| "hides_secrets _ = True"

lemma sanitize_hides: "hides_secrets (sanitize_value tools v)"
  by (induction tools v rule: sanitize_value.induct) (auto simp: list_all_iff)

lemma canonical_hides: "hides_secrets v \<Longrightarrow> hides_secrets (canonical_value v)"
  by (induction v rule: canonical_value.induct) (auto simp: list_all_iff split: if_splits)

text \<open>A value without what is under secret names, and this part of a text.\<close>

fun public_value :: "json \<Rightarrow> json" where
  "public_value (JObject kvs) = JObject (map (\<lambda>(k, v). (k, if evidence_secret_key k then JNull else public_value v)) kvs)"
| "public_value (JArray vs) = JArray (map public_value vs)"
| "public_value v = v"

definition public_part :: "string \<Rightarrow> json option" where
  "public_part raw = (case normalize_json raw of Inl _ \<Rightarrow> None | Inr n \<Rightarrow> map_option (public_value \<circ> fst) (json_decode n))"

lemma sanitize_public: "sanitize_value tools (public_value v) = sanitize_value tools v"
  by (induction tools v rule: sanitize_value.induct) auto

lemma normalize_evidence_Inr:
  "normalize_evidence tools raw = Inr out \<longleftrightarrow> (\<exists>n v r. normalize_json raw = Inr n \<and> json_decode n = Some (v, r)
     \<and> normalize_json (marshal_json (sanitize_value tools v)) = Inr out)"
  by (cases "normalize_json raw") (auto simp: normalize_evidence_def split: option.splits)

lemma normalize_evidence_value:
  assumes "normalize_evidence tools raw = Inr out" and "prints_valid tools"
  obtains n v r where "normalize_json raw = Inr n" "json_decode n = Some (v, r)" "json_ok (sanitize_value tools v)"
    "out = marshal_json (sanitize_value tools v)"
proof -
  obtain n v r where n: "normalize_json raw = Inr n" "json_decode n = Some (v, r)"
    and out: "normalize_json (marshal_json (sanitize_value tools v)) = Inr out"
    using assms(1) unfolding normalize_evidence_Inr by blast
  have "json_ok (sanitize_value tools v)" by (rule sanitize_value_ok [OF assms(2) json_decode_ok [OF n(2)]])
  with that n out show thesis by (simp add: normalize_marshal)
qed

lemma same_public_part:
  assumes "public_part raw' = public_part raw" and "normalize_evidence tools raw = Inr out"
  shows "normalize_evidence tools raw' = Inr out"
proof -
  obtain n v r where n: "normalize_json raw = Inr n" "json_decode n = Some (v, r)"
    and out: "normalize_json (marshal_json (sanitize_value tools v)) = Inr out"
    using assms(2) unfolding normalize_evidence_Inr by blast
  then have "public_part raw' = Some (public_value v)" using assms(1) by (simp add: public_part_def)
  then obtain n' v' r' where n': "normalize_json raw' = Inr n'" "json_decode n' = Some (v', r')" "public_value v' = public_value v"
    by (auto simp: public_part_def split: sum.splits)
  with out show ?thesis unfolding normalize_evidence_Inr by (metis sanitize_public)
qed

end
