(* ===== verification/Evidence_Claims.thy ===== *)
theory Evidence_Claims
  imports Evidence_Bundle Evidence_Secrets Frame_Claims "HOL-Library.Multiset"
begin

text \<open>
  An evidence bundle reports what the durable part of the journal says, no more and no less.
\<close>

section \<open>The durable part of a journal\<close>

definition durable_part :: "evidence_bundle \<Rightarrow> string \<Rightarrow> string" where
  "durable_part b raw = take (nat (ej_bytes (eb_journal b))) raw"

text \<open>What was read is read again from the bytes that are valid.\<close>

lemma read_again:
  assumes "read_journal unmarshal (whole raw) = Inr out"
  shows "read_journal unmarshal (whole (take (nat (rr_valid_bytes out)) raw)) = Inr (out\<lparr>rr_truncated_tail := False\<rparr>)"
    and "0 \<le> rr_valid_bytes out" "nat (rr_valid_bytes out) \<le> length raw"
proof -
  obtain k where k: "rr_valid_bytes out = int k" "k \<le> length raw"
    and prefix: "reads_prefix unmarshal (take k raw) 1 [] (rr_events out)"
    using read_frames_sound [of unmarshal None raw empty_result 1 "[]" out] assms
    by (auto simp: read_journal_def empty_result_def whole_def)
  have "grow_result (rr_events out) k empty_result = out\<lparr>rr_truncated_tail := False\<rparr>"
    by (rule read_result.equality) (simp_all add: grow_result_def empty_result_def k(1))
  moreover have "read_journal unmarshal (whole (take k raw @ [])) = read_frames unmarshal None [] (grow_result (rr_events out) k empty_result)
        (1 + word_of_nat (length (rr_events out))) (run_after [] (rr_events out))"
    using prefix k(2) unfolding read_journal_def whole_def reads_prefix_def by (simp del: append_Nil2 add: min_absorb2)
  ultimately show "read_journal unmarshal (whole (take (nat (rr_valid_bytes out)) raw)) = Inr (out\<lparr>rr_truncated_tail := False\<rparr>)"
    by (simp add: read_frames_Nil k(1))
  show "0 \<le> rr_valid_bytes out" "nat (rr_valid_bytes out) \<le> length raw" using k by simp_all
qed

section \<open>The records\<close>

text \<open>What a record of an operation and the derived state of the operation have in common.\<close>

definition record_view :: "evidence_operation \<Rightarrow> operation_id \<times> normalized_state \<times> attempt_number \<times> bool \<times> bool \<times> bool \<times> string \<times> string" where
  "record_view r = (eo_id r, eo_state r, eo_attempt r, eo_reconcile_required r, eo_ambiguous r, eo_retryable r, eo_provider_state r, eo_error_code r)"

definition derived_view :: "operation_state \<Rightarrow> operation_id \<times> normalized_state \<times> attempt_number \<times> bool \<times> bool \<times> bool \<times> string \<times> string" where
  "derived_view os = (os_id os, os_state os, os_attempt os, os_reconcile_required os, os_ambiguous os, os_retryable os, os_provider_state os, os_error_code os)"

lemma recorded_operation:
  assumes "record_operation tools p ob (records, refs) os = Inr (records', refs')"
  shows "\<exists>r. records' = records @ [(os_target_id os, r)] \<and> record_view r = derived_view os"
  using assms by (auto simp: record_operation_def record_view_def derived_view_def bind_result_Inr split: option.splits)

lemma recorded_operations:
  "for_each (record_operation tools p ob) (records, refs) oss = Inr (records', refs') \<Longrightarrow>
     map (map_prod id record_view) records' = map (map_prod id record_view) records @ map (\<lambda>os. (os_target_id os, derived_view os)) oss"
proof (induction oss arbitrary: records refs)
  case (Cons os oss)
  obtain rs fs where one: "record_operation tools p ob (records, refs) os = Inr (rs, fs)"
    and more: "for_each (record_operation tools p ob) (rs, fs) oss = Inr (records', refs')"
    using Cons.prems by (auto simp: bind_result_Inr)
  from recorded_operation [OF one] Cons.IH [OF more] show ?case by auto
qed simp

lemma belonging_view: "map f (belonging k xs) = belonging k (map (map_prod id f) xs)"
  by (induction xs) (auto simp: belonging_def)

lemma belonging_map: "belonging k (map (\<lambda>x. (g x, f x)) xs) = map f (filter (\<lambda>x. g x = k) xs)"
  by (induction xs) (auto simp: belonging_def)

definition target_view :: "evidence_target \<Rightarrow> target_id \<times> normalized_state \<times> bool \<times> bool" where
  "target_view t = (et_id t, et_state t, et_reconcile_required t, et_ambiguous t)"

lemma recorded_targets:
  "for_each (record_target p ob records refs) targets tss = Inr targets' \<Longrightarrow>
     map target_view targets' = map target_view targets @ map (\<lambda>ts. (ts_id ts, ts_state ts, ts_reconcile_required ts, ts_ambiguous ts)) tss
     \<and> (\<forall>t \<in> set targets'. t \<in> set targets \<or> et_operations t = sort_key eo_id (belonging (et_id t) records))"
proof (induction tss arbitrary: targets)
  case (Cons ts tss)
  obtain more where one: "record_target p ob records refs targets ts = Inr more"
    and rest: "for_each (record_target p ob records refs) more tss = Inr targets'"
    using Cons.prems by (auto simp: bind_result_Inr)
  obtain t where t: "more = targets @ [t]" "target_view t = (ts_id ts, ts_state ts, ts_reconcile_required ts, ts_ambiguous ts)"
    "et_operations t = sort_key eo_id (belonging (et_id t) records)"
    using one by (auto simp: record_target_def target_view_def Let_def split: option.splits)
  from Cons.IH [OF rest] t show ?case by (auto simp: t(1))
qed simp

section \<open>The parts of a bundle\<close>

text \<open>All that \<open>Build\<close> reads of the journal, and the bundle that it makes of that.\<close>

definition bundle_of ::
  "'u url_tools \<Rightarrow> plan \<Rightarrow> string \<Rightarrow> attestation list \<Rightarrow> string \<Rightarrow> read_result \<Rightarrow> derived_state \<Rightarrow> evidence_bundle result" where
  "bundle_of tools p reference attestations bytes read state =
     (let ob = derive_observations (rr_events read) in
      if ob_started_at ob = 0 \<or> ob_observed_at ob = 0 then Inl (Errorf ''journal observation metadata is incomplete'' [])
      else bind_result (normalize_attestations tools attestations) (\<lambda>found.
      bind_result (for_each (record_operation tools p ob) ([], []) (ds_operations state)) (\<lambda>(records, refs).
      bind_result (for_each (record_target p ob records refs) [] (ds_targets state)) (\<lambda>targets.
      Inr \<lparr>eb_schema_version = evidence_schema, eb_observed_at = ob_observed_at ob, eb_plan_id = pl_id p,
        eb_protocol_version = pl_protocol_version p,
        eb_run = \<lparr>eu_id = ds_run_id state, eu_started_at = ob_started_at ob, eu_completed_at = ob_completed_at ob,
          eu_cancelled_at = ob_cancelled_at ob, eu_completed = ds_completed state, eu_cancelled = ds_cancelled state\<rparr>,
        eb_release = \<lparr>el_id = rel_id (pl_release p),
          el_artifacts = sort_key ea_name (map evidence_artifact_of (rel_artifacts (pl_release p)))\<rparr>,
        eb_journal = \<lparr>ej_reference = reference, ej_digest = evidence_digest bytes,
          ej_bytes = rr_valid_bytes read, ej_events = length (rr_events read), ej_truncated_tail = rr_truncated_tail read,
          ej_schema_version = schema_version\<rparr>,
        eb_targets = sort_key et_id targets, eb_attestations = found\<rparr>))))"

lemma build_bundle_Inr:
  "build_bundle unmarshal tools p raw reference attestations = Inr b \<longleftrightarrow>
     valid_identifier (pl_id p) \<and> validate_text_max ''journal reference'' reference 2048 False = None \<and> raw \<noteq> []
     \<and> (\<exists>read state. read_journal unmarshal (whole raw) = Inr read \<and> rr_events read \<noteq> [] \<and> 0 < rr_valid_bytes read
       \<and> rr_valid_bytes read \<le> int (length raw) \<and> reduce p (rr_events read) = Inr state
       \<and> bundle_of tools p reference attestations (take (nat (rr_valid_bytes read)) raw) read state = Inr b)"
  unfolding build_bundle_def bundle_of_def whole_def
  by (auto simp: bind_result_Inr wrap_result_Inr Let_def not_le not_less)

lemma bundle_of_Inr:
  assumes "bundle_of tools p reference attestations bytes read state = Inr b"
  shows "bundle_of tools p reference attestations bytes (read\<lparr>rr_truncated_tail := t\<rparr>) state
      = Inr (b\<lparr>eb_journal := (eb_journal b)\<lparr>ej_truncated_tail := t\<rparr>\<rparr>)"
    and "ej_bytes (eb_journal b) = rr_valid_bytes read" "ej_events (eb_journal b) = length (rr_events read)"
    and "ej_digest (eb_journal b) = evidence_digest bytes"
    and "eu_id (eb_run b) = ds_run_id state" "eu_completed (eb_run b) = ds_completed state" "eu_cancelled (eb_run b) = ds_cancelled state"
    and "\<exists>ob records refs targets. for_each (record_operation tools p ob) ([], []) (ds_operations state) = Inr (records, refs)
       \<and> for_each (record_target p ob records refs) [] (ds_targets state) = Inr targets \<and> eb_targets b = sort_key et_id targets"
  using assms unfolding bundle_of_def by (auto simp: Let_def bind_result_Inr split: if_splits) blast

section \<open>The property\<close>

text \<open>C27  A bundle reports what the durable part of the journal says: its digest is that of the bytes that a later reader
  accepts in full, the run, its targets and their operations have the states that these events reduce to, none missing
  and none added, and from these bytes alone the same bundle is built, whatever a crash left after them.\<close>

theorem bundle_reports_the_journal:
  assumes "build_bundle unmarshal tools p raw reference attestations = Inr b"
  shows "\<exists>read state. read_journal unmarshal (whole (durable_part b raw)) = Inr read \<and> \<not> rr_truncated_tail read
    \<and> ej_digest (eb_journal b) = evidence_digest (durable_part b raw) \<and> ej_events (eb_journal b) = length (rr_events read)
    \<and> reduce p (rr_events read) = Inr state
    \<and> eu_id (eb_run b) = ds_run_id state \<and> eu_completed (eb_run b) = ds_completed state \<and> eu_cancelled (eb_run b) = ds_cancelled state
    \<and> mset (map target_view (eb_targets b)) = mset (map (\<lambda>ts. (ts_id ts, ts_state ts, ts_reconcile_required ts, ts_ambiguous ts)) (ds_targets state))
    \<and> (\<forall>t \<in> set (eb_targets b). mset (map record_view (et_operations t))
        = mset (map derived_view (filter (\<lambda>os. os_target_id os = et_id t) (ds_operations state))))
    \<and> build_bundle unmarshal tools p (durable_part b raw) reference attestations
        = Inr (b\<lparr>eb_journal := (eb_journal b)\<lparr>ej_truncated_tail := False\<rparr>\<rparr>)"
proof -
  obtain read state where head: "valid_identifier (pl_id p)" "validate_text_max ''journal reference'' reference 2048 False = None" "raw \<noteq> []"
    and read: "read_journal unmarshal (whole raw) = Inr read" "rr_events read \<noteq> []" "0 < rr_valid_bytes read"
    and state: "reduce p (rr_events read) = Inr state"
    and made: "bundle_of tools p reference attestations (take (nat (rr_valid_bytes read)) raw) read state = Inr b"
    using assms unfolding build_bundle_Inr by blast
  note parts = bundle_of_Inr [OF made] and again = read_again [OF read(1)]
  have bytes: "durable_part b raw = take (nat (rr_valid_bytes read)) raw" by (simp add: durable_part_def parts(2))
  have "build_bundle unmarshal tools p (durable_part b raw) reference attestations
      = Inr (b\<lparr>eb_journal := (eb_journal b)\<lparr>ej_truncated_tail := False\<rparr>\<rparr>)"
    unfolding build_bundle_Inr bytes using head read state again parts(1) by auto
  moreover obtain ob records refs targets where ops: "for_each (record_operation tools p ob) ([], []) (ds_operations state) = Inr (records, refs)"
    and targets: "for_each (record_target p ob records refs) [] (ds_targets state) = Inr targets" "eb_targets b = sort_key et_id targets"
    using parts(8) by blast
  have "mset (map record_view (et_operations t)) = mset (map derived_view (filter (\<lambda>os. os_target_id os = et_id t) (ds_operations state)))"
    if "t \<in> set targets" for t
  proof -
    have "mset (map record_view (et_operations t)) = mset (map record_view (belonging (et_id t) records))"
      using recorded_targets [OF targets(1)] that by simp
    then show ?thesis by (simp only: belonging_view recorded_operations [OF ops] list.map append_Nil belonging_map)
  qed
  moreover have "mset (map target_view (eb_targets b)) = mset (map target_view targets)"
    using targets(2) by simp
  ultimately show ?thesis
    using recorded_targets [OF targets(1)] targets(2) again(1) state parts(3-7)
    by (intro exI [of _ "read\<lparr>rr_truncated_tail := False\<rparr>"] exI [of _ state]) (simp add: bytes)
qed

text \<open>The witness: the journal of a run that crashed after it had started its first attempt, and in the middle of a frame.\<close>

definition no_addresses :: "unit url_tools" where
  "no_addresses = \<lparr>ut_parse = (\<lambda>_. None), ut_scheme = (\<lambda>_. []), ut_host = (\<lambda>_. []), ut_has_user = (\<lambda>_. False), ut_set_user = (\<lambda>_ u. u),
     ut_query = (\<lambda>_. []), ut_set_query = (\<lambda>_ u. u), ut_text = (\<lambda>_. [])\<rparr>"

definition torn_journal :: string where
  "torn_journal = frames demo_marshal demo_start @ ''x''"

lemma demo_stored: "map stored_event demo_start = demo_start"
  by (simp add: demo_start_def stored_event_def json_compact_def demo_defs)

lemma torn_read: "read_journal demo_unmarshal (whole torn_journal)
    = Inr \<lparr>rr_events = demo_start, rr_truncated_tail = True, rr_valid_bytes = int (length (frames demo_marshal demo_start))\<rparr>"
proof -
  have "read_frames demo_unmarshal None ''x'' res e r = Inr (res\<lparr>rr_truncated_tail := True\<rparr>)" for res e r
    by (subst read_frames.simps) (simp add: read_full_def frame_header_bytes_def)
  then show ?thesis
    using read_frames_events [OF demo_readable, of None "''x''" empty_result]
    by (simp add: read_journal_def whole_def torn_journal_def add_events_def empty_result_def demo_stored)
qed

lemma demo_start_reduces: "\<exists>s. reduce demo_plan demo_start = Inr s \<and> list_all (\<lambda>o1. (os_id o1 = ''a'' \<or> os_id o1 = ''b'') \<and> os_evidence o1 = []) (ds_operations s)
    \<and> list_all (\<lambda>t. ts_id t = ''t'') (ds_targets s)"
proof -
  have plan: "valid_identifier (pl_id demo_plan)" by (simp add: demo_plan_def text_eval)
  obtain s where s: "for_each (reduce_event demo_plan) (initial_reducer demo_plan) demo_start = Inr s"
    "list_all (\<lambda>o1. (os_id o1 = ''a'' \<or> os_id o1 = ''b'') \<and> os_evidence o1 = []) (map snd (rd_operations s))"
    by (simp add: demo_start_def reduce_eval)
  have targets: "map fst (target_operations demo_plan) = [''t'']"
    by (simp add: target_operations_def demo_defs)
  have "list_all (\<lambda>t. ts_id t = ''t'') (ds_targets (derived_of demo_plan s))"
  proof -
    have "ts_id (derive_target st ops x) = fst x" for st ops x by (cases x) (simp add: derive_target_def Let_def)
    moreover have "fst x = ''t''" if "x \<in> set (target_operations demo_plan)" for x
      using arg_cong [OF targets, of set] that by (metis (no_types, lifting) empty_set imageI list.set_map list.simps(15) singletonD)
    ultimately show ?thesis by (simp add: derived_of_def derive_targets_def list_all_iff)
  qed
  moreover have "list_all (\<lambda>o1. (os_id o1 = ''a'' \<or> os_id o1 = ''b'') \<and> os_evidence o1 = []) (ds_operations (derived_of demo_plan s))"
    using s(2) by (auto simp: derived_of_def list_all_iff operation_state.defs)
  ultimately show ?thesis using s(1) plan by (simp add: reduce_def)
qed

lemma demo_bundle: "\<exists>b. build_bundle demo_unmarshal no_addresses demo_plan torn_journal ''j'' [] = Inr b"
proof -
  obtain s where s: "reduce demo_plan demo_start = Inr s"
    "list_all (\<lambda>o1. (os_id o1 = ''a'' \<or> os_id o1 = ''b'') \<and> os_evidence o1 = []) (ds_operations s)" "list_all (\<lambda>t. ts_id t = ''t'') (ds_targets s)"
    using demo_start_reduces by blast
  let ?ob = "derive_observations demo_start"
  have ops: "\<exists>out. for_each (record_operation no_addresses demo_plan ?ob) acc oss = Inr out"
    if "list_all (\<lambda>o1. (os_id o1 = ''a'' \<or> os_id o1 = ''b'') \<and> os_evidence o1 = []) oss" for oss acc
    using that by (induction oss arbitrary: acc) (auto simp: record_operation_def demo_plan_def demo_operation_def)
  have targets: "\<exists>out. for_each (record_target demo_plan ?ob records refs) acc tss = Inr out"
    if "list_all (\<lambda>t. ts_id t = ''t'') tss" for tss acc records refs
    using that by (induction tss arbitrary: acc) (auto simp: record_target_def Let_def demo_plan_def demo_target_def)
  obtain records refs where o1: "for_each (record_operation no_addresses demo_plan ?ob) ([], []) (ds_operations s) = Inr (records, refs)"
    using ops [OF s(2)] by (metis surj_pair)
  obtain ts where t1: "for_each (record_target demo_plan ?ob records refs) [] (ds_targets s) = Inr ts"
    using targets [OF s(3)] by blast
  have "ob_started_at ?ob \<noteq> 0 \<and> ob_observed_at ?ob \<noteq> 0"
    by (simp add: derive_observations_def demo_start_def demo_defs note_observation_def Let_def operation_observation_event_def)
  then have made: "\<exists>b. bundle_of no_addresses demo_plan ''j'' [] bytes \<lparr>rr_events = demo_start, rr_truncated_tail = True, rr_valid_bytes = n\<rparr> s = Inr b" for bytes n
    using o1 t1 by (simp add: bundle_of_def Let_def normalize_attestations_def)
  have sizes: "0 < length (frames demo_marshal demo_start)" "demo_start \<noteq> []" "torn_journal \<noteq> []"
    "length (frames demo_marshal demo_start) \<le> length torn_journal"
    by (simp_all add: torn_journal_def demo_start_def frame_bytes_def demo_marshal_def encode_frame_def frame_of_def max_record_bytes_def reduce_eval)
  have names: "valid_identifier (pl_id demo_plan)" "validate_text_max ''journal reference'' ''j'' 2048 False = None"
    by (simp_all add: demo_plan_def text_eval validate_text_max_def check_control_def printable_checks valid_string_ascii)
  show ?thesis unfolding build_bundle_Inr using made sizes names torn_read s(1) by auto
qed

theorem bundle_reports_the_journal_witness:
  "\<exists>b read. build_bundle demo_unmarshal no_addresses demo_plan torn_journal ''j'' [] = Inr b
     \<and> read_journal demo_unmarshal (whole (durable_part b torn_journal)) = Inr read \<and> \<not> rr_truncated_tail read"
  using demo_bundle bundle_reports_the_journal by blast

section \<open>Secrets\<close>

text \<open>C28  The evidence of an operation gets into a bundle without its secrets: what is written is the text of a value in
  which every member with a secret name, at any depth, says that it was redacted, and evidence that differs in such
  members only is written the same.\<close>

theorem evidence_hides_secrets:
  assumes "normalize_evidence tools raw = Inr out" and "prints_valid tools"
  shows "(\<exists>v. decode_value (decode_fuel out) out = Inr (v, []) \<and> hides_secrets v \<and> marshal_json v = out)
    \<and> (\<forall>raw'. public_part raw' = public_part raw \<longrightarrow> normalize_evidence tools raw' = Inr out)"
proof -
  obtain n v r where v: "json_ok (sanitize_value tools v)" "out = marshal_json (sanitize_value tools v)"
    using assms by (rule normalize_evidence_value)
  have "decode_value (decode_fuel out) (out @ []) = Inr (canonical_value (sanitize_value tools v), [])"
    using marshal_reads_back [OF v(1)] unfolding reads_back_def v(2) decode_fuel_def
    by (metis ends_number_punctuation(1) less_add_same_cancel1 zero_less_numeral)
  then show ?thesis
    using canonical_hides [OF sanitize_hides [of tools v]] same_public_part [OF _ assms(1)] by (auto simp: marshal_canonical v(2))
qed

text \<open>The witness: a signature that is replaced, whatever it was.\<close>

definition with_token :: "string \<Rightarrow> json" where
  "with_token s = JObject [(''token'', JString s)]"

lemma token_text: "marshal_json (with_token s) = CHR ''{'' # CHR 0x22 # escape_string ''token'' @ CHR 0x22 # CHR '':'' # CHR 0x22 # escape_string s @ [CHR 0x22, CHR ''}'']"
  by (simp add: with_token_def object_text_def member_text_def json_quote_def)

lemma token_decode: "valid_string s \<Longrightarrow> json_decode (marshal_json (with_token s)) = Some (with_token s, [])"
proof -
  assume s: "valid_string s"
  have token: "valid_string ''token''" by (simp add: byte_def)
  have ws: "skip_ws (c # t) = c # t" if "c \<in> {CHR ''{'', CHR 0x22, CHR '':'', CHR ''}''}" for c t
    using that by (auto simp: skip_ws_def is_json_space_def byte_def)
  obtain n where n: "2 * length (marshal_json (with_token s)) + 2 = Suc (Suc (Suc n))"
    by (simp add: token_text)
  obtain d where d: "max_nesting_depth = Suc d" by (simp add: max_nesting_depth_def)
  have key: "parse_key (CHR 0x22 # escape_string ''token'' @ CHR 0x22 # CHR '':'' # t) = Some (''token'', t)" for t
    using parse_string_quoted [OF token] by (simp add: parse_key_def ws byte_def)
  have val: "parse_value (Suc m) e (CHR 0x22 # escape_string s @ CHR 0x22 # t) = Some (JString s, t)" for m e t
    using parse_string_quoted [OF s] by (simp add: ws)
  have bytes: "byte CHR ''{'' = 0x7B" "byte CHR ''}'' = 0x7D" by (simp_all add: byte_def)
  have members: "parse_members (Suc (Suc n)) d (CHR 0x22 # escape_string ''token'' @ CHR 0x22 # CHR '':'' # CHR 0x22 # escape_string s @ [CHR 0x22, CHR ''}''])
      = Some ([(''token'', JString s)], [])"
    unfolding parse_members.simps key val option.case prod.case by (simp add: ws bytes)
  show ?thesis unfolding json_decode_def n d unfolding token_text parse_value.simps(2)
    by (simp add: ws bytes members build_object_def with_token_def del: parse_members.simps)
qed

lemma token_normal: "valid_string s \<Longrightarrow> normalize_json (marshal_json (with_token s)) = Inr (marshal_json (with_token s))"
  by (rule normalize_marshal) (simp add: with_token_def byte_def)

lemma secret_token: "evidence_secret_key ''token''"
  by code_simp

lemma token_evidence: "valid_string s \<Longrightarrow> normalize_evidence tools (marshal_json (with_token s)) = Inr (marshal_json (with_token redaction_mark))"
proof -
  assume s: "valid_string s"
  have "sanitize_value tools (with_token s) = with_token redaction_mark" by (simp add: with_token_def secret_token)
  with s show ?thesis using token_normal [OF valid_redaction(3)] by (simp add: normalize_evidence_def token_normal token_decode)
qed

lemma token_public: "valid_string s \<Longrightarrow> public_part (marshal_json (with_token s)) = Some (JObject [(''token'', JNull)])"
  by (simp add: public_part_def token_normal token_decode) (simp add: with_token_def secret_token)

theorem evidence_hides_secrets_witness:
  "normalize_evidence no_addresses (marshal_json (with_token ''x'')) = Inr (marshal_json (with_token redaction_mark))
   \<and> (\<exists>v. decode_value (decode_fuel (marshal_json (with_token redaction_mark))) (marshal_json (with_token redaction_mark)) = Inr (v, []) \<and> hides_secrets v)"
proof -
  have tools: "prints_valid no_addresses" by (simp add: prints_valid_def no_addresses_def sanitize_uri_def)
  have s: "valid_string ''s''" "valid_string ''x''" by (simp_all add: byte_def)
  from evidence_hides_secrets [OF token_evidence [OF s(1)] tools] token_public [OF s(1)] token_public [OF s(2)] show ?thesis by auto
qed

end
